(* ===== verification/Prelude.thy ===== *)
theory Prelude
  imports Main "HOL-Library.Word"
begin

text \<open>
  Shared vocabulary of the development: results of fallible Rust functions,
  the 64-bit integer operations the services use (checked, saturating), the
  text operations of \<^verbatim>\<open>str\<close> and \<^verbatim>\<open>char\<close>, lowercase hexadecimal, and lemmas on
  tables held as lists of rows with a primary key.

  A Rust \<^verbatim>\<open>char\<close> is a HOL \<^typ>\<open>char\<close>, which covers the Unicode scalar values
  below 256; the character classes are written out for that range. A Rust
  \<^verbatim>\<open>Result<T, E>\<close> is \<^typ>\<open>'e + 'a\<close> with \<^term>\<open>Inl\<close> for the error.
\<close>

named_theorems result_simps \<open>evaluation of Result combinators\<close>
named_theorems table_simps \<open>rows of a table after an insertion or a deletion\<close>

section \<open>Results\<close>

type_synonym ('e, 'a) res = "'e + 'a"

text \<open>\<open>and_then r f\<close> is the \<^verbatim>\<open>?\<close> operator: stop at an error, go on with the value.\<close>

definition and_then :: "('e, 'a) res \<Rightarrow> ('a \<Rightarrow> ('e, 'b) res) \<Rightarrow> ('e, 'b) res" where
  "and_then r f = (case r of Inl e \<Rightarrow> Inl e | Inr a \<Rightarrow> f a)"

definition ok_or :: "'e \<Rightarrow> 'a option \<Rightarrow> ('e, 'a) res" where
  "ok_or e x = (case x of None \<Rightarrow> Inl e | Some a \<Rightarrow> Inr a)"

definition map_err :: "('e \<Rightarrow> 'f) \<Rightarrow> ('e, 'a) res \<Rightarrow> ('f, 'a) res" where
  "map_err g r = (case r of Inl e \<Rightarrow> Inl (g e) | Inr a \<Rightarrow> Inr a)"

lemma and_then_simps [simp, result_simps]:
  "and_then (Inl e) f = Inl e"
  "and_then (Inr a) f = f a"
  by (simp_all add: and_then_def)

lemma ok_or_simps [simp, result_simps]:
  "ok_or e None = Inl e"
  "ok_or e (Some a) = Inr a"
  by (simp_all add: ok_or_def)

lemma map_err_simps [simp, result_simps]:
  "map_err g (Inl e) = Inl (g e)"
  "map_err g (Inr a) = Inr a"
  by (simp_all add: map_err_def)

lemma and_then_Inr_iff: "and_then r f = Inr b \<longleftrightarrow> (\<exists>a. r = Inr a \<and> f a = Inr b)"
  by (cases r) auto

lemma guard_Inr: "(if c then Inl e else r) = Inr b \<longleftrightarrow> \<not> c \<and> r = Inr b"
  by simp

lemma and_then_Inl_iff:
  "and_then r f = Inl e \<longleftrightarrow> r = Inl e \<or> (\<exists>a. r = Inr a \<and> f a = Inl e)"
  by (cases r) auto

lemma map_err_Inr_iff: "map_err g r = Inr a \<longleftrightarrow> r = Inr a"
  by (cases r) auto

lemma ok_or_Inr_iff: "ok_or e x = Inr a \<longleftrightarrow> x = Some a"
  by (cases x) auto

lemma and_thenE:
  assumes "and_then r f = Inr b"
  obtains a where "r = Inr a" and "f a = Inr b"
  using assms by (auto simp: and_then_Inr_iff)

section \<open>64-bit integers\<close>

type_synonym u8 = "8 word"
type_synonym u64 = "64 word"

definition i64_min :: int where "i64_min = - (2 ^ 63)"
definition i64_max :: int where "i64_max = 2 ^ 63 - 1"
definition u64_max :: nat where "u64_max = 2 ^ 64 - 1"

definition in_i64 :: "int \<Rightarrow> bool" where
  "in_i64 x \<longleftrightarrow> i64_min \<le> x \<and> x \<le> i64_max"

text \<open>\<^verbatim>\<open>saturating_add\<close>, \<^verbatim>\<open>saturating_sub\<close> and \<^verbatim>\<open>saturating_mul\<close> of \<^verbatim>\<open>i64\<close>: the exact result
  clamped to the type.\<close>

definition sat_i64 :: "int \<Rightarrow> int" where
  "sat_i64 x = (if x < i64_min then i64_min else if i64_max < x then i64_max else x)"

definition sat_add :: "int \<Rightarrow> int \<Rightarrow> int" where "sat_add a b = sat_i64 (a + b)"
definition sat_sub :: "int \<Rightarrow> int \<Rightarrow> int" where "sat_sub a b = sat_i64 (a - b)"
definition sat_mul :: "int \<Rightarrow> int \<Rightarrow> int" where "sat_mul a b = sat_i64 (a * b)"

lemmas sat_defs = sat_add_def sat_sub_def sat_mul_def sat_i64_def

lemma sat_i64_in_i64: "in_i64 (sat_i64 x)"
  by (simp add: sat_i64_def in_i64_def i64_min_def i64_max_def)

lemma sat_i64_exact: "in_i64 x \<Longrightarrow> sat_i64 x = x"
  by (simp add: sat_i64_def in_i64_def)

lemma sat_i64_mono: "x \<le> y \<Longrightarrow> sat_i64 x \<le> sat_i64 y"
  by (simp add: sat_i64_def i64_min_def i64_max_def)

lemma in_i64_0 [simp]: "in_i64 0"
  by (simp add: in_i64_def i64_min_def i64_max_def)

text \<open>\<^verbatim>\<open>i64::try_from\<close> on an unsigned value, \<^verbatim>\<open>usize::checked_mul\<close> on a 64-bit target, and
  \<^verbatim>\<open>u64::saturating_add\<close>/\<^verbatim>\<open>saturating_sub\<close>.\<close>

definition i64_try_from :: "nat \<Rightarrow> int option" where
  "i64_try_from n = (if int n \<le> i64_max then Some (int n) else None)"

definition checked_mul_u64 :: "nat \<Rightarrow> nat \<Rightarrow> nat option" where
  "checked_mul_u64 a b = (if a * b \<le> u64_max then Some (a * b) else None)"

definition sat_add_u64 :: "nat \<Rightarrow> nat \<Rightarrow> nat" where
  "sat_add_u64 a b = min u64_max (a + b)"

section \<open>Text\<close>

definition char_code :: "char \<Rightarrow> nat" where
  "char_code c = of_char c"

lemma char_code_of [simp]: "char_code (char_of n) = n mod 256"
  by (simp add: char_code_def)

lemma char_of_code [simp]: "char_of (char_code c) = c"
  by (simp add: char_code_def)

lemma char_code_less: "char_code c < 256"
  by (simp add: char_code_def)

text \<open>\<^verbatim>\<open>char::is_whitespace\<close> and \<^verbatim>\<open>char::is_control\<close> below U+0100.\<close>

definition is_whitespace :: "char \<Rightarrow> bool" where
  "is_whitespace c \<longleftrightarrow> (let n = char_code c in (9 \<le> n \<and> n \<le> 13) \<or> n = 32 \<or> n = 133 \<or> n = 160)"

definition is_control :: "char \<Rightarrow> bool" where
  "is_control c \<longleftrightarrow> (let n = char_code c in n < 32 \<or> (127 \<le> n \<and> n < 160))"

definition to_ascii_lower :: "char \<Rightarrow> char" where
  "to_ascii_lower c =
     (let n = char_code c in if 65 \<le> n \<and> n \<le> 90 then char_of (n + 32) else c)"

definition eq_ignore_ascii_case :: "string \<Rightarrow> string \<Rightarrow> bool" where
  "eq_ignore_ascii_case a b \<longleftrightarrow> map to_ascii_lower a = map to_ascii_lower b"

definition trim_by :: "('a \<Rightarrow> bool) \<Rightarrow> 'a list \<Rightarrow> 'a list" where
  "trim_by P xs = rev (dropWhile P (rev (dropWhile P xs)))"

definition trim :: "string \<Rightarrow> string" where
  "trim s = trim_by is_whitespace s"

definition starts_with :: "string \<Rightarrow> string \<Rightarrow> bool" where
  "starts_with s p \<longleftrightarrow> take (length p) s = p"

definition ends_with :: "string \<Rightarrow> string \<Rightarrow> bool" where
  "ends_with s p \<longleftrightarrow> length p \<le> length s \<and> drop (length s - length p) s = p"

text \<open>\<^verbatim>\<open>str::contains\<close> for a nonempty pattern.\<close>

definition str_contains :: "string \<Rightarrow> string \<Rightarrow> bool" where
  "str_contains s p \<longleftrightarrow> list_ex (\<lambda>i. starts_with (drop i s) p) [0 ..< Suc (length s)]"

text \<open>\<^verbatim>\<open>split\<close> on one separator: always at least one piece.\<close>

fun split_on :: "'a \<Rightarrow> 'a list \<Rightarrow> 'a list list" where
  "split_on c [] = [[]]"
| "split_on c (x # xs) =
     (if x = c then [] # split_on c xs
      else (case split_on c xs of [] \<Rightarrow> [[x]] | p # ps \<Rightarrow> (x # p) # ps))"

lemma split_on_nonempty [simp]: "split_on c xs \<noteq> []"
  by (induction xs) (auto split: list.splits)

lemma split_on_no_sep: "c \<notin> set xs \<Longrightarrow> split_on c xs = [xs]"
  by (induction xs) auto

lemma trim_by_nothing:
  assumes "xs = [] \<or> \<not> P (hd xs) \<and> \<not> P (last xs)"
  shows "trim_by P xs = xs"
proof (cases xs)
  case Nil
  then show ?thesis by (simp add: trim_by_def)
next
  case (Cons x ys)
  with assms have "dropWhile P xs = xs" and "\<not> P (hd (rev xs))"
    by (simp, simp only: hd_rev) auto
  with Cons show ?thesis
    by (metis dropWhile_eq_self_iff rev_rev_ident trim_by_def)
qed

lemma trim_by_eq_Nil: "trim_by P xs = [] \<longleftrightarrow> (\<forall>x \<in> set xs. P x)"
proof -
  have "trim_by P xs = [] \<longleftrightarrow> (\<forall>x \<in> set (dropWhile P xs). P x)"
    by (simp add: trim_by_def dropWhile_eq_Nil_conv)
  also have "\<dots> \<longleftrightarrow> (\<forall>x \<in> set xs. P x)"
    by (metis dropWhile_eq_Nil_conv dropWhile_eq_self_iff dropWhile_idem list.set_sel(1))
  finally show ?thesis .
qed

lemma starts_with_append [simp]: "starts_with (p @ s) p"
  by (simp add: starts_with_def)

section \<open>Tasks\<close>

text \<open>Concurrent tasks, each with a number and a state: how many are in a state with \<open>P\<close>, and what
  replacing or removing one does to the count.\<close>

definition count_tasks :: "('a \<Rightarrow> bool) \<Rightarrow> (nat \<times> 'a) list \<Rightarrow> nat" where
  "count_tasks P tasks = length (filter (\<lambda>(_, task). P task) tasks)"

lemma count_tasks_simps [simp]:
  "count_tasks P [] = 0"
  "count_tasks P ((t, task) # tasks) = (if P task then 1 else 0) + count_tasks P tasks"
  by (simp_all add: count_tasks_def)

lemma count_tasks_none: "(\<And>t task. (t, task) \<in> set tasks \<Longrightarrow> \<not> P task) \<Longrightarrow> count_tasks P tasks = 0"
  by (auto simp: count_tasks_def filter_empty_conv)

lemma count_tasks_replace:
  assumes "distinct (map fst tasks)" and "map_of tasks t = Some old"
  shows "count_tasks P (map (\<lambda>(t', task'). if t' = t then (t', task) else (t', task')) tasks) + (if P old then 1 else 0)
       = count_tasks P tasks + (if P task then 1 else 0)"
  using assms
proof (induction tasks)
  case (Cons e tasks)
  obtain t' task' where e: "e = (t', task')" by (cases e)
  show ?case
  proof (cases "t' = t")
    case True
    then have "map (\<lambda>(t', task'). if t' = t then (t', task) else (t', task')) tasks = tasks"
      using Cons.prems(1) by (intro map_idI) (force simp: e)
    with True Cons.prems show ?thesis by (simp add: e)
  qed (use Cons in \<open>auto simp: e\<close>)
qed simp

lemma count_tasks_remove:
  assumes "distinct (map fst tasks)" and "map_of tasks t = Some old"
  shows "count_tasks P (filter (\<lambda>(t', _). t' \<noteq> t) tasks) + (if P old then 1 else 0) = count_tasks P tasks"
  using assms
proof (induction tasks)
  case (Cons e tasks)
  obtain t' task' where e: "e = (t', task')" by (cases e)
  show ?case
  proof (cases "t' = t")
    case True
    then have "filter (\<lambda>(t', _). t' \<noteq> t) tasks = tasks"
      using Cons.prems(1) by (intro filter_True) (force simp: e)
    with True Cons.prems show ?thesis by (simp add: e)
  qed (use Cons in \<open>auto simp: e\<close>)
qed simp

lemma set_task_keys [simp]: "map fst (map (\<lambda>(t', task'). if t' = t then (t', task) else (t', task')) tasks) = map fst tasks"
  by auto

section \<open>Lowercase hexadecimal\<close>

definition hex_digit :: "nat \<Rightarrow> char" where
  "hex_digit n = ''0123456789abcdef'' ! n"

definition hex_byte :: "u8 \<Rightarrow> string" where
  "hex_byte b = [hex_digit (unat b div 16), hex_digit (unat b mod 16)]"

lemma hex_digits_distinct: "distinct ''0123456789abcdef''"
  by simp

lemma hex_digit_inj: "m < 16 \<Longrightarrow> n < 16 \<Longrightarrow> hex_digit m = hex_digit n \<longleftrightarrow> m = n"
  unfolding hex_digit_def
  by (rule nth_eq_iff_index_eq [OF hex_digits_distinct]) simp_all

lemma unat_u8_less: "unat (b :: u8) < 256"
proof -
  have "unat b < 2 ^ LENGTH(8)" by (rule unsigned_less)
  then show ?thesis by simp
qed

lemma hex_byte_inj: "hex_byte a = hex_byte b \<longleftrightarrow> a = b"
proof
  assume eq: "hex_byte a = hex_byte b"
  have "unat a div 16 < 16" "unat b div 16 < 16"
    using unat_u8_less [of a] unat_u8_less [of b] by auto
  with eq have "unat a div 16 = unat b div 16" and "unat a mod 16 = unat b mod 16"
    by (auto simp: hex_byte_def hex_digit_inj)
  then have "unat a = unat b" by (metis div_mult_mod_eq)
  then show "a = b" by (simp add: unsigned_word_eqI)
qed simp

section \<open>Decimal\<close>

fun show_nat :: "nat \<Rightarrow> string" where
  "show_nat n = (if n < 10 then [hex_digit n] else show_nat (n div 10) @ [hex_digit (n mod 10)])"

declare show_nat.simps [simp del]

section \<open>Tables: lists of rows with a primary key\<close>

definition has_key :: "('r \<Rightarrow> 'k) \<Rightarrow> 'k \<Rightarrow> 'r list \<Rightarrow> bool" where
  "has_key key k rows \<longleftrightarrow> (\<exists>r \<in> set rows. key r = k)"

definition row_of :: "('r \<Rightarrow> 'k) \<Rightarrow> 'k \<Rightarrow> 'r list \<Rightarrow> 'r option" where
  "row_of key k rows = find (\<lambda>r. key r = k) rows"

lemma has_key_simps [simp, table_simps]:
  "has_key key k [] = False"
  "has_key key k (r # rows) \<longleftrightarrow> key r = k \<or> has_key key k rows"
  "has_key key k (rows @ rows') \<longleftrightarrow> has_key key k rows \<or> has_key key k rows'"
  by (auto simp: has_key_def)

lemma has_key_filter [table_simps]:
  "has_key key k (filter P rows) \<longleftrightarrow> (\<exists>r \<in> set rows. key r = k \<and> P r)"
  by (auto simp: has_key_def)

lemma has_key_image: "has_key key k rows \<longleftrightarrow> k \<in> key ` set rows"
  by (auto simp: has_key_def)

lemma row_of_simps [simp, table_simps]:
  "row_of key k [] = None"
  "row_of key k (r # rows) = (if key r = k then Some r else row_of key k rows)"
  by (auto simp: row_of_def)

lemma row_of_append [table_simps]:
  "row_of key k (rows @ rows') =
     (case row_of key k rows of None \<Rightarrow> row_of key k rows' | Some r \<Rightarrow> Some r)"
  by (induction rows) auto

lemma row_of_None: "row_of key k rows = None \<longleftrightarrow> \<not> has_key key k rows"
  by (induction rows) auto

lemma row_of_Some: "row_of key k rows = Some r \<Longrightarrow> r \<in> set rows \<and> key r = k"
  by (induction rows) (auto split: if_splits)

lemma row_of_unique:
  assumes "distinct (map key rows)" and "r \<in> set rows"
  shows "row_of key (key r) rows = Some r"
  using assms by (induction rows) (auto dest: image_eqI [where f = key])

lemma distinct_keys_append:
  "distinct (map key (rows @ [r])) \<longleftrightarrow> distinct (map key rows) \<and> \<not> has_key key (key r) rows"
  by (auto simp: has_key_def image_iff)

lemma distinct_keys_filter: "distinct (map key rows) \<Longrightarrow> distinct (map key (filter P rows))"
  by (rule distinct_map_filter)

lemma row_of_filter:
  assumes "distinct (map key rows)"
  shows "row_of key k (filter P rows) =
           (case row_of key k rows of None \<Rightarrow> None | Some r \<Rightarrow> if P r then Some r else None)"
  using assms
proof (induction rows)
  case (Cons r rows)
  show ?case
  proof (cases "key r = k")
    case True
    with Cons.prems have "row_of key k rows = None" and "row_of key k (filter P rows) = None"
      by (auto simp: row_of_None has_key_def image_iff)
    with True show ?thesis by simp
  next
    case False
    with Cons show ?thesis by simp
  qed
qed simp

lemma row_of_map_update:
  assumes "\<And>r. key (f r) = key r"
  shows "row_of key k (map (\<lambda>r. if key r = k0 then f r else r) rows) =
           (if k = k0 then map_option f (row_of key k rows) else row_of key k rows)"
  using assms by (induction rows) auto

lemma length_filter_key:
  assumes "distinct (map key rows)"
  shows "length (filter (\<lambda>r. key r = k) rows) = (if has_key key k rows then 1 else 0)"
  using assms
proof (induction rows)
  case (Cons r rows)
  then show ?case
    by (cases "key r = k") (auto simp: has_key_image filter_empty_conv)
qed simp

lemma row_of_filter_other:
  "\<lbrakk>\<And>r. r \<in> set rows \<Longrightarrow> key r = k \<Longrightarrow> P r\<rbrakk> \<Longrightarrow> row_of key k (filter P rows) = row_of key k rows"
  by (induction rows) auto

end
