(* ===== verification/Contract.thy ===== *)
theory Contract
  imports Prelude
begin

text \<open>
  The dependency-free public HTTP contract (crate \<^verbatim>\<open>replica-contract\<close>): the method,
  stability and surface enumerations, the route record, and the registry of
  public routes that both the replica's route filter and the gateway's
  forwarding table read. The lemmas show what both consumers rely on: every
  registered path is versioned, declared once and declares at least one
  method.
\<close>

definition CONTRACT_ID :: string where
  "CONTRACT_ID = ''camelid-enterprise-replica-http-v1''"

datatype HttpMethod = Get | Post | Delete

fun method_as_str :: "HttpMethod \<Rightarrow> string" where
  "method_as_str Get = ''GET''"
| "method_as_str Post = ''POST''"
| "method_as_str Delete = ''DELETE''"

datatype Stability = Contractual | PinnedImplementation

datatype Surface =
    PublicInference
  | PublicCompatibility
  | ReplicaOperations
  | WorkspaceApplication
  | LegacyCompatibility
  | Diagnostics

record RouteSpec =
  rs_path :: string
  rs_probe_path :: string
  rs_methods :: "HttpMethod list"
  rs_stability :: Stability
  rs_surface :: Surface

definition GET_ONLY :: "HttpMethod list" where "GET_ONLY = [Get]"
definition POST_ONLY :: "HttpMethod list" where "POST_ONLY = [Post]"

definition route :: "string \<Rightarrow> string \<Rightarrow> HttpMethod list \<Rightarrow> Surface \<Rightarrow> RouteSpec" where
  "route path probe_path methods surface =
     \<lparr>rs_path = path, rs_probe_path = probe_path, rs_methods = methods,
      rs_stability = Contractual, rs_surface = surface\<rparr>"

definition PUBLIC_ROUTES :: "RouteSpec list" where
  "PUBLIC_ROUTES =
    [route ''/v1/health'' ''/v1/health'' GET_ONLY PublicInference,
     route ''/v1/models'' ''/v1/models'' GET_ONLY PublicInference,
     route ''/v1/models/:model'' ''/v1/models/contract-probe'' GET_ONLY PublicInference,
     route ''/v1/completions'' ''/v1/completions'' POST_ONLY PublicInference,
     route ''/v1/chat/completions'' ''/v1/chat/completions'' POST_ONLY PublicInference,
     route ''/v1/embeddings'' ''/v1/embeddings'' POST_ONLY PublicCompatibility,
     route ''/v1/responses'' ''/v1/responses'' POST_ONLY PublicCompatibility,
     route ''/v1/messages'' ''/v1/messages'' POST_ONLY PublicCompatibility,
     route ''/v1/rerank'' ''/v1/rerank'' POST_ONLY PublicCompatibility,
     route ''/v1/reranking'' ''/v1/reranking'' POST_ONLY PublicCompatibility]"

definition contractual_routes :: "RouteSpec list" where
  "contractual_routes = PUBLIC_ROUTES"

lemmas contract_defs = contractual_routes_def PUBLIC_ROUTES_def route_def GET_ONLY_def POST_ONLY_def

lemma contractual_paths_distinct: "distinct (map rs_path contractual_routes)"
  by (simp add: contract_defs)

lemma contractual_route_shape:
  "r \<in> set contractual_routes \<Longrightarrow>
     starts_with (rs_path r) ''/v1/'' \<and> rs_methods r \<noteq> [] \<and> distinct (rs_methods r)
     \<and> rs_stability r = Contractual"
  by (auto simp: contract_defs starts_with_def)

lemma method_as_str_inj [simp]: "method_as_str m = method_as_str n \<longleftrightarrow> m = n"
  by (cases m; cases n) simp_all

end
