(* ===== verification/Identity.thy ===== *)
theory Identity
  imports Prelude "HOL-Library.Char_ord" "HOL-Library.List_Lexorder" "HOL-Library.Product_Lexorder"
begin

text \<open>
  The identity store (crate \<^verbatim>\<open>identity\<close>): principals, organizations, memberships and
  bearer tokens in SQLite. The database is a record of four tables, each a list
  of rows; a statement checks the primary and foreign keys the schema declares
  and refuses with the engine's constraint error; a write transaction
  (\<open>write_tx\<close>) keeps the old database when its body fails. Randomness, the
  system clock and SHA-256 are arguments: a source of random bytes per id, one
  clock reading per call of \<^verbatim>\<open>unix_now\<close>, and the digest function.
\<close>

section \<open>Identifiers, contexts, errors\<close>

type_synonym PrincipalId = string
type_synonym OrganizationId = string

record AuthenticatedContext =
  principal_id :: PrincipalId
  organization_id :: OrganizationId

datatype IdentityError =
    InvalidToken
  | ExpiredToken
  | UnknownPrincipal
  | UnknownOrganization
  | NoOrganizationMembership
  | AmbiguousOrganization
  | NotOrganizationMember
  | UnsupportedSchemaVersion int int
  | MigrationIntegrity string
  | Storage string

definition TOKEN_BYTES :: nat where "TOKEN_BYTES = 32"
definition PRINCIPAL_BYTES :: nat where "PRINCIPAL_BYTES = 16"
definition ORGANIZATION_BYTES :: nat where "ORGANIZATION_BYTES = 16"
definition TOKEN_PREFIX :: string where "TOKEN_PREFIX = ''cme_''"
definition IDENTITY_SCHEMA_VERSION :: int where "IDENTITY_SCHEMA_VERSION = 3"

section \<open>Clock, lifetimes, random identifiers, token hashes\<close>

text \<open>The system time is a signed number of nanoseconds since the Unix epoch.\<close>

definition unix_now :: "int \<Rightarrow> int" where
  "unix_now system_time =
     (if 0 \<le> system_time
      then (case i64_try_from (nat (system_time div 10 ^ 9)) of
              Some seconds \<Rightarrow> seconds
            | None \<Rightarrow> i64_max)
      else (case i64_try_from (nat ((- system_time) div 10 ^ 9)) of
              Some seconds \<Rightarrow> - seconds
            | None \<Rightarrow> i64_min))"

datatype TokenLifetime = Never | Until int

definition expires_in :: "int \<Rightarrow> nat \<Rightarrow> TokenLifetime" where
  "expires_in now seconds =
     Until (sat_add now (case i64_try_from seconds of Some s \<Rightarrow> s | None \<Rightarrow> i64_max))"

fun expires_at :: "TokenLifetime \<Rightarrow> int option" where
  "expires_at Never = None"
| "expires_at (Until instant) = Some instant"

datatype RotationLifetime = Preserved | Replaced TokenLifetime

definition to_hex :: "u8 list \<Rightarrow> string" where
  "to_hex bytes = concat (map hex_byte bytes)"

definition random_hex :: "(nat \<Rightarrow> u8) \<Rightarrow> nat \<Rightarrow> string" where
  "random_hex entropy len_bytes = to_hex (map entropy [0..<len_bytes])"

definition random_id :: "(nat \<Rightarrow> u8) \<Rightarrow> string \<Rightarrow> string" where
  "random_id entropy label = label @ ''_'' @ random_hex entropy PRINCIPAL_BYTES"

definition random_organization_id :: "(nat \<Rightarrow> u8) \<Rightarrow> string" where
  "random_organization_id entropy = ''org_'' @ random_hex entropy ORGANIZATION_BYTES"

definition hash_token :: "(string \<Rightarrow> u8 list) \<Rightarrow> string \<Rightarrow> string" where
  "hash_token sha256 token = to_hex (sha256 token)"

definition mint_token :: "(nat \<Rightarrow> u8) \<Rightarrow> string" where
  "mint_token entropy = TOKEN_PREFIX @ random_hex entropy TOKEN_BYTES"

section \<open>Tables and statements\<close>

record user_row =
  u_principal :: PrincipalId
  u_name :: string
  u_created :: int

record org_row =
  o_id :: OrganizationId
  o_name :: string
  o_created :: int

record membership_row =
  m_org :: OrganizationId
  m_principal :: PrincipalId
  m_created :: int

record token_row =
  t_hash :: string
  t_principal :: PrincipalId
  t_org :: OrganizationId
  t_created :: int
  t_expires :: "int option"

record identity_db =
  users :: "user_row list"
  organizations :: "org_row list"
  memberships :: "membership_row list"
  tokens :: "token_row list"

definition empty_identity_db :: identity_db where
  "empty_identity_db = \<lparr>users = [], organizations = [], memberships = [], tokens = []\<rparr>"

definition m_key :: "membership_row \<Rightarrow> OrganizationId \<times> PrincipalId" where
  "m_key m = (m_org m, m_principal m)"

definition t_key :: "token_row \<Rightarrow> OrganizationId \<times> PrincipalId" where
  "t_key t = (t_org t, t_principal t)"

definition insert_user :: "user_row \<Rightarrow> identity_db \<Rightarrow> (IdentityError, identity_db) res" where
  "insert_user u db =
     (if has_key u_principal (u_principal u) (users db)
      then Inl (Storage ''UNIQUE constraint failed: users.principal_id'')
      else Inr (db\<lparr>users := users db @ [u]\<rparr>))"

definition insert_organization :: "org_row \<Rightarrow> identity_db \<Rightarrow> (IdentityError, identity_db) res" where
  "insert_organization r db =
     (if has_key o_id (o_id r) (organizations db)
      then Inl (Storage ''UNIQUE constraint failed: organizations.organization_id'')
      else Inr (db\<lparr>organizations := organizations db @ [r]\<rparr>))"

definition insert_membership :: "membership_row \<Rightarrow> identity_db \<Rightarrow> (IdentityError, identity_db) res" where
  "insert_membership r db =
     (if has_key m_key (m_key r) (memberships db)
      then Inl (Storage ''UNIQUE constraint failed: organization_memberships.organization_id, organization_memberships.principal_id'')
      else if \<not> has_key o_id (m_org r) (organizations db) \<or> \<not> has_key u_principal (m_principal r) (users db)
      then Inl (Storage ''FOREIGN KEY constraint failed'')
      else Inr (db\<lparr>memberships := memberships db @ [r]\<rparr>))"

text \<open>\<^verbatim>\<open>INSERT OR IGNORE\<close> skips a row whose primary key is taken; foreign keys still apply.\<close>

definition insert_or_ignore_membership ::
    "membership_row \<Rightarrow> identity_db \<Rightarrow> (IdentityError, identity_db) res" where
  "insert_or_ignore_membership r db =
     (if has_key m_key (m_key r) (memberships db) then Inr db else insert_membership r db)"

definition insert_token :: "token_row \<Rightarrow> identity_db \<Rightarrow> (IdentityError, identity_db) res" where
  "insert_token t db =
     (if has_key t_hash (t_hash t) (tokens db)
      then Inl (Storage ''UNIQUE constraint failed: tokens.token_hash'')
      else if \<not> has_key m_key (t_key t) (memberships db)
      then Inl (Storage ''FOREIGN KEY constraint failed'')
      else Inr (db\<lparr>tokens := tokens db @ [t]\<rparr>))"

text \<open>Deleting a membership cascades to the tokens scoped to it; both deletions report
  nothing but the number of rows their own table lost.\<close>

definition delete_membership :: "PrincipalId \<Rightarrow> OrganizationId \<Rightarrow> identity_db \<Rightarrow> nat \<times> identity_db" where
  "delete_membership p g db =
     (length (filter (\<lambda>m. m_key m = (g, p)) (memberships db)),
      db\<lparr>memberships := filter (\<lambda>m. m_key m \<noteq> (g, p)) (memberships db),
         tokens := filter (\<lambda>t. t_key t \<noteq> (g, p)) (tokens db)\<rparr>)"

definition delete_token :: "string \<Rightarrow> identity_db \<Rightarrow> nat \<times> identity_db" where
  "delete_token h db =
     (length (filter (\<lambda>t. t_hash t = h) (tokens db)),
      db\<lparr>tokens := filter (\<lambda>t. t_hash t \<noteq> h) (tokens db)\<rparr>)"

text \<open>A write transaction: commit on success, roll back when the body returns an error.\<close>

definition write_tx ::
    "(identity_db \<Rightarrow> (IdentityError, 'a \<times> identity_db) res) \<Rightarrow> identity_db
       \<Rightarrow> (IdentityError, 'a) res \<times> identity_db" where
  "write_tx body db = (case body db of Inl e \<Rightarrow> (Inl e, db) | Inr (a, db') \<Rightarrow> (Inr a, db'))"

section \<open>Queries\<close>

definition principal_exists :: "PrincipalId \<Rightarrow> identity_db \<Rightarrow> bool" where
  "principal_exists p db = has_key u_principal p (users db)"

definition require_organization :: "OrganizationId \<Rightarrow> identity_db \<Rightarrow> (IdentityError, unit) res" where
  "require_organization g db =
     (if has_key o_id g (organizations db) then Inr () else Inl UnknownOrganization)"

definition is_member :: "PrincipalId \<Rightarrow> OrganizationId \<Rightarrow> identity_db \<Rightarrow> bool" where
  "is_member p g db = has_key m_key (g, p) (memberships db)"

definition member_orgs :: "PrincipalId \<Rightarrow> identity_db \<Rightarrow> OrganizationId list" where
  "member_orgs p db = sort (map m_org (filter (\<lambda>m. m_principal m = p) (memberships db)))"

record Credential =
  c_principal :: PrincipalId
  c_org :: OrganizationId
  c_created :: int
  c_expires :: "int option"

definition still_valid :: "int \<Rightarrow> Credential \<Rightarrow> (IdentityError, Credential) res" where
  "still_valid now c =
     (case c_expires c of
        Some expires \<Rightarrow> if now \<ge> expires then Inl ExpiredToken else Inr c
      | None \<Rightarrow> Inr c)"

definition issued_lifetime :: "int \<Rightarrow> Credential \<Rightarrow> TokenLifetime" where
  "issued_lifetime now c =
     (case c_expires c of
        None \<Rightarrow> Never
      | Some expires \<Rightarrow> Until (sat_add now (sat_sub expires (c_created c))))"

definition lookup_credential ::
    "(string \<Rightarrow> u8 list) \<Rightarrow> string \<Rightarrow> identity_db \<Rightarrow> (IdentityError, Credential) res" where
  "lookup_credential sha256 token db =
     (case find (\<lambda>t. t_hash t = hash_token sha256 token \<and> is_member (t_principal t) (t_org t) db) (tokens db) of
        None \<Rightarrow> Inl InvalidToken
      | Some t \<Rightarrow> Inr \<lparr>c_principal = t_principal t, c_org = t_org t,
                       c_created = t_created t, c_expires = t_expires t\<rparr>)"

end
