(* ===== verification/IdentityStore.thy ===== *)
theory IdentityStore
  imports Identity
begin

text \<open>
  The operations of \<^verbatim>\<open>SqliteIdentityStore\<close>: account and organization management,
  token issuance, rotation, resolution and revocation, each as a function on
  the database with the branches of the source in order, and the step relation
  of everything a process may do to the database. The invariant
  (\<open>identity_inv\<close>) is key uniqueness of the four tables and referential
  integrity; every operation keeps it.
\<close>

section \<open>Operations\<close>

definition create_user ::
    "(nat \<Rightarrow> u8) \<Rightarrow> (nat \<Rightarrow> u8) \<Rightarrow> int \<Rightarrow> string \<Rightarrow> identity_db
       \<Rightarrow> (IdentityError, PrincipalId) res \<times> identity_db" where
  "create_user user_entropy org_entropy now name =
     (let prin = random_id user_entropy ''usr'';
          organization = random_organization_id org_entropy
      in write_tx (\<lambda>db.
        and_then (insert_user \<lparr>u_principal = prin, u_name = name, u_created = now\<rparr> db) (\<lambda>db.
        and_then (insert_organization
          \<lparr>o_id = organization, o_name = ''Personal organization for '' @ name, o_created = now\<rparr> db) (\<lambda>db.
        and_then (insert_membership
          \<lparr>m_org = organization, m_principal = prin, m_created = now\<rparr> db) (\<lambda>db.
        Inr (prin, db))))))"

definition create_organization ::
    "(nat \<Rightarrow> u8) \<Rightarrow> int \<Rightarrow> string \<Rightarrow> identity_db \<Rightarrow> (IdentityError, OrganizationId) res \<times> identity_db" where
  "create_organization entropy now name db =
     (let organization = random_organization_id entropy
      in case insert_organization \<lparr>o_id = organization, o_name = name, o_created = now\<rparr> db of
           Inl e \<Rightarrow> (Inl e, db)
         | Inr db' \<Rightarrow> (Inr organization, db'))"

definition create_user_in_organization ::
    "(nat \<Rightarrow> u8) \<Rightarrow> int \<Rightarrow> string \<Rightarrow> OrganizationId \<Rightarrow> identity_db
       \<Rightarrow> (IdentityError, PrincipalId) res \<times> identity_db" where
  "create_user_in_organization entropy now name organization =
     (let prin = random_id entropy ''usr''
      in write_tx (\<lambda>db.
        and_then (require_organization organization db) (\<lambda>_.
        and_then (insert_user \<lparr>u_principal = prin, u_name = name, u_created = now\<rparr> db) (\<lambda>db.
        and_then (insert_membership
          \<lparr>m_org = organization, m_principal = prin, m_created = now\<rparr> db) (\<lambda>db.
        Inr (prin, db))))))"

definition add_principal_to_organization ::
    "int \<Rightarrow> PrincipalId \<Rightarrow> OrganizationId \<Rightarrow> identity_db \<Rightarrow> (IdentityError, unit) res \<times> identity_db" where
  "add_principal_to_organization now prin organization = write_tx (\<lambda>db.
     and_then (require_organization organization db) (\<lambda>_.
     if \<not> principal_exists prin db then Inl UnknownPrincipal
     else and_then (insert_or_ignore_membership
            \<lparr>m_org = organization, m_principal = prin, m_created = now\<rparr> db) (\<lambda>db.
          Inr ((), db))))"

definition organizations_for_principal ::
    "PrincipalId \<Rightarrow> identity_db \<Rightarrow> (IdentityError, OrganizationId list) res" where
  "organizations_for_principal prin db =
     (if \<not> principal_exists prin db then Inl UnknownPrincipal
      else Inr (member_orgs prin db))"

definition remove_principal_from_organization ::
    "PrincipalId \<Rightarrow> OrganizationId \<Rightarrow> identity_db \<Rightarrow> (IdentityError, unit) res \<times> identity_db" where
  "remove_principal_from_organization prin organization = write_tx (\<lambda>db.
     if \<not> principal_exists prin db then Inl UnknownPrincipal
     else and_then (require_organization organization db) (\<lambda>_.
       let (removed, db') = delete_membership prin organization db
       in if removed = 0 then Inl NotOrganizationMember else Inr ((), db')))"

definition issue_token_in_transaction ::
    "(string \<Rightarrow> u8 list) \<Rightarrow> (nat \<Rightarrow> u8) \<Rightarrow> int \<Rightarrow> PrincipalId \<Rightarrow> OrganizationId \<Rightarrow> TokenLifetime
       \<Rightarrow> identity_db \<Rightarrow> (IdentityError, string \<times> identity_db) res" where
  "issue_token_in_transaction sha256 entropy now prin organization lifetime db =
     (if \<not> principal_exists prin db then Inl UnknownPrincipal
      else and_then (require_organization organization db) (\<lambda>_.
        if \<not> is_member prin organization db then Inl NotOrganizationMember
        else let token = mint_token entropy
             in and_then (insert_token
                  \<lparr>t_hash = hash_token sha256 token, t_principal = prin, t_org = organization,
                   t_created = now, t_expires = expires_at lifetime\<rparr> db) (\<lambda>db.
                Inr (token, db))))"

definition issue_token ::
    "(string \<Rightarrow> u8 list) \<Rightarrow> (nat \<Rightarrow> u8) \<Rightarrow> int \<Rightarrow> PrincipalId \<Rightarrow> TokenLifetime \<Rightarrow> identity_db
       \<Rightarrow> (IdentityError, string) res \<times> identity_db" where
  "issue_token sha256 entropy now prin lifetime = write_tx (\<lambda>db.
     case member_orgs prin db of
       [organization] \<Rightarrow> issue_token_in_transaction sha256 entropy now prin organization lifetime db
     | [] \<Rightarrow> if principal_exists prin db then Inl NoOrganizationMembership else Inl UnknownPrincipal
     | _ \<Rightarrow> Inl AmbiguousOrganization)"

definition issue_token_for_organization ::
    "(string \<Rightarrow> u8 list) \<Rightarrow> (nat \<Rightarrow> u8) \<Rightarrow> int \<Rightarrow> PrincipalId \<Rightarrow> OrganizationId \<Rightarrow> TokenLifetime
       \<Rightarrow> identity_db \<Rightarrow> (IdentityError, string) res \<times> identity_db" where
  "issue_token_for_organization sha256 entropy now prin organization lifetime =
     write_tx (issue_token_in_transaction sha256 entropy now prin organization lifetime)"

definition list_users :: "identity_db \<Rightarrow> (PrincipalId \<times> string) list" where
  "list_users db =
     map (\<lambda>u. (u_principal u, u_name u)) (sort_key (\<lambda>u. (u_created u, u_principal u)) (users db))"

text \<open>The three clock readings are the validity check, the inherited lifetime and the new row's
  creation time, in the order the calls are made.\<close>

definition rotate_token ::
    "(string \<Rightarrow> u8 list) \<Rightarrow> (nat \<Rightarrow> u8) \<Rightarrow> int \<Rightarrow> int \<Rightarrow> int \<Rightarrow> string \<Rightarrow> RotationLifetime
       \<Rightarrow> identity_db \<Rightarrow> (IdentityError, string) res \<times> identity_db" where
  "rotate_token sha256 entropy now_check now_lifetime now_issue token lifetime = write_tx (\<lambda>db.
     and_then (lookup_credential sha256 token db) (\<lambda>found.
     and_then (still_valid now_check found) (\<lambda>credential.
     let new_lifetime = (case lifetime of
           Replaced l \<Rightarrow> l
         | Preserved \<Rightarrow> issued_lifetime now_lifetime credential)
     in and_then (issue_token_in_transaction sha256 entropy now_issue
          (c_principal credential) (c_org credential) new_lifetime db) (\<lambda>(replacement, db).
     let (retired, db') = delete_token (hash_token sha256 token) db
     in if retired \<noteq> 1
        then Inl (Storage (''rotation retired '' @ show_nat retired @ '' tokens instead of exactly 1''))
        else Inr (replacement, db')))))"

definition resolve_context ::
    "(string \<Rightarrow> u8 list) \<Rightarrow> int \<Rightarrow> string \<Rightarrow> identity_db \<Rightarrow> (IdentityError, AuthenticatedContext) res" where
  "resolve_context sha256 now token db =
     and_then (lookup_credential sha256 token db) (\<lambda>found.
     and_then (still_valid now found) (\<lambda>credential.
       Inr \<lparr>principal_id = c_principal credential, organization_id = c_org credential\<rparr>))"

definition resolve ::
    "(string \<Rightarrow> u8 list) \<Rightarrow> int \<Rightarrow> string \<Rightarrow> identity_db \<Rightarrow> (IdentityError, PrincipalId) res" where
  "resolve sha256 now token db =
     and_then (resolve_context sha256 now token db) (\<lambda>context. Inr (principal_id context))"

definition revoke_token ::
    "(string \<Rightarrow> u8 list) \<Rightarrow> string \<Rightarrow> identity_db \<Rightarrow> (IdentityError, unit) res \<times> identity_db" where
  "revoke_token sha256 token db =
     (let (_, db') = delete_token (hash_token sha256 token) db in (Inr (), db'))"

section \<open>Everything a process may do to the database\<close>

inductive identity_step :: "(string \<Rightarrow> u8 list) \<Rightarrow> identity_db \<Rightarrow> identity_db \<Rightarrow> bool"
  for sha256 :: "string \<Rightarrow> u8 list" where
  step_create_user:
    "create_user ue oe now name db = (r, db') \<Longrightarrow> identity_step sha256 db db'"
| step_create_organization:
    "create_organization oe now name db = (r', db') \<Longrightarrow> identity_step sha256 db db'"
| step_create_user_in:
    "create_user_in_organization ue now name g db = (r, db') \<Longrightarrow> identity_step sha256 db db'"
| step_add_member:
    "add_principal_to_organization now p g db = (ru, db') \<Longrightarrow> identity_step sha256 db db'"
| step_remove_member:
    "remove_principal_from_organization p g db = (ru, db') \<Longrightarrow> identity_step sha256 db db'"
| step_issue:
    "issue_token sha256 te now p l db = (rt, db') \<Longrightarrow> identity_step sha256 db db'"
| step_issue_for:
    "issue_token_for_organization sha256 te now p g l db = (rt, db') \<Longrightarrow> identity_step sha256 db db'"
| step_rotate:
    "rotate_token sha256 te n1 n2 n3 tok rl db = (rt, db') \<Longrightarrow> identity_step sha256 db db'"
| step_revoke:
    "revoke_token sha256 tok db = (ru, db') \<Longrightarrow> identity_step sha256 db db'"

inductive identity_reachable :: "(string \<Rightarrow> u8 list) \<Rightarrow> identity_db \<Rightarrow> bool"
  for sha256 :: "string \<Rightarrow> u8 list" where
  reach_empty: "identity_reachable sha256 empty_identity_db"
| reach_step: "identity_reachable sha256 db \<Longrightarrow> identity_step sha256 db db' \<Longrightarrow> identity_reachable sha256 db'"

section \<open>The invariant\<close>

definition identity_inv :: "identity_db \<Rightarrow> bool" where
  "identity_inv db \<longleftrightarrow>
     distinct (map u_principal (users db)) \<and>
     distinct (map o_id (organizations db)) \<and>
     distinct (map m_key (memberships db)) \<and>
     distinct (map t_hash (tokens db)) \<and>
     (\<forall>m \<in> set (memberships db). has_key o_id (m_org m) (organizations db)
                                \<and> has_key u_principal (m_principal m) (users db)) \<and>
     (\<forall>t \<in> set (tokens db). has_key m_key (t_key t) (memberships db))"

lemma identity_inv_empty: "identity_inv empty_identity_db"
  by (simp add: identity_inv_def empty_identity_db_def)

lemma insert_user_inv: "insert_user u db = Inr db' \<Longrightarrow> identity_inv db \<Longrightarrow> identity_inv db'"
  by (auto simp: insert_user_def identity_inv_def has_key_image split: if_splits)

lemma insert_organization_inv:
  "insert_organization r db = Inr db' \<Longrightarrow> identity_inv db \<Longrightarrow> identity_inv db'"
  by (auto simp: insert_organization_def identity_inv_def has_key_image split: if_splits)

lemma insert_membership_inv:
  "insert_membership r db = Inr db' \<Longrightarrow> identity_inv db \<Longrightarrow> identity_inv db'"
  by (auto simp: insert_membership_def identity_inv_def has_key_image split: if_splits)

lemma insert_or_ignore_membership_inv:
  "insert_or_ignore_membership r db = Inr db' \<Longrightarrow> identity_inv db \<Longrightarrow> identity_inv db'"
  by (auto simp: insert_or_ignore_membership_def split: if_splits intro: insert_membership_inv)

lemma insert_token_inv: "insert_token t db = Inr db' \<Longrightarrow> identity_inv db \<Longrightarrow> identity_inv db'"
  by (auto simp: insert_token_def identity_inv_def has_key_image split: if_splits)

lemma delete_membership_inv:
  "identity_inv db \<Longrightarrow> identity_inv (snd (delete_membership p g db))"
  by (auto simp: delete_membership_def identity_inv_def has_key_filter distinct_keys_filter)
     (fastforce simp: has_key_def)

lemma delete_token_inv: "identity_inv db \<Longrightarrow> identity_inv (snd (delete_token h db))"
  by (auto simp: delete_token_def identity_inv_def distinct_keys_filter)

lemmas statement_inv = insert_user_inv insert_organization_inv insert_membership_inv
  insert_or_ignore_membership_inv insert_token_inv

text \<open>A transaction keeps the invariant when its body does on success.\<close>

lemma write_tx_inv:
  assumes "write_tx body db = (r, db')" and "identity_inv db"
    and "\<And>a db'. body db = Inr (a, db') \<Longrightarrow> identity_inv db'"
  shows "identity_inv db'"
  using assms by (auto simp: write_tx_def split: sum.splits)

lemma write_tx_error: "write_tx body db = (Inl e, db') \<Longrightarrow> db' = db"
  by (auto simp: write_tx_def split: sum.splits)

lemma write_tx_ok: "write_tx body db = (Inr a, db') \<longleftrightarrow> body db = Inr (a, db')"
  by (auto simp: write_tx_def split: sum.splits)

lemma create_user_inv:
  "create_user ue oe now name db = (r, db') \<Longrightarrow> identity_inv db \<Longrightarrow> identity_inv db'"
  unfolding create_user_def Let_def
  by (erule (1) write_tx_inv) (auto simp: and_then_Inr_iff dest!: statement_inv)

lemma create_organization_inv:
  "create_organization oe now name db = (r, db') \<Longrightarrow> identity_inv db \<Longrightarrow> identity_inv db'"
  by (auto simp: create_organization_def Let_def split: sum.splits dest!: statement_inv)

lemma create_user_in_organization_inv:
  "create_user_in_organization ue now name g db = (r, db') \<Longrightarrow> identity_inv db \<Longrightarrow> identity_inv db'"
  unfolding create_user_in_organization_def Let_def
  by (erule (1) write_tx_inv) (auto simp: and_then_Inr_iff dest!: statement_inv)

lemma add_principal_inv:
  "add_principal_to_organization now p g db = (r, db') \<Longrightarrow> identity_inv db \<Longrightarrow> identity_inv db'"
  unfolding add_principal_to_organization_def
  by (erule (1) write_tx_inv) (auto simp: and_then_Inr_iff split: if_splits dest!: statement_inv)

lemma remove_principal_inv:
  "remove_principal_from_organization p g db = (r, db') \<Longrightarrow> identity_inv db \<Longrightarrow> identity_inv db'"
  unfolding remove_principal_from_organization_def
  by (erule (1) write_tx_inv)
     (auto simp: and_then_Inr_iff case_prod_unfold Let_def split: if_splits intro: delete_membership_inv)

lemma issue_in_tx_inv:
  "issue_token_in_transaction sha256 te now p g l db = Inr (tok, db') \<Longrightarrow> identity_inv db \<Longrightarrow> identity_inv db'"
  by (auto simp: issue_token_in_transaction_def and_then_Inr_iff Let_def split: if_splits dest!: statement_inv)

lemma issue_token_inv:
  "issue_token sha256 te now p l db = (r, db') \<Longrightarrow> identity_inv db \<Longrightarrow> identity_inv db'"
  unfolding issue_token_def
  by (erule (1) write_tx_inv) (auto split: list.splits if_splits dest: issue_in_tx_inv)

lemma issue_token_for_organization_inv:
  "issue_token_for_organization sha256 te now p g l db = (r, db') \<Longrightarrow> identity_inv db \<Longrightarrow> identity_inv db'"
  unfolding issue_token_for_organization_def
  by (erule (1) write_tx_inv) (auto dest: issue_in_tx_inv)

lemma rotate_token_inv:
  "rotate_token sha256 te n1 n2 n3 tok rl db = (r, db') \<Longrightarrow> identity_inv db \<Longrightarrow> identity_inv db'"
  unfolding rotate_token_def
  by (erule (1) write_tx_inv)
     (auto simp: and_then_Inr_iff Let_def case_prod_unfold split: if_splits
           intro: delete_token_inv dest: issue_in_tx_inv)

lemma revoke_token_inv:
  "revoke_token sha256 tok db = (r, db') \<Longrightarrow> identity_inv db \<Longrightarrow> identity_inv db'"
  by (auto simp: revoke_token_def case_prod_unfold intro: delete_token_inv)

lemmas operation_inv = create_user_inv create_organization_inv create_user_in_organization_inv
  add_principal_inv remove_principal_inv issue_token_inv issue_token_for_organization_inv
  rotate_token_inv revoke_token_inv

lemma identity_step_inv: "identity_step sha256 db db' \<Longrightarrow> identity_inv db \<Longrightarrow> identity_inv db'"
  by (induction rule: identity_step.induct) (auto intro: operation_inv)

lemma identity_reachable_inv: "identity_reachable sha256 db \<Longrightarrow> identity_inv db"
  by (induction rule: identity_reachable.induct) (auto intro: identity_inv_empty identity_step_inv)

end
