(* ===== verification/TokenLifecycle.thy ===== *)
theory TokenLifecycle
  imports IdentityStore
begin

text \<open>
  What the identity store promises about tokens. The abstract view of the store
  is the finite map \<open>grants\<close> from token hashes to token rows; under the
  invariant the join of \<open>lookup_credential\<close> is a lookup in that map, and every
  operation is an update of it: issuing adds one entry, revoking and rotating
  remove one, removing a member removes the entries of that membership, and the
  account operations leave it alone. The locale \<open>credential_store\<close> states the
  part of the contract a bearer-token check relies on.
\<close>

section \<open>The abstract view: grants by token hash\<close>

definition grants :: "identity_db \<Rightarrow> string \<Rightarrow> token_row option" where
  "grants db h = row_of t_hash h (tokens db)"

definition credential_of :: "token_row \<Rightarrow> Credential" where
  "credential_of t = \<lparr>c_principal = t_principal t, c_org = t_org t,
                      c_created = t_created t, c_expires = t_expires t\<rparr>"

definition context_of :: "token_row \<Rightarrow> AuthenticatedContext" where
  "context_of t = \<lparr>principal_id = t_principal t, organization_id = t_org t\<rparr>"

definition usable :: "int \<Rightarrow> token_row \<Rightarrow> bool" where
  "usable now t \<longleftrightarrow> (case t_expires t of None \<Rightarrow> True | Some e \<Rightarrow> now < e)"

definition resolved :: "int \<Rightarrow> token_row option \<Rightarrow> (IdentityError, AuthenticatedContext) res" where
  "resolved now g = (case g of
       None \<Rightarrow> Inl InvalidToken
     | Some t \<Rightarrow> if usable now t then Inr (context_of t) else Inl ExpiredToken)"

lemma credential_of_simps [simp]:
  "c_principal (credential_of t) = t_principal t" "c_org (credential_of t) = t_org t"
  "c_created (credential_of t) = t_created t" "c_expires (credential_of t) = t_expires t"
  by (simp_all add: credential_of_def)

lemma inv_token_is_member:
  "identity_inv db \<Longrightarrow> t \<in> set (tokens db) \<Longrightarrow> is_member (t_principal t) (t_org t) db"
  by (auto simp: identity_inv_def is_member_def t_key_def)

lemma lookup_credential_grants:
  assumes "identity_inv db"
  shows "lookup_credential sha256 token db =
           (case grants db (hash_token sha256 token) of
              None \<Rightarrow> Inl InvalidToken | Some t \<Rightarrow> Inr (credential_of t))"
proof -
  have "find (\<lambda>t. t_hash t = hash_token sha256 token \<and> is_member (t_principal t) (t_org t) db) (tokens db)
        = find (\<lambda>t. t_hash t = hash_token sha256 token) (tokens db)"
    using assms by (intro find_cong) (auto intro: inv_token_is_member)
  then show ?thesis
    by (simp add: lookup_credential_def grants_def row_of_def credential_of_def split: option.split)
qed

lemma still_valid_credential_of:
  "still_valid now (credential_of t) = (if usable now t then Inr (credential_of t) else Inl ExpiredToken)"
  by (simp add: still_valid_def usable_def credential_of_def split: option.split)

text \<open>Resolution reads nothing but the grant of the token's hash and the clock.\<close>

lemma resolve_context_grants:
  "identity_inv db \<Longrightarrow>
     resolve_context sha256 now token db = resolved now (grants db (hash_token sha256 token))"
  by (cases "grants db (hash_token sha256 token)")
     (simp_all add: resolve_context_def lookup_credential_grants still_valid_credential_of resolved_def,
      simp add: context_of_def credential_of_def)

section \<open>Every operation as an update of the grants\<close>

lemma grants_simps [simp]:
  "grants (db\<lparr>users := x\<rparr>) = grants db"
  "grants (db\<lparr>organizations := y\<rparr>) = grants db"
  "grants (db\<lparr>memberships := z\<rparr>) = grants db"
  by (auto simp: grants_def)

lemma grants_delete_token: "grants (snd (delete_token h db)) = (grants db)(h := None)"
proof
  fix k
  show "grants (snd (delete_token h db)) k = ((grants db)(h := None)) k"
  proof (cases "k = h")
    case True
    then show ?thesis
      by (simp add: grants_def delete_token_def row_of_None has_key_filter)
  next
    case False
    then show ?thesis
      by (simp add: grants_def delete_token_def) (rule row_of_filter_other, simp)
  qed
qed

lemma grants_insert_token:
  assumes "insert_token t db = Inr db'"
  shows "grants db' = (grants db)(t_hash t \<mapsto> t) \<and> grants db (t_hash t) = None"
proof -
  from assms have fresh: "\<not> has_key t_hash (t_hash t) (tokens db)"
    and db': "db' = db\<lparr>tokens := tokens db @ [t]\<rparr>"
    by (auto simp: insert_token_def split: if_splits)
  from fresh have none: "grants db (t_hash t) = None"
    by (simp add: grants_def row_of_None)
  have "grants db' k = ((grants db)(t_hash t \<mapsto> t)) k" for k
    using none by (auto simp: grants_def db' row_of_append split: option.split)
  with none show ?thesis by auto
qed

lemma delete_token_count:
  assumes "identity_inv db"
  shows "fst (delete_token h db) = (if grants db h = None then 0 else 1)"
proof -
  have "distinct (map t_hash (tokens db))"
    using assms by (simp add: identity_inv_def)
  then show ?thesis
    by (simp add: delete_token_def grants_def length_filter_key row_of_None)
qed

lemma grants_delete_membership:
  assumes "identity_inv db"
  shows "grants (snd (delete_membership p g db)) h =
           (case grants db h of None \<Rightarrow> None | Some t \<Rightarrow> if t_key t \<noteq> (g, p) then Some t else None)"
proof -
  have "distinct (map t_hash (tokens db))"
    using assms by (simp add: identity_inv_def)
  then show ?thesis
    by (simp add: grants_def delete_membership_def row_of_filter)
qed

lemma grants_issue:
  assumes "issue_token_in_transaction sha256 te now p g l db = Inr (tok, db')"
  shows "tok = mint_token te \<and> grants db (hash_token sha256 tok) = None \<and>
         grants db' = (grants db)(hash_token sha256 tok \<mapsto>
           \<lparr>t_hash = hash_token sha256 tok, t_principal = p, t_org = g, t_created = now,
            t_expires = expires_at l\<rparr>)"
  using assms
  by (auto simp: issue_token_in_transaction_def and_then_Inr_iff Let_def split: if_splits
        dest!: grants_insert_token)

lemma insert_account_grants:
  "insert_user u db = Inr db' \<Longrightarrow> grants db' = grants db"
  "insert_organization r db = Inr db' \<Longrightarrow> grants db' = grants db"
  "insert_membership m db = Inr db' \<Longrightarrow> grants db' = grants db"
  "insert_or_ignore_membership m db = Inr db' \<Longrightarrow> grants db' = grants db"
  by (auto simp: insert_user_def insert_organization_def insert_membership_def
        insert_or_ignore_membership_def split: if_splits)

lemma rotate_token_ok:
  assumes inv: "identity_inv db"
    and ok: "rotate_token sha256 te n1 n2 n3 tok rl db = (Inr new, db')"
  obtains t where "grants db (hash_token sha256 tok) = Some t" and "usable n1 t"
    and "new = mint_token te" and "hash_token sha256 new \<noteq> hash_token sha256 tok"
    and "grants db (hash_token sha256 new) = None"
    and "grants db' = (grants db)(hash_token sha256 new \<mapsto>
           \<lparr>t_hash = hash_token sha256 new, t_principal = t_principal t, t_org = t_org t, t_created = n3,
            t_expires = expires_at (case rl of Replaced l \<Rightarrow> l
                                    | Preserved \<Rightarrow> issued_lifetime n2 (credential_of t))\<rparr>,
           hash_token sha256 tok := None)"
proof -
  from ok obtain found credential db1 where
    found: "lookup_credential sha256 tok db = Inr found" "still_valid n1 found = Inr credential"
    and issue: "issue_token_in_transaction sha256 te n3 (c_principal credential) (c_org credential)
          (case rl of Replaced l \<Rightarrow> l | Preserved \<Rightarrow> issued_lifetime n2 credential) db = Inr (new, db1)"
    and db': "db' = snd (delete_token (hash_token sha256 tok) db1)"
    by (auto simp: rotate_token_def write_tx_ok and_then_Inr_iff Let_def case_prod_unfold
        split: if_splits)
  from found(1) obtain t where t: "grants db (hash_token sha256 tok) = Some t" "found = credential_of t"
    by (auto simp: lookup_credential_grants [OF inv] split: option.splits)
  with found(2) have u: "usable n1 t" "credential = credential_of t"
    by (auto simp: still_valid_credential_of split: if_splits)
  from grants_issue [OF issue] have new: "new = mint_token te" "grants db (hash_token sha256 new) = None"
    by auto
  have neq: "hash_token sha256 new \<noteq> hash_token sha256 tok"
    using t(1) new(2) by auto
  show ?thesis
    by (rule that [OF t(1) u(1) new(1) neq new(2)])
       (use grants_issue [OF issue [unfolded u(2)]] in \<open>simp add: db' grants_delete_token\<close>)
qed

section \<open>The contract a bearer-token check relies on\<close>

locale credential_store =
  fixes resolve_at :: "'s \<Rightarrow> int \<Rightarrow> string \<Rightarrow> (IdentityError, AuthenticatedContext) res"
    and revoke :: "string \<Rightarrow> 's \<Rightarrow> 's"
    and inv :: "'s \<Rightarrow> bool"
  assumes revoke_keeps: "inv s \<Longrightarrow> inv (revoke token s)"
    and revoked_invalid: "inv s \<Longrightarrow> resolve_at (revoke token s) now token = Inl InvalidToken"
    and refusal_kinds: "inv s \<Longrightarrow> resolve_at s now token = Inl e \<Longrightarrow> e = InvalidToken \<or> e = ExpiredToken"
    and invalid_at_all_times: "inv s \<Longrightarrow> resolve_at s now token = Inl InvalidToken
        \<Longrightarrow> resolve_at s later token = Inl InvalidToken"
    and expiry_is_final: "inv s \<Longrightarrow> resolve_at s now token = Inl ExpiredToken \<Longrightarrow> now \<le> later
        \<Longrightarrow> resolve_at s later token = Inl ExpiredToken"
    and valid_earlier: "inv s \<Longrightarrow> resolve_at s later token = Inr c \<Longrightarrow> now \<le> later
        \<Longrightarrow> resolve_at s now token = Inr c"
begin

text \<open>A token never changes whom it authenticates while the store stays the same.\<close>

lemma context_is_stable:
  assumes "inv s" and "resolve_at s a token = Inr c" and "resolve_at s b token = Inr d"
  shows "c = d"
proof (cases "a \<le> b")
  case True
  with assms show ?thesis by (metis valid_earlier sum.inject(2))
next
  case False
  with assms show ?thesis by (metis valid_earlier sum.inject(2) linear)
qed

text \<open>A token that authenticated once and is refused later has expired in between.\<close>

lemma refused_after_valid:
  assumes "inv s" and "resolve_at s a token = Inr c" and "resolve_at s b token = Inl e"
  shows "e = ExpiredToken \<and> a < b"
proof -
  have "e \<noteq> InvalidToken"
    using assms by (metis invalid_at_all_times sum.distinct(1))
  with assms have "e = ExpiredToken"
    using refusal_kinds by blast
  moreover have "a < b"
    using assms valid_earlier [OF assms(1,2), of b] by (cases "b \<le> a") auto
  ultimately show ?thesis ..
qed

end

lemma resolved_Inl_iff:
  "resolved now g = Inl e \<longleftrightarrow>
     (g = None \<and> e = InvalidToken) \<or> (\<exists>t. g = Some t \<and> \<not> usable now t \<and> e = ExpiredToken)"
  by (auto simp: resolved_def split: option.splits if_splits)

lemma resolved_Inr_iff:
  "resolved now g = Inr c \<longleftrightarrow> (\<exists>t. g = Some t \<and> usable now t \<and> c = context_of t)"
  by (auto simp: resolved_def split: option.splits if_splits)

lemma usable_earlier: "usable later t \<Longrightarrow> now \<le> later \<Longrightarrow> usable now t"
  by (auto simp: usable_def split: option.splits)

text \<open>The SQLite store keeps the contract, for any digest function.\<close>

interpretation sqlite: credential_store
  "\<lambda>db now token. resolve_context sha256 now token db"
  "\<lambda>token db. snd (revoke_token sha256 token db)"
  identity_inv
  for sha256
proof (unfold_locales, goal_cases)
  case (1 s token)
  then show ?case by (auto intro: revoke_token_inv [OF surjective_pairing])
next
  case (2 s token now)
  then have "identity_inv (snd (revoke_token sha256 token s))"
    by (auto intro: revoke_token_inv [OF surjective_pairing])
  then show ?case
    by (simp add: resolve_context_grants)
       (simp add: revoke_token_def case_prod_unfold grants_delete_token resolved_def)
next
  case (3 s now token e)
  then show ?case by (auto simp: resolve_context_grants resolved_Inl_iff)
next
  case (4 s now token later)
  then show ?case by (auto simp: resolve_context_grants resolved_Inl_iff)
next
  case (5 s now token later)
  then show ?case by (auto simp: resolve_context_grants resolved_Inl_iff dest: usable_earlier)
next
  case (6 s later token c now)
  then show ?case by (auto simp: resolve_context_grants resolved_Inr_iff dest: usable_earlier)
qed

section \<open>Properties\<close>


text \<open>Also: a token issued for a principal in an organization authenticates exactly that
  principal and organization, at every instant strictly before its expiry and at every instant
  when it has none, is reported expired from that instant on, and leaves every token with
  another digest as it was.\<close>

theorem issued_token_resolves:
  assumes "identity_inv db"
    and "issue_token_for_organization sha256 entropy now p g lifetime db = (Inr token, db')"
  shows "resolve_context sha256 t token db' =
           (case expires_at lifetime of
              None \<Rightarrow> Inr \<lparr>principal_id = p, organization_id = g\<rparr>
            | Some e \<Rightarrow> if t < e then Inr \<lparr>principal_id = p, organization_id = g\<rparr> else Inl ExpiredToken)
       \<and> (\<forall>other. hash_token sha256 other \<noteq> hash_token sha256 token \<longrightarrow>
            resolve_context sha256 t other db' = resolve_context sha256 t other db)"
proof -
  have inv': "identity_inv db'"
    using assms(2,1) by (rule issue_token_for_organization_inv)
  from assms(2) have "issue_token_in_transaction sha256 entropy now p g lifetime db = Inr (token, db')"
    by (simp add: issue_token_for_organization_def write_tx_ok)
  from grants_issue [OF this] show ?thesis
    by (auto simp: resolve_context_grants assms(1) inv' resolved_def usable_def context_of_def
        split: option.split)
qed

text \<open>Also: revoking a token makes it invalid at every later and earlier instant, does not
  touch a token with another digest, and does the same when repeated.\<close>

theorem revoked_token_is_invalid:
  assumes "identity_inv db" and "revoke_token sha256 token db = (r, db')"
  shows "r = Inr () \<and> resolve_context sha256 t token db' = Inl InvalidToken
       \<and> (\<forall>other. hash_token sha256 other \<noteq> hash_token sha256 token \<longrightarrow>
            resolve_context sha256 t other db' = resolve_context sha256 t other db)
       \<and> revoke_token sha256 token db' = (Inr (), db')"
proof -
  have db': "db' = snd (revoke_token sha256 token db)" and r: "r = Inr ()"
    using assms(2) by (auto simp: revoke_token_def case_prod_unfold)
  have "resolve_context sha256 t token db' = Inl InvalidToken"
    unfolding db' using assms(1) by (rule sqlite.revoked_invalid)
  moreover have "resolve_context sha256 t other db' = resolve_context sha256 t other db"
    if "hash_token sha256 other \<noteq> hash_token sha256 token" for other
    using that assms(1) sqlite.revoke_keeps [OF assms(1), of sha256 token]
    by (simp add: db' resolve_context_grants)
       (simp add: revoke_token_def case_prod_unfold grants_delete_token)
  moreover have "revoke_token sha256 token db' = (Inr (), db')"
    using assms(2) by (auto simp: revoke_token_def delete_token_def)
  ultimately show ?thesis using r by blast
qed

text \<open>Property C3: a successful rotation retires exactly the presented token and returns one for
  the same principal and organization: afterwards the old token is invalid at every instant, the
  new one is a different token carrying the requested lifetime, and every third token resolves
  as before.\<close>

theorem rotation_replaces_one_token:
  assumes inv: "identity_inv db"
    and ok: "rotate_token sha256 entropy n1 n2 n3 token (Replaced lifetime) db = (Inr new, db')"
  shows "(\<exists>c. resolve_context sha256 n1 token db = Inr c
            \<and> resolve_context sha256 t new db' =
                (case expires_at lifetime of
                   None \<Rightarrow> Inr c | Some e \<Rightarrow> if t < e then Inr c else Inl ExpiredToken))
       \<and> resolve_context sha256 t token db' = Inl InvalidToken
       \<and> (\<forall>other. hash_token sha256 other \<notin> {hash_token sha256 token, hash_token sha256 new} \<longrightarrow>
            resolve_context sha256 t other db' = resolve_context sha256 t other db)"
proof -
  have inv': "identity_inv db'"
    using ok inv by (rule rotate_token_inv)
  from inv ok obtain row where row: "grants db (hash_token sha256 token) = Some row" "usable n1 row"
    "hash_token sha256 new \<noteq> hash_token sha256 token"
    "grants db' = (grants db)(hash_token sha256 new \<mapsto>
           \<lparr>t_hash = hash_token sha256 new, t_principal = t_principal row, t_org = t_org row,
            t_created = n3, t_expires = expires_at lifetime\<rparr>,
           hash_token sha256 token := None)"
    by (rule rotate_token_ok) (rule that, simp_all)
  have "resolve_context sha256 n1 token db = Inr (context_of row)"
    using row(1,2) by (simp add: resolve_context_grants inv resolved_def)
  with row(3,4) show ?thesis
    by (auto simp: resolve_context_grants inv inv' resolved_def usable_def context_of_def
        split: option.split)
qed

text \<open>Also: a rotation that fails, for whatever reason, leaves the whole database as it was,
  and an expired or unknown token always fails: expiry bounds the access, not only the secret.\<close>

theorem rotation_fails_closed:
  assumes "identity_inv db"
  shows "(rotate_token sha256 entropy n1 n2 n3 token lifetime db = (Inl e, db') \<longrightarrow> db' = db)
       \<and> (resolve_context sha256 n1 token db = Inl f \<longrightarrow>
            rotate_token sha256 entropy n1 n2 n3 token lifetime db = (Inl f, db))"
proof -
  have "rotate_token sha256 entropy n1 n2 n3 token lifetime db = (Inl f, db)"
    if "resolve_context sha256 n1 token db = Inl f"
    using that by (auto simp: resolve_context_def rotate_token_def write_tx_def and_then_Inl_iff)
  then show ?thesis
    by (auto simp: rotate_token_def dest: write_tx_error)
qed

text \<open>Also: a preserved rotation carries the lifetime the token was issued with forward from
  now: a token created at \<open>created\<close> with expiry \<open>e\<close> is replaced by one that is
  valid for \<open>e - created\<close> seconds from the rotation, however much of the original span is left, and
  rotating the replacement again grants the same span again; a token without expiry stays without.\<close>

theorem preserved_rotation_keeps_the_span:
  assumes inv: "identity_inv db"
    and row: "grants db (hash_token sha256 token) = Some row"
    and ok: "rotate_token sha256 entropy n1 now now token Preserved db = (Inr new, db')"
  shows "\<exists>row'. grants db' (hash_token sha256 new) = Some row'
       \<and> t_principal row' = t_principal row \<and> t_org row' = t_org row \<and> t_created row' = now
       \<and> (case t_expires row of
            None \<Rightarrow> t_expires row' = None
          | Some e \<Rightarrow> in_i64 (e - t_created row) \<and> in_i64 (now + (e - t_created row)) \<longrightarrow>
              t_expires row' = Some (now + (e - t_created row))
              \<and> issued_lifetime later (credential_of row') = issued_lifetime later (credential_of row))"
proof -
  from inv ok obtain row0 where row0: "grants db (hash_token sha256 token) = Some row0"
    "hash_token sha256 new \<noteq> hash_token sha256 token"
    "grants db' = (grants db)(hash_token sha256 new \<mapsto>
           \<lparr>t_hash = hash_token sha256 new, t_principal = t_principal row0, t_org = t_org row0,
            t_created = now, t_expires = expires_at (issued_lifetime now (credential_of row0))\<rparr>,
           hash_token sha256 token := None)"
    by (rule rotate_token_ok) (rule that, simp_all)
  from row row0 show ?thesis
    by (auto simp: issued_lifetime_def sat_add_def sat_sub_def sat_i64_exact split: option.split)
qed

text \<open>Also: removing a principal from an organization invalidates every token scoped to
  that membership at once and no other token; removing someone who is not a member is refused
  and changes nothing.\<close>

theorem removal_revokes_scoped_tokens:
  assumes inv: "identity_inv db"
    and removal: "remove_principal_from_organization p g db = (r, db')"
  shows "(r = Inr () \<longleftrightarrow> is_member p g db)
       \<and> (r \<noteq> Inr () \<longrightarrow> db' = db)
       \<and> (r = Inr () \<longrightarrow> \<not> is_member p g db'
            \<and> resolve_context sha256 t token db' =
                (case grants db (hash_token sha256 token) of
                   Some row \<Rightarrow> if t_principal row = p \<and> t_org row = g then Inl InvalidToken
                               else resolve_context sha256 t token db
                 | None \<Rightarrow> Inl InvalidToken))"
proof (cases "is_member p g db")
  case True
  with inv have exists: "principal_exists p db" "has_key o_id g (organizations db)"
    by (auto simp: identity_inv_def is_member_def has_key_def m_key_def principal_exists_def)
  have "fst (delete_membership p g db) \<noteq> 0"
    using True by (auto simp: delete_membership_def is_member_def has_key_def filter_empty_conv)
  with exists removal have r: "r = Inr ()" and db': "db' = snd (delete_membership p g db)"
    by (auto simp: remove_principal_from_organization_def write_tx_def require_organization_def
        case_prod_unfold Let_def)
  have inv': "identity_inv db'"
    unfolding db' using inv by (rule delete_membership_inv)
  have "\<not> is_member p g db'"
    by (simp add: db' is_member_def delete_membership_def has_key_filter)
  moreover have "grants db' h = (case grants db h of None \<Rightarrow> None
      | Some t \<Rightarrow> if t_key t \<noteq> (g, p) then Some t else None)" for h
    unfolding db' using inv by (rule grants_delete_membership)
  ultimately show ?thesis
    using r True by (auto simp: resolve_context_grants inv inv' t_key_def resolved_def split: option.split)
next
  case False
  then have "fst (delete_membership p g db) = 0"
    by (auto simp: delete_membership_def is_member_def has_key_def filter_empty_conv)
  with removal have "\<exists>e. r = Inl e" and "db' = db"
    by (auto simp: remove_principal_from_organization_def write_tx_def require_organization_def
        case_prod_unfold Let_def split: if_splits)
  with False show ?thesis by auto
qed

text \<open>Also: issuing without naming an organization is decided by the number of organizations
  the principal belongs to: exactly one gives a token for that one, none is an error that tells a
  member-less principal from an unknown one, several are refused as ambiguous; every refusal leaves
  the database as it was.\<close>

theorem issue_token_by_membership_count:
  assumes inv: "identity_inv db"
  shows "issue_token sha256 entropy now p lifetime db =
     (case member_orgs p db of
        [] \<Rightarrow> (Inl (if principal_exists p db then NoOrganizationMembership else UnknownPrincipal), db)
      | [g] \<Rightarrow> (if grants db (hash_token sha256 (mint_token entropy)) = None
               then (Inr (mint_token entropy),
                     db\<lparr>tokens := tokens db @ [\<lparr>t_hash = hash_token sha256 (mint_token entropy),
                         t_principal = p, t_org = g, t_created = now, t_expires = expires_at lifetime\<rparr>]\<rparr>)
               else (Inl (Storage ''UNIQUE constraint failed: tokens.token_hash''), db))
      | _ \<Rightarrow> (Inl AmbiguousOrganization, db))"
proof -
  have "principal_exists p db \<and> has_key o_id g (organizations db) \<and> is_member p g db
        \<and> has_key m_key (g, p) (memberships db)"
    if "member_orgs p db = [g]" for g
  proof -
    from that have "g \<in> set (member_orgs p db)" by simp
    then have "\<exists>m \<in> set (memberships db). m_key m = (g, p)"
      by (auto simp: member_orgs_def m_key_def)
    with inv show ?thesis
      by (fastforce simp: identity_inv_def is_member_def principal_exists_def m_key_def has_key_def)
  qed
  then show ?thesis
    by (auto simp: issue_token_def write_tx_def issue_token_in_transaction_def require_organization_def
        insert_token_def t_key_def grants_def row_of_None Let_def split: list.split)
qed

section \<open>Concrete instances\<close>

text \<open>One principal with one organization and one expiring token; the digest sends \<open>''tok''\<close> to the
  stored hash and every other string elsewhere.\<close>

definition demo_sha :: "string \<Rightarrow> u8 list" where
  "demo_sha token = (if token = ''tok'' then [1] else [2])"

definition demo_row :: token_row where
  "demo_row = \<lparr>t_hash = to_hex [1], t_principal = ''usr_a'', t_org = ''org_a'',
               t_created = 100, t_expires = Some 107\<rparr>"

definition demo_db :: identity_db where
  "demo_db = \<lparr>users = [\<lparr>u_principal = ''usr_a'', u_name = ''ada'', u_created = 1\<rparr>],
     organizations = [\<lparr>o_id = ''org_a'', o_name = ''Acme'', o_created = 1\<rparr>],
     memberships = [\<lparr>m_org = ''org_a'', m_principal = ''usr_a'', m_created = 1\<rparr>],
     tokens = [demo_row]\<rparr>"

definition demo_entropy :: "nat \<Rightarrow> u8" where "demo_entropy i = 0"

lemmas demo_defs = demo_db_def demo_row_def demo_sha_def hash_token_def m_key_def t_key_def
  principal_exists_def is_member_def require_organization_def

lemma demo_inv: "identity_inv demo_db"
  by (simp add: identity_inv_def demo_defs)

lemma demo_new_token: "mint_token demo_entropy \<noteq> ''tok''"
  by (simp add: mint_token_def TOKEN_PREFIX_def)

lemma demo_hashes: "to_hex [1] \<noteq> to_hex [2]"
  by (simp add: to_hex_def hex_byte_inj)

lemma demo_grant: "grants demo_db (hash_token demo_sha ''tok'') = Some demo_row"
  by (simp add: grants_def demo_defs)

lemma demo_issue:
  "issue_token_for_organization demo_sha demo_entropy 100 ''usr_a'' ''org_a'' l demo_db =
     (Inr (mint_token demo_entropy), demo_db\<lparr>tokens := [demo_row,
        \<lparr>t_hash = to_hex [2], t_principal = ''usr_a'', t_org = ''org_a'', t_created = 100,
         t_expires = expires_at l\<rparr>]\<rparr>)"
  using demo_new_token demo_hashes
  by (simp add: issue_token_for_organization_def write_tx_def issue_token_in_transaction_def
      insert_token_def Let_def demo_defs)

lemma demo_rotate:
  "rotate_token demo_sha demo_entropy 105 105 105 ''tok'' l demo_db =
     (Inr (mint_token demo_entropy), demo_db\<lparr>tokens :=
        [\<lparr>t_hash = to_hex [2], t_principal = ''usr_a'', t_org = ''org_a'', t_created = 105,
         t_expires = expires_at (case l of Replaced l \<Rightarrow> l
                                 | Preserved \<Rightarrow> issued_lifetime 105 (credential_of demo_row))\<rparr>]\<rparr>)"
  using demo_new_token demo_hashes
  by (simp add: rotate_token_def write_tx_def issue_token_in_transaction_def lookup_credential_def
      still_valid_def credential_of_def delete_token_def insert_token_def Let_def demo_defs
      split: RotationLifetime.split)

lemma demo_reachable: "identity_reachable demo_sha (snd (create_organization demo_entropy 1 ''Acme'' empty_identity_db))"
  by (rule reach_step [OF reach_empty]) (rule step_create_organization, rule surjective_pairing)


theorem issued_token_resolves_witness:
  "resolve_context demo_sha 109 (mint_token demo_entropy)
     (snd (issue_token_for_organization demo_sha demo_entropy 100 ''usr_a'' ''org_a'' (Until 110) demo_db))
   = Inr \<lparr>principal_id = ''usr_a'', organization_id = ''org_a''\<rparr>"
  using issued_token_resolves [OF demo_inv demo_issue, where lifetime = "Until 110" and t = 109] by (simp add: demo_issue)

theorem revoked_token_is_invalid_witness:
  "resolve_context demo_sha 101 ''tok'' (snd (revoke_token demo_sha ''tok'' demo_db)) = Inl InvalidToken"
  using revoked_token_is_invalid [OF demo_inv surjective_pairing, of demo_sha "''tok''" 101] by blast

theorem rotation_replaces_one_token_witness:
  "resolve_context demo_sha 106 ''tok''
     (snd (rotate_token demo_sha demo_entropy 105 105 105 ''tok'' (Replaced Never) demo_db)) = Inl InvalidToken"
  using rotation_replaces_one_token [OF demo_inv demo_rotate, where lifetime = Never and t = 106] by (simp add: demo_rotate)

theorem rotation_fails_closed_witness:
  "rotate_token demo_sha demo_entropy 107 107 107 ''tok'' Preserved demo_db = (Inl ExpiredToken, demo_db)"
proof -
  have "resolve_context demo_sha 107 ''tok'' demo_db = Inl ExpiredToken"
    by (simp add: resolve_context_grants [OF demo_inv] demo_grant resolved_def usable_def demo_row_def)
  then show ?thesis using rotation_fails_closed [OF demo_inv] by blast
qed

theorem preserved_rotation_keeps_the_span_witness:
  "\<exists>row'. grants (snd (rotate_token demo_sha demo_entropy 105 105 105 ''tok'' Preserved demo_db))
            (hash_token demo_sha (mint_token demo_entropy)) = Some row' \<and> t_expires row' = Some 112"
  using preserved_rotation_keeps_the_span [OF demo_inv demo_grant demo_rotate]
  by (simp add: demo_rotate, simp add: demo_row_def in_i64_def i64_min_def i64_max_def) blast

theorem removal_revokes_scoped_tokens_witness:
  "resolve_context demo_sha 101 ''tok'' (snd (remove_principal_from_organization ''usr_a'' ''org_a'' demo_db))
   = Inl InvalidToken"
  using removal_revokes_scoped_tokens [OF demo_inv surjective_pairing, of "''usr_a''" "''org_a''" demo_sha 101 "''tok''"]
  by (simp add: demo_grant, simp add: demo_defs)

theorem issue_token_by_membership_count_witness:
  "issue_token demo_sha demo_entropy 1 ''ghost'' Never demo_db = (Inl UnknownPrincipal, demo_db)"
  using issue_token_by_membership_count [OF demo_inv, of demo_sha demo_entropy 1 "''ghost''" Never]
  by (simp add: member_orgs_def demo_defs)

end
