(* ===== verification/IdentityMigration.thy ===== *)
theory IdentityMigration
  imports TokenLifecycle
begin

text \<open>
  Opening the identity database: the schema version gate, the fresh schema, the
  two migration steps and the validation of a current schema
  (\<^verbatim>\<open>initialize_schema\<close> and what it calls). A database file is its
  \<^verbatim>\<open>user_version\<close> and its four tables, each present or not; the tokens table
  records which of the two later columns it has, and its rows hold NULL where a
  column was added without a value. The main result: migrating a legacy file
  keeps every credential working, for the same principal, without expiry, in a
  personal organization that is the only one of its principal.
\<close>

section \<open>Files\<close>

record raw_token =
  rt_hash :: string
  rt_principal :: PrincipalId
  rt_org :: "OrganizationId option"
  rt_created :: int
  rt_expires :: "int option"

text \<open>\<open>tt_expiry\<close>: no expiry column, or one that is nullable or not.\<close>

record token_table =
  tt_has_org :: bool
  tt_expiry :: "bool option"
  tt_rows :: "raw_token list"

record sqlite_file =
  f_version :: int
  f_users :: "user_row list option"
  f_orgs :: "org_row list option"
  f_memberships :: "membership_row list option"
  f_tokens :: "token_table option"

type_synonym migration = "sqlite_file \<Rightarrow> (IdentityError, sqlite_file) res"

definition ensure_supported_schema_version :: "sqlite_file \<Rightarrow> (IdentityError, unit) res" where
  "ensure_supported_schema_version f =
     (if f_version f > IDENTITY_SCHEMA_VERSION
      then Inl (UnsupportedSchemaVersion (f_version f) IDENTITY_SCHEMA_VERSION)
      else Inr ())"

section \<open>Schema steps\<close>

definition create_schema_v3 :: migration where
  "create_schema_v3 f = Inr (f\<lparr>
     f_users := Some (case f_users f of Some t \<Rightarrow> t | None \<Rightarrow> []),
     f_orgs := Some (case f_orgs f of Some t \<Rightarrow> t | None \<Rightarrow> []),
     f_memberships := Some (case f_memberships f of Some t \<Rightarrow> t | None \<Rightarrow> []),
     f_tokens := Some (case f_tokens f of Some t \<Rightarrow> t
                       | None \<Rightarrow> \<lparr>tt_has_org = True, tt_expiry = Some True, tt_rows = []\<rparr>),
     f_version := 3\<rparr>)"

definition migrate_v2_to_v3 :: migration where
  "migrate_v2_to_v3 f = (case f_tokens f of
       None \<Rightarrow> Inl (Storage ''no such table: tokens'')
     | Some t \<Rightarrow>
         if tt_expiry t \<noteq> None then Inl (Storage ''duplicate column name: expires_at_unix'')
         else Inr (f\<lparr>f_tokens := Some (t\<lparr>tt_expiry := Some True,
                                       tt_rows := map (\<lambda>r. r\<lparr>rt_expires := None\<rparr>) (tt_rows t)\<rparr>),
                     f_version := 3\<rparr>))"

text \<open>One legacy principal: its personal organization, the membership, and the organization of its
  tokens. The accounts live in an \<^typ>\<open>identity_db\<close> whose token table is not used yet.\<close>

definition migrate_principal ::
    "(nat \<Rightarrow> u8) \<Rightarrow> int \<Rightarrow> PrincipalId \<times> string \<Rightarrow> identity_db \<times> raw_token list
       \<Rightarrow> (IdentityError, identity_db \<times> raw_token list) res" where
  "migrate_principal entropy now p st = (case (p, st) of ((prin, name), (db, rows)) \<Rightarrow>
     let organization = random_organization_id entropy in
     and_then (insert_organization \<lparr>o_id = organization,
       o_name = ''Personal organization for '' @ name, o_created = now\<rparr> db) (\<lambda>db.
     and_then (insert_membership \<lparr>m_org = organization, m_principal = prin, m_created = now\<rparr> db) (\<lambda>db.
     Inr (db, map (\<lambda>r. if rt_principal r = prin then r\<lparr>rt_org := Some organization\<rparr> else r) rows))))"

fun migrate_principals ::
    "(nat \<Rightarrow> nat \<Rightarrow> u8) \<Rightarrow> (nat \<Rightarrow> int) \<Rightarrow> nat \<Rightarrow> (PrincipalId \<times> string) list \<Rightarrow> identity_db \<times> raw_token list
       \<Rightarrow> (IdentityError, identity_db \<times> raw_token list) res" where
  "migrate_principals entropy clock i [] st = Inr st"
| "migrate_principals entropy clock i (p # ps) st =
     and_then (migrate_principal (entropy i) (clock i) p st)
       (migrate_principals entropy clock (Suc i) ps)"

text \<open>\<^verbatim>\<open>INSERT INTO tokens_v2 ... SELECT\<close>: the organization is not nullable, the hash is the primary
  key, the membership must exist.\<close>

fun copy_tokens_v2 :: "membership_row list \<Rightarrow> raw_token list \<Rightarrow> raw_token list
       \<Rightarrow> (IdentityError, raw_token list) res" where
  "copy_tokens_v2 members done [] = Inr done"
| "copy_tokens_v2 members done (r # rs) = (case rt_org r of
       None \<Rightarrow> Inl (Storage ''NOT NULL constraint failed: tokens_v2.organization_id'')
     | Some g \<Rightarrow>
         if has_key rt_hash (rt_hash r) done
         then Inl (Storage ''UNIQUE constraint failed: tokens_v2.token_hash'')
         else if \<not> has_key m_key (g, rt_principal r) members
         then Inl (Storage ''FOREIGN KEY constraint failed'')
         else copy_tokens_v2 members (done @ [r\<lparr>rt_expires := None\<rparr>]) rs)"

definition users_by_id :: "user_row list \<Rightarrow> (PrincipalId \<times> string) list" where
  "users_by_id us = map (\<lambda>u. (u_principal u, u_name u)) (sort_key u_principal us)"

definition migrate_v1_to_v2 :: "(nat \<Rightarrow> nat \<Rightarrow> u8) \<Rightarrow> (nat \<Rightarrow> int) \<Rightarrow> migration" where
  "migrate_v1_to_v2 entropy clock f = (case (f_users f, f_tokens f) of
       (Some us, Some t) \<Rightarrow>
         if \<exists>r \<in> set (tt_rows t). \<not> has_key u_principal (rt_principal r) us
         then Inl (MigrationIntegrity ''a legacy token references a missing principal'')
         else if tt_has_org t then Inl (Storage ''duplicate column name: organization_id'')
         else if f_orgs f \<noteq> None then Inl (Storage ''table organizations already exists'')
         else if f_memberships f \<noteq> None then Inl (Storage ''table organization_memberships already exists'')
         else and_then (migrate_principals entropy clock 0 (users_by_id us)
                (\<lparr>users = us, organizations = [], memberships = [], tokens = []\<rparr>,
                 map (\<lambda>r. r\<lparr>rt_org := None\<rparr>) (tt_rows t))) (\<lambda>(db, rows).
              and_then (copy_tokens_v2 (memberships db) [] rows) (\<lambda>copied.
              Inr (f\<lparr>f_orgs := Some (organizations db), f_memberships := Some (memberships db),
                     f_tokens := Some \<lparr>tt_has_org = True, tt_expiry = None, tt_rows = copied\<rparr>,
                     f_version := 2\<rparr>)))
     | (None, Some _) \<Rightarrow> Inl (Storage ''no such table: users'')
     | (_, None) \<Rightarrow> Inl (Storage ''no such table: tokens''))"

definition validate_v3_schema :: "sqlite_file \<Rightarrow> (IdentityError, unit) res" where
  "validate_v3_schema f =
     (if f_users f = None then Inl (Storage ''no such table: users'')
      else if f_orgs f = None then Inl (Storage ''no such table: organizations'')
      else if f_memberships f = None then Inl (Storage ''no such table: organization_memberships'')
      else (case f_tokens f of
          None \<Rightarrow> Inl (Storage ''no such table: tokens'')
        | Some t \<Rightarrow>
            if \<not> tt_has_org t then Inl (Storage ''no such column: organization_id'')
            else if tt_expiry t = None then Inl (Storage ''no such column: expires_at_unix'')
            else (case tt_expiry t of
                Some True \<Rightarrow> Inr ()
              | Some False \<Rightarrow> Inl (MigrationIntegrity
                  ''tokens.expires_at_unix must be nullable: NULL is how a non-expiring token is stored'')
              | None \<Rightarrow> Inl (MigrationIntegrity ''tokens table has no expires_at_unix column''))))"

definition initialize_unversioned_database :: "(nat \<Rightarrow> nat \<Rightarrow> u8) \<Rightarrow> (nat \<Rightarrow> int) \<Rightarrow> migration" where
  "initialize_unversioned_database entropy clock f =
     (case (f_users f \<noteq> None, f_tokens f \<noteq> None, f_orgs f \<noteq> None, f_memberships f \<noteq> None) of
        (False, False, False, False) \<Rightarrow> create_schema_v3 f
      | (True, True, False, False) \<Rightarrow> and_then (migrate_v1_to_v2 entropy clock f) migrate_v2_to_v3
      | _ \<Rightarrow> Inl (MigrationIntegrity
               ''unversioned database does not match the supported legacy identity schema''))"

text \<open>The migration under the write lock: commit on success, roll back on an error.\<close>

definition migrate_locked :: "(nat \<Rightarrow> nat \<Rightarrow> u8) \<Rightarrow> (nat \<Rightarrow> int) \<Rightarrow> migration" where
  "migrate_locked entropy clock f =
     (if f_version f = 0 then initialize_unversioned_database entropy clock f
      else if f_version f = 1 then and_then (migrate_v1_to_v2 entropy clock f) migrate_v2_to_v3
      else if f_version f = 2 then migrate_v2_to_v3 f
      else if f_version f = 3 then and_then (validate_v3_schema f) (\<lambda>_. Inr f)
      else Inl (UnsupportedSchemaVersion (f_version f) IDENTITY_SCHEMA_VERSION))"

text \<open>\<open>others\<close> is what other processes did to the file between the first look at the version and
  the moment the write lock was granted.\<close>

definition initialize_schema ::
    "(nat \<Rightarrow> nat \<Rightarrow> u8) \<Rightarrow> (nat \<Rightarrow> int) \<Rightarrow> (sqlite_file \<Rightarrow> sqlite_file) \<Rightarrow> sqlite_file
       \<Rightarrow> (IdentityError, unit) res \<times> sqlite_file" where
  "initialize_schema entropy clock others f =
     (if f_version f = IDENTITY_SCHEMA_VERSION then (validate_v3_schema f, f)
      else (case migrate_locked entropy clock (others f) of
              Inl e \<Rightarrow> (Inl e, others f)
            | Inr f' \<Rightarrow> (Inr (), f')))"

text \<open>\<^verbatim>\<open>open\<close>: the read-only version gate, then the journal mode SQLite reports back, then the schema.\<close>

definition open_store ::
    "(nat \<Rightarrow> nat \<Rightarrow> u8) \<Rightarrow> (nat \<Rightarrow> int) \<Rightarrow> (sqlite_file \<Rightarrow> sqlite_file) \<Rightarrow> string \<Rightarrow> string \<Rightarrow> sqlite_file
       \<Rightarrow> (IdentityError, unit) res \<times> sqlite_file" where
  "open_store entropy clock others path journal_mode f = (case ensure_supported_schema_version f of
       Inl e \<Rightarrow> (Inl e, f)
     | Inr _ \<Rightarrow>
         if \<not> eq_ignore_ascii_case journal_mode ''wal''
         then (Inl (Storage (''identity database at '' @ path @
                 '' could not be switched to WAL journal mode (reported: '' @ journal_mode @ '')'')), f)
         else initialize_schema entropy clock others f)"

text \<open>The database a current file holds.\<close>

definition row_of_raw :: "raw_token \<Rightarrow> token_row" where
  "row_of_raw r = \<lparr>t_hash = rt_hash r, t_principal = rt_principal r,
     t_org = (case rt_org r of Some g \<Rightarrow> g | None \<Rightarrow> []), t_created = rt_created r, t_expires = rt_expires r\<rparr>"

definition db_of_file :: "sqlite_file \<Rightarrow> identity_db option" where
  "db_of_file f = (case (f_users f, f_orgs f, f_memberships f, f_tokens f) of
       (Some us, Some gs, Some ms, Some t) \<Rightarrow>
         if f_version f = 3 \<and> tt_has_org t \<and> tt_expiry t = Some True
         then Some \<lparr>users = us, organizations = gs, memberships = ms, tokens = map row_of_raw (tt_rows t)\<rparr>
         else None
     | _ \<Rightarrow> None)"

section \<open>The loop over legacy principals\<close>

definition assign_org :: "(PrincipalId \<Rightarrow> OrganizationId option) \<Rightarrow> raw_token \<Rightarrow> raw_token" where
  "assign_org f r = (case f (rt_principal r) of None \<Rightarrow> r | Some g \<Rightarrow> r\<lparr>rt_org := Some g\<rparr>)"

text \<open>Which personal organization each principal of a list gets, when the list is processed from
  counter \<open>i\<close> on.\<close>

fun personal_org :: "(nat \<Rightarrow> OrganizationId) \<Rightarrow> nat \<Rightarrow> (PrincipalId \<times> string) list
       \<Rightarrow> PrincipalId \<Rightarrow> OrganizationId option" where
  "personal_org oid i [] = Map.empty"
| "personal_org oid i (p # ps) = (personal_org oid (Suc i) ps)(fst p \<mapsto> oid i)"

definition orgs_of :: "identity_db \<Rightarrow> PrincipalId \<Rightarrow> OrganizationId list" where
  "orgs_of db p = map m_org (filter (\<lambda>m. m_principal m = p) (memberships db))"

lemma personal_org_dom: "personal_org oid i ps p = None \<longleftrightarrow> p \<notin> fst ` set ps"
  by (induction ps arbitrary: i) auto

lemma migrate_principal_ok:
  assumes inv: "identity_inv db" and user: "has_key u_principal p (users db)"
    and fresh: "\<not> has_key o_id (random_organization_id entropy) (organizations db)"
  obtains db' where "migrate_principal entropy now (p, name) (db, rows) =
       Inr (db', map (\<lambda>r. if rt_principal r = p
                          then r\<lparr>rt_org := Some (random_organization_id entropy)\<rparr> else r) rows)"
    and "identity_inv db'" and "users db' = users db" and "tokens db' = tokens db"
    and "\<And>k. has_key o_id k (organizations db') \<longleftrightarrow>
               has_key o_id k (organizations db) \<or> k = random_organization_id entropy"
    and "orgs_of db' = (\<lambda>q. orgs_of db q @ (if q = p then [random_organization_id entropy] else []))"
proof -
  let ?g = "random_organization_id entropy"
  let ?o = "\<lparr>o_id = ?g, o_name = ''Personal organization for '' @ name, o_created = now\<rparr>"
  let ?m = "\<lparr>m_org = ?g, m_principal = p, m_created = now\<rparr>"
  let ?db1 = "db\<lparr>organizations := organizations db @ [?o]\<rparr>"
  let ?db2 = "?db1\<lparr>memberships := memberships db @ [?m]\<rparr>"
  have one: "insert_organization ?o db = Inr ?db1"
    using fresh by (simp add: insert_organization_def)
  have "\<not> has_key m_key (?g, p) (memberships db)"
    using inv fresh by (auto simp: identity_inv_def has_key_def m_key_def)
  then have two: "insert_membership ?m ?db1 = Inr ?db2"
    using user by (simp add: insert_membership_def m_key_def)
  have "identity_inv ?db2"
    using inv one two by (blast intro: insert_organization_inv insert_membership_inv)
  then show ?thesis
    by (intro that [of ?db2])
       (use one two in \<open>auto simp: migrate_principal_def Let_def orgs_of_def\<close>)
qed

lemma migrate_principals_ok:
  fixes entropy :: "nat \<Rightarrow> nat \<Rightarrow> u8"
  defines "oid \<equiv> \<lambda>k. random_organization_id (entropy k)"
  assumes "identity_inv db" and "distinct (map fst ps)"
    and "\<forall>p \<in> set ps. has_key u_principal (fst p) (users db)"
    and "\<forall>k \<in> {i..<i + length ps}. \<not> has_key o_id (oid k) (organizations db)"
    and "inj_on oid {i..<i + length ps}"
  shows "\<exists>db'. migrate_principals entropy clock i ps (db, rows) =
                Inr (db', map (assign_org (personal_org oid i ps)) rows)
          \<and> identity_inv db' \<and> users db' = users db \<and> tokens db' = tokens db
          \<and> orgs_of db' = (\<lambda>q. orgs_of db q @
                (case personal_org oid i ps q of None \<Rightarrow> [] | Some g \<Rightarrow> [g]))"
  using assms(2-)
proof (induction ps arbitrary: i db rows)
  case Nil
  then show ?case by (simp add: assign_org_def)
next
  case (Cons p ps)
  obtain prin name where p: "p = (prin, name)" by (cases p)
  have fresh: "\<not> has_key o_id (random_organization_id (entropy i)) (organizations db)"
    using Cons.prems(4) by (auto simp: oid_def)
  obtain db1 where step: "migrate_principal (entropy i) (clock i) p (db, rows) =
       Inr (db1, map (\<lambda>r. if rt_principal r = prin then r\<lparr>rt_org := Some (oid i)\<rparr> else r) rows)"
    and inv1: "identity_inv db1" and same: "users db1 = users db" "tokens db1 = tokens db"
    and orgs1: "\<And>k. has_key o_id k (organizations db1) \<longleftrightarrow> has_key o_id k (organizations db) \<or> k = oid i"
    and of1: "orgs_of db1 = (\<lambda>q. orgs_of db q @ (if q = prin then [oid i] else []))"
    using migrate_principal_ok [OF Cons.prems(1) _ fresh, of prin "clock i" name rows]
      Cons.prems(3) unfolding p oid_def by auto
  let ?rows = "map (\<lambda>r. if rt_principal r = prin then r\<lparr>rt_org := Some (oid i)\<rparr> else r) rows"
  have fresh1: "\<not> has_key o_id (oid k) (organizations db1)" if "k \<in> {Suc i..<Suc i + length ps}" for k
    using that Cons.prems(4) inj_onD [OF Cons.prems(5), of k i] by (auto simp: orgs1)
  have "inj_on oid {Suc i..<Suc i + length ps}"
    using Cons.prems(5) by (rule inj_on_subset) auto
  with Cons.IH [of db1 "Suc i" ?rows] Cons.prems inv1 same fresh1 obtain db2 where
    rest: "migrate_principals entropy clock (Suc i) ps (db1, ?rows) =
             Inr (db2, map (assign_org (personal_org oid (Suc i) ps)) ?rows)"
      "identity_inv db2" "users db2 = users db" "tokens db2 = tokens db"
    and of2: "orgs_of db2 = (\<lambda>q. orgs_of db1 q @
               (case personal_org oid (Suc i) ps q of None \<Rightarrow> [] | Some g \<Rightarrow> [g]))"
    by auto
  have none: "personal_org oid (Suc i) ps prin = None"
    using Cons.prems(2) by (auto simp: personal_org_dom p)
  have "map (assign_org (personal_org oid (Suc i) ps)) ?rows = map (assign_org (personal_org oid i (p # ps))) rows"
    by (auto simp: assign_org_def p none)
  moreover have "orgs_of db2 = (\<lambda>q. orgs_of db q @
      (case personal_org oid i (p # ps) q of None \<Rightarrow> [] | Some g \<Rightarrow> [g]))"
    by (auto simp: of1 of2 p none)
  ultimately show ?case
    using step rest by (simp add: p fun_upd_def)
qed

lemma copy_tokens_ok:
  assumes "\<forall>r \<in> set rs. \<exists>g. rt_org r = Some g \<and> has_key m_key (g, rt_principal r) members"
    and "distinct (map rt_hash (done @ rs))"
  shows "copy_tokens_v2 members done rs = Inr (done @ map (\<lambda>r. r\<lparr>rt_expires := None\<rparr>) rs)"
  using assms
proof (induction rs arbitrary: "done")
  case (Cons r rs)
  from Cons.prems(1) obtain g where g: "rt_org r = Some g" "has_key m_key (g, rt_principal r) members"
    by auto
  have "rt_hash r \<notin> rt_hash ` set done"
    using Cons.prems(2) by auto
  then have "\<not> has_key rt_hash (rt_hash r) done"
    by (simp add: has_key_image)
  moreover have "copy_tokens_v2 members (done @ [r\<lparr>rt_expires := None\<rparr>]) rs =
      Inr ((done @ [r\<lparr>rt_expires := None\<rparr>]) @ map (\<lambda>r. r\<lparr>rt_expires := None\<rparr>) rs)"
    using Cons.prems by (intro Cons.IH) auto
  ultimately show ?case using g by simp
qed simp

section \<open>Migrating a legacy file\<close>

text \<open>A legacy file: users and unscoped tokens, nothing else; keys unique, every token's principal
  exists.\<close>

definition legacy_file :: "sqlite_file \<Rightarrow> user_row list \<Rightarrow> raw_token list \<Rightarrow> bool" where
  "legacy_file f us rows \<longleftrightarrow>
     f_version f \<in> {0, 1} \<and> f_users f = Some us \<and> f_orgs f = None \<and> f_memberships f = None \<and>
     f_tokens f = Some \<lparr>tt_has_org = False, tt_expiry = None, tt_rows = rows\<rparr> \<and>
     distinct (map u_principal us) \<and> distinct (map rt_hash rows) \<and>
     (\<forall>r \<in> set rows. has_key u_principal (rt_principal r) us)"

lemma migrate_locked_legacy:
  "legacy_file f us rows \<Longrightarrow>
     migrate_locked entropy clock f = and_then (migrate_v1_to_v2 entropy clock f) migrate_v2_to_v3"
  by (auto simp: legacy_file_def migrate_locked_def initialize_unversioned_database_def)

definition migrated_row :: "(PrincipalId \<Rightarrow> OrganizationId option) \<Rightarrow> raw_token \<Rightarrow> raw_token" where
  "migrated_row f r = r\<lparr>rt_org := f (rt_principal r), rt_expires := None\<rparr>"

lemma legacy_migration:
  assumes legacy: "legacy_file f us rows"
    and fresh: "inj_on (\<lambda>k. random_organization_id (entropy k)) {..<length us}"
  obtains db po where
    "migrate_locked entropy clock f = Inr \<lparr>f_version = 3, f_users = Some us,
       f_orgs = Some (organizations db), f_memberships = Some (memberships db),
       f_tokens = Some \<lparr>tt_has_org = True, tt_expiry = Some True, tt_rows = map (migrated_row po) rows\<rparr>\<rparr>"
    and "identity_inv db" and "users db = us" and "tokens db = []"
    and "\<And>p. orgs_of db p = (case po p of None \<Rightarrow> [] | Some g \<Rightarrow> [g])"
    and "\<And>r. r \<in> set rows \<Longrightarrow> \<exists>g. po (rt_principal r) = Some g \<and> has_key m_key (g, rt_principal r) (memberships db)"
proof -
  let ?oid = "\<lambda>k. random_organization_id (entropy k)"
  let ?ps = "users_by_id us"
  let ?db0 = "\<lparr>users = us, organizations = [], memberships = [], tokens = []\<rparr>"
  let ?rows = "map (\<lambda>r. r\<lparr>rt_org := None\<rparr>) rows"
  define po where "po = personal_org ?oid 0 ?ps"
  have fst_ps: "map fst ?ps = map u_principal (sort_key u_principal us)"
    by (simp add: users_by_id_def comp_def)
  have "distinct (map fst ?ps)"
    unfolding fst_ps using legacy by (simp add: legacy_file_def distinct_map)
  moreover have "identity_inv ?db0"
    using legacy by (simp add: identity_inv_def legacy_file_def)
  moreover have "length ?ps = length us" "fst ` set ?ps = u_principal ` set us"
    by (simp_all add: users_by_id_def image_image)
  ultimately have facts: "identity_inv ?db0" "distinct (map fst ?ps)" "length ?ps = length us"
    "fst ` set ?ps = u_principal ` set us"
    by blast+
  have users: "\<forall>p \<in> set ?ps. has_key u_principal (fst p) (users ?db0)"
    using facts(4) by (auto simp: has_key_image)
  have "inj_on ?oid {0..<0 + length ?ps}"
    using fresh facts(3) by (simp add: lessThan_atLeast0)
  then obtain db where loop: "migrate_principals entropy clock 0 ?ps (?db0, ?rows) =
        Inr (db, map (assign_org po) ?rows)"
    and db: "identity_inv db" "users db = us" "tokens db = []"
    and orgs: "orgs_of db = (\<lambda>q. case po q of None \<Rightarrow> [] | Some g \<Rightarrow> [g])"
    using migrate_principals_ok [OF facts(1,2) users, of 0 entropy clock ?rows]
    by (auto simp: po_def orgs_of_def)
  have member: "\<exists>g. po (rt_principal r) = Some g \<and> has_key m_key (g, rt_principal r) (memberships db)"
    if "r \<in> set rows" for r
  proof -
    have "rt_principal r \<in> fst ` set ?ps"
      using legacy that facts(4) by (auto simp: legacy_file_def has_key_image)
    then obtain g where g: "po (rt_principal r) = Some g"
      using personal_org_dom unfolding po_def by blast
    then have "g \<in> set (orgs_of db (rt_principal r))" by (simp add: orgs)
    then have "has_key m_key (g, rt_principal r) (memberships db)"
      by (auto simp: orgs_of_def has_key_def m_key_def)
    with g show ?thesis by blast
  qed
  let ?assigned = "map (assign_org po) ?rows"
  have "map rt_hash ?assigned = map rt_hash rows"
    by (auto simp: assign_org_def split: option.split)
  then have "distinct (map rt_hash ([] @ ?assigned))"
    using legacy by (simp only: append_Nil legacy_file_def)
  moreover have "\<forall>r \<in> set ?assigned. \<exists>g. rt_org r = Some g \<and> has_key m_key (g, rt_principal r) (memberships db)"
    by (auto simp: assign_org_def dest!: member)
  ultimately have "copy_tokens_v2 (memberships db) [] ?assigned =
      Inr ([] @ map (\<lambda>r. r\<lparr>rt_expires := None\<rparr>) ?assigned)"
    by (rule copy_tokens_ok [rotated])
  then have "copy_tokens_v2 (memberships db) [] ?assigned = Inr (map (\<lambda>r. r\<lparr>rt_expires := None\<rparr>) ?assigned)"
    by simp
  also have "map (\<lambda>r. r\<lparr>rt_expires := None\<rparr>) (map (assign_org po) ?rows) = map (migrated_row po) rows"
    by (auto simp: assign_org_def migrated_row_def dest!: member)
  finally have copied: "copy_tokens_v2 (memberships db) [] (map (assign_org po) ?rows) = Inr (map (migrated_row po) rows)" .
  have "migrate_v1_to_v2 entropy clock f = Inr (f\<lparr>f_orgs := Some (organizations db),
      f_memberships := Some (memberships db),
      f_tokens := Some \<lparr>tt_has_org = True, tt_expiry = None, tt_rows = map (migrated_row po) rows\<rparr>,
      f_version := 2\<rparr>)"
    using legacy loop copied by (auto simp: migrate_v1_to_v2_def legacy_file_def)
  then have "migrate_locked entropy clock f = Inr \<lparr>f_version = 3, f_users = Some us,
       f_orgs = Some (organizations db), f_memberships = Some (memberships db),
       f_tokens = Some \<lparr>tt_has_org = True, tt_expiry = Some True, tt_rows = map (migrated_row po) rows\<rparr>\<rparr>"
    using legacy unfolding migrate_locked_legacy [OF legacy]
    by (cases f) (auto simp: migrate_v2_to_v3_def legacy_file_def migrated_row_def)
  then show ?thesis
    by (rule that) (use db orgs member in auto)
qed

lemma row_of_migrated:
  "row_of_raw (migrated_row po r) = \<lparr>t_hash = rt_hash r, t_principal = rt_principal r,
     t_org = (case po (rt_principal r) of Some g \<Rightarrow> g | None \<Rightarrow> []), t_created = rt_created r, t_expires = None\<rparr>"
  by (simp add: row_of_raw_def migrated_row_def)

text \<open>Property C30: opening a legacy database (written before organizations existed) succeeds and keeps
  every credential: the migrated database satisfies the store's integrity invariant and has the same
  users, and every legacy token still authenticates its principal, at every instant, in an
  organization that is the only one of that principal.\<close>

theorem legacy_credentials_survive:
  assumes legacy: "legacy_file f us rows"
    and fresh: "inj_on (\<lambda>k. random_organization_id (entropy k)) {..<length us}"
  shows "\<exists>f' db. open_store entropy clock (\<lambda>f. f) path ''wal'' f = (Inr (), f')
       \<and> db_of_file f' = Some db \<and> identity_inv db \<and> users db = us \<and> length (tokens db) = length rows
       \<and> (\<forall>r \<in> set rows. \<exists>g. member_orgs (rt_principal r) db = [g] \<and>
            (\<forall>sha256 token now. hash_token sha256 token = rt_hash r \<longrightarrow>
               resolve_context sha256 now token db =
                 Inr \<lparr>principal_id = rt_principal r, organization_id = g\<rparr>))"
proof -
  obtain db0 po where locked: "migrate_locked entropy clock f = Inr \<lparr>f_version = 3, f_users = Some us,
       f_orgs = Some (organizations db0), f_memberships = Some (memberships db0),
       f_tokens = Some \<lparr>tt_has_org = True, tt_expiry = Some True, tt_rows = map (migrated_row po) rows\<rparr>\<rparr>"
      (is "_ = Inr ?f'")
    and db0: "identity_inv db0" "users db0 = us" "tokens db0 = []"
    and orgs: "\<And>p. orgs_of db0 p = (case po p of None \<Rightarrow> [] | Some g \<Rightarrow> [g])"
    and member: "\<And>r. r \<in> set rows \<Longrightarrow>
       \<exists>g. po (rt_principal r) = Some g \<and> has_key m_key (g, rt_principal r) (memberships db0)"
    using legacy_migration [OF legacy fresh] by metis
  define ts where "ts = map (row_of_raw \<circ> migrated_row po) rows"
  define db where "db = db0\<lparr>tokens := ts\<rparr>"
  have opened: "open_store entropy clock (\<lambda>f. f) path ''wal'' f = (Inr (), ?f')"
    using legacy locked
    by (auto simp: open_store_def ensure_supported_schema_version_def initialize_schema_def
        IDENTITY_SCHEMA_VERSION_def eq_ignore_ascii_case_def legacy_file_def)
  have holds: "db_of_file ?f' = Some db"
    using db0 by (cases db0) (simp add: db_of_file_def db_def ts_def)
  have hashes: "map t_hash ts = map rt_hash rows"
    by (simp add: ts_def row_of_migrated)
  then have dts: "distinct (map t_hash ts)"
    using legacy by (simp only: legacy_file_def)
  have "\<forall>t \<in> set ts. has_key m_key (t_key t) (memberships db0)"
    by (auto simp: ts_def row_of_migrated t_key_def dest!: member)
  with dts have inv: "identity_inv db"
    using db0(1) by (simp add: identity_inv_def db_def)
  have "\<exists>g. member_orgs (rt_principal r) db = [g] \<and>
            (\<forall>sha256 token now. hash_token sha256 token = rt_hash r \<longrightarrow>
               resolve_context sha256 now token db =
                 Inr \<lparr>principal_id = rt_principal r, organization_id = g\<rparr>)" if r: "r \<in> set rows" for r
  proof -
    obtain g where g: "po (rt_principal r) = Some g"
      using member [OF r] by blast
    have "row_of_raw (migrated_row po r) \<in> set ts"
      using r by (simp add: ts_def)
    with dts have "grants db (rt_hash r) = Some (row_of_raw (migrated_row po r))"
      using row_of_unique [of t_hash ts "row_of_raw (migrated_row po r)"]
      by (simp add: grants_def db_def row_of_migrated)
    moreover have "member_orgs (rt_principal r) db = sort (orgs_of db0 (rt_principal r))"
      by (simp add: member_orgs_def orgs_of_def db_def)
    ultimately show ?thesis
      by (intro exI [of _ g])
         (auto simp: resolve_context_grants [OF inv] resolved_def usable_def context_of_def
           row_of_migrated g orgs)
  qed
  then show ?thesis
    using opened holds inv by (intro exI [of _ ?f'] exI [of _ db]) (simp add: db_def db0 ts_def)
qed

lemma migrate_locked_version: "migrate_locked entropy clock f = Inr f' \<Longrightarrow> f_version f' = 3"
  by (auto simp: migrate_locked_def initialize_unversioned_database_def create_schema_v3_def
      migrate_v2_to_v3_def and_then_Inr_iff split: if_splits option.splits bool.splits prod.splits)

text \<open>Property C34: opening is all or nothing and safe to race. A file newer than this program is refused
  and left alone, whatever the journal mode; a failed open leaves the file as this process found it
  under the lock; a successful one leaves a current schema version; and a second process that looked
  at the version before the migration and got the lock after it changes nothing.\<close>

theorem opening_is_all_or_nothing:
  assumes "open_store entropy clock others path mode f = (r, f')"
  shows "(f_version f > 3 \<longrightarrow> r = Inl (UnsupportedSchemaVersion (f_version f) 3) \<and> f' = f)
       \<and> (r \<noteq> Inr () \<longrightarrow> f' = f \<or> f' = others f)
       \<and> (r = Inr () \<longrightarrow> f_version f' = 3 \<and> eq_ignore_ascii_case mode ''wal'')
       \<and> (r = Inr () \<and> validate_v3_schema f' = Inr () \<and> f_version stale < 3 \<longrightarrow>
            open_store entropy2 clock2 (\<lambda>_. f') path2 ''WAL'' stale = (Inr (), f'))"
proof -
  have "f_version f' = 3 \<and> eq_ignore_ascii_case mode ''wal''" if "r = Inr ()"
    using assms that
    by (auto simp: open_store_def initialize_schema_def IDENTITY_SCHEMA_VERSION_def
        split: sum.splits if_splits dest: migrate_locked_version)
  moreover have "eq_ignore_ascii_case ''WAL'' ''wal''"
    by code_simp
  ultimately show ?thesis
    using assms
    by (auto simp: open_store_def initialize_schema_def IDENTITY_SCHEMA_VERSION_def migrate_locked_def
        ensure_supported_schema_version_def split: sum.splits if_splits)
qed

section \<open>Concrete instances\<close>

definition demo_legacy :: sqlite_file where
  "demo_legacy = \<lparr>f_version = 1, f_users = Some [\<lparr>u_principal = ''usr_a'', u_name = ''ada'', u_created = 1\<rparr>],
     f_orgs = None, f_memberships = None,
     f_tokens = Some \<lparr>tt_has_org = False, tt_expiry = None,
       tt_rows = [\<lparr>rt_hash = to_hex [1], rt_principal = ''usr_a'', rt_org = None, rt_created = 5, rt_expires = None\<rparr>]\<rparr>\<rparr>"

lemma demo_legacy_file:
  "legacy_file demo_legacy [\<lparr>u_principal = ''usr_a'', u_name = ''ada'', u_created = 1\<rparr>]
     [\<lparr>rt_hash = to_hex [1], rt_principal = ''usr_a'', rt_org = None, rt_created = 5, rt_expires = None\<rparr>]"
  by (simp add: legacy_file_def demo_legacy_def)

theorem legacy_credentials_survive_witness:
  "\<exists>f' db. open_store (\<lambda>_. demo_entropy) (\<lambda>_. 9) (\<lambda>f. f) ''id.sqlite'' ''wal'' demo_legacy = (Inr (), f')
     \<and> db_of_file f' = Some db \<and> length (tokens db) = 1"
proof -
  have "inj_on (\<lambda>k. random_organization_id ((\<lambda>_. demo_entropy) k))
          {..<length [\<lparr>u_principal = ''usr_a'', u_name = ''ada'', u_created = 1\<rparr>]}"
    by (simp add: inj_on_def)
  from legacy_credentials_survive [OF demo_legacy_file this, of "\<lambda>_. 9" "''id.sqlite''"]
  show ?thesis by auto
qed

theorem opening_is_all_or_nothing_witness:
  "open_store (\<lambda>_. demo_entropy) (\<lambda>_. 9) (\<lambda>f. f) ''id.sqlite'' ''wal'' (demo_legacy\<lparr>f_version := 4\<rparr>)
     = (Inl (UnsupportedSchemaVersion 4 3), demo_legacy\<lparr>f_version := 4\<rparr>)"
  using opening_is_all_or_nothing [where entropy = "\<lambda>_. demo_entropy" and clock = "\<lambda>_. 9" and others = "\<lambda>f. f"
      and path = "''id.sqlite''" and mode = "''wal''" and f = "demo_legacy\<lparr>f_version := 4\<rparr>",
      OF surjective_pairing]
  by (simp add: prod_eq_iff)

end
