(* ===== verification/QuotaContract.thy ===== *)
theory QuotaContract
  imports Prelude
begin

text \<open>
  The contract shared by the two request quotas of the gateway, the counter in
  one process and the counter in the platform database: a fixed-window counter
  per organization. \<open>charge\<close> charges one request and says whether it is
  admitted, \<open>used\<close> is what the window containing an instant has charged so far,
  and \<open>same_window\<close> says that a later instant falls into the window that a
  charge at an earlier one uses. The client lemma: of the requests of one
  organization inside one window, exactly the first \<open>limit - used\<close> are
  admitted, whatever other organizations do in between.
\<close>

fun run_charges :: "('o \<Rightarrow> 't \<Rightarrow> 's \<Rightarrow> bool \<times> 's) \<Rightarrow> ('o \<times> 't) list \<Rightarrow> 's \<Rightarrow> bool list \<times> 's" where
  "run_charges charge [] s = ([], s)"
| "run_charges charge ((g, t) # es) s =
     (let (ok, s') = charge g t s; (oks, s'') = run_charges charge es s' in (ok # oks, s''))"

text \<open>How many requests of organization \<open>g\<close> were admitted in a run.\<close>

definition admitted_of :: "'o \<Rightarrow> ('o \<times> 't) list \<Rightarrow> bool list \<Rightarrow> nat" where
  "admitted_of g es oks = length (filter (\<lambda>(e, ok). fst e = g \<and> ok) (zip es oks))"

definition requests_of :: "'o \<Rightarrow> ('o \<times> 't) list \<Rightarrow> nat" where
  "requests_of g es = length (filter (\<lambda>e. fst e = g) es)"

lemma admitted_of_simps [simp]:
  "admitted_of g [] oks = 0"
  "admitted_of g (e # es) (ok # oks) = (if fst e = g \<and> ok then 1 else 0) + admitted_of g es oks"
  by (auto simp: admitted_of_def)

lemma requests_of_simps [simp]:
  "requests_of g [] = 0"
  "requests_of g (e # es) = (if fst e = g then 1 else 0) + requests_of g es"
  by (auto simp: requests_of_def)

lemma run_charges_length [simp]: "length (fst (run_charges charge es s)) = length es"
proof (induction es arbitrary: s)
  case (Cons e es)
  then show ?case by (cases e) (simp add: split_def Let_def)
qed simp

locale window_quota =
  fixes charge :: "'o \<Rightarrow> 't::linorder \<Rightarrow> 's \<Rightarrow> bool \<times> 's"
    and used :: "'s \<Rightarrow> 'o \<Rightarrow> 't \<Rightarrow> nat"
    and same_window :: "'s \<Rightarrow> 'o \<Rightarrow> 't \<Rightarrow> 't \<Rightarrow> bool"
    and inv :: "'s \<Rightarrow> bool"
    and limit :: nat
  assumes charge_keeps: "inv s \<Longrightarrow> inv (snd (charge g t s))"
    and admits_below_limit: "inv s \<Longrightarrow> fst (charge g t s) \<longleftrightarrow> used s g t < limit"
    and charge_counts: "inv s \<Longrightarrow> t \<le> t' \<Longrightarrow> same_window s g t t' \<Longrightarrow>
          used (snd (charge g t s)) g t' = used s g t + (if fst (charge g t s) then 1 else 0)"
    and window_fixed: "inv s \<Longrightarrow> t \<le> t' \<Longrightarrow> t' \<le> t'' \<Longrightarrow> same_window s g t t' \<Longrightarrow>
          same_window (snd (charge g t s)) g t' t'' \<longleftrightarrow> same_window s g t t''"
    and other_used: "inv s \<Longrightarrow> h \<noteq> g \<Longrightarrow> t \<le> t' \<Longrightarrow> used (snd (charge g t s)) h t' = used s h t'"
    and other_window: "inv s \<Longrightarrow> h \<noteq> g \<Longrightarrow> t \<le> t' \<Longrightarrow> t' \<le> t'' \<Longrightarrow>
          same_window (snd (charge g t s)) h t' t'' \<longleftrightarrow> same_window s h t' t''"
begin

text \<open>The instants of \<open>g\<close>'s requests in a trace all fall into the window of the first.\<close>

definition one_window :: "'s \<Rightarrow> 'o \<Rightarrow> ('o \<times> 't) list \<Rightarrow> bool" where
  "one_window s g es \<longleftrightarrow> (case filter (\<lambda>e. fst e = g) es of
       [] \<Rightarrow> True
     | e # rest \<Rightarrow> \<forall>e' \<in> set (e # rest). same_window s g (snd e) (snd e'))"

lemma one_window_step:
  assumes "inv s" and "sorted (map snd ((h, t) # es))" and "one_window s g ((h, t) # es)"
  shows "one_window (snd (charge h t s)) g es"
proof -
  obtain rest where rest: "filter (\<lambda>e. fst e = g) es = rest" by blast
  have in_es: "e \<in> set es \<and> fst e = g \<and> t \<le> snd e" if "e \<in> set rest" for e
    using that assms(2) rest by auto
  have sorted_rest: "sorted (map snd rest)"
    using assms(2) rest by (auto intro: sorted_filter)
  show ?thesis
  proof (cases rest)
    case (Cons e rest')
    have ord: "t \<le> snd e" "\<And>e'. e' \<in> set rest \<Longrightarrow> snd e \<le> snd e'"
      using in_es sorted_rest Cons by auto
    show ?thesis
    proof (cases "h = g")
      case True
      with assms(3) rest have "\<forall>e' \<in> set rest. same_window s g t (snd e')"
        by (auto simp: one_window_def)
      with True assms(1) ord Cons rest show ?thesis
        by (auto simp: one_window_def window_fixed)
    next
      case False
      with assms(3) rest Cons have "\<forall>e' \<in> set rest. same_window s g (snd e) (snd e')"
        by (auto simp: one_window_def)
      with False assms(1) ord Cons rest show ?thesis
        by (auto simp: one_window_def other_window)
    qed
  qed (use rest in \<open>simp add: one_window_def\<close>)
qed

text \<open>Exactly the first \<open>limit - used\<close> requests of a window are admitted.\<close>

lemma admitted_in_one_window:
  assumes "inv s" and "sorted (map snd es)" and "one_window s g es"
    and "\<And>e. e \<in> set es \<Longrightarrow> fst e = g \<Longrightarrow> used s g (snd e) = u"
    and "u \<le> limit"
  shows "admitted_of g es (fst (run_charges charge es s)) = min (requests_of g es) (limit - u)"
  using assms
proof (induction es arbitrary: s u)
  case (Cons e es)
  obtain h t where e: "e = (h, t)" by (cases e)
  let ?s' = "snd (charge h t s)"
  have inv': "inv ?s'" using Cons.prems(1) by (rule charge_keeps)
  have sorted': "sorted (map snd es)" and later: "\<And>e'. e' \<in> set es \<Longrightarrow> t \<le> snd e'"
    using Cons.prems(2) by (auto simp: e)
  have window': "one_window ?s' g es"
    using Cons.prems(1-3) unfolding e by (rule one_window_step)
  show ?case
  proof (cases "h = g")
    case True
    let ?ok = "fst (charge g t s)"
    have ok: "?ok \<longleftrightarrow> u < limit"
      using Cons.prems(1) Cons.prems(4) [of e] True by (simp add: e admits_below_limit)
    have same: "same_window s g t (snd e')" if "e' \<in> set es" "fst e' = g" for e'
      using that Cons.prems(3) True by (auto simp: one_window_def e)
    have "used ?s' g (snd e') = u + (if ?ok then 1 else 0)" if "e' \<in> set es" "fst e' = g" for e'
      using charge_counts [OF Cons.prems(1) later [OF that(1)] same [OF that]] Cons.prems(4) [of e] True
      by (simp add: e)
    moreover have "u + (if ?ok then 1 else 0) \<le> limit"
      using ok Cons.prems(5) by auto
    ultimately have "admitted_of g es (fst (run_charges charge es ?s')) =
        min (requests_of g es) (limit - (u + (if ?ok then 1 else 0)))"
      using inv' sorted' window' by (intro Cons.IH) auto
    then show ?thesis
      using ok True Cons.prems(5) by (auto simp: e split_def Let_def)
  next
    case False
    have "used ?s' g (snd e') = u" if "e' \<in> set es" "fst e' = g" for e'
      using that False Cons.prems(1,4) later by (auto simp: other_used)
    then have "admitted_of g es (fst (run_charges charge es ?s')) = min (requests_of g es) (limit - u)"
      using inv' sorted' window' Cons.prems(5) by (intro Cons.IH)
    with False show ?thesis by (simp add: e split_def Let_def)
  qed
qed simp

end

end
