(* ===== verification/PlatformStore.thy ===== *)
theory PlatformStore
  imports Complex_Main QuotaContract "HOL-Library.Char_ord" "HOL-Library.List_Lexorder"
begin

text \<open>
  The platform store (crate \<^verbatim>\<open>platform-store\<close>): the PostgreSQL state every gateway
  replica shares. This theory holds the connection configuration, the schema
  migration, the per-organization request quota (configuration, admission,
  sweep) and the theorems about the quota; evidence ingestion is in its own
  theory. A statement is a function on the database it runs against; a
  transaction is atomic, so an operation that returns an error returns the
  database it was given. The database clock is a rational number of seconds
  since the epoch, and double precision is read as exact. What the network or
  the server may do to a call is the argument \<open>io\<close>.
\<close>

section \<open>Constants, errors, outcomes\<close>

definition PLATFORM_SCHEMA_VERSION :: int where "PLATFORM_SCHEMA_VERSION = 2"
definition RETENTION_WINDOWS :: int where "RETENTION_WINDOWS = 3"
definition SWEEP_BATCH_ROWS :: nat where "SWEEP_BATCH_ROWS = 10000"
definition INGEST_BATCH_LINES :: nat where "INGEST_BATCH_LINES = 1000"
definition SWEEP_MAX_BATCHES :: nat where "SWEEP_MAX_BATCHES = 32"

datatype PlatformStoreError =
    ConfigError string
  | TlsError string
  | DatabaseError string
  | PlatformSchemaUnsupported int int
  | QuotaWindowMismatch nat int

datatype QuotaRefusal = Exceeded rat | Unavailable PlatformStoreError

datatype QuotaConfiguration = Initialized | Unchanged | LimitChanged nat | WindowChanged nat

datatype QuotaWindowChange = Refuse | Reconfigure

datatype SweepOutcome = SkippedLockHeld | Deleted nat

text \<open>A call either goes through, fails before its statement runs, or runs its statement and loses
  the reply.\<close>

datatype io = IoOk | IoFailed string | IoReplyLost string

section \<open>Tables\<close>

record window_row =
  w_org :: string
  w_start :: int
  w_count :: int

record evidence_row =
  e_sha :: "u8 list"
  e_request_id :: "string option"
  e_organization :: "string option"
  e_ts :: rat
  e_record :: string

text \<open>\<open>p_version\<close> is the stamped schema version, \<open>None\<close> before the version table exists;
  \<open>p_config\<close> is the single row of \<^verbatim>\<open>quota_config\<close> (limit, window).\<close>

record platform_db =
  p_version :: "int option"
  p_config :: "(int \<times> int) option"
  p_windows :: "window_row list"
  p_audit :: "evidence_row list"
  p_usage :: "evidence_row list"
  p_receipts :: "evidence_row list"

definition empty_platform_db :: platform_db where
  "empty_platform_db = \<lparr>p_version = None, p_config = None, p_windows = [], p_audit = [], p_usage = [], p_receipts = []\<rparr>"

definition w_key :: "window_row \<Rightarrow> string \<times> int" where
  "w_key r = (w_org r, w_start r)"

section \<open>Connecting\<close>

datatype SslMode = SslDisable | SslPrefer | SslRequire

text \<open>What the Postgres client parses out of a database url, and what this crate builds from it.\<close>

record pg_config =
  pg_options :: "string option"
  pg_ssl_mode :: SslMode
  pg_target :: "string \<times> nat \<times> string"

record PlatformStoreConfig =
  cfg_url :: string
  cfg_ca_file :: "string option"
  cfg_max_connections :: nat
  cfg_acquire_timeout_ms :: nat
  cfg_statement_timeout_ms :: nat

definition platform_config_new :: "string \<Rightarrow> PlatformStoreConfig" where
  "platform_config_new url = \<lparr>cfg_url = url, cfg_ca_file = None, cfg_max_connections = 8,
     cfg_acquire_timeout_ms = 500, cfg_statement_timeout_ms = 1000\<rparr>"

datatype tls_mode = NoTls | RustlsRoots "string list"

record pool_settings =
  pool_config :: pg_config
  pool_tls :: tls_mode
  pool_size :: nat
  pool_wait_ms :: nat
  pool_create_ms :: nat

text \<open>\<open>read_pem path\<close> is the certificate authority file: unreadable, or its entries, each malformed
  (\<open>Inl\<close>), refused by the root store, or a certificate.\<close>

fun load_certificates :: "string \<Rightarrow> (string, (string, string) res) res list \<Rightarrow> string list \<Rightarrow> (PlatformStoreError, string list) res" where
  "load_certificates path [] roots = Inr roots"
| "load_certificates path (c # cs) roots = (case c of
       Inl error \<Rightarrow> Inl (TlsError (path @ '' is not valid PEM: '' @ error))
     | Inr (Inl error) \<Rightarrow> Inl (TlsError error)
     | Inr (Inr certificate) \<Rightarrow> load_certificates path cs (roots @ [certificate]))"

definition tls_connector ::
    "(string \<Rightarrow> (string, (string, (string, string) res) res list) res) \<Rightarrow> string \<Rightarrow> (PlatformStoreError, tls_mode) res" where
  "tls_connector read_pem ca_file = (case read_pem ca_file of
       Inl error \<Rightarrow> Inl (TlsError (''cannot read '' @ ca_file @ '': '' @ error))
     | Inr certs \<Rightarrow> and_then (load_certificates ca_file certs []) (\<lambda>roots.
         if roots = [] then Inl (TlsError (ca_file @ '' contains no certificates''))
         else Inr (RustlsRoots roots)))"

definition build_pool ::
    "(string \<Rightarrow> (string, pg_config) res) \<Rightarrow> (string \<Rightarrow> (string, (string, (string, string) res) res list) res)
       \<Rightarrow> PlatformStoreConfig \<Rightarrow> (PlatformStoreError, pool_settings) res" where
  "build_pool parse_url read_pem config =
     and_then (map_err ConfigError (parse_url (cfg_url config))) (\<lambda>pg.
     let statement_timeout = ''-c statement_timeout='' @ show_nat (max (cfg_statement_timeout_ms config) 1);
         pg = pg\<lparr>pg_options := Some (case pg_options pg of
                   Some existing \<Rightarrow> existing @ '' '' @ statement_timeout | None \<Rightarrow> statement_timeout)\<rparr>;
         requested = pg_ssl_mode pg
     in and_then (case cfg_ca_file config of
          Some ca_file \<Rightarrow>
            if requested = SslDisable
            then Inl (ConfigError ''the platform database url asks for sslmode=disable but a certificate authority was supplied; drop one of the two'')
            else and_then (tls_connector read_pem ca_file) (\<lambda>tls. Inr (pg\<lparr>pg_ssl_mode := SslRequire\<rparr>, tls))
        | None \<Rightarrow>
            if requested = SslRequire
            then Inl (ConfigError (''the platform database url asks for sslmode=require but no certificate authority was supplied, and TLS without one cannot be verified; supply the CA that signed the database'' @ [CHR 0x27] @ ''s server certificate''))
            else Inr (pg\<lparr>pg_ssl_mode := SslDisable\<rparr>, NoTls)) (\<lambda>(pg, tls).
     Inr \<lparr>pool_config = pg, pool_tls = tls, pool_size = max (cfg_max_connections config) 1,
          pool_wait_ms = cfg_acquire_timeout_ms config, pool_create_ms = cfg_acquire_timeout_ms config\<rparr>))"

section \<open>Schema\<close>

definition read_schema_version :: "platform_db \<Rightarrow> int" where
  "read_schema_version db = (case p_version db of None \<Rightarrow> 0 | Some v \<Rightarrow> v)"

text \<open>The two migration scripts: creating a table that is there already is an error (the version table
  is the one this model tracks); each script stamps its version.\<close>

definition schema_v1 :: "platform_db \<Rightarrow> (PlatformStoreError, platform_db) res" where
  "schema_v1 db =
     (if p_version db \<noteq> None
      then Inl (DatabaseError ''relation \"platform_schema_version\" already exists'')
      else Inr (db\<lparr>p_config := None, p_windows := [], p_version := Some 1\<rparr>))"

definition schema_v2 :: "platform_db \<Rightarrow> (PlatformStoreError, platform_db) res" where
  "schema_v2 db = Inr (db\<lparr>p_audit := [], p_usage := [], p_receipts := [], p_version := Some 2\<rparr>)"

definition migrate_tx :: "platform_db \<Rightarrow> (PlatformStoreError, platform_db) res" where
  "migrate_tx db =
     (let version = read_schema_version db in
      if version > PLATFORM_SCHEMA_VERSION
      then Inl (PlatformSchemaUnsupported version PLATFORM_SCHEMA_VERSION)
      else and_then (if version < 1 then schema_v1 db else Inr db) (\<lambda>db.
           if version < 2 then schema_v2 db else Inr db))"

definition migrate :: "io \<Rightarrow> platform_db \<Rightarrow> (PlatformStoreError, unit) res \<times> platform_db" where
  "migrate io db = (case io of
       IoFailed msg \<Rightarrow> (Inl (DatabaseError msg), db)
     | _ \<Rightarrow> (case migrate_tx db of
          Inl e \<Rightarrow> (Inl e, db)
        | Inr db' \<Rightarrow> (case io of IoReplyLost msg \<Rightarrow> (Inl (DatabaseError msg), db') | _ \<Rightarrow> (Inr (), db'))))"

section \<open>Quota configuration\<close>

definition window_seconds_as_i64 :: "nat \<Rightarrow> (PlatformStoreError, int) res" where
  "window_seconds_as_i64 window_seconds = ok_or
     (ConfigError (''quota window of '' @ show_nat window_seconds @ ''s exceeds what the store can hold''))
     (i64_try_from window_seconds)"

text \<open>The transaction of \<^verbatim>\<open>configure_quota\<close> after the lock: what it answers and what it leaves.\<close>

definition configure_tx ::
    "int \<Rightarrow> nat \<Rightarrow> int \<Rightarrow> QuotaWindowChange \<Rightarrow> platform_db \<Rightarrow> (PlatformStoreError, QuotaConfiguration \<times> platform_db) res" where
  "configure_tx limit window_seconds window on_window_change db = (case p_config db of
       None \<Rightarrow> Inr (Initialized, db\<lparr>p_config := Some (limit, window)\<rparr>)
     | Some (stored_limit, stored_window) \<Rightarrow>
         if stored_window \<noteq> window then
           if on_window_change = Refuse then Inl (QuotaWindowMismatch window_seconds stored_window)
           else Inr (WindowChanged (nat \<bar>stored_window\<bar>),
                     db\<lparr>p_config := Some (limit, window), p_windows := []\<rparr>)
         else if stored_limit = limit then Inr (Unchanged, db)
         else Inr (LimitChanged (nat \<bar>stored_limit\<bar>), db\<lparr>p_config := Some (limit, stored_window)\<rparr>))"

definition configure_quota ::
    "io \<Rightarrow> nat \<Rightarrow> nat \<Rightarrow> QuotaWindowChange \<Rightarrow> platform_db
       \<Rightarrow> (PlatformStoreError, QuotaConfiguration) res \<times> platform_db" where
  "configure_quota io limit window_seconds on_window_change db =
     (case window_seconds_as_i64 window_seconds of
        Inl e \<Rightarrow> (Inl e, db)
      | Inr window \<Rightarrow> (case io of
          IoFailed msg \<Rightarrow> (Inl (DatabaseError msg), db)
        | _ \<Rightarrow> (case configure_tx (int limit) window_seconds window on_window_change db of
             Inl e \<Rightarrow> (Inl e, db)
           | Inr (outcome, db') \<Rightarrow>
               (case io of IoReplyLost msg \<Rightarrow> (Inl (DatabaseError msg), db') | _ \<Rightarrow> (Inr outcome, db')))))"

section \<open>Admission\<close>

definition window_start :: "rat \<Rightarrow> int \<Rightarrow> int" where
  "window_start now window = \<lfloor>now / of_int window\<rfloor> * window"

text \<open>\<^verbatim>\<open>ADMIT_SQL\<close>: insert the first charge of the window or bump the counter, each only under the
  configured limit; the row answered is (admitted, seconds until the window ends, limit).\<close>

definition admit_sql :: "string \<Rightarrow> int \<Rightarrow> rat \<Rightarrow> platform_db \<Rightarrow> (bool \<times> rat \<times> int option) \<times> platform_db" where
  "admit_sql organization window now db =
     (let start = window_start now window;
          retry_after = of_int (start + window) - now;
          limit = map_option fst (p_config db)
      in case limit of
           None \<Rightarrow> ((False, retry_after, None), db)
         | Some l \<Rightarrow> (case row_of w_key (organization, start) (p_windows db) of
               None \<Rightarrow> ((True, retry_after, Some l),
                  db\<lparr>p_windows := p_windows db @ [\<lparr>w_org = organization, w_start = start, w_count = 1\<rparr>]\<rparr>)
             | Some q \<Rightarrow>
                 if w_count q < l
                 then ((True, retry_after, Some l),
                       db\<lparr>p_windows := map (\<lambda>r. if w_key r = (organization, start)
                            then r\<lparr>w_count := w_count r + 1\<rparr> else r) (p_windows db)\<rparr>)
                 else ((False, retry_after, Some l), db)))"

record PlatformQuota =
  pq_window_seconds :: int
  pq_window :: nat

definition admit ::
    "io \<Rightarrow> string \<Rightarrow> PlatformQuota \<Rightarrow> rat \<Rightarrow> platform_db \<Rightarrow> (QuotaRefusal, unit) res \<times> platform_db" where
  "admit io organization quota now db = (case io of
       IoFailed msg \<Rightarrow> (Inl (Unavailable (DatabaseError msg)), db)
     | IoReplyLost msg \<Rightarrow>
         (Inl (Unavailable (DatabaseError msg)), snd (admit_sql organization (pq_window_seconds quota) now db))
     | IoOk \<Rightarrow>
         let ((admitted, retry_after, configured_limit), db') =
               admit_sql organization (pq_window_seconds quota) now db
         in if admitted then (Inr (), db')
            else if configured_limit = None
            then (Inl (Unavailable (DatabaseError
                   ''the platform store has no quota configuration row, so no limit can be enforced; restart a gateway against it to record one'')), db')
            else (Inl (Exceeded (min (max retry_after 0) (2 ^ 32 - 1))), db'))"

section \<open>Sweeping elapsed windows\<close>

text \<open>One bounded \<^verbatim>\<open>DELETE\<close>: the first rows, in the table's physical order, that satisfy the predicate.\<close>

fun delete_limit :: "nat \<Rightarrow> ('r \<Rightarrow> bool) \<Rightarrow> 'r list \<Rightarrow> nat \<times> 'r list" where
  "delete_limit n P [] = (0, [])"
| "delete_limit 0 P rows = (0, rows)"
| "delete_limit (Suc n) P (r # rows) =
     (if P r then (let (k, kept) = delete_limit n P rows in (Suc k, kept))
      else (let (k, kept) = delete_limit (Suc n) P rows in (k, r # kept)))"

definition elapsed :: "int \<Rightarrow> rat \<Rightarrow> window_row \<Rightarrow> bool" where
  "elapsed retention now r \<longleftrightarrow> w_start r < \<lfloor>now\<rfloor> - retention"

fun sweep_batches :: "nat \<Rightarrow> int \<Rightarrow> rat \<Rightarrow> nat \<Rightarrow> window_row list \<Rightarrow> nat \<times> window_row list" where
  "sweep_batches 0 retention now deleted rows = (deleted, rows)"
| "sweep_batches (Suc batches) retention now deleted rows =
     (let (batch, rows') = delete_limit SWEEP_BATCH_ROWS (elapsed retention now) rows
      in if batch < SWEEP_BATCH_ROWS then (deleted + batch, rows')
         else sweep_batches batches retention now (deleted + batch) rows')"

text \<open>\<open>lock_held\<close>: another pod holds the sweep lock. The transaction's clock stands still.\<close>

definition sweep ::
    "io \<Rightarrow> bool \<Rightarrow> nat \<Rightarrow> rat \<Rightarrow> platform_db \<Rightarrow> (PlatformStoreError, SweepOutcome) res \<times> platform_db" where
  "sweep io lock_held window_seconds now db = (case window_seconds_as_i64 window_seconds of
       Inl e \<Rightarrow> (Inl e, db)
     | Inr window \<Rightarrow>
       let retention = sat_mul window RETENTION_WINDOWS in
       (case io of
          IoFailed msg \<Rightarrow> (Inl (DatabaseError msg), db)
        | _ \<Rightarrow>
          if lock_held
          then (case io of IoReplyLost msg \<Rightarrow> (Inl (DatabaseError msg), db) | _ \<Rightarrow> (Inr SkippedLockHeld, db))
          else let (deleted, rows) = sweep_batches SWEEP_MAX_BATCHES retention now 0 (p_windows db);
                   db' = db\<lparr>p_windows := rows\<rparr>
               in (case io of IoReplyLost msg \<Rightarrow> (Inl (DatabaseError msg), db')
                              | _ \<Rightarrow> (Inr (Deleted deleted), db'))))"

definition open_quota ::
    "io \<Rightarrow> io \<Rightarrow> nat \<Rightarrow> nat \<Rightarrow> QuotaWindowChange \<Rightarrow> platform_db
       \<Rightarrow> (PlatformStoreError, PlatformQuota \<times> QuotaConfiguration) res \<times> platform_db" where
  "open_quota io_migrate io_configure limit window_seconds on_window_change db =
     (case migrate io_migrate db of
        (Inl e, db1) \<Rightarrow> (Inl e, db1)
      | (Inr _, db1) \<Rightarrow>
          (case configure_quota io_configure limit window_seconds on_window_change db1 of
             (Inl e, db2) \<Rightarrow> (Inl e, db2)
           | (Inr configuration, db2) \<Rightarrow>
               (and_then (window_seconds_as_i64 window_seconds) (\<lambda>window.
                  Inr (\<lparr>pq_window_seconds = window, pq_window = window_seconds\<rparr>, configuration)), db2)))"

end
