(* ===== verification/PlatformQuotaLaws.thy ===== *)
theory PlatformQuotaLaws
  imports PlatformStore
begin

text \<open>
  What the shared quota promises. The abstract view of the counters is
  \<open>used_at\<close>, the number charged per organization and window start; admission is
  an increment of that map under the limit, a sweep only forgets windows no
  later admission can reach, and the clock arithmetic puts every instant into
  exactly one window. The interpretation shows that the store keeps the
  fixed-window contract; the trace theorem adds sweeps, failures and any
  number of pods.
\<close>

section \<open>Windows\<close>

lemma window_start_bounds:
  assumes "0 < w"
  shows "of_int (window_start now w) \<le> now" and "now < of_int (window_start now w + w)"
proof -
  let ?q = "now / of_int w"
  have w: "(0::rat) < of_int w" and q: "?q * of_int w = now" using assms by simp_all
  have "of_int \<lfloor>?q\<rfloor> * of_int w \<le> ?q * of_int w"
    using w by (intro mult_right_mono of_int_floor_le) simp
  then show "of_int (window_start now w) \<le> now"
    using q by (simp add: window_start_def)
  have "?q * of_int w < of_int (\<lfloor>?q\<rfloor> + 1) * of_int w"
    using w floor_correct [of ?q] by (intro mult_strict_right_mono) simp_all
  then show "now < of_int (window_start now w + w)"
    using q by (simp add: window_start_def algebra_simps)
qed

lemma window_start_mono:
  assumes "0 < w" and "a \<le> b"
  shows "window_start a w \<le> window_start b w"
proof -
  have "a / of_int w \<le> b / of_int w"
    using assms by (intro divide_right_mono) auto
  then show ?thesis
    using assms(1) by (simp add: window_start_def floor_mono mult_right_mono)
qed

lemma window_start_next:
  assumes "0 < w"
  shows "window_start (of_int (window_start now w + w)) w = window_start now w + w"
proof -
  have "of_int (window_start now w + w) / of_int w = (of_int (\<lfloor>now / of_int w\<rfloor> + 1) :: rat)"
    using assms by (simp add: window_start_def field_simps)
  then show ?thesis
    by (simp add: window_start_def algebra_simps del: of_int_add)
qed

section \<open>The abstract view and admission as an increment\<close>

definition used_at :: "platform_db \<Rightarrow> string \<Rightarrow> int \<Rightarrow> nat" where
  "used_at db g ws = (case row_of w_key (g, ws) (p_windows db) of None \<Rightarrow> 0 | Some r \<Rightarrow> nat (w_count r))"

definition quota_inv :: "nat \<Rightarrow> int \<Rightarrow> platform_db \<Rightarrow> bool" where
  "quota_inv limit w db \<longleftrightarrow> 0 < limit \<and> 0 < w \<and> p_config db = Some (int limit, w) \<and>
     distinct (map w_key (p_windows db)) \<and> (\<forall>r \<in> set (p_windows db). 0 \<le> w_count r)"

lemma w_key_simps [simp]:
  "w_key (r\<lparr>w_count := c\<rparr>) = w_key r"
  "w_key \<lparr>w_org = g, w_start = ws, w_count = c\<rparr> = (g, ws)"
  by (simp_all add: w_key_def)

lemma admit_sql_answer:
  assumes "quota_inv limit w db" and "admit_sql g w now db = ((ok, retry, lmt), db')"
  shows "ok \<longleftrightarrow> used_at db g (window_start now w) < limit"
    and "lmt = Some (int limit)" and "retry = of_int (window_start now w + w) - now"
  using assms
  by (auto simp: admit_sql_def quota_inv_def used_at_def Let_def nat_less_iff dest!: row_of_Some
      split: option.splits if_splits)

lemma admit_sql_counts:
  assumes "quota_inv limit w db" and "admit_sql g w now db = ((ok, retry, lmt), db')"
  shows "used_at db' h ws = used_at db h ws + (if h = g \<and> ws = window_start now w \<and> ok then 1 else 0)"
proof -
  have "\<forall>r. row_of w_key (g, window_start now w) (p_windows db) = Some r \<longrightarrow> 0 \<le> w_count r"
    using assms(1) by (auto simp: quota_inv_def dest!: row_of_Some)
  then show ?thesis
    using assms
    by (auto simp: admit_sql_def quota_inv_def used_at_def Let_def row_of_append row_of_map_update
        nat_add_distrib split: option.splits if_splits)
qed

lemma admit_sql_inv:
  assumes "quota_inv limit w db" and "admit_sql g w' now db = (answer, db')"
  shows "quota_inv limit w db'"
proof -
  have "map w_key (map (\<lambda>r. if w_key r = k then r\<lparr>w_count := w_count r + 1\<rparr> else r) rows) = map w_key rows" for k rows
    by auto
  with assms show ?thesis
    by (auto simp: admit_sql_def quota_inv_def Let_def row_of_None has_key_image distinct_keys_append
        simp del: map_map split: option.splits if_splits)
qed

section \<open>The store keeps the fixed-window contract\<close>

text \<open>One admission that reaches the store, as a charge of the contract.\<close>

definition store_charge :: "PlatformQuota \<Rightarrow> string \<Rightarrow> rat \<Rightarrow> platform_db \<Rightarrow> bool \<times> platform_db" where
  "store_charge quota g now db = (let (r, db') = admit IoOk g quota now db in (r = Inr (), db'))"

lemma store_charge_sql:
  "store_charge quota g now db =
     (fst (fst (admit_sql g (pq_window_seconds quota) now db)), snd (admit_sql g (pq_window_seconds quota) now db))"
  by (auto simp: store_charge_def admit_def Let_def split: prod.splits)

interpretation shared: window_quota
  "store_charge \<lparr>pq_window_seconds = w, pq_window = n\<rparr>"
  "\<lambda>db g t. used_at db g (window_start t w)"
  "\<lambda>_ _ t t'. window_start t w = window_start t' w"
  "quota_inv limit w"
  limit
  for w n limit
proof (unfold_locales, goal_cases)
  case (1 db g t)
  then show ?case
    using admit_sql_inv [OF 1 surjective_pairing] by (simp add: store_charge_sql)
next
  case (2 db g t)
  obtain ok retry lmt db' where answer: "admit_sql g w t db = ((ok, retry, lmt), db')"
    by (metis prod_cases3 surjective_pairing)
  with admit_sql_answer(1) [OF 2 answer] show ?case by (simp add: store_charge_sql)
next
  case (3 db t t' g)
  obtain ok retry lmt db' where answer: "admit_sql g w t db = ((ok, retry, lmt), db')"
    by (metis prod_cases3 surjective_pairing)
  with admit_sql_counts [OF 3(1) answer] 3(3) show ?case by (simp add: store_charge_sql)
next
  case (5 db h g t t')
  obtain ok retry lmt db' where answer: "admit_sql g w t db = ((ok, retry, lmt), db')"
    by (metis prod_cases3 surjective_pairing)
  with admit_sql_counts [OF 5(1) answer] 5(2) show ?case by (simp add: store_charge_sql)
qed simp_all

section \<open>Sweeps\<close>

lemma delete_limit_set: "set (snd (delete_limit n P rows)) \<subseteq> set rows"
  by (induction n P rows rule: delete_limit.induct) (auto simp: split_def Let_def)

lemma delete_limit_distinct:
  "distinct (map key rows) \<Longrightarrow> distinct (map key (snd (delete_limit n P rows)))"
proof (induction n P rows rule: delete_limit.induct)
  case (3 n P r rows)
  then show ?case
    using delete_limit_set [of "Suc n" P rows] by (auto simp: split_def Let_def)
qed auto

text \<open>Only rows that satisfy the predicate disappear.\<close>

lemma delete_limit_row_of:
  assumes "distinct (map key rows)"
  shows "row_of key k (snd (delete_limit n P rows)) = row_of key k rows
       \<or> (\<exists>r. row_of key k rows = Some r \<and> P r \<and> row_of key k (snd (delete_limit n P rows)) = None)"
  using assms
proof (induction n P rows rule: delete_limit.induct)
  case (3 n P r rows)
  have gone: "row_of key (key r) (snd (delete_limit m P rows)) = None" for m
    using 3(3) image_mono [OF delete_limit_set [of m P rows], of key] by (auto simp: row_of_None has_key_image)
  from 3 gone show ?case by (auto simp: split_def Let_def)
qed auto

lemma delete_limit_count: "fst (delete_limit n P rows) \<le> n"
  by (induction n P rows rule: delete_limit.induct) (auto simp: split_def Let_def)

lemma sweep_batches_row_of:
  assumes "distinct (map w_key rows)"
  shows "distinct (map w_key (snd (sweep_batches b retention now d rows)))
       \<and> set (snd (sweep_batches b retention now d rows)) \<subseteq> set rows
       \<and> (row_of w_key k (snd (sweep_batches b retention now d rows)) = row_of w_key k rows
          \<or> (\<exists>r. row_of w_key k rows = Some r \<and> elapsed retention now r
               \<and> row_of w_key k (snd (sweep_batches b retention now d rows)) = None))"
  using assms
proof (induction b retention now d rows rule: sweep_batches.induct)
  case (2 b retention now d rows)
  let ?P = "elapsed retention now"
  let ?rows' = "snd (delete_limit SWEEP_BATCH_ROWS ?P rows)"
  note once = delete_limit_distinct [OF 2(2), of SWEEP_BATCH_ROWS ?P]
    delete_limit_row_of [OF 2(2), of k SWEEP_BATCH_ROWS ?P] delete_limit_set [of SWEEP_BATCH_ROWS ?P rows]
  show ?case
  proof (cases "fst (delete_limit SWEEP_BATCH_ROWS ?P rows) < SWEEP_BATCH_ROWS")
    case True
    with once show ?thesis by (auto simp: split_def Let_def)
  next
    case False
    let ?b = "sweep_batches b retention now (d + fst (delete_limit SWEEP_BATCH_ROWS ?P rows)) ?rows'"
    have eq: "sweep_batches (Suc b) retention now d rows = ?b"
      using False by (simp add: split_def Let_def)
    note rest = 2(1) [OF refl prod.collapse False once(1)]
    from rest once(2,3) have "row_of w_key k (snd ?b) = row_of w_key k rows
        \<or> (\<exists>r. row_of w_key k rows = Some r \<and> ?P r \<and> row_of w_key k (snd ?b) = None)"
      by force
    moreover have "set (snd ?b) \<subseteq> set rows" using rest once(3) by blast
    ultimately show ?thesis using rest unfolding eq by blast
  qed
qed simp

lemma sweep_keeps:
  assumes inv: "quota_inv limit w db" and n: "i64_try_from n = Some w"
    and sweep: "sweep io held n now db = (r, db')"
  shows "quota_inv limit w db'"
    and "window_start now w \<le> ws \<Longrightarrow> used_at db' g ws = used_at db g ws"
    and "used_at db' g ws \<le> used_at db g ws"
    and "used_at db' g ws \<noteq> used_at db g ws \<Longrightarrow> ws < window_start now w"
proof -
  let ?ret = "sat_mul w RETENTION_WINDOWS"
  have w: "0 < w" "w \<le> i64_max"
    using inv n by (auto simp: quota_inv_def i64_try_from_def split: if_splits)
  then have ret: "w \<le> ?ret"
    by (auto simp: sat_mul_def sat_i64_def RETENTION_WINDOWS_def i64_min_def i64_max_def)
  have rows: "p_windows db' = p_windows db
      \<or> p_windows db' = snd (sweep_batches SWEEP_MAX_BATCHES ?ret now 0 (p_windows db))"
    and config: "p_config db' = p_config db"
    using sweep n by (auto simp: sweep_def window_seconds_as_i64_def Let_def
        split: io.splits if_splits prod.splits)
  note swept = sweep_batches_row_of [of "p_windows db" SWEEP_MAX_BATCHES ?ret now 0]
  from inv have distinct: "distinct (map w_key (p_windows db))" by (simp add: quota_inv_def)
  show "quota_inv limit w db'"
    using inv rows config swept [OF distinct] by (fastforce simp: quota_inv_def dest: subsetD)
  have cases: "used_at db' g ws = used_at db g ws \<or> (ws < \<lfloor>now\<rfloor> - ?ret \<and> used_at db' g ws = 0)"
  proof -
    have "w_start r = ws" if "row_of w_key (g, ws) (p_windows db) = Some r" for r
      using that by (auto simp: w_key_def dest!: row_of_Some)
    then show ?thesis
      using rows swept [OF distinct, of "(g, ws)"] by (auto simp: used_at_def elapsed_def)
  qed
  have "now < of_int (window_start now w + w)"
    using w(1) by (rule window_start_bounds)
  then have "\<lfloor>now\<rfloor> < window_start now w + w"
    by (simp add: floor_less_iff)
  with ret have "\<lfloor>now\<rfloor> - ?ret < window_start now w" by linarith
  with cases show "window_start now w \<le> ws \<Longrightarrow> used_at db' g ws = used_at db g ws"
    and "used_at db' g ws \<le> used_at db g ws"
    and "used_at db' g ws \<noteq> used_at db g ws \<Longrightarrow> ws < window_start now w"
    by auto
qed

section \<open>A deployment: any number of pods against one store\<close>

datatype pod_event = AdmitEv io string | SweepEv io bool

fun run_pods ::
    "PlatformQuota \<Rightarrow> (rat \<times> pod_event) list \<Rightarrow> platform_db
       \<Rightarrow> (rat \<times> string \<times> (QuotaRefusal, unit) res) list \<times> platform_db" where
  "run_pods quota [] db = ([], db)"
| "run_pods quota ((now, AdmitEv io g) # es) db =
     (let (r, db1) = admit io g quota now db; (rs, db2) = run_pods quota es db1
      in ((now, g, r) # rs, db2))"
| "run_pods quota ((now, SweepEv io held) # es) db =
     run_pods quota es (snd (sweep io held (pq_window quota) now db))"

text \<open>Requests of \<open>g\<close> admitted in the window that starts at \<open>ws\<close>.\<close>

definition admitted_in :: "int \<Rightarrow> string \<Rightarrow> int \<Rightarrow> (rat \<times> string \<times> (QuotaRefusal, unit) res) list \<Rightarrow> nat" where
  "admitted_in window g ws rs =
     length (filter (\<lambda>(now, h, r). h = g \<and> window_start now window = ws \<and> r = Inr ()) rs)"

lemma admitted_in_simps [simp]:
  "admitted_in window g ws [] = 0"
  "admitted_in window g ws ((now, h, r) # rs) =
     (if h = g \<and> window_start now window = ws \<and> r = Inr () then 1 else 0) + admitted_in window g ws rs"
  by (auto simp: admitted_in_def)

lemma admit_counts:
  assumes inv: "quota_inv limit w db"
    and admit: "admit io g \<lparr>pq_window_seconds = w, pq_window = n\<rparr> now db = (r, db')"
  shows "quota_inv limit w db'"
    and "used_at db h ws + (if h = g \<and> window_start now w = ws \<and> r = Inr () then 1 else 0) \<le> used_at db' h ws"
    and "used_at db h ws \<le> limit \<Longrightarrow> used_at db' h ws \<le> limit"
proof -
  obtain ok retry lmt db1 where answer: "admit_sql g w now db = ((ok, retry, lmt), db1)"
    by (metis prod_cases3 surjective_pairing)
  note facts = admit_sql_inv [OF inv answer] admit_sql_counts [OF inv answer]
    admit_sql_answer(1) [OF inv answer]
  show "quota_inv limit w db'"
    using admit inv facts(1) answer by (auto simp: admit_def Let_def split: io.splits if_splits)
  show "used_at db h ws + (if h = g \<and> window_start now w = ws \<and> r = Inr () then 1 else 0) \<le> used_at db' h ws"
    using admit facts(2) [of h ws] answer by (auto simp: admit_def Let_def split: io.splits if_splits)
  show "used_at db h ws \<le> limit \<Longrightarrow> used_at db' h ws \<le> limit"
    using admit facts(2) [of h ws] facts(3) answer
    by (auto simp: admit_def Let_def split: io.splits if_splits)
qed

lemma closed_window_admits_nothing:
  assumes "0 < w" and "ws < window_start t w" and "\<forall>e \<in> set es. t \<le> fst e"
  shows "admitted_in w g ws (fst (run_pods quota es db)) = 0"
  using assms(3)
proof (induction quota es db rule: run_pods.induct)
  case (2 quota now io h es db)
  have "window_start now w \<noteq> ws"
    using 2(2) window_start_mono [OF assms(1), of t now] assms(2) by auto
  with 2(1) [OF prod.collapse prod.collapse] 2(2) show ?case by (auto simp: split_def Let_def)
qed auto

text \<open>Property C2: the limit belongs to the deployment. Whatever the pods do (admissions of any
  organizations that succeed, fail or lose their reply, and sweeps), as long as the database clock
  does not run backwards, an organization is admitted at most \<open>limit - used\<close> more times in a
  window of which \<open>used\<close> charges are already recorded.\<close>

theorem deployment_limit:
  assumes "quota_inv limit w db" and "i64_try_from n = Some w"
    and "sorted (map fst es)" and "used_at db g ws \<le> limit"
  shows "admitted_in w g ws (fst (run_pods \<lparr>pq_window_seconds = w, pq_window = n\<rparr> es db))
           \<le> limit - used_at db g ws"
  using assms
proof (induction es arbitrary: db)
  case (Cons e es)
  obtain now ev where e: "e = (now, ev)" by (cases e)
  have later: "\<forall>e \<in> set es. now \<le> fst e" and sorted: "sorted (map fst es)"
    using Cons.prems(3) by (auto simp: e)
  show ?case
  proof (cases ev)
    case (AdmitEv io h)
    obtain r db1 where admit: "admit io h \<lparr>pq_window_seconds = w, pq_window = n\<rparr> now db = (r, db1)"
      by (metis surj_pair)
    note facts = admit_counts [OF Cons.prems(1) admit]
    have "admitted_in w g ws (fst (run_pods \<lparr>pq_window_seconds = w, pq_window = n\<rparr> es db1))
            \<le> limit - used_at db1 g ws"
      using facts(1) Cons.prems(2) sorted facts(3) [OF Cons.prems(4)] by (rule Cons.IH)
    then show ?thesis
      using facts(2) [of g ws] facts(3) [OF Cons.prems(4)]
      by (auto simp: e AdmitEv admit split_def Let_def split: if_splits)
  next
    case (SweepEv io held)
    obtain r db1 where sweep: "sweep io held n now db = (r, db1)" by (metis surj_pair)
    note facts = sweep_keeps [OF Cons.prems(1,2) sweep]
    show ?thesis
    proof (cases "used_at db1 g ws = used_at db g ws")
      case True
      then have "admitted_in w g ws (fst (run_pods \<lparr>pq_window_seconds = w, pq_window = n\<rparr> es db1))
            \<le> limit - used_at db1 g ws"
        using facts(1) Cons.prems(2,4) sorted by (intro Cons.IH) auto
      with True show ?thesis by (simp add: e SweepEv sweep)
    next
      case False
      then have "ws < window_start now w" by (rule facts(4))
      moreover have "0 < w" using Cons.prems(1) by (simp add: quota_inv_def)
      ultimately show ?thesis
        using later by (simp add: e SweepEv sweep closed_window_admits_nothing)
    qed
  qed
qed simp

text \<open>Also: the limit is exact. Of the requests of one organization whose instants lie in one
  window, exactly the first \<open>limit - used\<close> are admitted, whatever the other organizations do
  in between.\<close>

theorem shared_admission_is_exact:
  assumes "quota_inv limit w db" and "sorted (map snd es)"
    and "\<forall>e \<in> set es. fst e = g \<longrightarrow> window_start (snd e) w = ws"
    and "used_at db g ws \<le> limit"
  shows "admitted_of g es (fst (run_charges (store_charge \<lparr>pq_window_seconds = w, pq_window = n\<rparr>) es db))
           = min (requests_of g es) (limit - used_at db g ws)"
proof (rule shared.admitted_in_one_window [OF assms(1,2)])
  show "shared.one_window w db g es"
  proof -
    have "\<forall>e' \<in> set (filter (\<lambda>e. fst e = g) es). window_start (snd e') w = ws"
      using assms(3) by auto
    then show ?thesis
      by (cases "filter (\<lambda>e. fst e = g) es") (auto simp: shared.one_window_def)
  qed
qed (use assms(3,4) in auto)

text \<open>Also: a refusal for a spent window changes nothing and names the end of that window:
  every instant before \<open>now + d\<close> is still in it, and at \<open>now + d\<close> the next window has
  begun. The bound on the window is the clamp of the answered duration.\<close>

theorem refusal_names_the_next_window:
  assumes inv: "quota_inv limit w db" and w: "w \<le> 2 ^ 32 - 1"
    and refused: "admit IoOk g \<lparr>pq_window_seconds = w, pq_window = n\<rparr> now db = (Inl (Exceeded d), db')"
  shows "db' = db \<and> 0 < d \<and> d \<le> of_int w
       \<and> window_start (now + d) w = window_start now w + w
       \<and> (\<forall>t. now \<le> t \<and> t < now + d \<longrightarrow> window_start t w = window_start now w)"
proof -
  have w0: "0 < w" using inv by (simp add: quota_inv_def)
  let ?close = "of_int (window_start now w + w) :: rat"
  note bounds = window_start_bounds [OF w0, of now]
  have short: "?close - now \<le> of_int w" using bounds(1) by simp
  also have "\<dots> \<le> of_int (2 ^ 32 - 1)" using w by (simp only: of_int_le_iff)
  finally have clamp: "min (max (?close - now) 0) (2 ^ 32 - 1) = ?close - now"
    using bounds(2) by simp
  obtain ok retry lmt db1 where answer: "admit_sql g w now db = ((ok, retry, lmt), db1)"
    by (metis prod_cases3 surjective_pairing)
  with refused have d: "d = min (max retry 0) (2 ^ 32 - 1)" and "\<not> ok" "db' = db1"
    by (auto simp: admit_def Let_def split: if_splits)
  have "retry = ?close - now" using admit_sql_answer(3) [OF inv answer] .
  with d clamp have d: "d = ?close - now" by simp
  then have at_end: "now + d = ?close" by simp
  have "db1 = db"
    using answer \<open>\<not> ok\<close> by (auto simp: admit_sql_def Let_def split: option.splits if_splits)
  have same: "window_start t w = window_start now w" if "now \<le> t" "t < ?close" for t
  proof (rule antisym)
    have "of_int (window_start t w) < ?close"
      using window_start_bounds(1) [OF w0, of t] that(2) by linarith
    then have "window_start t w < window_start now w + w" by (simp only: of_int_less_iff)
    moreover have "window_start t w = \<lfloor>t / of_int w\<rfloor> * w" "window_start now w = \<lfloor>now / of_int w\<rfloor> * w"
      by (simp_all add: window_start_def)
    ultimately have "\<lfloor>t / of_int w\<rfloor> * w < (\<lfloor>now / of_int w\<rfloor> + 1) * w"
      by (simp add: algebra_simps)
    then have "\<lfloor>t / of_int w\<rfloor> \<le> \<lfloor>now / of_int w\<rfloor>" using w0 by simp
    then show "window_start t w \<le> window_start now w"
      using w0 by (simp add: window_start_def mult_right_mono)
  qed (use that w0 in \<open>simp add: window_start_mono\<close>)
  have "0 < d" "d \<le> of_int w" using bounds(2) short d by simp_all
  moreover have "window_start (now + d) w = window_start now w + w"
    unfolding at_end using w0 by (rule window_start_next)
  ultimately show ?thesis
    unfolding at_end using same \<open>db' = db1\<close> \<open>db1 = db\<close> by blast
qed

text \<open>Also: admission fails closed. Whenever the store cannot be reached, loses its reply, or holds
  no configuration row, the request is refused as unavailable, never admitted and never reported as
  a spent window; without a configuration row, and when the statement did not run, nothing is
  charged.\<close>

theorem admission_fails_closed:
  "(io \<noteq> IoOk \<or> p_config db = None \<longrightarrow>
      (\<exists>e. fst (admit io g quota now db) = Inl (Unavailable e)))
   \<and> (p_config db = None \<or> (\<exists>msg. io = IoFailed msg) \<longrightarrow> snd (admit io g quota now db) = db)"
  by (cases io) (auto simp: admit_def admit_sql_def Let_def)

text \<open>Also: a sweep is invisible to admission. After a sweep at \<open>now\<close>, complete or cut
  short by its batch bounds or by a lost reply, every admission at a later instant answers what it
  would have answered without the sweep, and the integrity of the counters is kept.\<close>

theorem sweep_is_invisible_to_admission:
  assumes inv: "quota_inv limit w db" and n: "i64_try_from n = Some w"
    and sweep: "sweep io held n now db = (r, db')" and later: "now \<le> t"
  shows "quota_inv limit w db'
       \<and> fst (admit IoOk g \<lparr>pq_window_seconds = w, pq_window = n\<rparr> t db')
         = fst (admit IoOk g \<lparr>pq_window_seconds = w, pq_window = n\<rparr> t db)"
proof -
  note kept = sweep_keeps [OF inv n sweep]
  have w0: "0 < w" using inv by (simp add: quota_inv_def)
  obtain ok retry lmt db1 where a: "admit_sql g w t db = ((ok, retry, lmt), db1)"
    by (metis prod_cases3 surjective_pairing)
  obtain ok' retry' lmt' db1' where a': "admit_sql g w t db' = ((ok', retry', lmt'), db1')"
    by (metis prod_cases3 surjective_pairing)
  have "window_start now w \<le> window_start t w" using w0 later by (rule window_start_mono)
  then have "used_at db' g (window_start t w) = used_at db g (window_start t w)" by (rule kept(2))
  then have "(ok', retry', lmt') = (ok, retry, lmt)"
    using admit_sql_answer [OF inv a] admit_sql_answer [OF kept(1) a'] by auto
  then show ?thesis using kept(1) a a' by (simp add: admit_def Let_def)
qed

text \<open>Also: configuring the quota. Only an error leaves the stored configuration different from the
  requested one; a stored window that differs is refused with nothing changed unless the pod asks to
  rewrite it, and rewriting drops every counter of the old window length; with the window agreed,
  counters survive and the last recorded limit is the one in force.\<close>

theorem configure_quota_outcomes:
  assumes "i64_try_from n = Some w"
  shows "configure_quota IoOk limit n change db =
     (case p_config db of
        None \<Rightarrow> (Inr Initialized, db\<lparr>p_config := Some (int limit, w)\<rparr>)
      | Some (l, v) \<Rightarrow>
          if v \<noteq> w \<and> change = Refuse then (Inl (QuotaWindowMismatch n v), db)
          else if v \<noteq> w then (Inr (WindowChanged (nat \<bar>v\<bar>)),
                             db\<lparr>p_config := Some (int limit, w), p_windows := []\<rparr>)
          else (Inr (if l = int limit then Unchanged else LimitChanged (nat \<bar>l\<bar>)),
                db\<lparr>p_config := Some (int limit, w)\<rparr>))"
  using assms
  by (auto simp: configure_quota_def configure_tx_def window_seconds_as_i64_def split: option.splits)

text \<open>Also: opening the quota. After it succeeds the store is at the supported schema version,
  records this pod's window and limit and admits under them; a database stamped by a newer program
  is refused untouched; and a window the store cannot hold is a configuration error.\<close>

theorem open_quota_establishes:
  assumes opened: "open_quota io1 io2 limit n change db = (r, db')" and "0 < limit" and "0 < n"
    and rows: "read_schema_version db > 0 \<Longrightarrow>
                 distinct (map w_key (p_windows db)) \<and> (\<forall>r \<in> set (p_windows db). 0 \<le> w_count r)"
  shows "(\<forall>quota c. r = Inr (quota, c) \<longrightarrow> quota_inv limit (pq_window_seconds quota) db'
            \<and> pq_window quota = n \<and> pq_window_seconds quota = int n \<and> p_version db' = Some 2)
       \<and> (io1 = IoOk \<and> read_schema_version db > 2 \<longrightarrow>
            r = Inl (PlatformSchemaUnsupported (read_schema_version db) 2) \<and> db' = db)
       \<and> (int n > i64_max \<longrightarrow> (\<exists>e. r = Inl e))"
proof (intro conjI allI impI)
  fix quota c
  assume ok: "r = Inr (quota, c)"
  obtain r1 db1 where migrated: "migrate io1 db = (r1, db1)" by (metis surj_pair)
  with opened ok have r1: "r1 = Inr ()" by (auto simp: open_quota_def split: sum.splits)
  obtain w where w: "i64_try_from n = Some w" and quota: "quota = \<lparr>pq_window_seconds = w, pq_window = n\<rparr>"
    and configured: "configure_quota io2 limit n change db1 = (Inr c, db')"
    using opened ok migrated r1
    by (auto simp: open_quota_def window_seconds_as_i64_def and_then_Inr_iff ok_or_Inr_iff split: sum.splits prod.splits)
  have wn: "w = int n" using w by (auto simp: i64_try_from_def split: if_splits)
  have db1: "distinct (map w_key (p_windows db1)) \<and> (\<forall>r \<in> set (p_windows db1). 0 \<le> w_count r) \<and> p_version db1 = Some 2"
    using migrated r1 rows
    by (auto simp: migrate_def migrate_tx_def Let_def schema_v1_def schema_v2_def PLATFORM_SCHEMA_VERSION_def
        read_schema_version_def and_then_Inr_iff split: io.splits sum.splits if_splits option.splits)
  have "io2 = IoOk"
    using configured w by (auto simp: configure_quota_def window_seconds_as_i64_def split: io.splits sum.splits)
  then have "p_config db' = Some (int limit, w) \<and> p_version db' = p_version db1
      \<and> (p_windows db' = p_windows db1 \<or> p_windows db' = [])"
    using configured configure_quota_outcomes [OF w, of limit change db1]
    by (auto split: option.splits if_splits)
  with db1 wn assms(2,3) show "quota_inv limit (pq_window_seconds quota) db'"
    and "pq_window quota = n" and "pq_window_seconds quota = int n" and "p_version db' = Some 2"
    by (auto simp: quota_inv_def quota)
qed (use opened in \<open>auto simp: open_quota_def migrate_def migrate_tx_def PLATFORM_SCHEMA_VERSION_def configure_quota_def
       window_seconds_as_i64_def i64_try_from_def split: io.splits sum.splits prod.splits if_splits\<close>)

lemma load_certificates_ok:
  "load_certificates path certs roots = Inr roots' \<Longrightarrow> \<exists>more. roots' = roots @ more \<and> certs = map (Inr \<circ> Inr) more"
proof (induction path certs roots rule: load_certificates.induct)
  case (2 path c cs roots)
  then obtain certificate where c: "c = Inr (Inr certificate)"
    and rest: "load_certificates path cs (roots @ [certificate]) = Inr roots'"
    by (auto split: sum.splits)
  from 2(1) [OF c refl rest] obtain more where "roots' = roots @ [certificate] @ more" "cs = map (Inr \<circ> Inr) more" by auto
  then show ?case using c by (intro exI [of _ "certificate # more"]) simp
qed simp

text \<open>Also: the connection's encryption is what was asked for, never less. A pool that opens without
  TLS was not asked for TLS and had no certificate authority; a pool with TLS always verifies against
  at least one root from the configured file and requires encryption; a url that asks for TLS without
  an authority, or supplies one with TLS off, opens no pool; every pool has at least one connection.\<close>

theorem tls_is_honoured:
  assumes parsed: "parse_url (cfg_url config) = Inr pg"
    and built: "build_pool parse_url read_pem config = Inr pool"
  shows "1 \<le> pool_size pool
       \<and> (pool_tls pool = NoTls \<longleftrightarrow> cfg_ca_file config = None)
       \<and> (pool_tls pool = NoTls \<longrightarrow> pg_ssl_mode pg \<noteq> SslRequire \<and> pg_ssl_mode (pool_config pool) = SslDisable)
       \<and> (\<forall>roots. pool_tls pool = RustlsRoots roots \<longrightarrow> roots \<noteq> [] \<and> pg_ssl_mode pg \<noteq> SslDisable
            \<and> pg_ssl_mode (pool_config pool) = SslRequire
            \<and> (\<exists>ca. cfg_ca_file config = Some ca \<and> read_pem ca = Inr (map (Inr \<circ> Inr) roots)))
       \<and> pg_target (pool_config pool) = pg_target pg"
  using assms
  by (auto simp: build_pool_def Let_def tls_connector_def and_then_Inr_iff
      split: option.splits if_splits sum.splits dest!: load_certificates_ok)

section \<open>Concrete instances\<close>

definition demo_platform :: platform_db where
  "demo_platform = empty_platform_db\<lparr>p_version := Some 2, p_config := Some (2, 60),
     p_windows := [\<lparr>w_org = ''a'', w_start = 120, w_count = 1\<rparr>]\<rparr>"

lemma demo_quota_inv: "quota_inv 2 60 demo_platform"
  by (simp add: quota_inv_def demo_platform_def empty_platform_db_def)

lemma demo_window: "i64_try_from 60 = Some 60"
  by (simp add: i64_try_from_def i64_max_def)

lemma demo_window_start [simp]: "window_start 130 60 = 120" "window_start 140 60 = 120" "window_start 150 60 = 120"
  by (simp_all add: window_start_def floor_eq_iff)

lemma demo_used: "used_at demo_platform ''a'' 120 = 1"
  by (simp add: used_at_def demo_platform_def empty_platform_db_def)

theorem deployment_limit_witness:
  "admitted_in 60 ''a'' 120 (fst (run_pods \<lparr>pq_window_seconds = 60, pq_window = 60\<rparr>
     [(130, AdmitEv IoOk ''a''), (140, SweepEv IoOk False), (150, AdmitEv IoOk ''a'')] demo_platform)) \<le> 1"
  using deployment_limit [OF demo_quota_inv demo_window, of
      "[(130, AdmitEv IoOk ''a''), (140, SweepEv IoOk False), (150, AdmitEv IoOk ''a'')]" "''a''" 120]
  by (simp add: demo_used)

theorem shared_admission_is_exact_witness:
  "admitted_of ''a'' [(''a'', 130::rat), (''b'', 140), (''a'', 150)]
     (fst (run_charges (store_charge \<lparr>pq_window_seconds = 60, pq_window = 60\<rparr>)
        [(''a'', 130), (''b'', 140), (''a'', 150)] demo_platform)) = 1"
  using shared_admission_is_exact [OF demo_quota_inv, of
      "[(''a'', 130::rat), (''b'', 140), (''a'', 150)]" "''a''" 120 60]
  by (simp add: demo_used)

lemma demo_spent:
  "quota_inv 1 60 (demo_platform\<lparr>p_config := Some (1, 60)\<rparr>)"
  "admit IoOk ''a'' \<lparr>pq_window_seconds = 60, pq_window = 60\<rparr> 130 (demo_platform\<lparr>p_config := Some (1, 60)\<rparr>)
     = (Inl (Exceeded 50), demo_platform\<lparr>p_config := Some (1, 60)\<rparr>)"
  by (simp_all add: quota_inv_def demo_platform_def empty_platform_db_def admit_def admit_sql_def Let_def)

theorem refusal_names_the_next_window_witness:
  "window_start (130 + 50) 60 = 180"
  using refusal_names_the_next_window [OF demo_spent(1) _ demo_spent(2)] by simp

theorem admission_fails_closed_witness:
  "\<exists>e. fst (admit (IoFailed ''timeout'') ''a'' \<lparr>pq_window_seconds = 60, pq_window = 60\<rparr> 130 demo_platform) = Inl (Unavailable e)"
  using admission_fails_closed [of "IoFailed ''timeout''" demo_platform "''a''"
      "\<lparr>pq_window_seconds = 60, pq_window = 60\<rparr>" 130] by blast

theorem sweep_is_invisible_to_admission_witness:
  "fst (admit IoOk ''a'' \<lparr>pq_window_seconds = 60, pq_window = 60\<rparr> 150 (snd (sweep IoOk False 60 140 demo_platform)))
     = fst (admit IoOk ''a'' \<lparr>pq_window_seconds = 60, pq_window = 60\<rparr> 150 demo_platform)"
  using sweep_is_invisible_to_admission [OF demo_quota_inv demo_window surjective_pairing, of 140 150] by simp

theorem configure_quota_outcomes_witness:
  "configure_quota IoOk 5 60 Refuse demo_platform = (Inr (LimitChanged 2), demo_platform\<lparr>p_config := Some (5, 60)\<rparr>)"
  using configure_quota_outcomes [OF demo_window, of 5 Refuse demo_platform] by (simp add: demo_platform_def)

lemma demo_open:
  "open_quota IoOk IoOk 2 60 Refuse empty_platform_db =
     (Inr (\<lparr>pq_window_seconds = 60, pq_window = 60\<rparr>, Initialized),
      empty_platform_db\<lparr>p_version := Some 2, p_config := Some (2, 60)\<rparr>)"
  by (simp add: open_quota_def migrate_def migrate_tx_def schema_v1_def schema_v2_def empty_platform_db_def
      read_schema_version_def PLATFORM_SCHEMA_VERSION_def configure_quota_def configure_tx_def
      window_seconds_as_i64_def demo_window Let_def)

theorem open_quota_establishes_witness:
  "quota_inv 2 60 (empty_platform_db\<lparr>p_version := Some 2, p_config := Some (2, 60)\<rparr>)"
  using open_quota_establishes [OF demo_open] by (simp add: read_schema_version_def empty_platform_db_def)

definition demo_parse_url :: "string \<Rightarrow> (string, pg_config) res" where
  "demo_parse_url url = Inr \<lparr>pg_options = None, pg_ssl_mode = SslPrefer, pg_target = (''db'', 5432, url)\<rparr>"

lemma demo_build_pool:
  "build_pool demo_parse_url (\<lambda>_. Inr [Inr (Inr ''root'')]) ((platform_config_new ''u'')\<lparr>cfg_ca_file := Some ''ca.pem''\<rparr>)
     = Inr \<lparr>pool_config = \<lparr>pg_options = Some (''-c statement_timeout='' @ show_nat 1000), pg_ssl_mode = SslRequire,
            pg_target = (''db'', 5432, ''u'')\<rparr>, pool_tls = RustlsRoots [''root''], pool_size = 8,
            pool_wait_ms = 500, pool_create_ms = 500\<rparr>"
  by (simp add: build_pool_def demo_parse_url_def platform_config_new_def tls_connector_def Let_def)

theorem tls_is_honoured_witness:
  "demo_parse_url ''u'' = Inr \<lparr>pg_options = None, pg_ssl_mode = SslPrefer, pg_target = (''db'', 5432, ''u'')\<rparr>
   \<and> pg_ssl_mode (pool_config \<lparr>pool_config = \<lparr>pg_options = Some (''-c statement_timeout='' @ show_nat 1000),
       pg_ssl_mode = SslRequire, pg_target = (''db'', 5432, ''u'')\<rparr>, pool_tls = RustlsRoots [''root''],
       pool_size = 8, pool_wait_ms = 500, pool_create_ms = 500\<rparr>) = SslRequire"
proof -
  have parsed: "demo_parse_url (cfg_url ((platform_config_new ''u'')\<lparr>cfg_ca_file := Some ''ca.pem''\<rparr>)) =
      Inr \<lparr>pg_options = None, pg_ssl_mode = SslPrefer, pg_target = (''db'', 5432, ''u'')\<rparr>"
    by (simp add: demo_parse_url_def platform_config_new_def)
  show ?thesis
    using tls_is_honoured [OF parsed demo_build_pool] by (simp add: demo_parse_url_def)
qed

end
