(* ===== verification/Json.thy ===== *)
theory Json
  imports Complex_Main Prelude
begin

text \<open>
  JSON values as \<^verbatim>\<open>serde_json::Value\<close> has them; parsing and printing are the
  library's and are parameters where they are used. An object is its list of
  members, a number the double it reads as.
\<close>

datatype f64 = Finite rat | NotFinite

datatype json =
    JNull
  | JBool bool
  | JNumber f64
  | JString string
  | JArray "json list"
  | JObject "(string \<times> json) list"

definition json_opt :: "string option \<Rightarrow> json" where
  "json_opt s = (case s of None \<Rightarrow> JNull | Some x \<Rightarrow> JString x)"

definition json_nat :: "nat \<Rightarrow> json" where
  "json_nat n = JNumber (Finite (of_nat n))"

lemma json_opt_inj [simp]: "json_opt a = json_opt b \<longleftrightarrow> a = b"
  by (simp add: json_opt_def split: option.split)

lemma json_nat_inj [simp]: "json_nat m = json_nat n \<longleftrightarrow> m = n"
  by (simp add: json_nat_def)

end
