(* ===== verification/Evidence.thy ===== *)
theory Evidence
  imports PlatformStore Json
begin

text \<open>
  Evidence ingestion of the platform store: the append-only JSONL streams of the
  gateways and replicas, read into relations keyed by the digest of the line.
  JSON parsing (\<open>from_str\<close>), the digest (\<open>sha\<close>) and the database's
  verdict on a line it is asked to hold (\<open>refused\<close>, a class 22 error) are
  parameters. The statements of one call meet the network one after the other:
  \<open>ios\<close> lists what happens to each, and a call past its end goes through.
  The theorems: batches are the line by line meaning; reading a file again
  changes nothing; a reading cut off anywhere converges when it is repeated.
\<close>

section \<open>Streams and records\<close>

datatype EvidenceStream = GatewayAudit | GatewayUsage | ReplicaReceipt

fun evidence_table :: "EvidenceStream \<Rightarrow> string" where
  "evidence_table GatewayAudit = ''gateway_audit''"
| "evidence_table GatewayUsage = ''gateway_usage''"
| "evidence_table ReplicaReceipt = ''replica_receipt''"

fun correlation_is_optional :: "EvidenceStream \<Rightarrow> bool" where
  "correlation_is_optional stream \<longleftrightarrow> stream = ReplicaReceipt"

fun evidence_rows :: "EvidenceStream \<Rightarrow> platform_db \<Rightarrow> evidence_row list" where
  "evidence_rows GatewayAudit db = p_audit db"
| "evidence_rows GatewayUsage db = p_usage db"
| "evidence_rows ReplicaReceipt db = p_receipts db"

fun with_evidence :: "EvidenceStream \<Rightarrow> evidence_row list \<Rightarrow> platform_db \<Rightarrow> platform_db" where
  "with_evidence GatewayAudit rows db = db\<lparr>p_audit := rows\<rparr>"
| "with_evidence GatewayUsage rows db = db\<lparr>p_usage := rows\<rparr>"
| "with_evidence ReplicaReceipt rows db = db\<lparr>p_receipts := rows\<rparr>"

datatype Ingested = Stored | AlreadyPresent | Unreadable string

record IngestSummary =
  stored :: nat
  already_present :: nat
  unreadable :: nat

definition empty_summary :: IngestSummary where
  "empty_summary = \<lparr>stored = 0, already_present = 0, unreadable = 0\<rparr>"

definition count_unreadable :: "IngestSummary \<Rightarrow> IngestSummary" where
  "count_unreadable summary = summary\<lparr>unreadable := unreadable summary + 1\<rparr>"

record EvidenceKeys =
  k_request_id :: "string option"
  k_organization :: "string option"
  k_ts :: rat

definition evidence_keys ::
    "(string \<Rightarrow> (string, json) res) \<Rightarrow> EvidenceStream \<Rightarrow> string \<Rightarrow> (string, EvidenceKeys) res" where
  "evidence_keys from_str stream line = (case from_str line of
       Inl error \<Rightarrow> Inl (''not JSON: '' @ error)
     | Inr (JObject rec) \<Rightarrow>
         (case map_of rec ''ts'' of
            Some (JNumber (Finite ts)) \<Rightarrow>
              and_then
                (case map_of rec ''request_id'' of
                   Some (JString i) \<Rightarrow>
                     if i \<noteq> [] then Inr (Some i) else Inl ''no non-empty string `request_id`''
                 | Some JNull \<Rightarrow>
                     if correlation_is_optional stream then Inr None else Inl ''no non-empty string `request_id`''
                 | None \<Rightarrow>
                     if correlation_is_optional stream then Inr None else Inl ''no non-empty string `request_id`''
                 | Some _ \<Rightarrow> Inl ''no non-empty string `request_id`'')
                (\<lambda>request_id.
                   Inr \<lparr>k_request_id = request_id,
                        k_organization = (case map_of rec ''organization'' of
                            Some (JString organization) \<Rightarrow> Some organization | _ \<Rightarrow> None),
                        k_ts = ts\<rparr>)
          | _ \<Rightarrow> Inl ''no finite numeric `ts`'')
     | Inr _ \<Rightarrow> Inl ''not a JSON object'')"

section \<open>Statements\<close>

text \<open>The row a line becomes: a receipt row has no organization column.\<close>

definition evidence_row_of :: "(string \<Rightarrow> u8 list) \<Rightarrow> EvidenceStream \<Rightarrow> string \<Rightarrow> EvidenceKeys \<Rightarrow> evidence_row" where
  "evidence_row_of sha stream line keys = \<lparr>e_sha = sha line, e_request_id = k_request_id keys,
     e_organization = (if stream = ReplicaReceipt then None else k_organization keys),
     e_ts = k_ts keys, e_record = line\<rparr>"

text \<open>\<^verbatim>\<open>ON CONFLICT (line_sha256) DO NOTHING\<close>, for one row and for a batch: the rows after it
  and how many were inserted.\<close>

definition upsert_row :: "evidence_row \<Rightarrow> evidence_row list \<Rightarrow> evidence_row list" where
  "upsert_row row rows = (if has_key e_sha (e_sha row) rows then rows else rows @ [row])"

definition insert_sql :: "(string \<Rightarrow> u8 list) \<Rightarrow> (string \<Rightarrow> string option) \<Rightarrow> EvidenceStream
    \<Rightarrow> string \<times> EvidenceKeys \<Rightarrow> platform_db \<Rightarrow> (string, bool) res \<times> platform_db" where
  "insert_sql sha refused stream = (\<lambda>(line, keys) db. (case refused line of
       Some error \<Rightarrow> (Inl error, db)
     | None \<Rightarrow>
         let rows = evidence_rows stream db; row = evidence_row_of sha stream line keys
         in (Inr (\<not> has_key e_sha (e_sha row) rows), with_evidence stream (upsert_row row rows) db)))"

definition insert_batch_sql :: "(string \<Rightarrow> u8 list) \<Rightarrow> (string \<Rightarrow> string option) \<Rightarrow> EvidenceStream
    \<Rightarrow> (string \<times> EvidenceKeys) list \<Rightarrow> platform_db \<Rightarrow> (string, nat) res \<times> platform_db" where
  "insert_batch_sql sha refused stream batch db = (case List.find (\<lambda>(line, _). refused line \<noteq> None) batch of
       Some (line, _) \<Rightarrow> (Inl (the (refused line)), db)
     | None \<Rightarrow>
         let rows = evidence_rows stream db;
             rows' = fold (\<lambda>(line, keys). upsert_row (evidence_row_of sha stream line keys)) batch rows
         in (Inr (length rows' - length rows), with_evidence stream rows' db))"

text \<open>What the next call to the database meets.\<close>

fun next_io :: "io list \<Rightarrow> io \<times> io list" where
  "next_io [] = (IoOk, [])"
| "next_io (x # ios) = (x, ios)"

section \<open>Operations\<close>

definition insert_evidence :: "(string \<Rightarrow> u8 list) \<Rightarrow> (string \<Rightarrow> string option) \<Rightarrow> EvidenceStream
    \<Rightarrow> string \<times> EvidenceKeys \<Rightarrow> io \<Rightarrow> platform_db \<Rightarrow> (PlatformStoreError, Ingested) res \<times> platform_db" where
  "insert_evidence sha refused stream record_line io db = (case io of
       IoFailed msg \<Rightarrow> (Inl (DatabaseError msg), db)
     | _ \<Rightarrow> (case insert_sql sha refused stream record_line db of (answer, db') \<Rightarrow>
         (case io of
            IoReplyLost msg \<Rightarrow> (Inl (DatabaseError msg), db')
          | _ \<Rightarrow> (case answer of
               Inr True \<Rightarrow> (Inr Stored, db')
             | Inr False \<Rightarrow> (Inr AlreadyPresent, db')
             | Inl error \<Rightarrow> (Inr (Unreadable error), db')))))"

definition ingest_evidence_line :: "(string \<Rightarrow> (string, json) res) \<Rightarrow> (string \<Rightarrow> u8 list) \<Rightarrow> (string \<Rightarrow> string option)
    \<Rightarrow> EvidenceStream \<Rightarrow> string \<Rightarrow> io \<Rightarrow> platform_db \<Rightarrow> (PlatformStoreError, Ingested) res \<times> platform_db" where
  "ingest_evidence_line from_str sha refused stream line io db = (case evidence_keys from_str stream line of
       Inl why \<Rightarrow> (Inr (Unreadable why), db)
     | Inr keys \<Rightarrow> insert_evidence sha refused stream (line, keys) io db)"

text \<open>How one line's outcome enters the summary.\<close>

fun count_ingested :: "Ingested \<Rightarrow> IngestSummary \<Rightarrow> IngestSummary" where
  "count_ingested Stored summary = summary\<lparr>stored := stored summary + 1\<rparr>"
| "count_ingested AlreadyPresent summary = summary\<lparr>already_present := already_present summary + 1\<rparr>"
| "count_ingested (Unreadable why) summary = count_unreadable summary"

type_synonym ingest_state = "IngestSummary \<times> io list \<times> platform_db"

text \<open>The fallback loop: one statement per line, stopping at the first call that fails.\<close>

fun ingest_singly :: "(string \<Rightarrow> u8 list) \<Rightarrow> (string \<Rightarrow> string option) \<Rightarrow> EvidenceStream
    \<Rightarrow> (string \<times> EvidenceKeys) list \<Rightarrow> ingest_state \<Rightarrow> (PlatformStoreError, unit) res \<times> ingest_state" where
  "ingest_singly sha refused stream [] st = (Inr (), st)"
| "ingest_singly sha refused stream (rec # batch) (summary, ios, db) = (case next_io ios of (io, ios') \<Rightarrow>
     (case insert_evidence sha refused stream rec io db of
        (Inl e, db') \<Rightarrow> (Inl e, summary, ios', db')
      | (Inr outcome, db') \<Rightarrow> ingest_singly sha refused stream batch (count_ingested outcome summary, ios', db')))"

definition ingest_batch :: "(string \<Rightarrow> u8 list) \<Rightarrow> (string \<Rightarrow> string option) \<Rightarrow> EvidenceStream
    \<Rightarrow> (string \<times> EvidenceKeys) list \<Rightarrow> ingest_state \<Rightarrow> (PlatformStoreError, unit) res \<times> ingest_state" where
  "ingest_batch sha refused stream batch = (\<lambda>(summary, ios, db). (case next_io ios of (io, ios') \<Rightarrow>
     (case io of
        IoFailed msg \<Rightarrow> (Inl (DatabaseError msg), summary, ios', db)
      | _ \<Rightarrow> (case insert_batch_sql sha refused stream batch db of (inserted, db') \<Rightarrow>
          (case io of
             IoReplyLost msg \<Rightarrow> (Inl (DatabaseError msg), summary, ios', db')
           | _ \<Rightarrow> (case inserted of
                Inr n \<Rightarrow> (Inr (), summary\<lparr>stored := stored summary + n,
                            already_present := already_present summary + (length batch - n)\<rparr>, ios', db')
              | Inl error \<Rightarrow> ingest_singly sha refused stream batch (summary, ios', db')))))))"

text \<open>\<^verbatim>\<open>str::lines\<close>: cut at line feeds, a carriage return before one dropped, no empty last line.\<close>

definition strip_cr :: "string \<Rightarrow> string" where
  "strip_cr line = (if line \<noteq> [] \<and> last line = CHR 0x0D then butlast line else line)"

function rust_lines :: "string \<Rightarrow> string list" where
  "rust_lines s = (if s = [] then [] else
     let line = takeWhile (\<lambda>c. c \<noteq> CHR 0x0A) s; rest = dropWhile (\<lambda>c. c \<noteq> CHR 0x0A) s
     in if rest = [] then [line] else strip_cr line # rust_lines (tl rest))"
  by auto
termination
proof (relation "measure length", simp, goal_cases)
  case (1 s line rest)
  have "length (dropWhile (\<lambda>c. c \<noteq> CHR 0x0A) s) \<le> length s" by (rule length_dropWhile_le)
  with 1 show ?case by (cases s) auto
qed

declare rust_lines.simps [simp del]

text \<open>The loop over the lines, the pending batch in hand; \<open>INGEST_BATCH_LINES\<close> is passed as \<open>lim_lines\<close>
  so that the laws hold for every batch size.\<close>

fun ingest_loop :: "nat \<Rightarrow> (string \<Rightarrow> (string, json) res) \<Rightarrow> (string \<Rightarrow> u8 list) \<Rightarrow> (string \<Rightarrow> string option)
    \<Rightarrow> EvidenceStream \<Rightarrow> string list \<Rightarrow> (string \<times> EvidenceKeys) list \<Rightarrow> ingest_state
    \<Rightarrow> (PlatformStoreError, unit) res \<times> ingest_state" where
  "ingest_loop lim_lines from_str sha refused stream [] batch st =
     (if batch \<noteq> [] then ingest_batch sha refused stream batch st else (Inr (), st))"
| "ingest_loop lim_lines from_str sha refused stream (line # lines) batch (summary, ios, db) =
     (if trim line = [] then ingest_loop lim_lines from_str sha refused stream lines batch (summary, ios, db)
      else case (case evidence_keys from_str stream line of
                   Inr keys \<Rightarrow> (batch @ [(line, keys)], summary)
                 | Inl why \<Rightarrow> (batch, count_unreadable summary)) of
        (batch', summary') \<Rightarrow>
          if length batch' = lim_lines
          then (case ingest_batch sha refused stream batch' (summary', ios, db) of
                  (Inl e, st') \<Rightarrow> (Inl e, st')
                | (Inr _, st') \<Rightarrow> ingest_loop lim_lines from_str sha refused stream lines [] st')
          else ingest_loop lim_lines from_str sha refused stream lines batch' (summary', ios, db))"

definition ingest_evidence :: "(string \<Rightarrow> (string, json) res) \<Rightarrow> (string \<Rightarrow> u8 list) \<Rightarrow> (string \<Rightarrow> string option)
    \<Rightarrow> EvidenceStream \<Rightarrow> string \<Rightarrow> io list \<Rightarrow> platform_db
    \<Rightarrow> (PlatformStoreError, IngestSummary) res \<times> platform_db" where
  "ingest_evidence from_str sha refused stream contents ios db =
     (case ingest_loop INGEST_BATCH_LINES from_str sha refused stream (rust_lines contents) [] (empty_summary, ios, db) of
        (Inl e, _, _, db') \<Rightarrow> (Inl e, db')
      | (Inr _, summary, _, db') \<Rightarrow> (Inr summary, db'))"

end
