(* ===== verification/EvidenceLaws.thy ===== *)
theory EvidenceLaws
  imports Evidence
begin

text \<open>
  The laws of evidence ingestion. \<open>ingest_each\<close> reads a file one line and one
  statement at a time; the batched reading agrees with it. The rows a file
  describes are the fold of \<open>upsert_row\<close> over its storable records, and every
  reading, wherever it is cut off, applies a prefix of them.
\<close>

section \<open>Line by line reading\<close>

fun ingest_each :: "(string \<Rightarrow> (string, json) res) \<Rightarrow> (string \<Rightarrow> u8 list) \<Rightarrow> (string \<Rightarrow> string option)
    \<Rightarrow> EvidenceStream \<Rightarrow> string list \<Rightarrow> IngestSummary \<times> platform_db \<Rightarrow> IngestSummary \<times> platform_db" where
  "ingest_each from_str sha refused stream [] st = st"
| "ingest_each from_str sha refused stream (line # lines) (summary, db) =
     (if trim line = [] then ingest_each from_str sha refused stream lines (summary, db)
      else case ingest_evidence_line from_str sha refused stream line IoOk db of
          (Inr outcome, db') \<Rightarrow> ingest_each from_str sha refused stream lines (count_ingested outcome summary, db')
        | (Inl _, db') \<Rightarrow> (summary, db'))"

text \<open>The records of a file, the rows they become, and the records read and inserted one by one.\<close>

definition file_records :: "(string \<Rightarrow> (string, json) res) \<Rightarrow> EvidenceStream \<Rightarrow> string list \<Rightarrow> (string \<times> EvidenceKeys) list" where
  "file_records from_str stream lines = concat (map (\<lambda>line. if trim line = [] then [] else
     case evidence_keys from_str stream line of Inr keys \<Rightarrow> [(line, keys)] | Inl _ \<Rightarrow> []) lines)"

definition storable_rows :: "(string \<Rightarrow> u8 list) \<Rightarrow> (string \<Rightarrow> string option) \<Rightarrow> EvidenceStream
    \<Rightarrow> (string \<times> EvidenceKeys) list \<Rightarrow> evidence_row list" where
  "storable_rows sha refused stream recs =
     map (\<lambda>(line, keys). evidence_row_of sha stream line keys) (filter (\<lambda>(line, _). refused line = None) recs)"

fun insert_each :: "(string \<Rightarrow> u8 list) \<Rightarrow> (string \<Rightarrow> string option) \<Rightarrow> EvidenceStream
    \<Rightarrow> (string \<times> EvidenceKeys) list \<Rightarrow> IngestSummary \<times> platform_db \<Rightarrow> IngestSummary \<times> platform_db" where
  "insert_each sha refused stream [] st = st"
| "insert_each sha refused stream (rec # recs) (summary, db) =
     (case insert_evidence sha refused stream rec IoOk db of
        (Inr outcome, db') \<Rightarrow> insert_each sha refused stream recs (count_ingested outcome summary, db')
      | (Inl _, db') \<Rightarrow> (summary, db'))"

section \<open>Tables\<close>

lemma evidence_rows_with [simp]: "evidence_rows stream (with_evidence stream rows db) = rows"
  and with_evidence_twice [simp]: "with_evidence stream rows' (with_evidence stream rows db) = with_evidence stream rows' db"
  and with_evidence_same [simp]: "with_evidence stream (evidence_rows stream db) db = db"
  by (cases stream; simp)+

lemma upsert_present [simp]: "has_key e_sha (e_sha row) rows \<Longrightarrow> upsert_row row rows = rows"
  by (simp add: upsert_row_def)

lemma upsert_keeps: "has_key e_sha k rows \<Longrightarrow> has_key e_sha k (upsert_row row rows)"
  by (simp add: upsert_row_def has_key_def)

lemma upsert_adds [simp]: "has_key e_sha (e_sha row) (upsert_row row rows)"
  by (simp add: upsert_row_def has_key_def)

lemma fold_upsert_keeps: "has_key e_sha k rows \<Longrightarrow> has_key e_sha k (fold upsert_row new rows)"
  by (induction new arbitrary: rows) (simp_all add: upsert_keeps)

lemma fold_upsert_adds: "row \<in> set new \<Longrightarrow> has_key e_sha (e_sha row) (fold upsert_row new rows)"
  by (induction new arbitrary: rows) (auto simp: fold_upsert_keeps)

lemma fold_upsert_present:
  "(\<And>row. row \<in> set new \<Longrightarrow> has_key e_sha (e_sha row) rows) \<Longrightarrow> fold upsert_row new rows = rows"
  by (induction new) simp_all

text \<open>Inserting a list of rows after any prefix of it is inserting the list.\<close>

lemma fold_upsert_resumes: "fold upsert_row (pre @ post) (fold upsert_row pre rows) = fold upsert_row (pre @ post) rows"
  by (simp add: fold_upsert_present fold_upsert_adds)

lemma fold_upsert_length: "length rows \<le> length (fold upsert_row new rows) \<and> length (fold upsert_row new rows) \<le> length rows + length new"
proof (induction new arbitrary: rows)
  case (Cons row new)
  show ?case using Cons [of "upsert_row row rows"] by (simp add: upsert_row_def split: if_splits)
qed simp

section \<open>Records and summaries\<close>

lemma file_records_simps [simp]:
  "file_records from_str stream [] = []"
  "file_records from_str stream (line # lines) = (if trim line = [] then [] else
     case evidence_keys from_str stream line of Inr keys \<Rightarrow> [(line, keys)] | Inl _ \<Rightarrow> []) @ file_records from_str stream lines"
  by (simp_all add: file_records_def)

lemma storable_rows_simps [simp]:
  "storable_rows sha refused stream [] = []"
  "storable_rows sha refused stream ((line, keys) # recs) =
     (if refused line = None then [evidence_row_of sha stream line keys] else []) @ storable_rows sha refused stream recs"
  "storable_rows sha refused stream (recs @ recs') = storable_rows sha refused stream recs @ storable_rows sha refused stream recs'"
  by (simp_all add: storable_rows_def)

lemma count_unreadable_commutes [simp]:
  "count_ingested outcome (count_unreadable summary) = count_unreadable (count_ingested outcome summary)"
  by (cases outcome) (simp_all add: count_unreadable_def)

lemma insert_evidence_ok:
  "insert_evidence sha refused stream (line, keys) IoOk db = (case refused line of
       Some error \<Rightarrow> (Inr (Unreadable error), db)
     | None \<Rightarrow> let row = evidence_row_of sha stream line keys; rows = evidence_rows stream db in
         (Inr (if has_key e_sha (e_sha row) rows then AlreadyPresent else Stored), with_evidence stream (upsert_row row rows) db))"
  by (simp add: insert_evidence_def insert_sql_def Let_def split: option.split)

lemma insert_evidence_ok_Inr: "\<exists>outcome db'. insert_evidence sha refused stream rec IoOk db = (Inr outcome, db')"
proof (cases rec)
  case (Pair line keys)
  then show ?thesis by (cases "refused line") (simp_all add: insert_evidence_ok Let_def)
qed

lemma insert_each_append:
  "insert_each sha refused stream (recs @ recs') st = insert_each sha refused stream recs' (insert_each sha refused stream recs st)"
proof (induction recs arbitrary: st)
  case (Cons rec recs)
  obtain summary db where "st = (summary, db)" by force
  moreover obtain outcome db' where "insert_evidence sha refused stream rec IoOk db = (Inr outcome, db')"
    using insert_evidence_ok_Inr by blast
  ultimately show ?case using Cons.IH by simp
qed simp

lemma insert_each_unreadable:
  "insert_each sha refused stream recs (count_unreadable summary, db) =
     (case insert_each sha refused stream recs (summary, db) of (s, db') \<Rightarrow> (count_unreadable s, db'))"
proof (induction recs arbitrary: summary db)
  case (Cons rec recs)
  then show ?case by (cases rec) (simp add: insert_evidence_ok Let_def split: option.split)
qed simp

lemma insert_each_db:
  "snd (insert_each sha refused stream recs (summary, db)) =
     with_evidence stream (fold upsert_row (storable_rows sha refused stream recs) (evidence_rows stream db)) db"
proof (induction recs arbitrary: summary db)
  case (Cons rec recs)
  then show ?case by (cases rec) (simp add: insert_evidence_ok Let_def split: option.split)
qed simp

text \<open>What a list of records adds to the counters.\<close>

lemma insert_each_counts:
  "insert_each sha refused stream recs (summary, db) = (summary', db') \<Longrightarrow>
     stored summary' + already_present summary' = stored summary + already_present summary + length (storable_rows sha refused stream recs)
   \<and> unreadable summary' = unreadable summary + (length recs - length (storable_rows sha refused stream recs))
   \<and> stored summary' = stored summary
       + (length (fold upsert_row (storable_rows sha refused stream recs) (evidence_rows stream db)) - length (evidence_rows stream db))"
proof (induction recs arbitrary: summary db)
  case (Cons rec recs)
  obtain line keys where rec: "rec = (line, keys)" by force
  have le: "length (storable_rows sha refused stream recs) \<le> length recs" for recs
    by (simp add: storable_rows_def)
  show ?case
  proof (cases "refused line")
    case None
    let ?row = "evidence_row_of sha stream line keys" and ?rows = "evidence_rows stream db"
    show ?thesis
    proof (cases "has_key e_sha (e_sha ?row) ?rows")
      case True
      with None Cons.prems have "insert_each sha refused stream recs (count_ingested AlreadyPresent summary, db) = (summary', db')"
        by (simp add: rec insert_evidence_ok Let_def)
      from Cons.IH [OF this] show ?thesis using None True by (simp add: rec)
    next
      case False
      then have row: "upsert_row ?row ?rows = ?rows @ [?row]" by (simp add: upsert_row_def)
      from None False Cons.prems
      have "insert_each sha refused stream recs (count_ingested Stored summary, with_evidence stream (?rows @ [?row]) db) = (summary', db')"
        by (simp add: rec insert_evidence_ok Let_def row)
      from Cons.IH [OF this] show ?thesis
        using None row fold_upsert_length [of "?rows @ [?row]" "storable_rows sha refused stream recs"] by (simp add: rec, arith)
    qed
  next
    case (Some error)
    with Cons.prems Cons.IH [of "count_unreadable summary" db] le [of recs] show ?thesis
      by (simp add: rec insert_evidence_ok count_unreadable_def Suc_diff_le)
  qed
qed simp

section \<open>Batches\<close>

text \<open>The database is what inserting some prefix of \<open>new\<close> leaves.\<close>

definition partially_read :: "EvidenceStream \<Rightarrow> evidence_row list \<Rightarrow> platform_db \<Rightarrow> platform_db \<Rightarrow> bool" where
  "partially_read stream new db db' \<longleftrightarrow> (\<exists>pre post. new = pre @ post
     \<and> db' = with_evidence stream (fold upsert_row pre (evidence_rows stream db)) db)"

lemma partially_read_start [simp]: "partially_read stream new db db"
  unfolding partially_read_def by (intro exI [of _ "[]"] exI [of _ new]) simp

lemma partially_read_all: "partially_read stream new db (with_evidence stream (fold upsert_row new (evidence_rows stream db)) db)"
  unfolding partially_read_def by (intro exI [of _ new] exI [of _ "[]"]) simp

lemma partially_read_more: "partially_read stream new db db' \<Longrightarrow> partially_read stream (new @ rest) db db'"
  unfolding partially_read_def by (metis append.assoc)

lemma partially_read_step:
  assumes "partially_read stream rest (with_evidence stream (fold upsert_row new (evidence_rows stream db)) db) db'"
  shows "partially_read stream (new @ rest) db db'"
proof -
  obtain pre post where "rest = pre @ post"
    and "db' = with_evidence stream (fold upsert_row pre (fold upsert_row new (evidence_rows stream db))) db"
    using assms by (auto simp: partially_read_def)
  then show ?thesis
    unfolding partially_read_def by (intro exI [of _ "new @ pre"] exI [of _ post]) simp
qed

lemma insert_evidence_steps:
  assumes "insert_evidence sha refused stream rec io db = (r, db')"
  shows "partially_read stream (storable_rows sha refused stream [rec]) db db'"
    and "r = Inr outcome \<Longrightarrow> io = IoOk"
    and "io = IoOk \<Longrightarrow> db' = with_evidence stream (fold upsert_row (storable_rows sha refused stream [rec]) (evidence_rows stream db)) db"
proof -
  obtain line keys where rec: "rec = (line, keys)" by force
  have "db' = with_evidence stream (fold upsert_row (storable_rows sha refused stream [rec]) (evidence_rows stream db)) db"
    if "\<forall>msg. io \<noteq> IoFailed msg"
    using assms that
    by (cases "refused line") (auto simp: rec insert_evidence_def insert_sql_def Let_def split: io.splits bool.splits)
  moreover have "db' = db" if "io = IoFailed msg" for msg
    using assms that by (simp add: insert_evidence_def)
  ultimately show "partially_read stream (storable_rows sha refused stream [rec]) db db'"
    and "io = IoOk \<Longrightarrow> db' = with_evidence stream (fold upsert_row (storable_rows sha refused stream [rec]) (evidence_rows stream db)) db"
    by (metis partially_read_all partially_read_start, simp)
  show "r = Inr outcome \<Longrightarrow> io = IoOk"
    using assms by (auto simp: insert_evidence_def split: io.splits prod.splits)
qed

text \<open>What a call that handles some records may do: it applies a prefix of them; when it answers it
  has done exactly the line by line work; without a fault it answers.\<close>

definition reads :: "(string \<Rightarrow> u8 list) \<Rightarrow> (string \<Rightarrow> string option) \<Rightarrow> EvidenceStream \<Rightarrow> (string \<times> EvidenceKeys) list
    \<Rightarrow> IngestSummary \<times> platform_db \<Rightarrow> ingest_state \<Rightarrow> (PlatformStoreError, unit) res \<times> ingest_state \<Rightarrow> bool" where
  "reads sha refused stream recs whole st result \<longleftrightarrow>
     partially_read stream (storable_rows sha refused stream recs) (snd (snd st)) (snd (snd (snd result)))
   \<and> (fst result = Inr () \<longrightarrow> whole = (fst (snd result), snd (snd (snd result))))
   \<and> (fst (snd st) = [] \<longrightarrow> fst result = Inr () \<and> fst (snd (snd result)) = [])"

lemma ingest_singly_reads:
  "reads sha refused stream batch (insert_each sha refused stream batch (summary, db)) (summary, ios, db)
     (ingest_singly sha refused stream batch (summary, ios, db))"
proof (induction batch arbitrary: summary ios db)
  case (Cons rec batch)
  obtain io ios' where io: "next_io ios = (io, ios')" by force
  obtain r db' where r: "insert_evidence sha refused stream rec io db = (r, db')" by force
  obtain line keys where rec: "rec = (line, keys)" by force
  show ?case
  proof (cases r)
    case (Inl e)
    moreover have "ios \<noteq> []"
      using Inl r io insert_evidence_ok_Inr [of sha refused stream rec db] by (cases ios) auto
    moreover have "partially_read stream (storable_rows sha refused stream (rec # batch)) db db'"
      using partially_read_more [OF insert_evidence_steps(1) [OF r], of "storable_rows sha refused stream batch"] by (simp add: rec)
    ultimately show ?thesis using io r by (simp add: reads_def)
  next
    case (Inr outcome)
    then have ok: "io = IoOk" using insert_evidence_steps(2) [OF r] by simp
    have db': "db' = with_evidence stream (fold upsert_row (storable_rows sha refused stream [rec]) (evidence_rows stream db)) db"
      using insert_evidence_steps(3) [OF r ok] .
    have "ios = [] \<Longrightarrow> ios' = []" using io by (cases ios) auto
    moreover have "partially_read stream (storable_rows sha refused stream (rec # batch)) db db''"
      if "partially_read stream (storable_rows sha refused stream batch) db' db''" for db''
      using partially_read_step [of stream "storable_rows sha refused stream batch" "storable_rows sha refused stream [rec]" db db''] that db'
      by (simp add: rec)
    ultimately show ?thesis
      using Cons.IH [of "count_ingested outcome summary" db' ios'] io r ok Inr by (simp add: reads_def)
  qed
qed (simp add: reads_def)

lemma find_refused_None:
  "List.find (\<lambda>(line, _). refused line \<noteq> None) batch = None \<Longrightarrow>
     storable_rows sha refused stream batch = map (\<lambda>(line, keys). evidence_row_of sha stream line keys) batch"
  by (auto simp: storable_rows_def find_None_iff intro!: arg_cong [where f = "map _"] filter_True)

lemma fold_batch:
  "fold (\<lambda>(line, keys). upsert_row (evidence_row_of sha stream line keys)) batch rows
     = fold upsert_row (map (\<lambda>(line, keys). evidence_row_of sha stream line keys) batch) rows"
  by (induction batch arbitrary: rows) auto

lemma insert_each_stored:
  assumes "storable_rows sha refused stream batch = map (\<lambda>(line, keys). evidence_row_of sha stream line keys) batch"
    and "n = length (fold upsert_row (storable_rows sha refused stream batch) (evidence_rows stream db)) - length (evidence_rows stream db)"
  shows "insert_each sha refused stream batch (summary, db) =
     (summary\<lparr>stored := stored summary + n, already_present := already_present summary + (length batch - n)\<rparr>,
      with_evidence stream (fold upsert_row (storable_rows sha refused stream batch) (evidence_rows stream db)) db)"
proof -
  obtain summary' where r: "insert_each sha refused stream batch (summary, db) = (summary', snd (insert_each sha refused stream batch (summary, db)))"
    by (metis surj_pair snd_conv)
  have "n \<le> length batch"
    using assms fold_upsert_length [of "evidence_rows stream db" "storable_rows sha refused stream batch"] by simp linarith
  moreover have "stored summary' = stored summary + n"
    and "stored summary' + already_present summary' = stored summary + already_present summary + length batch"
    and "unreadable summary' = unreadable summary"
    using insert_each_counts [OF r] assms by simp_all
  ultimately have "summary' = summary\<lparr>stored := stored summary + n, already_present := already_present summary + (length batch - n)\<rparr>"
    by (intro IngestSummary.equality) auto
  with r show ?thesis by (simp add: insert_each_db)
qed

lemma ingest_batch_reads:
  "reads sha refused stream batch (insert_each sha refused stream batch (summary, db)) (summary, ios, db)
     (ingest_batch sha refused stream batch (summary, ios, db))"
proof -
  obtain io ios' where io: "next_io ios = (io, ios')" by force
  have ok: "ios = [] \<longrightarrow> io = IoOk \<and> ios' = []" using io by (cases ios) auto
  obtain inserted db' where b: "insert_batch_sql sha refused stream batch db = (inserted, db')" by force
  show ?thesis
  proof (cases "List.find (\<lambda>(line, _). refused line \<noteq> None) batch")
    case None
    note storable = find_refused_None [OF None, of sha stream]
    have db': "db' = with_evidence stream (fold upsert_row (storable_rows sha refused stream batch) (evidence_rows stream db)) db"
      and n: "inserted = Inr (length (fold upsert_row (storable_rows sha refused stream batch) (evidence_rows stream db)) - length (evidence_rows stream db))"
      using b None by (simp_all add: insert_batch_sql_def Let_def fold_batch storable)
    show ?thesis
      using insert_each_stored [OF storable refl, of summary db] ok io b n
      by (cases io) (simp_all add: reads_def ingest_batch_def db' partially_read_all)
  next
    case (Some hit)
    then have "inserted = Inl (the (refused (fst hit))) \<and> db' = db"
      using b by (auto simp: insert_batch_sql_def split: prod.splits)
    then show ?thesis
      using ingest_singly_reads [of sha refused stream batch summary db ios'] ok io b
      by (cases io) (simp_all add: reads_def ingest_batch_def)
  qed
qed

section \<open>The loop\<close>

lemma ingest_each_unreadable:
  "ingest_each from_str sha refused stream lines (count_unreadable summary, db) =
     (case ingest_each from_str sha refused stream lines (summary, db) of (s, db') \<Rightarrow> (count_unreadable s, db'))"
proof (induction lines arbitrary: summary db)
  case (Cons line lines)
  obtain r db' where r: "ingest_evidence_line from_str sha refused stream line IoOk db = (r, db')" by force
  then show ?case using Cons.IH by (cases r) auto
qed simp

text \<open>A line is its record inserted, or one more unreadable line.\<close>

lemma ingest_each_line:
  "ingest_each from_str sha refused stream (line # lines) (summary, db) =
     (if trim line = [] then ingest_each from_str sha refused stream lines (summary, db)
      else case evidence_keys from_str stream line of
          Inl why \<Rightarrow> ingest_each from_str sha refused stream lines (count_unreadable summary, db)
        | Inr keys \<Rightarrow> ingest_each from_str sha refused stream lines (insert_each sha refused stream [(line, keys)] (summary, db)))"
proof -
  show ?thesis
  proof (cases "evidence_keys from_str stream line")
    case (Inr keys)
    moreover obtain outcome db' where "insert_evidence sha refused stream (line, keys) IoOk db = (Inr outcome, db')"
      using insert_evidence_ok_Inr by blast
    ultimately show ?thesis by (simp add: ingest_evidence_line_def)
  qed (simp add: ingest_evidence_line_def)
qed

lemma ingest_each_db:
  "snd (ingest_each from_str sha refused stream lines (summary, db)) = with_evidence stream
     (fold upsert_row (storable_rows sha refused stream (file_records from_str stream lines)) (evidence_rows stream db)) db"
proof (induction lines arbitrary: summary db)
  case (Cons line lines)
  show ?case
  proof (cases "trim line = []")
    case False
    show ?thesis
    proof (cases "evidence_keys from_str stream line")
      case (Inr keys)
      obtain s' db' where st: "insert_each sha refused stream [(line, keys)] (summary, db) = (s', db')" by force
      then have "db' = with_evidence stream (fold upsert_row (storable_rows sha refused stream [(line, keys)]) (evidence_rows stream db)) db"
        using insert_each_db [of sha refused stream "[(line, keys)]" summary db] by simp
      then show ?thesis
        unfolding ingest_each_line using False Inr st Cons.IH [of s' db'] by simp
    qed (unfold ingest_each_line, use False Cons.IH in simp)
  qed (use Cons.IH in simp)
qed simp

lemma ingest_loop_reads:
  "0 < lim_lines \<Longrightarrow>
   reads sha refused stream (batch @ file_records from_str stream lines)
     (ingest_each from_str sha refused stream lines (insert_each sha refused stream batch (summary, db))) (summary, ios, db)
     (ingest_loop lim_lines from_str sha refused stream lines batch (summary, ios, db))"
proof (induction lines arbitrary: batch summary ios db)
  case Nil
  show ?case
    using ingest_batch_reads [of sha refused stream batch summary db ios] by (auto simp: reads_def)
next
  case (Cons line lines)
  obtain s0 db0 where st0: "insert_each sha refused stream batch (summary, db) = (s0, db0)" by force
  show ?case
  proof (cases "trim line = []")
    case True
    then show ?thesis using Cons.IH [OF Cons.prems, of batch summary db ios] st0 by simp
  next
    case nonblank: False
    define batch' where "batch' = (case evidence_keys from_str stream line of Inr keys \<Rightarrow> batch @ [(line, keys)] | Inl _ \<Rightarrow> batch)"
    define summary' where "summary' = (case evidence_keys from_str stream line of Inr _ \<Rightarrow> summary | Inl _ \<Rightarrow> count_unreadable summary)"
    have recs: "batch @ file_records from_str stream (line # lines) = batch' @ file_records from_str stream lines"
      using nonblank by (simp add: batch'_def split: sum.splits)
    have whole: "ingest_each from_str sha refused stream (line # lines) (insert_each sha refused stream batch (summary, db))
        = ingest_each from_str sha refused stream lines (insert_each sha refused stream batch' (summary', db))"
      using nonblank st0
      by (simp only: ingest_each_line batch'_def summary'_def)
         (auto simp: insert_each_append insert_each_unreadable ingest_each_line simp del: ingest_each.simps(2) split: sum.splits)
    have loop: "ingest_loop lim_lines from_str sha refused stream (line # lines) batch (summary, ios, db) =
        (if length batch' = lim_lines
         then (case ingest_batch sha refused stream batch' (summary', ios, db) of
                 (Inl e, st') \<Rightarrow> (Inl e, st')
               | (Inr _, st') \<Rightarrow> ingest_loop lim_lines from_str sha refused stream lines [] st')
         else ingest_loop lim_lines from_str sha refused stream lines batch' (summary', ios, db))"
      using nonblank by (auto simp: batch'_def summary'_def split: sum.splits)
    show ?thesis
    proof (cases "length batch' = lim_lines")
      case False
      then show ?thesis
        unfolding loop recs whole using Cons.IH [OF Cons.prems, of batch' summary' db ios] by (simp add: reads_def)
    next
      case True
      obtain r s1 ios1 db1 where b: "ingest_batch sha refused stream batch' (summary', ios, db) = (r, s1, ios1, db1)"
        by (metis surj_pair)
      have first: "reads sha refused stream batch' (insert_each sha refused stream batch' (summary', db)) (summary', ios, db) (r, s1, ios1, db1)"
        using ingest_batch_reads [of sha refused stream batch' summary' db ios] b by simp
      show ?thesis
      proof (cases r)
        case (Inl e)
        with first True b show ?thesis
          unfolding loop recs whole by (auto simp: reads_def partially_read_more)
      next
        case (Inr u)
        with first have done1: "insert_each sha refused stream batch' (summary', db) = (s1, db1)" by (simp add: reads_def)
        then have db1: "db1 = with_evidence stream (fold upsert_row (storable_rows sha refused stream batch') (evidence_rows stream db)) db"
          using insert_each_db [of sha refused stream batch' summary' db] by simp
        have later: "reads sha refused stream (file_records from_str stream lines)
            (ingest_each from_str sha refused stream lines (s1, db1)) (s1, ios1, db1)
            (ingest_loop lim_lines from_str sha refused stream lines [] (s1, ios1, db1))"
          using Cons.IH [OF Cons.prems, of "[]" s1 db1 ios1] by simp
        show ?thesis
          unfolding loop recs whole
          using first later Inr True b done1
          by (auto simp: reads_def db1 intro!: partially_read_step)
      qed
    qed
  qed
qed

text \<open>Unreadable lines only add to their counter.\<close>

definition unreadable_lines :: "(string \<Rightarrow> (string, json) res) \<Rightarrow> EvidenceStream \<Rightarrow> string list \<Rightarrow> nat" where
  "unreadable_lines from_str stream lines =
     length (filter (\<lambda>line. trim line \<noteq> [] \<and> \<not> (\<exists>keys. evidence_keys from_str stream line = Inr keys)) lines)"

lemma unreadable_lines_simps [simp]:
  "unreadable_lines from_str stream [] = 0"
  "unreadable_lines from_str stream (line # lines) = unreadable_lines from_str stream lines
     + (if trim line = [] then 0 else case evidence_keys from_str stream line of Inl _ \<Rightarrow> 1 | Inr _ \<Rightarrow> 0)"
  by (simp_all add: unreadable_lines_def split: sum.split)

lemma ingest_each_records:
  "ingest_each from_str sha refused stream lines (summary, db) =
     (case insert_each sha refused stream (file_records from_str stream lines) (summary, db) of
        (s, db') \<Rightarrow> (s\<lparr>unreadable := unreadable s + unreadable_lines from_str stream lines\<rparr>, db'))"
proof (induction lines arbitrary: summary db)
  case (Cons line lines)
  obtain s db' where all: "insert_each sha refused stream (file_records from_str stream lines) (summary, db) = (s, db')" by force
  show ?case
  proof (cases "evidence_keys from_str stream line")
    case (Inl why)
    with Cons.IH all show ?thesis
      by (simp del: ingest_each.simps(2) add: ingest_each_line ingest_each_unreadable) (simp add: count_unreadable_def)
  next
    case (Inr keys)
    obtain s1 db1 where one: "insert_each sha refused stream [(line, keys)] (summary, db) = (s1, db1)" by force
    have "insert_each sha refused stream ((line, keys) # file_records from_str stream lines) (summary, db)
        = insert_each sha refused stream (file_records from_str stream lines) (s1, db1)"
      using insert_each_append [of sha refused stream "[(line, keys)]" "file_records from_str stream lines" "(summary, db)"] one by simp
    then show ?thesis
      unfolding ingest_each_line using Inr Cons.IH [of s1 db1] Cons.IH [of summary db] one
      by (simp del: insert_each.simps(2))
  qed
qed simp

lemma ingest_each_counts:
  assumes "ingest_each from_str sha refused stream lines (summary, db) = (summary', db')"
  defines "rows \<equiv> storable_rows sha refused stream (file_records from_str stream lines)"
  shows "stored summary' + already_present summary' = stored summary + already_present summary + length rows"
    and "unreadable summary' = unreadable summary + unreadable_lines from_str stream lines
           + (length (file_records from_str stream lines) - length rows)"
    and "stored summary' = stored summary + (length (evidence_rows stream db') - length (evidence_rows stream db))"
proof -
  obtain s where s: "insert_each sha refused stream (file_records from_str stream lines) (summary, db) = (s, db')"
    and summary': "summary' = s\<lparr>unreadable := unreadable s + unreadable_lines from_str stream lines\<rparr>"
    using assms by (auto simp: ingest_each_records split: prod.splits)
  show "stored summary' + already_present summary' = stored summary + already_present summary + length rows"
    and "unreadable summary' = unreadable summary + unreadable_lines from_str stream lines
           + (length (file_records from_str stream lines) - length rows)"
    and "stored summary' = stored summary + (length (evidence_rows stream db') - length (evidence_rows stream db))"
    using insert_each_counts [OF s] insert_each_db [of sha refused stream "file_records from_str stream lines" summary db] s
    by (simp_all add: summary' rows_def)
qed

section \<open>Whole files\<close>

lemma ingest_evidence_reads:
  assumes "ingest_evidence from_str sha refused stream contents ios db = (r, db')"
  defines "lines \<equiv> rust_lines contents"
  shows "partially_read stream (storable_rows sha refused stream (file_records from_str stream lines)) db db'"
    and "r = Inr summary \<Longrightarrow> ingest_each from_str sha refused stream lines (empty_summary, db) = (summary, db')"
    and "ios = [] \<Longrightarrow> \<exists>summary. r = Inr summary"
proof -
  obtain r0 s0 ios0 db0 where loop:
    "ingest_loop INGEST_BATCH_LINES from_str sha refused stream lines [] (empty_summary, ios, db) = (r0, s0, ios0, db0)"
    by (metis surj_pair)
  have reads: "reads sha refused stream (file_records from_str stream lines)
      (ingest_each from_str sha refused stream lines (empty_summary, db)) (empty_summary, ios, db) (r0, s0, ios0, db0)"
    using ingest_loop_reads [of INGEST_BATCH_LINES sha refused stream "[]" from_str lines empty_summary db ios] loop
    by (simp add: INGEST_BATCH_LINES_def)
  have r: "r = (case r0 of Inl e \<Rightarrow> Inl e | Inr _ \<Rightarrow> Inr s0)" and db': "db' = db0"
    using assms loop by (auto simp: ingest_evidence_def lines_def split: sum.splits)
  show "partially_read stream (storable_rows sha refused stream (file_records from_str stream lines)) db db'"
    and "r = Inr summary \<Longrightarrow> ingest_each from_str sha refused stream lines (empty_summary, db) = (summary, db')"
    and "ios = [] \<Longrightarrow> \<exists>summary. r = Inr summary"
    using reads by (auto simp: reads_def r db' split: sum.splits)
qed

lemma ingest_evidence_clean:
  "ingest_evidence from_str sha refused stream contents [] db =
     (case ingest_each from_str sha refused stream (rust_lines contents) (empty_summary, db) of (s, db') \<Rightarrow> (Inr s, db'))"
proof -
  obtain r db' where r: "ingest_evidence from_str sha refused stream contents [] db = (r, db')" by force
  then show ?thesis
    using ingest_evidence_reads(2) [OF r] ingest_evidence_reads(3) [OF r] by auto
qed

text \<open>Also: reading a file in batches of a thousand lines is reading it line by line. Whenever
  \<^verbatim>\<open>ingest_evidence\<close> answers, its counters and the tables it leaves are those of ingesting
  every non-blank line with a statement of its own, duplicates inside a batch and records the database
  refuses included; and it answers whenever no call to the database fails.\<close>

theorem batched_reading_is_line_by_line:
  "case ingest_evidence from_str sha refused stream contents ios db of
     (Inr summary, db') \<Rightarrow> (summary, db') = ingest_each from_str sha refused stream (rust_lines contents) (empty_summary, db)
   | (Inl _, _) \<Rightarrow> ios \<noteq> []"
proof -
  obtain r db' where r: "ingest_evidence from_str sha refused stream contents ios db = (r, db')" by force
  then show ?thesis
    using ingest_evidence_reads(2) [OF r] ingest_evidence_reads(3) [OF r] by (auto split: sum.splits)
qed

text \<open>Property C5: an interrupted reading converges. However a reading of a file ends, at whatever call
  it is cut off and whether or not the cut call took effect, reading the whole file again leaves exactly
  the tables one uninterrupted reading would have left.\<close>

theorem interrupted_reading_converges:
  assumes "ingest_evidence from_str sha refused stream contents ios db = (r, db')"
  shows "snd (ingest_evidence from_str sha refused stream contents [] db')
       = snd (ingest_evidence from_str sha refused stream contents [] db)"
proof -
  obtain pre post where "storable_rows sha refused stream (file_records from_str stream (rust_lines contents)) = pre @ post"
    and "db' = with_evidence stream (fold upsert_row pre (evidence_rows stream db)) db"
    using ingest_evidence_reads(1) [OF assms] by (auto simp: partially_read_def)
  then show ?thesis
    using ingest_each_db [of from_str sha refused stream "rust_lines contents" empty_summary]
    by (simp add: ingest_evidence_clean fold_upsert_resumes split_def del: fold_append)
qed

text \<open>Also: reading a file again is free. After a reading that answered, a second one stores
  nothing, finds every storable line present, counts the same lines unreadable, and leaves the database
  as it is.\<close>

theorem rereading_changes_nothing:
  assumes read: "ingest_evidence from_str sha refused stream contents ios db = (Inr summary, db')"
  shows "ingest_evidence from_str sha refused stream contents [] db' =
     (Inr \<lparr>stored = 0, already_present = stored summary + already_present summary, unreadable = unreadable summary\<rparr>, db')"
proof -
  let ?each = "ingest_each from_str sha refused stream (rust_lines contents)"
  obtain again db'' where again: "?each (empty_summary, db') = (again, db'')" by force
  have first: "?each (empty_summary, db) = (summary, db')" using ingest_evidence_reads(2) [OF read refl] .
  have "db'' = db'"
    using ingest_each_db [of from_str sha refused stream "rust_lines contents" empty_summary] first again
    by (metis append_Nil2 evidence_rows_with fold_upsert_resumes snd_conv with_evidence_twice)
  then have "again = \<lparr>stored = 0, already_present = stored summary + already_present summary, unreadable = unreadable summary\<rparr>"
    using ingest_each_counts [OF first] ingest_each_counts [OF again]
    by (intro IngestSummary.equality) (simp_all add: empty_summary_def)
  with again \<open>db'' = db'\<close> show ?thesis by (simp add: ingest_evidence_clean)
qed

section \<open>Concrete instances\<close>

text \<open>A file of three lines, the second a repetition of the first, the third one the database refuses.\<close>

definition demo_json :: "string \<Rightarrow> (string, json) res" where
  "demo_json line = Inr (JObject [(''ts'', JNumber (Finite 1)), (''request_id'', JString line)])"

definition demo_sha :: "string \<Rightarrow> u8 list" where
  "demo_sha line = map (\<lambda>c. word_of_nat (of_char c)) line"

definition demo_refused :: "string \<Rightarrow> string option" where
  "demo_refused line = (if line = ''z'' then Some ''22P05'' else None)"

definition demo_file :: string where
  "demo_file = [CHR ''a'', CHR 0x0A, CHR ''a'', CHR 0x0D, CHR 0x0A, CHR ''z'']"

definition demo_row :: evidence_row where
  "demo_row = \<lparr>e_sha = demo_sha ''a'', e_request_id = Some ''a'', e_organization = None, e_ts = 1, e_record = ''a''\<rparr>"

lemma demo_lines: "rust_lines demo_file = [''a'', ''a'', ''z'']"
  by (simp add: demo_file_def rust_lines.simps strip_cr_def Let_def)

lemma demo_blank: "trim ''a'' \<noteq> []" "trim ''z'' \<noteq> []"
  by code_simp+

lemma demo_read:
  "ingest_evidence demo_json demo_sha demo_refused GatewayUsage demo_file [IoOk, IoOk, IoReplyLost ''reset''] empty_platform_db
     = (Inl (DatabaseError ''reset''), empty_platform_db\<lparr>p_usage := [demo_row]\<rparr>)"
  "ingest_evidence demo_json demo_sha demo_refused GatewayUsage demo_file [] empty_platform_db
     = (Inr \<lparr>stored = 1, already_present = 1, unreadable = 1\<rparr>, empty_platform_db\<lparr>p_usage := [demo_row]\<rparr>)"
  by (simp_all add: ingest_evidence_def demo_lines demo_blank INGEST_BATCH_LINES_def evidence_keys_def demo_json_def
      ingest_batch_def insert_batch_sql_def demo_refused_def Let_def insert_evidence_def insert_sql_def evidence_row_of_def
      upsert_row_def has_key_def demo_sha_def demo_row_def empty_platform_db_def empty_summary_def count_unreadable_def)

theorem interrupted_reading_converges_witness:
  "snd (ingest_evidence demo_json demo_sha demo_refused GatewayUsage demo_file [] (empty_platform_db\<lparr>p_usage := [demo_row]\<rparr>))
     = empty_platform_db\<lparr>p_usage := [demo_row]\<rparr>"
  using interrupted_reading_converges [OF demo_read(1)] by (simp add: demo_read(2))

theorem rereading_changes_nothing_witness:
  "ingest_evidence demo_json demo_sha demo_refused GatewayUsage demo_file [] (empty_platform_db\<lparr>p_usage := [demo_row]\<rparr>)
     = (Inr \<lparr>stored = 0, already_present = 2, unreadable = 1\<rparr>, empty_platform_db\<lparr>p_usage := [demo_row]\<rparr>)"
  using rereading_changes_nothing [OF demo_read(2)] by simp

end
