(* ===== verification/InProcessQuota.thy ===== *)
theory InProcessQuota
  imports Complex_Main QuotaContract
begin

text \<open>
  The in-process half of the gateway's organization quota
  (\<^verbatim>\<open>crates/gateway/src/lib.rs\<close>, \<open>InProcessQuota\<close>): a hash map from organizations
  to the window their first request opened. An \<^verbatim>\<open>Instant\<close> and a \<^verbatim>\<open>Duration\<close> are
  rational numbers of seconds. The laws of \<open>window_quota\<close> are proved for it, and
  its burst bound: in any interval no longer than the window an organization is
  admitted fewer than twice its limit.
\<close>

record OrgWindow =
  started_at :: rat
  ow_count :: nat

record in_process_quota =
  ipq_limit :: nat
  ipq_window :: rat
  ipq_windows :: "string \<Rightarrow> OrgWindow option"

definition in_process_new :: "nat \<Rightarrow> nat \<Rightarrow> in_process_quota" where
  "in_process_new limit window_seconds =
     \<lparr>ipq_limit = limit, ipq_window = of_nat window_seconds, ipq_windows = Map.empty\<rparr>"

text \<open>\<^verbatim>\<open>Instant::duration_since\<close> and \<^verbatim>\<open>Duration::saturating_sub\<close> do not go below zero.\<close>

definition duration_since :: "rat \<Rightarrow> rat \<Rightarrow> rat" where
  "duration_since now earlier = max 0 (now - earlier)"

definition admit_window :: "nat \<Rightarrow> rat \<Rightarrow> OrgWindow \<Rightarrow> rat \<Rightarrow> (rat, unit) res \<times> OrgWindow" where
  "admit_window limit window entry now =
     (let entry = (if duration_since now (started_at entry) \<ge> window
                   then entry\<lparr>started_at := now, ow_count := 0\<rparr> else entry)
      in if ow_count entry \<ge> limit
         then (Inl (max 0 (window - duration_since now (started_at entry))), entry)
         else (Inr (), entry\<lparr>ow_count := ow_count entry + 1\<rparr>))"

text \<open>The sweep of expired windows: \<^verbatim>\<open>HashMap::retain\<close>.\<close>

definition retain_live :: "rat \<Rightarrow> rat \<Rightarrow> (string \<Rightarrow> OrgWindow option) \<Rightarrow> (string \<Rightarrow> OrgWindow option)" where
  "retain_live window now windows = (\<lambda>g. case windows g of
       None \<Rightarrow> None
     | Some entry \<Rightarrow> if duration_since now (started_at entry) < window then Some entry else None)"

definition in_process_admit :: "string \<Rightarrow> rat \<Rightarrow> in_process_quota \<Rightarrow> (rat, unit) res \<times> in_process_quota" where
  "in_process_admit organization now q = (case ipq_windows q organization of
       Some entry \<Rightarrow>
         let (r, entry') = admit_window (ipq_limit q) (ipq_window q) entry now
         in (r, q\<lparr>ipq_windows := (ipq_windows q)(organization \<mapsto> entry')\<rparr>)
     | None \<Rightarrow>
         let windows = retain_live (ipq_window q) now (ipq_windows q);
             entry = (case windows organization of Some entry \<Rightarrow> entry | None \<Rightarrow> \<lparr>started_at = now, ow_count = 0\<rparr>);
             (r, entry') = admit_window (ipq_limit q) (ipq_window q) entry now
         in (r, q\<lparr>ipq_windows := windows(organization \<mapsto> entry')\<rparr>))"

section \<open>The quota contract\<close>

definition process_charge :: "string \<Rightarrow> rat \<Rightarrow> in_process_quota \<Rightarrow> bool \<times> in_process_quota" where
  "process_charge organization now q = (case in_process_admit organization now q of (r, q') \<Rightarrow> (r = Inr (), q'))"

definition process_used :: "in_process_quota \<Rightarrow> string \<Rightarrow> rat \<Rightarrow> nat" where
  "process_used q g t = (case ipq_windows q g of
       None \<Rightarrow> 0
     | Some e \<Rightarrow> if duration_since t (started_at e) \<ge> ipq_window q then 0 else ow_count e)"

text \<open>The start of the window that a charge at \<open>t\<close> uses, and the instants inside it.\<close>

definition process_start :: "in_process_quota \<Rightarrow> string \<Rightarrow> rat \<Rightarrow> rat" where
  "process_start q g t = (case ipq_windows q g of
       None \<Rightarrow> t
     | Some e \<Rightarrow> if duration_since t (started_at e) \<ge> ipq_window q then t else started_at e)"

definition process_same_window :: "in_process_quota \<Rightarrow> string \<Rightarrow> rat \<Rightarrow> rat \<Rightarrow> bool" where
  "process_same_window q g t t' \<longleftrightarrow> duration_since t' (process_start q g t) < ipq_window q"

definition process_inv :: "nat \<Rightarrow> rat \<Rightarrow> in_process_quota \<Rightarrow> bool" where
  "process_inv limit window q \<longleftrightarrow> ipq_limit q = limit \<and> ipq_window q = window \<and> 0 < limit \<and> 0 < window
     \<and> (\<forall>g e. ipq_windows q g = Some e \<longrightarrow> 1 \<le> ow_count e \<and> ow_count e \<le> limit)"

lemma OrgWindow_updates [simp]:
  "(e :: OrgWindow)\<lparr>started_at := t, ow_count := n\<rparr> = \<lparr>started_at = t, ow_count = n\<rparr>"
  "(e :: OrgWindow)\<lparr>ow_count := n\<rparr> = \<lparr>started_at = started_at e, ow_count = n\<rparr>"
  by (cases e; simp)+

lemma process_charge_cases:
  assumes "process_inv limit window q"
  obtains (admitted) n s where "process_charge g t q = (True, q\<lparr>ipq_windows := (snd n)(g \<mapsto> \<lparr>started_at = s, ow_count = Suc (fst n)\<rparr>)\<rparr>)"
      and "fst n = process_used q g t" and "s = process_start q g t" and "fst n < limit"
      and "snd n = (case ipq_windows q g of None \<Rightarrow> retain_live window t (ipq_windows q) | Some _ \<Rightarrow> ipq_windows q)"
    | (refused) e where "process_charge g t q = (False, q)" and "ipq_windows q g = Some e"
      and "duration_since t (started_at e) < window" and "ow_count e = limit" and "process_used q g t = limit"
proof (cases "ipq_windows q g")
  case None
  have "process_charge g t q = (True, q\<lparr>ipq_windows := (retain_live window t (ipq_windows q))(g \<mapsto> \<lparr>started_at = t, ow_count = Suc 0\<rparr>)\<rparr>)"
    using assms None
    by (simp add: process_charge_def in_process_admit_def retain_live_def admit_window_def duration_since_def process_inv_def)
  then show thesis
    using None assms by (intro admitted [of "(0, retain_live window t (ipq_windows q))" t])
      (simp_all add: process_used_def process_start_def process_inv_def)
next
  case (Some e)
  have e: "1 \<le> ow_count e" "ow_count e \<le> limit" "0 < limit" using assms Some by (auto simp: process_inv_def)
  show thesis
  proof (cases "duration_since t (started_at e) \<ge> window")
    case True
    then have "process_charge g t q = (True, q\<lparr>ipq_windows := (ipq_windows q)(g \<mapsto> \<lparr>started_at = t, ow_count = Suc 0\<rparr>)\<rparr>)"
      using assms Some e
      by (simp add: process_charge_def in_process_admit_def admit_window_def process_inv_def)
    then show thesis
      using Some assms True by (intro admitted [of "(0, ipq_windows q)" t])
        (simp_all add: process_used_def process_start_def process_inv_def)
  next
    case False
    show thesis
    proof (cases "ow_count e < limit")
      case True
      with False assms Some
      have "process_charge g t q = (True, q\<lparr>ipq_windows := (ipq_windows q)(g \<mapsto> \<lparr>started_at = started_at e, ow_count = Suc (ow_count e)\<rparr>)\<rparr>)"
        by (simp add: process_charge_def in_process_admit_def admit_window_def process_inv_def)
      then show thesis
        using Some assms False True by (intro admitted [of "(ow_count e, ipq_windows q)" "started_at e"])
          (simp_all add: process_used_def process_start_def process_inv_def)
    next
      case full: False
      with False assms Some e have "process_charge g t q = (False, q)"
        by (simp add: process_charge_def in_process_admit_def admit_window_def process_inv_def map_upd_triv)
      then show thesis
        using Some False full e assms by (intro refused [of e]) (simp_all add: process_used_def process_inv_def)
    qed
  qed
qed

lemma process_new_inv: "0 < limit \<Longrightarrow> 0 < window \<Longrightarrow> process_inv limit (of_nat window) (in_process_new limit window)"
  by (simp add: process_inv_def in_process_new_def)

lemma retain_live_other:
  "retain_live window t windows h = windows h \<or> (retain_live window t windows h = None
     \<and> (\<exists>e. windows h = Some e \<and> window \<le> duration_since t (started_at e)))"
  by (auto simp: retain_live_def split: option.splits)

lemma process_charge_keeps:
  assumes "process_inv limit window q"
  shows "process_inv limit window (snd (process_charge g t q))"
  using assms
proof (cases rule: process_charge_cases [of _ _ _ g t, case_names ok no])
  case (ok n s)
  then show ?thesis
    using assms by (auto simp: process_inv_def retain_live_def split: option.splits if_splits)
qed (use assms in simp)

interpretation process: window_quota process_charge process_used process_same_window "process_inv limit window" limit
  for limit window
proof (unfold_locales, goal_cases)
  case (1 s g t)
  then show ?case by (rule process_charge_keeps)
next
  case (2 s g t)
  then show ?case by (cases rule: process_charge_cases [of _ _ _ g t]) auto
next
  case (3 s t t' g)
  have w: "ipq_window s = window" "0 < window" using 3(1) by (auto simp: process_inv_def)
  from 3(1) show ?case
  proof (cases rule: process_charge_cases [of _ _ _ g t])
    case (admitted n x)
    then show ?thesis using 3(3) w by (simp add: process_used_def process_same_window_def)
  next
    case (refused e)
    then show ?thesis using 3(3) w by (simp add: process_used_def process_same_window_def process_start_def)
  qed
next
  case (4 s t t' t'' g)
  have w: "ipq_window s = window" "0 < window" using 4(1) by (auto simp: process_inv_def)
  from 4(1) show ?case
  proof (cases rule: process_charge_cases [of _ _ _ g t])
    case (admitted n x)
    then show ?thesis
      using 4 w by (auto simp: process_same_window_def process_start_def)
  next
    case (refused e)
    then show ?thesis using 4 w by (auto simp: process_same_window_def process_start_def)
  qed
next
  case (5 s h g t t')
  have w: "ipq_window s = window" using 5(1) by (auto simp: process_inv_def)
  have late: "duration_since t x \<le> duration_since t' x" for x using 5(3) by (simp add: duration_since_def)
  from 5(1) show ?case
  proof (cases rule: process_charge_cases [of _ _ _ g t])
    case (admitted n x)
    have "ipq_windows s h = snd n h \<or> (snd n h = None \<and> (\<exists>e. ipq_windows s h = Some e \<and> window \<le> duration_since t (started_at e)))"
      using retain_live_other [of window t "ipq_windows s" h] admitted by (auto split: option.splits)
    then show ?thesis
      using admitted w 5(2) late by (fastforce simp: process_used_def split: option.splits intro: order_trans)
  qed simp
next
  case (6 s h g t t' t'')
  have w: "ipq_window s = window" using 6(1) by (auto simp: process_inv_def)
  have late: "duration_since t x \<le> duration_since t' x" for x using 6(3) by (simp add: duration_since_def)
  from 6(1) show ?case
  proof (cases rule: process_charge_cases [of _ _ _ g t])
    case (admitted n x)
    have "ipq_windows s h = snd n h \<or> (snd n h = None \<and> (\<exists>e. ipq_windows s h = Some e \<and> window \<le> duration_since t (started_at e)))"
      using retain_live_other [of window t "ipq_windows s" h] admitted by (auto split: option.splits)
    then have "process_start (snd (process_charge g t s)) h t' = process_start s h t'"
      using admitted w 6(2) late by (fastforce simp: process_start_def split: option.splits intro: order_trans)
    then show ?thesis using admitted w by (simp add: process_same_window_def)
  qed simp
qed

section \<open>Reachable states and bursts\<close>

lemma process_run_keeps:
  "process_inv limit window q \<Longrightarrow> process_inv limit window (snd (run_charges process_charge es q))"
proof (induction es arbitrary: q)
  case (Cons e es)
  obtain g t where "e = (g, t)" by (cases e)
  with Cons.IH [OF process_charge_keeps [OF Cons.prems]] show ?case by (simp add: split_def Let_def)
qed simp

text \<open>What organization \<open>g\<close> can still be admitted before \<open>a + window\<close>, \<open>a\<close> a time not after now: a
  window opened before \<open>a\<close> may be followed by one more, a window opened since cannot.\<close>

definition burst_left :: "rat \<Rightarrow> string \<Rightarrow> in_process_quota \<Rightarrow> nat" where
  "burst_left a g q = (case ipq_windows q g of
       None \<Rightarrow> ipq_limit q
     | Some e \<Rightarrow> (ipq_limit q - ow_count e) + (if started_at e < a then ipq_limit q else 0))"

lemma burst_left_bound: "process_inv limit window q \<Longrightarrow> burst_left a g q < 2 * limit"
proof (cases "ipq_windows q g")
  case (Some e)
  moreover assume "process_inv limit window q"
  ultimately have "ipq_limit q = limit" "1 \<le> ow_count e" "ow_count e \<le> limit" by (auto simp: process_inv_def)
  with Some show ?thesis by (simp add: burst_left_def) arith
qed (simp add: burst_left_def process_inv_def)

lemma burst_left_step:
  assumes inv: "process_inv limit window q" and t: "a \<le> t" "t < a + window"
  shows "(if h = g \<and> fst (process_charge h t q) then 1 else 0) + burst_left a g (snd (process_charge h t q)) \<le> burst_left a g q"
  using inv
proof (cases rule: process_charge_cases [of _ _ _ h t])
  case (admitted n s)
  have limit: "ipq_limit q = limit" "ipq_window q = window" "0 < limit" using inv by (auto simp: process_inv_def)
  have old: "\<forall>e. window \<le> duration_since t (started_at e) \<longrightarrow> started_at e < a"
    using t by (auto simp: duration_since_def max_def split: if_splits)
  show ?thesis
  proof (cases "h = g")
    case True
    show ?thesis
    proof (cases "ipq_windows q g")
      case None
      then show ?thesis using admitted True limit t by (simp add: burst_left_def process_used_def process_start_def)
    next
      case (Some e)
      then show ?thesis using admitted True limit t old
        by (auto simp: burst_left_def process_used_def process_start_def split: if_splits)
    qed
  next
    case False
    then show ?thesis
      using admitted limit retain_live_other [of window t "ipq_windows q" g] old
      by (auto simp: burst_left_def split: option.splits)
  qed
qed simp

lemma burst_left_run:
  assumes "process_inv limit window q" and "\<And>e. e \<in> set es \<Longrightarrow> a \<le> snd e \<and> snd e < a + window"
  shows "admitted_of g es (fst (run_charges process_charge es q)) \<le> burst_left a g q"
  using assms
proof (induction es arbitrary: q)
  case (Cons e es)
  obtain h t where e: "e = (h, t)" by (cases e)
  have "admitted_of g es (fst (run_charges process_charge es (snd (process_charge h t q)))) \<le> burst_left a g (snd (process_charge h t q))"
    using Cons.IH [OF process_charge_keeps [OF Cons.prems(1)]] Cons.prems(2) by simp
  with burst_left_step [OF Cons.prems(1), of a t h g] Cons.prems(2) [of e] show ?case
    by (auto simp: e split_def Let_def split: if_splits)
qed simp

text \<open>Property C32: the burst bound of the in-process quota. Whatever happened since the gateway started,
  and whatever other organizations do meanwhile, an organization is admitted fewer than twice its limit
  in any interval as long as the window: the worst case across a window boundary that the code's comment
  states, exactly.\<close>

theorem in_process_burst_bound:
  assumes "0 < limit" and "0 < window_seconds"
    and "\<And>e. e \<in> set es \<Longrightarrow> a \<le> snd e \<and> snd e < a + of_nat window_seconds"
  shows "admitted_of g es (fst (run_charges process_charge es
           (snd (run_charges process_charge before (in_process_new limit window_seconds))))) < 2 * limit"
proof -
  let ?q = "snd (run_charges process_charge before (in_process_new limit window_seconds))"
  have inv: "process_inv limit (of_nat window_seconds) ?q"
    using assms(1,2) by (intro process_run_keeps process_new_inv)
  show ?thesis
    using burst_left_run [OF inv assms(3), where g = g] burst_left_bound [OF inv, of a g] by (meson le_less_trans)
qed

text \<open>Also: within one window the in-process quota admits exactly the limit. Of the requests an
  organization makes inside the window that its next charge would use, exactly as many are admitted as
  the limit still allows, and they are the first ones; other organizations, and the sweep that their
  first requests trigger, do not change that.\<close>

theorem in_process_admission_is_exact:
  assumes inv: "process_inv limit window q" and sorted: "sorted (map snd es)"
    and inside: "\<And>e. e \<in> set es \<Longrightarrow> t \<le> snd e \<and> snd e < process_start q g t + window"
  shows "admitted_of g es (fst (run_charges process_charge es q)) = min (requests_of g es) (limit - process_used q g t)"
proof -
  have w: "ipq_window q = window" "0 < window" using inv by (auto simp: process_inv_def)
  have start: "process_start q g t' = (if process_start q g t = t \<and> (case ipq_windows q g of None \<Rightarrow> True | Some e \<Rightarrow> window \<le> duration_since t (started_at e))
      then t' else process_start q g t)" and used: "process_used q g t' = process_used q g t"
    if "t \<le> t'" "t' < process_start q g t + window" for t'
    using that w by (auto simp: process_start_def process_used_def duration_since_def split: option.splits if_splits)
  have same: "process_same_window q g (snd e) (snd e')" if "e \<in> set es" "e' \<in> set es" "snd e \<le> snd e'" for e e'
    using start [of "snd e"] inside [OF that(1)] inside [OF that(2)] that(3) w
    by (auto simp: process_same_window_def duration_since_def split: if_splits)
  have "process.one_window q g es"
  proof (cases "filter (\<lambda>e. fst e = g) es")
    case (Cons e rest)
    have sub: "set (e # rest) \<subseteq> set es" using filter_is_subset [of "\<lambda>e. fst e = g" es] by (simp add: Cons)
    have "sorted (map snd (e # rest))" using sorted_filter [OF sorted, of "\<lambda>e. fst e = g"] by (simp add: Cons)
    then have "\<forall>e' \<in> set (e # rest). snd e \<le> snd e'" by simp
    with sub show ?thesis
      unfolding process.one_window_def Cons list.case by (intro ballI same) auto
  qed (simp add: process.one_window_def)
  moreover have "process_used q g t \<le> limit"
    using inv by (auto simp: process_used_def process_inv_def split: option.splits)
  ultimately show ?thesis
    using inside used by (intro process.admitted_in_one_window [OF inv sorted]) auto
qed

section \<open>Concrete instances\<close>

definition demo_process :: in_process_quota where
  "demo_process = \<lparr>ipq_limit = 2, ipq_window = 60, ipq_windows = [''a'' \<mapsto> \<lparr>started_at = 100, ow_count = 1\<rparr>]\<rparr>"

lemma demo_process_inv: "process_inv 2 60 demo_process"
  by (simp add: process_inv_def demo_process_def)

lemma demo_burst: "e \<in> set [(''a'', 55::rat), (''a'', 65), (''a'', 100)] \<Longrightarrow> 50 \<le> snd e \<and> snd e < 50 + of_nat 60"
  by auto

theorem in_process_burst_bound_witness:
  "admitted_of ''a'' [(''a'', 55::rat), (''a'', 65), (''a'', 100)] (fst (run_charges process_charge [(''a'', 55), (''a'', 65), (''a'', 100)]
     (snd (run_charges process_charge [(''a'', 0)] (in_process_new 2 60))))) < 4"
  using in_process_burst_bound [OF _ _ demo_burst, where limit = 2 and g = "''a''" and before = "[(''a'', 0)]"
      and es = "[(''a'', 55), (''a'', 65), (''a'', 100)]"] by (simp del: run_charges.simps)

lemma demo_inside:
  "e \<in> set [(''a'', 110::rat), (''b'', 120), (''a'', 150)] \<Longrightarrow> 105 \<le> snd e \<and> snd e < process_start demo_process ''a'' 105 + 60"
  by (auto simp: process_start_def demo_process_def duration_since_def)

theorem in_process_admission_is_exact_witness:
  "admitted_of ''a'' [(''a'', 110::rat), (''b'', 120), (''a'', 150)]
     (fst (run_charges process_charge [(''a'', 110), (''b'', 120), (''a'', 150)] demo_process)) = 1"
  using in_process_admission_is_exact [OF demo_process_inv _ demo_inside,
      where es = "[(''a'', 110), (''b'', 120), (''a'', 150)]"]
  by (simp add: process_used_def demo_process_def duration_since_def del: run_charges.simps)

end
