(* ===== verification/GatewayLog.thy ===== *)
theory GatewayLog
  imports Prelude
begin

text \<open>
  The gateway's append-only JSONL sink (\<^verbatim>\<open>crates/gateway/src/lib.rs\<close>,
  \<open>GatewayLog\<close> and \<open>write_jsonl_records\<close>): a bounded channel drained by one
  writer thread, its three 64-bit counters, and the shutdown flush. Request tasks
  and the writer interleave freely: each operation is one step, the writer's loop
  is cut at the take, the append and the exit. The theorems: every record is
  accepted or counted as dropped, the writer keeps the order of acceptance, a
  drained flush has finished every accepted record, and the count of a flush that
  gave up is the number of accepted records the writer had not finished.
\<close>

definition MAX_PENDING_LOG_RECORDS :: nat where "MAX_PENDING_LOG_RECORDS = 1024"

text \<open>\<open>gl_records\<close> and \<open>gl_writer_stopped\<close> are the two halves of \<^verbatim>\<open>LogChannel\<close>; \<open>gl_in_hand\<close> is
  the record the writer has taken and not yet counted; \<open>gl_file\<close> is what this process appended to
  the file; \<open>gl_stop_sent\<close>: the writer has signalled that it stopped; \<open>gl_warnings\<close> the drop counts
  that were reported.\<close>

record gateway_log =
  gl_records :: bool
  gl_writer_stopped :: bool
  gl_queue :: "string list"
  gl_alive :: bool
  gl_in_hand :: "string option"
  gl_failed_writes :: u64
  gl_stop_sent :: bool
  gl_queued :: u64
  gl_written :: u64
  gl_dropped :: u64
  gl_warnings :: "(u64 \<times> string) list"
  gl_file :: string

datatype LogFlush = Drained | TimedOut u64 | AlreadyStopped

definition open_log :: gateway_log where
  "open_log = \<lparr>gl_records = True, gl_writer_stopped = True, gl_queue = [], gl_alive = True, gl_in_hand = None,
     gl_failed_writes = 0, gl_stop_sent = False, gl_queued = 0, gl_written = 0, gl_dropped = 0,
     gl_warnings = [], gl_file = []\<rparr>"

definition is_power_of_two :: "u64 \<Rightarrow> bool" where
  "is_power_of_two n \<longleftrightarrow> n \<noteq> 0 \<and> and n (n - 1) = 0"

section \<open>Request tasks\<close>

definition record_drop :: "string \<Rightarrow> gateway_log \<Rightarrow> gateway_log" where
  "record_drop reason log =
     (let dropped = gl_dropped log + 1; log = log\<lparr>gl_dropped := dropped\<rparr>
      in if dropped = 1 \<or> is_power_of_two dropped
         then log\<lparr>gl_warnings := gl_warnings log @ [(dropped, reason)]\<rparr> else log)"

definition write_log :: "string \<Rightarrow> gateway_log \<Rightarrow> gateway_log" where
  "write_log line log =
     (if \<not> gl_records log then record_drop ''log is shutting down'' log
      else if \<not> gl_alive log then record_drop ''writer thread stopped'' log
      else if length (gl_queue log) \<ge> MAX_PENDING_LOG_RECORDS then record_drop ''writer queue is full'' log
      else log\<lparr>gl_queue := gl_queue log @ [line], gl_queued := gl_queued log + 1\<rparr>)"

text \<open>\<^verbatim>\<open>flush_and_stop\<close>, cut at the wait: the part under the lock says whether there is something to
  wait for; the answer is read when the wait ends, which is at the writer's signal or later.\<close>

definition flush_begin :: "gateway_log \<Rightarrow> bool \<times> gateway_log" where
  "flush_begin log = (gl_records log \<and> gl_writer_stopped log, log\<lparr>gl_records := False, gl_writer_stopped := False\<rparr>)"

definition flush_answer :: "bool \<Rightarrow> gateway_log \<Rightarrow> LogFlush" where
  "flush_answer waited log =
     (if \<not> waited then AlreadyStopped
      else if gl_stop_sent log then Drained
      else TimedOut (if gl_written log \<le> gl_queued log then gl_queued log - gl_written log else 0))"

section \<open>The writer thread\<close>

definition writer_take :: "gateway_log \<Rightarrow> gateway_log" where
  "writer_take log = (case (gl_in_hand log, gl_queue log) of
       (None, line # rest) \<Rightarrow> if gl_alive log then log\<lparr>gl_in_hand := Some line, gl_queue := rest\<rparr> else log
     | _ \<Rightarrow> log)"

text \<open>\<open>partial\<close>: \<^verbatim>\<open>write_all\<close> fails after this many bytes.\<close>

definition writer_append :: "nat option \<Rightarrow> gateway_log \<Rightarrow> gateway_log" where
  "writer_append partial log = (case gl_in_hand log of
       None \<Rightarrow> log
     | Some line \<Rightarrow>
         (case partial of
            Some n \<Rightarrow> log\<lparr>gl_failed_writes := gl_failed_writes log + 1, gl_file := gl_file log @ take n line\<rparr>
          | None \<Rightarrow> log\<lparr>gl_failed_writes := 0, gl_file := gl_file log @ line\<rparr>)
         \<lparr>gl_written := gl_written log + 1, gl_in_hand := None\<rparr>)"

text \<open>The loop ends when the buffer is empty and the sender is gone; then the signal is sent.\<close>

definition writer_exit :: "gateway_log \<Rightarrow> gateway_log" where
  "writer_exit log =
     (if gl_alive log \<and> gl_in_hand log = None \<and> gl_queue log = [] \<and> \<not> gl_records log
      then log\<lparr>gl_alive := False, gl_stop_sent := True\<rparr> else log)"

section \<open>Interleavings\<close>

text \<open>\<open>log_reachable writes accepted finished intact log\<close>: the history so far; \<open>finished\<close> pairs each
  record the writer is done with with the bytes of it that reached the file; \<open>intact\<close>: no append failed.\<close>

inductive log_reachable :: "nat \<Rightarrow> string list \<Rightarrow> (string \<times> string) list \<Rightarrow> gateway_log \<Rightarrow> bool" where
  Opened: "log_reachable 0 [] [] open_log"
| Writes: "log_reachable n acc fin log \<Longrightarrow>
     log_reachable (Suc n) (if gl_queued (write_log line log) = gl_queued log then acc else acc @ [line]) fin (write_log line log)"
| Flushes: "log_reachable n acc fin log \<Longrightarrow> log_reachable n acc fin (snd (flush_begin log))"
| Takes: "log_reachable n acc fin log \<Longrightarrow> log_reachable n acc fin (writer_take log)"
| Appends: "log_reachable n acc fin log \<Longrightarrow> gl_in_hand log = Some line \<Longrightarrow>
     log_reachable n acc (fin @ [(line, case partial of None \<Rightarrow> line | Some k \<Rightarrow> take k line)]) (writer_append partial log)"
| Exits: "log_reachable n acc fin log \<Longrightarrow> log_reachable n acc fin (writer_exit log)"

definition log_inv :: "nat \<Rightarrow> string list \<Rightarrow> (string \<times> string) list \<Rightarrow> gateway_log \<Rightarrow> bool" where
  "log_inv n acc fin log \<longleftrightarrow>
     acc = map fst fin @ (case gl_in_hand log of None \<Rightarrow> [] | Some line \<Rightarrow> [line]) @ gl_queue log
   \<and> gl_file log = concat (map snd fin)
   \<and> gl_queued log = of_nat (length acc) \<and> gl_written log = of_nat (length fin)
   \<and> of_nat n = gl_queued log + gl_dropped log
   \<and> length (gl_queue log) \<le> MAX_PENDING_LOG_RECORDS
   \<and> (gl_records log \<longleftrightarrow> gl_writer_stopped log) \<and> (gl_records log \<longrightarrow> gl_alive log)
   \<and> (gl_stop_sent log \<longleftrightarrow> \<not> gl_alive log)
   \<and> (\<not> gl_alive log \<longrightarrow> gl_in_hand log = None \<and> gl_queue log = [])"

lemma record_drop_fields [simp]:
  "gl_records (record_drop r log) = gl_records log" "gl_writer_stopped (record_drop r log) = gl_writer_stopped log"
  "gl_queue (record_drop r log) = gl_queue log" "gl_alive (record_drop r log) = gl_alive log"
  "gl_in_hand (record_drop r log) = gl_in_hand log" "gl_stop_sent (record_drop r log) = gl_stop_sent log"
  "gl_queued (record_drop r log) = gl_queued log" "gl_written (record_drop r log) = gl_written log"
  "gl_dropped (record_drop r log) = gl_dropped log + 1" "gl_file (record_drop r log) = gl_file log"
  by (simp_all add: record_drop_def Let_def)

lemma log_inv_write:
  "log_inv n acc fin log \<Longrightarrow>
     log_inv (Suc n) (if gl_queued (write_log line log) = gl_queued log then acc else acc @ [line]) fin (write_log line log)"
  by (auto simp: write_log_def log_inv_def)

lemma log_inv_append:
  "log_inv n acc fin log \<Longrightarrow> gl_in_hand log = Some line \<Longrightarrow>
     log_inv n acc (fin @ [(line, case partial of None \<Rightarrow> line | Some k \<Rightarrow> take k line)]) (writer_append partial log)"
  by (auto simp: writer_append_def log_inv_def split: option.split)

lemma log_inv_take: "log_inv n acc fin log \<Longrightarrow> log_inv n acc fin (writer_take log)"
  by (auto simp: writer_take_def log_inv_def split: option.split list.split)

lemma log_reachable_inv: "log_reachable n acc fin log \<Longrightarrow> log_inv n acc fin log"
proof (induction rule: log_reachable.induct)
  case Opened
  show ?case by (simp add: log_inv_def open_log_def)
next
  case (Writes n acc fin log line)
  then show ?case by (intro log_inv_write)
next
  case (Flushes n acc fin log)
  then show ?case by (simp add: flush_begin_def log_inv_def)
next
  case (Takes n acc fin log)
  then show ?case by (intro log_inv_take)
next
  case (Appends n acc fin log line partial)
  then show ?case by (intro log_inv_append)
next
  case (Exits n acc fin log)
  then show ?case by (auto simp: writer_exit_def log_inv_def)
qed

section \<open>Properties\<close>

text \<open>Also: no record disappears without being counted, and none is reordered. In every interleaving
  of request tasks, flushes and the writer, each record written to the log is either accepted or counted
  as dropped; the writer finishes the accepted records in the order they were accepted; the file holds,
  in that order, the records whose append succeeded and the fragments of those that failed; and the
  backlog is at most 1024 records.\<close>

theorem log_accounts_for_every_record:
  assumes "log_reachable writes accepted finished log"
  shows "of_nat writes = gl_queued log + gl_dropped log \<and> gl_queued log = of_nat (length accepted)
       \<and> (\<exists>waiting. accepted = map fst finished @ waiting \<and> length waiting \<le> Suc MAX_PENDING_LOG_RECORDS)
       \<and> gl_file log = concat (map snd finished)"
  using log_reachable_inv [OF assms] by (auto simp: log_inv_def split: option.splits)

text \<open>Also: the flush reports the truth. When it answers \<^verbatim>\<open>Drained\<close>, the writer has finished every
  record that was ever accepted, the file is their concatenation unless an append failed, and no record
  is accepted afterwards; when it gives up, the number it reports is exactly that of the accepted
  records the writer has not finished.\<close>

theorem flush_reports_the_truth:
  assumes reachable: "log_reachable writes accepted finished log" and "length accepted < 2 ^ 64"
  shows "case flush_answer True log of
       Drained \<Rightarrow> map fst finished = accepted
         \<and> ((\<forall>(line, bytes) \<in> set finished. bytes = line) \<longrightarrow> gl_file log = concat accepted)
         \<and> (\<forall>line. gl_queue (write_log line log) = [] \<and> gl_dropped (write_log line log) = gl_dropped log + 1)
     | TimedOut pending \<Rightarrow> length finished + unat pending = length accepted
     | AlreadyStopped \<Rightarrow> False"
proof -
  note inv = log_reachable_inv [OF reachable, unfolded log_inv_def]
  have "length finished \<le> length accepted" using inv by auto
  moreover have "unat (word_of_nat (length accepted) - word_of_nat (length finished) :: u64) = length accepted - length finished"
    and "(word_of_nat (length finished) :: u64) \<le> word_of_nat (length accepted)"
    if "length finished \<le> length accepted"
    using that assms(2)
    by (simp_all add: of_nat_diff [symmetric] unat_of_nat take_bit_nat_eq_self word_le_nat_alt del: of_nat_diff)
  moreover have "concat (map snd finished) = concat (map fst finished)" if "\<forall>(line, bytes) \<in> set finished. bytes = line"
    using that by (auto intro!: arg_cong [where f = concat] map_cong)
  ultimately show ?thesis
    using inv by (auto simp: flush_answer_def write_log_def)
qed

section \<open>Concrete instances\<close>

text \<open>Two records accepted and one written before the flush; then one more record, refused.\<close>

definition demo_log :: gateway_log where
  "demo_log = write_log ''c'' (snd (flush_begin (writer_append None (writer_take (write_log ''b'' (write_log ''a'' open_log))))))"

lemma demo_log_reachable: "log_reachable 3 [''a'', ''b''] [(''a'', ''a'')] demo_log"
proof -
  have 1: "log_reachable 1 [''a''] [] (write_log ''a'' open_log)"
    using Writes [OF Opened, of "''a''"] by (simp add: write_log_def open_log_def MAX_PENDING_LOG_RECORDS_def)
  have 2: "log_reachable 2 [''a'', ''b''] [] (write_log ''b'' (write_log ''a'' open_log))"
    using Writes [OF 1, of "''b''"]
    by (simp add: write_log_def open_log_def MAX_PENDING_LOG_RECORDS_def numeral_2_eq_2)
  have 3: "log_reachable 2 [''a'', ''b''] [(''a'', ''a'')] (writer_append None (writer_take (write_log ''b'' (write_log ''a'' open_log))))"
    using Appends [OF Takes [OF 2], of "''a''" None]
    by (simp add: write_log_def open_log_def MAX_PENDING_LOG_RECORDS_def writer_take_def)
  show ?thesis
    using Writes [OF Flushes [OF 3], of "''c''"]
    by (simp add: demo_log_def write_log_def flush_begin_def numeral_3_eq_3)
qed

theorem log_accounts_for_every_record_witness: "of_nat 3 = gl_queued demo_log + gl_dropped demo_log"
  using log_accounts_for_every_record [OF demo_log_reachable] by (rule conjunct1)

theorem flush_reports_the_truth_witness:
  "case flush_answer True demo_log of TimedOut pending \<Rightarrow> unat pending = 1 | _ \<Rightarrow> flush_answer True demo_log = Drained"
  using flush_reports_the_truth [OF demo_log_reachable] by (auto split: LogFlush.splits)

end
