(* ===== verification/Http.thy ===== *)
theory Http
  imports Json Identity
begin

text \<open>
  What the gateway does with HTTP heads and its own answers
  (\<^verbatim>\<open>crates/gateway/src/lib.rs\<close>): the hop-by-hop and forwarding headers it
  removes, the bearer token it reads, the refusals it sends. A header map is the
  list of its entries, names in lower case, values as bytes. Reading a value as
  visible text and a byte string as a header name is the \<^verbatim>\<open>http\<close> crate's and is
  an argument (\<open>http_lib\<close>).
\<close>

section \<open>Header maps\<close>

type_synonym header_map = "(string \<times> string) list"

record http_lib =
  lib_to_str :: "string \<Rightarrow> string option"
  lib_header_name :: "string \<Rightarrow> string option"

definition get_all :: "string \<Rightarrow> header_map \<Rightarrow> string list" where
  "get_all name headers = map snd (filter (\<lambda>e. fst e = name) headers)"

definition get_header :: "string \<Rightarrow> header_map \<Rightarrow> string option" where
  "get_header name headers = (case get_all name headers of [] \<Rightarrow> None | v # _ \<Rightarrow> Some v)"

definition remove_header :: "string \<Rightarrow> header_map \<Rightarrow> header_map" where
  "remove_header name headers = filter (\<lambda>e. fst e \<noteq> name) headers"

definition insert_header :: "string \<Rightarrow> string \<Rightarrow> header_map \<Rightarrow> header_map" where
  "insert_header name v headers = remove_header name headers @ [(name, v)]"

lemma get_all_remove [simp]: "get_all n (remove_header m headers) = (if n = m then [] else get_all n headers)"
  by (induction headers) (auto simp: get_all_def remove_header_def)

lemma get_all_Nil [simp]: "get_all n [] = []"
  and get_all_Cons [simp]: "get_all n (e # headers) = (if fst e = n then [snd e] else []) @ get_all n headers"
  and get_all_append [simp]: "get_all n (headers @ headers') = get_all n headers @ get_all n headers'"
  by (simp_all add: get_all_def)

lemma get_all_insert [simp]: "get_all n (insert_header m v headers) = (if n = m then [v] else get_all n headers)"
  by (simp add: insert_header_def)

lemma get_all_remove_list [simp]: "get_all n (fold remove_header names headers) = (if n \<in> set names then [] else get_all n headers)"
  by (induction names arbitrary: headers) auto

section \<open>Forwarded heads\<close>

definition REQUEST_ID_HEADER :: string where "REQUEST_ID_HEADER = ''x-camelid-request-id''"

definition trim_optional_whitespace :: "string \<Rightarrow> string" where
  "trim_optional_whitespace = trim_by (\<lambda>c. c = CHR '' '' \<or> c = CHR 0x09)"

definition hop_by_hop_names :: "string list" where
  "hop_by_hop_names = [''connection'', ''keep-alive'', ''proxy-authenticate'', ''proxy-authorization'',
     ''proxy-connection'', ''te'', ''trailer'', ''transfer-encoding'', ''upgrade'']"

definition connection_headers :: "http_lib \<Rightarrow> header_map \<Rightarrow> string list" where
  "connection_headers lib headers = List.map_filter (\<lambda>name. lib_header_name lib (trim_optional_whitespace name))
     (concat (map (split_on (CHR '','')) (get_all ''connection'' headers)))"

definition remove_hop_by_hop :: "http_lib \<Rightarrow> header_map \<Rightarrow> header_map" where
  "remove_hop_by_hop lib headers =
     fold remove_header hop_by_hop_names (fold remove_header (connection_headers lib headers) headers)"

definition forwarding_names :: "string list" where
  "forwarding_names = [''forwarded'', ''x-forwarded-for'', ''x-forwarded-host'', ''x-forwarded-port'',
     ''x-forwarded-proto'', ''x-real-ip'']"

definition remove_untrusted_forwarding_headers :: "header_map \<Rightarrow> header_map" where
  "remove_untrusted_forwarding_headers headers = fold remove_header forwarding_names headers"

text \<open>What \<^verbatim>\<open>proxy_request\<close> does to the head of a request it forwards.\<close>

definition forwarded_head :: "http_lib \<Rightarrow> string \<Rightarrow> string \<Rightarrow> header_map \<Rightarrow> header_map" where
  "forwarded_head lib authority request_id headers =
     insert_header REQUEST_ID_HEADER request_id (insert_header ''host'' authority
       (remove_untrusted_forwarding_headers (remove_hop_by_hop lib headers)))"

section \<open>Bearer tokens\<close>

text \<open>\<^verbatim>\<open>str::split_once(char::is_whitespace)\<close>.\<close>

definition split_once_whitespace :: "string \<Rightarrow> (string \<times> string) option" where
  "split_once_whitespace s = (case dropWhile (\<lambda>c. \<not> is_whitespace c) s of
       [] \<Rightarrow> None
     | _ # rest \<Rightarrow> Some (takeWhile (\<lambda>c. \<not> is_whitespace c) s, rest))"

definition bearer_token :: "http_lib \<Rightarrow> header_map \<Rightarrow> string option" where
  "bearer_token lib headers = Option.bind (get_header ''authorization'' headers) (\<lambda>value.
     Option.bind (lib_to_str lib value) (\<lambda>value.
     Option.bind (split_once_whitespace value) (\<lambda>(scheme, rest).
       if \<not> eq_ignore_ascii_case scheme ''bearer'' then None
       else let token = trim rest in if token \<noteq> [] then Some token else None)))"

section \<open>The gateway's own answers\<close>

record 'b response =
  r_status :: nat
  r_headers :: header_map
  r_body :: 'b

definition json_response :: "nat \<Rightarrow> json \<Rightarrow> json response" where
  "json_response status value =
     \<lparr>r_status = status, r_headers = [(''content-type'', ''application/json'')], r_body = value\<rparr>"

definition with_header :: "string \<Rightarrow> string \<Rightarrow> 'b response \<Rightarrow> 'b response" where
  "with_header name v r = r\<lparr>r_headers := insert_header name v (r_headers r)\<rparr>"

definition gateway_api_error :: "nat \<Rightarrow> string \<Rightarrow> string \<Rightarrow> string option \<Rightarrow> string option \<Rightarrow> json response" where
  "gateway_api_error status message error_type code parameter =
     with_header ''content-type'' ''application/json'' (json_response status (JObject [(''error'', JObject
       ([(''message'', JString message), (''type'', JString error_type)]
        @ (case code of None \<Rightarrow> [] | Some c \<Rightarrow> [(''code'', JString c)])
        @ (case parameter of None \<Rightarrow> [] | Some p \<Rightarrow> [(''param'', JString p)])))]))"

definition gateway_error :: "nat \<Rightarrow> string \<Rightarrow> json response" where
  "gateway_error status message = gateway_api_error status message ''gateway_error'' None None"

definition RETRY_AFTER_JITTER_SECONDS :: "nat \<times> nat" where "RETRY_AFTER_JITTER_SECONDS = (1, 3)"

text \<open>\<open>rand_u8 low high\<close> is the random draw.\<close>

definition overloaded_response :: "(nat \<Rightarrow> nat \<Rightarrow> nat) \<Rightarrow> string \<Rightarrow> json response" where
  "overloaded_response rand_u8 message = (case RETRY_AFTER_JITTER_SECONDS of (low, high) \<Rightarrow>
     with_header ''retry-after'' (show_nat (rand_u8 low high)) (gateway_error 503 message))"

text \<open>A duration is a rational number of seconds with nanosecond resolution.\<close>

definition retry_after_seconds :: "rat \<Rightarrow> nat" where
  "retry_after_seconds retry_after =
     max (sat_add_u64 (nat \<lfloor>retry_after\<rfloor>) (if of_int \<lfloor>retry_after\<rfloor> < retry_after then 1 else 0)) 1"

definition quota_exceeded :: "rat \<Rightarrow> json response" where
  "quota_exceeded retry_after =
     with_header ''retry-after'' (show_nat (retry_after_seconds retry_after))
       (with_header ''content-type'' ''application/json'' (json_response 429 (JObject [(''error'', JObject
         [(''message'', JString ''organization request quota exceeded''), (''type'', JString ''quota_exceeded'')])])))"

section \<open>Authentication\<close>

datatype AuthRefusal = MissingToken | BadToken | TokenExpired | StoreUnavailable

fun auth_error_type :: "AuthRefusal \<Rightarrow> string" where
  "auth_error_type MissingToken = ''unauthorized''"
| "auth_error_type BadToken = ''unauthorized''"
| "auth_error_type TokenExpired = ''token_expired''"
| "auth_error_type StoreUnavailable = ''gateway_error''"

fun auth_message :: "AuthRefusal \<Rightarrow> string" where
  "auth_message MissingToken = ''missing bearer token''"
| "auth_message BadToken = ''invalid bearer token''"
| "auth_message TokenExpired = ''expired bearer token''"
| "auth_message StoreUnavailable = ''gateway could not verify the bearer token''"

fun auth_audit_reason :: "AuthRefusal \<Rightarrow> string" where
  "auth_audit_reason MissingToken = ''missing_token''"
| "auth_audit_reason BadToken = ''invalid_token''"
| "auth_audit_reason TokenExpired = ''expired_token''"
| "auth_audit_reason StoreUnavailable = ''identity_store_unavailable''"

fun auth_challenge :: "AuthRefusal \<Rightarrow> string option" where
  "auth_challenge MissingToken = Some ''Bearer''"
| "auth_challenge BadToken = Some (''Bearer error=\"invalid_token\", error_description=\"invalid bearer token\"'')"
| "auth_challenge TokenExpired = Some (''Bearer error=\"invalid_token\", error_description=\"expired bearer token\"'')"
| "auth_challenge StoreUnavailable = None"

fun auth_status :: "AuthRefusal \<Rightarrow> nat" where
  "auth_status StoreUnavailable = 500"
| "auth_status _ = 401"

definition auth_response :: "AuthRefusal \<Rightarrow> json response" where
  "auth_response refusal =
     (let response = with_header ''content-type'' ''application/json'' (json_response (auth_status refusal)
            (JObject [(''error'', JObject [(''message'', JString (auth_message refusal)),
               (''type'', JString (auth_error_type refusal))])]))
      in case auth_challenge refusal of
           Some challenge \<Rightarrow> with_header ''www-authenticate'' challenge response
         | None \<Rightarrow> response)"

definition auth_refusal_of :: "IdentityError \<Rightarrow> AuthRefusal" where
  "auth_refusal_of error = (case error of
       InvalidToken \<Rightarrow> BadToken
     | ExpiredToken \<Rightarrow> TokenExpired
     | _ \<Rightarrow> StoreUnavailable)"

text \<open>\<open>resolve\<close> is the identity store's answer to a token at the instant of the request.\<close>

definition authenticate :: "http_lib \<Rightarrow> (string \<Rightarrow> (IdentityError, AuthenticatedContext) res) \<Rightarrow> header_map
    \<Rightarrow> (AuthRefusal, AuthenticatedContext) res" where
  "authenticate lib resolve headers = (case bearer_token lib headers of
       None \<Rightarrow> Inl MissingToken
     | Some token \<Rightarrow> map_err auth_refusal_of (resolve token))"

end
