(* ===== verification/HttpLaws.thy ===== *)
theory HttpLaws
  imports Http InProcessQuota TokenLifecycle
begin

text \<open>
  The laws of the gateway's HTTP surface: which headers reach a replica, which
  credential a request carries, what a refused caller is told and when a caller
  that obeys \<^verbatim>\<open>Retry-After\<close> is admitted again.
\<close>

section \<open>Heads\<close>

lemma connection_headers_iff:
  "name \<in> set (connection_headers lib headers) \<longleftrightarrow>
     (\<exists>value \<in> set (get_all ''connection'' headers). \<exists>token \<in> set (split_on (CHR '','') value).
        lib_header_name lib (trim_optional_whitespace token) = Some name)"
  by (auto simp: connection_headers_def map_filter_def image_iff intro: rev_bexI) (metis option.sel)

text \<open>Also: the head a replica sees, name by name. The correlation id is the gateway's and stands
  alone, the host is the configured upstream's, the hop-by-hop headers, the headers the client's
  \<^verbatim>\<open>Connection\<close> names and the client's forwarding claims are gone, and every other header arrives with
  all its values in order.\<close>

theorem forwarded_head_is_exact:
  "get_all name (forwarded_head lib authority request_id headers) =
     (if name = ''x-camelid-request-id'' then [request_id]
      else if name = ''host'' then [authority]
      else if name \<in> {''connection'', ''keep-alive'', ''proxy-authenticate'', ''proxy-authorization'', ''proxy-connection'',
                       ''te'', ''trailer'', ''transfer-encoding'', ''upgrade''}
           \<or> name \<in> {''forwarded'', ''x-forwarded-for'', ''x-forwarded-host'', ''x-forwarded-port'', ''x-forwarded-proto'', ''x-real-ip''}
           \<or> (\<exists>value \<in> set (get_all ''connection'' headers). \<exists>token \<in> set (split_on (CHR '','') value).
                lib_header_name lib (trim_optional_whitespace token) = Some name)
      then [] else get_all name headers)"
  unfolding connection_headers_iff [symmetric]
  by (auto simp: forwarded_head_def remove_untrusted_forwarding_headers_def remove_hop_by_hop_def
      hop_by_hop_names_def forwarding_names_def REQUEST_ID_HEADER_def simp del: fold_simps)

section \<open>Credentials\<close>

lemma split_once_whitespace_iff:
  "split_once_whitespace s = Some (scheme, rest) \<longleftrightarrow>
     (\<exists>c. s = scheme @ c # rest \<and> is_whitespace c \<and> (\<forall>x \<in> set scheme. \<not> is_whitespace x))"
proof
  assume "split_once_whitespace s = Some (scheme, rest)"
  then obtain c where c: "dropWhile (\<lambda>c. \<not> is_whitespace c) s = c # rest" and scheme: "scheme = takeWhile (\<lambda>c. \<not> is_whitespace c) s"
    by (auto simp: split_once_whitespace_def split: list.splits)
  then have "is_whitespace c" using hd_dropWhile [of "\<lambda>c. \<not> is_whitespace c" s] by simp
  moreover have "s = scheme @ c # rest" using c scheme by (metis takeWhile_dropWhile_id)
  ultimately show "\<exists>c. s = scheme @ c # rest \<and> is_whitespace c \<and> (\<forall>x \<in> set scheme. \<not> is_whitespace x)"
    using scheme by (auto dest: set_takeWhileD)
qed (auto simp: split_once_whitespace_def takeWhile_append2 dropWhile_append2)

lemma lower_no_whitespace: "is_whitespace c \<Longrightarrow> to_ascii_lower c = c"
  by (auto simp: is_whitespace_def to_ascii_lower_def Let_def)

lemma bearer_scheme: "eq_ignore_ascii_case scheme ''bearer'' \<Longrightarrow> x \<in> set scheme \<Longrightarrow> \<not> is_whitespace x"
proof
  assume "eq_ignore_ascii_case scheme ''bearer''" and "x \<in> set scheme" and white: "is_whitespace x"
  then have "to_ascii_lower x \<in> set (map to_ascii_lower ''bearer'')"
    unfolding eq_ignore_ascii_case_def by (metis image_eqI list.set_map)
  with lower_no_whitespace [OF white] have "x \<in> set (map to_ascii_lower ''bearer'')" by simp
  moreover have "\<forall>y \<in> set (map to_ascii_lower ''bearer''). \<not> is_whitespace y" by code_simp
  ultimately show False using white by blast
qed

lemma trim_by_parts:
  obtains before after where "xs = before @ trim_by P xs @ after" and "\<forall>x \<in> set before. P x" and "\<forall>x \<in> set after. P x"
    and "trim_by P xs \<noteq> [] \<Longrightarrow> \<not> P (hd (trim_by P xs)) \<and> \<not> P (last (trim_by P xs))"
proof -
  let ?mid = "dropWhile P xs" and ?before = "takeWhile P xs" and ?after = "rev (takeWhile P (rev (dropWhile P xs)))"
  have mid: "?mid = trim_by P xs @ ?after"
    unfolding trim_by_def by (metis rev_append rev_rev_ident takeWhile_dropWhile_id)
  have "xs = ?before @ ?mid" by simp
  moreover have "\<not> P (hd (trim_by P xs)) \<and> \<not> P (last (trim_by P xs))" if "trim_by P xs \<noteq> []"
  proof -
    have "hd (trim_by P xs) = hd ?mid" using mid that by (metis hd_append2)
    moreover have "?mid \<noteq> []" using mid that by (metis append_is_Nil_conv)
    ultimately have "\<not> P (hd (trim_by P xs))" by (metis hd_dropWhile)
    moreover have "\<not> P (last (trim_by P xs))"
      using that unfolding trim_by_def by (metis hd_dropWhile last_rev rev_is_Nil_conv)
    ultimately show ?thesis by simp
  qed
  ultimately show thesis
    using mid by (intro that [of ?before ?after]) (auto dest: set_takeWhileD)
qed

lemma trim_by_padded:
  assumes "\<forall>x \<in> set before. P x" and "\<forall>x \<in> set after. P x" and "mid \<noteq> []" and "\<not> P (hd mid)" and "\<not> P (last mid)"
  shows "trim_by P (before @ mid @ after) = mid"
proof -
  have "dropWhile P (before @ mid @ after) = mid @ after"
    using assms by (cases mid) (auto simp: dropWhile_append2)
  moreover have "dropWhile P (rev after @ rev mid) = dropWhile P (rev mid)"
    using assms(2) by (intro dropWhile_append2) auto
  moreover have "dropWhile P (rev mid) = rev mid"
    using assms(3,5) by (simp add: dropWhile_eq_self_iff hd_rev)
  ultimately show ?thesis by (simp add: trim_by_def)
qed

text \<open>Also: the bearer token a request carries, exactly. It is the text between the surrounding
  white space that follows a first word equal to \<^verbatim>\<open>bearer\<close> up to ASCII case in the first
  \<^verbatim>\<open>Authorization\<close> value, when that value is readable text and something is left after the trim;
  in every other case there is none.\<close>

theorem bearer_token_is_exact:
  "bearer_token lib headers = Some token \<longleftrightarrow>
     token \<noteq> [] \<and> \<not> is_whitespace (hd token) \<and> \<not> is_whitespace (last token)
   \<and> (\<exists>value scheme gap before after. get_header ''authorization'' headers = Some value
        \<and> lib_to_str lib value = Some (scheme @ gap # before @ token @ after)
        \<and> eq_ignore_ascii_case scheme ''bearer''
        \<and> is_whitespace gap \<and> (\<forall>c \<in> set before. is_whitespace c) \<and> (\<forall>c \<in> set after. is_whitespace c))"
  (is "?l \<longleftrightarrow> ?r")
proof
  assume ?l
  then obtain hv vis scheme rest where hval: "get_header ''authorization'' headers = Some hv" "lib_to_str lib hv = Some vis"
    and parts: "split_once_whitespace vis = Some (scheme, rest)" and scheme: "eq_ignore_ascii_case scheme ''bearer''"
    and token: "trim rest = token" "token \<noteq> []"
    by (auto simp: bearer_token_def Let_def bind_eq_Some_conv split: if_splits)
  obtain before after where "rest = before @ token @ after" and "\<forall>c \<in> set before. is_whitespace c"
    and "\<forall>c \<in> set after. is_whitespace c" and "\<not> is_whitespace (hd token) \<and> \<not> is_whitespace (last token)"
    using trim_by_parts [of rest is_whitespace] token unfolding trim_def by metis
  with hval parts scheme token show ?r by (auto simp: split_once_whitespace_iff)
next
  assume ?r
  then obtain hv scheme gap before after where token: "token \<noteq> []" "\<not> is_whitespace (hd token)" "\<not> is_whitespace (last token)"
    and hval: "get_header ''authorization'' headers = Some hv" "lib_to_str lib hv = Some (scheme @ gap # before @ token @ after)"
    and scheme: "eq_ignore_ascii_case scheme ''bearer''" and gap: "is_whitespace gap"
    and pad: "\<forall>c \<in> set before. is_whitespace c" "\<forall>c \<in> set after. is_whitespace c"
    by blast
  have "split_once_whitespace (scheme @ gap # before @ token @ after) = Some (scheme, before @ token @ after)"
    using gap bearer_scheme [OF scheme] by (auto simp: split_once_whitespace_iff)
  moreover have "trim (before @ token @ after) = token"
    unfolding trim_def by (rule trim_by_padded [OF pad token])
  ultimately show ?l using hval scheme token by (simp add: bearer_token_def)
qed

section \<open>Refusals\<close>

lemma get_header_simps [simp]:
  "get_header n (insert_header m v headers) = (if n = m then Some v else get_header n headers)"
  "get_header n ((m, v) # headers) = (if m = n then Some v else get_header n headers)"
  "get_header n [] = None"
  by (simp_all add: get_header_def)

text \<open>Also: what an unauthenticated caller and the operator are told. A request without a token,
  with an unknown one and with an expired one is answered 401 with a challenge, carries an error code in
  the challenge only when a credential was presented, and an expired token has an error type of its
  own; every other failure of the store is the gateway's own 500 and no challenge; and the four reasons
  in the audit log are different from each other.\<close>

theorem auth_refusals_are_distinguishable:
  "r_status (auth_response refusal) = (if refusal = StoreUnavailable then 500 else 401)
   \<and> get_header ''www-authenticate'' (r_headers (auth_response refusal)) = auth_challenge refusal
   \<and> (auth_challenge refusal = None \<longleftrightarrow> refusal = StoreUnavailable)
   \<and> (auth_challenge refusal = Some ''Bearer'' \<longleftrightarrow> refusal = MissingToken)
   \<and> (auth_error_type refusal = ''token_expired'' \<longleftrightarrow> refusal = TokenExpired)
   \<and> (auth_audit_reason refusal = auth_audit_reason other \<longleftrightarrow> refusal = other)
   \<and> (auth_refusal_of error = BadToken \<longleftrightarrow> error = InvalidToken)
   \<and> (auth_refusal_of error = TokenExpired \<longleftrightarrow> error = ExpiredToken)
   \<and> auth_refusal_of error \<noteq> MissingToken"
proof -
  have "get_header ''www-authenticate'' (r_headers (auth_response refusal)) = auth_challenge refusal"
    by (cases refusal) (simp_all add: auth_response_def Let_def with_header_def json_response_def)
  moreover have "auth_audit_reason refusal = auth_audit_reason other \<longleftrightarrow> refusal = other"
    by (cases refusal; cases other) simp_all
  moreover have "r_status (auth_response refusal) = (if refusal = StoreUnavailable then 500 else 401)"
    by (cases refusal) (simp_all add: auth_response_def Let_def with_header_def json_response_def)
  ultimately show ?thesis
    by (cases refusal) (simp_all add: auth_refusal_of_def split: IdentityError.split)
qed

text \<open>Also: revocation and authentication. After a token is revoked, every request that carries it
  is refused as an invalid token, whenever it arrives; and against a store in a reachable state a request
  that carries a token is never answered with a store failure.\<close>

theorem revoked_token_never_authenticates:
  assumes "identity_inv db" and "bearer_token lib headers = Some token"
  shows "authenticate lib (\<lambda>t. resolve_context sha256 now t (snd (revoke_token sha256 token db))) headers = Inl BadToken
       \<and> authenticate lib (\<lambda>t. resolve_context sha256 now t db) headers \<noteq> Inl StoreUnavailable"
proof -
  have "resolve_context sha256 now token db = Inl e \<Longrightarrow> e = InvalidToken \<or> e = ExpiredToken" for e
    using sqlite.refusal_kinds [OF assms(1)] .
  then have "map_err auth_refusal_of (resolve_context sha256 now token db) \<noteq> Inl StoreUnavailable"
    by (cases "resolve_context sha256 now token db") (auto simp: auth_refusal_of_def)
  then show ?thesis
    using assms(2) sqlite.revoked_invalid [OF assms(1), where ?sha256.0 = sha256 and token = token and now = now]
    by (simp add: authenticate_def auth_refusal_of_def)
qed

text \<open>Also: a caller that waits as long as \<^verbatim>\<open>Retry-After\<close> says is admitted. When the in-process
  quota refuses a request on a clock that does not run backwards, the header's whole seconds reach past the end of the window by less than one
  second, are at least one, and the organization's next request after them, with none of its own in
  between, is admitted.\<close>

theorem retry_after_leads_to_admission:
  assumes inv: "process_inv limit window q" and small: "window < 2 ^ 64 - 1"
    and past: "\<And>e. ipq_windows q g = Some e \<Longrightarrow> started_at e \<le> now"
    and refused: "in_process_admit g now q = (Inl d, q')"
  shows "1 \<le> retry_after_seconds d \<and> d \<le> of_nat (retry_after_seconds d) \<and> of_nat (retry_after_seconds d) < d + 1
       \<and> fst (in_process_admit g (now + of_nat (retry_after_seconds d)) q') = Inr ()"
proof -
  from inv have w: "ipq_window q = window" "0 < window" "ipq_limit q = limit" "0 < limit" by (auto simp: process_inv_def)
  have charge: "process_charge g now q = (False, q')" using refused by (simp add: process_charge_def)
  from inv have "\<exists>e. ipq_windows q g = Some e \<and> duration_since now (started_at e) < window \<and> ow_count e = limit \<and> q' = q"
  proof (cases rule: process_charge_cases [of _ _ _ g now])
    case (refused e)
    then show ?thesis using charge by auto
  qed (use charge in simp)
  then obtain e where e: "ipq_windows q g = Some e" "duration_since now (started_at e) < window" "ow_count e = limit" "q' = q"
    by blast
  then have d: "d = window - duration_since now (started_at e)"
    using refused w by (auto simp: in_process_admit_def admit_window_def Let_def split: if_splits)
  then have pos: "0 < d" and top: "d < 2 ^ 64 - 1" using e small by (auto simp: duration_since_def)
  let ?n = "retry_after_seconds d"
  have floor: "nat \<lfloor>d\<rfloor> < 2 ^ 64 - 1" using top pos by (simp add: nat_less_iff floor_less_iff)
  have exact: "?n = nat \<lceil>d\<rceil>"
  proof (cases "of_int \<lfloor>d\<rfloor> < d")
    case True
    then have "\<lceil>d\<rceil> = \<lfloor>d\<rfloor> + 1" by linarith
    with True floor pos show ?thesis by (simp add: retry_after_seconds_def sat_add_u64_def u64_max_def nat_add_distrib)
  next
    case False
    then have "\<lceil>d\<rceil> = \<lfloor>d\<rfloor>" by linarith
    with False floor pos show ?thesis by (simp add: retry_after_seconds_def sat_add_u64_def u64_max_def)
  qed
  then have real: "of_nat ?n = (of_int \<lceil>d\<rceil> :: rat)" using pos by (simp add: of_nat_nat)
  then have n: "1 \<le> ?n" "d \<le> of_nat ?n" "of_nat ?n < d + 1"
    using pos exact by (simp_all only: real) (simp, linarith+)
  have "duration_since (now + of_nat ?n) (started_at e) \<ge> window"
    using d n(2) e(2) past [OF e(1)] by (auto simp: duration_since_def max_def split: if_splits)
  then have "fst (in_process_admit g (now + of_nat ?n) q') = Inr ()"
    using e w by (simp add: in_process_admit_def admit_window_def)
  with n show ?thesis by simp
qed

section \<open>Concrete instances\<close>

definition demo_lib :: http_lib where
  "demo_lib = \<lparr>lib_to_str = Some, lib_header_name = (\<lambda>name. if name = [] then None else Some (map to_ascii_lower name))\<rparr>"

lemma demo_bearer: "bearer_token demo_lib [(''authorization'', ''BEARER  s3cret '')] = Some ''s3cret''"
  by code_simp

theorem bearer_token_is_exact_witness:
  "bearer_token demo_lib [(''authorization'', ''BEARER  s3cret '')] = Some ''s3cret''
   \<and> \<not> is_whitespace (hd ''s3cret'')"
  using bearer_token_is_exact [of demo_lib "[(''authorization'', ''BEARER  s3cret '')]" "''s3cret''"] demo_bearer by blast

theorem revoked_token_never_authenticates_witness:
  "authenticate demo_lib (\<lambda>t. resolve_context (\<lambda>_. []) 5 t (snd (revoke_token (\<lambda>_. []) ''s3cret'' empty_identity_db)))
     [(''authorization'', ''BEARER  s3cret '')] = Inl BadToken"
  using revoked_token_never_authenticates [OF _ demo_bearer, of empty_identity_db "\<lambda>_. []" 5]
  by (simp add: identity_inv_empty)

lemma demo_refused:
  "process_inv 1 60 (demo_process\<lparr>ipq_limit := 1\<rparr>)"
  "in_process_admit ''a'' (259/2) (demo_process\<lparr>ipq_limit := 1\<rparr>) = (Inl (61/2), demo_process\<lparr>ipq_limit := 1\<rparr>)"
  by (simp add: process_inv_def demo_process_def)
     (simp add: in_process_admit_def demo_process_def admit_window_def duration_since_def)

theorem retry_after_leads_to_admission_witness:
  "fst (in_process_admit ''a'' (259/2 + of_nat (retry_after_seconds (61/2))) (demo_process\<lparr>ipq_limit := 1\<rparr>)) = Inr ()"
  using retry_after_leads_to_admission [OF demo_refused(1) _ _ demo_refused(2)] by (simp add: demo_process_def split: if_splits)

end
