(* ===== verification/Bodies.thy ===== *)
theory Bodies
  imports Json
begin

text \<open>
  The gateway's body wrappers (\<^verbatim>\<open>crates/gateway/src/lib.rs\<close>: \<open>CountingBody\<close>,
  \<open>UsageBody\<close>, \<open>PermitBody\<close>, \<open>UsageTracker\<close>, \<open>ConnectionTermination\<close>). A body is
  a state with two operations, \<open>poll\<close> and \<open>ended\<close>, which the locale
  \<open>http_body\<close> names; a wrapper defines its two operations from those of the body
  it wraps. The usage log is the list of lines the tracker hands to it; the
  counters that \<open>CountingBody\<close> shares with the tracker, the clock and the
  connection's marker are read at the moment of the operation and are arguments
  of it (\<open>moment\<close>).
\<close>

section \<open>Bodies\<close>

datatype frame = Data string | Trailers

datatype poll = Pending | Frame frame | Failed string | Ended

text \<open>What polling a body \<open>n\<close> times yields, each poll with what \<open>ended\<close> says after it.\<close>

fun drain :: "('b \<Rightarrow> poll \<times> 'b) \<Rightarrow> ('b \<Rightarrow> bool) \<Rightarrow> nat \<Rightarrow> 'b \<Rightarrow> (poll \<times> bool) list \<times> 'b" where
  "drain poll ended 0 b = ([], b)"
| "drain poll ended (Suc n) b = (case poll b of (p, b') \<Rightarrow>
     (case drain poll ended n b' of (ps, b'') \<Rightarrow> ((p, ended b') # ps, b'')))"

text \<open>A body that says it has ended yields no more frames.\<close>

locale http_body =
  fixes poll_frame :: "'b \<Rightarrow> poll \<times> 'b" and is_end_stream :: "'b \<Rightarrow> bool"
  assumes end_is_final: "is_end_stream b \<Longrightarrow> fst (poll_frame b) = Ended \<and> is_end_stream (snd (poll_frame b))"
begin

lemma ended_drain: "is_end_stream b \<Longrightarrow> fst (drain poll_frame is_end_stream n b) = replicate n (Ended, True)"
  by (induction n arbitrary: b) (auto simp: split_def dest: end_is_final)

end

definition data_len :: "poll \<Rightarrow> nat" where
  "data_len p = (case p of Frame (Data bytes) \<Rightarrow> length bytes | _ \<Rightarrow> 0)"

text \<open>Bodies off the wire: what polling will yield, and whether the end is announced with the last frame.\<close>

record wire_body =
  wire_polls :: "poll list"
  wire_hint :: bool

definition wire_poll :: "wire_body \<Rightarrow> poll \<times> wire_body" where
  "wire_poll b = (case wire_polls b of [] \<Rightarrow> (Ended, b) | p # ps \<Rightarrow> (p, b\<lparr>wire_polls := ps\<rparr>))"

definition wire_ended :: "wire_body \<Rightarrow> bool" where
  "wire_ended b \<longleftrightarrow> wire_polls b = [] \<and> wire_hint b"

interpretation wire: http_body wire_poll wire_ended
  by unfold_locales (simp add: wire_poll_def wire_ended_def)

section \<open>Request bytes\<close>

record RequestBodyMetrics =
  m_bytes :: u64
  m_completed :: bool

definition completed_bytes :: "RequestBodyMetrics \<Rightarrow> u64 option" where
  "completed_bytes m = (if m_completed m then Some (m_bytes m) else None)"

record 'b counting_body =
  cb_inner :: 'b
  cb_metrics :: RequestBodyMetrics

definition counting_new :: "('b \<Rightarrow> bool) \<Rightarrow> 'b \<Rightarrow> 'b counting_body" where
  "counting_new ended inner = \<lparr>cb_inner = inner, cb_metrics = \<lparr>m_bytes = 0, m_completed = ended inner\<rparr>\<rparr>"

definition counting_poll :: "('b \<Rightarrow> poll \<times> 'b) \<Rightarrow> ('b \<Rightarrow> bool) \<Rightarrow> 'b counting_body \<Rightarrow> poll \<times> 'b counting_body" where
  "counting_poll poll ended b = (case poll (cb_inner b) of (p, inner) \<Rightarrow>
     let m = (cb_metrics b)\<lparr>m_bytes := m_bytes (cb_metrics b) + of_nat (data_len p)\<rparr>;
         m = (if p = Ended \<or> ended inner then m\<lparr>m_completed := True\<rparr> else m)
     in (p, \<lparr>cb_inner = inner, cb_metrics = m\<rparr>))"

definition counting_ended :: "('b \<Rightarrow> bool) \<Rightarrow> 'b counting_body \<Rightarrow> bool" where
  "counting_ended ended b = ended (cb_inner b)"

section \<open>The connection's marker\<close>

definition CONNECTION_ACTIVE :: nat where "CONNECTION_ACTIVE = 0"
definition CONNECTION_TIMED_OUT :: nat where "CONNECTION_TIMED_OUT = 1"

definition gateway_timeout :: "nat \<Rightarrow> nat" where
  "gateway_timeout reason = CONNECTION_TIMED_OUT"

definition incomplete_outcome :: "nat \<Rightarrow> string" where
  "incomplete_outcome reason =
     (if reason = CONNECTION_TIMED_OUT then ''gateway_timeout''
      else if reason = CONNECTION_ACTIVE then ''incomplete'' else ''incomplete'')"

section \<open>Usage records\<close>

record UsageRecord =
  ur_request_id :: string
  ur_principal :: string
  ur_organization :: string
  ur_method :: string
  ur_path :: string
  ur_model_id :: "string option"
  ur_head_status :: nat
  ur_has_metrics :: bool
  ur_response_bytes :: nat
  ur_started_ts :: rat
  ur_has_marker :: bool

text \<open>What is read when a record is written: the time, the milliseconds since the start, the shared
  request counters, the connection's marker.\<close>

record moment =
  at_ts :: rat
  at_elapsed_ms :: nat
  at_metrics :: RequestBodyMetrics
  at_marker :: nat

definition write_usage_record :: "UsageRecord \<Rightarrow> string \<Rightarrow> moment \<Rightarrow> json" where
  "write_usage_record r outcome now = JObject
     [(''ts'', JNumber (Finite (at_ts now))),
      (''started_ts'', JNumber (Finite (ur_started_ts r))),
      (''duration_ms'', json_nat (min (at_elapsed_ms now) u64_max)),
      (''request_id'', JString (ur_request_id r)),
      (''principal'', JString (ur_principal r)),
      (''organization'', JString (ur_organization r)),
      (''method'', JString (ur_method r)),
      (''path'', JString (ur_path r)),
      (''model_id'', json_opt (ur_model_id r)),
      (''response_head_status'', json_nat (ur_head_status r)),
      (''request_bytes'', case (if ur_has_metrics r then completed_bytes (at_metrics now) else None) of
          None \<Rightarrow> JNull | Some n \<Rightarrow> json_nat (unat n)),
      (''response_bytes'', json_nat (ur_response_bytes r)),
      (''stream_outcome'', JString outcome)]"

text \<open>\<open>UsageTracker\<close>: the record still owed, and the lines written.\<close>

record usage_tracker =
  ut_record :: "UsageRecord option"
  ut_lines :: "json list"

definition tracker_new :: "UsageRecord \<Rightarrow> usage_tracker" where
  "tracker_new r = \<lparr>ut_record = Some r, ut_lines = []\<rparr>"

definition add_response_bytes :: "nat \<Rightarrow> usage_tracker \<Rightarrow> usage_tracker" where
  "add_response_bytes n t = t\<lparr>ut_record := map_option (\<lambda>r. r\<lparr>ur_response_bytes := sat_add_u64 (ur_response_bytes r) n\<rparr>) (ut_record t)\<rparr>"

definition tracker_finish :: "moment \<Rightarrow> string \<Rightarrow> usage_tracker \<Rightarrow> usage_tracker" where
  "tracker_finish now outcome t = (case ut_record t of
       None \<Rightarrow> t
     | Some r \<Rightarrow> \<lparr>ut_record = None, ut_lines = ut_lines t @ [write_usage_record r outcome now]\<rparr>)"

definition tracker_drop :: "moment \<Rightarrow> usage_tracker \<Rightarrow> usage_tracker" where
  "tracker_drop now t = tracker_finish now
     (case ut_record t of
        Some r \<Rightarrow> if ur_has_marker r then incomplete_outcome (at_marker now) else ''incomplete''
      | None \<Rightarrow> ''incomplete'') t"

section \<open>Usage accounting of a response body\<close>

record 'b usage_body =
  ub_inner :: 'b
  ub_tracker :: usage_tracker

definition usage_new :: "('b \<Rightarrow> bool) \<Rightarrow> moment \<Rightarrow> 'b \<Rightarrow> usage_tracker \<Rightarrow> 'b usage_body" where
  "usage_new ended now inner t =
     \<lparr>ub_inner = inner, ub_tracker = (if ended inner then tracker_finish now ''completed'' t else t)\<rparr>"

definition usage_poll :: "('b \<Rightarrow> poll \<times> 'b) \<Rightarrow> ('b \<Rightarrow> bool) \<Rightarrow> moment \<Rightarrow> 'b usage_body \<Rightarrow> poll \<times> 'b usage_body" where
  "usage_poll poll ended now b = (case poll (ub_inner b) of (p, inner) \<Rightarrow>
     let t = (case p of
           Frame (Data bytes) \<Rightarrow> add_response_bytes (length bytes) (ub_tracker b)
         | Frame Trailers \<Rightarrow> ub_tracker b
         | Failed _ \<Rightarrow> tracker_finish now ''body_error'' (ub_tracker b)
         | Ended \<Rightarrow> tracker_finish now ''completed'' (ub_tracker b)
         | Pending \<Rightarrow> ub_tracker b);
         t = (if ended inner then tracker_finish now ''completed'' t else t)
     in (p, \<lparr>ub_inner = inner, ub_tracker = t\<rparr>))"

definition usage_ended :: "('b \<Rightarrow> bool) \<Rightarrow> 'b usage_body \<Rightarrow> bool" where
  "usage_ended ended b = ended (ub_inner b)"

definition usage_drop :: "moment \<Rightarrow> 'b usage_body \<Rightarrow> json list" where
  "usage_drop now b = ut_lines (tracker_drop now (ub_tracker b))"

section \<open>Admission permits held by a response body\<close>

record 'b permit_body =
  pb_inner :: 'b
  pb_permit :: bool

definition permit_new :: "('b \<Rightarrow> bool) \<Rightarrow> 'b \<Rightarrow> 'b permit_body" where
  "permit_new ended inner = \<lparr>pb_inner = inner, pb_permit = (\<not> ended inner)\<rparr>"

definition permit_poll :: "('b \<Rightarrow> poll \<times> 'b) \<Rightarrow> ('b \<Rightarrow> bool) \<Rightarrow> 'b permit_body \<Rightarrow> poll \<times> 'b permit_body" where
  "permit_poll poll ended b = (case poll (pb_inner b) of (p, inner) \<Rightarrow>
     (p, \<lparr>pb_inner = inner,
          pb_permit = (if p = Ended \<or> (\<exists>e. p = Failed e) \<or> ended inner then False else pb_permit b)\<rparr>))"

definition permit_ended :: "('b \<Rightarrow> bool) \<Rightarrow> 'b permit_body \<Rightarrow> bool" where
  "permit_ended ended b = ended (pb_inner b)"

end
