(* ===== verification/BodyLaws.thy ===== *)
theory BodyLaws
  imports Bodies
begin

text \<open>
  The laws of the body wrappers: wrapping changes nothing a reader sees; a
  wrapped body is a body; exactly one usage line is written per response, with
  the outcome and the byte count the reader saw; the permit is held until the
  first terminal poll; request bytes are reported once the whole body was read.
\<close>

section \<open>Wrapped bodies are bodies\<close>

context http_body begin

lemma permit_is_body: "http_body (permit_poll poll_frame is_end_stream) (permit_ended is_end_stream)"
  by unfold_locales (auto simp: permit_poll_def permit_ended_def split_def dest: end_is_final)

lemma usage_is_body: "http_body (usage_poll poll_frame is_end_stream now) (usage_ended is_end_stream)"
  by unfold_locales (auto simp: usage_poll_def usage_ended_def split_def Let_def dest: end_is_final)

lemma counting_is_body: "http_body (counting_poll poll_frame is_end_stream) (counting_ended is_end_stream)"
  by unfold_locales (auto simp: counting_poll_def counting_ended_def split_def Let_def dest: end_is_final)

text \<open>A response whose body is over before the first poll holds no permit.\<close>

lemma ended_holds_no_permit: "is_end_stream b \<Longrightarrow> \<not> pb_permit (permit_new is_end_stream b)"
  by (simp add: permit_new_def)

end

interpretation permit_wire: http_body "permit_poll wire_poll wire_ended" "permit_ended wire_ended"
  by (rule wire.permit_is_body)

interpretation counting_wire: http_body "counting_poll wire_poll wire_ended" "counting_ended wire_ended"
  by (rule wire.counting_is_body)

interpretation response_wire: http_body
  "usage_poll (permit_poll wire_poll wire_ended) (permit_ended wire_ended) now" "usage_ended (permit_ended wire_ended)"
  for now
  by (rule permit_wire.usage_is_body)

section \<open>Runs\<close>

fun usage_run :: "('b \<Rightarrow> poll \<times> 'b) \<Rightarrow> ('b \<Rightarrow> bool) \<Rightarrow> moment list \<Rightarrow> 'b usage_body \<Rightarrow> (poll \<times> bool) list \<times> 'b usage_body" where
  "usage_run poll ended [] b = ([], b)"
| "usage_run poll ended (now # ms) b = (case usage_poll poll ended now b of (p, b') \<Rightarrow>
     (case usage_run poll ended ms b' of (ps, b'') \<Rightarrow> ((p, usage_ended ended b') # ps, b'')))"

text \<open>What a poll settles, together with what \<open>ended\<close> says after it.\<close>

fun settles :: "poll \<times> bool \<Rightarrow> string option" where
  "settles (Failed e, _) = Some ''body_error''"
| "settles (Ended, _) = Some ''completed''"
| "settles (Pending, e) = (if e then Some ''completed'' else None)"
| "settles (Frame f, e) = (if e then Some ''completed'' else None)"

definition data_total :: "(poll \<times> bool) list \<Rightarrow> nat" where
  "data_total ps = sum_list (map (data_len \<circ> fst) ps)"

lemma data_total_simps [simp]: "data_total [] = 0" "data_total (p # ps) = data_len (fst p) + data_total ps"
  by (simp_all add: data_total_def)

lemma drain_length [simp]: "length (fst (drain poll ended n b)) = n"
  by (induction n arbitrary: b) (auto simp: split_def)

lemma usage_run_transparent:
  "fst (usage_run poll ended ms b) = fst (drain poll ended (length ms) (ub_inner b))
   \<and> ub_inner (snd (usage_run poll ended ms b)) = snd (drain poll ended (length ms) (ub_inner b))"
proof (induction ms arbitrary: b)
  case (Cons now ms)
  obtain p inner where "poll (ub_inner b) = (p, inner)" by force
  with Cons.IH show ?case by (simp add: usage_poll_def usage_ended_def split_def Let_def)
qed simp

lemma drain_permit:
  "fst (drain (permit_poll poll ended) (permit_ended ended) n b) = fst (drain poll ended n (pb_inner b))
   \<and> pb_inner (snd (drain (permit_poll poll ended) (permit_ended ended) n b)) = snd (drain poll ended n (pb_inner b))"
proof (induction n arbitrary: b)
  case (Suc n)
  obtain p inner where "poll (pb_inner b) = (p, inner)" by force
  with Suc.IH show ?case by (simp add: permit_poll_def permit_ended_def split_def)
qed simp

lemma drain_counting:
  "fst (drain (counting_poll poll ended) (counting_ended ended) n b) = fst (drain poll ended n (cb_inner b))
   \<and> cb_inner (snd (drain (counting_poll poll ended) (counting_ended ended) n b)) = snd (drain poll ended n (cb_inner b))"
proof (induction n arbitrary: b)
  case (Suc n)
  obtain p inner where "poll (cb_inner b) = (p, inner)" by force
  with Suc.IH show ?case by (simp add: counting_poll_def counting_ended_def split_def Let_def)
qed simp

section \<open>The usage line\<close>

lemma tracker_settled [simp]:
  "tracker_finish now outcome \<lparr>ut_record = None, ut_lines = lines\<rparr> = \<lparr>ut_record = None, ut_lines = lines\<rparr>"
  "add_response_bytes n \<lparr>ut_record = None, ut_lines = lines\<rparr> = \<lparr>ut_record = None, ut_lines = lines\<rparr>"
  by (simp_all add: tracker_finish_def add_response_bytes_def)

lemma usage_run_settled:
  "ub_tracker b = \<lparr>ut_record = None, ut_lines = lines\<rparr> \<Longrightarrow> ub_tracker (snd (usage_run poll ended ms b)) = ub_tracker b"
proof (induction ms arbitrary: b)
  case (Cons now ms)
  obtain p inner where "poll (ub_inner b) = (p, inner)" by force
  then have "ub_tracker (snd (usage_poll poll ended now b)) = ub_tracker b"
    using Cons.prems by (simp add: usage_poll_def Let_def split: poll.split frame.split)
  with Cons show ?case by (simp add: split_def)
qed simp

lemma usage_poll_open:
  assumes "ub_tracker b = tracker_new r" and "poll (ub_inner b) = (p, inner)"
  defines "r' \<equiv> r\<lparr>ur_response_bytes := (if data_len p = 0 then ur_response_bytes r else sat_add_u64 (ur_response_bytes r) (data_len p))\<rparr>"
  assumes "ur_response_bytes r \<le> u64_max"
  shows "ub_tracker (snd (usage_poll poll ended now b)) = (case settles (p, ended inner) of
       None \<Rightarrow> tracker_new r'
     | Some outcome \<Rightarrow> \<lparr>ut_record = None, ut_lines = [write_usage_record r' outcome now]\<rparr>)"
  using assms
  by (cases p) (auto simp: usage_poll_def tracker_new_def tracker_finish_def add_response_bytes_def data_len_def sat_add_u64_def Let_def
      split: frame.splits)

text \<open>The line a record becomes when its body is polled at \<open>ms\<close> with the outcomes \<open>ps\<close> and dropped at
  \<open>final\<close>: the first poll that settles the stream decides, and the bytes up to and with it count.\<close>

definition usage_line :: "UsageRecord \<Rightarrow> (poll \<times> bool) list \<Rightarrow> moment list \<Rightarrow> moment \<Rightarrow> json" where
  "usage_line r ps ms final =
     (let unsettled = takeWhile (\<lambda>x. settles x = None) ps;
          k = length unsettled;
          r' = r\<lparr>ur_response_bytes := min u64_max (ur_response_bytes r + data_total (take (Suc k) ps))\<rparr>
      in if k < length ps then write_usage_record r' (the (settles (ps ! k))) (ms ! k)
         else write_usage_record r' (if ur_has_marker r then incomplete_outcome (at_marker final) else ''incomplete'') final)"

lemma usage_line_settled:
  "settles (p, e) = Some outcome \<Longrightarrow> usage_line r ((p, e) # ps) (now # ms) final =
     write_usage_record (r\<lparr>ur_response_bytes := min u64_max (ur_response_bytes r + data_len p)\<rparr>) outcome now"
  by (simp add: usage_line_def Let_def)

lemma usage_line_step:
  assumes "settles (p, e) = None"
  shows "usage_line r ((p, e) # ps) (now # ms) final =
     usage_line (r\<lparr>ur_response_bytes := min u64_max (ur_response_bytes r + data_len p)\<rparr>) ps ms final"
proof -
  have "min u64_max (a + (b + c)) = min u64_max (min u64_max (a + b) + c)" for a b c :: nat by simp
  with assms show ?thesis by (simp add: usage_line_def Let_def)
qed

lemma usage_run_line:
  assumes "ub_tracker b = tracker_new r" and "ur_response_bytes r \<le> u64_max"
  shows "usage_drop final (snd (usage_run poll ended ms b)) =
     [usage_line r (fst (drain poll ended (length ms) (ub_inner b))) ms final]"
  using assms
proof (induction ms arbitrary: b r)
  case Nil
  have "r\<lparr>ur_response_bytes := min u64_max (ur_response_bytes r)\<rparr> = r" using Nil.prems by simp
  with Nil show ?case
    by (simp add: usage_line_def usage_drop_def tracker_drop_def tracker_finish_def tracker_new_def)
next
  case (Cons now ms)
  obtain p inner where p: "poll (ub_inner b) = (p, inner)" by force
  let ?b = "snd (usage_poll poll ended now b)"
  let ?r = "r\<lparr>ur_response_bytes := min u64_max (ur_response_bytes r + data_len p)\<rparr>"
  have r: "r\<lparr>ur_response_bytes := (if data_len p = 0 then ur_response_bytes r else sat_add_u64 (ur_response_bytes r) (data_len p))\<rparr> = ?r"
    using Cons.prems(2) by (simp add: sat_add_u64_def)
  have inner: "ub_inner ?b = inner" using p by (simp add: usage_poll_def Let_def)
  note tracker = usage_poll_open [of b r poll p inner ended now, OF Cons.prems(1) p Cons.prems(2), unfolded r]
  show ?case
  proof (cases "settles (p, ended inner)")
    case None
    with tracker have "ub_tracker ?b = tracker_new ?r" by simp
    with Cons.IH [of ?b ?r] None p inner show ?thesis by (simp add: split_def usage_line_step)
  next
    case (Some outcome)
    with tracker have "ub_tracker ?b = \<lparr>ut_record = None, ut_lines = [write_usage_record ?r outcome now]\<rparr>" by simp
    with Some p inner show ?thesis
      by (simp add: split_def usage_line_settled usage_drop_def tracker_drop_def usage_run_settled)
  qed
qed

text \<open>Property C6: exactly one usage line per response, and it says what the reader saw. However often the
  body is polled and whenever it is dropped, the usage log gets one line: \<^verbatim>\<open>completed\<close> when the body
  was over before the first poll or the first settling poll is its end, \<^verbatim>\<open>body_error\<close> when that poll is
  an error, and otherwise \<^verbatim>\<open>incomplete\<close> or \<^verbatim>\<open>gateway_timeout\<close> as the connection's marker says at
  the drop; its byte count is the data of the polls up to the settling one, capped at 64 bits. The
  reader sees the polls of the body itself.\<close>

theorem one_truthful_usage_line:
  "let b = usage_new ended first inner (tracker_new (r\<lparr>ur_response_bytes := 0\<rparr>)); seen = fst (drain poll ended (length ms) inner)
   in usage_drop final (snd (usage_run poll ended ms b)) =
        [if ended inner then write_usage_record (r\<lparr>ur_response_bytes := 0\<rparr>) ''completed'' first
         else usage_line (r\<lparr>ur_response_bytes := 0\<rparr>) seen ms final]
    \<and> fst (usage_run poll ended ms b) = seen"
proof -
  let ?r = "r\<lparr>ur_response_bytes := 0\<rparr>"
  let ?b = "usage_new ended first inner (tracker_new ?r)"
  have inner: "ub_inner ?b = inner" by (simp add: usage_new_def)
  show ?thesis
  proof (cases "ended inner")
    case True
    then have "ub_tracker ?b = \<lparr>ut_record = None, ut_lines = [write_usage_record ?r ''completed'' first]\<rparr>"
      by (simp add: usage_new_def tracker_new_def tracker_finish_def)
    with True inner usage_run_transparent [of poll ended ms ?b] show ?thesis
      by (simp add: usage_drop_def tracker_drop_def usage_run_settled Let_def)
  next
    case False
    then have "ub_tracker ?b = tracker_new ?r" by (simp add: usage_new_def)
    with False inner usage_run_transparent [of poll ended ms ?b] show ?thesis
      using usage_run_line [of ?b ?r final poll ended ms] by simp
  qed
qed

section \<open>Permits and request bytes\<close>

lemma permit_after:
  "pb_permit (snd (drain (permit_poll poll ended) (permit_ended ended) n b)) =
     (pb_permit b \<and> (\<forall>x \<in> set (fst (drain poll ended n (pb_inner b))). settles x = None))"
proof (induction n arbitrary: b)
  case (Suc n)
  obtain p inner where p: "poll (pb_inner b) = (p, inner)" by force
  then have step: "permit_poll poll ended b = (p, \<lparr>pb_inner = inner, pb_permit = (pb_permit b \<and> settles (p, ended inner) = None)\<rparr>)"
    by (cases p) (auto simp: permit_poll_def)
  with p Suc.IH show ?case by (auto simp: split_def)
qed simp

lemma counting_after:
  "cb_metrics (snd (drain (counting_poll poll ended) (counting_ended ended) n b)) =
     (let ps = fst (drain poll ended n (cb_inner b)) in
      \<lparr>m_bytes = m_bytes (cb_metrics b) + of_nat (data_total ps),
       m_completed = (m_completed (cb_metrics b) \<or> (\<exists>x \<in> set ps. fst x = Ended \<or> snd x))\<rparr>)"
proof (induction n arbitrary: b)
  case (Suc n)
  obtain p inner where p: "poll (cb_inner b) = (p, inner)" by force
  show ?case
    using Suc.IH [of "snd (counting_poll poll ended b)"] p
    by (auto simp: split_def Let_def counting_poll_def)
qed simp

text \<open>Also: a forwarded response gives its admission permit back at the first poll that ends or
  fails its body, or at once when there is no body to stream, and holds it until then; and the request
  bytes a usage line may report are the whole forwarded request body's, once its end was observed, and
  none before.\<close>

theorem permit_and_request_bytes:
  "let seen = fst (drain poll ended n inner) in
     (pb_permit (snd (drain (permit_poll poll ended) (permit_ended ended) n (permit_new ended inner)))
        \<longleftrightarrow> \<not> ended inner \<and> list_all (\<lambda>x. settles x = None) seen)
   \<and> completed_bytes (cb_metrics (snd (drain (counting_poll poll ended) (counting_ended ended) n (counting_new ended inner))))
        = (if ended inner \<or> list_ex (\<lambda>x. fst x = Ended \<or> snd x) seen then Some (of_nat (data_total seen)) else None)"
  by (auto simp: permit_after counting_after permit_new_def counting_new_def completed_bytes_def Let_def list_all_iff list_ex_iff)

end
