(* ===== verification/ModelCatalog.thy ===== *)
theory ModelCatalog
  imports Json "HOL-Library.Char_ord" "HOL-Library.List_Lexorder"
begin

text \<open>
  Upstream origins, the gateway's model catalog and the limits of model selection
  (\<^verbatim>\<open>crates/gateway/src/lib.rs\<close>). The catalog's \<^verbatim>\<open>BTreeMap\<close> is its list of entries
  in key order. Parsing and building URIs is the \<^verbatim>\<open>http\<close> crate's, reading
  \<^verbatim>\<open>/v1/models\<close> is the HTTP client's and \<^verbatim>\<open>serde\<close>'s: arguments of the operations
  that use them. Theorems: what a catalog accepts, when a catalog is verified, how
  much memory model selection reserves.
\<close>

section \<open>Upstream origins\<close>

record uri =
  u_scheme :: "string option"
  u_authority :: "string option"
  u_path_and_query :: "(string \<times> string option) option"

definition uri_path :: "uri \<Rightarrow> string" where
  "uri_path u = (case u_path_and_query u of None \<Rightarrow> [] | Some (path, _) \<Rightarrow> path)"

definition uri_query :: "uri \<Rightarrow> string option" where
  "uri_query u = (case u_path_and_query u of None \<Rightarrow> None | Some (_, query) \<Rightarrow> query)"

record UpstreamOrigin =
  uo_scheme :: string
  uo_authority :: string

definition parse_upstream :: "(string \<Rightarrow> uri option) \<Rightarrow> string \<Rightarrow> (string, UpstreamOrigin) res" where
  "parse_upstream parse_uri text_value =
     and_then (ok_or ''upstream must be a valid HTTP origin'' (parse_uri text_value)) (\<lambda>u.
     and_then (ok_or ''upstream must include http://'' (u_scheme u)) (\<lambda>scheme.
     if scheme \<noteq> ''http'' then Inl ''upstream must use http:// in this release''
     else and_then (ok_or ''upstream must include a host'' (u_authority u)) (\<lambda>authority.
     if uri_path u \<noteq> ''/'' \<or> uri_query u \<noteq> None
     then Inl ''upstream must be an origin without a path or query''
     else Inr \<lparr>uo_scheme = scheme, uo_authority = authority\<rparr>)))"

definition upstream_request_uri :: "(uri \<Rightarrow> (string, uri) res) \<Rightarrow> UpstreamOrigin \<Rightarrow> uri \<Rightarrow> (string, uri) res" where
  "upstream_request_uri from_parts origin incoming = from_parts
     \<lparr>u_scheme = Some (uo_scheme origin), u_authority = Some (uo_authority origin),
      u_path_and_query = u_path_and_query incoming\<rparr>"

definition upstream_label :: "UpstreamOrigin \<Rightarrow> string" where
  "upstream_label origin = uo_scheme origin @ ''://'' @ uo_authority origin"

section \<open>The catalog\<close>

type_synonym 'v btree = "(string \<times> 'v) list"

text \<open>\<^verbatim>\<open>BTreeMap::insert\<close>: the value replaced, if any, and the map.\<close>

fun btree_insert :: "string \<Rightarrow> 'v \<Rightarrow> 'v btree \<Rightarrow> 'v option \<times> 'v btree" where
  "btree_insert k v [] = (None, [(k, v)])"
| "btree_insert k v ((k', v') # m) =
     (if k = k' then (Some v', (k, v) # m)
      else if k < k' then (None, (k, v) # (k', v') # m)
      else (case btree_insert k v m of (old, m') \<Rightarrow> (old, (k', v') # m')))"

type_synonym ModelCatalog = "UpstreamOrigin btree"

fun catalog_insert_all :: "(string \<times> UpstreamOrigin) list \<Rightarrow> ModelCatalog \<Rightarrow> (string, ModelCatalog) res" where
  "catalog_insert_all [] catalog = Inr catalog"
| "catalog_insert_all ((model_id, upstream) # routes) catalog =
     (if model_id = [] then Inl ''model catalog entries must have a non-empty model id''
      else if \<exists>c \<in> set model_id. is_control c
      then Inl (''model catalog id '' @ model_id @ '' contains a control character'')
      else case btree_insert model_id upstream catalog of
          (Some _, _) \<Rightarrow> Inl (''model catalog contains duplicate model id '' @ model_id)
        | (None, catalog') \<Rightarrow> catalog_insert_all routes catalog')"

definition model_catalog_new :: "(string \<times> UpstreamOrigin) list \<Rightarrow> (string, ModelCatalog) res" where
  "model_catalog_new routes = and_then (catalog_insert_all routes []) (\<lambda>catalog.
     if catalog = [] then Inl ''model catalog must contain at least one model route'' else Inr catalog)"

definition catalog_upstream :: "ModelCatalog \<Rightarrow> string \<Rightarrow> UpstreamOrigin option" where
  "catalog_upstream catalog model_id = map_of catalog model_id"

definition catalog_route :: "ModelCatalog \<Rightarrow> string \<Rightarrow> (string \<times> UpstreamOrigin) option" where
  "catalog_route catalog model_id = map_option (\<lambda>upstream. (model_id, upstream)) (map_of catalog model_id)"

definition catalog_len :: "ModelCatalog \<Rightarrow> nat" where "catalog_len catalog = length catalog"
definition catalog_is_empty :: "ModelCatalog \<Rightarrow> bool" where "catalog_is_empty catalog \<longleftrightarrow> catalog = []"
definition catalog_model_ids :: "ModelCatalog \<Rightarrow> string list" where "catalog_model_ids catalog = map fst catalog"

section \<open>Verification against the backends\<close>

text \<open>What a bounded wait brings back, and an upstream's answer: status and, when it is read, its body.\<close>

datatype 'a timed = Elapsed | InTime 'a

type_synonym discovery_answer = "nat \<times> (string, string) res timed"

definition MAX_CATALOG_DISCOVERY_BODY_BYTES :: nat where "MAX_CATALOG_DISCOVERY_BODY_BYTES = 1024 * 1024"

record discovery =
  d_from_parts :: "uri \<Rightarrow> (string, uri) res"
  d_build_request :: "uri \<Rightarrow> (string, unit) res"
  d_client :: "uri \<Rightarrow> (string, discovery_answer) res timed"
  d_from_slice :: "string \<Rightarrow> (string, string list) res"

fun group_origins :: "(string \<times> UpstreamOrigin) list \<Rightarrow> (UpstreamOrigin \<times> string list) list \<Rightarrow> (UpstreamOrigin \<times> string list) list" where
  "group_origins [] origins = origins"
| "group_origins ((model_id, origin) # routes) origins = group_origins routes
     (if \<exists>(configured, _) \<in> set origins. configured = origin
      then map (\<lambda>(configured, ids). if configured = origin then (configured, ids @ [model_id]) else (configured, ids)) origins
      else origins @ [(origin, [model_id])])"

definition limited_body :: "nat \<Rightarrow> (string, string) res \<Rightarrow> (string, string) res" where
  "limited_body limit body = and_then body (\<lambda>bytes. if length bytes > limit then Inl ''length limit exceeded'' else Inr bytes)"

definition discover_models :: "discovery \<Rightarrow> UpstreamOrigin \<Rightarrow> (string, string list) res" where
  "discover_models d origin =
     (let label = upstream_label origin in
      and_then (map_err (\<lambda>e. ''could not build model discovery URI for '' @ label @ '': '' @ e)
        (upstream_request_uri (d_from_parts d) origin
           \<lparr>u_scheme = None, u_authority = None, u_path_and_query = Some (''/v1/models'', None)\<rparr>)) (\<lambda>u.
      and_then (map_err (\<lambda>e. ''could not build model discovery request for '' @ label @ '': '' @ e)
        (d_build_request d u)) (\<lambda>_.
      case d_client d u of
        Elapsed \<Rightarrow> Inl (''timed out discovering models from '' @ label)
      | InTime (Inl e) \<Rightarrow> Inl (''could not discover models from '' @ label @ '': '' @ e)
      | InTime (Inr (status, body)) \<Rightarrow>
          if status \<noteq> 200 then Inl (''model discovery from '' @ label @ '' returned HTTP '' @ show_nat status)
          else (case body of
              Elapsed \<Rightarrow> Inl (''timed out reading model discovery from '' @ label)
            | InTime read \<Rightarrow>
                and_then (map_err (\<lambda>e. ''could not read model discovery from '' @ label @ '': '' @ e)
                  (limited_body MAX_CATALOG_DISCOVERY_BODY_BYTES read)) (\<lambda>bytes.
                map_err (\<lambda>e. label @ '' returned an invalid /v1/models response: '' @ e) (d_from_slice d bytes))))))"

fun check_advertised :: "UpstreamOrigin \<Rightarrow> string list \<Rightarrow> string list \<Rightarrow> (string, unit) res" where
  "check_advertised origin discovered [] = Inr ()"
| "check_advertised origin discovered (model_id # ids) =
     (if model_id \<notin> set discovered
      then Inl (''catalog model id '' @ model_id @ '' is not advertised by '' @ upstream_label origin)
      else check_advertised origin discovered ids)"

fun verify_origins :: "discovery \<Rightarrow> (UpstreamOrigin \<times> string list) list \<Rightarrow> (string, unit) res" where
  "verify_origins d [] = Inr ()"
| "verify_origins d ((origin, ids) # origins) =
     and_then (discover_models d origin) (\<lambda>discovered.
     and_then (check_advertised origin discovered ids) (\<lambda>_. verify_origins d origins))"

definition verify_backend_model_ids :: "discovery \<Rightarrow> ModelCatalog \<Rightarrow> (string, ModelCatalog) res" where
  "verify_backend_model_ids d catalog = and_then (verify_origins d (group_origins catalog [])) (\<lambda>_. Inr catalog)"

section \<open>Limits\<close>

record ModelSelectionLimits =
  max_body_bytes :: nat
  memory_budget_bytes :: nat
  bytes_per_selector :: nat
  max_concurrent :: nat
  acquire_timeout :: rat
  read_timeout :: rat

definition DEFAULT_MODEL_SELECTION_ACQUIRE_TIMEOUT :: rat where "DEFAULT_MODEL_SELECTION_ACQUIRE_TIMEOUT = 5"
definition DEFAULT_MODEL_SELECTION_READ_TIMEOUT :: rat where "DEFAULT_MODEL_SELECTION_READ_TIMEOUT = 15"
definition DEFAULT_MAX_MODEL_SELECTION_BODY_BYTES :: nat where "DEFAULT_MAX_MODEL_SELECTION_BODY_BYTES = 2 * 1024 * 1024"
definition DEFAULT_MODEL_SELECTION_MEMORY_BUDGET_BYTES :: nat where
  "DEFAULT_MODEL_SELECTION_MEMORY_BUDGET_BYTES = 32 * 1024 * 1024"

definition model_selection_limits_new :: "nat \<Rightarrow> nat \<Rightarrow> (string, ModelSelectionLimits) res" where
  "model_selection_limits_new max_body budget =
     and_then (ok_or ''max model selection body size is too large to reserve a decoded model id''
       (Option.bind (checked_mul_u64 max_body 2) (\<lambda>n. if n = 0 then None else Some n))) (\<lambda>per_selector.
     if budget < per_selector
     then Inl ''model selection memory budget must reserve both the request body and a decoded model id''
     else Inr \<lparr>max_body_bytes = max_body, memory_budget_bytes = budget, bytes_per_selector = per_selector,
            max_concurrent = budget div per_selector, acquire_timeout = DEFAULT_MODEL_SELECTION_ACQUIRE_TIMEOUT,
            read_timeout = DEFAULT_MODEL_SELECTION_READ_TIMEOUT\<rparr>)"

definition with_acquire_timeout :: "ModelSelectionLimits \<Rightarrow> rat \<Rightarrow> ModelSelectionLimits" where
  "with_acquire_timeout l t = l\<lparr>acquire_timeout := t\<rparr>"

definition with_read_timeout :: "ModelSelectionLimits \<Rightarrow> rat \<Rightarrow> ModelSelectionLimits" where
  "with_read_timeout l t = l\<lparr>read_timeout := t\<rparr>"

definition default_max_org_selections :: "ModelSelectionLimits \<Rightarrow> nat" where
  "default_max_org_selections l = (if max_concurrent l div 2 = 0 then 1 else max_concurrent l div 2)"

end
