(* ===== verification/CatalogLaws.thy ===== *)
theory CatalogLaws
  imports ModelCatalog
begin

text \<open>
  The laws of the model catalog: it is the operator's configuration and nothing
  else, a verified catalog was advertised entry by entry, and the memory that
  model selection may occupy is bounded by its declared budget.
\<close>

section \<open>The catalog is the configuration\<close>

definition btree_ok :: "'v btree \<Rightarrow> bool" where
  "btree_ok m \<longleftrightarrow> sorted_wrt (<) (map fst m)"

lemma btree_insert_set:
  "btree_insert k v m = (None, m') \<Longrightarrow> set m' = insert (k, v) (set m)"
  by (induction k v m arbitrary: m' rule: btree_insert.induct) (auto split: if_splits prod.splits)

lemma btree_insert_ok:
  "btree_ok m \<Longrightarrow> btree_insert k v m = (old, m') \<Longrightarrow> btree_ok m' \<and> old = map_of m k \<and> fst ` set m' = insert k (fst ` set m)"
proof (induction k v m arbitrary: old m' rule: btree_insert.induct)
  case (2 k v k' v' m)
  have first: "\<And>x. x \<in> fst ` set m \<Longrightarrow> k' < x" and ok: "btree_ok m" using 2(2) by (auto simp: btree_ok_def)
  show ?case
  proof (cases "k = k' \<or> k < k'")
    case True
    moreover have "map_of m k = None" if "k < k'"
      using that first by (force simp: map_of_eq_None_iff)
    moreover have "\<forall>x \<in> fst ` set m. k < x" if "k < k'" using that first less_trans by blast
    ultimately show ?thesis using 2(2,3) by (auto simp: btree_ok_def split: if_splits)
  next
    case False
    obtain m1 where ins: "btree_insert k v m = (old, m1)" and m': "m' = (k', v') # m1"
      using 2(3) False by (auto split: prod.splits)
    then have "btree_ok m1 \<and> old = map_of m k \<and> fst ` set m1 = insert k (fst ` set m)"
      using 2(1) False ok by blast
    moreover from this have "\<forall>x \<in> set (map fst m1). k' < x" using False first by (auto simp: neq_iff)
    ultimately show ?thesis using False m' by (auto simp: btree_ok_def)
  qed
qed (auto simp: btree_ok_def)

lemma btree_unique: "btree_ok m \<Longrightarrow> btree_ok m' \<Longrightarrow> set m = set m' \<Longrightarrow> m = m'"
proof -
  assume m: "btree_ok m" "btree_ok m'" "set m = set m'"
  have inj: "inj_on fst (set m)"
    using m(1) by (metis btree_ok_def distinct_map strict_sorted_iff)
  have "map fst m = map fst m'"
    using m by (intro strict_sorted_equal) (auto simp: btree_ok_def)
  with m inj show ?thesis by (metis inj_on_Un_image_eq_iff inj_on_map_eq_map sup.idem)
qed

lemma catalog_insert_all_iff:
  "btree_ok catalog \<Longrightarrow> catalog_insert_all routes catalog = Inr c \<longleftrightarrow>
     (\<forall>(i, _) \<in> set routes. i \<noteq> [] \<and> (\<forall>x \<in> set i. \<not> is_control x))
   \<and> distinct (map fst routes) \<and> fst ` set routes \<inter> fst ` set catalog = {}
   \<and> btree_ok c \<and> set c = set routes \<union> set catalog"
proof (induction routes catalog rule: catalog_insert_all.induct)
  case (1 catalog)
  then show ?case by (auto dest: btree_unique)
next
  case (2 i upstream routes catalog)
  show ?case
  proof (cases "i = [] \<or> (\<exists>x \<in> set i. is_control x)")
    case False
    obtain old m' where ins: "btree_insert i upstream catalog = (old, m')" by force
    from btree_insert_ok [OF 2(2) ins] have m': "btree_ok m'" "old = map_of catalog i" "fst ` set m' = insert i (fst ` set catalog)" by auto
    show ?thesis
    proof (cases old)
      case None
      have set_m': "set m' = insert (i, upstream) (set catalog)" using ins None by (simp add: btree_insert_set)
      have new: "i \<notin> fst ` set catalog" using m'(2) None by (metis map_of_eq_None_iff)
      have "catalog_insert_all ((i, upstream) # routes) catalog = Inr c \<longleftrightarrow> catalog_insert_all routes m' = Inr c"
        using False ins None by simp
      also have "\<dots> \<longleftrightarrow> (\<forall>(i, _) \<in> set routes. i \<noteq> [] \<and> (\<forall>x \<in> set i. \<not> is_control x))
          \<and> distinct (map fst routes) \<and> fst ` set routes \<inter> insert i (fst ` set catalog) = {}
          \<and> btree_ok c \<and> set c = set routes \<union> insert (i, upstream) (set catalog)"
        using 2(1) [of None m'] False ins None m' set_m' by simp
      finally show ?thesis using False new by auto
    next
      case (Some v)
      then have "i \<in> fst ` set catalog" using m' by (force dest!: map_of_SomeD [OF sym])
      with False ins Some show ?thesis by auto
    qed
  qed auto
qed

text \<open>Also: a catalog is exactly its configuration. A list of routes is accepted if and only if it
  is not empty and its model ids are non-empty, free of control characters and pairwise different; the
  catalog then holds those routes and no other, in the order of the ids whatever order the operator
  wrote.\<close>

theorem catalog_is_its_configuration:
  "model_catalog_new routes = Inr catalog \<longleftrightarrow>
     routes \<noteq> [] \<and> list_all (\<lambda>(i, _). i \<noteq> [] \<and> list_all (\<lambda>x. \<not> is_control x) i) routes \<and> distinct (map fst routes)
   \<and> sorted_wrt (<) (map fst catalog) \<and> set catalog = set routes"
proof -
  have "model_catalog_new routes = Inr catalog \<longleftrightarrow> catalog_insert_all routes [] = Inr catalog \<and> catalog \<noteq> []"
    by (auto simp: model_catalog_new_def and_then_Inr_iff split: if_splits)
  then show ?thesis
    using catalog_insert_all_iff [of "[]" routes catalog]
    by (auto simp: btree_ok_def list_all_iff split_def)
qed

section \<open>Verification\<close>

definition groups_of :: "(UpstreamOrigin \<times> string list) list \<Rightarrow> (string \<times> UpstreamOrigin) set" where
  "groups_of origins = {(i, origin). \<exists>ids. (origin, ids) \<in> set origins \<and> i \<in> set ids}"

lemma groups_of_member: "(i, origin) \<in> groups_of origins \<longleftrightarrow> (\<exists>ids. (origin, ids) \<in> set origins \<and> i \<in> set ids)"
  by (simp add: groups_of_def)

lemma groups_of_extend:
  "groups_of (if \<exists>(configured, _) \<in> set origins. configured = origin
      then map (\<lambda>(configured, ids). if configured = origin then (configured, ids @ [i]) else (configured, ids)) origins
      else origins @ [(origin, [i])]) = insert (i, origin) (groups_of origins)" (is "groups_of ?o = _")
proof (rule set_eqI, clarify)
  fix j and other
  show "(j, other) \<in> groups_of ?o \<longleftrightarrow> (j, other) \<in> insert (i, origin) (groups_of origins)"
  proof (cases "other = origin")
    case True
    show ?thesis
    proof (cases "\<exists>ids. (origin, ids) \<in> set origins")
      case True
      then have o: "?o = map (\<lambda>(configured, ids). if configured = origin then (configured, ids @ [i]) else (configured, ids)) origins" by auto
      have "(origin, ids) \<in> set ?o \<longleftrightarrow> (\<exists>ids'. (origin, ids') \<in> set origins \<and> ids = ids' @ [i])" for ids
        unfolding o by (auto simp: image_iff split: if_splits) force
      with \<open>other = origin\<close> True show ?thesis by (auto simp: groups_of_member)
    next
      case False
      then have "?o = origins @ [(origin, [i])]" by auto
      with \<open>other = origin\<close> False show ?thesis by (auto simp: groups_of_member)
    qed
  next
    case False
    then have "(other, ids) \<in> set ?o \<longleftrightarrow> (other, ids) \<in> set origins" for ids
      by (auto simp: image_iff split: if_splits) force
    with False show ?thesis by (simp add: groups_of_member)
  qed
qed

lemma group_origins_groups: "groups_of (group_origins routes origins) = set routes \<union> groups_of origins"
  by (induction routes origins rule: group_origins.induct)
     (simp_all only: group_origins.simps groups_of_extend, auto)

lemma group_origins_inhabited:
  "\<forall>(origin, ids) \<in> set origins. ids \<noteq> [] \<Longrightarrow> \<forall>(origin, ids) \<in> set (group_origins routes origins). ids \<noteq> []"
proof (induction routes origins rule: group_origins.induct)
  case (2 i origin routes origins)
  show ?case
    unfolding group_origins.simps
    by (rule 2(1)) (use 2(2) in \<open>auto split: if_splits\<close>)
qed simp

lemma check_advertised_iff: "check_advertised origin discovered ids = Inr u \<longleftrightarrow> set ids \<subseteq> set discovered"
  by (induction ids) auto

lemma verify_origins_iff:
  "verify_origins d origins = Inr u \<longleftrightarrow>
     (\<forall>(origin, ids) \<in> set origins. \<exists>discovered. discover_models d origin = Inr discovered \<and> set ids \<subseteq> set discovered)"
  by (induction d origins rule: verify_origins.induct) (auto simp: and_then_Inr_iff check_advertised_iff)

definition models_uri :: uri where
  "models_uri = \<lparr>u_scheme = None, u_authority = None, u_path_and_query = Some (''/v1/models'', None)\<rparr>"

text \<open>An upstream advertises a model: its answer came in time, with status 200 and a body of at most one
  mebibyte that reads as a list with that id.\<close>

definition advertises :: "discovery \<Rightarrow> UpstreamOrigin \<Rightarrow> string \<Rightarrow> bool" where
  "advertises d origin model_id \<longleftrightarrow> (case upstream_request_uri (d_from_parts d) origin models_uri of
       Inl _ \<Rightarrow> False
     | Inr u \<Rightarrow> d_build_request d u = Inr () \<and> (case d_client d u of
           InTime (Inr (status, InTime (Inr bytes))) \<Rightarrow> status = 200 \<and> length bytes \<le> 1024 * 1024
             \<and> (case d_from_slice d bytes of Inr ids \<Rightarrow> model_id \<in> set ids | Inl _ \<Rightarrow> False)
         | _ \<Rightarrow> False))"

lemma discover_models_advertises:
  "(case discover_models d origin of Inr ids \<Rightarrow> model_id \<in> set ids | Inl _ \<Rightarrow> False) \<longleftrightarrow> advertises d origin model_id"
proof (cases "upstream_request_uri (d_from_parts d) origin models_uri")
  case (Inr u)
  note u = this [unfolded models_uri_def]
  show ?thesis
  proof (cases "d_build_request d u")
    case build: (Inr unit)
    show ?thesis
    proof (cases "d_client d u")
      case (InTime answer)
      show ?thesis
      proof (cases answer)
        case ok: (Inr got)
        obtain status body where "got = (status, body)" by force
        with Inr u build InTime ok show ?thesis
          by (cases body; cases "status = 200")
             (auto simp: discover_models_def advertises_def limited_body_def MAX_CATALOG_DISCOVERY_BODY_BYTES_def
               and_then_def map_err_def split: sum.splits)
      qed (use Inr u build InTime in \<open>simp add: discover_models_def advertises_def\<close>)
    qed (use Inr u build in \<open>simp add: discover_models_def advertises_def\<close>)
  qed (use Inr u in \<open>simp add: discover_models_def advertises_def\<close>)
qed (simp add: discover_models_def advertises_def models_uri_def)

text \<open>Also: catalog mode starts exactly when every entry is real. Verification succeeds if and
  only if for every entry its own upstream answered \<^verbatim>\<open>/v1/models\<close> in time with status 200 and a body of at
  most one mebibyte that lists exactly that id; the verified catalog is the catalog.\<close>

theorem verified_means_advertised:
  "verify_backend_model_ids d catalog = Inr verified \<longleftrightarrow>
     verified = catalog \<and> list_all (\<lambda>(model_id, origin). advertises d origin model_id) catalog"
proof -
  let ?groups = "group_origins catalog []"
  have groups: "(i, origin) \<in> set catalog \<longleftrightarrow> (\<exists>ids. (origin, ids) \<in> set ?groups \<and> i \<in> set ids)" for i origin
    using group_origins_groups [of catalog "[]"] by (force simp: groups_of_def)
  have inhabited: "ids \<noteq> []" if "(origin, ids) \<in> set ?groups" for origin ids
    using group_origins_inhabited [of "[]" catalog] that by auto
  have "(\<forall>(origin, ids) \<in> set ?groups. \<exists>discovered. discover_models d origin = Inr discovered \<and> set ids \<subseteq> set discovered)
      \<longleftrightarrow> (\<forall>(i, origin) \<in> set catalog. \<exists>discovered. discover_models d origin = Inr discovered \<and> i \<in> set discovered)"
    (is "?l \<longleftrightarrow> ?r")
  proof
    assume r: ?r
    show ?l
    proof (rule ballI, clarify)
      fix origin ids
      assume g: "(origin, ids) \<in> set ?groups"
      have each: "\<exists>discovered. discover_models d origin = Inr discovered \<and> i \<in> set discovered" if "i \<in> set ids" for i
        using r groups [of i origin] g that by blast
      obtain i where "i \<in> set ids" using inhabited [OF g] by (cases ids) auto
      with each obtain discovered where "discover_models d origin = Inr discovered" by blast
      with each show "\<exists>discovered. discover_models d origin = Inr discovered \<and> set ids \<subseteq> set discovered" by auto
    qed
  next
    assume l: ?l
    show ?r
    proof (rule ballI, clarify)
      fix i origin
      assume "(i, origin) \<in> set catalog"
      with groups obtain ids where "(origin, ids) \<in> set ?groups" "i \<in> set ids" by blast
      with l show "\<exists>discovered. discover_models d origin = Inr discovered \<and> i \<in> set discovered" by blast
    qed
  qed
  moreover have "advertises d origin i \<longleftrightarrow> (\<exists>discovered. discover_models d origin = Inr discovered \<and> i \<in> set discovered)" for i origin
    unfolding discover_models_advertises [symmetric] by (auto split: sum.splits)
  ultimately show ?thesis
    by (simp add: verify_backend_model_ids_def and_then_Inr_iff verify_origins_iff list_all_iff) blast
qed

section \<open>Limits\<close>

text \<open>Also: the selector budget is a bound. Accepted limits allow at least one selector and the
  largest number of them whose reservations, two body limits each, fit in the declared budget; the
  default share of one organization is at least one slot and at most half of them, except that with a
  single slot it is that slot.\<close>

theorem selection_limits_bound_memory:
  assumes "model_selection_limits_new max_body budget = Inr limits"
  shows "1 \<le> max_concurrent limits
       \<and> max_concurrent limits * (2 * max_body) \<le> budget
       \<and> budget < Suc (max_concurrent limits) * (2 * max_body)
       \<and> 2 * max_body \<le> 2 ^ 64 - 1
       \<and> 1 \<le> default_max_org_selections limits
       \<and> (if max_concurrent limits = 1 then default_max_org_selections limits = 1
          else 2 * default_max_org_selections limits \<le> max_concurrent limits)"
proof -
  from assms have l: "0 < max_body" "max_body * 2 \<le> u64_max" "max_body * 2 \<le> budget"
    "max_concurrent limits = budget div (max_body * 2)"
    by (auto simp: model_selection_limits_new_def and_then_Inr_iff ok_or_Inr_iff bind_eq_Some_conv checked_mul_u64_def split: if_splits)
  then have "1 \<le> max_concurrent limits" by (simp add: div_greater_zero_iff Suc_le_eq)
  moreover have "max_concurrent limits * (2 * max_body) \<le> budget" using l by (simp add: mult.commute [of 2])
  moreover have "budget < Suc (max_concurrent limits) * (2 * max_body)"
    using l dividend_less_div_times [of "max_body * 2" budget] by (simp add: mult.commute [of 2])
  ultimately show ?thesis
    using l(2) by (auto simp: default_max_org_selections_def u64_max_def)
qed

theorem selection_limits_bound_memory_witness:
  "2 * default_max_org_selections \<lparr>max_body_bytes = 2097152, memory_budget_bytes = 33554432, bytes_per_selector = 4194304,
      max_concurrent = 8, acquire_timeout = 5, read_timeout = 15\<rparr> \<le> 8"
proof -
  have "model_selection_limits_new 2097152 33554432 = Inr \<lparr>max_body_bytes = 2097152, memory_budget_bytes = 33554432,
      bytes_per_selector = 4194304, max_concurrent = 8, acquire_timeout = 5, read_timeout = 15\<rparr>"
    by (simp add: model_selection_limits_new_def checked_mul_u64_def u64_max_def DEFAULT_MODEL_SELECTION_ACQUIRE_TIMEOUT_def
        DEFAULT_MODEL_SELECTION_READ_TIMEOUT_def)
  from selection_limits_bound_memory [OF this] show ?thesis by simp
qed

end
