(* ===== verification/SelectionAdmission.thy ===== *)
theory SelectionAdmission
  imports ModelCatalog
begin

text \<open>
  The capacity that catalog mode holds while it reads a request body
  (\<^verbatim>\<open>crates/gateway/src/lib.rs\<close>: \<open>OrgSelectionAdmission\<close>,
  \<open>acquire_selection_capacity\<close>, \<open>SelectionPermits\<close>). A semaphore is a number of
  free permits; the per-organization semaphores live in a map whose idle entries
  are swept when a new organization arrives, an entry being idle when the map
  owns the only reference to it. Request tasks interleave freely: each holds a
  reference while it waits for or holds an organization slot, in the phase
  \<open>sel_task\<close> says. The invariant: the sweep never drops a semaphore in use, so
  an organization never has two, and no permit is lost or made.
\<close>

section \<open>State\<close>

text \<open>The organization slot of a task: the organization and the identity of its semaphore.\<close>

type_synonym org_slot = "string \<times> nat"

datatype sel_task =
    WaitingOrg org_slot
  | WaitingGlobal "org_slot option"
  | Materializing "org_slot option"

text \<open>\<open>sel_org_limit\<close> is \<open>None\<close> when the gateway is not authenticated; \<open>sel_slots\<close> is the map of
  \<^verbatim>\<open>OrgSelectionAdmission\<close>, \<open>sel_free\<close> the free permits of each semaphore ever made.\<close>

record selection_state =
  sel_org_limit :: "nat option"
  sel_max_concurrent :: nat
  sel_slots :: "string \<Rightarrow> nat option"
  sel_free :: "nat \<Rightarrow> nat"
  sel_next :: nat
  sel_global_free :: nat
  sel_tasks :: "(nat \<times> sel_task) list"

definition selection_new :: "ModelSelectionLimits \<Rightarrow> nat option \<Rightarrow> selection_state" where
  "selection_new limits org_limit = \<lparr>sel_org_limit = org_limit, sel_max_concurrent = max_concurrent limits,
     sel_slots = Map.empty, sel_free = (\<lambda>_. 0), sel_next = 0, sel_global_free = max_concurrent limits, sel_tasks = []\<rparr>"

text \<open>\<^verbatim>\<open>router_with_model_catalog\<close>: an organization bound exists only with authentication, and is half
  the capacity unless the operator says otherwise.\<close>

definition catalog_selection_new :: "ModelSelectionLimits \<Rightarrow> nat option \<Rightarrow> bool \<Rightarrow> selection_state" where
  "catalog_selection_new limits max_org require_token = selection_new limits
     (if require_token then Some (case max_org of Some n \<Rightarrow> n | None \<Rightarrow> default_max_org_selections limits) else None)"

fun task_slot :: "sel_task \<Rightarrow> org_slot option" where
  "task_slot (WaitingOrg s) = Some s"
| "task_slot (WaitingGlobal s) = s"
| "task_slot (Materializing s) = s"

fun holds_org :: "nat \<Rightarrow> sel_task \<Rightarrow> bool" where
  "holds_org sem (WaitingOrg s) \<longleftrightarrow> False"
| "holds_org sem (WaitingGlobal s) \<longleftrightarrow> (\<exists>g. s = Some (g, sem))"
| "holds_org sem (Materializing s) \<longleftrightarrow> (\<exists>g. s = Some (g, sem))"

fun materializing :: "sel_task \<Rightarrow> bool" where
  "materializing (Materializing s) = True"
| "materializing _ = False"

section \<open>Operations\<close>

text \<open>\<^verbatim>\<open>Arc::strong_count\<close> of a semaphore in the map: the map's reference and one per task.\<close>

definition strong_count :: "selection_state \<Rightarrow> nat \<Rightarrow> nat" where
  "strong_count st sem = 1 + length (filter (\<lambda>(_, task). \<exists>g. task_slot task = Some (g, sem)) (sel_tasks st))"

definition org_slot_of :: "string \<Rightarrow> nat \<Rightarrow> selection_state \<Rightarrow> nat \<times> selection_state" where
  "org_slot_of organization limit st = (case sel_slots st organization of
       Some sem \<Rightarrow> (sem, st)
     | None \<Rightarrow>
         let kept = (\<lambda>g. case sel_slots st g of
               Some sem \<Rightarrow> if strong_count st sem > 1 then Some sem else None | None \<Rightarrow> None);
             sem = sel_next st
         in (sem, st\<lparr>sel_slots := kept(organization \<mapsto> sem), sel_free := (sel_free st)(sem := limit), sel_next := sem + 1\<rparr>))"

text \<open>A request enters \<^verbatim>\<open>acquire_selection_capacity\<close>: with an identity and an organization bound it waits
  for its organization's slot first.\<close>

definition begin_selection :: "nat \<Rightarrow> string option \<Rightarrow> selection_state \<Rightarrow> selection_state" where
  "begin_selection t identity st = (case (identity, sel_org_limit st) of
       (Some organization, Some limit) \<Rightarrow>
         (case org_slot_of organization limit st of (sem, st') \<Rightarrow>
            st'\<lparr>sel_tasks := (t, WaitingOrg (organization, sem)) # sel_tasks st'\<rparr>)
     | _ \<Rightarrow> st\<lparr>sel_tasks := (t, WaitingGlobal None) # sel_tasks st\<rparr>)"

definition set_task :: "nat \<Rightarrow> sel_task \<Rightarrow> selection_state \<Rightarrow> selection_state" where
  "set_task t task st = st\<lparr>sel_tasks := map (\<lambda>(t', task'). if t' = t then (t', task) else (t', task')) (sel_tasks st)\<rparr>"

text \<open>A waiter is given a permit if one is free.\<close>

definition grant :: "nat \<Rightarrow> selection_state \<Rightarrow> selection_state" where
  "grant t st = (case map_of (sel_tasks st) t of
       Some (WaitingOrg (g, sem)) \<Rightarrow>
         if sel_free st sem > 0
         then (set_task t (WaitingGlobal (Some (g, sem))) st)\<lparr>sel_free := (sel_free st)(sem := sel_free st sem - 1)\<rparr>
         else st
     | Some (WaitingGlobal slot) \<Rightarrow>
         if sel_global_free st > 0
         then (set_task t (Materializing slot) st)\<lparr>sel_global_free := sel_global_free st - 1\<rparr>
         else st
     | _ \<Rightarrow> st)"

text \<open>A task is over: its deadline passed while it waited, its body was materialized or refused, or the
  request was cancelled. Its permits go back and its reference is dropped.\<close>

definition end_selection :: "nat \<Rightarrow> selection_state \<Rightarrow> selection_state" where
  "end_selection t st = (case map_of (sel_tasks st) t of
       None \<Rightarrow> st
     | Some task \<Rightarrow>
         let tasks = filter (\<lambda>(t', _). t' \<noteq> t) (sel_tasks st);
             free = (case task of
                 WaitingOrg _ \<Rightarrow> sel_free st
               | _ \<Rightarrow> (case task_slot task of
                     Some (_, sem) \<Rightarrow> (sel_free st)(sem := sel_free st sem + 1) | None \<Rightarrow> sel_free st))
         in st\<lparr>sel_tasks := tasks, sel_free := free,
               sel_global_free := sel_global_free st + (if materializing task then 1 else 0)\<rparr>)"

text \<open>What a task whose deadline passed answers.\<close>

fun selection_refusal :: "sel_task \<Rightarrow> (string \<times> string) option" where
  "selection_refusal (WaitingOrg _) =
     Some (''organization_model_selection_overloaded'', ''gateway organization model selection limit reached'')"
| "selection_refusal (WaitingGlobal _) =
     Some (''gateway_model_selection_overloaded'', ''gateway model selection limit reached'')"
| "selection_refusal (Materializing _) = None"

inductive selection_reachable :: "ModelSelectionLimits \<Rightarrow> nat option \<Rightarrow> selection_state \<Rightarrow> bool" for limits org_limit where
  Idle: "selection_reachable limits org_limit (selection_new limits org_limit)"
| Begins: "selection_reachable limits org_limit st \<Longrightarrow> t \<notin> fst ` set (sel_tasks st)
     \<Longrightarrow> selection_reachable limits org_limit (begin_selection t identity st)"
| Granted: "selection_reachable limits org_limit st \<Longrightarrow> selection_reachable limits org_limit (grant t st)"
| Over: "selection_reachable limits org_limit st \<Longrightarrow> selection_reachable limits org_limit (end_selection t st)"

section \<open>Invariant\<close>

definition selection_inv :: "selection_state \<Rightarrow> bool" where
  "selection_inv st \<longleftrightarrow>
     distinct (map fst (sel_tasks st))
   \<and> sel_global_free st + count_tasks materializing (sel_tasks st) = sel_max_concurrent st
   \<and> (\<forall>g sem. sel_slots st g = Some sem \<longrightarrow> sem < sel_next st
        \<and> Some (sel_free st sem + count_tasks (holds_org sem) (sel_tasks st)) = sel_org_limit st)
   \<and> inj_on (sel_slots st) (dom (sel_slots st))
   \<and> (\<forall>(t, task) \<in> set (sel_tasks st). \<forall>g sem. task_slot task = Some (g, sem) \<longrightarrow> sel_slots st g = Some sem)"

lemma selection_invI:
  assumes "distinct (map fst (sel_tasks st))"
    and "sel_global_free st + count_tasks materializing (sel_tasks st) = sel_max_concurrent st"
    and "\<And>g sem. sel_slots st g = Some sem \<Longrightarrow> sem < sel_next st
        \<and> Some (sel_free st sem + count_tasks (holds_org sem) (sel_tasks st)) = sel_org_limit st"
    and "inj_on (sel_slots st) (dom (sel_slots st))"
    and "\<And>t task g sem. (t, task) \<in> set (sel_tasks st) \<Longrightarrow> task_slot task = Some (g, sem) \<Longrightarrow> sel_slots st g = Some sem"
  shows "selection_inv st"
  using assms unfolding selection_inv_def by auto

lemma selection_inv_slot:
  "selection_inv st \<Longrightarrow> (t, task) \<in> set (sel_tasks st) \<Longrightarrow> task_slot task = Some (g, sem) \<Longrightarrow> sel_slots st g = Some sem"
  unfolding selection_inv_def by blast

lemma selection_inv_inj:
  "selection_inv st \<Longrightarrow> sel_slots st g = Some sem \<Longrightarrow> sel_slots st h = Some sem \<Longrightarrow> g = h"
  unfolding selection_inv_def inj_on_def by (metis domI)

lemma selection_inv_task:
  "selection_inv st \<Longrightarrow> (t, task) \<in> set (sel_tasks st) \<Longrightarrow> (t, task') \<in> set (sel_tasks st) \<Longrightarrow> task = task'"
  unfolding selection_inv_def by (blast intro: eq_key_imp_eq_value)

lemma strong_count_used:
  "(t, task) \<in> set (sel_tasks st) \<Longrightarrow> task_slot task = Some (g, sem) \<Longrightarrow> strong_count st sem > 1"
  by (auto simp: strong_count_def filter_empty_conv)

lemma holds_org_slot: "holds_org sem task \<Longrightarrow> \<exists>g. task_slot task = Some (g, sem)"
  by (cases task) auto

lemma org_slot_of_inv:
  assumes inv: "selection_inv st" and limit: "sel_org_limit st = Some limit" and slot: "org_slot_of g limit st = (sem, st')"
  shows "selection_inv st' \<and> sel_slots st' g = Some sem \<and> sel_tasks st' = sel_tasks st"
proof (cases "sel_slots st g")
  case (Some s)
  then show ?thesis using inv slot by (simp add: org_slot_of_def)
next
  case None
  define kept where "kept = (\<lambda>h. case sel_slots st h of Some s \<Rightarrow> if strong_count st s > 1 then Some s else None | None \<Rightarrow> None)"
  have st': "st' = st\<lparr>sel_slots := kept(g \<mapsto> sem), sel_free := (sel_free st)(sem := limit), sel_next := sem + 1\<rparr>"
    and sem: "sem = sel_next st"
    using slot None by (auto simp: org_slot_of_def Let_def kept_def)
  have kept: "kept h = Some s \<Longrightarrow> sel_slots st h = Some s" for h s
    by (auto simp: kept_def split: option.splits if_splits)
  have below: "sel_slots st h = Some s \<Longrightarrow> s < sem" for h s using inv sem by (auto simp: selection_inv_def)
  have task: "sel_slots st h = Some s \<and> kept h = Some s \<and> s < sem \<and> h \<noteq> g"
    if "(t, task) \<in> set (sel_tasks st)" "task_slot task = Some (h, s)" for t task h s
  proof -
    have "sel_slots st h = Some s" using inv that by (fastforce simp: selection_inv_def)
    moreover from this have "kept h = Some s" using strong_count_used [OF that] by (simp add: kept_def)
    ultimately show ?thesis using None below by auto
  qed
  have none: "count_tasks (holds_org sem) (sel_tasks st) = 0"
    using task by (intro count_tasks_none) (metis holds_org_slot less_irrefl)
  have slots: "s < sem + 1 \<and> Some (((sel_free st)(sem := limit)) s + count_tasks (holds_org s) (sel_tasks st)) = sel_org_limit st"
    if "(kept(g \<mapsto> sem)) h = Some s" for h s
  proof (cases "h = g")
    case True
    with that none limit show ?thesis by simp
  next
    case False
    with that have "sel_slots st h = Some s" using kept by simp
    moreover from this have "s < sem" by (rule below)
    ultimately show ?thesis using inv by (auto simp: selection_inv_def)
  qed
  have tasks: "(kept(g \<mapsto> sem)) h = Some s" if "(t, task) \<in> set (sel_tasks st)" "task_slot task = Some (h, s)" for t task h s
    using task [OF that] by simp
  have inj: "inj_on (kept(g \<mapsto> sem)) (dom (kept(g \<mapsto> sem)))"
  proof (rule inj_onI)
    fix a b
    assume a: "a \<in> dom (kept(g \<mapsto> sem))" and b: "b \<in> dom (kept(g \<mapsto> sem))" and eq: "(kept(g \<mapsto> sem)) a = (kept(g \<mapsto> sem)) b"
    have old: "h \<noteq> g \<Longrightarrow> h \<in> dom (kept(g \<mapsto> sem)) \<Longrightarrow> \<exists>s. (kept(g \<mapsto> sem)) h = Some s \<and> sel_slots st h = Some s \<and> s < sem" for h
    proof -
      assume "h \<noteq> g" "h \<in> dom (kept(g \<mapsto> sem))"
      then obtain s where "(kept(g \<mapsto> sem)) h = Some s" "kept h = Some s" by auto
      then show ?thesis using kept [of h s] below [of h s] by blast
    qed
    show "a = b"
    proof (cases "a = g \<or> b = g")
      case True
      then show ?thesis using old [of a] old [of b] a b eq by fastforce
    next
      case False
      then have "sel_slots st a = sel_slots st b" "a \<in> dom (sel_slots st)" "b \<in> dom (sel_slots st)"
        using old [of a] old [of b] a b eq by auto
      then show ?thesis using inv by (auto simp: selection_inv_def dest: inj_onD)
    qed
  qed
  have "selection_inv st'"
    unfolding st'
  proof (rule selection_invI, goal_cases)
    case (3 h s)
    then show ?case using slots [of h s] by simp
  next
    case (4)
    then show ?case using inj by simp
  next
    case (5 t task h s)
    then show ?case using tasks [of t task h s] by simp
  qed (use inv in \<open>simp_all add: selection_inv_def\<close>)
  then show ?thesis using st' by simp
qed

lemma begin_selection_inv:
  assumes "selection_inv st" and "t \<notin> fst ` set (sel_tasks st)"
  shows "selection_inv (begin_selection t identity st)"
proof (cases "\<exists>g limit. identity = Some g \<and> sel_org_limit st = Some limit")
  case True
  then obtain g limit where g: "identity = Some g" "sel_org_limit st = Some limit" by blast
  obtain sem st' where slot: "org_slot_of g limit st = (sem, st')" by force
  from org_slot_of_inv [OF assms(1) g(2) slot] assms(2) g slot show ?thesis
    by (auto simp: begin_selection_def selection_inv_def)
next
  case False
  with assms show ?thesis
    by (auto simp: begin_selection_def selection_inv_def split: option.splits)
qed

lemma map_of_task: "map_of (sel_tasks st) t = Some task \<Longrightarrow> (t, task) \<in> set (sel_tasks st)"
  by (rule map_of_SomeD)

text \<open>A task is replaced by one with the same slot, permits moving accordingly.\<close>

lemma set_task_inv:
  assumes inv: "selection_inv st" and old: "map_of (sel_tasks st) t = Some old"
    and slot: "\<And>g sem. task_slot task = Some (g, sem) \<Longrightarrow> task_slot old = Some (g, sem)"
    and free: "\<And>g sem. sel_slots st g = Some sem \<Longrightarrow>
        free sem + (if holds_org sem task then 1 else 0) = sel_free st sem + (if holds_org sem old then 1 else 0)"
    and global: "n + (if materializing task then 1 else 0) = sel_global_free st + (if materializing old then 1 else 0)"
  shows "selection_inv ((set_task t task st)\<lparr>sel_free := free, sel_global_free := n\<rparr>)"
proof -
  have d: "distinct (map fst (sel_tasks st))" using inv by (simp add: selection_inv_def)
  obtain tasks where tasks: "tasks = map (\<lambda>(t', task'). if t' = t then (t', task) else (t', task')) (sel_tasks st)" by blast
  have "free sem + count_tasks (holds_org sem) tasks = sel_free st sem + count_tasks (holds_org sem) (sel_tasks st)"
    if "sel_slots st g = Some sem" for g sem
    using count_tasks_replace [OF d old, of "holds_org sem" task] free [OF that] unfolding tasks by arith
  moreover have "n + count_tasks materializing tasks = sel_global_free st + count_tasks materializing (sel_tasks st)"
    using count_tasks_replace [OF d old, of materializing task] global unfolding tasks by arith
  moreover have "sel_slots st g = Some sem" if member: "(t', task') \<in> set tasks" and s: "task_slot task' = Some (g, sem)" for t' task' g sem
  proof -
    have refs: "sel_slots st g = Some sem" if "(x, task) \<in> set (sel_tasks st)" "task_slot task = Some (g, sem)" for x task
      using inv that unfolding selection_inv_def by fastforce
    from member consider "task' = task" | "(t', task') \<in> set (sel_tasks st)" unfolding tasks by (auto split: if_splits)
    then show ?thesis
    proof cases
      case 1
      with s slot refs [OF map_of_task [OF old]] show ?thesis by simp
    qed (use s refs in blast)
  qed
  moreover have "map fst tasks = map fst (sel_tasks st)" by (simp only: tasks set_task_keys)
  moreover have "(set_task t task st)\<lparr>sel_free := free, sel_global_free := n\<rparr> =
      st\<lparr>sel_tasks := tasks, sel_free := free, sel_global_free := n\<rparr>" by (simp add: set_task_def tasks)
  ultimately show ?thesis
    using inv unfolding selection_inv_def by auto
qed

lemma grant_inv:
  assumes inv: "selection_inv st"
  shows "selection_inv (grant t st)"
proof (cases "map_of (sel_tasks st) t")
  case (Some task)
  have same: "selection_inv ((set_task t task' st)\<lparr>sel_free := f, sel_global_free := n\<rparr>) \<Longrightarrow> n = sel_global_free st
      \<Longrightarrow> selection_inv ((set_task t task' st)\<lparr>sel_free := f\<rparr>)" for task' f n
    by (simp add: set_task_def)
  have same': "selection_inv ((set_task t task' st)\<lparr>sel_free := f, sel_global_free := n\<rparr>) \<Longrightarrow> f = sel_free st
      \<Longrightarrow> selection_inv ((set_task t task' st)\<lparr>sel_global_free := n\<rparr>)" for task' f n
    by (simp add: set_task_def)
  show ?thesis
  proof (cases task)
    case (WaitingOrg s)
    obtain g sem where s: "s = (g, sem)" by (cases s)
    have "selection_inv ((set_task t (WaitingGlobal (Some (g, sem))) st)\<lparr>sel_free := (sel_free st)(sem := sel_free st sem - 1), sel_global_free := sel_global_free st\<rparr>)"
      if "sel_free st sem > 0"
      using that Some WaitingOrg s by (intro set_task_inv [OF inv Some]) auto
    with Some WaitingOrg s inv same show ?thesis by (auto simp: grant_def)
  next
    case (WaitingGlobal slot)
    have "selection_inv ((set_task t (Materializing slot) st)\<lparr>sel_free := sel_free st, sel_global_free := sel_global_free st - 1\<rparr>)"
      if "sel_global_free st > 0"
      using that Some WaitingGlobal by (intro set_task_inv [OF inv Some]) auto
    with Some WaitingGlobal inv same' show ?thesis by (auto simp: grant_def)
  qed (use Some inv in \<open>simp add: grant_def\<close>)
qed (use inv in \<open>simp add: grant_def\<close>)

lemma end_selection_inv:
  assumes inv: "selection_inv st"
  shows "selection_inv (end_selection t st)"
proof (cases "map_of (sel_tasks st) t")
  case (Some task)
  have d: "distinct (map fst (sel_tasks st))" using inv by (simp add: selection_inv_def)
  let ?tasks = "filter (\<lambda>(t', _). t' \<noteq> t) (sel_tasks st)"
  have free: "sel_free (end_selection t st) sem = sel_free st sem + (if holds_org sem task then 1 else 0)" for sem
    using Some by (cases task) (auto simp: end_selection_def Let_def split: option.splits)
  have fields: "sel_tasks (end_selection t st) = ?tasks" "sel_slots (end_selection t st) = sel_slots st"
    "sel_next (end_selection t st) = sel_next st" "sel_org_limit (end_selection t st) = sel_org_limit st"
    "sel_max_concurrent (end_selection t st) = sel_max_concurrent st"
    "sel_global_free (end_selection t st) = sel_global_free st + (if materializing task then 1 else 0)"
    using Some by (simp_all add: end_selection_def Let_def)
  have "sel_free (end_selection t st) sem + count_tasks (holds_org sem) ?tasks = sel_free st sem + count_tasks (holds_org sem) (sel_tasks st)" for sem
    using count_tasks_remove [OF d Some, of "holds_org sem"] free [of sem] by arith
  moreover have "sel_global_free (end_selection t st) + count_tasks materializing ?tasks = sel_global_free st + count_tasks materializing (sel_tasks st)"
    using count_tasks_remove [OF d Some, of materializing] fields by arith
  moreover have "distinct (map fst ?tasks)" using d by (metis distinct_map_filter)
  ultimately show ?thesis using inv by (auto simp: selection_inv_def fields)
qed (use inv in \<open>simp add: end_selection_def\<close>)

lemma selection_new_inv: "selection_inv (selection_new limits org_limit)"
  by (simp add: selection_inv_def selection_new_def)

lemma selection_reachable_inv: "selection_reachable limits org_limit st \<Longrightarrow> selection_inv st"
  by (induction rule: selection_reachable.induct)
     (simp_all add: selection_new_inv begin_selection_inv grant_inv end_selection_inv)

lemma selection_config_steps [simp]:
  "sel_max_concurrent (begin_selection t identity st) = sel_max_concurrent st" "sel_org_limit (begin_selection t identity st) = sel_org_limit st"
  "sel_max_concurrent (grant t st) = sel_max_concurrent st" "sel_org_limit (grant t st) = sel_org_limit st"
  "sel_max_concurrent (end_selection t st) = sel_max_concurrent st" "sel_org_limit (end_selection t st) = sel_org_limit st"
  by (auto simp: begin_selection_def org_slot_of_def grant_def set_task_def end_selection_def Let_def split: option.splits sel_task.splits)

lemma selection_config:
  "selection_reachable limits org_limit st \<Longrightarrow> sel_max_concurrent st = max_concurrent limits \<and> sel_org_limit st = org_limit"
  by (induction rule: selection_reachable.induct) (simp_all add: selection_new_def)

section \<open>Properties\<close>

fun holds_slot_of :: "string \<Rightarrow> sel_task \<Rightarrow> bool" where
  "holds_slot_of g (WaitingOrg s) = False"
| "holds_slot_of g (WaitingGlobal s) = (case s of Some (h, _) \<Rightarrow> h = g | None \<Rightarrow> False)"
| "holds_slot_of g (Materializing s) = (case s of Some (h, _) \<Rightarrow> h = g | None \<Rightarrow> False)"

lemma holders_share_a_semaphore:
  assumes inv: "selection_inv st" and sem: "sel_slots st g = Some sem"
  shows "count_tasks (holds_slot_of g) (sel_tasks st) = count_tasks (holds_org sem) (sel_tasks st)"
proof -
  have "holds_slot_of g task \<longleftrightarrow> holds_org sem task" if member: "(t, task) \<in> set (sel_tasks st)" for t task
  proof
    assume "holds_slot_of g task"
    then obtain s where s: "task_slot task = Some (g, s)" and "holds_org s task"
      by (cases task) (auto split: option.splits)
    moreover have "s = sem" using selection_inv_slot [OF inv member s] sem by simp
    ultimately show "holds_org sem task" by simp
  next
    assume h: "holds_org sem task"
    then obtain h where h': "task_slot task = Some (h, sem)" using holds_org_slot by blast
    then have "h = g" using selection_inv_inj [OF inv selection_inv_slot [OF inv member h'] sem] by simp
    with h h' show "holds_slot_of g task" by (cases task) auto
  qed
  then show ?thesis unfolding count_tasks_def by (intro arg_cong [where f = length] filter_cong) auto
qed

text \<open>Property C7: model selection stays inside its budget, for the deployment and for each tenant. In
  every interleaving of arrivals, grants, deadlines and cancellations, the memory reserved by the
  requests that are reading a body is at most the declared budget, and no organization holds more slots
  than its bound, the sweep of idle semaphores notwithstanding.\<close>

theorem selection_stays_inside_budget:
  assumes limits: "model_selection_limits_new max_body budget = Inr limits"
    and reachable: "selection_reachable limits (Some bound) st"
  shows "count_tasks materializing (sel_tasks st) * bytes_per_selector limits \<le> budget
       \<and> count_tasks (holds_slot_of g) (sel_tasks st) \<le> bound"
proof -
  note inv = selection_reachable_inv [OF reachable]
  from limits have l: "max_concurrent limits = budget div bytes_per_selector limits"
    by (auto simp: model_selection_limits_new_def and_then_Inr_iff split: if_splits)
  have "count_tasks materializing (sel_tasks st) \<le> max_concurrent limits"
    using inv selection_config [OF reachable] by (simp add: selection_inv_def)
  then have "count_tasks materializing (sel_tasks st) * bytes_per_selector limits \<le> budget"
    unfolding l by (meson div_times_less_eq_dividend le_trans mult_le_mono1)
  moreover have "count_tasks (holds_slot_of g) (sel_tasks st) \<le> bound"
  proof (cases "sel_slots st g")
    case None
    have "\<not> holds_slot_of g task" if "(t, task) \<in> set (sel_tasks st)" for t task
    proof
      assume "holds_slot_of g task"
      then obtain s where "task_slot task = Some (g, s)" by (cases task) (auto split: option.splits)
      with selection_inv_slot [OF inv that] None show False by simp
    qed
    then show ?thesis by (simp add: count_tasks_none)
  next
    case (Some sem)
    have "Some (sel_free st sem + count_tasks (holds_org sem) (sel_tasks st)) = sel_org_limit st"
      using inv Some unfolding selection_inv_def by blast
    with selection_config [OF reachable] holders_share_a_semaphore [OF inv Some] show ?thesis by simp
  qed
  ultimately show ?thesis by blast
qed

text \<open>Also: no selection capacity is lost and none is withheld. A request that waits for its
  organization's slot can be granted one exactly when the organization holds fewer than its bound, one
  that waits for the global slot exactly when fewer than the capacity are reading; and when no request
  is left, all capacity is free.\<close>

theorem selection_capacity_is_conserved:
  assumes reachable: "selection_reachable limits (Some bound) st"
  shows "(map_of (sel_tasks st) t = Some (WaitingOrg (g, sem)) \<longrightarrow>
            (grant t st \<noteq> st \<longleftrightarrow> count_tasks (holds_slot_of g) (sel_tasks st) < bound))
       \<and> (map_of (sel_tasks st) t = Some (WaitingGlobal slot) \<longrightarrow>
            (grant t st \<noteq> st \<longleftrightarrow> count_tasks materializing (sel_tasks st) < max_concurrent limits))
       \<and> (sel_tasks st = [] \<longrightarrow> sel_global_free st = max_concurrent limits
            \<and> (\<forall>h s. sel_slots st h = Some s \<longrightarrow> sel_free st s = bound))"
proof (intro conjI impI)
  note inv = selection_reachable_inv [OF reachable] and config = selection_config [OF reachable]
  have changed: "set_task t task st \<noteq> st" if "map_of (sel_tasks st) t = Some old" "task \<noteq> old" for task old
  proof -
    have "(t, task) \<in> set (sel_tasks (set_task t task st))" using map_of_task [OF that(1)] by (force simp: set_task_def)
    moreover have "(t, task) \<notin> set (sel_tasks st)"
      using selection_inv_task [OF inv map_of_task [OF that(1)]] that(2) by blast
    ultimately show ?thesis by metis
  qed
  {
    assume t: "map_of (sel_tasks st) t = Some (WaitingOrg (g, sem))"
    have slot: "sel_slots st g = Some sem" using selection_inv_slot [OF inv map_of_task [OF t]] by simp
    have "Some (sel_free st sem + count_tasks (holds_org sem) (sel_tasks st)) = sel_org_limit st"
      using inv slot unfolding selection_inv_def by blast
    then have "0 < sel_free st sem \<longleftrightarrow> count_tasks (holds_slot_of g) (sel_tasks st) < bound"
      using config holders_share_a_semaphore [OF inv slot] by auto
    moreover have "grant t st \<noteq> st \<longleftrightarrow> 0 < sel_free st sem"
      using t changed [OF t, of "WaitingGlobal (Some (g, sem))"]
      by (auto simp: grant_def set_task_def selection_state.splits dest: arg_cong [where f = sel_tasks])
    ultimately show "grant t st \<noteq> st \<longleftrightarrow> count_tasks (holds_slot_of g) (sel_tasks st) < bound" by simp
  next
    assume t: "map_of (sel_tasks st) t = Some (WaitingGlobal slot)"
    have "grant t st \<noteq> st \<longleftrightarrow> 0 < sel_global_free st"
      using t changed [OF t, of "Materializing slot"] by (auto simp: grant_def set_task_def dest: arg_cong [where f = sel_tasks])
    with inv config show "grant t st \<noteq> st \<longleftrightarrow> count_tasks materializing (sel_tasks st) < max_concurrent limits"
      by (auto simp: selection_inv_def)
  next
    assume "sel_tasks st = []"
    with inv config show "sel_global_free st = max_concurrent limits" by (simp add: selection_inv_def)
  next
    fix h s
    assume "sel_tasks st = []"
    with inv config show "\<forall>h s. sel_slots st h = Some s \<longrightarrow> sel_free st s = bound" by (auto simp: selection_inv_def)
  }
qed

section \<open>Concrete instances\<close>

text \<open>Eight selectors, one per organization; two requests of one organization, the first holding its slot.\<close>

definition demo_limits :: ModelSelectionLimits where
  "demo_limits = \<lparr>max_body_bytes = 2097152, memory_budget_bytes = 33554432, bytes_per_selector = 4194304,
     max_concurrent = 8, acquire_timeout = 5, read_timeout = 15\<rparr>"

definition demo_selection :: selection_state where
  "demo_selection = begin_selection 2 (Some ''a'') (grant 1 (begin_selection 1 (Some ''a'') (selection_new demo_limits (Some 1))))"

lemma demo_limits_new: "model_selection_limits_new 2097152 33554432 = Inr demo_limits"
  by (simp add: model_selection_limits_new_def checked_mul_u64_def u64_max_def demo_limits_def
      DEFAULT_MODEL_SELECTION_ACQUIRE_TIMEOUT_def DEFAULT_MODEL_SELECTION_READ_TIMEOUT_def)

lemmas demo_selection_simps = begin_selection_def org_slot_of_def grant_def set_task_def selection_new_def Let_def

lemma demo_selection_reachable: "selection_reachable demo_limits (Some 1) demo_selection"
  unfolding demo_selection_def
  by (intro Begins Granted Idle) (simp_all add: demo_selection_simps)

theorem selection_stays_inside_budget_witness:
  "count_tasks materializing (sel_tasks demo_selection) * 4194304 \<le> 33554432
   \<and> count_tasks (holds_slot_of ''a'') (sel_tasks demo_selection) \<le> 1"
  using selection_stays_inside_budget [OF demo_limits_new demo_selection_reachable, of "''a''"] by (simp add: demo_limits_def)

theorem selection_capacity_is_conserved_witness:
  "map_of (sel_tasks demo_selection) 2 = Some (WaitingOrg (''a'', 0)) \<and> grant 2 demo_selection = demo_selection"
proof -
  have waiting: "map_of (sel_tasks demo_selection) 2 = Some (WaitingOrg (''a'', 0))"
    and full: "count_tasks (holds_slot_of ''a'') (sel_tasks demo_selection) = 1"
    by (simp_all add: demo_selection_def demo_selection_simps)
  show ?thesis
    using selection_capacity_is_conserved [OF demo_selection_reachable, of 2 "''a''" 0] waiting full by auto
qed

end
