(* ===== verification/Routing.thy ===== *)
theory Routing
  imports Contract Http ModelCatalog SelectionAdmission
begin

text \<open>
  How the gateway decides where a request goes (\<^verbatim>\<open>crates/gateway/src/lib.rs\<close>): the
  table of forwarded routes read from the public contract, the refusals decidable
  from a request's head, the model a generation request names, and the resolution
  of a route. A request body is what the client will send: all of it, a part and
  then an error, or a part and then silence. Reading JSON is \<^verbatim>\<open>serde_json\<close>'s and an
  argument; the visitor that reads the \<open>model\<close> member out of it is modelled.
\<close>

section \<open>Requests\<close>

datatype arrival = Arrives string | Breaks string | Stalls string

record request =
  q_method :: string
  q_uri :: uri
  q_headers :: header_map
  q_body :: arrival

datatype UpstreamRouting = Passthrough UpstreamOrigin | Catalog ModelCatalog ModelSelectionLimits

datatype RoutedRequest = Forward UpstreamOrigin "string option" | Local "json response" "string option"

fun routed_model_id :: "RoutedRequest \<Rightarrow> string option" where
  "routed_model_id (Forward _ model_id) = model_id"
| "routed_model_id (Local _ model_id) = model_id"

record RoutingRefusal =
  rr_audit_reason :: string
  rr_response :: "json response"

section \<open>The table of routes\<close>

datatype handler = GatewayHealth | Proxy | ProxyModelDetail

definition proxy_methods :: "RouteSpec \<Rightarrow> (HttpMethod \<times> handler) list" where
  "proxy_methods spec = map (\<lambda>m. (m, case m of
       Get \<Rightarrow> if rs_path spec = ''/v1/models/:model'' then ProxyModelDetail else Proxy
     | Post \<Rightarrow> Proxy
     | Delete \<Rightarrow> Proxy)) (rs_methods spec)"

definition gateway_routes :: "(string \<times> (HttpMethod \<times> handler) list) list" where
  "gateway_routes = (''/healthz'', [(Get, GatewayHealth)]) # map (\<lambda>spec. (rs_path spec, proxy_methods spec)) contractual_routes"

section \<open>Refusals\<close>

definition unsupported_model_selection_media_type_refusal :: RoutingRefusal where
  "unsupported_model_selection_media_type_refusal = \<lparr>rr_audit_reason = ''unsupported_model_selection_media_type'',
     rr_response = gateway_api_error 415 ''model routing requires an application/json request body''
       ''invalid_request'' (Some ''unsupported_media_type'') None\<rparr>"

definition model_selection_body_too_large_refusal :: RoutingRefusal where
  "model_selection_body_too_large_refusal = \<lparr>rr_audit_reason = ''model_selection_body_too_large'',
     rr_response = gateway_api_error 413 ''request body exceeds the model-selection limit''
       ''invalid_request'' (Some ''request_too_large'') None\<rparr>"

definition unknown_model_refusal :: RoutingRefusal where
  "unknown_model_refusal = \<lparr>rr_audit_reason = ''unknown_model'',
     rr_response = gateway_api_error 404 ''requested model is not available from this gateway''
       ''invalid_request'' (Some ''model_not_found'') (Some ''model'')\<rparr>"

section \<open>Decisions from the head\<close>

text \<open>\<^verbatim>\<open>str::parse::<usize>\<close>: an optional plus sign and at least one digit, within 64 bits.\<close>

definition is_digit :: "char \<Rightarrow> bool" where
  "is_digit c \<longleftrightarrow> 48 \<le> char_code c \<and> char_code c \<le> 57"

definition parse_usize :: "string \<Rightarrow> nat option" where
  "parse_usize s = (let digits = (case s of c # rest \<Rightarrow> if c = CHR ''+'' then rest else s | [] \<Rightarrow> []);
       n = foldl (\<lambda>n c. 10 * n + (char_code c - 48)) 0 digits
     in if digits \<noteq> [] \<and> list_all is_digit digits \<and> n \<le> u64_max then Some n else None)"

definition declared_content_length :: "http_lib \<Rightarrow> header_map \<Rightarrow> nat option" where
  "declared_content_length lib headers =
     Option.bind (get_header ''content-length'' headers) (\<lambda>value.
     Option.bind (lib_to_str lib value) (\<lambda>value.
     Option.bind (parse_usize (trim value)) (\<lambda>n. if n = 0 then None else Some n)))"

definition has_json_content_type :: "http_lib \<Rightarrow> header_map \<Rightarrow> bool" where
  "has_json_content_type lib headers =
     (case Option.bind (get_header ''content-type'' headers) (lib_to_str lib) of
        None \<Rightarrow> False
      | Some value \<Rightarrow>
          let media_type = map to_ascii_lower (trim (hd (split_on (CHR '';'') value)))
          in media_type = ''application/json''
             \<or> (starts_with media_type ''application/'' \<and> ends_with media_type ''+json''))"

definition model_selection_head_refusal :: "http_lib \<Rightarrow> header_map \<Rightarrow> ModelSelectionLimits \<Rightarrow> RoutingRefusal option" where
  "model_selection_head_refusal lib headers limits =
     (if \<not> has_json_content_type lib headers then Some unsupported_model_selection_media_type_refusal
      else if (case declared_content_length lib headers of Some declared \<Rightarrow> declared > max_body_bytes limits | None \<Rightarrow> False)
      then Some model_selection_body_too_large_refusal
      else None)"

definition is_catalog_generation_route :: "request \<Rightarrow> bool" where
  "is_catalog_generation_route request \<longleftrightarrow> q_method request = ''POST''
     \<and> (uri_path (q_uri request) = ''/v1/completions'' \<or> uri_path (q_uri request) = ''/v1/chat/completions'')"

definition catalog_selection :: "UpstreamRouting \<Rightarrow> request \<Rightarrow> ModelSelectionLimits option" where
  "catalog_selection routing request = (case routing of
       Catalog _ limits \<Rightarrow> if is_catalog_generation_route request then Some limits else None
     | Passthrough _ \<Rightarrow> None)"

section \<open>The model a body names\<close>

text \<open>\<open>ModelSelectionVisitor::visit_map\<close> over the members of an object, in order, repetitions included.\<close>

fun visit_map :: "(string \<times> json) list \<Rightarrow> string option option \<Rightarrow> (string, string option) res" where
  "visit_map [] model = Inr (case model of None \<Rightarrow> None | Some m \<Rightarrow> m)"
| "visit_map ((key, v) # entries) model =
     (if key \<noteq> ''model'' then visit_map entries model
      else if model \<noteq> None then Inl ''duplicate field `model`''
      else (case v of
          JNull \<Rightarrow> visit_map entries (Some None)
        | JString s \<Rightarrow> visit_map entries (Some (Some s))
        | _ \<Rightarrow> Inl ''invalid type, expected a string''))"

definition model_selection_of :: "(string \<Rightarrow> (string, json) res) \<Rightarrow> string \<Rightarrow> (string, string option) res" where
  "model_selection_of parse_json body = and_then (parse_json body) (\<lambda>v. case v of
       JObject entries \<Rightarrow> visit_map entries None
     | _ \<Rightarrow> Inl ''invalid type, expected a JSON object with an optional string \"model\" member'')"

text \<open>\<^verbatim>\<open>to_bytes\<close> under the read deadline.\<close>

datatype body_error = TooLarge | BodyUnreadable

fun read_body :: "nat \<Rightarrow> arrival \<Rightarrow> (body_error, string) res timed" where
  "read_body limit (Arrives bytes) = InTime (if length bytes > limit then Inl TooLarge else Inr bytes)"
| "read_body limit (Breaks bytes) = InTime (Inl (if length bytes > limit then TooLarge else BodyUnreadable))"
| "read_body limit (Stalls bytes) = (if length bytes > limit then InTime (Inl TooLarge) else Elapsed)"

definition select_catalog_upstream :: "http_lib \<Rightarrow> (string \<Rightarrow> (string, json) res) \<Rightarrow> ModelCatalog \<Rightarrow> request
    \<Rightarrow> ModelSelectionLimits \<Rightarrow> (RoutingRefusal, RoutedRequest \<times> request) res" where
  "select_catalog_upstream lib parse_json catalog request limits =
     (case model_selection_head_refusal lib (q_headers request) limits of
        Some refusal \<Rightarrow> Inl refusal
      | None \<Rightarrow>
     (case read_body (max_body_bytes limits) (q_body request) of
        InTime (Inl TooLarge) \<Rightarrow> Inl model_selection_body_too_large_refusal
      | InTime (Inl BodyUnreadable) \<Rightarrow> Inl \<lparr>rr_audit_reason = ''model_selection_body_unreadable'',
            rr_response = gateway_api_error 400 ''gateway could not read the request body''
              ''invalid_request'' (Some ''unreadable_request_body'') None\<rparr>
      | Elapsed \<Rightarrow> Inl \<lparr>rr_audit_reason = ''model_selection_body_timeout'',
            rr_response = gateway_api_error 408 ''request body did not arrive within the model-selection deadline''
              ''invalid_request'' (Some ''request_body_timeout'') None\<rparr>
      | InTime (Inr body) \<Rightarrow>
     (case model_selection_of parse_json body of
        Inl _ \<Rightarrow> Inl \<lparr>rr_audit_reason = ''malformed_model_selection'',
            rr_response = gateway_api_error 400 ''request body is not a JSON object''
              ''invalid_request'' (Some ''malformed_json'') None\<rparr>
      | Inr model \<Rightarrow>
     (case Option.bind model (\<lambda>m. if m = [] then None else Some m) of
        None \<Rightarrow> Inl \<lparr>rr_audit_reason = ''missing_model'',
            rr_response = gateway_api_error 400 ''request must specify a non-empty model''
              ''invalid_request'' (Some ''model_required'') (Some ''model'')\<rparr>
      | Some model_id \<Rightarrow>
     (case catalog_route catalog model_id of
        None \<Rightarrow> Inl unknown_model_refusal
      | Some (catalog_model_id, upstream) \<Rightarrow>
          Inr (Forward upstream (Some catalog_model_id), request\<lparr>q_body := Arrives body\<rparr>))))))"

section \<open>Routes\<close>

definition catalog_model_item :: "string \<Rightarrow> json" where
  "catalog_model_item model_id = JObject [(''id'', JString model_id), (''object'', JString ''model''),
     (''created'', json_nat 0), (''owned_by'', JString ''camelid'')]"

definition catalog_models_response :: "ModelCatalog \<Rightarrow> json response" where
  "catalog_models_response catalog = json_response 200 (JObject [(''object'', JString ''list''),
     (''data'', JArray (map catalog_model_item (catalog_model_ids catalog)))])"

definition catalog_model_response :: "string \<Rightarrow> json response" where
  "catalog_model_response model_id = json_response 200 (catalog_model_item model_id)"

definition resolve_route :: "http_lib \<Rightarrow> (string \<Rightarrow> (string, json) res) \<Rightarrow> UpstreamRouting \<Rightarrow> request
    \<Rightarrow> string option \<Rightarrow> (RoutingRefusal, RoutedRequest \<times> request) res" where
  "resolve_route lib parse_json routing request detail_model_id = (case routing of
       Passthrough upstream \<Rightarrow> Inr (Forward upstream None, request)
     | Catalog catalog limits \<Rightarrow>
         let is_read = (q_method request = ''GET'' \<or> q_method request = ''HEAD'') in
         if is_read \<and> uri_path (q_uri request) = ''/v1/models''
         then Inr (Local (catalog_models_response catalog) None, request)
         else (case (if is_read then detail_model_id else None) of
             Some model_id \<Rightarrow> (case catalog_upstream catalog model_id of
                 Some _ \<Rightarrow> Inr (Local (catalog_model_response model_id) (Some model_id), request)
               | None \<Rightarrow> Inl unknown_model_refusal)
           | None \<Rightarrow>
               if is_catalog_generation_route request
               then select_catalog_upstream lib parse_json catalog request limits
               else Inl \<lparr>rr_audit_reason = ''model_routing_unsupported'',
                 rr_response = gateway_api_error 501 ''this endpoint cannot be routed by a multi-model gateway''
                   ''not_implemented'' (Some ''model_routing_unsupported'') None\<rparr>))"

end
