(* ===== verification/Gateway.thy ===== *)
theory Gateway
  imports Routing Bodies InProcessQuota PlatformStore
begin

text \<open>
  The gateway's request handler (\<^verbatim>\<open>proxy_request\<close> in
  \<^verbatim>\<open>crates/gateway/src/lib.rs\<close>), the organization quota it charges and the
  audit and usage records it writes. The handler is one function from a request
  and what its surroundings answer (\<open>surroundings\<close>: the identity store, the
  selector capacity, the quota store and the clocks, the replica) to what it does
  (\<open>outcome\<close>: the response, the audit lines, the usage record its body owes, the
  request it sent, the permit its body holds, the state it leaves).
\<close>

section \<open>Organization quota\<close>

datatype OrgQuota = InProcess in_process_quota | Platform PlatformQuota

definition org_quota_new :: "nat \<Rightarrow> nat \<Rightarrow> OrgQuota" where
  "org_quota_new limit window_seconds = InProcess (in_process_new limit window_seconds)"

definition org_quota_admit :: "io \<Rightarrow> rat \<Rightarrow> rat \<Rightarrow> string \<Rightarrow> OrgQuota \<Rightarrow> platform_db
    \<Rightarrow> (QuotaRefusal, unit) res \<times> OrgQuota \<times> platform_db" where
  "org_quota_admit io instant clock organization quota db = (case quota of
       InProcess q \<Rightarrow> (case in_process_admit organization instant q of
           (r, q') \<Rightarrow> (map_err Exceeded r, InProcess q', db))
     | Platform q \<Rightarrow> (case admit io organization q clock db of (r, db') \<Rightarrow> (r, Platform q, db')))"

section \<open>State and surroundings\<close>

datatype GatewayAuth = Disabled | RequireToken "OrgQuota option" bool

record gateway_state =
  gs_routing :: UpstreamRouting
  gs_free :: nat
  gs_auth :: GatewayAuth
  gs_audit :: bool

datatype capacity_answer = CapacityGranted | OrganizationFull | GatewayFull

record surroundings =
  e_lib :: http_lib
  e_resolve :: "string \<Rightarrow> (IdentityError, AuthenticatedContext) res"
  e_capacity :: capacity_answer
  e_parse_json :: "string \<Rightarrow> (string, json) res"
  e_from_parts :: "uri \<Rightarrow> (string, uri) res"
  e_quota_io :: io
  e_instant :: rat
  e_clock :: rat
  e_rand_u8 :: "nat \<Rightarrow> nat \<Rightarrow> nat"
  e_random :: "u64 \<times> u64"
  e_client :: "request \<Rightarrow> (string, nat \<times> header_map \<times> wire_body) res"
  e_started_ts :: rat
  e_ts :: rat
  e_marker :: bool

datatype resp_body = JsonBody json | ReplicaBody wire_body

definition local_response :: "json response \<Rightarrow> resp_body response" where
  "local_response r = \<lparr>r_status = r_status r, r_headers = r_headers r, r_body = JsonBody (r_body r)\<rparr>"

record outcome =
  o_response :: "resp_body response"
  o_audit :: "json list"
  o_usage :: "UsageRecord option"
  o_permit :: bool
  o_sent :: "request option"
  o_state :: gateway_state
  o_platform :: platform_db

text \<open>\<^verbatim>\<open>req_{:016x}{:016x}\<close>.\<close>

definition hex16 :: "u64 \<Rightarrow> string" where
  "hex16 n = map (\<lambda>i. hex_digit (unat n div 16 ^ (15 - i) mod 16)) [0..<16]"

definition mint_request_id :: "u64 \<times> u64 \<Rightarrow> string" where
  "mint_request_id r = ''req_'' @ hex16 (fst r) @ hex16 (snd r)"

section \<open>Audit and usage\<close>

record AuditedRequest =
  a_request_id :: string
  a_identity :: "AuthenticatedContext option"
  a_reason :: "string option"
  a_method :: string
  a_path :: string
  a_model_id :: "string option"
  a_usage :: bool
  a_metrics :: bool

definition write_audit_record :: "rat \<Rightarrow> AuditedRequest \<Rightarrow> nat \<Rightarrow> json" where
  "write_audit_record ts a status = JObject
     [(''ts'', JNumber (Finite ts)),
      (''request_id'', JString (a_request_id a)),
      (''principal'', json_opt (map_option principal_id (a_identity a))),
      (''organization'', json_opt (map_option organization_id (a_identity a))),
      (''reason'', json_opt (a_reason a)),
      (''method'', JString (a_method a)),
      (''path'', JString (a_path a)),
      (''model_id'', json_opt (a_model_id a)),
      (''status'', json_nat status)]"

definition audited_usage :: "surroundings \<Rightarrow> AuditedRequest \<Rightarrow> nat \<Rightarrow> UsageRecord option" where
  "audited_usage e a status = (case (a_usage a, a_identity a) of
       (True, Some identity) \<Rightarrow> Some \<lparr>ur_request_id = a_request_id a, ur_principal = principal_id identity,
          ur_organization = organization_id identity, ur_method = a_method a, ur_path = a_path a,
          ur_model_id = a_model_id a, ur_head_status = status, ur_has_metrics = a_metrics a,
          ur_response_bytes = 0, ur_started_ts = e_started_ts e, ur_has_marker = e_marker e\<rparr>
     | _ \<Rightarrow> None)"

text \<open>\<^verbatim>\<open>audited\<close>: every return path ends here. \<open>permit\<close>: the body holds an admission permit; \<open>sent\<close>: what
  went to the replica.\<close>

definition audited :: "surroundings \<Rightarrow> gateway_state \<Rightarrow> platform_db \<Rightarrow> AuditedRequest \<Rightarrow> resp_body response
    \<Rightarrow> bool \<Rightarrow> request option \<Rightarrow> outcome" where
  "audited e st db a response permit sent =
     \<lparr>o_response = response,
      o_audit = (if gs_audit st then [write_audit_record (e_ts e) a (r_status response)] else []),
      o_usage = audited_usage e a (r_status response),
      o_permit = permit, o_sent = sent, o_state = st, o_platform = db\<rparr>"

section \<open>The handler\<close>

text \<open>The refusal of \<^verbatim>\<open>acquire_selection_capacity\<close>.\<close>

definition capacity_refusal :: "surroundings \<Rightarrow> RoutingRefusal option" where
  "capacity_refusal e = (case e_capacity e of
       CapacityGranted \<Rightarrow> None
     | OrganizationFull \<Rightarrow> Some \<lparr>rr_audit_reason = ''organization_model_selection_overloaded'',
         rr_response = overloaded_response (e_rand_u8 e) ''gateway organization model selection limit reached''\<rparr>
     | GatewayFull \<Rightarrow> Some \<lparr>rr_audit_reason = ''gateway_model_selection_overloaded'',
         rr_response = overloaded_response (e_rand_u8 e) ''gateway model selection limit reached''\<rparr>)"

definition selection_gate :: "surroundings \<Rightarrow> UpstreamRouting \<Rightarrow> request \<Rightarrow> RoutingRefusal option" where
  "selection_gate e routing request = (case catalog_selection routing request of
       None \<Rightarrow> None
     | Some limits \<Rightarrow> (case model_selection_head_refusal (e_lib e) (q_headers request) limits of
           Some refusal \<Rightarrow> Some refusal
         | None \<Rightarrow> capacity_refusal e))"

text \<open>Authentication: the caller, the quota that applies, and whether usage is recorded.\<close>

definition auth_gate :: "surroundings \<Rightarrow> gateway_state \<Rightarrow> request
    \<Rightarrow> (AuthRefusal, AuthenticatedContext option \<times> OrgQuota option \<times> bool) res" where
  "auth_gate e st request = (case gs_auth st of
       RequireToken quota usage \<Rightarrow> and_then (authenticate (e_lib e) (e_resolve e) (q_headers request))
         (\<lambda>identity. Inr (Some identity, quota, usage))
     | Disabled \<Rightarrow> Inr (None, None, False))"

text \<open>The quota charge; the quota it leaves goes back into the state.\<close>

definition charge_quota :: "surroundings \<Rightarrow> AuthenticatedContext option \<Rightarrow> OrgQuota option \<Rightarrow> gateway_state \<Rightarrow> platform_db
    \<Rightarrow> (QuotaRefusal, unit) res \<times> gateway_state \<times> platform_db" where
  "charge_quota e identity quota st db = (case (identity, quota) of
       (Some context, Some q) \<Rightarrow>
         (case org_quota_admit (e_quota_io e) (e_instant e) (e_clock e) (organization_id context) q db of
            (r, q', db') \<Rightarrow> (r, st\<lparr>gs_auth := (case gs_auth st of
                RequireToken _ usage \<Rightarrow> RequireToken (Some q') usage | Disabled \<Rightarrow> Disabled)\<rparr>, db'))
     | _ \<Rightarrow> (Inr (), st, db))"

text \<open>A routed and admitted request goes to its replica; \<open>st\<close> has the permit taken.\<close>

definition forward_request :: "surroundings \<Rightarrow> gateway_state \<Rightarrow> platform_db \<Rightarrow> AuditedRequest \<Rightarrow> request
    \<Rightarrow> UpstreamOrigin \<Rightarrow> outcome" where
  "forward_request e st db a request upstream =
     (case upstream_request_uri (e_from_parts e) upstream (q_uri request) of
        Inl _ \<Rightarrow> audited e (st\<lparr>gs_free := gs_free st + 1\<rparr>) db (a\<lparr>a_reason := Some ''upstream_uri_invalid''\<rparr>)
            (local_response (gateway_error 500 ''gateway could not construct the upstream request'')) False None
      | Inr upstream_uri \<Rightarrow>
          let sent = request\<lparr>q_uri := upstream_uri,
                q_headers := forwarded_head (e_lib e) (uo_authority upstream) (a_request_id a) (q_headers request)\<rparr>;
              a = a\<lparr>a_metrics := a_usage a\<rparr>
          in (case e_client e sent of
                Inl _ \<Rightarrow> audited e (st\<lparr>gs_free := gs_free st + 1\<rparr>) db (a\<lparr>a_reason := Some ''upstream_unavailable''\<rparr>)
                    (local_response (gateway_error 502 ''upstream replica is unavailable'')) False (Some sent)
              | Inr (status, headers, body) \<Rightarrow>
                  let permit = pb_permit (permit_new wire_ended body)
                  in audited e (if permit then st else st\<lparr>gs_free := gs_free st + 1\<rparr>) db a
                    \<lparr>r_status = status, r_headers = remove_hop_by_hop (e_lib e) headers, r_body = ReplicaBody body\<rparr>
                    permit (Some sent)))"

definition proxy_request :: "surroundings \<Rightarrow> gateway_state \<Rightarrow> platform_db \<Rightarrow> request \<Rightarrow> string option \<Rightarrow> outcome" where
  "proxy_request e st db request detail_model_id =
     (let a = \<lparr>a_request_id = mint_request_id (e_random e), a_identity = None, a_reason = None, a_method = q_method request,
               a_path = uri_path (q_uri request), a_model_id = None, a_usage = False, a_metrics = False\<rparr>
      in case auth_gate e st request of
        Inl refusal \<Rightarrow> audited e st db (a\<lparr>a_reason := Some (auth_audit_reason refusal)\<rparr>)
            (local_response (auth_response refusal)) False None
      | Inr (identity, quota, usage) \<Rightarrow>
     (let a = a\<lparr>a_identity := identity\<rparr> in
      case selection_gate e (gs_routing st) request of
        Some refusal \<Rightarrow> audited e st db (a\<lparr>a_reason := Some (rr_audit_reason refusal)\<rparr>)
            (local_response (rr_response refusal)) False None
      | None \<Rightarrow>
     (case resolve_route (e_lib e) (e_parse_json e) (gs_routing st) request detail_model_id of
        Inl refusal \<Rightarrow> audited e st db (a\<lparr>a_reason := Some (rr_audit_reason refusal)\<rparr>)
            (local_response (rr_response refusal)) False None
      | Inr (routed, request) \<Rightarrow>
     (let a = a\<lparr>a_model_id := routed_model_id routed\<rparr> in
      case charge_quota e identity quota st db of
        (Inl (Exceeded retry_after), st, db) \<Rightarrow> audited e st db (a\<lparr>a_reason := Some ''organization_quota_exceeded''\<rparr>)
            (local_response (quota_exceeded retry_after)) False None
      | (Inl (Unavailable _), st, db) \<Rightarrow> audited e st db (a\<lparr>a_reason := Some ''quota_store_unavailable''\<rparr>)
            (local_response (overloaded_response (e_rand_u8 e) ''gateway quota store unavailable'')) False None
      | (Inr _, st, db) \<Rightarrow>
     (let a = a\<lparr>a_usage := usage\<rparr> in
      if gs_free st = 0
      then audited e st db (a\<lparr>a_reason := Some ''gateway_overloaded''\<rparr>)
            (local_response (overloaded_response (e_rand_u8 e) ''gateway concurrency limit reached'')) False None
      else (case routed of
          Local response _ \<Rightarrow> audited e st db a (local_response response) False None
        | Forward upstream _ \<Rightarrow> forward_request e (st\<lparr>gs_free := gs_free st - 1\<rparr>) db a request upstream))))))"

end
