(* ===== verification/GatewayLaws.thy ===== *)
theory GatewayLaws
  imports Gateway HttpLaws BodyLaws CatalogLaws
begin

text \<open>
  The laws of the request handler: nothing reaches a replica unless it was
  authenticated, charged, admitted and routed to a configured origin; a refused
  request costs nothing; every request is audited once and can be joined with the
  replica's own record; permits are conserved; a catalog routes by the one model
  the body names.
\<close>

section \<open>The ways a request can go\<close>

definition base_audit :: "surroundings \<Rightarrow> request \<Rightarrow> AuthenticatedContext option \<Rightarrow> string option \<Rightarrow> string option \<Rightarrow> bool \<Rightarrow> AuditedRequest" where
  "base_audit e request identity model_id reason usage =
     \<lparr>a_request_id = mint_request_id (e_random e), a_identity = identity, a_reason = reason, a_method = q_method request,
      a_path = uri_path (q_uri request), a_model_id = model_id, a_usage = usage, a_metrics = False\<rparr>"

lemma proxy_request_cases:
  obtains (unauthenticated) refusal where "auth_gate e st request = Inl refusal"
      and "proxy_request e st db request detail = audited e st db (base_audit e request None None (Some (auth_audit_reason refusal)) False)
             (local_response (auth_response refusal)) False None"
    | (unselected) identity quota usage refusal where "auth_gate e st request = Inr (identity, quota, usage)"
      and "selection_gate e (gs_routing st) request = Some refusal"
      and "proxy_request e st db request detail = audited e st db (base_audit e request identity None (Some (rr_audit_reason refusal)) False)
             (local_response (rr_response refusal)) False None"
    | (unrouted) identity quota usage refusal where "auth_gate e st request = Inr (identity, quota, usage)"
      and "selection_gate e (gs_routing st) request = None"
      and "resolve_route (e_lib e) (e_parse_json e) (gs_routing st) request detail = Inl refusal"
      and "proxy_request e st db request detail = audited e st db (base_audit e request identity None (Some (rr_audit_reason refusal)) False)
             (local_response (rr_response refusal)) False None"
    | (over_quota) identity quota usage routed request' retry_after st' db' where "auth_gate e st request = Inr (identity, quota, usage)"
      and "selection_gate e (gs_routing st) request = None"
      and "resolve_route (e_lib e) (e_parse_json e) (gs_routing st) request detail = Inr (routed, request')"
      and "charge_quota e identity quota st db = (Inl (Exceeded retry_after), st', db')"
      and "proxy_request e st db request detail = audited e st' db'
             (base_audit e request identity (routed_model_id routed) (Some ''organization_quota_exceeded'') False)
             (local_response (quota_exceeded retry_after)) False None"
    | (quota_down) identity quota usage routed request' error st' db' where "auth_gate e st request = Inr (identity, quota, usage)"
      and "selection_gate e (gs_routing st) request = None"
      and "resolve_route (e_lib e) (e_parse_json e) (gs_routing st) request detail = Inr (routed, request')"
      and "charge_quota e identity quota st db = (Inl (Unavailable error), st', db')"
      and "proxy_request e st db request detail = audited e st' db'
             (base_audit e request identity (routed_model_id routed) (Some ''quota_store_unavailable'') False)
             (local_response (overloaded_response (e_rand_u8 e) ''gateway quota store unavailable'')) False None"
    | (no_permit) identity quota usage routed request' st' db' where "auth_gate e st request = Inr (identity, quota, usage)"
      and "selection_gate e (gs_routing st) request = None"
      and "resolve_route (e_lib e) (e_parse_json e) (gs_routing st) request detail = Inr (routed, request')"
      and "charge_quota e identity quota st db = (Inr (), st', db')" and "gs_free st' = 0"
      and "proxy_request e st db request detail = audited e st' db'
             (base_audit e request identity (routed_model_id routed) (Some ''gateway_overloaded'') usage)
             (local_response (overloaded_response (e_rand_u8 e) ''gateway concurrency limit reached'')) False None"
    | (answered) identity quota usage response model_id request' st' db' where "auth_gate e st request = Inr (identity, quota, usage)"
      and "selection_gate e (gs_routing st) request = None"
      and "resolve_route (e_lib e) (e_parse_json e) (gs_routing st) request detail = Inr (Local response model_id, request')"
      and "charge_quota e identity quota st db = (Inr (), st', db')" and "0 < gs_free st'"
      and "proxy_request e st db request detail = audited e st' db' (base_audit e request identity model_id None usage)
             (local_response response) False None"
    | (forwarded) identity quota usage upstream model_id request' st' db' where "auth_gate e st request = Inr (identity, quota, usage)"
      and "selection_gate e (gs_routing st) request = None"
      and "resolve_route (e_lib e) (e_parse_json e) (gs_routing st) request detail = Inr (Forward upstream model_id, request')"
      and "charge_quota e identity quota st db = (Inr (), st', db')" and "0 < gs_free st'"
      and "proxy_request e st db request detail = forward_request e (st'\<lparr>gs_free := gs_free st' - 1\<rparr>) db'
             (base_audit e request identity model_id None usage) request' upstream"
proof (cases "auth_gate e st request")
  case (Inl refusal)
  then show thesis by (intro unauthenticated) (simp_all add: proxy_request_def base_audit_def Let_def)
next
  case auth: (Inr caller)
  obtain identity quota usage where caller: "caller = (identity, quota, usage)" by (cases caller)
  show thesis
  proof (cases "selection_gate e (gs_routing st) request")
    case (Some refusal)
    with auth caller show thesis by (intro unselected) (simp_all add: proxy_request_def base_audit_def Let_def)
  next
    case gate: None
    show thesis
    proof (cases "resolve_route (e_lib e) (e_parse_json e) (gs_routing st) request detail")
      case (Inl refusal)
      with auth caller gate show thesis by (intro unrouted) (simp_all add: proxy_request_def base_audit_def Let_def)
    next
      case resolved: (Inr r)
      obtain routed request' where r: "r = (routed, request')" by (cases r)
      obtain charge st' db' where charge: "charge_quota e identity quota st db = (charge, st', db')" by (metis surj_pair)
      show thesis
      proof (cases charge)
        case (Inl refused)
        show thesis
        proof (cases refused)
          case (Exceeded retry_after)
          with Inl auth caller gate resolved r charge show thesis
            by (intro over_quota) (simp_all add: proxy_request_def base_audit_def Let_def)
        next
          case (Unavailable error)
          with Inl auth caller gate resolved r charge show thesis
            by (intro quota_down) (simp_all add: proxy_request_def base_audit_def Let_def)
        qed
      next
        case ok: (Inr u)
        show thesis
        proof (cases "gs_free st' = 0")
          case True
          with ok auth caller gate resolved r charge show thesis
            by (intro no_permit) (simp_all add: proxy_request_def base_audit_def Let_def)
        next
          case False
          show thesis
          proof (cases routed)
            case (Forward upstream model_id)
            with False ok auth caller gate resolved r charge show thesis
              by (intro forwarded) (simp_all add: proxy_request_def base_audit_def Let_def)
          next
            case (Local response model_id)
            with False ok auth caller gate resolved r charge show thesis
              by (intro answered) (simp_all add: proxy_request_def base_audit_def Let_def)
          qed
        qed
      qed
    qed
  qed
qed

lemma audited_simps [simp]:
  "o_response (audited e st db a r p s) = r" "o_permit (audited e st db a r p s) = p" "o_sent (audited e st db a r p s) = s"
  "o_state (audited e st db a r p s) = st" "o_platform (audited e st db a r p s) = db"
  "o_audit (audited e st db a r p s) = (if gs_audit st then [write_audit_record (e_ts e) a (r_status r)] else [])"
  "o_usage (audited e st db a r p s) = audited_usage e a (r_status r)"
  by (simp_all add: audited_def)

lemma charge_quota_keeps:
  "charge_quota e identity quota st db = (r, st', db') \<Longrightarrow>
     gs_free st' = gs_free st \<and> gs_routing st' = gs_routing st \<and> gs_audit st' = gs_audit st"
  by (auto simp: charge_quota_def split: option.splits prod.splits)

section \<open>Routing by the named model\<close>

text \<open>The values an object gives to \<open>model\<close>.\<close>

definition model_members :: "(string \<times> json) list \<Rightarrow> json list" where
  "model_members entries = map snd (filter (\<lambda>e. fst e = ''model'') entries)"

lemma model_members_simps [simp]:
  "model_members [] = []"
  "model_members ((key, v) # entries) = (if key = ''model'' then [v] else []) @ model_members entries"
  by (simp_all add: model_members_def)

lemma visit_map_seen: "visit_map entries (Some x) = Inr y \<longleftrightarrow> model_members entries = [] \<and> y = x"
  by (induction entries "Some x" rule: visit_map.induct) auto

lemma visit_map_unseen: "visit_map entries None = Inr (Some m) \<longleftrightarrow> model_members entries = [JString m]"
proof (induction entries)
  case (Cons e entries)
  then show ?case by (cases e; cases "snd e") (auto simp: visit_map_seen)
qed simp

lemma model_selection_of_Some:
  "model_selection_of parse_json body = Inr (Some m) \<longleftrightarrow>
     (\<exists>entries. parse_json body = Inr (JObject entries) \<and> model_members entries = [JString m])"
proof (cases "parse_json body")
  case (Inr v)
  then show ?thesis by (cases v) (simp_all add: model_selection_of_def visit_map_unseen)
qed (simp add: model_selection_of_def)

lemma read_body_ok: "read_body limit body = InTime (Inr bytes) \<longleftrightarrow> body = Arrives bytes \<and> length bytes \<le> limit"
  by (cases body) auto

lemma select_catalog_upstream_iff:
  "select_catalog_upstream lib parse_json catalog request limits = Inr (routed, request') \<longleftrightarrow>
     model_selection_head_refusal lib (q_headers request) limits = None
   \<and> (\<exists>body entries model_id upstream. q_body request = Arrives body \<and> length body \<le> max_body_bytes limits
        \<and> parse_json body = Inr (JObject entries) \<and> model_members entries = [JString model_id] \<and> model_id \<noteq> []
        \<and> map_of catalog model_id = Some upstream
        \<and> routed = Forward upstream (Some model_id) \<and> request' = request)" (is "?l \<longleftrightarrow> ?r")
proof
  assume l: ?l
  have head: "model_selection_head_refusal lib (q_headers request) limits = None"
    using l by (cases "model_selection_head_refusal lib (q_headers request) limits") (simp_all add: select_catalog_upstream_def)
  obtain body where body: "read_body (max_body_bytes limits) (q_body request) = InTime (Inr body)"
  proof (cases "read_body (max_body_bytes limits) (q_body request)")
    case (InTime r)
    with l head that show thesis by (cases r) (simp_all add: select_catalog_upstream_def split: body_error.splits)
  qed (use l head in \<open>simp add: select_catalog_upstream_def\<close>)
  obtain model where model: "model_selection_of parse_json body = Inr model"
    using l head body by (cases "model_selection_of parse_json body") (simp_all add: select_catalog_upstream_def)
  obtain model_id where id: "model = Some model_id" "model_id \<noteq> []"
    using l head body model by (cases model) (auto simp: select_catalog_upstream_def split: if_splits)
  obtain upstream where upstream: "map_of catalog model_id = Some upstream"
    using l head body model id by (cases "map_of catalog model_id") (simp_all add: select_catalog_upstream_def catalog_route_def)
  have arrives: "q_body request = Arrives body" "length body \<le> max_body_bytes limits" using body by (simp_all add: read_body_ok)
  then have "request\<lparr>q_body := Arrives body\<rparr> = request" by simp
  with l head body model id upstream have "routed = Forward upstream (Some model_id) \<and> request' = request"
    by (simp add: select_catalog_upstream_def catalog_route_def)
  with head arrives model id upstream show ?r by (auto simp: model_selection_of_Some)
next
  assume ?r
  then obtain body entries model_id upstream where "model_selection_head_refusal lib (q_headers request) limits = None"
    and "q_body request = Arrives body" "length body \<le> max_body_bytes limits"
    and "model_selection_of parse_json body = Inr (Some model_id)" "model_id \<noteq> []" "map_of catalog model_id = Some upstream"
    and "routed = Forward upstream (Some model_id)" "request' = request"
    by (auto simp: model_selection_of_Some)
  then show ?l by (simp add: select_catalog_upstream_def catalog_route_def)
qed

text \<open>Property C4: catalog mode routes by the one model the body names. A generation request is routed
  exactly when its content type is JSON, its declared and its actual length are within the limit, its body
  arrives whole and is a JSON object with exactly one \<open>model\<close> member, a non-empty string that is a
  catalog id; it goes to that id's own upstream, under that id, with its bytes unchanged. A body that
  names two models, none, or one inside an array is refused.\<close>

theorem catalog_routes_by_the_named_model:
  assumes "is_catalog_generation_route request"
  shows "resolve_route lib parse_json (Catalog catalog limits) request detail = Inr (routed, request') \<longleftrightarrow>
     has_json_content_type lib (q_headers request)
   \<and> (case declared_content_length lib (q_headers request) of Some n \<Rightarrow> n \<le> max_body_bytes limits | None \<Rightarrow> True)
   \<and> (\<exists>body entries model_id upstream. q_body request = Arrives body \<and> length body \<le> max_body_bytes limits
        \<and> parse_json body = Inr (JObject entries) \<and> model_members entries = [JString model_id] \<and> model_id \<noteq> []
        \<and> map_of catalog model_id = Some upstream
        \<and> routed = Forward upstream (Some model_id) \<and> request' = request)"
proof -
  have "resolve_route lib parse_json (Catalog catalog limits) request detail = select_catalog_upstream lib parse_json catalog request limits"
    using assms by (simp add: resolve_route_def is_catalog_generation_route_def Let_def)
  moreover have "model_selection_head_refusal lib (q_headers request) limits = None \<longleftrightarrow> has_json_content_type lib (q_headers request)
      \<and> (case declared_content_length lib (q_headers request) of Some n \<Rightarrow> n \<le> max_body_bytes limits | None \<Rightarrow> True)"
    by (auto simp: model_selection_head_refusal_def split: option.splits)
  ultimately show ?thesis by (simp only: select_catalog_upstream_iff conj_assoc)
qed

section \<open>What reaches a replica\<close>

definition configured_upstream :: "UpstreamRouting \<Rightarrow> UpstreamOrigin \<Rightarrow> bool" where
  "configured_upstream routing upstream \<longleftrightarrow> (case routing of
       Passthrough origin \<Rightarrow> upstream = origin
     | Catalog catalog _ \<Rightarrow> upstream \<in> snd ` set catalog)"

lemma resolve_route_forward:
  assumes "resolve_route lib parse_json routing request detail = Inr (Forward upstream model_id, request')"
  shows "request' = request \<and> configured_upstream routing upstream"
proof (cases routing)
  case (Passthrough origin)
  with assms show ?thesis by (simp add: resolve_route_def configured_upstream_def)
next
  case (Catalog catalog limits)
  have "select_catalog_upstream lib parse_json catalog request limits = Inr (Forward upstream model_id, request')"
    using assms Catalog by (auto simp: resolve_route_def Let_def split: if_splits option.splits)
  with Catalog show ?thesis
    by (auto simp: select_catalog_upstream_iff configured_upstream_def dest!: map_of_SomeD intro: rev_image_eqI)
qed

lemma forward_request_sent:
  "o_sent (forward_request e st db a request upstream) = Some sent \<longleftrightarrow>
     (\<exists>u. upstream_request_uri (e_from_parts e) upstream (q_uri request) = Inr u
        \<and> sent = request\<lparr>q_uri := u, q_headers := forwarded_head (e_lib e) (uo_authority upstream) (a_request_id a) (q_headers request)\<rparr>)"
  by (auto simp: forward_request_def Let_def split: sum.splits prod.splits)

lemma auth_gate_ok:
  "auth_gate e st request = Inr (identity, quota, usage) \<longleftrightarrow>
     (case gs_auth st of
        Disabled \<Rightarrow> identity = None \<and> quota = None \<and> \<not> usage
      | RequireToken q u \<Rightarrow> quota = q \<and> usage = u \<and> (\<exists>token context. bearer_token (e_lib e) (q_headers request) = Some token
            \<and> e_resolve e token = Inr context \<and> identity = Some context))"
  by (auto simp: auth_gate_def authenticate_def and_then_Inr_iff map_err_Inr_iff split: GatewayAuth.splits option.splits)

text \<open>Property C1: nothing reaches a replica unchecked. Whenever the handler sends a request upstream, an
  admission permit was free; if the gateway requires tokens the request carried one that the store
  resolves to a caller, and if a quota is configured that caller's organization was charged and admitted;
  the destination is the configured origin or, with a catalog, one of its entries; the path, the query,
  the method and the body are the client's own; and the head is the cleaned head with this gateway's
  correlation id.\<close>

theorem nothing_reaches_a_replica_unchecked:
  assumes "o_sent (proxy_request e st db request detail) = Some sent"
  shows "0 < gs_free st
   \<and> (case gs_auth st of Disabled \<Rightarrow> True
      | RequireToken quota usage \<Rightarrow> \<exists>token context. bearer_token (e_lib e) (q_headers request) = Some token
          \<and> e_resolve e token = Inr context
          \<and> (case quota of None \<Rightarrow> True | Some q \<Rightarrow>
               fst (org_quota_admit (e_quota_io e) (e_instant e) (e_clock e) (organization_id context) q db) = Inr ()))
   \<and> (\<exists>upstream. configured_upstream (gs_routing st) upstream
        \<and> e_from_parts e \<lparr>u_scheme = Some (uo_scheme upstream), u_authority = Some (uo_authority upstream),
              u_path_and_query = u_path_and_query (q_uri request)\<rparr> = Inr (q_uri sent)
        \<and> q_headers sent = forwarded_head (e_lib e) (uo_authority upstream) (mint_request_id (e_random e)) (q_headers request))
   \<and> q_method sent = q_method request \<and> q_body sent = q_body request"
proof (cases rule: proxy_request_cases [of e st request db detail])
  case (forwarded identity quota usage upstream model_id request' st' db')
  note same = resolve_route_forward [OF forwarded(3)]
  have "gs_free st' = gs_free st" using charge_quota_keeps [OF forwarded(4)] by simp
  moreover have "case gs_auth st of Disabled \<Rightarrow> True
      | RequireToken quota usage \<Rightarrow> \<exists>token context. bearer_token (e_lib e) (q_headers request) = Some token
          \<and> e_resolve e token = Inr context
          \<and> (case quota of None \<Rightarrow> True | Some q \<Rightarrow>
               fst (org_quota_admit (e_quota_io e) (e_instant e) (e_clock e) (organization_id context) q db) = Inr ())"
    using forwarded(1,4) by (auto simp: auth_gate_ok charge_quota_def split: GatewayAuth.splits option.splits prod.splits)
  moreover obtain u where u: "upstream_request_uri (e_from_parts e) upstream (q_uri request) = Inr u"
    and "sent = request\<lparr>q_uri := u, q_headers := forwarded_head (e_lib e) (uo_authority upstream) (mint_request_id (e_random e)) (q_headers request)\<rparr>"
    using assms forwarded(6) same by (auto simp: forward_request_sent base_audit_def)
  ultimately show ?thesis
    using forwarded(5) same by (auto simp: upstream_request_uri_def)
qed (use assms in simp_all)

section \<open>Permits and costs\<close>

text \<open>Also: the handler neither loses nor makes admission permits. Whatever happens to a request, the
  permits free afterwards and the one its response body holds are the permits that were free before; a
  body holds one only if it is a replica's body that has not ended.\<close>

theorem admission_permits_are_conserved:
  "gs_free (o_state (proxy_request e st db request detail))
     + (if o_permit (proxy_request e st db request detail) then 1 else 0) = gs_free st
   \<and> (o_permit (proxy_request e st db request detail) \<longleftrightarrow>
        (case r_body (o_response (proxy_request e st db request detail)) of ReplicaBody body \<Rightarrow> \<not> wire_ended body | JsonBody _ \<Rightarrow> False))"
proof (cases rule: proxy_request_cases [of e st request db detail])
  case (forwarded identity quota usage upstream model_id request' st' db')
  with charge_quota_keeps [OF forwarded(4)] show ?thesis
    by (auto simp: forward_request_def Let_def local_response_def permit_new_def split: sum.splits prod.splits)
qed (auto dest: charge_quota_keeps simp: local_response_def)

text \<open>Also: a refused request costs nothing. A request that fails authentication, model selection or
  routing leaves the quota, the shared store and the permits as they were, reaches no replica, holds no
  permit and owes no usage record; and one that fails authentication is refused before any selector
  capacity or body is looked at.\<close>

theorem refused_requests_cost_nothing:
  assumes "(\<exists>refusal. auth_gate e st request = Inl refusal) \<or> selection_gate e (gs_routing st) request \<noteq> None
     \<or> (\<exists>refusal. resolve_route (e_lib e) (e_parse_json e) (gs_routing st) request detail = Inl refusal)"
  shows "o_state (proxy_request e st db request detail) = st \<and> o_platform (proxy_request e st db request detail) = db
       \<and> o_sent (proxy_request e st db request detail) = None \<and> \<not> o_permit (proxy_request e st db request detail)
       \<and> o_usage (proxy_request e st db request detail) = None
       \<and> (\<forall>refusal. auth_gate e st request = Inl refusal \<longrightarrow>
            o_response (proxy_request e st db request detail) = local_response (auth_response refusal))"
  by (cases rule: proxy_request_cases [of e st request db detail]) (use assms in \<open>auto simp: audited_usage_def base_audit_def\<close>)

section \<open>Records\<close>

definition member :: "string \<Rightarrow> json \<Rightarrow> json option" where
  "member key v = (case v of JObject ms \<Rightarrow> map_of ms key | _ \<Rightarrow> None)"

definition caller :: "surroundings \<Rightarrow> gateway_state \<Rightarrow> request \<Rightarrow> AuthenticatedContext option" where
  "caller e st request = (case auth_gate e st request of Inr (identity, _) \<Rightarrow> identity | Inl _ \<Rightarrow> None)"

text \<open>What every audit line of a request says, given what it says of the reason and the model.\<close>

lemma audit_line_members:
  assumes "a_request_id a = mint_request_id (e_random e)" and "a_identity a = caller e st request"
    and "a_path a = uri_path (q_uri request)" and "line = write_audit_record ts a status"
  shows "member ''request_id'' line = Some (JString (mint_request_id (e_random e)))
       \<and> member ''status'' line = Some (json_nat status)
       \<and> member ''path'' line = Some (JString (uri_path (q_uri request)))
       \<and> member ''principal'' line = Some (json_opt (map_option principal_id (caller e st request)))
       \<and> member ''organization'' line = Some (json_opt (map_option organization_id (caller e st request)))
       \<and> member ''reason'' line = Some (json_opt (a_reason a))"
  using assms by (simp add: write_audit_record_def member_def)

text \<open>What an outcome records: the audit line \<open>line\<close>, and the usage record when one is owed.\<close>

definition records :: "surroundings \<Rightarrow> gateway_state \<Rightarrow> request \<Rightarrow> outcome \<Rightarrow> json \<Rightarrow> bool" where
  "records e st request out line \<longleftrightarrow>
     o_audit out = (if gs_audit st then [line] else [])
   \<and> member ''request_id'' line = Some (JString (mint_request_id (e_random e)))
   \<and> member ''status'' line = Some (json_nat (r_status (o_response out)))
   \<and> member ''path'' line = Some (JString (uri_path (q_uri request)))
   \<and> member ''principal'' line = Some (json_opt (map_option principal_id (caller e st request)))
   \<and> member ''organization'' line = Some (json_opt (map_option organization_id (caller e st request)))
   \<and> (case o_usage out of None \<Rightarrow> True | Some r \<Rightarrow> ur_request_id r = mint_request_id (e_random e)
        \<and> ur_head_status r = r_status (o_response out)
        \<and> map_option principal_id (caller e st request) = Some (ur_principal r)
        \<and> map_option organization_id (caller e st request) = Some (ur_organization r))"

lemma audited_records:
  assumes "a_request_id a = mint_request_id (e_random e)" and "a_identity a = caller e st request"
    and "a_path a = uri_path (q_uri request)" and "gs_audit st' = gs_audit st"
  shows "records e st request (audited e st' db a response permit sent) (write_audit_record (e_ts e) a (r_status response))"
  using audit_line_members [OF assms(1-3) refl, of "e_ts e" "r_status response"] assms
  by (auto simp: records_def audited_usage_def split: option.splits bool.splits)

lemma replica_id: "get_all ''x-camelid-request-id'' (forwarded_head lib authority request_id headers) = [request_id]"
  by (simp add: forwarded_head_def REQUEST_ID_HEADER_def)

text \<open>What joins an outcome with the replica's record of it.\<close>

definition joined :: "surroundings \<Rightarrow> gateway_state \<Rightarrow> request \<Rightarrow> string option \<Rightarrow> outcome \<Rightarrow> bool" where
 "joined e st request detail out = (let response = o_response out in
   \<exists>line. records e st request out line
     \<and> (case o_sent out of None \<Rightarrow> True
        | Some sent \<Rightarrow> get_all ''x-camelid-request-id'' (q_headers sent) = [mint_request_id (e_random e)])
     \<and> (case r_body response of
          ReplicaBody body \<Rightarrow> member ''reason'' line = Some JNull \<and> (\<exists>sent headers. o_sent out = Some sent
            \<and> e_client e sent = Inr (r_status response, headers, body)
            \<and> r_headers response = remove_hop_by_hop (e_lib e) headers)
        | JsonBody _ \<Rightarrow> member ''reason'' line = Some JNull \<longrightarrow> o_sent out = None
            \<and> (\<exists>answer model_id request'. response = local_response answer \<and>
                 resolve_route (e_lib e) (e_parse_json e) (gs_routing st) request detail = Inr (Local answer model_id, request'))))"

lemma joined_refused:
  assumes "identity = caller e st request" and "gs_audit st' = gs_audit st"
  shows "joined e st request detail (audited e st' db' (base_audit e request identity model_id (Some why) usage) (local_response answer) False None)"
proof -
  let ?a = "base_audit e request identity model_id (Some why) usage"
  have "records e st request (audited e st' db' ?a (local_response answer) False None) (write_audit_record (e_ts e) ?a (r_status (local_response answer)))"
    by (rule audited_records) (simp_all add: base_audit_def assms)
  then show ?thesis unfolding joined_def Let_def
    by (intro exI) (auto simp: local_response_def write_audit_record_def member_def base_audit_def json_opt_def)
qed

lemma joined_answered:
  assumes "identity = caller e st request" and "gs_audit st' = gs_audit st"
    and "resolve_route (e_lib e) (e_parse_json e) (gs_routing st) request detail = Inr (Local response model_id, request')"
  shows "joined e st request detail (audited e st' db' (base_audit e request identity model_id None usage) (local_response response) False None)"
proof -
  let ?a = "base_audit e request identity model_id None usage"
  have "records e st request (audited e st' db' ?a (local_response response) False None) (write_audit_record (e_ts e) ?a (r_status (local_response response)))"
    by (rule audited_records) (simp_all add: base_audit_def assms)
  then show ?thesis unfolding joined_def Let_def using assms(3) by (intro exI) (auto simp: local_response_def)
qed

lemma joined_forward:
  assumes id: "identity = caller e st request" and audit: "gs_audit st' = gs_audit st"
  shows "joined e st request detail (forward_request e st' db' (base_audit e request identity model_id None usage) request upstream)"
proof (cases "upstream_request_uri (e_from_parts e) upstream (q_uri request)")
  case (Inl error)
  let ?a = "base_audit e request identity model_id (Some ''upstream_uri_invalid'') usage"
  have "(base_audit e request identity model_id None usage)\<lparr>a_reason := Some ''upstream_uri_invalid''\<rparr> = ?a" by (simp add: base_audit_def)
  then show ?thesis using Inl id audit by (simp add: forward_request_def joined_refused)
next
  case (Inr u)
  let ?a = "base_audit e request identity model_id None usage"
  let ?sent = "request\<lparr>q_uri := u, q_headers := forwarded_head (e_lib e) (uo_authority upstream) (mint_request_id (e_random e)) (q_headers request)\<rparr>"
  have rid: "a_request_id ?a = mint_request_id (e_random e)" by (simp add: base_audit_def)
  show ?thesis
  proof (cases "e_client e ?sent")
    case down: (Inl error)
    let ?b = "?a\<lparr>a_metrics := a_usage ?a, a_reason := Some ''upstream_unavailable''\<rparr>"
    let ?r = "local_response (gateway_error 502 ''upstream replica is unavailable'')"
    have "records e st request (audited e (st'\<lparr>gs_free := gs_free st' + 1\<rparr>) db' ?b ?r False (Some ?sent)) (write_audit_record (e_ts e) ?b (r_status ?r))"
      by (rule audited_records) (simp_all add: base_audit_def id audit)
    then show ?thesis
      unfolding joined_def Let_def using Inr down rid
      by (intro exI) (auto simp: forward_request_def local_response_def write_audit_record_def member_def json_opt_def replica_id Let_def)
  next
    case up: (Inr answer)
    obtain status headers body where answer: "answer = (status, headers, body)" by (cases answer)
    let ?b = "?a\<lparr>a_metrics := a_usage ?a\<rparr>" and ?p = "pb_permit (permit_new wire_ended body)"
    let ?r = "\<lparr>r_status = status, r_headers = remove_hop_by_hop (e_lib e) headers, r_body = ReplicaBody body\<rparr>"
    have "records e st request (audited e (if ?p then st' else st'\<lparr>gs_free := gs_free st' + 1\<rparr>) db' ?b ?r ?p (Some ?sent)) (write_audit_record (e_ts e) ?b (r_status ?r))"
      by (rule audited_records) (simp_all add: base_audit_def id audit)
    then show ?thesis
      unfolding joined_def Let_def using Inr up rid answer
      by (intro exI) (auto simp: forward_request_def write_audit_record_def member_def json_opt_def replica_id Let_def base_audit_def)
  qed
qed

text \<open>Property C33: the gateway's record of a request joins with the replica's. Every handled request yields one
  audit line, and none when auditing is off; it carries the correlation id this gateway minted, the
  status the client is sent, the path without the query, and the caller that authentication
  established, if any; a usage record owed for it carries the same id, status and caller. A request sent
  to a replica carries exactly that id. The line has no refusal reason precisely when the response is the
  replica's own answer, passed on with its status, its body and its end-to-end headers, or the
  catalog's.\<close>

theorem audit_joins_with_the_replica:
  "let out = proxy_request e st db request detail; response = o_response out in
   \<exists>line. records e st request out line
     \<and> (case o_sent out of None \<Rightarrow> True
        | Some sent \<Rightarrow> get_all ''x-camelid-request-id'' (q_headers sent) = [mint_request_id (e_random e)])
     \<and> (case r_body response of
          ReplicaBody body \<Rightarrow> member ''reason'' line = Some JNull \<and> (\<exists>sent headers. o_sent out = Some sent
            \<and> e_client e sent = Inr (r_status response, headers, body)
            \<and> r_headers response = remove_hop_by_hop (e_lib e) headers)
        | JsonBody _ \<Rightarrow> member ''reason'' line = Some JNull \<longrightarrow> o_sent out = None
            \<and> (\<exists>answer model_id request'. response = local_response answer \<and>
                 resolve_route (e_lib e) (e_parse_json e) (gs_routing st) request detail = Inr (Local answer model_id, request')))"
proof -
  have "joined e st request detail (proxy_request e st db request detail)"
  proof (cases rule: proxy_request_cases [of e st request db detail])
    case (unauthenticated refusal)
    show ?thesis unfolding unauthenticated(2) using unauthenticated(1) by (intro joined_refused) (simp_all add: caller_def)
  next
    case (unselected identity quota usage refusal)
    show ?thesis unfolding unselected(3) using unselected(1) by (intro joined_refused) (simp_all add: caller_def)
  next
    case (unrouted identity quota usage refusal)
    show ?thesis unfolding unrouted(4) using unrouted(1) by (intro joined_refused) (simp_all add: caller_def)
  next
    case (over_quota identity quota usage routed request' retry_after st' db')
    show ?thesis unfolding over_quota(5) using over_quota(1) charge_quota_keeps [OF over_quota(4)] by (intro joined_refused) (simp_all add: caller_def)
  next
    case (quota_down identity quota usage routed request' error st' db')
    show ?thesis unfolding quota_down(5) using quota_down(1) charge_quota_keeps [OF quota_down(4)] by (intro joined_refused) (simp_all add: caller_def)
  next
    case (no_permit identity quota usage routed request' st' db')
    show ?thesis unfolding no_permit(6) using no_permit(1) charge_quota_keeps [OF no_permit(4)] by (intro joined_refused) (simp_all add: caller_def)
  next
    case (answered identity quota usage response model_id request' st' db')
    show ?thesis unfolding answered(6) using answered(1,3) charge_quota_keeps [OF answered(4)]
      by (intro joined_answered) (simp_all add: caller_def)
  next
    case (forwarded identity quota usage upstream model_id request' st' db')
    show ?thesis unfolding forwarded(6) using forwarded(1) charge_quota_keeps [OF forwarded(4)] resolve_route_forward [OF forwarded(3)]
      by (simp add: joined_forward caller_def)
  qed
  then show ?thesis by (simp only: joined_def Let_def)
qed

section \<open>Concrete instances\<close>

definition demo_origin :: UpstreamOrigin where
  "demo_origin = \<lparr>uo_scheme = ''http'', uo_authority = ''replica:8080''\<rparr>"

definition demo_generation :: request where
  "demo_generation = \<lparr>q_method = ''POST'',
     q_uri = \<lparr>u_scheme = None, u_authority = None, u_path_and_query = Some (''/v1/completions'', None)\<rparr>,
     q_headers = [(''content-type'', ''application/json''), (''authorization'', ''Bearer s3cret''), (''te'', ''gzip'')],
     q_body = Arrives ''{}''\<rparr>"

definition demo_surroundings :: surroundings where
  "demo_surroundings = \<lparr>e_lib = demo_lib, e_resolve = (\<lambda>_. Inr \<lparr>principal_id = ''user_1'', organization_id = ''org_1''\<rparr>),
     e_capacity = CapacityGranted, e_parse_json = (\<lambda>_. Inr (JObject [(''model'', JString ''m''), (''n'', JNull)])),
     e_from_parts = Inr, e_quota_io = IoOk, e_instant = 10, e_clock = 10, e_rand_u8 = (\<lambda>low _. low), e_random = (1, 2),
     e_client = (\<lambda>_. Inr (200, [(''connection'', ''close'')], \<lparr>wire_polls = [Frame (Data ''hi'')], wire_hint = False\<rparr>)),
     e_started_ts = 1, e_ts = 2, e_marker = True\<rparr>"

definition demo_gateway :: gateway_state where
  "demo_gateway = \<lparr>gs_routing = Catalog [(''m'', demo_origin)] demo_limits, gs_free = 1,
     gs_auth = RequireToken (Some (org_quota_new 1 60)) True, gs_audit = True\<rparr>"

definition demo_sent :: request where
  "demo_sent = demo_generation\<lparr>q_uri := \<lparr>u_scheme = Some ''http'', u_authority = Some ''replica:8080'',
       u_path_and_query = Some (''/v1/completions'', None)\<rparr>,
     q_headers := forwarded_head demo_lib ''replica:8080'' (mint_request_id (1, 2)) (q_headers demo_generation)\<rparr>"

lemma demo_headers:
  "has_json_content_type demo_lib (q_headers demo_generation)"
  "declared_content_length demo_lib (q_headers demo_generation) = None"
  by code_simp+

lemma demo_head: "model_selection_head_refusal demo_lib (q_headers demo_generation) demo_limits = None"
  by (simp add: model_selection_head_refusal_def demo_headers)

lemma demo_token: "bearer_token demo_lib (q_headers demo_generation) = Some ''s3cret''"
  by code_simp

lemma demo_is_generation: "is_catalog_generation_route demo_generation"
  by (simp add: is_catalog_generation_route_def demo_generation_def uri_path_def)

lemma demo_route:
  "resolve_route demo_lib (e_parse_json demo_surroundings) (Catalog [(''m'', demo_origin)] demo_limits) demo_generation None
     = Inr (Forward demo_origin (Some ''m''), demo_generation)"
proof -
  have "select_catalog_upstream demo_lib (e_parse_json demo_surroundings) [(''m'', demo_origin)] demo_generation demo_limits
      = Inr (Forward demo_origin (Some ''m''), demo_generation)"
    unfolding select_catalog_upstream_iff using demo_head
    by (simp add: demo_generation_def demo_limits_def demo_surroundings_def)
  then show ?thesis using demo_is_generation by (simp add: resolve_route_def is_catalog_generation_route_def)
qed

lemma demo_auth:
  "auth_gate demo_surroundings demo_gateway demo_generation =
     Inr (Some \<lparr>principal_id = ''user_1'', organization_id = ''org_1''\<rparr>, Some (org_quota_new 1 60), True)"
  unfolding auth_gate_ok using demo_token by (simp add: demo_gateway_def demo_surroundings_def)

lemma demo_gate: "selection_gate demo_surroundings (gs_routing demo_gateway) demo_generation = None"
  using demo_head demo_is_generation
  by (simp add: selection_gate_def catalog_selection_def demo_gateway_def demo_surroundings_def capacity_refusal_def)

definition demo_charged :: gateway_state where
  "demo_charged = demo_gateway\<lparr>gs_auth := RequireToken (Some (InProcess ((in_process_new 1 60)
     \<lparr>ipq_windows := [''org_1'' \<mapsto> \<lparr>started_at = 10, ow_count = 1\<rparr>]\<rparr>))) True\<rparr>"

lemma demo_charge:
  "charge_quota demo_surroundings (Some \<lparr>principal_id = ''user_1'', organization_id = ''org_1''\<rparr>) (Some (org_quota_new 1 60))
     demo_gateway empty_platform_db = (Inr (), demo_charged, empty_platform_db)"
  by (simp add: charge_quota_def org_quota_admit_def org_quota_new_def in_process_new_def in_process_admit_def retain_live_def
      admit_window_def duration_since_def demo_surroundings_def demo_charged_def demo_gateway_def)

lemma demo_charged_free: "gs_free demo_charged = 1"
  by (simp add: demo_charged_def demo_gateway_def)

lemma demo_outcome:
  "o_sent (proxy_request demo_surroundings demo_gateway empty_platform_db demo_generation None) = Some demo_sent"
  "r_body (o_response (proxy_request demo_surroundings demo_gateway empty_platform_db demo_generation None))
     = ReplicaBody \<lparr>wire_polls = [Frame (Data ''hi'')], wire_hint = False\<rparr>"
proof -
  have routed: "resolve_route (e_lib demo_surroundings) (e_parse_json demo_surroundings) (gs_routing demo_gateway) demo_generation None
      = Inr (Forward demo_origin (Some ''m''), demo_generation)"
    using demo_route by (simp add: demo_gateway_def demo_surroundings_def)
  have "proxy_request demo_surroundings demo_gateway empty_platform_db demo_generation None =
      forward_request demo_surroundings (demo_charged\<lparr>gs_free := 0\<rparr>) empty_platform_db
        (base_audit demo_surroundings demo_generation (Some \<lparr>principal_id = ''user_1'', organization_id = ''org_1''\<rparr>) (Some ''m'') None True)
        demo_generation demo_origin"
    unfolding proxy_request_def Let_def demo_auth
    by (simp add: demo_gate routed demo_charge [simplified] demo_charged_free base_audit_def)
  then show "o_sent (proxy_request demo_surroundings demo_gateway empty_platform_db demo_generation None) = Some demo_sent"
    and "r_body (o_response (proxy_request demo_surroundings demo_gateway empty_platform_db demo_generation None))
      = ReplicaBody \<lparr>wire_polls = [Frame (Data ''hi'')], wire_hint = False\<rparr>"
    by (simp_all add: forward_request_def Let_def upstream_request_uri_def demo_surroundings_def demo_origin_def demo_sent_def
        demo_generation_def base_audit_def)
qed

theorem catalog_routes_by_the_named_model_witness:
  "has_json_content_type demo_lib (q_headers demo_generation)"
  using catalog_routes_by_the_named_model [OF demo_is_generation, of demo_lib "e_parse_json demo_surroundings"
      "[(''m'', demo_origin)]" demo_limits None "Forward demo_origin (Some ''m'')" demo_generation] demo_route
  by (rule iffD1 [THEN conjunct1])

theorem nothing_reaches_a_replica_unchecked_witness: "0 < gs_free demo_gateway \<and> q_body demo_sent = Arrives ''{}''"
  using nothing_reaches_a_replica_unchecked [OF demo_outcome(1)] by (simp add: demo_generation_def)

theorem refused_requests_cost_nothing_witness:
  "o_state (proxy_request demo_surroundings demo_gateway empty_platform_db (demo_generation\<lparr>q_headers := []\<rparr>) None) = demo_gateway"
proof -
  have "auth_gate demo_surroundings demo_gateway (demo_generation\<lparr>q_headers := []\<rparr>) = Inl MissingToken"
    by (simp add: auth_gate_def authenticate_def demo_gateway_def bearer_token_def)
  then show ?thesis using refused_requests_cost_nothing [of demo_surroundings demo_gateway] by blast
qed

theorem audit_joins_with_the_replica_witness:
  "get_all ''x-camelid-request-id'' (q_headers demo_sent) = [mint_request_id (1, 2)]"
proof -
  have "e_random demo_surroundings = (1, 2)" by (simp add: demo_surroundings_def)
  then show ?thesis
    using audit_joins_with_the_replica [of demo_surroundings demo_gateway empty_platform_db demo_generation None]
    by (auto simp: demo_outcome Let_def)
qed

end
