(* ===== verification/Utf8.thy ===== *)
theory Utf8
  imports Prelude
begin

text \<open>
  UTF-8 as Rust's \<^verbatim>\<open>str\<close> has it. A string here is its bytes, each a \<^typ>\<open>char\<close>;
  \<open>utf8_next\<close> is one turn of \<^verbatim>\<open>core::str::from_utf8\<close>: a scalar of one to four
  bytes, a malformed sequence with its \<^verbatim>\<open>error_len\<close>, or a sequence cut off by the end
  of the input. From it come the validity test, \<^verbatim>\<open>valid_up_to\<close> and the lossy reading.
  The lemmas say how a valid prefix grows as bytes arrive, which incremental
  decoding relies on.
\<close>

datatype utf8_step = Scalar nat | Malformed nat | CutOff

definition between :: "nat \<Rightarrow> nat \<Rightarrow> char \<Rightarrow> bool" where
  "between low high c \<longleftrightarrow> low \<le> char_code c \<and> char_code c \<le> high"

definition continuation :: "char \<Rightarrow> bool" where
  "continuation c \<longleftrightarrow> between 0x80 0xBF c"

text \<open>The range of the second byte, by the first.\<close>

definition second_byte_ok :: "char \<Rightarrow> char \<Rightarrow> bool" where
  "second_byte_ok a b \<longleftrightarrow>
     (let n = char_code a in
        if n = 0xE0 then between 0xA0 0xBF b
        else if n = 0xED then between 0x80 0x9F b
        else if n = 0xF0 then between 0x90 0xBF b
        else if n = 0xF4 then between 0x80 0x8F b
        else continuation b)"

definition utf8_width :: "char \<Rightarrow> nat" where
  "utf8_width c = (let n = char_code c in
     if n < 0x80 then 1 else if n < 0xC2 then 0 else if n \<le> 0xDF then 2 else if n \<le> 0xEF then 3
     else if n \<le> 0xF4 then 4 else 0)"

text \<open>\<open>utf8_rest n k bytes\<close>: \<open>k\<close> bytes of the sequence are read, \<open>n\<close> continuation bytes are due.\<close>

fun utf8_rest :: "nat \<Rightarrow> nat \<Rightarrow> string \<Rightarrow> utf8_step" where
  "utf8_rest 0 k bytes = Scalar k"
| "utf8_rest (Suc n) k [] = CutOff"
| "utf8_rest (Suc n) k (b # bytes) = (if continuation b then utf8_rest n (Suc k) bytes else Malformed k)"

fun utf8_next :: "string \<Rightarrow> utf8_step" where
  "utf8_next [] = CutOff"
| "utf8_next (a # bytes) = (case utf8_width a of
       0 \<Rightarrow> Malformed 1
     | Suc 0 \<Rightarrow> Scalar 1
     | Suc (Suc n) \<Rightarrow> (case bytes of
           [] \<Rightarrow> CutOff
         | b # rest \<Rightarrow> if second_byte_ok a b then utf8_rest n 2 rest else Malformed 1))"

lemma utf8_rest_bounds: "utf8_rest n k bytes = Scalar w \<Longrightarrow> k \<le> w \<and> w \<le> k + length bytes"
  by (induction n k bytes rule: utf8_rest.induct) (auto split: if_splits)

lemma utf8_rest_malformed: "utf8_rest n k bytes = Malformed e \<Longrightarrow> k \<le> e \<and> e < k + length bytes"
  by (induction n k bytes rule: utf8_rest.induct) (auto split: if_splits)

lemma utf8_next_bounds: "utf8_next s = Scalar w \<Longrightarrow> 0 < w \<and> w \<le> length s"
  by (cases s rule: utf8_next.cases) (auto split: nat.splits list.splits if_splits dest: utf8_rest_bounds)

lemma utf8_next_malformed: "utf8_next s = Malformed e \<Longrightarrow> 0 < e \<and> e \<le> length s"
  by (cases s rule: utf8_next.cases) (auto split: nat.splits list.splits if_splits dest: utf8_rest_malformed)

lemma utf8_rest_append: "utf8_rest n k bytes \<noteq> CutOff \<Longrightarrow> utf8_rest n k (bytes @ more) = utf8_rest n k bytes"
  by (induction n k bytes rule: utf8_rest.induct) (auto split: if_splits)

text \<open>A step that was not cut off does not depend on what follows.\<close>

lemma utf8_next_append: "utf8_next s \<noteq> CutOff \<Longrightarrow> utf8_next (s @ more) = utf8_next s"
  by (cases s rule: utf8_next.cases) (auto split: nat.splits list.splits if_splits simp: utf8_rest_append)

function valid_up_to :: "string \<Rightarrow> nat" where
  "valid_up_to s = (case utf8_next s of Scalar w \<Rightarrow> w + valid_up_to (drop w s) | _ \<Rightarrow> 0)"
  by pat_completeness auto
termination by (relation "measure length") (auto dest: utf8_next_bounds)

declare valid_up_to.simps [simp del]

definition is_utf8 :: "string \<Rightarrow> bool" where
  "is_utf8 s \<longleftrightarrow> valid_up_to s = length s"

text \<open>\<^verbatim>\<open>String::from_utf8_lossy\<close>: one replacement character for each malformed sequence.\<close>

definition replacement :: string where "replacement = [CHR 0xEF, CHR 0xBF, CHR 0xBD]"

function utf8_lossy :: "string \<Rightarrow> string" where
  "utf8_lossy s = (case utf8_next s of
       Scalar w \<Rightarrow> take w s @ utf8_lossy (drop w s)
     | Malformed e \<Rightarrow> replacement @ utf8_lossy (drop e s)
     | CutOff \<Rightarrow> if s = [] then [] else replacement)"
  by pat_completeness auto
termination by (relation "measure length") (auto dest: utf8_next_bounds utf8_next_malformed)

declare utf8_lossy.simps [simp del]

section \<open>Valid prefixes\<close>

lemma valid_up_to_le: "valid_up_to s \<le> length s"
proof (induction s rule: valid_up_to.induct)
  case (1 s)
  show ?case
  proof (cases "utf8_next s")
    case (Scalar w)
    then have "valid_up_to (drop w s) \<le> length (drop w s)" and "w \<le> length s"
      using 1 utf8_next_bounds by blast+
    with Scalar show ?thesis by (subst valid_up_to.simps) simp
  qed (simp_all add: valid_up_to.simps)
qed

lemma valid_up_to_Nil [simp]: "valid_up_to [] = 0"
  by (simp add: valid_up_to.simps)

lemma is_utf8_Nil [simp]: "is_utf8 []"
  by (simp add: is_utf8_def)

text \<open>The valid prefix only grows as bytes arrive, and keeps what it had.\<close>

lemma valid_up_to_append: "valid_up_to s \<le> valid_up_to (s @ more)"
proof (induction s rule: valid_up_to.induct)
  case (1 s)
  show ?case
  proof (cases "utf8_next s")
    case (Scalar w)
    then have w: "w \<le> length s" and same: "utf8_next (s @ more) = Scalar w"
      using utf8_next_bounds utf8_next_append by auto
    from w have "drop w (s @ more) = drop w s @ more" by simp
    with 1 [OF Scalar] Scalar same show ?thesis
      by (subst (1 2) valid_up_to.simps) simp
  qed (simp_all add: valid_up_to.simps)
qed

lemma valid_prefix_grows:
  "take (valid_up_to (s @ more)) (s @ more) =
     take (valid_up_to s) s @ drop (valid_up_to s) (take (valid_up_to (s @ more)) (s @ more))"
proof -
  have le: "valid_up_to s \<le> valid_up_to (s @ more)" by (rule valid_up_to_append)
  have "take (valid_up_to s) (take (valid_up_to (s @ more)) (s @ more)) = take (valid_up_to s) s"
    using le valid_up_to_le [of s] by (simp add: min_def)
  then show ?thesis by (metis append_take_drop_id)
qed

lemma utf8_rest_take: "utf8_rest n k bytes = Scalar w \<Longrightarrow> w = k + n \<and> utf8_rest n k (take n bytes @ more) = Scalar w"
  by (induction n k bytes rule: utf8_rest.induct) (auto split: if_splits)

text \<open>A scalar is decided by its own bytes.\<close>

lemma utf8_next_take: "utf8_next s = Scalar w \<Longrightarrow> utf8_next (take w s @ more) = Scalar w"
proof (cases s)
  case (Cons a bytes)
  assume step: "utf8_next s = Scalar w"
  consider (one) "utf8_width a = 1" "w = 1"
    | (more) n b rest where "utf8_width a = Suc (Suc n)" "bytes = b # rest" "second_byte_ok a b" "utf8_rest n 2 rest = Scalar w"
    using step Cons by (auto split: nat.splits list.splits if_splits)
  then show ?thesis
  proof cases
    case one
    then show ?thesis by (simp add: Cons)
  next
    case (more n b rest)
    have "w = Suc (Suc n)" and "utf8_rest n 2 (take n rest @ more) = Scalar w" for more
      using utf8_rest_take [OF more(4)] by simp_all
    with more(1-3) show ?thesis by (simp add: Cons)
  qed
qed simp

lemma valid_up_to_scalar: "utf8_next s = Scalar w \<Longrightarrow> valid_up_to s = w + valid_up_to (drop w s)"
  by (subst valid_up_to.simps) simp

lemma is_utf8_take: "is_utf8 (take (valid_up_to s) s)"
proof (induction s rule: valid_up_to.induct)
  case (1 s)
  show ?case
  proof (cases "utf8_next s")
    case (Scalar w)
    have w: "0 < w" "w \<le> length s" using utf8_next_bounds [OF Scalar] by auto
    let ?rest = "take (valid_up_to (drop w s)) (drop w s)"
    have t: "take (valid_up_to s) s = take w s @ ?rest" by (simp add: valid_up_to_scalar [OF Scalar] take_add)
    have "valid_up_to (take w s @ ?rest) = w + valid_up_to ?rest"
      using valid_up_to_scalar [OF utf8_next_take [OF Scalar, of ?rest]] w by simp
    then show ?thesis using 1 [OF Scalar] w unfolding t is_utf8_def by simp
  qed (simp_all add: valid_up_to.simps)
qed

lemma is_utf8_scalar: "utf8_next s = Scalar w \<Longrightarrow> is_utf8 s \<longleftrightarrow> is_utf8 (drop w s)"
  using utf8_next_bounds [of s w] by (auto simp: is_utf8_def valid_up_to_scalar)

lemma is_utf8_step: "is_utf8 s \<Longrightarrow> s \<noteq> [] \<Longrightarrow> \<exists>w. utf8_next s = Scalar w"
  by (cases "utf8_next s") (auto simp: is_utf8_def valid_up_to.simps [of s])

lemma valid_up_to_after: "is_utf8 s \<Longrightarrow> valid_up_to (s @ more) = length s + valid_up_to more"
proof (induction s rule: valid_up_to.induct)
  case (1 s)
  show ?case
  proof (cases "s = []")
    case False
    then obtain w where w: "utf8_next s = Scalar w" using 1(2) is_utf8_step by blast
    have b: "w \<le> length s" using utf8_next_bounds [OF w] by simp
    have "utf8_next (s @ more) = Scalar w" using w utf8_next_append [of s more] by simp
    from valid_up_to_scalar [OF this] 1(1) [OF w] 1(2) b show ?thesis by (simp add: is_utf8_scalar [OF w])
  qed simp
qed

lemma is_utf8_append: "is_utf8 s \<Longrightarrow> is_utf8 (s @ more) \<longleftrightarrow> is_utf8 more"
  by (simp add: is_utf8_def valid_up_to_after)

lemma utf8_lossy_id: "is_utf8 s \<Longrightarrow> utf8_lossy s = s"
proof (induction s rule: valid_up_to.induct)
  case (1 s)
  show ?case
  proof (cases "s = []")
    case True
    then show ?thesis by (simp add: utf8_lossy.simps)
  next
    case False
    then obtain w where w: "utf8_next s = Scalar w" using 1(2) is_utf8_step by blast
    from 1(1) [OF w] 1(2) w show ?thesis by (subst utf8_lossy.simps) (simp add: is_utf8_scalar [OF w])
  qed
qed

lemma ascii_is_utf8: "list_all (\<lambda>c. char_code c < 128) s \<Longrightarrow> is_utf8 s"
proof (induction s)
  case (Cons a s)
  then have next': "utf8_next (a # s) = Scalar 1" by (simp add: utf8_width_def)
  show ?case using Cons by (simp add: is_utf8_scalar [OF next'])
qed simp

section \<open>White space\<close>

text \<open>The encodings of the characters that \<^verbatim>\<open>str::trim\<close> removes.\<close>

definition WHITE_SPACE :: "string list" where
  "WHITE_SPACE = [[CHR 0x09], [CHR 0x0A], [CHR 0x0B], [CHR 0x0C], [CHR 0x0D], [CHR 0x20], [CHR 0xC2, CHR 0x85], [CHR 0xC2, CHR 0xA0],
     [CHR 0xE1, CHR 0x9A, CHR 0x80], [CHR 0xE2, CHR 0x80, CHR 0xA8], [CHR 0xE2, CHR 0x80, CHR 0xA9], [CHR 0xE2, CHR 0x80, CHR 0xAF],
     [CHR 0xE2, CHR 0x81, CHR 0x9F], [CHR 0xE3, CHR 0x80, CHR 0x80]]
     @ map (\<lambda>n. [CHR 0xE2, CHR 0x80, char_of (0x80 + n)]) [0 ..< 11]"

lemma white_space_nonempty: "w \<in> set WHITE_SPACE \<Longrightarrow> w \<noteq> []"
  by (auto simp: WHITE_SPACE_def)

function text_trim_start :: "string \<Rightarrow> string" where
  "text_trim_start s = (case find (starts_with s) WHITE_SPACE of None \<Rightarrow> s | Some w \<Rightarrow> text_trim_start (drop (length w) s))"
  by pat_completeness auto
termination
proof (relation "measure length")
  fix s w assume "find (starts_with s) WHITE_SPACE = Some w"
  then have "w \<noteq> []" "take (length w) s = w" using white_space_nonempty by (auto simp: find_Some_iff starts_with_def in_set_conv_nth)
  then have "0 < length w" "s \<noteq> []" by auto
  then show "(drop (length w) s, s) \<in> measure length" by simp
qed simp

function text_trim_end :: "string \<Rightarrow> string" where
  "text_trim_end s = (case find (ends_with s) WHITE_SPACE of None \<Rightarrow> s | Some w \<Rightarrow> text_trim_end (take (length s - length w) s))"
  by pat_completeness auto
termination
proof (relation "measure length")
  fix s w assume "find (ends_with s) WHITE_SPACE = Some w"
  then have "w \<noteq> []" "length w \<le> length s" using white_space_nonempty by (auto simp: find_Some_iff ends_with_def in_set_conv_nth)
  then have "0 < length w" "0 < length s" by auto
  then show "(take (length s - length w) s, s) \<in> measure length" using \<open>length w \<le> length s\<close> by simp
qed simp

declare text_trim_start.simps [simp del] text_trim_end.simps [simp del]

definition text_trim :: "string \<Rightarrow> string" where
  "text_trim s = text_trim_end (text_trim_start s)"

end
