(* ===== verification/Lane.thy ===== *)
theory Lane
  imports Utf8 "HOL-Library.Char_ord" "HOL-Library.List_Lexorder"
begin

text \<open>
  The replica's deterministic lane (\<^verbatim>\<open>crates/server/src/lane.rs\<close>): the environment
  variables a replica starts with are admitted by an allow list over one namespace,
  a short list of foreign names is refused as well, the lane then writes its own
  canonical vector, and two digests identify the configuration and the admission
  policy. Names are the bytes of the variable; \<open>windows\<close> selects the platform's
  comparison. SHA-256 in hexadecimal is the argument \<open>sha256\<close>.
\<close>

section \<open>The tables\<close>

definition em_dash :: string where "em_dash = [CHR 0xE2, CHR 0x80, CHR 0x94]"
definition newline :: string where "newline = [CHR 0x0A]"

definition ENGINE_PIN :: string where "ENGINE_PIN = ''b4e3a9056567ed8145fc4fa29850d6f1f261ac2b''"
definition EXECUTION_POSTURE :: string where "EXECUTION_POSTURE = ''cpu''"
definition NAMESPACE :: string where "NAMESPACE = ''CAMELID_''"

datatype Match = Exact string | Prefix string

fun literal :: "Match \<Rightarrow> string" where
  "literal (Exact rule) = rule"
| "literal (Prefix rule) = rule"

fun digest_tag :: "Match \<Rightarrow> string" where
  "digest_tag (Exact _) = ''permit_exact=''"
| "digest_tag (Prefix _) = ''permit_prefix=''"

fun is_prefix :: "Match \<Rightarrow> bool" where
  "is_prefix (Prefix _) = True"
| "is_prefix (Exact _) = False"

record Permit =
  p_rule :: Match
  p_reason :: string

definition REFUSED_FOREIGN :: "(string \<times> string) list" where
  "REFUSED_FOREIGN =
    [(''VECLIB_MAXIMUM_THREADS'',
        ''sizes Apple vecLib's internal BLAS pool. The engine calls into Accelerate on this platform '' @ em_dash @ '' ''
        @ ''cblas_sgemv for dense f32 linear rows above a size floor, and cblas_sgemm from the CPU tensor ''
        @ ''matmul with no floor and no flag in front of it '' @ em_dash @ '' and vecLib's documented response to this ''
        @ ''variable is to change how it blocks and parallelizes those calls, which moves f32 summation ''
        @ ''order. Nothing this replica publishes reports vecLib's pool width, so a replica running under ''
        @ ''it looks identical to one that is not''),
     (''RAYON_NUM_THREADS'',
        ''sizes the process-global data-parallel worker pool, and several engine kernels select a ''
        @ ''different branch when the resolved width is greater than one. The width it sets is published '' @ em_dash @ '' ''
        @ ''x-camelid-worker-threads is read back from the pool, so a replica running under this looks ''
        @ ''different from one that is not '' @ em_dash @ '' and it is refused anyway, because this replica declares its ''
        @ ''width through one documented flag. Use --threads, or CAMELID_ENTERPRISE_THREADS''),
     (''RAYON_RS_NUM_CPUS'',
        ''the deprecated spelling of RAYON_NUM_THREADS, and a live one at the pinned rayon-core: the ''
        @ ''pool falls through to it whenever the current name is unset or does not parse as a usize at ''
        @ ''all. An explicit RAYON_NUM_THREADS=0 is not such a case '' @ em_dash @ '' it parses, and takes the host ''
        @ ''default without consulting this name '' @ em_dash @ '' but on every path that does fall through, this name ''
        @ ''sizes the same pool by the same rule and reaches the same kernels. Refused for the same ''
        @ ''reason, and named separately because refusing only the current spelling would leave the ''
        @ ''refusal bypassable by a synonym this replica never mentions. Use --threads, or ''
        @ ''CAMELID_ENTERPRISE_THREADS'')]"

definition CANONICAL :: "(string \<times> string) list" where
  "CANONICAL =
    [(''CAMELID_DETERMINISTIC'', ''1''),
     (''CAMELID_NO_GPU_SAMPLE'', ''1''),
     (''CAMELID_METAL_RESIDENT_DECODE'', ''false''),
     (''CAMELID_METAL_F32Y'', ''false''),
     (''CAMELID_METAL_WIRE'', ''false''),
     (''CAMELID_METAL_WIRE_NSG8'', ''false''),
     (''CAMELID_METAL_ATTN2'', ''false''),
     (''CAMELID_METAL_RESIDENT_PREFILL'', ''false''),
     (''CAMELID_METAL_MM'', ''false''),
     (''CAMELID_METAL_LINEAR'', ''false''),
     (''CAMELID_METAL_Q8'', ''false''),
     (''CAMELID_METAL_Q8_RETAINED'', ''false''),
     (''CAMELID_HYBRID_Q8_RETAINED'', ''false''),
     (''CAMELID_METAL_NOCOPY'', ''false'')]"

definition PERMITTED :: "Permit list" where
  "PERMITTED =
    [\<lparr>p_rule = Exact ''CAMELID_ENTERPRISE_MODEL'',
      p_reason = ''GGUF loaded at startup (--model); the only way to supply a model without argv. It selects the ''
        @ ''weights, so it moves every token '' @ em_dash @ '' and neither published digest is taken over the model file, ''
        @ ''so both stay identical across the swap. Admitted because the loaded file's own SHA-256 is ''
        @ ''published on every response, as x-camelid-model-sha256, which is what makes the swap visible''\<rparr>,
     \<lparr>p_rule = Exact ''CAMELID_ENTERPRISE_ADDR'',
      p_reason = ''bind address (--addr); container and orchestrator entrypoints own argv, so this is how they ''
        @ ''configure it''\<rparr>,
     \<lparr>p_rule = Exact ''CAMELID_ENTERPRISE_THREADS'',
      p_reason = ''worker-thread count (--threads). Engine kernels select a different branch above width one, and ''
        @ ''whether that changes any emitted token is not established in either direction; the row is ''
        @ ''admitted because the width it resolves to is read back from the pool and published on every ''
        @ ''response, so two replicas started differently are told apart from the outside''\<rparr>,
     \<lparr>p_rule = Exact ''CAMELID_ENTERPRISE_MAX_CONCURRENCY'',
      p_reason = ''generations run at once (--max-concurrency). Admitted with a claim made, unlike the width ''
        @ ''above it: every generation owns its decoder and KV cache over read-only weights and is never ''
        @ ''fused with another, so a request emits the same tokens at any width. It is published on ''
        @ ''/v1/health as engine_generation_slots and enters neither digest, because two replicas ''
        @ ''differing only here apply the same configuration vector and would refuse the same environment ''
        @ em_dash @ '' they differ in how many clients they serve at once, not in what any one of them gets''\<rparr>,
     \<lparr>p_rule = Exact ''CAMELID_ENTERPRISE_TEST_MODEL'',
      p_reason = ''local GGUF for this workspace's gated tests; read only under #[cfg(test)] and never on the ''
        @ ''serving path '' @ em_dash @ '' permitted so one shell can run both the tests and a replica''\<rparr>]"

definition ADVISORY :: "(string \<times> string) list" where
  "ADVISORY =
    [(''CAMELID_RMS_NORM_EPSILON'',
        ''overrides a normalization constant in the forward pass''),
     (''CAMELID_ROPE_PAIRING'',
        ''changes rotary-embedding pairing; takes effect on presence alone, empty value included''),
     (''CAMELID_ROPE_DIRECTION'',
        ''changes rotary-embedding direction''),
     (''CAMELID_ROPE_POSITION_MODE'',
        ''changes how rotary positions are derived''),
     (''CAMELID_ATTENTION_SCORE_SCALE'',
        ''overrides the attention score scale''),
     (''CAMELID_GQA_HEAD_MAPPING'',
        ''changes grouped-query head mapping''),
     (''CAMELID_LINEAR_ACCUMULATION'',
        ''changes linear-layer accumulation, and so reduction order''),
     (''CAMELID_FFN_GATE_UP_ORDER'',
        ''reorders the feed-forward gate/up product''),
     (''CAMELID_SQUARE_LINEAR_LAYOUT'',
        ''selects a different square-linear weight layout and kernel''),
     (''CAMELID_OUTPUT_PROJECTION_LAYOUT'',
        ''selects a different output-projection layout and kernel''),
     (''CAMELID_RECTANGULAR_LINEAR_LAYOUT'',
        ''selects a different rectangular-linear layout and kernel; the engine also derives per-role ''
        @ ''names from this one at runtime, which is why no ban list could have covered the family''),
     (''CAMELID_DEBUG_DISABLE_QK_NORM'',
        ''disables QK normalization; takes effect on presence alone''),
     (''CAMELID_PARALLEL_LINEAR'',
        ''switches linear layers between serial and parallel reduction''),
     (''CAMELID_PROFILE'',
        ''selects an engine profile, which drives what the planner writes into its own managed keys''),
     (''CAMELID_ZERO_ATTENTION_DELTA'',
        ''zeroes an attention contribution '' @ em_dash @ '' a diagnostic, not a serving mode''),
     (''CAMELID_ZERO_FFN_DELTA'',
        ''zeroes a feed-forward contribution '' @ em_dash @ '' a diagnostic, not a serving mode''),
     (''CAMELID_PREFILL_THREADS'',
        ''installs a prefill-specific thread pool no single declared thread count describes''),
     (''CAMELID_DECODE_THREADS'',
        ''installs a decode-specific thread pool no single declared thread count describes''),
     (''CAMELID_THREADS'',
        ''engine-owned, and read for its presence rather than its value '' @ em_dash @ '' setting it changes the ''
        @ ''engine's phase-threading shape. For this replica's worker count use CAMELID_ENTERPRISE_THREADS''),
     (''CAMELID_PREFILL_CHUNK_TOKENS'',
        ''changes prefill batch shape, and so reduction order''),
     (''CAMELID_PREFILL_LAYER_MAJOR_CHUNK_TOKENS'',
        ''changes layer-major prefill batch shape, and so reduction order''),
     (''CAMELID_MAC_Q8_PREFILL_I8MM'',
        ''moves a quantized prefill kernel boundary; the engine's planner also writes this key itself at ''
        @ ''model load''),
     (''CAMELID_MAC_Q8_I8MM_SMALL_M_MAX_ROWS'',
        ''moves a quantized kernel row threshold, and so which kernel runs''),
     (''CAMELID_X86_Q8_PARALLEL_INPUT_QUANTIZE'',
        ''parallelizes input quantization, changing reduction order''),
     (''CAMELID_ATTN_COALESCED'',
        ''selects a coalesced attention path''),
     (''CAMELID_SPEC_DECODE'',
        ''enables speculative decoding, which this lane excludes''),
     (''CAMELID_SPEC_DRAFT_MODEL'',
        ''names a speculative draft model; this lane serves one model''),
     (''CAMELID_SPEC_DRAFT_TOKENS'',
        ''sizes speculative drafting, which this lane excludes''),
     (''CAMELID_QUEUE_DEPTH'',
        ''resizes the engine queue, changing which requests fail closed''),
     (''CAMELID_GENERATION_TIMEOUT_MS'',
        ''changes the per-generation wall-clock ceiling, and at 0 removes it''),
     (''CAMELID_APPLE_ACCELERATE'',
        ''turns the Accelerate BLAS route on or off, which changes f32 summation order''),
     (''CAMELID_MODELS_DIR'',
        ''not consumed by this replica '' @ em_dash @ '' the serving path passes no models directory, so setting this ''
        @ ''changes nothing''),
     (''CAMELID_GATEWAY_ADDR'',
        ''read by the gateway binary, not by this replica''),
     (''CAMELID_GATEWAY_UPSTREAM'',
        ''read by the gateway binary, not by this replica''),
     (''CAMELID_LLAMA3_MISSING_PRE_GGUF'',
        ''used by this workspace's tokenizer tests, but the engine reads the same name at the pin, so ''
        @ ''admitting it would put an engine key on the allow list. A shell with it exported cannot start ''
        @ ''a replica; unset it there, or run the tests in a different shell''),
     (''CAMELID_LLAMA3_REFERENCE_GGUF'',
        ''used by this workspace's tokenizer tests, but the engine reads the same name at the pin, so ''
        @ ''admitting it would put an engine key on the allow list. A shell with it exported cannot start ''
        @ ''a replica; unset it there, or run the tests in a different shell'')]"

section \<open>The policy\<close>

definition name_eq :: "bool \<Rightarrow> string \<Rightarrow> string \<Rightarrow> bool" where
  "name_eq windows name rule \<longleftrightarrow> (if windows then eq_ignore_ascii_case name rule else name = rule)"

definition name_starts_with :: "bool \<Rightarrow> string \<Rightarrow> string \<Rightarrow> bool" where
  "name_starts_with windows name rule \<longleftrightarrow>
     (if windows then length name \<ge> length rule \<and> eq_ignore_ascii_case (take (length rule) name) rule
      else starts_with name rule)"

definition in_namespace :: "bool \<Rightarrow> string \<Rightarrow> bool" where
  "in_namespace windows name \<longleftrightarrow> name_starts_with windows name NAMESPACE"

fun matches :: "bool \<Rightarrow> Match \<Rightarrow> string \<Rightarrow> bool" where
  "matches windows (Exact rule) name = name_eq windows name rule"
| "matches windows (Prefix rule) name = name_starts_with windows name rule"

definition permitted_by :: "bool \<Rightarrow> Permit list \<Rightarrow> string \<Rightarrow> bool" where
  "permitted_by windows rules name \<longleftrightarrow> list_ex (\<lambda>permit. matches windows (p_rule permit) name) rules"

definition permitted :: "bool \<Rightarrow> string \<Rightarrow> bool" where
  "permitted windows name \<longleftrightarrow> permitted_by windows PERMITTED name"

definition foreign_refusal :: "bool \<Rightarrow> string \<Rightarrow> string option" where
  "foreign_refusal windows name = map_option snd (find (\<lambda>(key, _). name_eq windows name key) REFUSED_FOREIGN)"

definition lane_refused :: "bool \<Rightarrow> string \<Rightarrow> bool" where
  "lane_refused windows name \<longleftrightarrow>
     (in_namespace windows name \<and> \<not> permitted windows name) \<or> foreign_refusal windows name \<noteq> None"

section \<open>What the operator is told\<close>

definition canonical_advice :: string where
  "canonical_advice =
        ''part of the vector the lane applies itself, so it is refused even at the canonical value '' @ em_dash @ '' the ''
        @ ''published configuration digest means '' @ [CHR 0x22] @ ''the vector this replica wrote'' @ [CHR 0x22] @ '', which stops being ''
        @ ''checkable the moment anyone else can write it too''"

definition advice :: "bool \<Rightarrow> string \<Rightarrow> string option" where
  "advice windows name =
     (if list_ex (\<lambda>(key, _). name_eq windows name key) CANONICAL then Some canonical_advice
      else (case foreign_refusal windows name of
          Some reason \<Rightarrow> Some reason
        | None \<Rightarrow> map_option snd (find (\<lambda>(key, _). name_eq windows name key) ADVISORY)))"

text \<open>\<^verbatim>\<open>str::rsplit_once\<close> for a nonempty pattern.\<close>

definition rsplit_once :: "string \<Rightarrow> string \<Rightarrow> (string \<times> string) option" where
  "rsplit_once s p = map_option (\<lambda>i. (take i s, drop (i + length p) s))
     (find (\<lambda>i. starts_with (drop i s) p) (rev [0 ..< Suc (length s)]))"

definition looks_like_a_service_link :: "string \<Rightarrow> bool" where
  "looks_like_a_service_link name =
     (case rsplit_once name ''_SERVICE_'' of
        None \<Rightarrow> ends_with name ''_PORT''
          \<or> (case rsplit_once name ''_PORT_'' of
               None \<Rightarrow> False
             | Some (_, rest) \<Rightarrow> str_contains rest ''_TCP'' \<or> str_contains rest ''_UDP'')
      | Some (_, rest) \<Rightarrow> rest = ''HOST'' \<or> rest = ''PORT'' \<or> starts_with rest ''PORT_'')"

definition refusal_opening :: string where
  "refusal_opening =
        ''deterministic lane refuses to start: the output guarantee is stated against a frozen ''
        @ ''configuration vector, and an unrecognized engine variable can move the numerics without ''
        @ ''changing the published configuration digest '' @ em_dash @ '' so the lane fails closed rather than serve under ''
        @ ''a configuration it cannot vouch for.'' @ newline @ newline @ ''Unset these, then start again:'' @ newline"

definition service_link_note :: string where
  "service_link_note =
        '' '' @ em_dash @ '' looks like a Kubernetes service-link variable, injected from a Service whose name shares ''
        @ ''this prefix; set enableServiceLinks: false on the pod spec''"

definition offender_line :: "bool \<Rightarrow> string \<Rightarrow> string" where
  "offender_line windows name = ''  '' @ name
     @ (case advice windows name of
          Some reason \<Rightarrow> '' '' @ em_dash @ '' '' @ reason
        | None \<Rightarrow> if looks_like_a_service_link name then service_link_note else [])
     @ newline"

definition refusal_closing :: string where
  "refusal_closing =
     newline @ ''This replica reads exactly these, and nothing else in the namespace is admitted '' @ em_dash @ '' including ''
        @ ''the lane's own canonical keys, which the lane sets itself:'' @ newline
     @ concat (map (\<lambda>permit. ''  '' @ literal (p_rule permit) @ (if is_prefix (p_rule permit) then ''*'' else [])
          @ '' '' @ em_dash @ '' '' @ p_reason permit @ newline) PERMITTED)
     @ newline @ ''Refused from outside that namespace as well, because they move the numerics and this replica ''
        @ ''is not the one that set them:'' @ newline
     @ concat (map (\<lambda>(name, _). ''  '' @ name @ newline) REFUSED_FOREIGN)"

text \<open>The environment is the list of its variables. The offenders are a \<^verbatim>\<open>BTreeSet\<close>: sorted, each once.\<close>

type_synonym environment = "(string \<times> string) list"

definition lane_offenders :: "bool \<Rightarrow> environment \<Rightarrow> string list" where
  "lane_offenders windows vars =
     fold (\<lambda>(name, _) offenders. let name = utf8_lossy name in
        if lane_refused windows name then insort_insert name offenders else offenders) vars []"

definition refuse_unpermitted :: "bool \<Rightarrow> environment \<Rightarrow> (string, unit) res" where
  "refuse_unpermitted windows vars = (let offenders = lane_offenders windows vars in
     if offenders = [] then Inr ()
     else Inl (refusal_opening @ concat (map (offender_line windows) offenders) @ refusal_closing))"

section \<open>The digests and the lane's own vector\<close>

definition compute_config_sha256 :: "(string \<Rightarrow> string) \<Rightarrow> string" where
  "compute_config_sha256 sha256 =
     sha256 (''posture='' @ EXECUTION_POSTURE @ newline @ ''engine_pin='' @ ENGINE_PIN)"

definition admission_preimage :: "Permit list \<Rightarrow> (string \<times> string) list \<Rightarrow> string \<Rightarrow> string" where
  "admission_preimage rules foreign namespace =
     concat (map (\<lambda>permit. digest_tag (p_rule permit) @ literal (p_rule permit) @ newline) rules)
     @ concat (map (\<lambda>(name, _). ''refuse_foreign='' @ name @ newline) foreign)
     @ ''namespace='' @ namespace"

definition compute_admission_sha256 :: "(string \<Rightarrow> string) \<Rightarrow> string" where
  "compute_admission_sha256 sha256 = sha256 (admission_preimage PERMITTED REFUSED_FOREIGN NAMESPACE)"

record ConfigVector =
  cv_sha256 :: string
  cv_admission_sha256 :: string

definition config_short :: "ConfigVector \<Rightarrow> string" where
  "config_short cv = take 12 (cv_sha256 cv)"

definition config_admission_short :: "ConfigVector \<Rightarrow> string" where
  "config_admission_short cv = take 12 (cv_admission_sha256 cv)"

definition set_var :: "string \<Rightarrow> string \<Rightarrow> environment \<Rightarrow> environment" where
  "set_var key v env = filter (\<lambda>(name, _). name \<noteq> key) env @ [(key, v)]"

definition apply_deterministic :: "bool \<Rightarrow> (string \<Rightarrow> string) \<Rightarrow> environment \<Rightarrow> (string, ConfigVector) res \<times> environment" where
  "apply_deterministic windows sha256 env = (case refuse_unpermitted windows env of
       Inl message \<Rightarrow> (Inl message, env)
     | Inr _ \<Rightarrow> (Inr \<lparr>cv_sha256 = compute_config_sha256 sha256, cv_admission_sha256 = compute_admission_sha256 sha256\<rparr>,
                  fold (\<lambda>(key, v). set_var key v) CANONICAL env))"

end
