(* ===== verification/LaneLaws.thy ===== *)
theory LaneLaws
  imports Lane
begin

text \<open>
  The laws of the lane: exactly the listed variables are admitted, on Windows in
  any case; a refusal names every offender once and shows no value; the lane is the
  only writer of its vector and can be entered once; and two admission policies
  that differ in what they admit have different preimages.
\<close>

section \<open>What is admitted\<close>

lemma permitted_iff: "permitted False name \<longleftrightarrow> name \<in> {''CAMELID_ENTERPRISE_MODEL'', ''CAMELID_ENTERPRISE_ADDR'',
    ''CAMELID_ENTERPRISE_THREADS'', ''CAMELID_ENTERPRISE_MAX_CONCURRENCY'', ''CAMELID_ENTERPRISE_TEST_MODEL''}"
  by (simp add: permitted_def permitted_by_def PERMITTED_def name_eq_def)

lemma find_key_None: "find (\<lambda>(key, _). P key) rows = None \<longleftrightarrow> (\<forall>key \<in> fst ` set rows. \<not> P key)"
  by (induction rows) auto

lemma foreign_names: "fst ` set REFUSED_FOREIGN = {''VECLIB_MAXIMUM_THREADS'', ''RAYON_NUM_THREADS'', ''RAYON_RS_NUM_CPUS''}"
  by (simp add: REFUSED_FOREIGN_def)

lemma foreign_iff: "foreign_refusal False name \<noteq> None \<longleftrightarrow> name \<in> {''VECLIB_MAXIMUM_THREADS'', ''RAYON_NUM_THREADS'', ''RAYON_RS_NUM_CPUS''}"
proof -
  have "foreign_refusal False name = None \<longleftrightarrow> (\<forall>key \<in> fst ` set REFUSED_FOREIGN. name \<noteq> key)"
    by (simp add: foreign_refusal_def find_key_None name_eq_def)
  then show ?thesis unfolding foreign_names by auto
qed

lemma insort_insert_facts:
  "set (insort_insert x xs) = insert x (set xs)"
  "sorted xs \<Longrightarrow> sorted (insort_insert x xs)" "distinct xs \<Longrightarrow> distinct (insort_insert x xs)"
  by (simp_all add: set_insort_insert sorted_insort_insert distinct_insort_insert)

lemma lane_offenders_facts:
  "set (lane_offenders windows env) = {name \<in> (utf8_lossy \<circ> fst) ` set env. lane_refused windows name}"
  "sorted (lane_offenders windows env)" "distinct (lane_offenders windows env)"
proof -
  let ?step = "\<lambda>(name, _) offenders. let name = utf8_lossy name in
     if lane_refused windows name then insort_insert name offenders else offenders"
  have "set (fold ?step env acc) = set acc \<union> {name \<in> (utf8_lossy \<circ> fst) ` set env. lane_refused windows name}" for acc
    by (induction env arbitrary: acc) (auto simp: Let_def insort_insert_facts split: if_splits)
  then show "set (lane_offenders windows env) = {name \<in> (utf8_lossy \<circ> fst) ` set env. lane_refused windows name}"
    by (simp add: lane_offenders_def)
  have "sorted acc \<Longrightarrow> sorted (fold ?step env acc)" "distinct acc \<Longrightarrow> distinct (fold ?step env acc)" for acc
    by (induction env arbitrary: acc) (auto simp: Let_def insort_insert_facts)
  then show "sorted (lane_offenders windows env)" and "distinct (lane_offenders windows env)"
    by (simp_all add: lane_offenders_def)
qed

lemma refuse_unpermitted_ok: "refuse_unpermitted windows env = Inr () \<longleftrightarrow> (\<forall>(name, v) \<in> set env. \<not> lane_refused windows (utf8_lossy name))"
proof -
  have "refuse_unpermitted windows env = Inr () \<longleftrightarrow> set (lane_offenders windows env) = {}"
    by (simp add: refuse_unpermitted_def Let_def)
  then show ?thesis unfolding lane_offenders_facts by force
qed

text \<open>Windows compares names without regard to ASCII case.\<close>

definition to_ascii_upper :: "char \<Rightarrow> char" where
  "to_ascii_upper c = (let n = char_code c in if 97 \<le> n \<and> n \<le> 122 then char_of (n - 32) else c)"

lemma ascii_case_inverse:
  "to_ascii_upper (to_ascii_lower c) = to_ascii_upper c" "to_ascii_lower (to_ascii_upper c) = to_ascii_lower c"
  by (auto simp: to_ascii_upper_def to_ascii_lower_def Let_def)

lemma eq_ignore_ascii_case_upper: "eq_ignore_ascii_case a b \<longleftrightarrow> map to_ascii_upper a = map to_ascii_upper b"
proof
  assume "eq_ignore_ascii_case a b"
  then have "map to_ascii_upper (map to_ascii_lower a) = map to_ascii_upper (map to_ascii_lower b)"
    by (simp add: eq_ignore_ascii_case_def)
  then show "map to_ascii_upper a = map to_ascii_upper b" by (simp add: ascii_case_inverse comp_def)
next
  assume "map to_ascii_upper a = map to_ascii_upper b"
  then have "map to_ascii_lower (map to_ascii_upper a) = map to_ascii_lower (map to_ascii_upper b)" by simp
  then show "eq_ignore_ascii_case a b" by (simp add: ascii_case_inverse eq_ignore_ascii_case_def comp_def)
qed

lemma name_eq_windows: "map to_ascii_upper rule = rule \<Longrightarrow> name_eq True name rule = name_eq False (map to_ascii_upper name) rule"
  by (simp add: name_eq_def eq_ignore_ascii_case_upper)

lemma name_starts_with_windows:
  "map to_ascii_upper rule = rule \<Longrightarrow> name_starts_with True name rule = name_starts_with False (map to_ascii_upper name) rule"
  by (auto simp: name_starts_with_def eq_ignore_ascii_case_upper starts_with_def take_map dest: arg_cong [where f = length])

lemma upper_names: "map to_ascii_upper NAMESPACE = NAMESPACE"
  "permit \<in> set PERMITTED \<Longrightarrow> map to_ascii_upper (literal (p_rule permit)) = literal (p_rule permit)"
  "key \<in> fst ` set REFUSED_FOREIGN \<Longrightarrow> map to_ascii_upper key = key"
  by (auto simp: NAMESPACE_def PERMITTED_def foreign_names to_ascii_upper_def char_code_def)

lemma lane_refused_windows: "lane_refused True name = lane_refused False (map to_ascii_upper name)"
proof -
  let ?up = "map to_ascii_upper name"
  have "matches True rule name = matches False rule ?up" if "map to_ascii_upper (literal rule) = literal rule" for rule
    using that by (cases rule) (simp_all add: name_eq_windows name_starts_with_windows)
  then have "permitted True name = permitted False ?up"
    using upper_names(2) unfolding permitted_def permitted_by_def list_ex_iff by blast
  moreover have "foreign_refusal True name = None \<longleftrightarrow> foreign_refusal False ?up = None"
    using upper_names(3) by (simp add: foreign_refusal_def find_key_None name_eq_windows)
  ultimately show ?thesis
    by (simp add: lane_refused_def in_namespace_def name_starts_with_windows upper_names(1))
qed

text \<open>Property C36: the lane admits by allow list. A replica may start exactly when no variable of its environment is
  one of the three foreign names and every variable under the namespace is one of the five listed, whatever
  their values; on Windows a name is judged by its upper-case spelling, so no spelling walks past the scan.\<close>

theorem lane_admission_is_exact:
  "(refuse_unpermitted False env = Inr () \<longleftrightarrow>
      (\<forall>name \<in> (utf8_lossy \<circ> fst) ` set env.
          name \<notin> {''VECLIB_MAXIMUM_THREADS'', ''RAYON_NUM_THREADS'', ''RAYON_RS_NUM_CPUS''}
        \<and> (starts_with name ''CAMELID_'' \<longrightarrow> name \<in> {''CAMELID_ENTERPRISE_MODEL'', ''CAMELID_ENTERPRISE_ADDR'',
             ''CAMELID_ENTERPRISE_THREADS'', ''CAMELID_ENTERPRISE_MAX_CONCURRENCY'', ''CAMELID_ENTERPRISE_TEST_MODEL''})))
   \<and> (refuse_unpermitted True env = Inr () \<longleftrightarrow>
        (\<forall>(name, v) \<in> set env. \<not> lane_refused False (map to_ascii_upper (utf8_lossy name))))"
proof -
  have "lane_refused False name \<longleftrightarrow> \<not> (name \<notin> {''VECLIB_MAXIMUM_THREADS'', ''RAYON_NUM_THREADS'', ''RAYON_RS_NUM_CPUS''}
      \<and> (starts_with name ''CAMELID_'' \<longrightarrow> name \<in> {''CAMELID_ENTERPRISE_MODEL'', ''CAMELID_ENTERPRISE_ADDR'',
             ''CAMELID_ENTERPRISE_THREADS'', ''CAMELID_ENTERPRISE_MAX_CONCURRENCY'', ''CAMELID_ENTERPRISE_TEST_MODEL''}))" for name
    unfolding lane_refused_def permitted_iff foreign_iff in_namespace_def name_starts_with_def NAMESPACE_def by auto
  then show ?thesis unfolding refuse_unpermitted_ok lane_refused_windows by fastforce
qed

theorem lane_admission_is_exact_witness:
  "refuse_unpermitted False [(''CAMELID_ENTERPRISE_ADDR'', ''0.0.0.0:80''), (''PATH'', ''/bin'')] = Inr ()
   \<and> refuse_unpermitted False [(''PATH'', ''/bin''), (''CAMELID_ROPE_PAIRING'', [])] \<noteq> Inr ()"
proof -
  have ascii: "utf8_lossy ''CAMELID_ENTERPRISE_ADDR'' = ''CAMELID_ENTERPRISE_ADDR''" "utf8_lossy ''PATH'' = ''PATH''"
    "utf8_lossy ''CAMELID_ROPE_PAIRING'' = ''CAMELID_ROPE_PAIRING''"
    by (rule utf8_lossy_id, rule ascii_is_utf8, simp add: char_code_def)+
  show ?thesis
    using lane_admission_is_exact [of "[(''CAMELID_ENTERPRISE_ADDR'', ''0.0.0.0:80''), (''PATH'', ''/bin'')]"]
      lane_admission_is_exact [of "[(''PATH'', ''/bin''), (''CAMELID_ROPE_PAIRING'', [])]"]
    by (simp add: ascii starts_with_def)
qed

section \<open>What a refusal says\<close>

text \<open>Also: a refusal tells the operator everything at once and nothing else. It has one line for each refused
  variable, in order and without repetition, between fixed text, so no value of the environment can appear
  in it: environments with the same names are refused in the same words.\<close>

theorem lane_refusal_is_complete:
  assumes "refuse_unpermitted windows env = Inl message"
  shows "(\<exists>offenders. offenders \<noteq> [] \<and> sorted_wrt (<) offenders
            \<and> set offenders = {name \<in> (utf8_lossy \<circ> fst) ` set env. lane_refused windows name}
            \<and> message = refusal_opening @ concat (map (offender_line windows) offenders) @ refusal_closing)
       \<and> (map fst env' = map fst env \<longrightarrow> refuse_unpermitted windows env' = Inl message)"
proof
  show "\<exists>offenders. offenders \<noteq> [] \<and> sorted_wrt (<) offenders
            \<and> set offenders = {name \<in> (utf8_lossy \<circ> fst) ` set env. lane_refused windows name}
            \<and> message = refusal_opening @ concat (map (offender_line windows) offenders) @ refusal_closing"
    using assms lane_offenders_facts [of windows env]
    by (intro exI [of _ "lane_offenders windows env"])
      (auto simp: refuse_unpermitted_def Let_def strict_sorted_iff split: if_splits)
next
  have "lane_offenders windows e = fold (\<lambda>name offenders. let name = utf8_lossy name in
      if lane_refused windows name then insort_insert name offenders else offenders) (map fst e) []" for e
    unfolding lane_offenders_def fold_map by (rule fold_cong) auto
  then show "map fst env' = map fst env \<longrightarrow> refuse_unpermitted windows env' = Inl message"
    using assms by (simp add: refuse_unpermitted_def)
qed

theorem lane_refusal_is_complete_witness:
  "\<exists>message. refuse_unpermitted False [(''RAYON_NUM_THREADS'', ''4'')] = Inl message
     \<and> refuse_unpermitted False [(''RAYON_NUM_THREADS'', ''secret'')] = Inl message"
proof -
  have "utf8_lossy ''RAYON_NUM_THREADS'' = ''RAYON_NUM_THREADS''"
    by (rule utf8_lossy_id, rule ascii_is_utf8) (simp add: char_code_def)
  then have "refuse_unpermitted False [(''RAYON_NUM_THREADS'', ''4'')] \<noteq> Inr ()"
    unfolding refuse_unpermitted_ok lane_refused_def foreign_iff by simp
  then obtain message where "refuse_unpermitted False [(''RAYON_NUM_THREADS'', ''4'')] = Inl message"
    by (cases "refuse_unpermitted False [(''RAYON_NUM_THREADS'', ''4'')]") simp_all
  with lane_refusal_is_complete [OF this, of "[(''RAYON_NUM_THREADS'', ''secret'')]"] show ?thesis by simp
qed

section \<open>The lane's own vector\<close>

lemma map_of_set_var: "map_of (set_var key v env) x = (if x = key then Some v else map_of env x)"
  by (induction env) (auto simp: set_var_def)

lemma map_of_set_vars:
  "map_of (fold (\<lambda>(key, v). set_var key v) rows env) x = (case map_of (rev rows) x of Some v \<Rightarrow> Some v | None \<Rightarrow> map_of env x)"
  by (induction rows arbitrary: env) (auto simp: map_of_set_var map_add_def split: option.splits)

lemma canonical_map: "map_of (rev CANONICAL) = map_of CANONICAL"
proof -
  have "distinct (map fst CANONICAL)" by (simp add: CANONICAL_def)
  then show ?thesis by (subst map_of_inject_set) (simp_all flip: rev_map)
qed

lemma canonical_refused: "lane_refused windows ''CAMELID_DETERMINISTIC''"
proof -
  have "lane_refused False ''CAMELID_DETERMINISTIC''"
    unfolding lane_refused_def permitted_iff in_namespace_def NAMESPACE_def name_starts_with_def
    by (simp add: starts_with_def)
  moreover have "map to_ascii_upper ''CAMELID_DETERMINISTIC'' = ''CAMELID_DETERMINISTIC''"
    by (simp add: to_ascii_upper_def char_code_def)
  ultimately show ?thesis using lane_refused_windows by (cases windows) simp_all
qed

text \<open>Also: the lane is the only writer of its vector. When it refuses, nothing was written; when it enters,
  every canonical key has its canonical value, every other variable keeps the value it had, the published
  digests are the same for every environment, and entering again is refused.\<close>

theorem lane_is_the_only_writer:
  "case apply_deterministic windows sha256 env of
     (Inl message, env') \<Rightarrow> env' = env
   | (Inr vector, env') \<Rightarrow>
       (\<forall>x. map_of env' x = (case map_of CANONICAL x of Some v \<Rightarrow> Some v | None \<Rightarrow> map_of env x))
     \<and> vector = \<lparr>cv_sha256 = compute_config_sha256 sha256, cv_admission_sha256 = compute_admission_sha256 sha256\<rparr>
     \<and> (\<exists>message. apply_deterministic windows sha256 env' = (Inl message, env'))"
proof (cases "refuse_unpermitted windows env")
  case (Inr u)
  let ?env = "fold (\<lambda>(key, v). set_var key v) CANONICAL env"
  have vals: "map_of ?env x = (case map_of CANONICAL x of Some v \<Rightarrow> Some v | None \<Rightarrow> map_of env x)" for x
    by (simp add: map_of_set_vars canonical_map)
  have "map_of CANONICAL ''CAMELID_DETERMINISTIC'' = Some ''1''" by (simp add: CANONICAL_def)
  then have "map_of ?env ''CAMELID_DETERMINISTIC'' = Some ''1''" by (simp only: vals option.case)
  then have "(''CAMELID_DETERMINISTIC'', ''1'') \<in> set ?env" by (rule map_of_SomeD)
  moreover have "utf8_lossy ''CAMELID_DETERMINISTIC'' = ''CAMELID_DETERMINISTIC''"
    by (rule utf8_lossy_id, rule ascii_is_utf8) (simp add: char_code_def)
  ultimately have "refuse_unpermitted windows ?env \<noteq> Inr ()"
    unfolding refuse_unpermitted_ok using canonical_refused by force
  then obtain message where "refuse_unpermitted windows ?env = Inl message"
    by (metis (full_types) old.sum.exhaust old.unit.exhaust)
  then show ?thesis using Inr vals by (simp add: apply_deterministic_def)
qed (simp add: apply_deterministic_def)

section \<open>The admission digest\<close>

definition no_newline :: "string \<Rightarrow> bool" where "no_newline s \<longleftrightarrow> CHR 0x0A \<notin> set s"

definition rule_line :: "Match \<Rightarrow> string" where "rule_line rule = digest_tag rule @ literal rule"
definition foreign_line :: "string \<Rightarrow> string" where "foreign_line name = ''refuse_foreign='' @ name"

definition policy_lines :: "Permit list \<Rightarrow> (string \<times> string) list \<Rightarrow> string list" where
  "policy_lines rules foreign = map (rule_line \<circ> p_rule) rules @ map (foreign_line \<circ> fst) foreign"

lemma rule_line_inj: "rule_line a = rule_line b \<longleftrightarrow> a = b"
  by (cases a; cases b) (simp_all add: rule_line_def)

lemma foreign_line_inj: "foreign_line a = foreign_line b \<longleftrightarrow> a = b"
  by (simp add: foreign_line_def)

lemma rule_line_foreign: "rule_line a \<noteq> foreign_line name"
  by (cases a) (simp_all add: rule_line_def foreign_line_def)

lemma split_on_append_line: "c \<notin> set line \<Longrightarrow> split_on c (line @ c # rest) = line # split_on c rest"
  by (induction line) auto

lemma split_on_lines: "\<forall>line \<in> set lines. c \<notin> set line \<Longrightarrow> c \<notin> set final \<Longrightarrow>
    split_on c (concat (map (\<lambda>line. line @ [c]) lines) @ final) = lines @ [final]"
  by (induction lines) (auto simp: split_on_append_line split_on_no_sep)

lemma admission_preimage_lines:
  "admission_preimage rules foreign ns = concat (map (\<lambda>line. line @ [CHR 0x0A]) (policy_lines rules foreign)) @ ''namespace='' @ ns"
proof -
  have "concat (map (\<lambda>(name, r). ''refuse_foreign='' @ name @ newline) foreign)
      = concat (map ((\<lambda>line. line @ [CHR 0x0A]) \<circ> (foreign_line \<circ> fst)) foreign)"
    by (rule arg_cong [where f = concat]) (auto simp: newline_def foreign_line_def)
  then show ?thesis by (simp add: admission_preimage_def policy_lines_def rule_line_def newline_def comp_def)
qed

lemma policy_lines_no_newline:
  assumes "\<forall>permit \<in> set rules. no_newline (literal (p_rule permit))" and "\<forall>(name, r) \<in> set foreign. no_newline name"
  shows "\<forall>line \<in> set (policy_lines rules foreign). CHR 0x0A \<notin> set line"
proof -
  have "CHR 0x0A \<notin> set (digest_tag rule)" for rule by (cases rule) simp_all
  then show ?thesis using assms by (auto simp: policy_lines_def rule_line_def foreign_line_def no_newline_def)
qed

lemma map_inj_iff: "(\<And>a b. f a = f b \<longleftrightarrow> a = b) \<Longrightarrow> map f xs = map f ys \<longleftrightarrow> xs = ys"
  by (rule inj_map_eq_map) (simp add: inj_on_def)

lemma policy_lines_inj:
  assumes "policy_lines rules foreign = policy_lines rules' foreign'"
  shows "map p_rule rules = map p_rule rules' \<and> map fst foreign = map fst foreign'"
proof -
  let ?rules = "map rule_line (map p_rule rules)" and ?rules' = "map rule_line (map p_rule rules')"
  let ?is_rule = "\<lambda>line. line \<in> range rule_line"
  have lines: "policy_lines r f = map rule_line (map p_rule r) @ map foreign_line (map fst f)" for r f
    by (simp add: policy_lines_def)
  have "filter ?is_rule (map rule_line xs @ map foreign_line ys) = map rule_line xs"
    and "filter (Not \<circ> ?is_rule) (map rule_line xs @ map foreign_line ys) = map foreign_line ys" for xs ys
    using rule_line_foreign by (auto simp: filter_empty_conv intro!: filter_True; metis)+
  then have "?rules = ?rules'" and "map foreign_line (map fst foreign) = map foreign_line (map fst foreign')"
    using assms unfolding lines by metis+
  then show ?thesis using map_inj_iff [OF rule_line_inj] map_inj_iff [OF foreign_line_inj] by blast
qed

text \<open>Also: two admission policies that differ in what they admit or refuse never hash the same bytes. Over
  rules and names without line breaks, which every policy of the code has, the preimage of the admission
  digest determines the rules with their kinds, the foreign names and the namespace, in order.\<close>

theorem admission_policies_are_told_apart:
  assumes "\<forall>permit \<in> set rules \<union> set rules'. no_newline (literal (p_rule permit))"
    and "\<forall>(name, r) \<in> set foreign \<union> set foreign'. no_newline name" and "no_newline ns" and "no_newline ns'"
    and "admission_preimage rules foreign ns = admission_preimage rules' foreign' ns'"
  shows "map p_rule rules = map p_rule rules' \<and> map fst foreign = map fst foreign' \<and> ns = ns'"
proof -
  have "split_on (CHR 0x0A) (admission_preimage rules foreign ns) = policy_lines rules foreign @ [''namespace='' @ ns]"
    and "split_on (CHR 0x0A) (admission_preimage rules' foreign' ns') = policy_lines rules' foreign' @ [''namespace='' @ ns']"
    unfolding admission_preimage_lines using assms(1-4)
    by (intro split_on_lines policy_lines_no_newline; auto simp: no_newline_def)+
  with assms(5) have "policy_lines rules foreign = policy_lines rules' foreign'" and "ns = ns'" by simp_all
  then show ?thesis using policy_lines_inj by blast
qed

theorem admission_policies_are_told_apart_witness:
  "admission_preimage [\<lparr>p_rule = Exact ''CAMELID_X'', p_reason = []\<rparr>] [] NAMESPACE
     \<noteq> admission_preimage [\<lparr>p_rule = Prefix ''CAMELID_X'', p_reason = []\<rparr>] [] NAMESPACE"
proof
  assume "admission_preimage [\<lparr>p_rule = Exact ''CAMELID_X'', p_reason = []\<rparr>] [] NAMESPACE
     = admission_preimage [\<lparr>p_rule = Prefix ''CAMELID_X'', p_reason = []\<rparr>] [] NAMESPACE"
  from admission_policies_are_told_apart [OF _ _ _ _ this] show False
    by (simp add: no_newline_def NAMESPACE_def)
qed

end
