(* ===== verification/EngineDigest.thy ===== *)
theory EngineDigest
  imports Utf8 "HOL-Library.Char_ord" "HOL-Library.List_Lexorder" "HOL-Library.Multiset"
begin

text \<open>
  The identity of the serving engine (\<^verbatim>\<open>crates/server/build.rs\<close>): at build time the
  directory of \<^verbatim>\<open>engine-core/src\<close> is walked with an explicit stack, its \<^verbatim>\<open>.rs\<close> files are
  sorted by path and hashed, path and bytes. The theorem says which files the digest
  is a function of, whatever order the directories are listed in; two concrete
  pairs of trees show what it does not tell apart.
\<close>

datatype entry = FileEntry string string | DirEntry string "entry list"

text \<open>\<^verbatim>\<open>Path::extension\<close> of a file name: what follows the last dot, unless the dot is the first character.\<close>

definition extension :: "string \<Rightarrow> string option" where
  "extension name = (let after = takeWhile (\<lambda>c. c \<noteq> CHR ''.'') (rev name)
     in if length after < length name \<and> Suc (length after) \<noteq> length name then Some (rev after) else None)"

definition rust_files :: "string list \<Rightarrow> entry list \<Rightarrow> (string list \<times> string) list" where
  "rust_files dir entries = concat (map (\<lambda>e. case e of
       FileEntry name contents \<Rightarrow> if extension name = Some ''rs'' then [(dir @ [name], contents)] else []
     | DirEntry _ _ \<Rightarrow> []) entries)"

definition subdirectories :: "string list \<Rightarrow> entry list \<Rightarrow> (string list \<times> entry list) list" where
  "subdirectories dir entries = concat (map (\<lambda>e. case e of
       DirEntry name inside \<Rightarrow> [(dir @ [name], inside)] | FileEntry _ _ \<Rightarrow> []) entries)"

fun weight :: "entry \<Rightarrow> nat" where
  "weight (FileEntry name contents) = 1"
| "weight (DirEntry name inside) = 2 + sum_list (map weight inside)"

abbreviation directory_weight :: "string list \<times> entry list \<Rightarrow> nat" where
  "directory_weight d \<equiv> Suc (sum_list (map weight (snd d)))"

lemma subdirectories_weight: "sum_list (map directory_weight (subdirectories dir entries)) \<le> sum_list (map weight entries)"
proof (induction entries)
  case (Cons e entries)
  then show ?case by (cases e) (auto simp: subdirectories_def)
qed (simp add: subdirectories_def)

text \<open>The walk: the directory pushed last is read next.\<close>

function walk :: "(string list \<times> entry list) list \<Rightarrow> (string list \<times> string) list" where
  "walk [] = []"
| "walk ((dir, entries) # stack) = rust_files dir entries @ walk (rev (subdirectories dir entries) @ stack)"
  by pat_completeness auto
termination
  by (relation "measure (\<lambda>stack. sum_list (map directory_weight stack))")
    (auto simp: rev_map [symmetric] le_imp_less_Suc subdirectories_weight)

definition engine_sources :: "entry list \<Rightarrow> (string list \<times> string) list" where
  "engine_sources tree = sort_key fst (walk [([], tree)])"

fun join_path :: "string list \<Rightarrow> string" where
  "join_path [] = []"
| "join_path [name] = name"
| "join_path (name # path) = name @ ''/'' @ join_path path"

definition engine_preimage :: "entry list \<Rightarrow> string" where
  "engine_preimage tree =
     concat (map (\<lambda>(path, contents). utf8_lossy (join_path path) @ [CHR 0x00] @ contents) (engine_sources tree))"

definition engine_digest :: "(string \<Rightarrow> string) \<Rightarrow> entry list \<Rightarrow> string" where
  "engine_digest sha256 tree = sha256 (engine_preimage tree)"

section \<open>Which files the digest is of\<close>

fun files_of :: "string list \<Rightarrow> entry \<Rightarrow> (string list \<times> string) set" where
  "files_of dir (FileEntry name contents) = {(dir @ [name], contents)}"
| "files_of dir (DirEntry name inside) = \<Union> (files_of (dir @ [name]) ` set inside)"

text \<open>The Rust sources of a tree; the tree is a directory, in which names are unique.\<close>

definition rust_sources :: "entry list \<Rightarrow> (string list \<times> string) set" where
  "rust_sources tree = {(path, contents) \<in> \<Union> (files_of [] ` set tree). extension (last path) = Some ''rs''}"

fun entry_name :: "entry \<Rightarrow> string" where
  "entry_name (FileEntry name contents) = name"
| "entry_name (DirEntry name inside) = name"

fun unique_names :: "entry \<Rightarrow> bool" where
  "unique_names (FileEntry name contents) \<longleftrightarrow> True"
| "unique_names (DirEntry name inside) \<longleftrightarrow> distinct (map entry_name inside) \<and> list_all unique_names inside"

definition tree_ok :: "entry list \<Rightarrow> bool" where
  "tree_ok tree \<longleftrightarrow> distinct (map entry_name tree) \<and> list_all unique_names tree"

text \<open>The same walk by recursion on the tree.\<close>

fun rust_files_of :: "string list \<Rightarrow> entry \<Rightarrow> (string list \<times> string) list" where
  "rust_files_of dir (FileEntry name contents) = (if extension name = Some ''rs'' then [(dir @ [name], contents)] else [])"
| "rust_files_of dir (DirEntry name inside) = concat (map (rust_files_of (dir @ [name])) inside)"

lemma listing_simps [simp]:
  "rust_files dir [] = []" "subdirectories dir [] = []"
  "rust_files dir (FileEntry name contents # entries) =
     (if extension name = Some ''rs'' then [(dir @ [name], contents)] else []) @ rust_files dir entries"
  "rust_files dir (DirEntry name inside # entries) = rust_files dir entries"
  "subdirectories dir (FileEntry name contents # entries) = subdirectories dir entries"
  "subdirectories dir (DirEntry name inside # entries) = (dir @ [name], inside) # subdirectories dir entries"
  by (simp_all add: rust_files_def subdirectories_def)

abbreviation mset_below :: "string list \<times> entry list \<Rightarrow> (string list \<times> string) multiset" where
  "mset_below d \<equiv> mset (concat (map (rust_files_of (fst d)) (snd d)))"

lemma mset_listing:
  "mset_below (dir, entries) = mset (rust_files dir entries) + sum_list (map mset_below (subdirectories dir entries))"
proof (induction entries)
  case (Cons e entries)
  then show ?case by (cases e) (simp_all add: union_ac)
qed simp

lemma mset_walk: "mset (walk stack) = sum_list (map mset_below stack)"
proof (induction stack rule: walk.induct)
  case (2 dir entries stack)
  have "sum_list (map mset_below (rev xs)) = sum_list (map mset_below xs)" for xs
    by (simp add: rev_map [symmetric])
  then show ?case using 2 mset_listing [of dir entries] by (simp add: union_ac)
qed simp

lemma set_rust_files_of: "set (rust_files_of dir e) = {(path, contents) \<in> files_of dir e. extension (last path) = Some ''rs''}"
  by (induction dir e rule: rust_files_of.induct) auto

lemma rust_files_of_extend: "path \<in> fst ` set (rust_files_of dir e) \<Longrightarrow> \<exists>rest. path = dir @ entry_name e # rest"
proof (induction dir e arbitrary: path rule: rust_files_of.induct)
  case (2 dir name inside)
  then obtain e where "e \<in> set inside" "path \<in> fst ` set (rust_files_of (dir @ [name]) e)" by auto
  from 2(1) [OF this] show ?case by auto
qed (auto split: if_splits)

lemma distinct_listing:
  assumes "distinct (map entry_name entries)" and "\<forall>e \<in> set entries. distinct (map fst (rust_files_of dir e))"
  shows "distinct (map fst (concat (map (rust_files_of dir) entries)))"
  using assms
proof (induction entries)
  case (Cons e entries)
  have "fst ` set (rust_files_of dir e) \<inter> fst ` set (rust_files_of dir e') = {}" if "e' \<in> set entries" for e'
    using Cons.prems(1) that by (auto 4 4 dest!: imageI [of _ _ fst, THEN rust_files_of_extend])
  then have "fst ` set (rust_files_of dir e) \<inter> fst ` set (concat (map (rust_files_of dir) entries)) = {}" by auto
  with Cons show ?case by simp
qed simp

lemma distinct_rust_files_of: "unique_names e \<Longrightarrow> distinct (map fst (rust_files_of dir e))"
proof (induction dir e rule: rust_files_of.induct)
  case (2 dir name inside)
  then show ?case by (simp add: distinct_listing list_all_iff)
qed simp

text \<open>What is hashed: each Rust source of the tree once, in the order of the paths.\<close>

lemma engine_sources_facts:
  "set (engine_sources tree) = rust_sources tree" "sorted (map fst (engine_sources tree))"
  "tree_ok tree \<Longrightarrow> distinct (map fst (engine_sources tree))"
proof -
  have walk: "mset (walk [([], tree)]) = mset (concat (map (rust_files_of []) tree))" by (simp add: mset_walk del: walk.simps)
  from this have "set (walk [([], tree)]) = set (concat (map (rust_files_of []) tree))" by (rule mset_eq_setD)
  then show "set (engine_sources tree) = rust_sources tree"
    by (auto simp: engine_sources_def rust_sources_def set_rust_files_of)
  show "sorted (map fst (engine_sources tree))" by (simp add: engine_sources_def)
  assume "tree_ok tree"
  then have "distinct (map fst (concat (map (rust_files_of []) tree)))"
    by (intro distinct_listing) (auto simp: tree_ok_def list_all_iff distinct_rust_files_of)
  moreover have "mset (map fst (engine_sources tree)) = mset (map fst (concat (map (rust_files_of []) tree)))"
    by (simp only: engine_sources_def mset_map mset_sort walk)
  ultimately show "distinct (map fst (engine_sources tree))" by (metis distinct_count_atmost_1 mset_eq_imp_distinct_iff)
qed

text \<open>Also: the engine digest is a function of the engine's Rust sources and of nothing else. It hashes each
  \<^verbatim>\<open>.rs\<close> file of the tree once, path and bytes, in the order of the paths; so two trees with the same Rust
  sources have the same digest, in whatever order their directories are listed.\<close>

theorem engine_digest_is_of_the_rust_sources:
  assumes "tree_ok tree"
  shows "set (engine_sources tree) = rust_sources tree \<and> sorted_wrt (<) (map fst (engine_sources tree))
       \<and> (tree_ok tree' \<and> rust_sources tree' = rust_sources tree \<longrightarrow>
            engine_digest sha256 tree' = engine_digest sha256 tree)"
proof -
  have "engine_sources tree' = engine_sources tree" if "tree_ok tree'" "rust_sources tree' = rust_sources tree"
  proof -
    have d: "distinct (map fst (engine_sources tree))" "distinct (map fst (engine_sources tree'))"
      using assms that(1) engine_sources_facts(3) by blast+
    have "set (engine_sources tree') = set (engine_sources tree)" using that(2) engine_sources_facts(1) by simp
    with d show ?thesis
      by (intro map_sorted_distinct_set_unique [of fst]) (simp_all add: engine_sources_facts(2) distinct_map)
  qed
  then show ?thesis
    using assms engine_sources_facts [of tree] by (auto simp: strict_sorted_iff engine_digest_def engine_preimage_def)
qed

theorem engine_digest_is_of_the_rust_sources_witness:
  "engine_digest (\<lambda>s. s) [FileEntry ''lib.rs'' ''b'', FileEntry ''host.rs'' ''a'']
     = engine_digest (\<lambda>s. s) [FileEntry ''host.rs'' ''a'', FileEntry ''lib.rs'' ''b'']"
proof -
  let ?a = "[FileEntry ''host.rs'' ''a'', FileEntry ''lib.rs'' ''b'']" and ?b = "[FileEntry ''lib.rs'' ''b'', FileEntry ''host.rs'' ''a'']"
  have ok: "tree_ok ?a" "tree_ok ?b" by (simp_all add: tree_ok_def)
  moreover have "rust_sources ?b = rust_sources ?a" by (auto simp: rust_sources_def)
  ultimately show ?thesis using engine_digest_is_of_the_rust_sources [OF ok(1), of ?b "\<lambda>s. s"] by blast
qed

section \<open>What the digest does not tell apart\<close>

text \<open>A file that a source includes under another extension is compiled into the engine and not hashed: the
  mark table of the tokenizer is such a file.\<close>

lemma included_tables_are_not_hashed:
  "engine_digest sha256 [FileEntry ''tokenizer.rs'' source, FileEntry ''tokenizer_mark_ranges.rs.inc'' ''[(0x300, 0x36F)]'']
     = engine_digest sha256 [FileEntry ''tokenizer.rs'' source, FileEntry ''tokenizer_mark_ranges.rs.inc'' ''[]'']"
proof -
  have "extension ''tokenizer_mark_ranges.rs.inc'' \<noteq> Some ''rs''" by (simp add: extension_def Let_def)
  then show ?thesis by (simp add: engine_digest_def engine_preimage_def engine_sources_def)
qed

text \<open>Contents are not delimited, so the bytes of one file can be read as the name of the next.\<close>

lemma contents_are_not_delimited:
  "engine_preimage [FileEntry ''a.rs'' ''x'', FileEntry ''b.rs'' ''y''] = engine_preimage [FileEntry ''a.rs'' [], FileEntry ''xb.rs'' ''y'']"
proof -
  have ext: "extension ''a.rs'' = Some ''rs''" "extension ''b.rs'' = Some ''rs''" "extension ''xb.rs'' = Some ''rs''"
    by (simp_all add: extension_def Let_def)
  have ids: "utf8_lossy ''a.rs'' = ''a.rs''" "utf8_lossy ''b.rs'' = ''b.rs''" "utf8_lossy ''xb.rs'' = ''xb.rs''"
    by (rule utf8_lossy_id, rule ascii_is_utf8, simp add: char_code_def)+
  show ?thesis
    by (simp add: engine_preimage_def engine_sources_def ext ids list_less_def less_char_def)
qed

end
