(* ===== verification/Surface.thy ===== *)
theory Surface
  imports Contract Lane Routing
begin

text \<open>
  The surface a replica serves (\<^verbatim>\<open>crates/server/src/surface.rs\<close>): the route filter
  that reads the public contract, and the filter that reads the body of a
  generation request and lets no name but the served model's through to the
  engine. Requests are those of \<open>Routing\<close>. Reading and printing JSON is
  \<^verbatim>\<open>serde_json\<close>'s and an argument (\<open>value_lib\<close>): reading demands the whole input.
\<close>

section \<open>Routes\<close>

fun declared_as_http :: "HttpMethod \<Rightarrow> string" where
  "declared_as_http Get = ''GET''"
| "declared_as_http Post = ''POST''"
| "declared_as_http Delete = ''DELETE''"

definition method_is_admitted :: "RouteSpec \<Rightarrow> string \<Rightarrow> bool" where
  "method_is_admitted spec method \<longleftrightarrow> method = ''OPTIONS''
     \<or> list_ex (\<lambda>declared. method = declared_as_http declared
          \<or> (declared_as_http declared = ''GET'' \<and> method = ''HEAD'')) (rs_methods spec)"

fun segments_match :: "string list \<Rightarrow> string list \<Rightarrow> bool" where
  "segments_match [] [] = True"
| "segments_match (expected # pattern) (actual # path) =
     ((if starts_with expected '':'' then actual \<noteq> [] else expected = actual) \<and> segments_match pattern path)"
| "segments_match _ _ = False"

definition path_matches :: "string \<Rightarrow> string \<Rightarrow> bool" where
  "path_matches pattern path = segments_match (split_on (CHR ''/'') pattern) (split_on (CHR ''/'') path)"

definition is_served :: "string \<Rightarrow> string \<Rightarrow> bool" where
  "is_served method path \<longleftrightarrow> list_ex (\<lambda>spec. path_matches (rs_path spec) path \<and> method_is_admitted spec method) PUBLIC_ROUTES"

definition openai_error :: "nat \<Rightarrow> (string \<times> json) list \<Rightarrow> json response" where
  "openai_error status members = json_response status (JObject [(''error'', JObject members)])"

definition route_refused :: "string \<Rightarrow> string \<Rightarrow> json response" where
  "route_refused method path = openai_error 403
     [(''message'', JString (method @ '' '' @ path @ '' is not part of '' @ CONTRACT_ID @ ''. This replica serves the published public route contract '' @ em_dash @ '' health, model ''
        @ ''discovery and generation '' @ em_dash @ '' and withholds the engine's model-management, runtime-control, ''
        @ ''workspace and legacy routes, because a replica that can be reconfigured over its serving port ''
        @ ''cannot vouch for what produced its output.'')),
      (''type'', JString ''invalid_request_error''), (''code'', JString ''route_not_served'')]"

text \<open>A filter answers, passes the request on, or is still waiting for the body.\<close>

datatype filtered = Answers "json response" | Passes request | Waits

definition serve_only_the_lane :: "request \<Rightarrow> filtered" where
  "serve_only_the_lane request =
     (if \<not> is_served (q_method request) (uri_path (q_uri request))
      then Answers (route_refused (q_method request) (uri_path (q_uri request)))
      else Passes request)"

section \<open>The served model\<close>

record ServedModel =
  sm_id :: string
  sm_aliases :: "string list"

text \<open>\<^verbatim>\<open>Path::file_name\<close> and \<^verbatim>\<open>Path::file_stem\<close> on a Unix path.\<close>

definition file_name :: "string \<Rightarrow> string option" where
  "file_name path = (case rev (filter (\<lambda>c. c \<noteq> [] \<and> c \<noteq> ''.'') (split_on (CHR ''/'') path)) of
       [] \<Rightarrow> None
     | component # _ \<Rightarrow> if component = ''..'' then None else Some component)"

definition file_stem :: "string \<Rightarrow> string option" where
  "file_stem path = map_option (\<lambda>name. case rsplit_once name ''.'' of
       None \<Rightarrow> name
     | Some (before, _) \<Rightarrow> if before = [] then name else before) (file_name path)"

text \<open>The \<^verbatim>\<open>BTreeSet\<close> of aliases is the sorted list of its elements.\<close>

definition served_model_new :: "string \<Rightarrow> string \<Rightarrow> string \<Rightarrow> ServedModel" where
  "served_model_new model_id canonical requested =
     \<lparr>sm_id = model_id, sm_aliases = filter (\<lambda>alias. alias \<noteq> [])
        (fold (\<lambda>path aliases. fold insort_insert
             (utf8_lossy path # map utf8_lossy (List.map_filter id [file_name path, file_stem path])) aliases)
           [canonical, requested] [model_id])\<rparr>"

definition names_this_model :: "ServedModel \<Rightarrow> string \<Rightarrow> bool" where
  "names_this_model served requested \<longleftrightarrow> requested \<in> set (sm_aliases served)"

section \<open>The generation body\<close>

definition REQUEST_BODY_LIMIT :: nat where "REQUEST_BODY_LIMIT = 2 * 1024 * 1024"

definition is_generation_path :: "string \<Rightarrow> bool" where
  "is_generation_path path \<longleftrightarrow> path = ''/v1/completions'' \<or> path = ''/v1/chat/completions''"

definition not_this_replicas_model :: "ServedModel \<Rightarrow> json response" where
  "not_this_replicas_model served = openai_error 404
     [(''message'', JString (''this replica serves one model, '' @ [CHR 0x27] @ sm_id served @ [CHR 0x27] @ '', and answers only to that name. Its digest is published on ''
        @ ''every response, so a request that could repoint it to other weights would make that digest ''
        @ ''untrue; the model field is therefore checked rather than resolved.'')),
      (''type'', JString ''invalid_request_error''), (''param'', JString ''model''), (''code'', JString ''model_not_served'')]"

definition uncheckable_request :: "json response" where
  "uncheckable_request = openai_error 400
     [(''message'', JString (''a generation request body must be a single JSON object and nothing else. This replica checks ''
        @ ''the model field of every generation request before serving it, so a body it cannot parse in ''
        @ ''full is refused rather than forwarded unchecked '' @ em_dash @ '' including one that carries trailing bytes ''
        @ ''after an otherwise valid object.'')),
      (''type'', JString ''invalid_request_error''), (''code'', JString ''unparseable_request_body'')]"

definition could_not_rewrite :: "json response" where
  "could_not_rewrite = openai_error 500
     [(''message'', JString (''the request was accepted but could not be rewritten for the engine, and is refused rather than ''
        @ ''forwarded unchecked. Retry; if this repeats, it is a defect in this replica rather than in the ''
        @ ''request.'')),
      (''type'', JString ''server_error''), (''code'', JString ''request_rewrite_failed'')]"

definition oversized_request :: "json response" where
  "oversized_request = openai_error 413
     [(''message'', JString (''request body exceeds the '' @ show_nat (REQUEST_BODY_LIMIT div (1024 * 1024)) @ '' MiB this replica will read. The model field of a generation ''
        @ ''request is checked before the request is served, so a body that cannot be read cannot be ''
        @ ''served '' @ em_dash @ '' and a body this size would not have been accepted past this point either.'')),
      (''type'', JString ''invalid_request_error''), (''code'', JString ''request_too_large'')]"

text \<open>\<open>serde_json::Map\<close>: one member for each key.\<close>

definition map_insert :: "string \<Rightarrow> json \<Rightarrow> (string \<times> json) list \<Rightarrow> (string \<times> json) list" where
  "map_insert key v members =
     (if key \<in> fst ` set members then map (\<lambda>(k, v'). if k = key then (k, v) else (k, v')) members
      else members @ [(key, v)])"

record value_lib =
  from_slice :: "string \<Rightarrow> json option"
  to_vec :: "json \<Rightarrow> string option"

definition pin_generation_to_the_served_model :: "value_lib \<Rightarrow> ServedModel \<Rightarrow> request \<Rightarrow> filtered" where
  "pin_generation_to_the_served_model lib served request =
     (if \<not> (q_method request = ''POST'' \<and> is_generation_path (uri_path (q_uri request))) then Passes request
      else (case read_body REQUEST_BODY_LIMIT (q_body request) of
        Elapsed \<Rightarrow> Waits
      | InTime (Inl _) \<Rightarrow> Answers oversized_request
      | InTime (Inr bytes) \<Rightarrow>
     (case from_slice lib bytes of
        Some (JObject object) \<Rightarrow>
          let unchanged = Passes (request\<lparr>q_body := Arrives bytes\<rparr>) in
          (case map_of object ''model'' of
             None \<Rightarrow> unchanged
           | Some JNull \<Rightarrow> unchanged
           | Some (JString requested) \<Rightarrow>
               if \<not> names_this_model served requested then Answers (not_this_replicas_model served)
               else if requested = sm_id served then unchanged
               else (case to_vec lib (JObject (map_insert ''model'' (JString (sm_id served)) object)) of
                   None \<Rightarrow> Answers could_not_rewrite
                 | Some rewritten \<Rightarrow> Passes (request\<lparr>q_body := Arrives rewritten,
                     q_headers := insert_header ''content-length'' (show_nat (length rewritten)) (q_headers request)\<rparr>))
           | Some _ \<Rightarrow> Answers (not_this_replicas_model served))
      | _ \<Rightarrow> Answers uncheckable_request)))"

end
