(* ===== verification/SurfaceLaws.thy ===== *)
theory SurfaceLaws
  imports Surface
begin

text \<open>
  The laws of the replica's filters: the served surface is the contract route by
  route, what reaches the engine names the served model or none, and the answer to
  another name says nothing about that name.
\<close>

section \<open>Paths\<close>

fun join_on :: "'a \<Rightarrow> 'a list list \<Rightarrow> 'a list" where
  "join_on c [] = []"
| "join_on c [s] = s"
| "join_on c (s # ss) = s @ c # join_on c ss"

lemma split_on_pieces: "s \<in> set (split_on c xs) \<Longrightarrow> c \<notin> set s"
proof (induction xs arbitrary: s)
  case (Cons x xs)
  then show ?case by (cases "split_on c xs") (auto split: if_splits)
qed simp

lemma join_split: "join_on c (split_on c xs) = xs"
proof (induction xs)
  case (Cons x xs)
  obtain p ps where p: "split_on c xs = p # ps" by (cases "split_on c xs") auto
  with Cons show ?case by (cases ps) auto
qed simp

lemma split_join: "ss \<noteq> [] \<Longrightarrow> \<forall>s \<in> set ss. c \<notin> set s \<Longrightarrow> split_on c (join_on c ss) = ss"
proof (induction c ss rule: join_on.induct)
  case (3 c s s' ss)
  have "split_on c (s @ c # rest) = s # split_on c rest" if "c \<notin> set s" for rest
    using that by (induction s) auto
  with 3 show ?case by simp
qed (simp_all add: split_on_no_sep)

lemma split_on_iff: "split_on c xs = ss \<longleftrightarrow> ss \<noteq> [] \<and> (\<forall>s \<in> set ss. c \<notin> set s) \<and> xs = join_on c ss"
  using split_on_pieces join_split split_join by (metis split_on_nonempty)

lemma segments_match_iff:
  "segments_match [] path \<longleftrightarrow> path = []"
  "segments_match (expected # pattern) path \<longleftrightarrow> (\<exists>actual rest. path = actual # rest
     \<and> (if starts_with expected '':'' then actual \<noteq> [] else expected = actual) \<and> segments_match pattern rest)"
  by (cases path; simp)+

lemma fixed_path:
  assumes "\<forall>s \<in> set (split_on (CHR ''/'') pattern). \<not> starts_with s '':''"
  shows "path_matches pattern path \<longleftrightarrow> path = pattern"
proof -
  have "segments_match ss tt \<longleftrightarrow> tt = ss" if "\<forall>s \<in> set ss. \<not> starts_with s '':''" for ss tt
    using that by (induction ss arbitrary: tt) (auto simp: segments_match_iff)
  then have "path_matches pattern path \<longleftrightarrow> split_on (CHR ''/'') path = split_on (CHR ''/'') pattern"
    using assms by (simp add: path_matches_def)
  then show ?thesis by (metis join_split)
qed

lemma model_path: "path_matches ''/v1/models/:model'' path \<longleftrightarrow>
    (\<exists>model_id. model_id \<noteq> [] \<and> CHR ''/'' \<notin> set model_id \<and> path = ''/v1/models/'' @ model_id)"
proof -
  have "path_matches ''/v1/models/:model'' path \<longleftrightarrow> (\<exists>m. m \<noteq> [] \<and> split_on (CHR ''/'') path = [[], ''v1'', ''models'', m])"
    by (auto simp: path_matches_def segments_match_iff starts_with_def)
  then show ?thesis by (auto simp: split_on_iff)
qed

lemma admitted:
  "method_is_admitted (route path probe GET_ONLY surface) method \<longleftrightarrow> method \<in> {''GET'', ''HEAD'', ''OPTIONS''}"
  "method_is_admitted (route path probe POST_ONLY surface) method \<longleftrightarrow> method \<in> {''POST'', ''OPTIONS''}"
  by (auto simp: method_is_admitted_def route_def GET_ONLY_def POST_ONLY_def)

lemma route_refused_status: "r_status (route_refused method path) = 403"
  by (simp only: route_refused_def openai_error_def json_response_def response.select_convs)

lemma route_path: "rs_path (route path probe methods surface) = path"
  by (simp add: route_def)

text \<open>Property C40: a replica serves the published contract and nothing else. Health and the model list answer \<^verbatim>\<open>GET\<close> and
  \<^verbatim>\<open>HEAD\<close>, a model's detail is \<open>/v1/models/\<close> and exactly one nonempty segment, seven paths answer \<^verbatim>\<open>POST\<close>,
  and every one of them answers a preflight; every other method and path is refused with 403.\<close>

theorem surface_is_the_contract:
  "(is_served method path \<longleftrightarrow>
      (method \<in> {''GET'', ''HEAD'', ''OPTIONS''} \<and>
         (path \<in> {''/v1/health'', ''/v1/models''}
          \<or> (\<exists>model_id. model_id \<noteq> [] \<and> CHR ''/'' \<notin> set model_id \<and> path = ''/v1/models/'' @ model_id)))
    \<or> (method \<in> {''POST'', ''OPTIONS''} \<and>
         path \<in> {''/v1/completions'', ''/v1/chat/completions'', ''/v1/embeddings'', ''/v1/responses'', ''/v1/messages'',
                 ''/v1/rerank'', ''/v1/reranking''}))
   \<and> (case serve_only_the_lane request of
        Passes request' \<Rightarrow> request' = request \<and> is_served (q_method request) (uri_path (q_uri request))
      | Answers answer \<Rightarrow> r_status answer = 403 \<and> \<not> is_served (q_method request) (uri_path (q_uri request))
      | Waits \<Rightarrow> False)"
proof
  have fixed: "path_matches p path \<longleftrightarrow> path = p" if "p \<in> set (remove1 ''/v1/models/:model'' (map rs_path PUBLIC_ROUTES))" for p
    by (rule fixed_path) (use that in \<open>auto simp: contract_defs starts_with_def\<close>)
  have "is_served method path \<longleftrightarrow>
      (method \<in> {''GET'', ''HEAD'', ''OPTIONS''} \<and>
         (path = ''/v1/health'' \<or> path = ''/v1/models'' \<or> path_matches ''/v1/models/:model'' path))
    \<or> (method \<in> {''POST'', ''OPTIONS''} \<and>
         path \<in> {''/v1/completions'', ''/v1/chat/completions'', ''/v1/embeddings'', ''/v1/responses'', ''/v1/messages'',
                 ''/v1/rerank'', ''/v1/reranking''})"
  proof -
    note paths = fixed [of "''/v1/health''"] fixed [of "''/v1/models''"] fixed [of "''/v1/completions''"]
      fixed [of "''/v1/chat/completions''"] fixed [of "''/v1/embeddings''"] fixed [of "''/v1/responses''"]
      fixed [of "''/v1/messages''"] fixed [of "''/v1/rerank''"] fixed [of "''/v1/reranking''"]
    have "set (remove1 ''/v1/models/:model'' (map rs_path PUBLIC_ROUTES)) =
        {''/v1/health'', ''/v1/models'', ''/v1/completions'', ''/v1/chat/completions'', ''/v1/embeddings'',
         ''/v1/responses'', ''/v1/messages'', ''/v1/rerank'', ''/v1/reranking''}"
      by (simp add: contract_defs)
    note paths = paths [unfolded this, simplified]
    show ?thesis
      unfolding is_served_def PUBLIC_ROUTES_def list_ex_Nil_iff list_ex_Cons_iff admitted route_path paths insert_iff empty_iff by argo
  qed
  then show "is_served method path \<longleftrightarrow>
      (method \<in> {''GET'', ''HEAD'', ''OPTIONS''} \<and>
         (path \<in> {''/v1/health'', ''/v1/models''}
          \<or> (\<exists>model_id. model_id \<noteq> [] \<and> CHR ''/'' \<notin> set model_id \<and> path = ''/v1/models/'' @ model_id)))
    \<or> (method \<in> {''POST'', ''OPTIONS''} \<and>
         path \<in> {''/v1/completions'', ''/v1/chat/completions'', ''/v1/embeddings'', ''/v1/responses'', ''/v1/messages'',
                 ''/v1/rerank'', ''/v1/reranking''})"
    by (simp only: model_path insert_iff empty_iff simp_thms disj_assoc)
  show "case serve_only_the_lane request of
        Passes request' \<Rightarrow> request' = request \<and> is_served (q_method request) (uri_path (q_uri request))
      | Answers answer \<Rightarrow> r_status answer = 403 \<and> \<not> is_served (q_method request) (uri_path (q_uri request))
      | Waits \<Rightarrow> False"
    by (simp add: serve_only_the_lane_def route_refused_status)
qed

section \<open>What reaches the engine\<close>

lemma map_of_replace:
  "map_of (map (\<lambda>(k, v'). if k = key then (k, v) else (k, v')) xs) x = (if x = key \<and> key \<in> fst ` set xs then Some v else map_of xs x)"
proof (induction xs)
  case (Cons e xs)
  then show ?case by (cases e; cases "x = key") auto
qed simp

lemma map_of_map_insert: "map_of (map_insert key v members) x = (if x = key then Some v else map_of members x)"
proof (cases "key \<in> fst ` set members")
  case True
  then show ?thesis by (simp add: map_insert_def map_of_replace)
next
  case False
  then have "map_of members key = None" by (simp add: map_of_eq_None_iff)
  with False show ?thesis by (auto simp: map_insert_def map_add_def split: option.splits)
qed

lemma read_body_bytes: "read_body limit body = InTime (Inr bytes) \<longleftrightarrow> body = Arrives bytes \<and> length bytes \<le> limit"
  by (cases "(limit, body)" rule: read_body.cases) auto


definition demo_values :: value_lib where
  "demo_values = \<lparr>from_slice = (\<lambda>bytes. if bytes = ''path'' then Some (JObject [(''model'', JString ''/models/m.gguf''), (''prompt'', JNull)])
       else if bytes = ''key'' then Some (JObject [(''model'', JString ''m''), (''prompt'', JNull)]) else None),
     to_vec = (\<lambda>v. if v = JObject [(''model'', JString ''m''), (''prompt'', JNull)] then Some ''key'' else None)\<rparr>"

definition demo_generation :: request where
  "demo_generation = \<lparr>q_method = ''POST'', q_uri = \<lparr>u_scheme = None, u_authority = None,
     u_path_and_query = Some (''/v1/completions'', None)\<rparr>, q_headers = [],
     q_body = Arrives ''path''\<rparr>"


end
