(* ===== verification/Attribution.thy ===== *)
theory Attribution
  imports Surface
begin

text \<open>
  Lane attribution (\<^verbatim>\<open>crates/server/src/attribution.rs\<close>): the identity of the model
  file, the resolved worker width, the headers stamped on every response, the
  fields injected into completion bodies, and the serving receipt. A response body
  is what will arrive of it, as in \<open>Routing\<close>; header values and JSON are the
  libraries' and arguments.
\<close>

definition BODY_LIMIT :: nat where "BODY_LIMIT = 64 * 1024 * 1024"
definition SHORT_HEX :: nat where "SHORT_HEX = 12"

section \<open>The model file\<close>

text \<open>\<open>fp_node\<close> is the device and inode, which only Unix has.\<close>

record FileFingerprint =
  fp_len :: nat
  fp_node :: "(nat \<times> nat) option"

record ModelIdentity =
  mi_sha256 :: string
  mi_short :: string
  mi_fingerprint :: FileFingerprint

definition model_identity_new :: "(string \<Rightarrow> string option) \<Rightarrow> string \<Rightarrow> FileFingerprint \<Rightarrow> (string, ModelIdentity) res" where
  "model_identity_new header_value sha fingerprint =
     and_then (ok_or ''the model digest does not encode as a header value''
         (header_value (if SHORT_HEX \<le> length sha then take SHORT_HEX sha else [])))
       (\<lambda>short. Inr \<lparr>mi_sha256 = sha, mi_short = short, mi_fingerprint = fingerprint\<rparr>)"

text \<open>Reading the file: the results of the successive reads, an empty one at the end of the file.\<close>

fun digest_chunks :: "(string, string) res list \<Rightarrow> string \<Rightarrow> (string, string) res" where
  "digest_chunks [] hashed = Inr hashed"
| "digest_chunks (Inl err # reads) hashed = Inl err"
| "digest_chunks (Inr chunk # reads) hashed = (if chunk = [] then Inr hashed else digest_chunks reads (hashed @ chunk))"

definition unreadable :: "string \<Rightarrow> string \<Rightarrow> string" where
  "unreadable path err = ''cannot read the model at '' @ path @ '' to identify it: '' @ err"

definition model_identity_of_file :: "(string \<Rightarrow> string) \<Rightarrow> (string \<Rightarrow> string option) \<Rightarrow> string
    \<Rightarrow> (string, (string, FileFingerprint) res \<times> (string, string) res list) res \<Rightarrow> (string, ModelIdentity) res" where
  "model_identity_of_file sha256 header_value path file =
     and_then (map_err (unreadable path) file) (\<lambda>(metadata, reads).
     and_then (map_err (unreadable path) metadata) (\<lambda>fingerprint.
     and_then (map_err (unreadable path) (digest_chunks reads [])) (\<lambda>hashed.
       model_identity_new header_value (sha256 hashed) fingerprint)))"

definition model_short :: "ModelIdentity \<Rightarrow> string" where
  "model_short m = take SHORT_HEX (mi_sha256 m)"

definition verify_unchanged :: "ModelIdentity \<Rightarrow> string \<Rightarrow> (string, FileFingerprint) res \<Rightarrow> (string, unit) res" where
  "verify_unchanged m path metadata =
     and_then (map_err (\<lambda>err. ''cannot re-check the model at '' @ path @ '' after loading it: '' @ err) metadata)
       (\<lambda>fingerprint. if fingerprint = mi_fingerprint m then Inr ()
         else Inl (''the model at '' @ path @ '' changed between being identified and being loaded. This replica ''
           @ ''publishes '' @ model_short m @ '' on every response, and can no longer vouch that it describes the bytes ''
           @ ''that were loaded, so it refuses to serve.''))"

record WorkerThreads =
  wt_count :: nat
  wt_header :: string

definition worker_threads_resolved :: "nat \<Rightarrow> WorkerThreads" where
  "worker_threads_resolved n = \<lparr>wt_count = n, wt_header = show_nat n\<rparr>"

section \<open>What is stamped, injected and recorded\<close>

record Attribution =
  at_lane :: string
  at_config_sha256 :: string
  at_admission_sha256 :: string
  at_model :: ModelIdentity
  at_host :: string
  at_workers :: WorkerThreads
  at_receipts :: bool

record attribution_lib =
  al_http :: http_lib
  al_values :: value_lib
  al_header_value :: "string \<Rightarrow> string option"
  al_engine_digest :: string

definition insert_valid_header :: "(string \<Rightarrow> string option) \<Rightarrow> string \<Rightarrow> string \<Rightarrow> header_map \<Rightarrow> header_map" where
  "insert_valid_header header_value name v headers = (case header_value v of
       Some v' \<Rightarrow> insert_header name v' headers
     | None \<Rightarrow> headers)"

definition stamp :: "attribution_lib \<Rightarrow> Attribution \<Rightarrow> 'b response \<Rightarrow> 'b response" where
  "stamp lib ctx resp =
     (let headers = insert_header ''x-camelid-lane'' (at_lane ctx) (r_headers resp);
          headers = insert_valid_header (al_header_value lib) ''x-camelid-config-sha256'' (take SHORT_HEX (at_config_sha256 ctx)) headers;
          headers = insert_valid_header (al_header_value lib) ''x-camelid-admission-sha256'' (take SHORT_HEX (at_admission_sha256 ctx)) headers;
          headers = insert_header ''x-camelid-posture'' EXECUTION_POSTURE headers;
          headers = insert_valid_header (al_header_value lib) ''x-camelid-engine-sha256'' (take 12 (al_engine_digest lib)) headers;
          headers = insert_valid_header (al_header_value lib) ''x-camelid-host'' (at_host ctx) headers;
          headers = insert_header ''x-camelid-model-sha256'' (mi_short (at_model ctx)) headers;
          headers = insert_header ''x-camelid-worker-threads'' (wt_header (at_workers ctx)) headers
      in resp\<lparr>r_headers := headers\<rparr>)"

definition inject :: "attribution_lib \<Rightarrow> Attribution \<Rightarrow> json \<Rightarrow> json" where
  "inject lib ctx v = (case v of
       JObject obj \<Rightarrow> JObject (fold (\<lambda>(key, v). map_insert key v)
         [(''camelid_lane'', JString (at_lane ctx)),
          (''camelid_config_sha256'', JString (take SHORT_HEX (at_config_sha256 ctx))),
          (''camelid_admission_sha256'', JString (take SHORT_HEX (at_admission_sha256 ctx))),
          (''camelid_posture'', JString EXECUTION_POSTURE),
          (''camelid_engine_sha256'', JString (take 12 (al_engine_digest lib))),
          (''camelid_model_sha256'', JString (model_short (at_model ctx))),
          (''camelid_host'', JString (at_host ctx)),
          (''camelid_worker_threads'', json_nat (wt_count (at_workers ctx)))] obj)
     | _ \<Rightarrow> v)"

definition receipt :: "attribution_lib \<Rightarrow> Attribution \<Rightarrow> string \<Rightarrow> string \<Rightarrow> nat \<Rightarrow> rat \<Rightarrow> string option \<Rightarrow> json" where
  "receipt lib ctx method path status ts request_id = JObject
     [(''ts'', JNumber (Finite ts)), (''request_id'', json_opt request_id), (''method'', JString method),
      (''path'', JString path), (''status'', json_nat status), (''lane'', JString (at_lane ctx)),
      (''config_sha256'', JString (at_config_sha256 ctx)), (''admission_sha256'', JString (at_admission_sha256 ctx)),
      (''posture'', JString EXECUTION_POSTURE), (''engine_sha256'', JString (al_engine_digest lib)),
      (''model_sha256'', JString (mi_sha256 (at_model ctx))), (''host'', JString (at_host ctx)),
      (''worker_threads'', json_nat (wt_count (at_workers ctx)))]"

definition is_completion_path :: "string \<Rightarrow> bool" where
  "is_completion_path path \<longleftrightarrow> path = ''/v1/chat/completions'' \<or> path = ''/v1/completions''"

section \<open>The middleware\<close>

definition unbuffered_error :: string where
  "unbuffered_error = ''{\"error\":{\"message\":\"response exceeded the attribution buffer limit\",\"type\":\"server_error\"}}''"

definition has_json_body :: "http_lib \<Rightarrow> header_map \<Rightarrow> bool" where
  "has_json_body lib headers = (case Option.bind (get_header ''content-type'' headers) (lib_to_str lib) of
       Some v \<Rightarrow> starts_with v ''application/json''
     | None \<Rightarrow> False)"

text \<open>The completion body rewritten, or the answer made when it cannot be buffered; \<open>None\<close>: still arriving.\<close>

definition attribute_body :: "attribution_lib \<Rightarrow> Attribution \<Rightarrow> arrival response \<Rightarrow> arrival response option" where
  "attribute_body lib ctx resp = (case read_body BODY_LIMIT (r_body resp) of
       Elapsed \<Rightarrow> None
     | InTime (Inr bytes) \<Rightarrow>
         let rewritten = (case from_slice (al_values lib) bytes of
               Some v \<Rightarrow> (case to_vec (al_values lib) (inject lib ctx v) of Some out \<Rightarrow> out | None \<Rightarrow> bytes)
             | None \<Rightarrow> bytes)
         in Some (resp\<lparr>r_headers := remove_header ''content-length'' (r_headers resp), r_body := Arrives rewritten\<rparr>)
     | InTime (Inl _) \<Rightarrow> Some (stamp lib ctx
         \<lparr>r_status = 500, r_headers = [(''content-type'', ''application/json'')], r_body = Arrives unbuffered_error\<rparr>))"

text \<open>\<open>resp\<close> is what the inner service answered; the second result is the receipt owed.\<close>

definition attribute :: "attribution_lib \<Rightarrow> Attribution \<Rightarrow> rat \<Rightarrow> request \<Rightarrow> arrival response
    \<Rightarrow> (arrival response \<times> json option) option" where
  "attribute lib ctx ts request resp =
     (let path = uri_path (q_uri request);
          request_id = Option.bind (get_header ''x-camelid-request-id'' (q_headers request)) (lib_to_str (al_http lib));
          resp = stamp lib ctx resp
      in map_option (\<lambda>resp. (resp, if at_receipts ctx
             then Some (receipt lib ctx (q_method request) path (r_status resp) ts request_id) else None))
           (if is_completion_path path \<and> has_json_body (al_http lib) (r_headers resp)
            then attribute_body lib ctx resp else Some resp))"

text \<open>One record is one append of the whole line, under the process-wide lock.\<close>

definition append_receipt :: "(json \<Rightarrow> string) \<Rightarrow> bool \<Rightarrow> json \<Rightarrow> string \<Rightarrow> string" where
  "append_receipt print can_open line file = (if can_open then file @ print line @ newline else file)"

end
