(* ===== verification/AttributionLaws.thy ===== *)
theory AttributionLaws
  imports Attribution SurfaceLaws
begin

text \<open>
  The laws of attribution: every response names its replica, a completion body
  says the same as its headers, the receipt says the same in full, and the model's
  digest is of the whole file however it was read.
\<close>

section \<open>Headers\<close>

definition attribution_names :: "string list" where
  "attribution_names = [''x-camelid-lane'', ''x-camelid-config-sha256'', ''x-camelid-admission-sha256'', ''x-camelid-posture'',
     ''x-camelid-engine-sha256'', ''x-camelid-host'', ''x-camelid-model-sha256'', ''x-camelid-worker-threads'']"

definition attribution_values :: "attribution_lib \<Rightarrow> Attribution \<Rightarrow> string list" where
  "attribution_values lib ctx = [at_lane ctx, take SHORT_HEX (at_config_sha256 ctx), take SHORT_HEX (at_admission_sha256 ctx),
     EXECUTION_POSTURE, take 12 (al_engine_digest lib), at_host ctx, mi_short (at_model ctx), wt_header (at_workers ctx)]"

text \<open>The values are legal header values, as every digest and host summary of the code is.\<close>

definition attribution_encodes :: "attribution_lib \<Rightarrow> Attribution \<Rightarrow> bool" where
  "attribution_encodes lib ctx \<longleftrightarrow> list_all (\<lambda>v. al_header_value lib v = Some v)
     [take SHORT_HEX (at_config_sha256 ctx), take SHORT_HEX (at_admission_sha256 ctx), take 12 (al_engine_digest lib), at_host ctx]"

definition is_attributed :: "attribution_lib \<Rightarrow> Attribution \<Rightarrow> 'b response \<Rightarrow> bool" where
  "is_attributed lib ctx resp \<longleftrightarrow>
     list_all2 (\<lambda>name v. get_all name (r_headers resp) = [v]) attribution_names (attribution_values lib ctx)"

lemma stamp_attributes: "attribution_encodes lib ctx \<Longrightarrow> is_attributed lib ctx (stamp lib ctx resp)"
  by (simp add: is_attributed_def attribution_names_def attribution_values_def stamp_def insert_valid_header_def
      attribution_encodes_def)

lemma stamp_other [simp]: "r_status (stamp lib ctx resp) = r_status resp" "r_body (stamp lib ctx resp) = r_body resp"
  by (simp_all add: stamp_def Let_def)

lemma stamp_keeps: "name \<notin> set attribution_names \<Longrightarrow> get_all name (r_headers (stamp lib ctx resp)) = get_all name (r_headers resp)"
  by (simp add: stamp_def insert_valid_header_def attribution_names_def Let_def split: option.splits)

lemma is_attributed_remove: "name \<notin> set attribution_names \<Longrightarrow>
    is_attributed lib ctx (resp\<lparr>r_headers := remove_header name (r_headers resp), r_body := body\<rparr>) = is_attributed lib ctx resp"
  by (auto simp: is_attributed_def attribution_names_def attribution_values_def)

lemma attribute_body_cases:
  assumes "attribute_body lib ctx resp = Some out"
  obtains (rewritten) bytes new where "r_body resp = Arrives bytes" "length bytes \<le> BODY_LIMIT"
      "out = resp\<lparr>r_headers := remove_header ''content-length'' (r_headers resp), r_body := Arrives new\<rparr>"
      "new = (case from_slice (al_values lib) bytes of
               Some v \<Rightarrow> (case to_vec (al_values lib) (inject lib ctx v) of Some text \<Rightarrow> text | None \<Rightarrow> bytes)
             | None \<Rightarrow> bytes)"
    | (failed) "out = stamp lib ctx \<lparr>r_status = 500, r_headers = [(''content-type'', ''application/json'')],
        r_body = Arrives unbuffered_error\<rparr>" "\<And>bytes. r_body resp = Arrives bytes \<Longrightarrow> BODY_LIMIT < length bytes"
proof (cases "read_body BODY_LIMIT (r_body resp)")
  case Elapsed
  with assms show thesis by (simp add: attribute_body_def)
next
  case (InTime r)
  show thesis
  proof (cases r)
    case (Inl e)
    have "BODY_LIMIT < length bytes" if "r_body resp = Arrives bytes" for bytes
      using InTime Inl that by (simp split: if_splits)
    with failed assms InTime Inl show thesis by (simp add: attribute_body_def)
  next
    case (Inr bytes)
    then have "r_body resp = Arrives bytes" "length bytes \<le> BODY_LIMIT"
      using InTime by (simp_all add: read_body_bytes)
    moreover have "out = resp\<lparr>r_headers := remove_header ''content-length'' (r_headers resp), r_body := Arrives
        (case from_slice (al_values lib) bytes of
           Some v \<Rightarrow> (case to_vec (al_values lib) (inject lib ctx v) of Some text \<Rightarrow> text | None \<Rightarrow> bytes)
         | None \<Rightarrow> bytes)\<rparr>"
      using assms InTime Inr by (simp add: attribute_body_def Let_def)
    ultimately show thesis using rewritten by blast
  qed
qed

lemma attribute_Some:
  assumes "attribute lib ctx ts request resp = Some (out, owed)"
  shows "(if is_completion_path (uri_path (q_uri request)) \<and> has_json_body (al_http lib) (r_headers (stamp lib ctx resp))
          then attribute_body lib ctx (stamp lib ctx resp) else Some (stamp lib ctx resp)) = Some out
       \<and> owed = (if at_receipts ctx then Some (receipt lib ctx (q_method request) (uri_path (q_uri request)) (r_status out) ts
            (Option.bind (get_header ''x-camelid-request-id'' (q_headers request)) (lib_to_str (al_http lib)))) else None)"
proof -
  have pairs: "map_option (\<lambda>r. (r, f r)) x = Some (a, b) \<longleftrightarrow> x = Some a \<and> b = f a" for f :: "'x \<Rightarrow> 'y" and x a b
    by (cases x) auto
  show ?thesis
    using assms unfolding attribute_def Let_def pairs .
qed

text \<open>Property C39: every response says which replica made it. Whatever the inner service answered, and also when the
  middleware fails the request because the body cannot be buffered, the response carries each of the eight
  identity headers exactly once with this replica's value; and unless it failed the request itself, in
  which case the status is 500, the status and every header but the length are the inner service's.\<close>

theorem every_response_is_attributed:
  assumes encodes: "attribution_encodes lib ctx" and out: "attribute lib ctx ts request resp = Some (out, owed)"
  shows "is_attributed lib ctx out
       \<and> ((r_status out = r_status resp
            \<and> (\<forall>name. name \<notin> set (''content-length'' # attribution_names) \<longrightarrow> get_all name (r_headers out) = get_all name (r_headers resp)))
         \<or> r_status out = 500 \<and> r_body out = Arrives unbuffered_error \<and> get_all ''content-type'' (r_headers out) = [''application/json''])"
proof -
  let ?resp = "stamp lib ctx resp"
  consider (kept) "out = ?resp" | (body) "attribute_body lib ctx ?resp = Some out"
    using attribute_Some [OF out] by (metis option.inject)
  then show ?thesis
  proof cases
    case kept
    then show ?thesis by (simp add: stamp_attributes [OF encodes] stamp_keeps)
  next
    case body
    have length_name: "''content-length'' \<notin> set attribution_names" "''content-type'' \<notin> set attribution_names"
      by (simp_all add: attribution_names_def)
    from body show ?thesis
    proof (cases rule: attribute_body_cases)
      case (rewritten bytes new)
      then show ?thesis
        by (simp add: is_attributed_remove [OF length_name(1)] stamp_attributes [OF encodes] stamp_keeps)
    next
      case failed
      then show ?thesis by (simp add: stamp_attributes [OF encodes] stamp_keeps [OF length_name(2)])
    qed
  qed
qed

section \<open>Bodies and receipts\<close>

definition body_names :: "string list" where
  "body_names = [''camelid_lane'', ''camelid_config_sha256'', ''camelid_admission_sha256'', ''camelid_posture'',
     ''camelid_engine_sha256'', ''camelid_host'', ''camelid_model_sha256'', ''camelid_worker_threads'']"

definition body_values :: "attribution_lib \<Rightarrow> Attribution \<Rightarrow> json list" where
  "body_values lib ctx = map JString (butlast (attribution_values lib ctx)) @ [json_nat (wt_count (at_workers ctx))]"

text \<open>A context made the way the replica makes it: the model's short form and the worker header are derived.\<close>

definition attribution_made :: "Attribution \<Rightarrow> bool" where
  "attribution_made ctx \<longleftrightarrow> mi_short (at_model ctx) = model_short (at_model ctx)
     \<and> wt_header (at_workers ctx) = show_nat (wt_count (at_workers ctx))"

lemma inject_fields:
  assumes "attribution_made ctx" and "inject lib ctx (JObject obj) = JObject out"
  shows "list_all2 (\<lambda>name v. map_of out name = Some v) body_names (body_values lib ctx)
       \<and> (\<forall>name. name \<notin> set body_names \<longrightarrow> map_of out name = map_of obj name)"
proof -
  from assms(2) have out: "map_of out = map_of (case inject lib ctx (JObject obj) of JObject ms \<Rightarrow> ms | _ \<Rightarrow> [])" by simp
  show ?thesis
    unfolding out using assms(1)
    by (simp add: inject_def body_names_def body_values_def attribution_values_def attribution_made_def map_of_map_insert)
qed

text \<open>Also: a completion body says what its headers say, and the receipt says it in full. A JSON completion that
  parses as an object is passed on as that object with the eight identity fields set to the values of the
  headers and every other member unchanged, and no declared length; the receipt owed for any response
  carries its final status, the gateway's correlation id exactly when the request had one, and the full
  digests of which headers and body carry the first twelve digits.\<close>

theorem body_and_receipt_agree_with_headers:
  assumes made: "attribution_made ctx" and out: "attribute lib ctx ts request resp = Some (out, owed)"
    and reads_back: "\<And>v bytes. to_vec (al_values lib) v = Some bytes \<Longrightarrow> from_slice (al_values lib) bytes = Some v"
    and prints: "to_vec (al_values lib) (inject lib ctx (JObject obj)) \<noteq> None"
  shows "(is_completion_path (uri_path (q_uri request)) \<and> has_json_body (al_http lib) (r_headers (stamp lib ctx resp))
            \<and> r_body resp = Arrives bytes \<and> length bytes \<le> BODY_LIMIT \<and> from_slice (al_values lib) bytes = Some (JObject obj) \<longrightarrow>
          (\<exists>new members. r_body out = Arrives new \<and> from_slice (al_values lib) new = Some (JObject members)
             \<and> list_all2 (\<lambda>name v. map_of members name = Some v) body_names (body_values lib ctx)
             \<and> (\<forall>name. name \<notin> set body_names \<longrightarrow> map_of members name = map_of obj name)
             \<and> get_all ''content-length'' (r_headers out) = []))
       \<and> (at_receipts ctx \<longrightarrow> (\<exists>line. owed = Some (JObject line)
             \<and> map_of line ''status'' = Some (json_nat (r_status out))
             \<and> map_of line ''request_id'' = Some (json_opt (Option.bind (get_header ''x-camelid-request-id'' (q_headers request)) (lib_to_str (al_http lib))))
             \<and> map_of line ''model_sha256'' = Some (JString (mi_sha256 (at_model ctx)))
             \<and> map_of line ''config_sha256'' = Some (JString (at_config_sha256 ctx))
             \<and> map_of line ''admission_sha256'' = Some (JString (at_admission_sha256 ctx))
             \<and> map_of line ''engine_sha256'' = Some (JString (al_engine_digest lib))
             \<and> map_of line ''host'' = Some (JString (at_host ctx))
             \<and> map_of line ''worker_threads'' = Some (json_nat (wt_count (at_workers ctx)))))"
proof (intro conjI impI)
  assume completion: "is_completion_path (uri_path (q_uri request)) \<and> has_json_body (al_http lib) (r_headers (stamp lib ctx resp))
      \<and> r_body resp = Arrives bytes \<and> length bytes \<le> BODY_LIMIT \<and> from_slice (al_values lib) bytes = Some (JObject obj)"
  then have "attribute_body lib ctx (stamp lib ctx resp) = Some out" using attribute_Some [OF out] by simp
  moreover obtain members where inj: "inject lib ctx (JObject obj) = JObject members" by (simp add: inject_def)
  moreover from this obtain new where "to_vec (al_values lib) (JObject members) = Some new" using prints by auto
  ultimately have "r_body out = Arrives new \<and> get_all ''content-length'' (r_headers out) = []
      \<and> from_slice (al_values lib) new = Some (JObject members)"
    using completion reads_back by (auto simp: attribute_body_def)
  with inject_fields [OF made inj]
  show "\<exists>new members. r_body out = Arrives new \<and> from_slice (al_values lib) new = Some (JObject members)
             \<and> list_all2 (\<lambda>name v. map_of members name = Some v) body_names (body_values lib ctx)
             \<and> (\<forall>name. name \<notin> set body_names \<longrightarrow> map_of members name = map_of obj name)
             \<and> get_all ''content-length'' (r_headers out) = []" by blast
next
  assume "at_receipts ctx"
  then have "owed = Some (receipt lib ctx (q_method request) (uri_path (q_uri request)) (r_status out) ts
      (Option.bind (get_header ''x-camelid-request-id'' (q_headers request)) (lib_to_str (al_http lib))))"
    using attribute_Some [OF out] by simp
  then show "\<exists>line. owed = Some (JObject line)
             \<and> map_of line ''status'' = Some (json_nat (r_status out))
             \<and> map_of line ''request_id'' = Some (json_opt (Option.bind (get_header ''x-camelid-request-id'' (q_headers request)) (lib_to_str (al_http lib))))
             \<and> map_of line ''model_sha256'' = Some (JString (mi_sha256 (at_model ctx)))
             \<and> map_of line ''config_sha256'' = Some (JString (at_config_sha256 ctx))
             \<and> map_of line ''admission_sha256'' = Some (JString (at_admission_sha256 ctx))
             \<and> map_of line ''engine_sha256'' = Some (JString (al_engine_digest lib))
             \<and> map_of line ''host'' = Some (JString (at_host ctx))
             \<and> map_of line ''worker_threads'' = Some (json_nat (wt_count (at_workers ctx)))"
    by (simp add: receipt_def)
qed

section \<open>The model's digest\<close>

lemma digest_chunks_whole: "[] \<notin> set chunks \<Longrightarrow> digest_chunks (map Inr chunks @ Inr [] # rest) hashed = Inr (hashed @ concat chunks)"
  by (induction chunks arbitrary: hashed) auto

lemma digest_chunks_fails: "[] \<notin> set chunks \<Longrightarrow> digest_chunks (map Inr chunks @ Inl err # rest) hashed = Inl err"
  by (induction chunks arbitrary: hashed) auto

text \<open>Also: the model digest is of the whole file and is checked against the file that was hashed. However the
  reads divide the file, the digest is that of its bytes; a failed read publishes nothing; and a replica that
  re-checks a file of another length, device or inode refuses to serve.\<close>

theorem model_digest_is_of_the_whole_file:
  assumes "[] \<notin> set chunks"
  shows "model_identity_of_file sha256 header_value path (Inr (Inr fingerprint, map Inr chunks @ Inr [] # rest))
           = model_identity_new header_value (sha256 (concat chunks)) fingerprint
       \<and> (\<exists>why. model_identity_of_file sha256 header_value path (Inr (Inr fingerprint, map Inr chunks @ Inl err # rest)) = Inl why)
       \<and> (model_identity_of_file sha256 header_value path (Inr (Inr fingerprint, map Inr chunks @ Inr [] # rest)) = Inr m \<longrightarrow>
            mi_sha256 m = sha256 (concat chunks)
            \<and> (verify_unchanged m path (Inr now) = Inr () \<longleftrightarrow> now = fingerprint))"
  by (auto simp: model_identity_of_file_def digest_chunks_whole [OF assms] digest_chunks_fails [OF assms]
      model_identity_new_def and_then_Inr_iff verify_unchanged_def)

section \<open>Concrete instances\<close>

definition demo_context :: Attribution where
  "demo_context = \<lparr>at_lane = ''deterministic'', at_config_sha256 = ''0123456789abcdef'', at_admission_sha256 = ''fedcba9876543210'',
     at_model = \<lparr>mi_sha256 = ''00112233445566778899'', mi_short = ''001122334455'', mi_fingerprint = \<lparr>fp_len = 7, fp_node = Some (1, 2)\<rparr>\<rparr>,
     at_host = ''linux/x86_64'', at_workers = worker_threads_resolved 4, at_receipts = True\<rparr>"

definition demo_attributed :: json where
  "demo_attributed = JObject [(''camelid_lane'', JString ''deterministic''), (''camelid_config_sha256'', JString ''0123456789ab''),
     (''camelid_admission_sha256'', JString ''fedcba987654''), (''camelid_posture'', JString EXECUTION_POSTURE),
     (''camelid_engine_sha256'', JString ''eeeeeeeeeeee''), (''camelid_model_sha256'', JString ''001122334455''),
     (''camelid_host'', JString ''linux/x86_64''), (''camelid_worker_threads'', json_nat 4)]"

definition demo_attribution :: attribution_lib where
  "demo_attribution = \<lparr>al_http = \<lparr>lib_to_str = Some, lib_header_name = Some\<rparr>,
     al_values = \<lparr>from_slice = (\<lambda>bytes. if bytes = ''{}'' then Some (JObject []) else if bytes = ''attributed'' then Some demo_attributed else None),
       to_vec = (\<lambda>v. if v = demo_attributed then Some ''attributed'' else None)\<rparr>,
     al_header_value = Some, al_engine_digest = ''eeeeeeeeeeeeeeee''\<rparr>"

definition demo_completed :: "arrival response" where
  "demo_completed = \<lparr>r_status = 200, r_headers = [(''content-type'', ''application/json''), (''content-length'', ''2'')], r_body = Arrives ''{}''\<rparr>"

lemma demo_injects: "inject demo_attribution demo_context (JObject []) = demo_attributed"
  by (simp add: inject_def demo_attribution_def demo_context_def demo_attributed_def SHORT_HEX_def model_short_def
      worker_threads_resolved_def map_insert_def)

lemma demo_json: "has_json_body (al_http demo_attribution) (r_headers (stamp demo_attribution demo_context demo_completed))"
proof -
  have "get_header ''content-type'' (r_headers (stamp demo_attribution demo_context demo_completed)) = Some ''application/json''"
    unfolding get_header_def by (subst stamp_keeps) (simp_all add: attribution_names_def demo_completed_def)
  then show ?thesis by (simp add: has_json_body_def demo_attribution_def starts_with_def)
qed

lemma demo_path: "is_completion_path (uri_path (q_uri demo_generation))"
  by (simp add: is_completion_path_def demo_generation_def uri_path_def)

lemma demo_run: "\<exists>out owed. attribute demo_attribution demo_context 0 demo_generation demo_completed = Some (out, owed)"
proof -
  have "r_body (stamp demo_attribution demo_context demo_completed) = Arrives ''{}''" by (simp add: demo_completed_def)
  then have "attribute_body demo_attribution demo_context (stamp demo_attribution demo_context demo_completed) \<noteq> None"
    by (simp add: attribute_body_def BODY_LIMIT_def Let_def)
  then show ?thesis by (auto simp: attribute_def Let_def demo_path demo_json)
qed

theorem every_response_is_attributed_witness:
  "\<exists>out owed. attribute demo_attribution demo_context 0 demo_generation demo_completed = Some (out, owed)
     \<and> is_attributed demo_attribution demo_context out"
proof -
  have "attribution_encodes demo_attribution demo_context" by (simp add: attribution_encodes_def demo_attribution_def)
  with demo_run every_response_is_attributed show ?thesis by blast
qed

theorem body_and_receipt_agree_with_headers_witness:
  "\<exists>out owed new members. attribute demo_attribution demo_context 0 demo_generation demo_completed = Some (out, owed)
     \<and> r_body out = Arrives new \<and> from_slice (al_values demo_attribution) new = Some (JObject members)
     \<and> map_of members ''camelid_host'' = Some (JString ''linux/x86_64'')"
proof -
  obtain out owed where run: "attribute demo_attribution demo_context 0 demo_generation demo_completed = Some (out, owed)"
    using demo_run by blast
  have made: "attribution_made demo_context"
    by (simp add: attribution_made_def demo_context_def model_short_def SHORT_HEX_def worker_threads_resolved_def)
  have reads_back: "to_vec (al_values demo_attribution) v = Some bytes \<Longrightarrow> from_slice (al_values demo_attribution) bytes = Some v" for v bytes
    by (auto simp: demo_attribution_def split: if_splits)
  have prints: "to_vec (al_values demo_attribution) (inject demo_attribution demo_context (JObject [])) \<noteq> None"
    by (simp add: demo_injects) (simp add: demo_attribution_def)
  have reads: "from_slice (al_values demo_attribution) ''{}'' = Some (JObject [])" by (simp add: demo_attribution_def)
  have body: "r_body demo_completed = Arrives ''{}''" "length ''{}'' \<le> BODY_LIMIT" by (simp_all add: demo_completed_def BODY_LIMIT_def)
  obtain new members where out: "r_body out = Arrives new" "from_slice (al_values demo_attribution) new = Some (JObject members)"
    and fields: "list_all2 (\<lambda>name v. map_of members name = Some v) body_names (body_values demo_attribution demo_context)"
    using body_and_receipt_agree_with_headers [OF made run reads_back prints, of "''{}''"] demo_path demo_json body reads by blast
  from fields have "map_of members ''camelid_host'' = Some (JString ''linux/x86_64'')"
    by (simp add: body_names_def body_values_def attribution_values_def demo_context_def)
  with run out show ?thesis by blast
qed

theorem model_digest_is_of_the_whole_file_witness:
  "model_identity_of_file (\<lambda>s. s) Some ''m.gguf'' (Inr (Inr \<lparr>fp_len = 4, fp_node = None\<rparr>, [Inr ''GG'', Inr ''UF'', Inr []]))
     = model_identity_new Some ''GGUF'' \<lparr>fp_len = 4, fp_node = None\<rparr>"
  using model_digest_is_of_the_whole_file [of "[''GG'', ''UF'']" "\<lambda>s. s" Some "''m.gguf''" "\<lparr>fp_len = 4, fp_node = None\<rparr>" "[]"] by simp

end
