(* ===== verification/GenerationPool.thy ===== *)
theory GenerationPool
  imports Prelude
begin

text \<open>
  The generation worker pool (\<^verbatim>\<open>crates/server/src/in_tree/worker.rs\<close>): a bounded queue
  under a mutex, a condition variable, a fixed number of threads, a depth counter
  and counted public handles. Each critical section is one step; what the code does
  after releasing the lock (the notification, the release of a handle's count) is a
  step of its own, so that callers, drops and threads interleave as they may.
\<close>

definition QUEUE_DEPTH :: nat where "QUEUE_DEPTH = 8"

datatype PostError = Full | Unavailable

text \<open>A thread is about to take the lock, waits on the condition variable, runs a job, or has returned.\<close>

datatype worker_thread = Checking | Waiting | Running nat | Exited

text \<open>\<open>gp_notify\<close>: posts that pushed and have not notified yet; \<open>gp_notify_all\<close>: closes that have not. A
  handle is live, or its \<^verbatim>\<open>drop\<close> has read the count and still holds it: \<open>gp_returning\<close> read more than one,
  \<open>gp_closing\<close> read one.\<close>

record generation_pool =
  gp_jobs :: "nat list"
  gp_open :: bool
  gp_depth :: nat
  gp_slots :: nat
  gp_threads :: "(nat \<times> worker_thread) list"
  gp_notify :: nat
  gp_notify_all :: nat
  gp_live :: nat
  gp_returning :: nat
  gp_closing :: nat

definition pool_spawn :: "nat \<Rightarrow> generation_pool" where
  "pool_spawn slots = (let slots = max slots 1 in
     \<lparr>gp_jobs = [], gp_open = True, gp_depth = 0, gp_slots = slots,
      gp_threads = map (\<lambda>index. (index, Checking)) [0 ..< slots],
      gp_notify = 0, gp_notify_all = 0, gp_live = 1, gp_returning = 0, gp_closing = 0\<rparr>)"

definition set_thread :: "nat \<Rightarrow> worker_thread \<Rightarrow> generation_pool \<Rightarrow> generation_pool" where
  "set_thread t thread p = p\<lparr>gp_threads := map (\<lambda>(t', thread'). if t' = t then (t', thread) else (t', thread')) (gp_threads p)\<rparr>"

section \<open>Callers\<close>

definition pool_post :: "nat \<Rightarrow> generation_pool \<Rightarrow> (PostError, unit) res \<times> generation_pool" where
  "pool_post job p =
     (if \<not> gp_open p then (Inl Unavailable, p)
      else if length (gp_jobs p) \<ge> QUEUE_DEPTH then (Inl Full, p)
      else (Inr (), p\<lparr>gp_jobs := gp_jobs p @ [job], gp_depth := gp_depth p + 1, gp_notify := gp_notify p + 1\<rparr>))"

text \<open>\<^verbatim>\<open>notify_one\<close>: wakes the waiting thread \<open>woken\<close>, or nobody when none waits.\<close>

definition notify_one :: "nat option \<Rightarrow> generation_pool \<Rightarrow> generation_pool" where
  "notify_one woken p = (case woken of
       Some t \<Rightarrow> (set_thread t Checking p)\<lparr>gp_notify := gp_notify p - 1\<rparr>
     | None \<Rightarrow> p\<lparr>gp_notify := gp_notify p - 1\<rparr>)"

text \<open>\<open>run\<close>: the posted job's value; a job that panics drops its sender.\<close>

definition pool_run :: "(PostError, unit) res \<Rightarrow> 'a option \<Rightarrow> (PostError, 'a) res" where
  "pool_run posted outcome = and_then posted (\<lambda>_. ok_or Unavailable outcome)"

definition handle_clone :: "generation_pool \<Rightarrow> generation_pool" where
  "handle_clone p = p\<lparr>gp_live := gp_live p + 1\<rparr>"

definition handle_count :: "generation_pool \<Rightarrow> nat" where
  "handle_count p = gp_live p + gp_returning p + gp_closing p"

text \<open>\<^verbatim>\<open>Drop\<close>: the count is read first; its own count is released after the body, with the fields.\<close>

definition drop_begin :: "generation_pool \<Rightarrow> generation_pool" where
  "drop_begin p = (let p' = p\<lparr>gp_live := gp_live p - 1\<rparr> in
     if handle_count p > 1 then p'\<lparr>gp_returning := gp_returning p + 1\<rparr> else p'\<lparr>gp_closing := gp_closing p + 1\<rparr>)"

definition drop_returns :: "generation_pool \<Rightarrow> generation_pool" where
  "drop_returns p = p\<lparr>gp_returning := gp_returning p - 1\<rparr>"

definition drop_closes :: "generation_pool \<Rightarrow> generation_pool" where
  "drop_closes p = p\<lparr>gp_open := False, gp_notify_all := gp_notify_all p + 1\<rparr>"

definition drop_notifies :: "generation_pool \<Rightarrow> generation_pool" where
  "drop_notifies p = p\<lparr>gp_notify_all := gp_notify_all p - 1, gp_closing := gp_closing p - 1,
     gp_threads := map (\<lambda>(t, thread). (t, if thread = Waiting then Checking else thread)) (gp_threads p)\<rparr>"

section \<open>Threads\<close>

text \<open>One turn of the inner loop under the lock.\<close>

definition worker_check :: "nat \<Rightarrow> generation_pool \<Rightarrow> generation_pool" where
  "worker_check t p = (case gp_jobs p of
       job # jobs \<Rightarrow> (set_thread t (Running job) p)\<lparr>gp_jobs := jobs\<rparr>
     | [] \<Rightarrow> if \<not> gp_open p then set_thread t Exited p else set_thread t Waiting p)"

definition worker_done :: "nat \<Rightarrow> generation_pool \<Rightarrow> generation_pool" where
  "worker_done t p = (set_thread t Checking p)\<lparr>gp_depth := gp_depth p - 1\<rparr>"

section \<open>Interleavings\<close>

text \<open>What the threads and the pending notifications do on their own.\<close>

inductive pool_works :: "generation_pool \<Rightarrow> generation_pool \<Rightarrow> bool" where
  Checks: "map_of (gp_threads p) t = Some Checking \<Longrightarrow> pool_works p (worker_check t p)"
| Finishes: "map_of (gp_threads p) t = Some (Running job) \<Longrightarrow> pool_works p (worker_done t p)"
| Wakes: "gp_notify p > 0 \<Longrightarrow> map_of (gp_threads p) t = Some Waiting \<Longrightarrow> pool_works p (notify_one (Some t) p)"
| Wakes_nobody: "gp_notify p > 0 \<Longrightarrow> \<forall>(t, thread) \<in> set (gp_threads p). thread \<noteq> Waiting \<Longrightarrow> pool_works p (notify_one None p)"

text \<open>\<open>pool_reachable slots accepted p\<close>: a state after any history in which the jobs \<open>accepted\<close> were accepted, in order.\<close>

inductive pool_reachable :: "nat \<Rightarrow> nat list \<Rightarrow> generation_pool \<Rightarrow> bool" where
  Spawned: "pool_reachable slots [] (pool_spawn slots)"
| Posts: "pool_reachable slots acc p \<Longrightarrow> gp_live p > 0 \<Longrightarrow> pool_post job p = (Inr (), p') \<Longrightarrow> pool_reachable slots (acc @ [job]) p'"
| Works: "pool_reachable slots acc p \<Longrightarrow> pool_works p p' \<Longrightarrow> pool_reachable slots acc p'"
| Wakes_spuriously: "pool_reachable slots acc p \<Longrightarrow> map_of (gp_threads p) t = Some Waiting \<Longrightarrow> pool_reachable slots acc (set_thread t Checking p)"
| Clones: "pool_reachable slots acc p \<Longrightarrow> gp_live p > 0 \<Longrightarrow> pool_reachable slots acc (handle_clone p)"
| Drop_begins: "pool_reachable slots acc p \<Longrightarrow> gp_live p > 0 \<Longrightarrow> pool_reachable slots acc (drop_begin p)"
| Drop_returns: "pool_reachable slots acc p \<Longrightarrow> gp_returning p > 0 \<Longrightarrow> pool_reachable slots acc (drop_returns p)"
| Drop_closes: "pool_reachable slots acc p \<Longrightarrow> gp_closing p > gp_notify_all p \<Longrightarrow> pool_reachable slots acc (drop_closes p)"
| Drop_notifies: "pool_reachable slots acc p \<Longrightarrow> gp_notify_all p > 0 \<Longrightarrow> pool_reachable slots acc (drop_notifies p)"

inductive_cases pool_worksE: "pool_works p p'"

definition runs_job :: "worker_thread \<Rightarrow> bool" where
  "runs_job thread \<longleftrightarrow> (\<exists>job. thread = Running job)"

lemma runs_job_simps [simp]: "\<not> runs_job Checking" "\<not> runs_job Waiting" "runs_job (Running job)" "\<not> runs_job Exited"
  by (simp_all add: runs_job_def)

definition running :: "generation_pool \<Rightarrow> nat" where
  "running p = count_tasks runs_job (gp_threads p)"

end
