(* ===== verification/PoolLaws.thy ===== *)
theory PoolLaws
  imports GenerationPool "HOL-Library.Sublist"
begin

text \<open>
  The laws of the worker pool: its counters are true, a live handle is never told
  that the pool is gone, no wakeup is lost, every accepted job is run; and two
  histories that show what the pool does not do: a burst is refused before the
  documented width is reached, and two overlapping drops leave the queue open.
\<close>

section \<open>Threads by what they are doing\<close>

definition stages :: "generation_pool \<Rightarrow> worker_thread set" where
  "stages p = snd ` set (gp_threads p)"

lemma set_thread_fields [simp]:
  "gp_jobs (set_thread t thread p) = gp_jobs p" "gp_open (set_thread t thread p) = gp_open p"
  "gp_depth (set_thread t thread p) = gp_depth p" "gp_slots (set_thread t thread p) = gp_slots p"
  "gp_notify (set_thread t thread p) = gp_notify p" "gp_notify_all (set_thread t thread p) = gp_notify_all p"
  "gp_live (set_thread t thread p) = gp_live p" "gp_returning (set_thread t thread p) = gp_returning p"
  "gp_closing (set_thread t thread p) = gp_closing p"
  by (simp_all add: set_thread_def)

lemma set_thread_keys [simp]: "map fst (gp_threads (set_thread t thread p)) = map fst (gp_threads p)"
  by (auto simp: set_thread_def)

lemma set_thread_length [simp]: "length (gp_threads (set_thread t thread p)) = length (gp_threads p)"
  by (simp add: set_thread_def)

lemma stages_update [simp]:
  "stages (p\<lparr>gp_jobs := a\<rparr>) = stages p" "stages (p\<lparr>gp_depth := n\<rparr>) = stages p" "stages (p\<lparr>gp_notify := n\<rparr>) = stages p"
  "stages (p\<lparr>gp_live := n\<rparr>) = stages p" "stages (p\<lparr>gp_returning := n\<rparr>) = stages p" "stages (p\<lparr>gp_closing := n\<rparr>) = stages p"
  "stages (p\<lparr>gp_open := b\<rparr>) = stages p" "stages (p\<lparr>gp_notify_all := n\<rparr>) = stages p"
  by (simp_all add: stages_def)

lemma stages_of: "map_of (gp_threads p) t = Some s \<Longrightarrow> s \<in> stages p"
  unfolding stages_def by (drule map_of_SomeD) force

lemma stages_map_of:
  "distinct (map fst (gp_threads p)) \<Longrightarrow> s \<in> stages p \<Longrightarrow> \<exists>t. map_of (gp_threads p) t = Some s"
  unfolding stages_def by (auto intro: map_of_is_SomeI)

lemma stages_set_sub: "stages (set_thread t s p) \<subseteq> insert s (stages p)"
  unfolding stages_def set_thread_def by (auto split: if_splits)

lemma stages_set_new: "map_of (gp_threads p) t = Some old \<Longrightarrow> s \<in> stages (set_thread t s p)"
  by (drule map_of_SomeD) (force simp: stages_def set_thread_def)

lemma stages_set_keep:
  assumes "distinct (map fst (gp_threads p))" "map_of (gp_threads p) t = Some old" "s' \<in> stages p" "s' \<noteq> old"
  shows "s' \<in> stages (set_thread t s p)"
proof -
  from stages_map_of [OF assms(1,3)] obtain t' where t': "map_of (gp_threads p) t' = Some s'" ..
  with assms(2,4) have "t' \<noteq> t" by auto
  with map_of_SomeD [OF t'] show ?thesis by (force simp: stages_def set_thread_def)
qed

lemma count_set_thread:
  assumes "distinct (map fst (gp_threads p))" and "map_of (gp_threads p) t = Some old"
  shows "count_tasks P (gp_threads (set_thread t s p)) + (if P old then 1 else 0)
       = count_tasks P (gp_threads p) + (if P s then 1 else 0)"
  using count_tasks_replace [OF assms] by (simp add: set_thread_def)

lemma count_positive: "s \<in> stages p \<Longrightarrow> P s \<Longrightarrow> count_tasks P (gp_threads p) > 0"
  by (auto simp: stages_def count_tasks_def filter_empty_conv)

lemmas running_set_thread = count_set_thread [where P = runs_job, folded running_def]

lemma running_update [simp]: "running (p\<lparr>gp_jobs := a\<rparr>) = running p" "running (p\<lparr>gp_depth := n\<rparr>) = running p"
  "running (p\<lparr>gp_notify := n\<rparr>) = running p" "running (p\<lparr>gp_live := n\<rparr>) = running p"
  "running (p\<lparr>gp_returning := n\<rparr>) = running p" "running (p\<lparr>gp_closing := n\<rparr>) = running p"
  "running (p\<lparr>gp_open := b\<rparr>) = running p" "running (p\<lparr>gp_notify_all := n\<rparr>) = running p"
  by (simp_all add: running_def)

section \<open>The invariant\<close>

text \<open>What is counted.\<close>

definition pool_counts :: "nat \<Rightarrow> nat list \<Rightarrow> generation_pool \<Rightarrow> bool" where
  "pool_counts slots acc p \<longleftrightarrow> distinct (map fst (gp_threads p)) \<and> length (gp_threads p) = max slots 1
     \<and> gp_slots p = max slots 1 \<and> suffix (gp_jobs p) acc \<and> length (gp_jobs p) \<le> QUEUE_DEPTH
     \<and> gp_depth p = length (gp_jobs p) + running p"

text \<open>Somebody will look at the queue.\<close>

definition pool_awake :: "generation_pool \<Rightarrow> bool" where
  "pool_awake p \<longleftrightarrow> (gp_jobs p \<noteq> [] \<longrightarrow> gp_notify p > 0 \<or> (\<exists>s \<in> stages p. s = Checking \<or> runs_job s))
     \<and> (Exited \<in> stages p \<longrightarrow> \<not> gp_open p \<and> gp_jobs p = [])
     \<and> (\<not> gp_open p \<and> gp_notify_all p = 0 \<longrightarrow> Waiting \<notin> stages p)"

text \<open>The queue is closed by the last handle only.\<close>

definition pool_handles :: "generation_pool \<Rightarrow> bool" where
  "pool_handles p \<longleftrightarrow> (gp_closing p > 0 \<longrightarrow> gp_live p = 0 \<and> gp_returning p = 0 \<and> gp_closing p = 1)
     \<and> (\<not> gp_open p \<longrightarrow> gp_live p = 0 \<and> gp_returning p = 0) \<and> gp_notify_all p \<le> gp_closing p"

lemma pool_counts_spawn: "pool_counts slots [] (pool_spawn slots)"
proof -
  have "count_tasks runs_job (map (\<lambda>index. (index, Checking)) xs) = 0" for xs
    by (rule count_tasks_none) auto
  then show ?thesis by (auto simp: pool_counts_def pool_spawn_def Let_def running_def comp_def)
qed

lemma pool_counts_set:
  assumes "pool_counts slots acc p" "map_of (gp_threads p) t = Some old" "runs_job old = runs_job s"
  shows "pool_counts slots acc (set_thread t s p)"
  using assms running_set_thread [OF _ assms(2), of s] by (auto simp: pool_counts_def)

lemma pool_counts_check:
  assumes inv: "pool_counts slots acc p" and t: "map_of (gp_threads p) t = Some Checking"
  shows "pool_counts slots acc (worker_check t p)"
proof (cases "gp_jobs p")
  case (Cons job jobs)
  have "suffix jobs acc" using inv Cons by (auto simp: pool_counts_def suffix_def)
  then show ?thesis using inv Cons running_set_thread [OF _ t, of "Running job"]
    by (auto simp: pool_counts_def worker_check_def)
next
  case Nil
  then show ?thesis using pool_counts_set [OF inv t] by (auto simp: worker_check_def)
qed

lemma pool_counts_done:
  assumes inv: "pool_counts slots acc p" and t: "map_of (gp_threads p) t = Some (Running job)"
  shows "pool_counts slots acc (worker_done t p)"
  using inv running_set_thread [OF _ t, of Checking] by (auto simp: pool_counts_def worker_done_def)

lemma pool_counts_post: "pool_counts slots acc p \<Longrightarrow> pool_post job p = (Inr (), p') \<Longrightarrow> pool_counts slots (acc @ [job]) p'"
  by (auto simp: pool_counts_def pool_post_def suffix_def split: if_splits)

lemma pool_counts_notify_one:
  "pool_counts slots acc p \<Longrightarrow> map_of (gp_threads p) t = Some Waiting \<Longrightarrow> pool_counts slots acc (notify_one (Some t) p)"
  using pool_counts_set [of slots acc p t Waiting Checking] by (auto simp: pool_counts_def notify_one_def)

lemma wake_all_counts:
  "count_tasks runs_job (map (\<lambda>(t, thread). (t, if thread = Waiting then Checking else thread)) threads) = count_tasks runs_job threads"
  by (induction threads) auto

lemma wake_all_keys:
  "map fst (map (\<lambda>(t, thread). (t, if thread = Waiting then Checking else thread)) threads) = map fst threads"
  by auto

lemma pool_counts_drop_notifies: "pool_counts slots acc p \<Longrightarrow> pool_counts slots acc (drop_notifies p)"
  by (simp add: pool_counts_def drop_notifies_def running_def wake_all_counts wake_all_keys del: map_map)

lemma pool_counts_nobody: "pool_counts slots acc p \<Longrightarrow> pool_counts slots acc (notify_one None p)"
  by (simp add: pool_counts_def notify_one_def)

lemma pool_counts_works: "pool_works p p' \<Longrightarrow> pool_counts slots acc p \<Longrightarrow> pool_counts slots acc p'"
  by (erule pool_worksE)
    (simp_all add: pool_counts_check pool_counts_done pool_counts_notify_one pool_counts_nobody)

lemma pool_counts_handles:
  "pool_counts slots acc p \<Longrightarrow> pool_counts slots acc (handle_clone p)"
  "pool_counts slots acc p \<Longrightarrow> pool_counts slots acc (drop_begin p)"
  "pool_counts slots acc p \<Longrightarrow> pool_counts slots acc (drop_returns p)"
  "pool_counts slots acc p \<Longrightarrow> pool_counts slots acc (drop_closes p)"
  by (simp_all add: pool_counts_def handle_clone_def drop_begin_def drop_returns_def drop_closes_def Let_def)

lemma reachable_counts: "pool_reachable slots acc p \<Longrightarrow> pool_counts slots acc p"
proof (induction rule: pool_reachable.induct)
  case (Posts slots acc p job p')
  then show ?case by (blast intro: pool_counts_post)
next
  case (Works slots acc p p')
  then show ?case by (blast intro: pool_counts_works)
next
  case (Wakes_spuriously slots acc p t)
  then show ?case by (simp add: pool_counts_set)
qed (simp_all add: pool_counts_spawn pool_counts_handles pool_counts_drop_notifies)

lemma reachable_handles: "pool_reachable slots acc p \<Longrightarrow> pool_handles p"
proof (induction rule: pool_reachable.induct)
  case (Spawned slots)
  then show ?case by (simp add: pool_handles_def pool_spawn_def Let_def)
next
  case (Works slots acc p p')
  have "gp_live p' = gp_live p \<and> gp_returning p' = gp_returning p \<and> gp_closing p' = gp_closing p
      \<and> gp_notify_all p' = gp_notify_all p \<and> gp_open p' = gp_open p"
    using Works(2) by (elim pool_worksE)
      (simp_all add: worker_check_def worker_done_def notify_one_def split: list.splits)
  with Works(3) show ?case by (simp add: pool_handles_def)
qed (auto simp: pool_handles_def pool_post_def handle_clone_def drop_begin_def drop_returns_def drop_closes_def
    drop_notifies_def handle_count_def Let_def split: if_splits)

lemma pool_awake_set:
  assumes "pool_counts slots acc p" "pool_awake p" "map_of (gp_threads p) t = Some old" "old \<noteq> Checking" "s = Checking"
  shows "pool_awake (set_thread t s p)"
  using assms stages_set_sub [of t s p] stages_set_new [of p t old s] by (auto simp: pool_awake_def)

lemma pool_awake_check:
  assumes inv: "pool_awake p" and handles: "pool_handles p" and t: "map_of (gp_threads p) t = Some Checking"
  shows "pool_awake (worker_check t p)"
proof (cases "gp_jobs p")
  case (Cons job jobs)
  then show ?thesis
    using inv stages_set_sub [of t "Running job" p] stages_set_new [OF t, of "Running job"]
    by (auto simp: pool_awake_def worker_check_def intro!: disjI2 bexI [of _ "Running job"])
next
  case Nil
  then show ?thesis
    using inv stages_set_sub [of t Exited p] stages_set_sub [of t Waiting p]
    by (auto simp: pool_awake_def worker_check_def)
qed

lemma pool_awake_works:
  assumes works: "pool_works p p'" and inv: "pool_awake p" and counts: "pool_counts slots acc p" and handles: "pool_handles p"
  shows "pool_awake p'"
  using works
proof cases
  case (Checks t)
  then show ?thesis using pool_awake_check [OF inv handles] by simp
next
  case (Finishes t job)
  with pool_awake_set [OF counts inv, of t "Running job" Checking] show ?thesis
    by (simp add: pool_awake_def worker_done_def)
next
  case (Wakes t)
  with pool_awake_set [OF counts inv, of t Waiting Checking] stages_set_new [of p t Waiting Checking] show ?thesis
    by (auto simp: pool_awake_def notify_one_def)
next
  case Wakes_nobody
  have "gp_threads p \<noteq> []" using counts by (auto simp: pool_counts_def)
  then obtain t s where th: "(t, s) \<in> set (gp_threads p)" by (cases "gp_threads p") auto
  then have s: "s \<in> stages p" by (force simp: stages_def)
  have "s \<noteq> Waiting" using Wakes_nobody th by auto
  then have "gp_jobs p \<noteq> [] \<longrightarrow> s = Checking \<or> runs_job s" using inv s by (cases s) (auto simp: pool_awake_def)
  with s inv Wakes_nobody show ?thesis by (auto simp: pool_awake_def notify_one_def)
qed

lemma stages_wake_all: "stages (drop_notifies p) = (\<lambda>s. if s = Waiting then Checking else s) ` stages p"
  by (simp add: stages_def drop_notifies_def image_image case_prod_beta' del: if_image_distrib)

lemma reachable_awake: "pool_reachable slots acc p \<Longrightarrow> pool_awake p"
proof (induction rule: pool_reachable.induct)
  case (Spawned slots)
  then show ?case by (auto simp: pool_awake_def pool_spawn_def stages_def Let_def)
next
  case (Posts slots acc p job p')
  then show ?case by (auto simp: pool_awake_def pool_post_def stages_def split: if_splits)
next
  case (Works slots acc p p')
  then show ?case using pool_awake_works reachable_counts reachable_handles by blast
next
  case (Wakes_spuriously slots acc p t)
  then show ?case using pool_awake_set reachable_counts by blast
next
  case (Drop_notifies slots acc p)
  then show ?case
    unfolding pool_awake_def stages_wake_all by (auto simp: drop_notifies_def image_iff)
qed (auto simp: pool_awake_def handle_clone_def drop_begin_def drop_returns_def drop_closes_def Let_def)

section \<open>No job is lost\<close>

text \<open>What the threads still have to do by themselves.\<close>

definition work_left :: "generation_pool \<Rightarrow> nat" where
  "work_left p = 2 * gp_notify p + 2 * length (gp_jobs p) + 2 * running p + count_tasks ((=) Checking) (gp_threads p)"

lemma works_decreases:
  assumes works: "pool_works p p'" and d: "distinct (map fst (gp_threads p))"
  shows "work_left p' < work_left p"
  using works
proof cases
  case (Checks t)
  note count_set_thread [OF d this(2), of "(=) Checking"] running_set_thread [OF d this(2)]
  from this [of Waiting] this [of Exited] this [of "Running (hd (gp_jobs p))"] Checks(1) show ?thesis
    by (cases "gp_jobs p") (simp_all add: work_left_def worker_check_def)
next
  case (Finishes t job)
  with count_set_thread [OF d, of t "Running job" "(=) Checking" Checking] running_set_thread [OF d, of t "Running job" Checking]
  show ?thesis by (simp add: work_left_def worker_done_def)
next
  case (Wakes t)
  with count_set_thread [OF d, of t Waiting "(=) Checking" Checking] running_set_thread [OF d, of t Waiting Checking]
  show ?thesis by (simp add: work_left_def notify_one_def)
next
  case Wakes_nobody
  then show ?thesis by (simp add: work_left_def notify_one_def)
qed

lemma stuck_is_idle:
  assumes stuck: "\<nexists>p'. pool_works p p'" and counts: "pool_counts slots acc p" and awake: "pool_awake p"
  shows "gp_jobs p = [] \<and> running p = 0 \<and> gp_notify p = 0 \<and> stages p \<subseteq> {Waiting, Exited}"
proof -
  have d: "distinct (map fst (gp_threads p))" using counts by (simp add: pool_counts_def)
  have notify: "gp_notify p = 0"
  proof (rule ccontr)
    assume n: "gp_notify p \<noteq> 0"
    show False
    proof (cases "Waiting \<in> stages p")
      case True
      then show False using stages_map_of [OF d] pool_works.Wakes stuck n by blast
    next
      case False
      then have "\<forall>(t, thread) \<in> set (gp_threads p). thread \<noteq> Waiting" by (force simp: stages_def)
      then show False using pool_works.Wakes_nobody stuck n by blast
    qed
  qed
  have idle: "s \<in> {Waiting, Exited}" if "s \<in> stages p" for s
    using stages_map_of [OF d that] pool_works.Checks [of p] pool_works.Finishes [of p] stuck by (cases s) blast+
  moreover have "gp_jobs p = []" using awake idle notify by (force simp: pool_awake_def)
  moreover have "running p = 0"
    unfolding running_def by (rule count_tasks_none) (use idle in \<open>force simp: stages_def runs_job_def\<close>)
  ultimately show ?thesis using notify by blast
qed

section \<open>The laws\<close>

lemma running_bound: "running p \<le> length (gp_threads p)"
  by (simp add: running_def count_tasks_def)

text \<open>Also: in every history of posts, clones, drops, notifications and spurious wakeups, the depth the
  health route reports is exactly the queued and the running jobs, at most one running job per slot and eight queued
  ones; the queued jobs are the last accepted ones in the order of acceptance; and a caller that holds a handle is
  accepted, or refused with \<open>Full\<close> exactly when eight jobs are queued: never told that the pool is gone.\<close>

theorem pool_accounts_for_every_job:
  assumes "pool_reachable slots acc p"
  shows "gp_depth p = length (gp_jobs p) + running p \<and> length (gp_jobs p) \<le> QUEUE_DEPTH \<and> running p \<le> max slots 1
       \<and> suffix (gp_jobs p) acc
       \<and> (gp_live p > 0 \<longrightarrow> (if length (gp_jobs p) = QUEUE_DEPTH then pool_post job p = (Inl Full, p)
                             else fst (pool_post job p) = Inr ()))"
  using reachable_counts [OF assms] reachable_handles [OF assms] running_bound [of p]
  by (auto simp: pool_counts_def pool_handles_def pool_post_def)

text \<open>A pool of one slot: its thread runs the first job, the second is queued, a clone of the handle is live.\<close>

definition demo_pool :: generation_pool where
  "demo_pool = snd (pool_post 8 (notify_one None (worker_check 0 (snd (pool_post 7 (handle_clone (pool_spawn 1)))))))"

lemma demo_pool_reachable: "pool_reachable 1 [7, 8] demo_pool"
proof -
  let ?p1 = "handle_clone (pool_spawn 1)"
  let ?p2 = "snd (pool_post 7 ?p1)"
  let ?p3 = "worker_check 0 ?p2"
  let ?p4 = "notify_one None ?p3"
  note steps = pool_post_def handle_clone_def pool_spawn_def QUEUE_DEPTH_def worker_check_def set_thread_def notify_one_def
  have "pool_reachable 1 [] ?p1" by (rule pool_reachable.Clones [OF pool_reachable.Spawned]) (simp add: pool_spawn_def)
  then have "pool_reachable 1 ([] @ [7]) ?p2"
    by (rule pool_reachable.Posts) (simp_all add: steps)
  moreover have "pool_works ?p2 ?p3" by (rule pool_works.Checks) (simp add: steps)
  ultimately have "pool_reachable 1 ([] @ [7]) ?p3" by (rule pool_reachable.Works)
  moreover have "pool_works ?p3 ?p4" by (rule pool_works.Wakes_nobody) (simp_all add: steps)
  ultimately have "pool_reachable 1 ([] @ [7]) ?p4" by (rule pool_reachable.Works)
  then have "pool_reachable 1 (([] @ [7]) @ [8]) demo_pool"
    unfolding demo_pool_def by (rule pool_reachable.Posts) (simp_all add: steps)
  then show ?thesis by simp
qed

lemmas demo_pool_simps = demo_pool_def pool_post_def handle_clone_def pool_spawn_def QUEUE_DEPTH_def
  worker_check_def set_thread_def notify_one_def running_def

theorem pool_accounts_for_every_job_witness:
  "gp_depth demo_pool = 2 \<and> running demo_pool = 1 \<and> suffix (gp_jobs demo_pool) [7, 8] \<and> fst (pool_post 9 demo_pool) = Inr ()"
proof -
  have "gp_live demo_pool > 0" "length (gp_jobs demo_pool) \<noteq> QUEUE_DEPTH" "length (gp_jobs demo_pool) = 1" "running demo_pool = 1"
    by (simp_all add: demo_pool_simps)
  with pool_accounts_for_every_job [OF demo_pool_reachable, of 9] show ?thesis by auto
qed

text \<open>Property C37: no accepted job is lost and no wakeup: left to themselves the threads only ever take finitely many
  steps (each lowers \<open>work_left\<close>), and when none is possible any more the queue is empty, nothing runs and the depth is
  zero, in every reachable state, also while handles are dropped; and once the last handle has closed the queue and
  notified, that is the moment when every thread has returned.\<close>

theorem no_accepted_job_is_lost:
  assumes "pool_reachable slots acc p"
  shows "(\<forall>p'. pool_works p p' \<longrightarrow> work_left p' < work_left p)
       \<and> ((\<nexists>p'. pool_works p p') \<longrightarrow> gp_jobs p = [] \<and> gp_depth p = 0
            \<and> (\<not> gp_open p \<and> gp_notify_all p = 0 \<longrightarrow> (\<forall>(t, thread) \<in> set (gp_threads p). thread = Exited)))"
proof (intro conjI impI allI)
  note counts = reachable_counts [OF assms] and awake = reachable_awake [OF assms]
  show "work_left p' < work_left p" if "pool_works p p'" for p'
    using works_decreases [OF that] counts by (simp add: pool_counts_def)
  assume "\<nexists>p'. pool_works p p'"
  note idle = stuck_is_idle [OF this counts awake]
  show "gp_jobs p = []" "gp_depth p = 0" using idle counts by (simp_all add: pool_counts_def)
  show "\<forall>(t, thread) \<in> set (gp_threads p). thread = Exited" if "\<not> gp_open p \<and> gp_notify_all p = 0"
    using that awake idle by (force simp: pool_awake_def stages_def)
qed

theorem no_accepted_job_is_lost_witness:
  "work_left (worker_done 0 demo_pool) < work_left demo_pool"
proof -
  have "pool_works demo_pool (worker_done 0 demo_pool)"
    by (rule pool_works.Finishes [of _ _ 7]) (simp add: demo_pool_simps)
  with no_accepted_job_is_lost [OF demo_pool_reachable] show ?thesis by blast
qed

section \<open>Two histories\<close>

text \<open>Eight posts before the threads take the lock: the ninth is refused although nothing runs.\<close>

definition burst :: "nat \<Rightarrow> generation_pool \<Rightarrow> generation_pool" where
  "burst n p = fold (\<lambda>job p. snd (pool_post job p)) [0 ..< n] p"

lemma burst_reachable: "n \<le> QUEUE_DEPTH \<Longrightarrow> pool_reachable slots [0 ..< n] (burst n (pool_spawn slots))
    \<and> gp_jobs (burst n (pool_spawn slots)) = [0 ..< n] \<and> gp_open (burst n (pool_spawn slots))
    \<and> gp_live (burst n (pool_spawn slots)) = 1 \<and> gp_depth (burst n (pool_spawn slots)) = n"
proof (induction n)
  case 0
  then show ?case by (simp add: burst_def pool_reachable.Spawned) (simp add: pool_spawn_def Let_def)
next
  case (Suc n)
  let ?p = "burst n (pool_spawn slots)"
  have step: "burst (Suc n) (pool_spawn slots) = snd (pool_post n ?p)" by (simp add: burst_def)
  have post: "pool_post n ?p = (Inr (), snd (pool_post n ?p))" using Suc by (simp add: pool_post_def)
  have "pool_reachable slots ([0 ..< n] @ [n]) (snd (pool_post n ?p))"
    by (rule pool_reachable.Posts [OF _ _ post]) (use Suc in simp_all)
  with Suc show ?case unfolding step by (simp add: pool_post_def)
qed

lemma burst_is_refused_before_the_documented_width:
  "\<exists>p acc. pool_reachable slots acc p \<and> gp_live p > 0 \<and> pool_post job p = (Inl Full, p) \<and> gp_depth p < max slots 1 + QUEUE_DEPTH"
  using burst_reachable [of QUEUE_DEPTH slots]
  by (intro exI [of _ "burst QUEUE_DEPTH (pool_spawn slots)"] exI [of _ "[0 ..< QUEUE_DEPTH]"]) (auto simp: pool_post_def)

text \<open>Property C38: the pool is not always closed by its last handle: a schedule exists in which the last two handles are
  dropped at the same time, both drops read a count of two before either handle is released, and the pool ends with no
  handle, an open queue and a worker that waits in a state in which no step is possible.\<close>

theorem overlapping_drops_leave_the_queue_open:
  "\<exists>p. pool_reachable 1 [] p \<and> handle_count p = 0 \<and> gp_open p \<and> gp_threads p = [(0, Waiting)] \<and> (\<nexists>p'. pool_works p p')"
proof -
  let ?start = "worker_check 0 (handle_clone (pool_spawn 1))"
  let ?final = "drop_returns (drop_returns (drop_begin (drop_begin ?start)))"
  have "pool_reachable 1 [] (handle_clone (pool_spawn 1))"
    by (rule pool_reachable.Clones [OF pool_reachable.Spawned]) (simp add: pool_spawn_def)
  moreover have "pool_works (handle_clone (pool_spawn 1)) ?start"
    by (rule pool_works.Checks) (simp add: handle_clone_def pool_spawn_def)
  ultimately have "pool_reachable 1 [] ?start" by (rule pool_reachable.Works)
  then have "pool_reachable 1 [] ?final"
    by (intro pool_reachable.Drop_returns pool_reachable.Drop_begins)
      (simp_all add: handle_clone_def pool_spawn_def worker_check_def set_thread_def drop_begin_def drop_returns_def handle_count_def)
  moreover have "handle_count ?final = 0 \<and> gp_open ?final \<and> gp_threads ?final = [(0, Waiting)] \<and> gp_notify ?final = 0"
    by (simp add: handle_clone_def pool_spawn_def worker_check_def set_thread_def drop_begin_def drop_returns_def handle_count_def)
  ultimately show ?thesis by (intro exI [of _ ?final]) (auto elim!: pool_worksE split: if_splits)
qed

end
