(* ===== verification/Gguf.thy ===== *)
theory Gguf
  imports Utf8
begin

unbundle bit_operations_syntax

text \<open>
  The model container (\<^verbatim>\<open>engine-core/src/gguf.rs\<close>) and the engine's errors
  (\<^verbatim>\<open>engine-core/src/error.rs\<close>): the cursor with its little-endian reads, the metadata
  values, the tensor descriptors and the checks that tie them to the file, and the
  typed accessors the tokenizer and the configuration read through.

  A file is its bytes. Fixed-width values are words; lengths, counts and offsets are
  natural numbers with the checked \<^verbatim>\<open>u64\<close> operations written out. The float types are
  their bit patterns.
\<close>

section \<open>Errors\<close>

datatype EngineError =
    InvalidGguf string
  | UnsupportedGguf string
  | TokenizerNotAvailable
  | InvalidTokenizerMetadata string
  | UnsupportedTokenizer string
  | InvalidTensorData string
  | TensorNotFound string
  | UnsupportedTensorType string
  | ShapeMismatch string
  | UnsupportedModelArchitecture string
  | InvalidModelMetadata string
  | Io string string

type_synonym 'a engine_result = "(EngineError, 'a) res"

text \<open>\<^verbatim>\<open>Display\<close>.\<close>

fun error_text :: "EngineError \<Rightarrow> string" where
  "error_text (InvalidGguf msg) = ''invalid GGUF: '' @ msg"
| "error_text (UnsupportedGguf msg) = ''unsupported GGUF: '' @ msg"
| "error_text TokenizerNotAvailable = ''tokenizer metadata is not available in the loaded model''"
| "error_text (InvalidTokenizerMetadata msg) = ''invalid tokenizer metadata: '' @ msg"
| "error_text (UnsupportedTokenizer msg) = ''unsupported tokenizer: '' @ msg"
| "error_text (InvalidTensorData msg) = ''invalid tensor data: '' @ msg"
| "error_text (TensorNotFound name) = ''tensor not found: '' @ name"
| "error_text (UnsupportedTensorType msg) = ''unsupported tensor type: '' @ msg"
| "error_text (ShapeMismatch msg) = ''shape mismatch: '' @ msg"
| "error_text (UnsupportedModelArchitecture msg) = ''unsupported model architecture: '' @ msg"
| "error_text (InvalidModelMetadata msg) = ''invalid model metadata: '' @ msg"
| "error_text (Io path source) = ''io error on '' @ path @ '': '' @ source"

definition show_int :: "int \<Rightarrow> string" where
  "show_int i = (if i < 0 then ''-'' @ show_nat (nat (- i)) else show_nat (nat i))"

text \<open>\<^verbatim>\<open>is_power_of_two\<close> of a 64-bit value.\<close>

definition is_pow2 :: "nat \<Rightarrow> bool" where
  "is_pow2 n \<longleftrightarrow> n \<in> set (map (\<lambda>k. 2 ^ k) [0 ..< 64])"

definition checked_add_u64 :: "nat \<Rightarrow> nat \<Rightarrow> nat option" where
  "checked_add_u64 a b = (if a + b \<le> u64_max then Some (a + b) else None)"

section \<open>Constants and data\<close>

definition GGUF_MAGIC :: string where "GGUF_MAGIC = ''GGUF''"
definition DEFAULT_ALIGNMENT :: nat where "DEFAULT_ALIGNMENT = 32"
definition MAX_TENSOR_DIMS :: nat where "MAX_TENSOR_DIMS = 4"
definition MAX_TENSOR_NAME :: nat where "MAX_TENSOR_NAME = 64"
definition MAX_STRING_BYTES :: nat where "MAX_STRING_BYTES = 16 * 1024 * 1024"
definition MAX_ARRAY_LEN :: nat where "MAX_ARRAY_LEN = 1000000"

datatype MetadataValue =
    U8 "8 word"
  | I8 "8 word"
  | U16 "16 word"
  | I16 "16 word"
  | U32 "32 word"
  | I32 "32 word"
  | F32 "32 word"
  | Bool bool
  | String string
  | Array "MetadataValue list"
  | U64 "64 word"
  | I64 "64 word"
  | F64 "64 word"

datatype TensorType =
    TF32 | TF16 | Q4_0 | Q4_1 | Q5_0 | Q5_1 | Q8_0 | Q8_1 | Q2K | Q3K | Q4K | Q5K | Q6K | Q8K
  | IQ4NL | IQ4XS | Tq1_0 | Tq2_0 | TI8 | TI16 | TI32 | TI64 | TF64 | BF16 | NVFP4 | UnknownType int

definition from_id :: "int \<Rightarrow> TensorType" where
  "from_id value =
     (if value = 0 then TF32 else if value = 1 then TF16 else if value = 2 then Q4_0 else if value = 3 then Q4_1
      else if value = 6 then Q5_0 else if value = 7 then Q5_1 else if value = 8 then Q8_0 else if value = 9 then Q8_1
      else if value = 10 then Q2K else if value = 11 then Q3K else if value = 12 then Q4K else if value = 13 then Q5K
      else if value = 14 then Q6K else if value = 15 then Q8K else if value = 20 then IQ4NL else if value = 23 then IQ4XS
      else if value = 34 then Tq1_0 else if value = 35 then Tq2_0 else if value = 24 then TI8 else if value = 25 then TI16
      else if value = 26 then TI32 else if value = 27 then TI64 else if value = 28 then TF64 else if value = 30 then BF16
      else if value = 40 then NVFP4 else UnknownType value)"

text \<open>Elements per block and bytes per block.\<close>

fun layout :: "TensorType \<Rightarrow> (nat \<times> nat) option" where
  "layout TF32 = Some (1, 4)"
| "layout TF16 = Some (1, 2)"
| "layout Q4_0 = Some (32, 18)"
| "layout Q4_1 = Some (32, 20)"
| "layout Q5_0 = Some (32, 22)"
| "layout Q5_1 = Some (32, 22)"
| "layout Q8_0 = Some (32, 34)"
| "layout Q8_1 = Some (32, 36)"
| "layout Q2K = Some (256, 84)"
| "layout Q3K = Some (256, 110)"
| "layout Q4K = Some (256, 144)"
| "layout Q5K = Some (256, 176)"
| "layout Q6K = Some (256, 210)"
| "layout Q8K = Some (256, 292)"
| "layout IQ4NL = Some (32, 18)"
| "layout IQ4XS = Some (256, 136)"
| "layout Tq1_0 = Some (256, 54)"
| "layout Tq2_0 = Some (256, 66)"
| "layout NVFP4 = Some (64, 36)"
| "layout TI8 = Some (1, 1)"
| "layout TI16 = Some (1, 2)"
| "layout BF16 = Some (1, 2)"
| "layout TI32 = Some (1, 4)"
| "layout TI64 = Some (1, 8)"
| "layout TF64 = Some (1, 8)"
| "layout (UnknownType _) = None"

record TensorDescriptor =
  td_name :: string
  td_dimensions :: "nat list"
  td_type :: TensorType
  td_relative_offset :: nat
  td_absolute_offset :: nat
  td_n_bytes :: nat

record GgufFile =
  gguf_path :: string
  gguf_version :: "32 word"
  gguf_tensor_count :: int
  gguf_metadata_count :: int
  gguf_alignment :: nat
  gguf_data_start :: nat
  gguf_metadata :: "string \<Rightarrow> MetadataValue option"
  gguf_tensors :: "TensorDescriptor list"

section \<open>The cursor\<close>

text \<open>What is left of the file, what ends it (the end of the file or a read error), the position.\<close>

record cursor =
  cur_rest :: string
  cur_fault :: "string option"
  cur_path :: string
  cur_pos :: nat

definition read_bytes :: "nat \<Rightarrow> cursor \<Rightarrow> (string \<times> cursor) engine_result" where
  "read_bytes n c =
     (if length (cur_rest c) < n
      then Inl (case cur_fault c of None \<Rightarrow> InvalidGguf ''unexpected end of file'' | Some e \<Rightarrow> Io (cur_path c) e)
      else (case checked_add_u64 (cur_pos c) n of
          None \<Rightarrow> Inl (InvalidGguf ''cursor overflow'')
        | Some pos \<Rightarrow> Inr (take n (cur_rest c), c\<lparr>cur_rest := drop n (cur_rest c), cur_pos := pos\<rparr>)))"

definition le_nat :: "string \<Rightarrow> nat" where
  "le_nat bytes = foldr (\<lambda>b n. char_code b + 256 * n) bytes 0"

definition read_le :: "nat \<Rightarrow> cursor \<Rightarrow> (nat \<times> cursor) engine_result" where
  "read_le n c = and_then (read_bytes n c) (\<lambda>(bytes, c). Inr (le_nat bytes, c))"

definition read_word :: "nat \<Rightarrow> cursor \<Rightarrow> ('w::len word \<times> cursor) engine_result" where
  "read_word n c = and_then (read_le n c) (\<lambda>(value, c). Inr (word_of_nat value, c))"

definition read_u8 :: "cursor \<Rightarrow> (8 word \<times> cursor) engine_result" where "read_u8 = read_word 1"
definition read_u16 :: "cursor \<Rightarrow> (16 word \<times> cursor) engine_result" where "read_u16 = read_word 2"
definition read_u32 :: "cursor \<Rightarrow> (32 word \<times> cursor) engine_result" where "read_u32 = read_word 4"
definition read_u64 :: "cursor \<Rightarrow> (64 word \<times> cursor) engine_result" where "read_u64 = read_word 8"

definition read_i32 :: "cursor \<Rightarrow> (int \<times> cursor) engine_result" where
  "read_i32 c = and_then (read_u32 c) (\<lambda>(w, c). Inr (sint w, c))"

definition read_i64 :: "cursor \<Rightarrow> (int \<times> cursor) engine_result" where
  "read_i64 c = and_then (read_u64 c) (\<lambda>(w, c). Inr (sint w, c))"

definition read_bool :: "cursor \<Rightarrow> (bool \<times> cursor) engine_result" where
  "read_bool c = and_then (read_u8 c) (\<lambda>(b, c). Inr (b \<noteq> 0, c))"

definition read_string :: "cursor \<Rightarrow> (string \<times> cursor) engine_result" where
  "read_string c = and_then (read_u64 c) (\<lambda>(len, c).
     if unat len > MAX_STRING_BYTES then Inl (InvalidGguf (''string too large: '' @ show_nat (unat len)))
     else and_then (read_bytes (unat len) c) (\<lambda>(bytes, c).
       if is_utf8 bytes then Inr (bytes, c) else Inl (InvalidGguf ''invalid UTF-8 string'')))"

section \<open>Metadata values\<close>

text \<open>Every type but the array; an array's elements are of one such type.\<close>

definition read_scalar :: "cursor \<Rightarrow> int \<Rightarrow> (MetadataValue \<times> cursor) engine_result" where
  "read_scalar c ty =
     (if ty = 0 then and_then (read_u8 c) (\<lambda>(v, c). Inr (U8 v, c))
      else if ty = 1 then and_then (read_u8 c) (\<lambda>(v, c). Inr (I8 v, c))
      else if ty = 2 then and_then (read_u16 c) (\<lambda>(v, c). Inr (U16 v, c))
      else if ty = 3 then and_then (read_u16 c) (\<lambda>(v, c). Inr (I16 v, c))
      else if ty = 4 then and_then (read_u32 c) (\<lambda>(v, c). Inr (U32 v, c))
      else if ty = 5 then and_then (read_u32 c) (\<lambda>(v, c). Inr (I32 v, c))
      else if ty = 6 then and_then (read_u32 c) (\<lambda>(v, c). Inr (F32 v, c))
      else if ty = 7 then and_then (read_bool c) (\<lambda>(v, c). Inr (Bool v, c))
      else if ty = 8 then and_then (read_string c) (\<lambda>(v, c). Inr (String v, c))
      else if ty = 10 then and_then (read_u64 c) (\<lambda>(v, c). Inr (U64 v, c))
      else if ty = 11 then and_then (read_u64 c) (\<lambda>(v, c). Inr (I64 v, c))
      else if ty = 12 then and_then (read_u64 c) (\<lambda>(v, c). Inr (F64 v, c))
      else Inl (UnsupportedGguf (''metadata value type '' @ show_int ty)))"

text \<open>\<open>n\<close> reads in a row.\<close>

fun read_many :: "(cursor \<Rightarrow> ('a \<times> cursor) engine_result) \<Rightarrow> nat \<Rightarrow> cursor \<Rightarrow> ('a list \<times> cursor) engine_result" where
  "read_many read 0 c = Inr ([], c)"
| "read_many read (Suc n) c = and_then (read c) (\<lambda>(x, c). and_then (read_many read n c) (\<lambda>(xs, c). Inr (x # xs, c)))"

definition read_value_of_type :: "cursor \<Rightarrow> int \<Rightarrow> (MetadataValue \<times> cursor) engine_result" where
  "read_value_of_type c ty =
     (if ty = 9 then and_then (read_i32 c) (\<lambda>(element_ty, c).
        if element_ty = 9 then Inl (UnsupportedGguf ''nested metadata arrays'')
        else and_then (read_u64 c) (\<lambda>(len, c).
          if unat len > MAX_ARRAY_LEN then Inl (InvalidGguf (''metadata array too large: '' @ show_nat (unat len)))
          else and_then (read_many (\<lambda>c. read_scalar c element_ty) (unat len) c) (\<lambda>(values, c). Inr (Array values, c))))
      else read_scalar c ty)"

definition read_value :: "cursor \<Rightarrow> (MetadataValue \<times> cursor) engine_result" where
  "read_value c = and_then (read_i32 c) (\<lambda>(ty, c). read_value_of_type c ty)"

section \<open>Sizes and offsets\<close>

definition element_count :: "string \<Rightarrow> nat list \<Rightarrow> nat engine_result" where
  "element_count name dimensions = foldl (\<lambda>elements dim. and_then elements (\<lambda>n.
       ok_or (InvalidGguf (''tensor '' @ name @ '' element count overflow'')) (checked_mul_u64 n dim))) (Inr 1) dimensions"

definition tensor_nbytes :: "string \<Rightarrow> nat list \<Rightarrow> TensorType \<Rightarrow> nat engine_result" where
  "tensor_nbytes name dimensions tensor_type =
     and_then (ok_or (UnsupportedGguf (''tensor '' @ name @ '' has unknown wire type '' @
         (case tensor_type of UnknownType i \<Rightarrow> ''Unknown('' @ show_int i @ '')'' | _ \<Rightarrow> [])))
       (layout tensor_type)) (\<lambda>(block_size, type_size).
     let first_dim = (case dimensions of [] \<Rightarrow> 1 | d # _ \<Rightarrow> d) in
     if \<not> block_size dvd first_dim
     then Inl (InvalidGguf (''tensor '' @ name @ '' first dimension '' @ show_nat first_dim
                 @ '' is not divisible by block size '' @ show_nat block_size))
     else and_then (element_count name dimensions) (\<lambda>elements.
       ok_or (InvalidGguf (''tensor '' @ name @ '' byte size overflow''))
         (checked_mul_u64 (elements div block_size) type_size)))"

text \<open>\<^verbatim>\<open>value + (alignment - 1)\<close> with the low bits cleared.\<close>

definition align_to :: "nat \<Rightarrow> nat \<Rightarrow> nat engine_result" where
  "align_to value alignment = (let add = alignment - 1 in
     ok_or (InvalidGguf ''alignment overflow'')
       (map_option (\<lambda>v. unat (word_of_nat v AND NOT (word_of_nat add) :: 64 word)) (checked_add_u64 value add)))"

section \<open>The header\<close>

fun read_entries :: "nat \<Rightarrow> cursor \<Rightarrow> (string \<Rightarrow> MetadataValue option) \<Rightarrow> ((string \<Rightarrow> MetadataValue option) \<times> cursor) engine_result" where
  "read_entries 0 c metadata = Inr (metadata, c)"
| "read_entries (Suc n) c metadata =
     and_then (read_string c) (\<lambda>(key, c). and_then (read_value c) (\<lambda>(value, c).
       if metadata key \<noteq> None then Inl (InvalidGguf (''duplicate metadata key '' @ key))
       else read_entries n c (metadata(key \<mapsto> value))))"

definition alignment_of :: "(string \<Rightarrow> MetadataValue option) \<Rightarrow> nat engine_result" where
  "alignment_of metadata =
     and_then (case metadata ''general.alignment'' of
         Some (U32 value) \<Rightarrow> Inr (unat value)
       | Some (U64 value) \<Rightarrow> Inr (unat value)
       | Some _ \<Rightarrow> Inl (InvalidGguf ''general.alignment has non-integer type'')
       | None \<Rightarrow> Inr DEFAULT_ALIGNMENT) (\<lambda>alignment.
     if alignment = 0 \<or> \<not> is_pow2 alignment then Inl (InvalidGguf (''invalid alignment '' @ show_nat alignment))
     else Inr alignment)"

type_synonym raw_tensor = "string \<times> nat list \<times> TensorType \<times> nat"

definition read_dimension :: "string \<Rightarrow> cursor \<Rightarrow> (nat \<times> cursor) engine_result" where
  "read_dimension name c = and_then (read_i64 c) (\<lambda>(dim, c).
     if dim < 0 then Inl (InvalidGguf (''tensor '' @ name @ '' has negative dimension '' @ show_int dim))
     else Inr (nat dim, c))"

definition read_raw_tensor :: "cursor \<Rightarrow> (raw_tensor \<times> cursor) engine_result" where
  "read_raw_tensor c = and_then (read_string c) (\<lambda>(name, c).
     if length name \<ge> MAX_TENSOR_NAME
     then Inl (InvalidGguf (''tensor name '' @ name @ '' exceeds the '' @ show_nat MAX_TENSOR_NAME @ ''-byte limit''))
     else and_then (read_u32 c) (\<lambda>(n_dimensions, c).
       if n_dimensions = 0 \<or> unat n_dimensions > MAX_TENSOR_DIMS
       then Inl (InvalidGguf (''tensor '' @ name @ '' has invalid dimension count '' @ show_nat (unat n_dimensions)))
       else and_then (read_many (read_dimension name) (unat n_dimensions) c) (\<lambda>(dimensions, c).
         and_then (read_i32 c) (\<lambda>(ty, c). and_then (read_u64 c) (\<lambda>(relative_offset, c).
           Inr ((name, dimensions, from_id ty, unat relative_offset), c))))))"

text \<open>The tensors tile the data region in declaration order: \<open>seen\<close> are the names so far, \<open>expected_offset\<close> is
  where the next one must start.\<close>

fun place_tensors :: "nat \<Rightarrow> nat \<Rightarrow> nat \<Rightarrow> string list \<Rightarrow> nat \<Rightarrow> raw_tensor list \<Rightarrow> TensorDescriptor list engine_result" where
  "place_tensors data_start declared_len alignment seen expected_offset [] = Inr []"
| "place_tensors data_start declared_len alignment seen expected_offset ((name, dimensions, tensor_type, relative_offset) # raw) =
     (if name \<in> set seen then Inl (InvalidGguf (''duplicate tensor name '' @ name))
      else if relative_offset \<noteq> expected_offset
      then Inl (InvalidGguf (''tensor '' @ name @ '' offset '' @ show_nat relative_offset
             @ '' is not contiguous; expected '' @ show_nat expected_offset))
      else and_then (tensor_nbytes name dimensions tensor_type) (\<lambda>n_bytes.
        and_then (ok_or (InvalidGguf (''tensor '' @ name @ '' absolute offset overflow''))
                   (checked_add_u64 data_start relative_offset)) (\<lambda>absolute_offset.
        and_then (ok_or (InvalidGguf (''tensor '' @ name @ '' byte range overflow''))
                   (checked_add_u64 absolute_offset n_bytes)) (\<lambda>last.
        if last > declared_len then Inl (InvalidGguf (''tensor '' @ name @ '' data extends beyond end of file''))
        else and_then (and_then (ok_or (InvalidGguf ''tensor offset overflow'') (checked_add_u64 relative_offset n_bytes))
                        (\<lambda>next. align_to next alignment)) (\<lambda>expected_offset.
        and_then (place_tensors data_start declared_len alignment (name # seen) expected_offset raw) (\<lambda>tensors.
          Inr (\<lparr>td_name = name, td_dimensions = dimensions, td_type = tensor_type, td_relative_offset = relative_offset,
                td_absolute_offset = absolute_offset, td_n_bytes = n_bytes\<rparr> # tensors)))))))"

definition read_metadata_with_len :: "string \<Rightarrow> string engine_result \<times> string option \<Rightarrow> nat \<Rightarrow> GgufFile engine_result" where
  "read_metadata_with_len path file declared_len = and_then (fst file) (\<lambda>bytes.
     let c = \<lparr>cur_rest = bytes, cur_fault = snd file, cur_path = path, cur_pos = 0\<rparr> in
     and_then (read_bytes 4 c) (\<lambda>(magic, c).
     if magic \<noteq> GGUF_MAGIC then Inl (InvalidGguf ''bad magic; expected GGUF'')
     else and_then (read_u32 c) (\<lambda>(version, c).
     if \<not> (2 \<le> version \<and> version \<le> 3)
     then Inl (UnsupportedGguf (''version '' @ show_nat (unat version) @ ''; expected v2 or v3''))
     else and_then (read_i64 c) (\<lambda>(tensor_count, c).
     and_then (read_i64 c) (\<lambda>(metadata_count, c).
     if tensor_count < 0 \<or> metadata_count < 0 then Inl (InvalidGguf ''negative tensor or metadata count'')
     else and_then (read_entries (nat metadata_count) c Map.empty) (\<lambda>(metadata, c).
     and_then (alignment_of metadata) (\<lambda>alignment.
     and_then (read_many read_raw_tensor (nat tensor_count) c) (\<lambda>(raw_tensors, c).
     and_then (align_to (cur_pos c) alignment) (\<lambda>data_start.
     if data_start > declared_len then Inl (InvalidGguf ''aligned tensor data start is beyond end of file'')
     else and_then (place_tensors data_start declared_len alignment [] 0 raw_tensors) (\<lambda>tensors.
     Inr \<lparr>gguf_path = path, gguf_version = version, gguf_tensor_count = tensor_count, gguf_metadata_count = metadata_count,
          gguf_alignment = alignment, gguf_data_start = data_start, gguf_metadata = metadata, gguf_tensors = tensors\<rparr>))))))))))"

text \<open>The file on disk, its length as the system reports it.\<close>

definition read_metadata :: "string \<Rightarrow> string engine_result \<times> string option \<Rightarrow> nat engine_result \<Rightarrow> GgufFile engine_result" where
  "read_metadata path file file_len = and_then file_len (\<lambda>len. read_metadata_with_len path file len)"

section \<open>Accessors\<close>

definition metadata_string :: "GgufFile \<Rightarrow> string \<Rightarrow> string option" where
  "metadata_string file key = (case gguf_metadata file key of Some (String value) \<Rightarrow> Some value | _ \<Rightarrow> None)"

definition architecture :: "GgufFile \<Rightarrow> string option" where
  "architecture file = metadata_string file ''general.architecture''"

definition model_name :: "GgufFile \<Rightarrow> string option" where
  "model_name file = metadata_string file ''general.name''"

definition metadata_bool :: "GgufFile \<Rightarrow> string \<Rightarrow> bool option" where
  "metadata_bool file key = (case gguf_metadata file key of Some (Bool value) \<Rightarrow> Some value | _ \<Rightarrow> None)"

definition try_into_u32 :: "int \<Rightarrow> nat option" where
  "try_into_u32 v = (if 0 \<le> v \<and> v < 2 ^ 32 then Some (nat v) else None)"

definition try_into_i32 :: "int \<Rightarrow> int option" where
  "try_into_i32 v = (if - (2 ^ 31) \<le> v \<and> v < 2 ^ 31 then Some v else None)"

definition metadata_u32 :: "GgufFile \<Rightarrow> string \<Rightarrow> nat option" where
  "metadata_u32 file key = (case gguf_metadata file key of
       Some (U32 value) \<Rightarrow> Some (unat value)
     | Some (U64 value) \<Rightarrow> try_into_u32 (uint value)
     | _ \<Rightarrow> None)"

text \<open>Collecting results: the first error ends it.\<close>

fun collect_results :: "('e, 'a) res list \<Rightarrow> ('e, 'a list) res" where
  "collect_results [] = Inr []"
| "collect_results (r # rs) = and_then r (\<lambda>x. and_then (collect_results rs) (\<lambda>xs. Inr (x # xs)))"

definition typed_array_optional ::
  "GgufFile \<Rightarrow> string \<Rightarrow> string \<Rightarrow> (MetadataValue \<Rightarrow> 'a option) \<Rightarrow> 'a list option engine_result" where
  "typed_array_optional file key expected extract =
     (let wrong = InvalidGguf (''metadata '' @ key @ '' must be '' @ expected) in
      case gguf_metadata file key of
        None \<Rightarrow> Inr None
      | Some (Array values) \<Rightarrow> and_then (collect_results (map (\<lambda>value. ok_or wrong (extract value)) values)) (\<lambda>xs. Inr (Some xs))
      | Some _ \<Rightarrow> Inl wrong)"

definition metadata_array_strings_optional :: "GgufFile \<Rightarrow> string \<Rightarrow> string list option engine_result" where
  "metadata_array_strings_optional file key =
     typed_array_optional file key ''array<string>'' (\<lambda>value. case value of String s \<Rightarrow> Some s | _ \<Rightarrow> None)"

definition metadata_array_strings :: "GgufFile \<Rightarrow> string \<Rightarrow> string list engine_result" where
  "metadata_array_strings file key = and_then (metadata_array_strings_optional file key)
     (\<lambda>found. ok_or (InvalidGguf (''required metadata '' @ key @ '' is missing'')) found)"

definition metadata_array_f32_optional :: "GgufFile \<Rightarrow> string \<Rightarrow> 32 word list option engine_result" where
  "metadata_array_f32_optional file key =
     typed_array_optional file key ''array<float>'' (\<lambda>value. case value of F32 f \<Rightarrow> Some f | _ \<Rightarrow> None)"

definition metadata_array_u32_optional :: "GgufFile \<Rightarrow> string \<Rightarrow> nat list option engine_result" where
  "metadata_array_u32_optional file key = typed_array_optional file key ''array<uint>'' (\<lambda>value. case value of
       U32 v \<Rightarrow> Some (unat v) | I32 v \<Rightarrow> try_into_u32 (sint v) | U64 v \<Rightarrow> try_into_u32 (uint v) | _ \<Rightarrow> None)"

definition metadata_array_i32_optional :: "GgufFile \<Rightarrow> string \<Rightarrow> int list option engine_result" where
  "metadata_array_i32_optional file key = typed_array_optional file key ''array<int>'' (\<lambda>value. case value of
       I32 v \<Rightarrow> Some (sint v) | U32 v \<Rightarrow> try_into_i32 (uint v) | _ \<Rightarrow> None)"

definition metadata_array_bools_optional :: "GgufFile \<Rightarrow> string \<Rightarrow> bool list option engine_result" where
  "metadata_array_bools_optional file key =
     typed_array_optional file key ''array<bool>'' (\<lambda>value. case value of Bool b \<Rightarrow> Some b | _ \<Rightarrow> None)"

lemma collect_results_Inr: "collect_results rs = Inr xs \<longleftrightarrow> rs = map Inr xs"
  by (induction rs arbitrary: xs) (auto simp: and_then_Inr_iff)

section \<open>Printing\<close>

text \<open>How \<^verbatim>\<open>Debug\<close> prints a list of numbers, a flag and a tensor type.\<close>

fun debug_items :: "nat list \<Rightarrow> string" where
  "debug_items [] = []"
| "debug_items [n] = show_nat n"
| "debug_items (n # ns) = show_nat n @ '', '' @ debug_items ns"

definition debug_nats :: "nat list \<Rightarrow> string" where
  "debug_nats ns = ''['' @ debug_items ns @ '']''"

definition show_bool :: "bool \<Rightarrow> string" where
  "show_bool b = (if b then ''true'' else ''false'')"

fun debug_tensor_type :: "TensorType \<Rightarrow> string" where
  "debug_tensor_type TF32 = ''F32''"
| "debug_tensor_type TF16 = ''F16''"
| "debug_tensor_type Q4_0 = ''Q4_0''"
| "debug_tensor_type Q4_1 = ''Q4_1''"
| "debug_tensor_type Q5_0 = ''Q5_0''"
| "debug_tensor_type Q5_1 = ''Q5_1''"
| "debug_tensor_type Q8_0 = ''Q8_0''"
| "debug_tensor_type Q8_1 = ''Q8_1''"
| "debug_tensor_type Q2K = ''Q2K''"
| "debug_tensor_type Q3K = ''Q3K''"
| "debug_tensor_type Q4K = ''Q4K''"
| "debug_tensor_type Q5K = ''Q5K''"
| "debug_tensor_type Q6K = ''Q6K''"
| "debug_tensor_type Q8K = ''Q8K''"
| "debug_tensor_type IQ4NL = ''IQ4NL''"
| "debug_tensor_type IQ4XS = ''IQ4XS''"
| "debug_tensor_type Tq1_0 = ''Tq1_0''"
| "debug_tensor_type Tq2_0 = ''Tq2_0''"
| "debug_tensor_type TI8 = ''I8''"
| "debug_tensor_type TI16 = ''I16''"
| "debug_tensor_type TI32 = ''I32''"
| "debug_tensor_type TI64 = ''I64''"
| "debug_tensor_type TF64 = ''F64''"
| "debug_tensor_type BF16 = ''BF16''"
| "debug_tensor_type NVFP4 = ''NVFP4''"
| "debug_tensor_type (UnknownType i) = ''Unknown('' @ show_int i @ '')''"

end
