(* ===== verification/GgufLaws.thy ===== *)
theory GgufLaws
  imports Gguf
begin

unbundle bit_operations_syntax

text \<open>
  The laws of the model container: what the reader accepts is in bounds, aligned and
  free of overlap, and what a writer of the format produces is read back.
\<close>

section \<open>Alignment\<close>

lemma unat_64_less: "unat (w :: 64 word) < 2 ^ 64"
proof -
  have "unat w < 2 ^ LENGTH(64)" by (rule unsigned_less)
  then show ?thesis by simp
qed

lemma unat_take: "take_bit 64 (unat (w :: 64 word)) = unat w"
  by (rule take_bit_nat_eq_self [OF unat_64_less])

lemma unat_clear_low_bits:
  "unat ((w :: 64 word) AND NOT (mask k)) = unat w div 2 ^ k * 2 ^ k"
proof -
  have "w AND NOT (mask k) = push_bit k (drop_bit k w)"
    by (rule bit_eqI) (auto simp: bit_simps)
  moreover have "unat (push_bit k (drop_bit k w)) = take_bit 64 (push_bit k (drop_bit k (unat w)))"
    by (simp add: unsigned_push_bit_eq unsigned_drop_bit_eq unat_take)
  moreover have "push_bit k (drop_bit k (unat w)) \<le> unat w"
    by (simp add: push_bit_eq_mult drop_bit_eq_div)
  then have "push_bit k (drop_bit k (unat w)) < 2 ^ 64"
    using unat_64_less [of w] by simp
  then have "take_bit 64 (push_bit k (drop_bit k (unat w))) = push_bit k (drop_bit k (unat w))"
    by (rule take_bit_nat_eq_self)
  ultimately show ?thesis by (simp add: push_bit_eq_mult drop_bit_eq_div)
qed

lemma is_pow2_cases: "is_pow2 a \<longleftrightarrow> (\<exists>k < 64. a = 2 ^ k)"
  by (auto simp: is_pow2_def)

lemma align_to_Inr_iff:
  assumes "is_pow2 a"
  shows "align_to v a = Inr r \<longleftrightarrow> v + (a - 1) \<le> u64_max \<and> r = (v + (a - 1)) div a * a"
proof -
  from assms obtain k where k: "k < 64" "a = 2 ^ k" by (auto simp: is_pow2_cases)
  have "word_of_nat (a - 1) = (mask k :: 64 word)"
    by (simp add: k mask_eq_exp_minus_1 of_nat_diff)
  then have "unat (word_of_nat n AND NOT (word_of_nat (a - 1)) :: 64 word) = n div a * a" if "n \<le> u64_max" for n
    using that by (simp add: unat_clear_low_bits k(2) unat_of_nat u64_max_def take_bit_nat_eq_self)
  then show ?thesis
    by (auto simp: align_to_def Let_def checked_add_u64_def ok_or_Inr_iff simp del: of_nat_add)
qed

lemma align_to_bounds:
  assumes "is_pow2 a" "align_to v a = Inr r"
  shows "v \<le> r" "a dvd r" "r < v + a"
proof -
  have a: "0 < a" using assms(1) by (auto simp: is_pow2_cases)
  have r: "r = (v + (a - 1)) div a * a" using assms by (simp add: align_to_Inr_iff)
  show "a dvd r" by (simp add: r)
  have "(v + (a - 1)) div a * a + (v + (a - 1)) mod a = v + (a - 1)" by (rule div_mult_mod_eq)
  moreover have "(v + (a - 1)) mod a < a" using a by simp
  ultimately show "v \<le> r" "r < v + a" unfolding r using a by linarith+
qed

section \<open>What the reader accepts\<close>

definition elements :: "nat list \<Rightarrow> nat" where
  "elements dimensions = prod_list dimensions"

lemma overflow_fold:
  "foldl (\<lambda>elements dim. and_then elements (\<lambda>n. ok_or e (checked_mul_u64 n dim))) r dimensions = Inr m \<Longrightarrow>
     \<exists>n. r = Inr n \<and> m = n * prod_list dimensions"
proof (induction dimensions arbitrary: r)
  case (Cons d dimensions)
  then obtain n where "and_then r (\<lambda>n. ok_or e (checked_mul_u64 n d)) = Inr n" "m = n * prod_list dimensions"
    by auto
  then show ?case by (auto simp: and_then_Inr_iff ok_or_Inr_iff checked_mul_u64_def split: if_splits)
qed simp

text \<open>The size a tensor of this type and shape has.\<close>

definition sized :: "nat list \<Rightarrow> TensorType \<Rightarrow> nat \<Rightarrow> bool" where
  "sized dimensions tensor_type n_bytes \<longleftrightarrow> (\<exists>block_size type_size. layout tensor_type = Some (block_size, type_size)
     \<and> block_size dvd (case dimensions of [] \<Rightarrow> 1 | d # _ \<Rightarrow> d)
     \<and> n_bytes * block_size = elements dimensions * type_size)"

lemma block_dvd_elements:
  "b dvd (case dimensions of [] \<Rightarrow> 1 | d # _ \<Rightarrow> d) \<Longrightarrow> b dvd prod_list (dimensions :: nat list)"
  by (cases dimensions) auto

lemma tensor_nbytes_sized: "tensor_nbytes name dimensions ty = Inr n \<Longrightarrow> sized dimensions ty n"
proof -
  assume "tensor_nbytes name dimensions ty = Inr n"
  then obtain b s m where b: "layout ty = Some (b, s)" "b dvd (case dimensions of [] \<Rightarrow> 1 | d # _ \<Rightarrow> d)"
    and count: "element_count name dimensions = Inr m" and m': "checked_mul_u64 (m div b) s = Some n"
    by (auto simp: tensor_nbytes_def Let_def and_then_Inr_iff ok_or_Inr_iff split: if_splits)
  have m: "m = prod_list dimensions" "n = m div b * s"
    using overflow_fold [OF count [unfolded element_count_def]] m' by (auto simp: checked_mul_u64_def split: if_splits)
  have "m div b * b = m" using block_dvd_elements [OF b(2)] m(1) by simp
  then have "n * b = m * s" using m(2) by (metis mult.assoc mult.commute)
  with b m show ?thesis by (auto simp: sized_def elements_def)
qed

text \<open>The spans of the tensors, in order.\<close>

definition in_span :: "nat \<Rightarrow> nat \<Rightarrow> nat \<Rightarrow> TensorDescriptor \<Rightarrow> bool" where
  "in_span data_start declared_len alignment t \<longleftrightarrow>
     td_absolute_offset t = data_start + td_relative_offset t \<and> alignment dvd td_relative_offset t
   \<and> td_absolute_offset t + td_n_bytes t \<le> declared_len \<and> sized (td_dimensions t) (td_type t) (td_n_bytes t)"

lemma place_tensors_spec:
  assumes "place_tensors data_start len a seen expected raw = Inr ts" "is_pow2 a" "a dvd expected"
  shows "list_all (in_span data_start len a) ts
       \<and> sorted_wrt (\<lambda>t t'. td_absolute_offset t + td_n_bytes t \<le> td_absolute_offset t') ts
       \<and> distinct (map td_name ts) \<and> set (map td_name ts) \<inter> set seen = {}
       \<and> (\<forall>t \<in> set ts. expected \<le> td_relative_offset t)
       \<and> map (\<lambda>t. (td_name t, td_dimensions t, td_type t, td_relative_offset t)) ts = raw"
  using assms
proof (induction raw arbitrary: seen expected ts)
  case (Cons r raw)
  obtain name dimensions ty rel where r: "r = (name, dimensions, ty, rel)" by (cases r)
  from Cons.prems obtain n e' ts' where new: "name \<notin> set seen" "rel = expected"
    and n: "tensor_nbytes name dimensions ty = Inr n" and fits: "data_start + rel + n \<le> len"
    and e': "align_to (rel + n) a = Inr e'"
    and ts': "place_tensors data_start len a (name # seen) e' raw = Inr ts'"
    and ts: "ts = \<lparr>td_name = name, td_dimensions = dimensions, td_type = ty, td_relative_offset = rel,
                td_absolute_offset = data_start + rel, td_n_bytes = n\<rparr> # ts'"
    by (auto simp: r and_then_Inr_iff ok_or_Inr_iff checked_add_u64_def split: if_splits)
  note e'_bounds = align_to_bounds [OF Cons.prems(2) e']
  note ih = Cons.IH [OF ts' Cons.prems(2) e'_bounds(2)]
  have abs: "td_absolute_offset t = data_start + td_relative_offset t" if "t \<in> set ts'" for t
    using ih that by (simp add: list_all_iff in_span_def)
  have after: "data_start + rel + n \<le> td_absolute_offset t" if "t \<in> set ts'" for t
    using ih abs [OF that] that e'_bounds(1) by fastforce
  have later: "expected \<le> td_relative_offset t" if "t \<in> set ts'" for t
    using ih that e'_bounds(1) new(2) by fastforce
  show ?case
    using ih new fits tensor_nbytes_sized [OF n] Cons.prems(3) after later
    by (auto simp: ts in_span_def r)
qed simp

text \<open>A descriptor's shape as the reader checks it.\<close>

definition shaped :: "TensorDescriptor \<Rightarrow> bool" where
  "shaped t \<longleftrightarrow> length (td_name t) < MAX_TENSOR_NAME \<and> is_utf8 (td_name t) \<and> td_dimensions t \<noteq> []
     \<and> length (td_dimensions t) \<le> MAX_TENSOR_DIMS \<and> list_all (\<lambda>d. d < 2 ^ 63) (td_dimensions t)"

lemma read_many_length: "read_many read n c = Inr (xs, c') \<Longrightarrow> length xs = n"
  by (induction n arbitrary: c xs c') (auto simp: and_then_Inr_iff)

lemma read_many_all:
  assumes "\<And>c x c'. read c = Inr (x, c') \<Longrightarrow> P x"
  shows "read_many read n c = Inr (xs, c') \<Longrightarrow> list_all P xs"
proof (induction n arbitrary: c xs c')
  case (Suc n)
  then show ?case using assms by (fastforce simp: and_then_Inr_iff)
qed simp

lemma sint_64_less: "sint (w :: 64 word) < 2 ^ 63"
  using sint_lt [of w] by simp

lemma read_dimension_bound: "read_dimension name c = Inr (d, c') \<Longrightarrow> d < 2 ^ 63"
  using sint_64_less by (auto simp: read_dimension_def read_i64_def and_then_Inr_iff nat_less_iff split: if_splits)

lemma read_string_utf8: "read_string c = Inr (s, c') \<Longrightarrow> is_utf8 s"
  by (auto simp: read_string_def and_then_Inr_iff split: if_splits)

lemma read_raw_tensor_shape:
  assumes "read_raw_tensor c = Inr ((name, dimensions, ty, rel), c')"
  shows "length name < MAX_TENSOR_NAME \<and> is_utf8 name \<and> dimensions \<noteq> [] \<and> length dimensions \<le> MAX_TENSOR_DIMS
       \<and> list_all (\<lambda>d. d < 2 ^ 63) dimensions"
proof -
  from assms obtain c1 n c2 c3 where name: "read_string c = Inr (name, c1)" "length name < MAX_TENSOR_NAME"
    and n: "n \<noteq> (0 :: 32 word)" "unat n \<le> MAX_TENSOR_DIMS"
    and dims: "read_many (read_dimension name) (unat n) c2 = Inr (dimensions, c3)"
    by (auto simp: read_raw_tensor_def and_then_Inr_iff split: if_splits)
  have "length dimensions = unat n" using dims by (rule read_many_length)
  moreover have "unat n \<noteq> 0" using n(1) by (simp add: unat_eq_0)
  moreover have "list_all (\<lambda>d. d < 2 ^ 63) dimensions" by (rule read_many_all [OF read_dimension_bound dims])
  ultimately show ?thesis using name n read_string_utf8 by auto
qed

text \<open>Property C13: a model file that the reader accepts declares only byte ranges that exist: every tensor has a legal
  name and one to four dimensions, is of a known type, starts at a multiple of the alignment, has exactly the bytes its
  type and shape need, ends within the declared length, and ends before the next one begins; no two tensors share a
  name, and there are as many as the header says.\<close>

theorem accepted_tensors_tile_the_file:
  assumes "read_metadata_with_len path file len = Inr f"
  shows "is_pow2 (gguf_alignment f) \<and> gguf_alignment f dvd gguf_data_start f \<and> gguf_data_start f \<le> len
       \<and> int (length (gguf_tensors f)) = gguf_tensor_count f \<and> distinct (map td_name (gguf_tensors f))
       \<and> list_all (in_span (gguf_data_start f) len (gguf_alignment f)) (gguf_tensors f)
       \<and> list_all shaped (gguf_tensors f)
       \<and> sorted_wrt (\<lambda>t t'. td_absolute_offset t + td_n_bytes t \<le> td_absolute_offset t') (gguf_tensors f)"
proof -
  from assms obtain c c' a raw ts v tc mc md start where
        a: "alignment_of md = Inr a" and raw: "read_many read_raw_tensor (nat tc) c = Inr (raw, c')" and tc: "0 \<le> tc"
    and start: "align_to (cur_pos c') a = Inr start" "start \<le> len"
    and ts: "place_tensors start len a [] 0 raw = Inr ts"
    and f: "f = \<lparr>gguf_path = path, gguf_version = v, gguf_tensor_count = tc, gguf_metadata_count = mc,
          gguf_alignment = a, gguf_data_start = start, gguf_metadata = md, gguf_tensors = ts\<rparr>"
    by (clarsimp simp: read_metadata_with_len_def Let_def and_then_Inr_iff split: if_splits)
  have pow2: "is_pow2 a" using a by (auto simp: alignment_of_def and_then_Inr_iff split: if_splits)
  note placed = place_tensors_spec [OF ts pow2]
  let ?raw = "\<lambda>t. (td_name t, td_dimensions t, td_type t, td_relative_offset t)"
  have map: "map ?raw ts = raw" using placed by simp
  have "length (map ?raw ts) = nat tc" unfolding map by (rule read_many_length [OF raw])
  then have "length ts = nat tc" by simp
  moreover have "list_all shaped ts"
    unfolding list_all_iff
  proof
    fix t assume "t \<in> set ts"
    then have "?raw t \<in> set raw" unfolding map [symmetric] by simp
    moreover have "list_all (\<lambda>r. case r of (name, dimensions, _) \<Rightarrow> length name < MAX_TENSOR_NAME \<and> is_utf8 name
        \<and> dimensions \<noteq> [] \<and> length dimensions \<le> MAX_TENSOR_DIMS \<and> list_all (\<lambda>d. d < 2 ^ 63) dimensions) raw"
      by (rule read_many_all [OF _ raw]) (auto dest: read_raw_tensor_shape)
    ultimately show "shaped t" by (auto simp: list_all_iff shaped_def)
  qed
  ultimately show ?thesis using pow2 align_to_bounds(2) [OF pow2 start(1)] start(2) placed tc by (simp add: f)
qed

section \<open>A writer of the format\<close>

definition le_bytes :: "nat \<Rightarrow> nat \<Rightarrow> string" where
  "le_bytes n v = map (\<lambda>i. char_of (v div 256 ^ i)) [0 ..< n]"

definition written_string :: "string \<Rightarrow> string" where
  "written_string s = le_bytes 8 (length s) @ s"

fun value_type :: "MetadataValue \<Rightarrow> nat" where
  "value_type (U8 _) = 0" | "value_type (I8 _) = 1" | "value_type (U16 _) = 2" | "value_type (I16 _) = 3"
| "value_type (U32 _) = 4" | "value_type (I32 _) = 5" | "value_type (F32 _) = 6" | "value_type (Bool _) = 7"
| "value_type (String _) = 8" | "value_type (Array _) = 9" | "value_type (U64 _) = 10" | "value_type (I64 _) = 11"
| "value_type (F64 _) = 12"

fun written_scalar :: "MetadataValue \<Rightarrow> string" where
  "written_scalar (U8 v) = le_bytes 1 (unat v)" | "written_scalar (I8 v) = le_bytes 1 (unat v)"
| "written_scalar (U16 v) = le_bytes 2 (unat v)" | "written_scalar (I16 v) = le_bytes 2 (unat v)"
| "written_scalar (U32 v) = le_bytes 4 (unat v)" | "written_scalar (I32 v) = le_bytes 4 (unat v)"
| "written_scalar (F32 v) = le_bytes 4 (unat v)" | "written_scalar (Bool b) = le_bytes 1 (if b then 1 else 0)"
| "written_scalar (String s) = written_string s" | "written_scalar (Array _) = []"
| "written_scalar (U64 v) = le_bytes 8 (unat v)" | "written_scalar (I64 v) = le_bytes 8 (unat v)"
| "written_scalar (F64 v) = le_bytes 8 (unat v)"

fun element_type :: "MetadataValue list \<Rightarrow> nat" where
  "element_type [] = 0"
| "element_type (v # _) = value_type v"

fun written_payload :: "MetadataValue \<Rightarrow> string" where
  "written_payload (Array values) = le_bytes 4 (element_type values) @ le_bytes 8 (length values) @ concat (map written_scalar values)"
| "written_payload v = written_scalar v"

definition written_value :: "MetadataValue \<Rightarrow> string" where
  "written_value v = le_bytes 4 (value_type v) @ written_payload v"

text \<open>Strings are valid and not too long; an array is of one type that is not the array.\<close>

fun scalar_ok :: "MetadataValue \<Rightarrow> bool" where
  "scalar_ok (String s) \<longleftrightarrow> is_utf8 s \<and> length s \<le> MAX_STRING_BYTES"
| "scalar_ok (Array _) \<longleftrightarrow> False"
| "scalar_ok _ \<longleftrightarrow> True"

fun value_ok :: "MetadataValue \<Rightarrow> bool" where
  "value_ok (Array values) \<longleftrightarrow> length values \<le> MAX_ARRAY_LEN
     \<and> list_all (\<lambda>v. scalar_ok v \<and> value_type v = element_type values) values"
| "value_ok v \<longleftrightarrow> scalar_ok v"

section \<open>Reading what was written\<close>

definition reads :: "(cursor \<Rightarrow> ('a \<times> cursor) engine_result) \<Rightarrow> string \<Rightarrow> 'a \<Rightarrow> bool" where
  "reads read bytes x \<longleftrightarrow> (\<forall>c rest. cur_rest c = bytes @ rest \<and> cur_pos c + length bytes \<le> u64_max \<longrightarrow>
     read c = Inr (x, c\<lparr>cur_rest := rest, cur_pos := cur_pos c + length bytes\<rparr>))"

lemma reads_bind:
  assumes "reads f bytes x" "reads (g x) bytes' y"
  shows "reads (\<lambda>c. and_then (f c) (\<lambda>(x, c). g x c)) (bytes @ bytes') y"
  using assms by (simp add: reads_def)

lemma reads_bind':
  assumes "reads f bytes x" "reads (g x) bytes' y" "read = (\<lambda>c. and_then (f c) (\<lambda>(x, c). g x c))"
  shows "reads read (bytes @ bytes') y"
  unfolding assms(3) using assms(1,2) by (rule reads_bind)

lemma reads_return: "reads (\<lambda>c. Inr (x, c)) [] x"
  by (simp add: reads_def)

lemma reads_map: "reads f bytes x \<Longrightarrow> reads (\<lambda>c. and_then (f c) (\<lambda>(x, c). Inr (h x, c))) bytes (h x)"
  by (simp add: reads_def)

lemma reads_bytes: "length bytes = n \<Longrightarrow> reads (read_bytes n) bytes bytes"
  by (auto simp: reads_def read_bytes_def checked_add_u64_def)

lemma length_le_bytes [simp]: "length (le_bytes n v) = n"
  by (simp add: le_bytes_def)

lemma le_bytes_Suc: "le_bytes (Suc n) v = char_of v # le_bytes n (v div 256)"
  by (simp add: le_bytes_def upt_conv_Cons map_Suc_upt [symmetric] comp_def div_mult2_eq del: upt_Suc)

lemma le_nat_le_bytes: "le_nat (le_bytes n v) = v mod 256 ^ n"
proof (induction n arbitrary: v)
  case (Suc n)
  have "char_code (char_of v) = v mod 256" by (simp add: char_code_def)
  with Suc have "le_nat (le_bytes (Suc n) v) = v mod 256 + 256 * (v div 256 mod 256 ^ n)"
    by (simp add: le_bytes_Suc le_nat_def)
  then show ?case by (simp add: mod_mult2_eq)
qed (simp add: le_bytes_def le_nat_def)

lemma reads_le: "v < 256 ^ n \<Longrightarrow> reads (read_le n) (le_bytes n v) v"
  using reads_map [OF reads_bytes [of "le_bytes n v" n], of le_nat]
  by (simp add: read_le_def [abs_def] le_nat_le_bytes)

lemma reads_word:
  assumes "2 ^ LENGTH('w::len) = (256 :: nat) ^ n"
  shows "reads (read_word n) (le_bytes n (unat (w :: 'w word))) w"
proof -
  have "unat w < 256 ^ n" using assms unsigned_less [of w] by (metis (mono_tags))
  from reads_map [OF reads_le [OF this], of "word_of_nat :: nat \<Rightarrow> 'w word"] show ?thesis by (simp add: read_word_def [abs_def])
qed

lemma reads_u8: "reads read_u8 (le_bytes 1 (unat w)) w" unfolding read_u8_def by (rule reads_word) simp
lemma reads_u16: "reads read_u16 (le_bytes 2 (unat w)) w" unfolding read_u16_def by (rule reads_word) simp
lemma reads_u32: "reads read_u32 (le_bytes 4 (unat w)) w" unfolding read_u32_def by (rule reads_word) simp
lemma reads_u64: "reads read_u64 (le_bytes 8 (unat w)) w" unfolding read_u64_def by (rule reads_word) simp

lemma reads_u64_nat: "n \<le> u64_max \<Longrightarrow> reads read_u64 (le_bytes 8 n) (word_of_nat n)"
  using reads_u64 [of "word_of_nat n"] by (simp add: unat_of_nat u64_max_def take_bit_nat_eq_self)

lemma sint_small:
  assumes "n < 2 ^ (LENGTH('w::len) - 1)"
  shows "sint (word_of_nat n :: 'w word) = int n"
proof -
  have "int n < int (2 ^ (LENGTH('w) - 1))" using assms by (simp only: of_nat_less_iff)
  then have upper: "int n < 2 ^ (LENGTH('w) - Suc 0)" by simp
  have "- (2 ^ (LENGTH('w) - Suc 0)) \<le> (0 :: int)" by simp
  then have lower: "- (2 ^ (LENGTH('w) - Suc 0)) \<le> int n" by (rule order_trans) simp
  show ?thesis by (simp add: signed_of_nat signed_take_bit_int_eq_self [OF lower upper])
qed

lemma reads_i32_nat:
  assumes "n < 2 ^ 31"
  shows "reads read_i32 (le_bytes 4 n) (int n)"
proof -
  have "reads read_u32 (le_bytes 4 n) (word_of_nat n)"
    using reads_u32 [of "word_of_nat n"] assms by (simp add: unat_of_nat take_bit_nat_eq_self)
  from reads_map [OF this, of sint] sint_small [where 'w = 32, of n] assms show ?thesis
    by (simp add: read_i32_def [abs_def])
qed

lemma reads_i64_nat:
  assumes "n < 2 ^ 63"
  shows "reads read_i64 (le_bytes 8 n) (int n)"
proof -
  have "reads read_u64 (le_bytes 8 n) (word_of_nat n)"
    using assms by (intro reads_u64_nat) (simp add: u64_max_def)
  from reads_map [OF this, of sint] sint_small [where 'w = 64, of n] assms show ?thesis
    by (simp add: read_i64_def [abs_def])
qed

lemma reads_bool: "reads read_bool (le_bytes 1 (if b then 1 else 0)) b"
  using reads_map [OF reads_u8 [of "if b then 1 else 0"], of "\<lambda>w. w \<noteq> 0"]
  by (cases b) (simp_all add: read_bool_def [abs_def])

lemma reads_string:
  assumes "is_utf8 s" "length s \<le> MAX_STRING_BYTES"
  shows "reads read_string (written_string s) s"
proof -
  have len: "unat (word_of_nat (length s) :: 64 word) = length s"
    using assms(2) by (simp add: unat_of_nat take_bit_nat_eq_self MAX_STRING_BYTES_def)
  have "reads read_u64 (le_bytes 8 (length s)) (word_of_nat (length s))"
    using assms(2) by (intro reads_u64_nat) (simp add: MAX_STRING_BYTES_def u64_max_def)
  moreover have "reads (\<lambda>c. if unat (word_of_nat (length s) :: 64 word) > MAX_STRING_BYTES then Inl e
      else and_then (read_bytes (unat (word_of_nat (length s) :: 64 word)) c) (\<lambda>(bytes, c).
        if is_utf8 bytes then Inr (bytes, c) else Inl e')) s s" for e e'
    using assms reads_bytes [of s "length s"] by (simp add: len reads_def)
  ultimately show ?thesis
    unfolding read_string_def [abs_def] written_string_def by (rule reads_bind)
qed

lemma reads_scalar: "scalar_ok v \<Longrightarrow> reads (\<lambda>c. read_scalar c (int (value_type v))) (written_scalar v) v"
  by (cases v) (simp_all only: value_type.simps written_scalar.simps read_scalar_def, simp_all add: reads_map [OF reads_u8]
      reads_map [OF reads_u16] reads_map [OF reads_u32] reads_map [OF reads_u64] reads_map [OF reads_bool] reads_map [OF reads_string]
      del: One_nat_def if_split)

lemma reads_many:
  assumes "list_all2 (reads read) enc xs"
  shows "reads (read_many read (length xs)) (concat enc) xs"
  using assms
proof (induction rule: list_all2_induct)
  case Nil
  then show ?case using reads_return by (simp add: reads_def)
next
  case (Cons b bs x xs)
  have "reads (\<lambda>c. and_then (read_many read (length xs) c) (\<lambda>(xs, c). Inr (x # xs, c))) (concat bs) (x # xs)"
    using Cons by (intro reads_map)
  with Cons(1) show ?case
    by (simp add: reads_bind [where f = read and g = "\<lambda>x c. and_then (read_many read (length xs) c) (\<lambda>(xs, c). Inr (x # xs, c))"])
qed

lemma scalar_type: "scalar_ok v \<Longrightarrow> value_type v \<noteq> 9 \<and> value_type v < 13"
  by (cases v) simp_all

lemma reads_array:
  assumes all: "list_all (\<lambda>v. scalar_ok v \<and> value_type v = element_type xs) xs" and len: "length xs \<le> MAX_ARRAY_LEN"
  shows "reads (\<lambda>c. read_value_of_type c 9) (written_payload (Array xs)) (Array xs)"
proof -
  let ?ty = "element_type xs"
  have ty: "?ty \<noteq> 9 \<and> ?ty < 13" using all scalar_type by (cases xs) auto
  have elements: "reads (read_many (\<lambda>c. read_scalar c (int ?ty)) (length xs)) (concat (map written_scalar xs)) xs"
  proof (rule reads_many)
    show "list_all2 (reads (\<lambda>c. read_scalar c (int ?ty))) (map written_scalar xs) xs"
      using all reads_scalar by (auto simp: list_all2_conv_all_nth list_all_length) (metis nth_mem reads_scalar)
  qed
  have n: "unat (word_of_nat (length xs) :: 64 word) = length xs"
    using len by (simp add: unat_of_nat take_bit_nat_eq_self MAX_ARRAY_LEN_def)
  have "reads read_u64 (le_bytes 8 (length xs)) (word_of_nat (length xs))"
    using len by (intro reads_u64_nat) (simp add: MAX_ARRAY_LEN_def u64_max_def)
  then have "reads (\<lambda>c. and_then (read_u64 c) (\<lambda>(len, c).
        if unat len > MAX_ARRAY_LEN then Inl (InvalidGguf (''metadata array too large: '' @ show_nat (unat len)))
        else and_then (read_many (\<lambda>c. read_scalar c (int ?ty)) (unat len) c) (\<lambda>(xs, c). Inr (Array xs, c))))
      (le_bytes 8 (length xs) @ concat (map written_scalar xs)) (Array xs)"
    by (rule reads_bind) (use len reads_map [OF elements, of Array] in \<open>simp add: n\<close>)
  then have "reads (\<lambda>c. and_then (read_i32 c) (\<lambda>(element_ty, c).
      if element_ty = 9 then Inl (UnsupportedGguf ''nested metadata arrays'')
      else and_then (read_u64 c) (\<lambda>(len, c).
        if unat len > MAX_ARRAY_LEN then Inl (InvalidGguf (''metadata array too large: '' @ show_nat (unat len)))
        else and_then (read_many (\<lambda>c. read_scalar c element_ty) (unat len) c) (\<lambda>(xs, c). Inr (Array xs, c)))))
      (le_bytes 4 ?ty @ le_bytes 8 (length xs) @ concat (map written_scalar xs)) (Array xs)"
    by (intro reads_bind [OF reads_i32_nat]) (use ty in auto)
  then show ?thesis by (simp add: read_value_of_type_def)
qed

lemma reads_value:
  assumes "value_ok v"
  shows "reads read_value (written_value v) v"
proof -
  have ty: "reads read_i32 (le_bytes 4 (value_type v)) (int (value_type v))"
    by (rule reads_i32_nat) (cases v; simp)
  have "reads (\<lambda>c. read_value_of_type c (int (value_type v))) (written_payload v) v"
  proof (cases "scalar_ok v")
    case True
    then have "written_payload v = written_scalar v" by (cases v) simp_all
    then show ?thesis using reads_scalar [OF True] scalar_type [OF True] by (simp add: read_value_of_type_def)
  next
    case False
    then obtain xs where v: "v = Array xs" using assms by (cases v) auto
    with assms reads_array [of xs] show ?thesis by simp
  qed
  with ty show ?thesis unfolding read_value_def [abs_def] written_value_def by (rule reads_bind)
qed

section \<open>A whole file\<close>

text \<open>The wire id of a type (zero for a type that has none).\<close>

fun type_id :: "TensorType \<Rightarrow> nat" where
  "type_id TF32 = 0" | "type_id TF16 = 1" | "type_id Q4_0 = 2" | "type_id Q4_1 = 3" | "type_id Q5_0 = 6" | "type_id Q5_1 = 7"
| "type_id Q8_0 = 8" | "type_id Q8_1 = 9" | "type_id Q2K = 10" | "type_id Q3K = 11" | "type_id Q4K = 12" | "type_id Q5K = 13"
| "type_id Q6K = 14" | "type_id Q8K = 15" | "type_id IQ4NL = 20" | "type_id IQ4XS = 23" | "type_id Tq1_0 = 34" | "type_id Tq2_0 = 35"
| "type_id TI8 = 24" | "type_id TI16 = 25" | "type_id TI32 = 26" | "type_id TI64 = 27" | "type_id TF64 = 28" | "type_id BF16 = 30"
| "type_id NVFP4 = 40" | "type_id (UnknownType _) = 0"

definition written_tensor :: "raw_tensor \<Rightarrow> string" where
  "written_tensor r = (case r of (name, dimensions, ty, rel) \<Rightarrow>
     written_string name @ le_bytes 4 (length dimensions) @ concat (map (le_bytes 8) dimensions)
       @ le_bytes 4 (type_id ty) @ le_bytes 8 rel)"

fun tensor_ok :: "raw_tensor \<Rightarrow> bool" where
  "tensor_ok (name, dimensions, ty, rel) \<longleftrightarrow> is_utf8 name \<and> length name < MAX_TENSOR_NAME \<and> dimensions \<noteq> []
     \<and> length dimensions \<le> MAX_TENSOR_DIMS \<and> list_all (\<lambda>d. d < 2 ^ 63) dimensions \<and> layout ty \<noteq> None \<and> rel \<le> u64_max"

lemma from_type_id: "layout ty \<noteq> None \<Longrightarrow> from_id (int (type_id ty)) = ty \<and> type_id ty < 2 ^ 31"
  by (cases ty) (simp_all add: from_id_def)

lemma reads_dimensions:
  assumes "list_all (\<lambda>d. d < 2 ^ 63) dimensions"
  shows "reads (read_many (read_dimension name) (length dimensions)) (concat (map (le_bytes 8) dimensions)) dimensions"
proof (rule reads_many)
  have "reads (read_dimension name) (le_bytes 8 d) d" if "d < 2 ^ 63" for d
  proof -
    have "reads (\<lambda>c. if int d < 0 then Inl e else Inr (nat (int d), c)) [] d" for e by (simp add: reads_def)
    from reads_bind [where g = "\<lambda>dim c. if dim < 0 then Inl (InvalidGguf (''tensor '' @ name @ '' has negative dimension '' @ show_int dim)) else Inr (nat dim, c)",
        OF reads_i64_nat [OF that] this]
    show ?thesis by (simp add: read_dimension_def [abs_def])
  qed
  then show "list_all2 (reads (read_dimension name)) (map (le_bytes 8) dimensions) dimensions"
    using assms by (auto simp: list_all2_conv_all_nth list_all_length)
qed

lemma reads_tensor:
  assumes "tensor_ok r"
  shows "reads read_raw_tensor (written_tensor r) r"
proof -
  obtain name dims ty rel where r: "r = (name, dims, ty, rel)" by (cases r)
  have name: "reads read_string (written_string name) name"
    using assms by (intro reads_string) (auto simp: r MAX_TENSOR_NAME_def MAX_STRING_BYTES_def)
  have rel: "reads read_u64 (le_bytes 8 rel) (word_of_nat rel)" and rel': "unat (word_of_nat rel :: 64 word) = rel"
    using assms by (auto simp: r unat_of_nat u64_max_def take_bit_nat_eq_self intro: reads_u64_nat)
  have ty: "reads read_i32 (le_bytes 4 (type_id ty)) (int (type_id ty))" and ty': "from_id (int (type_id ty)) = ty"
    using assms from_type_id [of ty] by (auto simp: r intro: reads_i32_nat)
  have n: "reads read_u32 (le_bytes 4 (length dims)) (word_of_nat (length dims))"
    and n': "unat (word_of_nat (length dims) :: 32 word) = length dims" "word_of_nat (length dims) \<noteq> (0 :: 32 word)"
    using assms reads_u32 [of "word_of_nat (length dims)"]
    by (auto simp: r unat_of_nat take_bit_nat_eq_self MAX_TENSOR_DIMS_def unat_eq_0 [symmetric])
  have "reads (\<lambda>c. and_then (read_u64 c) (\<lambda>(relative_offset, c). Inr ((name, dims, from_id (int (type_id ty)), unat relative_offset), c)))
      (le_bytes 8 rel) r"
    using reads_map [OF rel, of "\<lambda>relative_offset. (name, dims, from_id (int (type_id ty)), unat relative_offset)"]
    by (simp add: r rel' ty')
  with ty have "reads (\<lambda>c. and_then (read_i32 c) (\<lambda>(ty, c). and_then (read_u64 c) (\<lambda>(relative_offset, c).
           Inr ((name, dims, from_id ty, unat relative_offset), c)))) (le_bytes 4 (type_id ty) @ le_bytes 8 rel) r"
    by (rule reads_bind)
  with reads_dimensions have "reads (\<lambda>c. and_then (read_many (read_dimension name) (length dims) c) (\<lambda>(dims, c).
         and_then (read_i32 c) (\<lambda>(ty, c). and_then (read_u64 c) (\<lambda>(relative_offset, c).
           Inr ((name, dims, from_id ty, unat relative_offset), c)))))
      (concat (map (le_bytes 8) dims) @ le_bytes 4 (type_id ty) @ le_bytes 8 rel) r"
    by (rule reads_bind) (use assms r in simp)
  then have "reads (\<lambda>c. and_then (read_u32 c) (\<lambda>(n_dimensions, c).
       if n_dimensions = 0 \<or> unat n_dimensions > MAX_TENSOR_DIMS
       then Inl (InvalidGguf (''tensor '' @ name @ '' has invalid dimension count '' @ show_nat (unat n_dimensions)))
       else and_then (read_many (read_dimension name) (unat n_dimensions) c) (\<lambda>(dimensions, c).
         and_then (read_i32 c) (\<lambda>(ty, c). and_then (read_u64 c) (\<lambda>(relative_offset, c).
           Inr ((name, dimensions, from_id ty, unat relative_offset), c))))))
      (le_bytes 4 (length dims) @ concat (map (le_bytes 8) dims) @ le_bytes 4 (type_id ty) @ le_bytes 8 rel) r"
    by (intro reads_bind [OF n]) (use n' assms in \<open>simp add: r\<close>)
  then have "reads (\<lambda>c. and_then (read_string c) (\<lambda>(name, c). if length name \<ge> MAX_TENSOR_NAME
      then Inl (InvalidGguf (''tensor name '' @ name @ '' exceeds the '' @ show_nat MAX_TENSOR_NAME @ ''-byte limit''))
      else and_then (read_u32 c) (\<lambda>(n_dimensions, c).
       if n_dimensions = 0 \<or> unat n_dimensions > MAX_TENSOR_DIMS
       then Inl (InvalidGguf (''tensor '' @ name @ '' has invalid dimension count '' @ show_nat (unat n_dimensions)))
       else and_then (read_many (read_dimension name) (unat n_dimensions) c) (\<lambda>(dimensions, c).
         and_then (read_i32 c) (\<lambda>(ty, c). and_then (read_u64 c) (\<lambda>(relative_offset, c).
           Inr ((name, dimensions, from_id ty, unat relative_offset), c)))))))
      (written_string name @ le_bytes 4 (length dims) @ concat (map (le_bytes 8) dims) @ le_bytes 4 (type_id ty) @ le_bytes 8 rel) r"
    by (intro reads_bind [OF name]) (use assms in \<open>simp add: r\<close>)
  then show ?thesis by (simp add: read_raw_tensor_def [abs_def] written_tensor_def r)
qed

definition written_entry :: "string \<times> MetadataValue \<Rightarrow> string" where
  "written_entry e = written_string (fst e) @ written_value (snd e)"

lemma written_entry_pair: "written_entry (k, v) = written_string k @ written_value v"
  by (simp add: written_entry_def)

definition entry_ok :: "string \<times> MetadataValue \<Rightarrow> bool" where
  "entry_ok e \<longleftrightarrow> is_utf8 (fst e) \<and> length (fst e) \<le> MAX_STRING_BYTES \<and> value_ok (snd e)"

lemma reads_entries:
  assumes "list_all entry_ok entries" "distinct (map fst entries)" "\<And>k. k \<in> fst ` set entries \<Longrightarrow> m k = None"
  shows "reads (\<lambda>c. read_entries (length entries) c m) (concat (map written_entry entries)) (m ++ map_of entries)"
  using assms
proof (induction entries arbitrary: m)
  case Nil
  then show ?case by (simp add: reads_return)
next
  case (Cons e entries)
  obtain k v where e: "e = (k, v)" by (cases e)
  have fresh: "m k = None" using Cons.prems(3) by (simp add: e)
  have "reads (\<lambda>c. read_entries (length entries) c (m(k \<mapsto> v))) (concat (map written_entry entries)) (m(k \<mapsto> v) ++ map_of entries)"
    using Cons.prems by (intro Cons.IH) (auto simp: e)
  moreover have "m(k \<mapsto> v) ++ map_of entries = m ++ map_of (e # entries)"
  proof -
    have "map_of entries k = None" using Cons.prems(2) by (simp add: e map_of_eq_None_iff)
    then show ?thesis by (auto simp: e map_add_def split: option.splits)
  qed
  ultimately have "reads (\<lambda>c. if m k \<noteq> None then Inl (InvalidGguf (''duplicate metadata key '' @ k))
        else read_entries (length entries) c (m(k \<mapsto> v))) (concat (map written_entry entries)) (m ++ map_of (e # entries))"
    by (simp add: fresh)
  moreover have "reads read_value (written_value v) v" using Cons.prems(1) by (intro reads_value) (simp add: e entry_ok_def)
  ultimately have "reads (\<lambda>c. and_then (read_value c) (\<lambda>(value, c). if m k \<noteq> None then Inl (InvalidGguf (''duplicate metadata key '' @ k))
        else read_entries (length entries) c (m(k \<mapsto> value)))) (written_value v @ concat (map written_entry entries)) (m ++ map_of (e # entries))"
    by (intro reads_bind)
  moreover have "reads read_string (written_string k) k"
    using Cons.prems(1) by (intro reads_string) (simp_all add: e entry_ok_def)
  ultimately have "reads (\<lambda>c. and_then (read_string c) (\<lambda>(key, c). and_then (read_value c) (\<lambda>(value, c).
        if m key \<noteq> None then Inl (InvalidGguf (''duplicate metadata key '' @ key))
        else read_entries (length entries) c (m(key \<mapsto> value)))))
      (written_string k @ written_value v @ concat (map written_entry entries)) (m ++ map_of (e # entries))"
    by (intro reads_bind)
  then show ?case
    by (simp only: e length_Cons read_entries.simps list.map concat.simps written_entry_pair append_assoc)
qed

lemma reads_at: "reads f b x \<Longrightarrow> p + length b \<le> u64_max \<Longrightarrow>
    f \<lparr>cur_rest = b @ r, cur_fault = fault, cur_path = path, cur_pos = p\<rparr>
      = Inr (x, \<lparr>cur_rest = r, cur_fault = fault, cur_path = path, cur_pos = p + length b\<rparr>)"
  by (simp add: reads_def)

text \<open>Where a writer puts the tensors.\<close>

definition round_up :: "nat \<Rightarrow> nat \<Rightarrow> nat" where
  "round_up a v = (v + (a - 1)) div a * a"

definition nbytes :: "nat list \<Rightarrow> TensorType \<Rightarrow> nat" where
  "nbytes dimensions ty = (case layout ty of Some (b, s) \<Rightarrow> elements dimensions div b * s | None \<Rightarrow> 0)"

fun laid_out :: "nat \<Rightarrow> nat \<Rightarrow> (string \<times> nat list \<times> TensorType) list \<Rightarrow> raw_tensor list" where
  "laid_out a offset [] = []"
| "laid_out a offset ((name, dimensions, ty) # ts) = (name, dimensions, ty, offset) # laid_out a (round_up a (offset + nbytes dimensions ty)) ts"

lemma laid_out_length: "length (laid_out a offset ts) = length ts"
  by (induction a offset ts rule: laid_out.induct) simp_all

definition described :: "nat \<Rightarrow> raw_tensor \<Rightarrow> TensorDescriptor" where
  "described start r = (case r of (name, dimensions, ty, rel) \<Rightarrow>
     \<lparr>td_name = name, td_dimensions = dimensions, td_type = ty, td_relative_offset = rel,
      td_absolute_offset = start + rel, td_n_bytes = nbytes dimensions ty\<rparr>)"

definition storable :: "string \<times> nat list \<times> TensorType \<Rightarrow> bool" where
  "storable t = (case t of (name, dimensions, ty) \<Rightarrow> 0 \<notin> set dimensions \<and> elements dimensions \<le> u64_max
     \<and> (\<exists>b s. layout ty = Some (b, s) \<and> b dvd hd dimensions) \<and> dimensions \<noteq> [])"

lemma element_count_ok:
  assumes "0 \<notin> set dimensions" "elements dimensions \<le> u64_max"
  shows "element_count name dimensions = Inr (elements dimensions)"
proof -
  have "foldl (\<lambda>elements dim. and_then elements (\<lambda>n. ok_or e (checked_mul_u64 n dim))) (Inr n) ds = Inr (n * prod_list ds)"
    if "0 \<notin> set ds" "n * prod_list ds \<le> u64_max" for e n and ds :: "nat list"
    using that
  proof (induction ds arbitrary: n)
    case (Cons d ds)
    have "prod_list ds \<noteq> 0" using Cons.prems(1) by (simp add: prod_list_zero_iff)
    then have "n * d \<le> n * d * prod_list ds" by simp
    also have "\<dots> \<le> u64_max" using Cons.prems(2) by (simp add: mult.assoc)
    finally have "n * d \<le> u64_max" .
    with Cons show ?case by (simp add: checked_mul_u64_def mult.assoc)
  qed simp
  from this [of dimensions 1] assms show ?thesis by (simp add: element_count_def elements_def)
qed

lemma tensor_nbytes_ok:
  assumes "storable (name, dimensions, ty)" "nbytes dimensions ty \<le> u64_max"
  shows "tensor_nbytes name dimensions ty = Inr (nbytes dimensions ty)"
proof -
  obtain d ds b s where "dimensions = d # ds" "layout ty = Some (b, s)" "b dvd d"
    using assms(1) by (cases dimensions) (auto simp: storable_def)
  with assms element_count_ok [of dimensions name] show ?thesis
    by (simp add: tensor_nbytes_def storable_def nbytes_def checked_mul_u64_def)
qed

lemma place_laid_out:
  assumes "is_pow2 a" "len + a \<le> u64_max" "list_all storable ts" "distinct (map fst ts)" "set (map fst ts) \<inter> set seen = {}"
    and "list_all (\<lambda>t. td_absolute_offset t + td_n_bytes t \<le> len) (map (described start) (laid_out a offset ts))"
  shows "place_tensors start len a seen offset (laid_out a offset ts) = Inr (map (described start) (laid_out a offset ts))"
  using assms
proof (induction ts arbitrary: seen offset)
  case (Cons t ts)
  obtain name dims ty where t: "t = (name, dims, ty)" by (cases t)
  let ?n = "nbytes dims ty"
  have fits: "start + offset + ?n \<le> len" using Cons.prems(6) by (simp add: t described_def)
  then have small: "start + offset + ?n + a \<le> u64_max" using Cons.prems(2) by linarith
  have n: "tensor_nbytes name dims ty = Inr ?n"
    using Cons.prems(3) small by (intro tensor_nbytes_ok) (simp_all add: t)
  have next': "align_to (offset + ?n) a = Inr (round_up a (offset + ?n))"
    using Cons.prems(1) small by (simp add: align_to_Inr_iff round_up_def)
  have "place_tensors start len a (name # seen) (round_up a (offset + ?n)) (laid_out a (round_up a (offset + ?n)) ts)
      = Inr (map (described start) (laid_out a (round_up a (offset + ?n)) ts))"
    using Cons.prems by (intro Cons.IH) (auto simp: t)
  then show ?case
    using Cons.prems(5) fits small n next' by (simp add: t checked_add_u64_def described_def)
qed simp

definition written_header :: "nat \<Rightarrow> (string \<times> MetadataValue) list \<Rightarrow> raw_tensor list \<Rightarrow> string" where
  "written_header version entries raw = GGUF_MAGIC @ le_bytes 4 version @ le_bytes 8 (length raw) @ le_bytes 8 (length entries)
     @ concat (map written_entry entries) @ concat (map written_tensor raw)"

lemma read_written:
  assumes "version \<in> {2, 3}"
    and "list_all entry_ok entries" "distinct (map fst entries)" "length entries < 2 ^ 63" "alignment_of (map_of entries) = Inr a"
    and "list_all tensor_ok (laid_out a 0 tensors)" "list_all storable tensors" "distinct (map fst tensors)" "length tensors < 2 ^ 63"
    and "len + a \<le> u64_max" "length (written_header version entries (laid_out a 0 tensors)) + a \<le> u64_max"
    and "start = round_up a (length (written_header version entries (laid_out a 0 tensors)))" "start \<le> len"
    and "list_all (\<lambda>t. td_absolute_offset t + td_n_bytes t \<le> len) (map (described start) (laid_out a 0 tensors))"
  shows "read_metadata_with_len path (Inr (written_header version entries (laid_out a 0 tensors) @ content), fault) len =
      Inr \<lparr>gguf_path = path, gguf_version = word_of_nat version, gguf_tensor_count = int (length tensors),
           gguf_metadata_count = int (length entries), gguf_alignment = a, gguf_data_start = start,
           gguf_metadata = map_of entries, gguf_tensors = map (described start) (laid_out a 0 tensors)\<rparr>"
proof -
  let ?raw = "laid_out a 0 tensors"
  let ?md = "concat (map written_entry entries)" and ?ts = "concat (map written_tensor ?raw)"
  let ?c = "\<lambda>p r. \<lparr>cur_rest = r, cur_fault = fault, cur_path = path, cur_pos = p\<rparr>"
  let ?h = "length (written_header version entries ?raw)"
  have raw: "length ?raw = length tensors" by (rule laid_out_length)
  have h: "?h = 24 + length ?md + length ?ts" by (simp add: written_header_def GGUF_MAGIC_def)
  have room: "24 + length ?md + length ?ts + a \<le> u64_max" using assms(11) by (simp add: h)
  have magic: "read_bytes 4 (?c 0 (GGUF_MAGIC @ r)) = Inr (GGUF_MAGIC, ?c 4 r)" for r
    using reads_at [OF reads_bytes [of GGUF_MAGIC 4], of 0 r] by (simp add: GGUF_MAGIC_def u64_max_def)
  have ver: "read_u32 (?c 4 (le_bytes 4 version @ r)) = Inr (word_of_nat version, ?c 8 r)" for r
    using reads_at [OF reads_u32 [of "word_of_nat version"], of 4 r] assms(1)
    by (auto simp: u64_max_def)
  have tc: "read_i64 (?c 8 (le_bytes 8 (length ?raw) @ r)) = Inr (int (length ?raw), ?c 16 r)" for r
    using reads_at [OF reads_i64_nat [of "length ?raw"], of 8 r] assms(9) by (simp add: raw u64_max_def)
  have mc: "read_i64 (?c 16 (le_bytes 8 (length entries) @ r)) = Inr (int (length entries), ?c 24 r)" for r
    using reads_at [OF reads_i64_nat [of "length entries"], of 16 r] assms(4) by (simp add: u64_max_def)
  have md: "read_entries (length entries) (?c 24 (?md @ r)) Map.empty = Inr (map_of entries, ?c (24 + length ?md) r)" for r
    using reads_at [OF reads_entries [OF assms(2,3), of Map.empty], of 24 r] room by simp
  have "list_all2 (reads read_raw_tensor) (map written_tensor ?raw) ?raw"
    using assms(6) reads_tensor by (auto simp: list_all2_conv_all_nth list_all_length)
  from reads_at [OF reads_many [OF this], of "24 + length ?md" content]
  have ts: "read_many read_raw_tensor (length ?raw) (?c (24 + length ?md) (?ts @ content)) = Inr (?raw, ?c ?h content)"
    using room by (simp add: h add.assoc)
  have pow2: "is_pow2 a" using assms(5) by (auto simp: alignment_of_def and_then_Inr_iff split: if_splits)
  have start: "align_to ?h a = Inr start" using assms(11,12) by (simp add: align_to_Inr_iff [OF pow2] round_up_def)
  have placed: "place_tensors start len a [] 0 ?raw = Inr (map (described start) ?raw)"
    by (rule place_laid_out [OF pow2 assms(10,7,8) _ assms(14)]) simp
  have v: "(2 :: 32 word) \<le> word_of_nat version \<and> word_of_nat version \<le> (3 :: 32 word)" using assms(1) by auto
  have layout: "written_header version entries ?raw @ content =
      GGUF_MAGIC @ le_bytes 4 version @ le_bytes 8 (length ?raw) @ le_bytes 8 (length entries) @ ?md @ ?ts @ content"
    by (simp add: written_header_def)
  show ?thesis
    unfolding read_metadata_with_len_def Let_def fst_conv snd_conv and_then_simps layout [unfolded raw]
    by (simp only: magic and_then_simps prod.case ver tc [unfolded raw] mc md ts [unfolded raw] start placed assms(5) v assms(13) of_nat_less_0_iff
        nat_int simp_thms if_True if_False not_less [symmetric] cursor.select_convs raw)
      (use assms(13) v in \<open>simp add: not_less\<close>)
qed

text \<open>Property C11: the reader gives back what a writer of the format put into a file: for every version the reader
  supports, every list of metadata with distinct keys whose strings and arrays are within the limits, every alignment
  and every list of tensors of known types with distinct names, laid out one after the other, the parsed header is
  exactly the metadata and the descriptors that were written, whatever the tensor data that follows.\<close>

theorem written_model_is_read:
  assumes "version \<in> {2, 3}"
    and "list_all entry_ok entries" "distinct (map fst entries)" "length entries < 2 ^ 63" "alignment_of (map_of entries) = Inr a"
    and "list_all tensor_ok (laid_out a 0 tensors)" "list_all storable tensors" "distinct (map fst tensors)" "length tensors < 2 ^ 63"
    and "len + a \<le> u64_max" "length (written_header version entries (laid_out a 0 tensors)) + a \<le> u64_max"
    and "start = round_up a (length (written_header version entries (laid_out a 0 tensors)))" "start \<le> len"
    and "list_all (\<lambda>t. td_absolute_offset t + td_n_bytes t \<le> len) (map (described start) (laid_out a 0 tensors))"
  shows "read_metadata_with_len path (Inr (written_header version entries (laid_out a 0 tensors) @ content), fault) len =
      Inr \<lparr>gguf_path = path, gguf_version = word_of_nat version, gguf_tensor_count = int (length tensors),
           gguf_metadata_count = int (length entries), gguf_alignment = a, gguf_data_start = start,
           gguf_metadata = map_of entries, gguf_tensors = map (described start) (laid_out a 0 tensors)\<rparr>"
  using assms by (rule read_written)

text \<open>A file of one metadata entry and two tensors.\<close>

definition demo_entries :: "(string \<times> MetadataValue) list" where
  "demo_entries = [(''a'', Array [U16 7, U16 8])]"

definition demo_tensors :: "(string \<times> nat list \<times> TensorType) list" where
  "demo_tensors = [(''w'', [32, 2], Q8_0), (''v'', [3], TF32)]"

lemma demo_alignment: "alignment_of (map_of demo_entries) = Inr 32"
  by (simp add: alignment_of_def demo_entries_def DEFAULT_ALIGNMENT_def is_pow2_def upt_rec)

lemma demo_laid_out: "laid_out 32 0 demo_tensors = [(''w'', [32, 2], Q8_0, 0), (''v'', [3], TF32, 96)]"
  by (simp add: demo_tensors_def nbytes_def elements_def round_up_def)

lemma demo_ok: "list_all entry_ok demo_entries" "list_all tensor_ok (laid_out 32 0 demo_tensors)" "list_all storable demo_tensors"
  by (simp_all add: demo_entries_def entry_ok_def demo_laid_out ascii_is_utf8 MAX_STRING_BYTES_def MAX_ARRAY_LEN_def
      MAX_TENSOR_NAME_def MAX_TENSOR_DIMS_def u64_max_def demo_tensors_def storable_def elements_def char_code_def
      nbytes_def round_up_def)

lemma demo_header: "length (written_header 3 demo_entries [(''w'', [32, 2], Q8_0, 0), (''v'', [3], TF32, 96)]) = 127"
  by (simp add: written_header_def GGUF_MAGIC_def demo_entries_def written_entry_def written_string_def written_value_def written_tensor_def)

lemma demo_file: "read_metadata_with_len ''m.gguf'' (Inr (written_header 3 demo_entries (laid_out 32 0 demo_tensors) @ []), None) 300 =
     Inr \<lparr>gguf_path = ''m.gguf'', gguf_version = word_of_nat 3, gguf_tensor_count = 2,
          gguf_metadata_count = 1, gguf_alignment = 32, gguf_data_start = 128,
          gguf_metadata = map_of demo_entries, gguf_tensors = map (described 128) (laid_out 32 0 demo_tensors)\<rparr>"
  using read_written [of 3 demo_entries 32 demo_tensors 300 128 "''m.gguf''" "[]" None] demo_ok
  by (simp add: demo_alignment demo_laid_out demo_header round_up_def u64_max_def described_def nbytes_def elements_def)
    (simp add: demo_entries_def demo_tensors_def)

theorem accepted_tensors_tile_the_file_witness:
  "list_all (in_span 128 300 32) (map (described 128) (laid_out 32 0 demo_tensors))
     \<and> sorted_wrt (\<lambda>t t'. td_absolute_offset t + td_n_bytes t \<le> td_absolute_offset t') (map (described 128) (laid_out 32 0 demo_tensors))"
  using accepted_tensors_tile_the_file [OF demo_file] by simp

theorem written_model_is_read_witness:
  "read_metadata_with_len ''m.gguf'' (Inr (written_header 3 demo_entries (laid_out 32 0 demo_tensors) @ []), None) 300 =
     Inr \<lparr>gguf_path = ''m.gguf'', gguf_version = word_of_nat 3, gguf_tensor_count = 2,
          gguf_metadata_count = 1, gguf_alignment = 32, gguf_data_start = 128,
          gguf_metadata = map_of demo_entries, gguf_tensors = map (described 128) (laid_out 32 0 demo_tensors)\<rparr>"
  using written_model_is_read [of 3 demo_entries 32 demo_tensors 300 128 "''m.gguf''" "[]" None] demo_ok
  by (simp add: demo_alignment demo_laid_out demo_header round_up_def u64_max_def described_def nbytes_def elements_def)
    (simp add: demo_entries_def demo_tensors_def)

section \<open>Metadata\<close>

text \<open>What the reader promises of metadata: strings are valid, arrays are within the limit.\<close>

fun stored :: "MetadataValue \<Rightarrow> bool" where
  "stored (String s) \<longleftrightarrow> is_utf8 s"
| "stored (Array xs) \<longleftrightarrow> length xs \<le> MAX_ARRAY_LEN \<and> (\<forall>s. String s \<in> set xs \<longrightarrow> is_utf8 s)"
| "stored _ \<longleftrightarrow> True"

lemma read_scalar_stored: "read_scalar c ty = Inr (v, c') \<Longrightarrow> stored v \<and> (\<forall>s. v = String s \<longrightarrow> is_utf8 s)"
  by (auto simp: read_scalar_def and_then_Inr_iff dest: read_string_utf8 split: if_splits)

lemma read_value_stored: "read_value c = Inr (v, c') \<Longrightarrow> stored v"
proof -
  assume "read_value c = Inr (v, c')"
  then obtain ty c1 where "read_value_of_type c1 ty = Inr (v, c')" by (auto simp: read_value_def and_then_Inr_iff)
  moreover have "stored (Array xs)" if len: "unat (n :: 64 word) \<le> MAX_ARRAY_LEN"
    and xs: "read_many (\<lambda>c. read_scalar c ety) (unat n) c2 = Inr (xs, c3)" for n ety c2 xs c3
  proof -
    have "list_all (\<lambda>v. \<forall>s. v = String s \<longrightarrow> is_utf8 s) xs" by (rule read_many_all [OF _ xs]) (use read_scalar_stored in blast)
    then show ?thesis using len read_many_length [OF xs] by (auto simp: list_all_iff)
  qed
  ultimately show ?thesis
    using read_scalar_stored by (auto simp: read_value_of_type_def and_then_Inr_iff not_less split: if_splits)
qed

lemma read_entries_stored: "read_entries n c m = Inr (m', c') \<Longrightarrow> \<forall>v \<in> ran m. stored v \<Longrightarrow> \<forall>v \<in> ran m'. stored v"
proof (induction n arbitrary: c m)
  case (Suc n)
  from Suc.prems(1) obtain key c1 v c2 where v: "read_value c1 = Inr (v, c2)" and fresh: "m key = None"
    and next': "read_entries n c2 (m(key \<mapsto> v)) = Inr (m', c')"
    by (auto simp: and_then_Inr_iff split: if_splits)
  have "\<forall>v \<in> ran (m(key \<mapsto> v)). stored v" using Suc.prems(2) read_value_stored [OF v] fresh by simp
  with Suc.IH [OF next'] show ?case by blast
qed simp

lemma metadata_stored:
  assumes "read_metadata_with_len path f len = Inr g" "gguf_metadata g key = Some v"
  shows "stored v"
proof -
  from assms(1) obtain n c c' where "read_entries n c Map.empty = Inr (gguf_metadata g, c')"
    by (clarsimp simp: read_metadata_with_len_def Let_def and_then_Inr_iff split: if_splits)
  from read_entries_stored [OF this] assms(2) show ?thesis by (auto simp: ran_def)
qed

lemma typed_array_Some:
  assumes "typed_array_optional file key expected extract = Inr (Some ys)"
  shows "\<exists>xs. gguf_metadata file key = Some (Array xs) \<and> map extract xs = map Some ys"
proof -
  let ?e = "InvalidGguf (''metadata '' @ key @ '' must be '' @ expected)"
  from assms obtain xs where xs: "gguf_metadata file key = Some (Array xs)"
    and "collect_results (map (\<lambda>value. ok_or ?e (extract value)) xs) = Inr ys"
    unfolding typed_array_optional_def Let_def
    by (auto simp: and_then_Inr_iff simp del: append.simps append_Cons split: option.splits MetadataValue.splits)
  then have "map (\<lambda>value. ok_or ?e (extract value)) xs = map Inr ys" by (simp only: collect_results_Inr)
  then have "map extract xs = map Some ys"
    by (auto simp: list_eq_iff_nth_eq ok_or_Inr_iff)
  with xs show ?thesis by blast
qed

lemma array_strings_stored:
  assumes "read_metadata_with_len path f len = Inr g" "metadata_array_strings g key = Inr texts"
  shows "length texts \<le> MAX_ARRAY_LEN \<and> list_all is_utf8 texts"
proof -
  from assms(2) have "typed_array_optional g key ''array<string>'' (\<lambda>value. case value of String s \<Rightarrow> Some s | _ \<Rightarrow> None) = Inr (Some texts)"
    by (auto simp: metadata_array_strings_def metadata_array_strings_optional_def and_then_Inr_iff ok_or_Inr_iff)
  from typed_array_Some [OF this] obtain xs where xs: "gguf_metadata g key = Some (Array xs)"
    and m: "map (\<lambda>value. case value of String s \<Rightarrow> Some s | _ \<Rightarrow> None) xs = map Some texts" by blast
  have "length xs = length texts" using m by (rule map_eq_imp_length_eq)
  moreover have "String s \<in> set xs" if "s \<in> set texts" for s
  proof -
    have "Some s \<in> set (map (\<lambda>value. case value of String s \<Rightarrow> Some s | _ \<Rightarrow> None) xs)" using that unfolding m by simp
    then show ?thesis by (auto split: MetadataValue.splits)
  qed
  ultimately show ?thesis using metadata_stored [OF assms(1) xs] by (auto simp: list_all_iff)
qed

end
