(* ===== verification/Bpe.thy ===== *)
theory Bpe
  imports Utf8 "HOL-Library.AList"
begin

text \<open>
  The byte-pair encoder's parts (\<^verbatim>\<open>engine-core/src/tokenizer.rs\<close>, \<^verbatim>\<open>BpeRegistry\<close> and the free
  functions): the merge table and the merge loop, the byte alphabet, the character
  classes and the pre-tokenizer. A string is its UTF-8 bytes; a position in it is
  the text from there on; a scan returns how many bytes it took. A \<^verbatim>\<open>HashMap\<close> is an
  association list with \<^const>\<open>AList.update\<close>. Unicode's alphabetic and numeric properties
  are the standard library's tables, a parameter.
\<close>

section \<open>Characters\<close>

text \<open>The first character: its bytes and its scalar value.\<close>

definition char_width :: "string \<Rightarrow> nat" where
  "char_width s = (case utf8_next s of Scalar w \<Rightarrow> w | _ \<Rightarrow> 1)"

fun scalar_value :: "string \<Rightarrow> nat" where
  "scalar_value [a] = char_code a"
| "scalar_value [a, b] = (char_code a - 0xC0) * 64 + (char_code b - 0x80)"
| "scalar_value [a, b, c] = (char_code a - 0xE0) * 4096 + (char_code b - 0x80) * 64 + (char_code c - 0x80)"
| "scalar_value [a, b, c, d] =
     (char_code a - 0xF0) * 262144 + (char_code b - 0x80) * 4096 + (char_code c - 0x80) * 64 + (char_code d - 0x80)"
| "scalar_value _ = 0"

definition next_char :: "string \<Rightarrow> nat" where
  "next_char s = scalar_value (take (char_width s) s)"

text \<open>\<^verbatim>\<open>char::to_string\<close>: the bytes of a scalar value.\<close>

definition char_string :: "nat \<Rightarrow> string" where
  "char_string cp =
     (if cp < 0x80 then [char_of cp]
      else if cp < 0x800 then [char_of (0xC0 + cp div 64), char_of (0x80 + cp mod 64)]
      else if cp < 0x10000
      then [char_of (0xE0 + cp div 4096), char_of (0x80 + cp div 64 mod 64), char_of (0x80 + cp mod 64)]
      else [char_of (0xF0 + cp div 262144), char_of (0x80 + cp div 4096 mod 64), char_of (0x80 + cp div 64 mod 64),
            char_of (0x80 + cp mod 64)])"

lemma char_width_pos: "0 < char_width s"
  by (auto simp: char_width_def dest: utf8_next_bounds split: utf8_step.splits)

text \<open>\<^verbatim>\<open>str::chars\<close>: the bytes of each character.\<close>

function chars :: "string \<Rightarrow> string list" where
  "chars s = (if s = [] then [] else take (char_width s) s # chars (drop (char_width s) s))"
  by pat_completeness auto
termination by (relation "measure length") (auto simp: char_width_pos)

declare chars.simps [simp del]

section \<open>The merge table\<close>

type_synonym ranks = "((string \<times> string) \<times> nat) list"

definition split_once_space :: "string \<Rightarrow> (string \<times> string) option" where
  "split_once_space s = (case dropWhile (\<lambda>c. c \<noteq> CHR '' '') s of
       [] \<Rightarrow> None | _ # rest \<Rightarrow> Some (takeWhile (\<lambda>c. c \<noteq> CHR '' '') s, rest))"

definition from_merges :: "string list \<Rightarrow> ranks" where
  "from_merges merges = fold (\<lambda>(rank, merge) table. case split_once_space merge of
       None \<Rightarrow> table | Some pair \<Rightarrow> AList.update pair rank table) (zip [0 ..< length merges] merges) []"

definition rank :: "ranks \<Rightarrow> string \<Rightarrow> string \<Rightarrow> nat option" where
  "rank table left right = map_of table (left, right)"

record BpeMergeCandidate =
  cand_rank :: nat
  cand_index :: nat

text \<open>\<^verbatim>\<open>Ord\<close>, reversed on both fields: the greatest has the lowest rank, then the lowest index.\<close>

definition candidate_less :: "BpeMergeCandidate \<Rightarrow> BpeMergeCandidate \<Rightarrow> bool" where
  "candidate_less a b \<longleftrightarrow> cand_rank b < cand_rank a \<or> cand_rank b = cand_rank a \<and> cand_index b < cand_index a"

text \<open>\<^verbatim>\<open>BinaryHeap::pop\<close> on a heap of these entries: the greatest.\<close>

definition heap_pop :: "BpeMergeCandidate list \<Rightarrow> BpeMergeCandidate option" where
  "heap_pop heap = (case heap of [] \<Rightarrow> None
     | c # cs \<Rightarrow> Some (fold (\<lambda>x best. if candidate_less best x then x else best) cs c))"

definition merge_candidates :: "ranks \<Rightarrow> string list \<Rightarrow> BpeMergeCandidate list" where
  "merge_candidates table symbols = concat (map (\<lambda>idx. case rank table (symbols ! idx) (symbols ! (idx + 1)) of
       None \<Rightarrow> [] | Some r \<Rightarrow> [\<lparr>cand_rank = r, cand_index = idx\<rparr>]) [0 ..< length symbols - 1])"

fun merge_pass :: "string \<Rightarrow> string \<Rightarrow> string list \<Rightarrow> string list" where
  "merge_pass left right (a # b # symbols) =
     (if a = left \<and> b = right then (a @ b) # merge_pass left right symbols else a # merge_pass left right (b # symbols))"
| "merge_pass left right symbols = symbols"

lemma merge_pass_length: "length (merge_pass left right symbols) \<le> length symbols"
  by (induction left right symbols rule: merge_pass.induct) auto

text \<open>A pass over a list that has the pair somewhere shortens it.\<close>

lemma merge_pass_shortens:
  "Suc i < length symbols \<Longrightarrow> symbols ! i = left \<Longrightarrow> symbols ! Suc i = right \<Longrightarrow>
     length (merge_pass left right symbols) < length symbols"
proof (induction left right symbols arbitrary: i rule: merge_pass.induct)
  case (1 left right a b symbols)
  show ?case
  proof (cases "a = left \<and> b = right")
    case True
    then show ?thesis using merge_pass_length [of left right symbols] by simp
  next
    case False
    then obtain j where "i = Suc j" using 1(4,5) by (cases i) auto
    with 1(2) [OF False, of j] 1(3-5) False show ?thesis by auto
  qed
qed auto

lemma heap_pop_member: "heap_pop heap = Some best \<Longrightarrow> best \<in> set heap"
proof -
  have "fold (\<lambda>x best. if candidate_less best x then x else best) cs c \<in> insert c (set cs)" for c cs
  proof (induction cs arbitrary: c)
    case (Cons a cs)
    from Cons.IH [of "if candidate_less c a then a else c"] show ?case by (auto split: if_splits)
  qed simp
  then show "heap_pop heap = Some best \<Longrightarrow> best \<in> set heap" by (auto simp: heap_pop_def split: list.splits)
qed

lemma merge_candidates_iff: "\<lparr>cand_rank = r, cand_index = i\<rparr> \<in> set (merge_candidates table symbols) \<longleftrightarrow>
    Suc i < length symbols \<and> rank table (symbols ! i) (symbols ! Suc i) = Some r"
  by (auto simp: merge_candidates_def split: option.splits)

function merge_symbols :: "ranks \<Rightarrow> string list \<Rightarrow> string list" where
  "merge_symbols table symbols =
     (if \<not> length symbols > 1 then symbols
      else (case heap_pop (merge_candidates table symbols) of
          None \<Rightarrow> symbols
        | Some best \<Rightarrow> merge_symbols table (merge_pass (symbols ! cand_index best) (symbols ! (cand_index best + 1)) symbols)))"
  by pat_completeness auto
termination
proof (relation "measure (length \<circ> snd)")
  fix table symbols best
  assume "heap_pop (merge_candidates table symbols) = Some best"
  then have "\<lparr>cand_rank = cand_rank best, cand_index = cand_index best\<rparr> \<in> set (merge_candidates table symbols)"
    by (simp add: heap_pop_member)
  then have "Suc (cand_index best) < length symbols" by (simp only: merge_candidates_iff)
  then show "((table, merge_pass (symbols ! cand_index best) (symbols ! (cand_index best + 1)) symbols), table, symbols)
      \<in> measure (length \<circ> snd)"
    using merge_pass_shortens [of "cand_index best" symbols] by simp
qed simp

declare merge_symbols.simps [simp del]

section \<open>The byte alphabet\<close>

definition visible :: "nat \<Rightarrow> bool" where
  "visible b \<longleftrightarrow> 33 \<le> b \<and> b \<le> 126 \<or> 161 \<le> b \<and> b \<le> 172 \<or> 174 \<le> b \<and> b \<le> 255"

definition bpe_byte_to_char :: "nat \<Rightarrow> nat" where
  "bpe_byte_to_char byte = (if visible byte then byte
     else 256 + length (filter (\<lambda>candidate. \<not> visible candidate) [0 ..< byte]))"

definition bpe_char_to_byte :: "nat \<Rightarrow> nat option" where
  "bpe_char_to_byte ch = find (\<lambda>byte. bpe_byte_to_char byte = ch) [0 ..< 256]"

section \<open>Character classes\<close>

record char_lib =
  alphabetic :: "nat \<Rightarrow> bool"
  numeric :: "nat \<Rightarrow> bool"
  debug_string :: "string \<Rightarrow> string"
  debug_char :: "nat \<Rightarrow> string"

datatype BpePreTokenizer = Llama3 | Qwen2 | Qwen35

fun digit_group_max :: "BpePreTokenizer \<Rightarrow> nat" where
  "digit_group_max Llama3 = 3"
| "digit_group_max Qwen2 = 1"
| "digit_group_max Qwen35 = 1"

definition fold_marks_of :: "BpePreTokenizer \<Rightarrow> bool" where
  "fold_marks_of pre \<longleftrightarrow> pre = Qwen35"

text \<open>\<^verbatim>\<open>tokenizer_mark_ranges.rs.inc\<close>.\<close>

definition MARK_RANGES :: "(nat \<times> nat) list" where
  "MARK_RANGES =
   [(0x300, 0x36F), (0x483, 0x489), (0x591, 0x5BD), (0x5BF, 0x5BF), (0x5C1, 0x5C2), (0x5C4, 0x5C5), (0x5C7, 0x5C7),
    (0x610, 0x61A), (0x64B, 0x65F), (0x670, 0x670), (0x6D6, 0x6DC), (0x6DF, 0x6E4), (0x6E7, 0x6E8), (0x6EA, 0x6ED),
    (0x711, 0x711), (0x730, 0x74A), (0x7A6, 0x7B0), (0x7EB, 0x7F3), (0x7FD, 0x7FD), (0x816, 0x819), (0x81B, 0x823),
    (0x825, 0x827), (0x829, 0x82D), (0x859, 0x85B), (0x897, 0x89F), (0x8CA, 0x8E1), (0x8E3, 0x903), (0x93A, 0x93C),
    (0x93E, 0x94F), (0x951, 0x957), (0x962, 0x963), (0x981, 0x983), (0x9BC, 0x9BC), (0x9BE, 0x9C4), (0x9C7, 0x9C8),
    (0x9CB, 0x9CD), (0x9D7, 0x9D7), (0x9E2, 0x9E3), (0x9FE, 0x9FE), (0xA01, 0xA03), (0xA3C, 0xA3C), (0xA3E, 0xA42),
    (0xA47, 0xA48), (0xA4B, 0xA4D), (0xA51, 0xA51), (0xA70, 0xA71), (0xA75, 0xA75), (0xA81, 0xA83), (0xABC, 0xABC),
    (0xABE, 0xAC5), (0xAC7, 0xAC9), (0xACB, 0xACD), (0xAE2, 0xAE3), (0xAFA, 0xAFF), (0xB01, 0xB03), (0xB3C, 0xB3C),
    (0xB3E, 0xB44), (0xB47, 0xB48), (0xB4B, 0xB4D), (0xB55, 0xB57), (0xB62, 0xB63), (0xB82, 0xB82), (0xBBE, 0xBC2),
    (0xBC6, 0xBC8), (0xBCA, 0xBCD), (0xBD7, 0xBD7), (0xC00, 0xC04), (0xC3C, 0xC3C), (0xC3E, 0xC44), (0xC46, 0xC48),
    (0xC4A, 0xC4D), (0xC55, 0xC56), (0xC62, 0xC63), (0xC81, 0xC83), (0xCBC, 0xCBC), (0xCBE, 0xCC4), (0xCC6, 0xCC8),
    (0xCCA, 0xCCD), (0xCD5, 0xCD6), (0xCE2, 0xCE3), (0xCF3, 0xCF3), (0xD00, 0xD03), (0xD3B, 0xD3C), (0xD3E, 0xD44),
    (0xD46, 0xD48), (0xD4A, 0xD4D), (0xD57, 0xD57), (0xD62, 0xD63), (0xD81, 0xD83), (0xDCA, 0xDCA), (0xDCF, 0xDD4),
    (0xDD6, 0xDD6), (0xDD8, 0xDDF), (0xDF2, 0xDF3), (0xE31, 0xE31), (0xE34, 0xE3A), (0xE47, 0xE4E), (0xEB1, 0xEB1),
    (0xEB4, 0xEBC), (0xEC8, 0xECE), (0xF18, 0xF19), (0xF35, 0xF35), (0xF37, 0xF37), (0xF39, 0xF39), (0xF3E, 0xF3F),
    (0xF71, 0xF84), (0xF86, 0xF87), (0xF8D, 0xF97), (0xF99, 0xFBC), (0xFC6, 0xFC6), (0x102B, 0x103E),
    (0x1056, 0x1059), (0x105E, 0x1060), (0x1062, 0x1064), (0x1067, 0x106D), (0x1071, 0x1074), (0x1082, 0x108D),
    (0x108F, 0x108F), (0x109A, 0x109D), (0x135D, 0x135F), (0x1712, 0x1715), (0x1732, 0x1734), (0x1752, 0x1753),
    (0x1772, 0x1773), (0x17B4, 0x17D3), (0x17DD, 0x17DD), (0x180B, 0x180D), (0x180F, 0x180F), (0x1885, 0x1886),
    (0x18A9, 0x18A9), (0x1920, 0x192B), (0x1930, 0x193B), (0x1A17, 0x1A1B), (0x1A55, 0x1A5E), (0x1A60, 0x1A7C),
    (0x1A7F, 0x1A7F), (0x1AB0, 0x1ADD), (0x1AE0, 0x1AEB), (0x1B00, 0x1B04), (0x1B34, 0x1B44), (0x1B6B, 0x1B73),
    (0x1B80, 0x1B82), (0x1BA1, 0x1BAD), (0x1BE6, 0x1BF3), (0x1C24, 0x1C37), (0x1CD0, 0x1CD2), (0x1CD4, 0x1CE8),
    (0x1CED, 0x1CED), (0x1CF4, 0x1CF4), (0x1CF7, 0x1CF9), (0x1DC0, 0x1DFF), (0x20D0, 0x20F0), (0x2CEF, 0x2CF1),
    (0x2D7F, 0x2D7F), (0x2DE0, 0x2DFF), (0x302A, 0x302F), (0x3099, 0x309A), (0xA66F, 0xA672), (0xA674, 0xA67D),
    (0xA69E, 0xA69F), (0xA6F0, 0xA6F1), (0xA802, 0xA802), (0xA806, 0xA806), (0xA80B, 0xA80B), (0xA823, 0xA827),
    (0xA82C, 0xA82C), (0xA880, 0xA881), (0xA8B4, 0xA8C5), (0xA8E0, 0xA8F1), (0xA8FF, 0xA8FF), (0xA926, 0xA92D),
    (0xA947, 0xA953), (0xA980, 0xA983), (0xA9B3, 0xA9C0), (0xA9E5, 0xA9E5), (0xAA29, 0xAA36), (0xAA43, 0xAA43),
    (0xAA4C, 0xAA4D), (0xAA7B, 0xAA7D), (0xAAB0, 0xAAB0), (0xAAB2, 0xAAB4), (0xAAB7, 0xAAB8), (0xAABE, 0xAABF),
    (0xAAC1, 0xAAC1), (0xAAEB, 0xAAEF), (0xAAF5, 0xAAF6), (0xABE3, 0xABEA), (0xABEC, 0xABED), (0xFB1E, 0xFB1E),
    (0xFE00, 0xFE0F), (0xFE20, 0xFE2F), (0x101FD, 0x101FD), (0x102E0, 0x102E0), (0x10376, 0x1037A),
    (0x10A01, 0x10A03), (0x10A05, 0x10A06), (0x10A0C, 0x10A0F), (0x10A38, 0x10A3A), (0x10A3F, 0x10A3F),
    (0x10AE5, 0x10AE6), (0x10D24, 0x10D27), (0x10D69, 0x10D6D), (0x10EAB, 0x10EAC), (0x10EFA, 0x10EFF),
    (0x10F46, 0x10F50), (0x10F82, 0x10F85), (0x11000, 0x11002), (0x11038, 0x11046), (0x11070, 0x11070),
    (0x11073, 0x11074), (0x1107F, 0x11082), (0x110B0, 0x110BA), (0x110C2, 0x110C2), (0x11100, 0x11102),
    (0x11127, 0x11134), (0x11145, 0x11146), (0x11173, 0x11173), (0x11180, 0x11182), (0x111B3, 0x111C0),
    (0x111C9, 0x111CC), (0x111CE, 0x111CF), (0x1122C, 0x11237), (0x1123E, 0x1123E), (0x11241, 0x11241),
    (0x112DF, 0x112EA), (0x11300, 0x11303), (0x1133B, 0x1133C), (0x1133E, 0x11344), (0x11347, 0x11348),
    (0x1134B, 0x1134D), (0x11357, 0x11357), (0x11362, 0x11363), (0x11366, 0x1136C), (0x11370, 0x11374),
    (0x113B8, 0x113C0), (0x113C2, 0x113C2), (0x113C5, 0x113C5), (0x113C7, 0x113CA), (0x113CC, 0x113D0),
    (0x113D2, 0x113D2), (0x113E1, 0x113E2), (0x11435, 0x11446), (0x1145E, 0x1145E), (0x114B0, 0x114C3),
    (0x115AF, 0x115B5), (0x115B8, 0x115C0), (0x115DC, 0x115DD), (0x11630, 0x11640), (0x116AB, 0x116B7),
    (0x1171D, 0x1172B), (0x1182C, 0x1183A), (0x11930, 0x11935), (0x11937, 0x11938), (0x1193B, 0x1193E),
    (0x11940, 0x11940), (0x11942, 0x11943), (0x119D1, 0x119D7), (0x119DA, 0x119E0), (0x119E4, 0x119E4),
    (0x11A01, 0x11A0A), (0x11A33, 0x11A39), (0x11A3B, 0x11A3E), (0x11A47, 0x11A47), (0x11A51, 0x11A5B),
    (0x11A8A, 0x11A99), (0x11B60, 0x11B67), (0x11C2F, 0x11C36), (0x11C38, 0x11C3F), (0x11C92, 0x11CA7),
    (0x11CA9, 0x11CB6), (0x11D31, 0x11D36), (0x11D3A, 0x11D3A), (0x11D3C, 0x11D3D), (0x11D3F, 0x11D45),
    (0x11D47, 0x11D47), (0x11D8A, 0x11D8E), (0x11D90, 0x11D91), (0x11D93, 0x11D97), (0x11EF3, 0x11EF6),
    (0x11F00, 0x11F01), (0x11F03, 0x11F03), (0x11F34, 0x11F3A), (0x11F3E, 0x11F42), (0x11F5A, 0x11F5A),
    (0x13440, 0x13440), (0x13447, 0x13455), (0x1611E, 0x1612F), (0x16AF0, 0x16AF4), (0x16B30, 0x16B36),
    (0x16F4F, 0x16F4F), (0x16F51, 0x16F87), (0x16F8F, 0x16F92), (0x16FE4, 0x16FE4), (0x16FF0, 0x16FF1),
    (0x1BC9D, 0x1BC9E), (0x1CF00, 0x1CF2D), (0x1CF30, 0x1CF46), (0x1D165, 0x1D169), (0x1D16D, 0x1D172),
    (0x1D17B, 0x1D182), (0x1D185, 0x1D18B), (0x1D1AA, 0x1D1AD), (0x1D242, 0x1D244), (0x1DA00, 0x1DA36),
    (0x1DA3B, 0x1DA6C), (0x1DA75, 0x1DA75), (0x1DA84, 0x1DA84), (0x1DA9B, 0x1DA9F), (0x1DAA1, 0x1DAAF),
    (0x1E000, 0x1E006), (0x1E008, 0x1E018), (0x1E01B, 0x1E021), (0x1E023, 0x1E024), (0x1E026, 0x1E02A),
    (0x1E08F, 0x1E08F), (0x1E130, 0x1E136), (0x1E2AE, 0x1E2AE), (0x1E2EC, 0x1E2EF), (0x1E4EC, 0x1E4EF),
    (0x1E5EE, 0x1E5EF), (0x1E6E3, 0x1E6E3), (0x1E6E6, 0x1E6E6), (0x1E6EE, 0x1E6EF), (0x1E6F5, 0x1E6F5),
    (0x1E8D0, 0x1E8D6), (0x1E944, 0x1E94A), (0xE0100, 0xE01EF)]"

datatype Ordering = Less | Equal | Greater

text \<open>\<^verbatim>\<open>binary_search_by(..).is_ok()\<close> between two indices.\<close>

function binary_search :: "('a \<Rightarrow> Ordering) \<Rightarrow> 'a list \<Rightarrow> nat \<Rightarrow> nat \<Rightarrow> bool" where
  "binary_search cmp xs lo hi =
     (if hi \<le> lo then False
      else let mid = (lo + hi) div 2 in
        (case cmp (xs ! mid) of Equal \<Rightarrow> True | Less \<Rightarrow> binary_search cmp xs (mid + 1) hi | Greater \<Rightarrow> binary_search cmp xs lo mid))"
  by pat_completeness auto
termination by (relation "measure (\<lambda>(cmp, xs, lo, hi). hi - lo)") auto

declare binary_search.simps [simp del]

definition mark_order :: "nat \<Rightarrow> nat \<times> nat \<Rightarrow> Ordering" where
  "mark_order cp r = (case r of (lo, hi) \<Rightarrow> if hi < cp then Less else if lo > cp then Greater else Equal)"

definition is_mark :: "nat \<Rightarrow> bool" where
  "is_mark cp = binary_search (mark_order cp) MARK_RANGES 0 (length MARK_RANGES)"

text \<open>\<^verbatim>\<open>char::is_whitespace\<close> (Unicode's \<^verbatim>\<open>White_Space\<close>).\<close>

definition is_white :: "nat \<Rightarrow> bool" where
  "is_white cp \<longleftrightarrow> 9 \<le> cp \<and> cp \<le> 13 \<or> cp \<in> {0x20, 0x85, 0xA0, 0x1680, 0x2028, 0x2029, 0x202F, 0x205F, 0x3000}
     \<or> 0x2000 \<le> cp \<and> cp \<le> 0x200A"

definition is_letter_class :: "char_lib \<Rightarrow> bool \<Rightarrow> nat \<Rightarrow> bool" where
  "is_letter_class lib fold_marks ch \<longleftrightarrow> alphabetic lib ch \<or> fold_marks \<and> is_mark ch"

definition is_punctuation_for_bpe :: "char_lib \<Rightarrow> bool \<Rightarrow> nat \<Rightarrow> bool" where
  "is_punctuation_for_bpe lib fold_marks ch \<longleftrightarrow>
     \<not> is_white ch \<and> \<not> is_letter_class lib fold_marks ch \<and> \<not> numeric lib ch"

section \<open>The pre-tokenizer\<close>

text \<open>\<^verbatim>\<open>while idx < text.len() { if !class(ch) { break } idx += ch.len_utf8() }\<close>\<close>

function consume_while :: "(nat \<Rightarrow> bool) \<Rightarrow> string \<Rightarrow> nat" where
  "consume_while P text =
     (if text = [] \<or> \<not> P (next_char text) then 0
      else char_width text + consume_while P (drop (char_width text) text))"
  by pat_completeness auto
termination by (relation "measure (length \<circ> snd)") (auto simp: char_width_pos)

declare consume_while.simps [simp del]

definition consume_letters :: "char_lib \<Rightarrow> bool \<Rightarrow> string \<Rightarrow> nat" where
  "consume_letters lib fold_marks text = consume_while (is_letter_class lib fold_marks) text"

definition consume_whitespace :: "string \<Rightarrow> nat" where
  "consume_whitespace text = consume_while is_white text"

fun consume_digits :: "char_lib \<Rightarrow> nat \<Rightarrow> string \<Rightarrow> nat" where
  "consume_digits lib 0 text = 0"
| "consume_digits lib (Suc max_digits) text =
     (if text = [] \<or> \<not> numeric lib (next_char text) then 0
      else char_width text + consume_digits lib max_digits (drop (char_width text) text))"

definition contractions :: "string list" where
  "contractions = map (\<lambda>s. CHR 0x27 # s) [''s'', ''t'', ''re'', ''ve'', ''m'', ''ll'', ''d'']"

definition consume_contraction :: "string \<Rightarrow> nat option" where
  "consume_contraction text = map_option length (find (\<lambda>suffix.
     length suffix \<le> length text \<and> eq_ignore_ascii_case (take (length suffix) text) suffix) contractions)"

text \<open>The character after the first one, if there is one.\<close>

definition second_char :: "string \<Rightarrow> nat option" where
  "second_char text = (if char_width text < length text then Some (next_char (drop (char_width text) text)) else None)"

definition consume_optional_prefix_letters :: "char_lib \<Rightarrow> bool \<Rightarrow> string \<Rightarrow> nat option" where
  "consume_optional_prefix_letters lib fold_marks text = (let ch = next_char text in
     if is_letter_class lib fold_marks ch then Some (consume_letters lib fold_marks text)
     else if ch = 13 \<or> ch = 10 \<or> numeric lib ch then None
     else (case second_char text of
         None \<Rightarrow> None
       | Some next \<Rightarrow> if is_letter_class lib fold_marks next
           then Some (char_width text + consume_letters lib fold_marks (drop (char_width text) text)) else None))"

definition consume_optional_space_punctuation :: "char_lib \<Rightarrow> bool \<Rightarrow> string \<Rightarrow> nat option" where
  "consume_optional_space_punctuation lib fold_marks text = (let ch = next_char text in
     let punctuation_start =
       (if ch = 32 then (case second_char text of
            None \<Rightarrow> None
          | Some next \<Rightarrow> if is_punctuation_for_bpe lib fold_marks next then Some (char_width text) else None)
        else if is_punctuation_for_bpe lib fold_marks ch then Some 0
        else None) in
     map_option (\<lambda>start.
       let idx = start + consume_while (is_punctuation_for_bpe lib fold_marks) (drop start text) in
       idx + consume_while (\<lambda>ch. ch = 10 \<or> ch = 13) (drop idx text)) punctuation_start)"

text \<open>How far the last line break of a whitespace run reaches; \<open>idx\<close> is where the scan stands.\<close>

function last_newline_end :: "string \<Rightarrow> nat \<Rightarrow> nat option \<Rightarrow> nat option" where
  "last_newline_end text idx found =
     (if text = [] \<or> \<not> is_white (next_char text) then found
      else let idx' = idx + char_width text in
        last_newline_end (drop (char_width text) text) idx'
          (if next_char text = 10 \<or> next_char text = 13 then Some idx' else found))"
  by pat_completeness auto
termination by (relation "measure (length \<circ> fst)") (auto simp: char_width_pos)

declare last_newline_end.simps [simp del]

definition consume_whitespace_with_newline :: "string \<Rightarrow> nat option" where
  "consume_whitespace_with_newline text =
     (if \<not> is_white (next_char text) then None else last_newline_end text 0 None)"

text \<open>\<^verbatim>\<open>\s+(?!\S)\<close>: a run that is followed by something leaves its last character.\<close>

definition consume_whitespace_before_nonspace :: "string \<Rightarrow> nat" where
  "consume_whitespace_before_nonspace text = (let whitespace_end = consume_whitespace text in
     if whitespace_end = length text then whitespace_end
     else let cs = chars (take whitespace_end text) in
       if length cs > 1 then whitespace_end - length (last cs) else whitespace_end)"

definition next_llama_bpe_segment_end :: "char_lib \<Rightarrow> nat \<Rightarrow> bool \<Rightarrow> string \<Rightarrow> nat" where
  "next_llama_bpe_segment_end lib max_digits fold_marks text =
     (case consume_contraction text of Some n \<Rightarrow> n | None \<Rightarrow>
     (case consume_optional_prefix_letters lib fold_marks text of Some n \<Rightarrow> n | None \<Rightarrow>
     (let ch = next_char text in
      if numeric lib ch then consume_digits lib max_digits text
      else (case consume_optional_space_punctuation lib fold_marks text of Some n \<Rightarrow> n | None \<Rightarrow>
        (case consume_whitespace_with_newline text of Some n \<Rightarrow> n | None \<Rightarrow>
         if is_white ch then consume_whitespace_before_nonspace text
         else char_width text)))))"

lemma char_width_le: "s \<noteq> [] \<Longrightarrow> char_width s \<le> length s"
  by (auto simp: char_width_def Suc_le_eq dest: utf8_next_bounds split: utf8_step.splits)

lemma consume_while_le: "consume_while P s \<le> length s"
proof (induction P s rule: consume_while.induct)
  case (1 P s)
  then show ?case using char_width_le [of s] by (subst consume_while.simps) force
qed

lemma consume_while_pos: "s \<noteq> [] \<Longrightarrow> P (next_char s) \<Longrightarrow> 0 < consume_while P s"
  by (subst consume_while.simps) (simp add: char_width_pos)

lemma consume_digits_le: "consume_digits lib n s \<le> length s"
proof (induction lib n s rule: consume_digits.induct)
  case (2 lib n s)
  then show ?case using char_width_le [of s] by force
qed simp

lemma last_newline_end_bounds:
  "last_newline_end s idx found = Some n \<Longrightarrow> found = Some n \<or> idx < n \<and> n \<le> idx + length s"
proof (induction s idx found rule: last_newline_end.induct)
  case (1 s idx found)
  show ?case
  proof (cases "s = [] \<or> \<not> is_white (next_char s)")
    case False
    let ?idx = "idx + char_width s" and ?rest = "drop (char_width s) s"
    have w: "0 < char_width s" "char_width s \<le> length s" using False char_width_pos char_width_le by auto
    have "last_newline_end ?rest ?idx (if next_char s = 10 \<or> next_char s = 13 then Some ?idx else found) = Some n"
      using 1(2) False by (subst (asm) last_newline_end.simps) (simp add: Let_def)
    from 1(1) [OF False refl this] w show ?thesis by (auto split: if_splits)
  qed (use 1(2) in \<open>simp add: last_newline_end.simps\<close>)
qed

lemma chars_nonempty: "\<forall>c \<in> set (chars s). c \<noteq> []"
proof (induction s rule: chars.induct)
  case (1 s)
  then show ?case using char_width_pos [of s] by (subst chars.simps) auto
qed

lemma chars_concat: "concat (chars s) = s"
proof (induction s rule: chars.induct)
  case (1 s)
  then show ?case by (subst chars.simps) simp
qed

text \<open>A segment is never empty and never leaves the s.\<close>

lemma segment_bounds:
  assumes "s \<noteq> []" "0 < n"
  shows "0 < next_llama_bpe_segment_end lib n fold_marks s \<and> next_llama_bpe_segment_end lib n fold_marks s \<le> length s"
proof -
  have w: "0 < char_width s" "char_width s \<le> length s" using assms(1) char_width_pos char_width_le by auto
  have contraction: "0 < k \<and> k \<le> length s" if "consume_contraction s = Some k" for k
    using that by (auto simp: consume_contraction_def contractions_def find_Some_iff split: if_splits)
  have tail: "consume_while P (drop k s) + k \<le> length s" if "k \<le> length s" for P k
    using consume_while_le [of P "drop k s"] that by simp
  have letters: "0 < k \<and> k \<le> length s" if some: "consume_optional_prefix_letters lib fold_marks s = Some k" for k
  proof -
    let ?letter = "is_letter_class lib fold_marks"
    consider "?letter (next_char s)" "k = consume_while ?letter s"
      | "k = char_width s + consume_while ?letter (drop (char_width s) s)"
      using some by (auto simp: consume_optional_prefix_letters_def consume_letters_def Let_def split: if_splits option.splits)
    then show ?thesis
    proof cases
      case 1
      then show ?thesis using consume_while_pos [OF assms(1)] consume_while_le by auto
    next
      case 2
      then show ?thesis using w tail [OF w(2), of ?letter] by simp
    qed
  qed
  have punctuation: "0 < k \<and> k \<le> length s" if some: "consume_optional_space_punctuation lib fold_marks s = Some k" for k
  proof -
    let ?punct = "is_punctuation_for_bpe lib fold_marks"
    let ?ps = "if next_char s = 32 then (case second_char s of None \<Rightarrow> None
        | Some next \<Rightarrow> if ?punct next then Some (char_width s) else None) else if ?punct (next_char s) then Some 0 else None"
    obtain start where ps: "?ps = Some start" and k: "k = start + consume_while ?punct (drop start s)
            + consume_while (\<lambda>ch. ch = 10 \<or> ch = 13) (drop (start + consume_while ?punct (drop start s)) s)"
      using some unfolding consume_optional_space_punctuation_def Let_def map_option_eq_Some by blast
    from ps have start: "start = char_width s \<or> start = 0 \<and> ?punct (next_char s)" by (auto split: if_splits option.splits)
    have "0 < start + consume_while ?punct (drop start s)"
      using start w(1) consume_while_pos [OF assms(1), of ?punct] by auto
    moreover have "start \<le> length s" using start w(2) by auto
    ultimately show ?thesis
      using tail [of start ?punct] tail [of "start + consume_while ?punct (drop start s)"] by (simp add: k add.commute)
  qed
  have newline: "0 < k \<and> k \<le> length s" if "consume_whitespace_with_newline s = Some k" for k
    using that last_newline_end_bounds [of s 0 None k] by (auto simp: consume_whitespace_with_newline_def split: if_splits)
  have white: "0 < consume_whitespace_before_nonspace s \<and> consume_whitespace_before_nonspace s \<le> length s"
    if "is_white (next_char s)"
  proof -
    let ?e = "consume_whitespace s"
    have e: "0 < ?e" "?e \<le> length s"
      using consume_while_pos [OF assms(1), of is_white] that consume_while_le by (auto simp: consume_whitespace_def)
    have "length (last (chars (take ?e s))) < ?e" if "1 < length (chars (take ?e s))"
    proof -
      have "length (last cs) < length (concat cs)" if long: "1 < length cs" "\<forall>c \<in> set cs. c \<noteq> []" for cs :: "string list"
      proof -
        obtain a b cs' where cs: "cs = a # b # cs'" using long(1) by (cases cs rule: remdups_adj.cases) auto
        have "0 < length a" using long(2) cs by simp
        moreover have "last cs = last (b # cs')" "length (concat cs) = length a + length (concat (b # cs'))" by (simp_all add: cs)
        moreover have "length (last (b # cs')) \<le> length (concat (b # cs'))"
          by (metis concat_append concat.simps append_butlast_last_id length_append le_add2 list.discI append_Nil2)
        ultimately show ?thesis by (auto split: if_splits simp flip: length_greater_0_conv)
      qed
      moreover have "\<forall>c \<in> set (chars (take ?e s)). c \<noteq> []" by (rule chars_nonempty)
      ultimately show ?thesis using that e(2) chars_concat [of "take ?e s"] by fastforce
    qed
    then show ?thesis using e by (auto simp: consume_whitespace_before_nonspace_def Let_def)
  qed
  have digits: "0 < consume_digits lib n s" if "numeric lib (next_char s)"
    using assms that w(1) by (cases n) simp_all
  show ?thesis
    using contraction letters punctuation newline white digits consume_digits_le [of lib n s] w
    by (auto simp: next_llama_bpe_segment_end_def Let_def split: option.splits)
qed

text \<open>The dialect stands for its two numbers.\<close>

function bpe_pretokenize_with :: "char_lib \<Rightarrow> BpePreTokenizer \<Rightarrow> string \<Rightarrow> string list" where
  "bpe_pretokenize_with lib pre s =
     (if s = [] then []
      else let byte_end = next_llama_bpe_segment_end lib (digit_group_max pre) (fold_marks_of pre) s in
        take byte_end s # bpe_pretokenize_with lib pre (drop byte_end s))"
  by pat_completeness auto
termination
proof (relation "measure (length \<circ> snd \<circ> snd)")
  fix lib pre s byte_end
  assume "s \<noteq> ([] :: string)" "byte_end = next_llama_bpe_segment_end lib (digit_group_max pre) (fold_marks_of pre) s"
  moreover have "0 < digit_group_max pre" by (cases pre) simp_all
  ultimately show "((lib, pre, drop byte_end s), lib, pre, s) \<in> measure (length \<circ> snd \<circ> snd)"
    using segment_bounds [of s "digit_group_max pre" lib "fold_marks_of pre"] by simp
qed simp

declare bpe_pretokenize_with.simps [simp del]

end
