(* ===== verification/Tokenizer.thy ===== *)
theory Tokenizer
  imports Bpe Gguf
begin

text \<open>
  The tokenizer (\<^verbatim>\<open>engine-core/src/tokenizer.rs\<close>): its data, its construction from a model
  file's metadata, decoding for both vocabulary families, the incremental decoder,
  and byte-level BPE encoding. SentencePiece encoding is in \<open>Spm\<close>.
\<close>

section \<open>Data\<close>

datatype TokenizerModel = LlamaSpm | Gpt2Bpe

fun as_summary_model :: "TokenizerModel \<Rightarrow> string" where
  "as_summary_model LlamaSpm = ''llama_spm''"
| "as_summary_model Gpt2Bpe = ''gpt2_bpe''"

datatype TokenKind = Undefined | Normal | Unknown | Control | UserDefined | Unused | Byte

definition token_kind_from_i32 :: "int \<Rightarrow> TokenKind engine_result" where
  "token_kind_from_i32 value =
     (if value = 0 then Inr Undefined else if value = 1 then Inr Normal else if value = 2 then Inr Unknown
      else if value = 3 then Inr Control else if value = 4 then Inr UserDefined else if value = 5 then Inr Unused
      else if value = 6 then Inr Byte
      else Inl (InvalidTokenizerMetadata (''unknown tokenizer token type '' @ show_int value)))"

record Token =
  tok_id :: nat
  tok_text :: string
  tok_score :: "32 word"
  tok_kind :: TokenKind

definition is_chat_control_marker :: "Token \<Rightarrow> bool" where
  "is_chat_control_marker token \<longleftrightarrow>
     tok_kind token = UserDefined \<and> starts_with (tok_text token) ''<|'' \<and> ends_with (tok_text token) ''|>''"

record SpecialTokens =
  sp_bos :: "nat option"
  sp_eos :: "nat option"
  sp_eot :: "nat option"
  sp_eom :: "nat option"
  sp_unk :: "nat option"
  sp_sep :: "nat option"
  sp_pad :: "nat option"
  sp_mask :: "nat option"
  sp_eog :: "nat set"

record TokenizerConfig =
  add_bos :: bool
  add_eos :: bool
  add_sep :: bool
  add_space_prefix :: bool
  remove_extra_whitespaces :: bool

record Tokenizer =
  tk_model :: TokenizerModel
  tk_pre :: BpePreTokenizer
  tk_tokens :: "Token list"
  tk_token_to_id :: "(string \<times> nat) list"
  tk_byte_token_to_id :: "(nat \<times> nat) list"
  tk_bpe_ranks :: ranks
  tk_bpe_registry :: ranks
  tk_special :: SpecialTokens
  tk_config :: TokenizerConfig
  tk_chat_template :: "string option"

definition token_at :: "Tokenizer \<Rightarrow> nat \<Rightarrow> Token option" where
  "token_at tk tid = (if tid < length (tk_tokens tk) then Some (tk_tokens tk ! tid) else None)"

definition token_text :: "Tokenizer \<Rightarrow> nat option \<Rightarrow> string option" where
  "token_text tk tid = Option.bind tid (\<lambda>i. map_option tok_text (token_at tk i))"

definition token_id :: "Tokenizer \<Rightarrow> string \<Rightarrow> nat option" where
  "token_id tk s = map_of (tk_token_to_id tk) s"

section \<open>Construction\<close>

definition is_llama3_bpe_signature :: "string list \<Rightarrow> bool" where
  "is_llama3_bpe_signature token_texts \<longleftrightarrow> length token_texts = 128256
     \<and> token_texts ! 128000 = ''<|begin_of_text|>'' \<and> token_texts ! 128001 = ''<|end_of_text|>''
     \<and> token_texts ! 128006 = ''<|start_header_id|>'' \<and> token_texts ! 128007 = ''<|end_header_id|>''
     \<and> token_texts ! 128009 = ''<|eot_id|>''"

text \<open>\<open>debug\<close> renders a string as \<^verbatim>\<open>{:?}\<close> does.\<close>

definition show_option_debug :: "(string \<Rightarrow> string) \<Rightarrow> string option \<Rightarrow> string" where
  "show_option_debug debug x = (case x of None \<Rightarrow> ''None'' | Some s \<Rightarrow> ''Some('' @ debug s @ '')'')"

definition resolve_gpt2_pre_tokenizer :: "(string \<Rightarrow> string) \<Rightarrow> string option \<Rightarrow> string list \<Rightarrow> BpePreTokenizer engine_result" where
  "resolve_gpt2_pre_tokenizer debug pre token_texts =
     (if pre = Some ''llama-bpe'' then Inr Llama3
      else if pre = Some ''qwen2'' then Inr Qwen2
      else if pre = Some ''qwen35'' then Inr Qwen35
      else if pre = None \<and> is_llama3_bpe_signature token_texts then Inr Llama3
      else Inl (UnsupportedTokenizer (''unsupported GPT-2/BPE pre-tokenizer '' @ show_option_debug debug pre
             @ ''; currently supported: llama-bpe, qwen2, qwen35'')))"

definition hex_value :: "char \<Rightarrow> nat option" where
  "hex_value c = (let n = char_code c in
     if 48 \<le> n \<and> n \<le> 57 then Some (n - 48) else if 97 \<le> n \<and> n \<le> 102 then Some (n - 87)
     else if 65 \<le> n \<and> n \<le> 70 then Some (n - 55) else None)"

text \<open>\<^verbatim>\<open>u8::from_str_radix(hex, 16)\<close> of two bytes: a leading plus sign is accepted.\<close>

definition u8_from_hex :: "char \<Rightarrow> char \<Rightarrow> nat option" where
  "u8_from_hex a b =
     (if a = CHR ''+'' then hex_value b
      else Option.bind (hex_value a) (\<lambda>high. map_option (\<lambda>low. 16 * high + low) (hex_value b)))"

definition parse_byte_token :: "string \<Rightarrow> nat option" where
  "parse_byte_token s =
     (if starts_with s ''<0x'' \<and> ends_with (drop 3 s) ''>''
      then (let hex = take (length s - 4) (drop 3 s) in if length hex \<noteq> 2 then None else u8_from_hex (hex ! 0) (hex ! 1))
      else None)"

definition validate_token_id :: "string \<Rightarrow> nat option \<Rightarrow> nat \<Rightarrow> unit engine_result" where
  "validate_token_id name tid len = (case tid of
       None \<Rightarrow> Inr ()
     | Some i \<Rightarrow> if i \<ge> len
         then Inl (InvalidTokenizerMetadata (name @ '' token id '' @ show_nat i @ '' out of range for vocab size '' @ show_nat len))
         else Inr ())"

text \<open>The vocabulary loop: the entries from \<open>idx\<close> on; \<^verbatim>\<open>idx as TokenId\<close> truncates to 32 bits.\<close>

type_synonym vocabulary = "Token list \<times> (string \<times> nat) list \<times> (nat \<times> nat) list"

fun build_vocabulary :: "int list \<Rightarrow> 32 word list \<Rightarrow> nat \<Rightarrow> string list \<Rightarrow> vocabulary \<Rightarrow> vocabulary engine_result" where
  "build_vocabulary kinds scores idx [] vocabulary = Inr vocabulary"
| "build_vocabulary kinds scores idx (s # texts) (tokens, token_to_id, byte_token_to_id) =
     (let id = idx mod 2 ^ 32 in
      and_then (token_kind_from_i32 (kinds ! idx)) (\<lambda>kind.
        build_vocabulary kinds scores (idx + 1) texts
          (tokens @ [\<lparr>tok_id = id, tok_text = s, tok_score = scores ! idx, tok_kind = kind\<rparr>],
           AList.update s id token_to_id,
           (case parse_byte_token s of None \<Rightarrow> byte_token_to_id | Some byte \<Rightarrow> AList.update byte id byte_token_to_id))))"

definition EOG_MARKER_TEXTS :: "string list" where
  "EOG_MARKER_TEXTS = [''<|end|>'', ''<|eot_id|>'', ''<|im_end|>'', ''<end_of_turn>'', ''<|eom_id|>'']"

definition or_else :: "'a option \<Rightarrow> 'a option \<Rightarrow> 'a option" where
  "or_else a b = (case a of None \<Rightarrow> b | Some _ \<Rightarrow> a)"

definition special_tokens :: "GgufFile \<Rightarrow> TokenizerModel \<Rightarrow> (string \<times> nat) list \<Rightarrow> SpecialTokens" where
  "special_tokens file model token_to_id =
     (let text_id = map_of token_to_id;
          bos = or_else (metadata_u32 file ''tokenizer.ggml.bos_token_id'')
                  (case model of LlamaSpm \<Rightarrow> Some 1 | Gpt2Bpe \<Rightarrow> text_id ''<|begin_of_text|>'');
          eos = or_else (metadata_u32 file ''tokenizer.ggml.eos_token_id'')
                  (case model of LlamaSpm \<Rightarrow> Some 2 | Gpt2Bpe \<Rightarrow> text_id ''<|end_of_text|>'');
          unk = or_else (metadata_u32 file ''tokenizer.ggml.unknown_token_id'')
                  (case model of LlamaSpm \<Rightarrow> Some 0 | Gpt2Bpe \<Rightarrow> None);
          eot = or_else (metadata_u32 file ''tokenizer.ggml.eot_token_id'') (text_id ''<|eot_id|>'');
          eom = metadata_u32 file ''tokenizer.ggml.eom_token_id'';
          sep = or_else (metadata_u32 file ''tokenizer.ggml.separator_token_id'') (metadata_u32 file ''tokenizer.ggml.seperator_token_id'');
          pad = metadata_u32 file ''tokenizer.ggml.padding_token_id'';
          mask = metadata_u32 file ''tokenizer.ggml.mask_token_id'' in
      \<lparr>sp_bos = bos, sp_eos = eos, sp_eot = eot, sp_eom = eom, sp_unk = unk, sp_sep = sep, sp_pad = pad, sp_mask = mask,
       sp_eog = set (List.map_filter id ([eos, eot, eom] @ map text_id EOG_MARKER_TEXTS))\<rparr>)"

definition config_flag :: "GgufFile \<Rightarrow> string \<Rightarrow> bool \<Rightarrow> bool" where
  "config_flag file key absent = (case metadata_bool file key of None \<Rightarrow> absent | Some b \<Rightarrow> b)"

definition tokenizer_config :: "GgufFile \<Rightarrow> string \<Rightarrow> TokenizerConfig" where
  "tokenizer_config file family =
     \<lparr>add_bos = (if family = ''gemma4'' then True else config_flag file ''tokenizer.ggml.add_bos_token'' True),
      add_eos = config_flag file ''tokenizer.ggml.add_eos_token'' False,
      add_sep = config_flag file ''tokenizer.ggml.add_sep_token'' False,
      add_space_prefix = config_flag file ''tokenizer.ggml.add_space_prefix'' True,
      remove_extra_whitespaces = config_flag file ''tokenizer.ggml.remove_extra_whitespaces'' False\<rparr>"

definition tokenizer_model :: "(string \<Rightarrow> string) \<Rightarrow> string \<Rightarrow> TokenizerModel engine_result" where
  "tokenizer_model debug family =
     (if family = ''llama'' \<or> family = ''gemma4'' then Inr LlamaSpm
      else if family = ''gpt2'' then Inr Gpt2Bpe
      else Inl (UnsupportedTokenizer (''unsupported tokenizer model '' @ debug family
             @ ''; currently supported: llama/SPM, gemma4/SPM, and GPT-2/BPE llama-bpe'')))"

definition too_short :: "string \<Rightarrow> nat \<Rightarrow> nat \<Rightarrow> EngineError" where
  "too_short key n m = InvalidTokenizerMetadata (key @ '' length '' @ show_nat n @ '' is shorter than token count '' @ show_nat m)"

definition validate_special :: "SpecialTokens \<Rightarrow> nat \<Rightarrow> unit engine_result" where
  "validate_special sp len =
     and_then (validate_token_id ''bos'' (sp_bos sp) len) (\<lambda>_.
     and_then (validate_token_id ''eos'' (sp_eos sp) len) (\<lambda>_.
     and_then (validate_token_id ''unk'' (sp_unk sp) len) (\<lambda>_.
     and_then (validate_token_id ''eot'' (sp_eot sp) len) (\<lambda>_.
     and_then (validate_token_id ''eom'' (sp_eom sp) len) (\<lambda>_.
     and_then (validate_token_id ''sep'' (sp_sep sp) len) (\<lambda>_.
     and_then (validate_token_id ''pad'' (sp_pad sp) len) (\<lambda>_.
     validate_token_id ''mask'' (sp_mask sp) len)))))))"

definition from_gguf :: "(string \<Rightarrow> string) \<Rightarrow> GgufFile \<Rightarrow> Tokenizer engine_result" where
  "from_gguf debug file =
     and_then (ok_or TokenizerNotAvailable (metadata_string file ''tokenizer.ggml.model'')) (\<lambda>family.
     and_then (tokenizer_model debug family) (\<lambda>model.
     and_then (metadata_array_strings file ''tokenizer.ggml.tokens'') (\<lambda>token_texts.
     if token_texts = [] then Inl (InvalidTokenizerMetadata ''tokenizer.ggml.tokens must not be empty'')
     else and_then (if model = Gpt2Bpe
          then resolve_gpt2_pre_tokenizer debug (metadata_string file ''tokenizer.ggml.pre'') token_texts else Inr Llama3) (\<lambda>pre.
     and_then (metadata_array_f32_optional file ''tokenizer.ggml.scores'') (\<lambda>found.
     let scores = (case found of None \<Rightarrow> replicate (length token_texts) 0 | Some scores \<Rightarrow> scores) in
     if length scores < length token_texts then Inl (too_short ''tokenizer.ggml.scores'' (length scores) (length token_texts))
     else and_then (metadata_array_i32_optional file ''tokenizer.ggml.token_type'') (\<lambda>found.
     let kinds = (case found of None \<Rightarrow> replicate (length token_texts) 1 | Some kinds \<Rightarrow> kinds) in
     if length kinds < length token_texts then Inl (too_short ''tokenizer.ggml.token_type'' (length kinds) (length token_texts))
     else and_then (metadata_array_strings_optional file ''tokenizer.ggml.merges'') (\<lambda>found.
     let registry = from_merges (case found of None \<Rightarrow> [] | Some merges \<Rightarrow> merges) in
     and_then (build_vocabulary kinds scores 0 token_texts ([], [], [])) (\<lambda>(tokens, token_to_id, byte_token_to_id).
     let special = special_tokens file model token_to_id in
     and_then (validate_special special (length tokens)) (\<lambda>_.
     Inr \<lparr>tk_model = model, tk_pre = pre, tk_tokens = tokens, tk_token_to_id = token_to_id,
          tk_byte_token_to_id = byte_token_to_id, tk_bpe_ranks = registry, tk_bpe_registry = registry, tk_special = special,
          tk_config = tokenizer_config file family, tk_chat_template = metadata_string file ''tokenizer.chat_template''\<rparr>)))))))))"

section \<open>Decoding\<close>

definition is_special :: "Tokenizer \<Rightarrow> nat \<Rightarrow> bool" where
  "is_special tk tid \<longleftrightarrow> (let sp = tk_special tk in sp_bos sp = Some tid \<or> sp_eos sp = Some tid \<or> sp_eot sp = Some tid
     \<or> sp_eom sp = Some tid \<or> sp_sep sp = Some tid \<or> sp_pad sp = Some tid \<or> sp_mask sp = Some tid)"

definition valid_prefix :: "string \<Rightarrow> string" where
  "valid_prefix bytes =
     (if is_utf8 bytes then bytes
      else let prefix = take (valid_up_to bytes) bytes in if is_utf8 prefix then prefix else [])"

definition out_of_range :: "nat \<Rightarrow> EngineError" where
  "out_of_range tid = InvalidTokenizerMetadata (''token id '' @ show_nat tid @ '' out of range'')"

text \<open>A token that is skipped, the token of an id, or the error.\<close>

definition visible_token :: "Tokenizer \<Rightarrow> bool \<Rightarrow> nat \<Rightarrow> Token option engine_result" where
  "visible_token tk remove_special tid =
     (if remove_special \<and> is_special tk tid then Inr None
      else and_then (ok_or (out_of_range tid) (token_at tk tid)) (\<lambda>token.
        if remove_special \<and> (tok_kind token = Control \<or> is_chat_control_marker token) then Inr None else Inr (Some token)))"

fun bytes_of_chars :: "char_lib \<Rightarrow> bool \<Rightarrow> Token \<Rightarrow> string list \<Rightarrow> string engine_result" where
  "bytes_of_chars lib remove_special token [] = Inr []"
| "bytes_of_chars lib remove_special token (c # cs) =
     (case bpe_char_to_byte (scalar_value c) of
        Some byte \<Rightarrow> and_then (bytes_of_chars lib remove_special token cs) (\<lambda>bytes. Inr (char_of byte # bytes))
      | None \<Rightarrow> if \<not> remove_special \<or> tok_kind token \<noteq> Control
          then Inl (InvalidTokenizerMetadata (''GPT-2/BPE token '' @ debug_string lib (tok_text token)
                 @ '' contains non-byte character '' @ debug_char lib (scalar_value c)))
          else bytes_of_chars lib remove_special token cs)"

fun bpe_bytes :: "char_lib \<Rightarrow> Tokenizer \<Rightarrow> bool \<Rightarrow> nat list \<Rightarrow> string engine_result" where
  "bpe_bytes lib tk remove_special [] = Inr []"
| "bpe_bytes lib tk remove_special (tid # ids) =
     and_then (visible_token tk remove_special tid) (\<lambda>found.
     and_then (case found of None \<Rightarrow> Inr [] | Some token \<Rightarrow> bytes_of_chars lib remove_special token (chars (tok_text token))) (\<lambda>bytes.
     and_then (bpe_bytes lib tk remove_special ids) (\<lambda>rest. Inr (bytes @ rest))))"

definition decode_bpe :: "char_lib \<Rightarrow> Tokenizer \<Rightarrow> nat list \<Rightarrow> bool \<Rightarrow> string engine_result" where
  "decode_bpe lib tk ids remove_special =
     and_then (bpe_bytes lib tk remove_special ids) (\<lambda>bytes. Inr (valid_prefix bytes))"

definition flush_bytes :: "string \<Rightarrow> string \<Rightarrow> string" where
  "flush_bytes bytes decoded = (if bytes = [] then decoded else decoded @ valid_prefix bytes)"

text \<open>U+2581, which stands for a space.\<close>

definition SPM_SPACE :: string where "SPM_SPACE = [CHR 0xE2, CHR 0x96, CHR 0x81]"

definition replace_spm_space :: "string \<Rightarrow> string" where
  "replace_spm_space s = concat (map (\<lambda>c. if c = SPM_SPACE then '' '' else c) (chars s))"

text \<open>The loop over the ids with its pending bytes and the text so far.\<close>

fun decode_spm :: "Tokenizer \<Rightarrow> bool \<Rightarrow> nat list \<Rightarrow> string \<Rightarrow> string \<Rightarrow> string engine_result" where
  "decode_spm tk remove_special [] bytes decoded = Inr (flush_bytes bytes decoded)"
| "decode_spm tk remove_special (tid # ids) bytes decoded =
     and_then (visible_token tk remove_special tid) (\<lambda>found. case found of
         None \<Rightarrow> decode_spm tk remove_special ids bytes decoded
       | Some token \<Rightarrow> (case parse_byte_token (tok_text token) of
             Some byte \<Rightarrow> decode_spm tk remove_special ids (bytes @ [char_of byte]) decoded
           | None \<Rightarrow> decode_spm tk remove_special ids [] (flush_bytes bytes decoded @ replace_spm_space (tok_text token))))"

definition decode :: "char_lib \<Rightarrow> Tokenizer \<Rightarrow> nat list \<Rightarrow> bool \<Rightarrow> string engine_result" where
  "decode lib tk ids remove_special =
     (if tk_model tk = Gpt2Bpe then decode_bpe lib tk ids remove_special else decode_spm tk remove_special ids [] [])"

section \<open>Incremental decoding\<close>

record IncrementalDecoder =
  inc_ids :: "nat list"
  inc_emitted :: string

definition incremental_decoder :: IncrementalDecoder where
  "incremental_decoder = \<lparr>inc_ids = [], inc_emitted = []\<rparr>"

definition strip_prefix :: "string \<Rightarrow> string \<Rightarrow> string option" where
  "strip_prefix p s = (if starts_with s p then Some (drop (length p) s) else None)"

definition push :: "char_lib \<Rightarrow> Tokenizer \<Rightarrow> bool \<Rightarrow> nat \<Rightarrow> IncrementalDecoder \<Rightarrow> string engine_result \<times> IncrementalDecoder" where
  "push lib tk remove_special tid d = (let ids = inc_ids d @ [tid] in
     case decode lib tk ids remove_special of
       Inl e \<Rightarrow> (Inl e, d)
     | Inr decoded \<Rightarrow> (case strip_prefix (inc_emitted d) decoded of
           None \<Rightarrow> (Inl (InvalidTokenizerMetadata ''incremental decode changed an already-emitted text prefix''), d)
         | Some delta \<Rightarrow> (Inr delta, \<lparr>inc_ids = ids, inc_emitted = decoded\<rparr>)))"

section \<open>Byte-level BPE encoding\<close>

text \<open>\<^verbatim>\<open>is_char_boundary\<close> of the position where \<open>s\<close> starts.\<close>

definition at_boundary :: "string \<Rightarrow> bool" where
  "at_boundary s \<longleftrightarrow> (case s of [] \<Rightarrow> True | c # _ \<Rightarrow> \<not> continuation c)"

definition is_control_token :: "bool \<Rightarrow> Token \<Rightarrow> bool" where
  "is_control_token include_control token \<longleftrightarrow> tok_kind token = UserDefined \<or> include_control \<and> tok_kind token = Control"

text \<open>\<^verbatim>\<open>max_by_key\<close>: the last of the longest.\<close>

definition max_by_length :: "Token list \<Rightarrow> Token option" where
  "max_by_length tokens = (case tokens of [] \<Rightarrow> None
     | t # ts \<Rightarrow> Some (fold (\<lambda>x best. if length (tok_text best) \<le> length (tok_text x) then x else best) ts t))"

definition longest_control_token_at :: "Tokenizer \<Rightarrow> string \<Rightarrow> bool \<Rightarrow> (string \<times> nat) option" where
  "longest_control_token_at tk s include_control =
     (if \<not> at_boundary s then None
      else map_option (\<lambda>token. (tok_text token, length (tok_text token)))
        (max_by_length (filter (\<lambda>token. is_control_token include_control token \<and> tok_text token \<noteq> []
           \<and> starts_with s (tok_text token)) (tk_tokens tk))))"

text \<open>How far the next such token is.\<close>

function next_control_token_start :: "Tokenizer \<Rightarrow> string \<Rightarrow> bool \<Rightarrow> nat option" where
  "next_control_token_start tk s include_control =
     (if s = [] then None
      else if longest_control_token_at tk s include_control \<noteq> None then Some 0
      else map_option (\<lambda>n. char_width s + n) (next_control_token_start tk (drop (char_width s) s) include_control))"
  by pat_completeness auto
termination by (relation "measure (\<lambda>(tk, s, c). length s)") (auto simp: char_width_pos)

declare next_control_token_start.simps [simp del]

fun symbol_ids :: "char_lib \<Rightarrow> Tokenizer \<Rightarrow> string list \<Rightarrow> nat list engine_result" where
  "symbol_ids lib tk [] = Inr []"
| "symbol_ids lib tk (symbol # symbols) =
     and_then (ok_or (InvalidTokenizerMetadata (''GPT-2/BPE token '' @ debug_string lib symbol
                 @ '' is missing from tokenizer.ggml.tokens'')) (token_id tk symbol)) (\<lambda>i.
     and_then (symbol_ids lib tk symbols) (\<lambda>ids. Inr (i # ids)))"

definition encode_bpe_segment :: "char_lib \<Rightarrow> Tokenizer \<Rightarrow> string \<Rightarrow> nat list engine_result" where
  "encode_bpe_segment lib tk segment =
     (if segment = [] then Inr []
      else symbol_ids lib tk (merge_symbols (tk_bpe_registry tk)
             (map (\<lambda>byte. char_string (bpe_byte_to_char (char_code byte))) segment)))"

fun encode_segments :: "char_lib \<Rightarrow> Tokenizer \<Rightarrow> string list \<Rightarrow> nat list engine_result" where
  "encode_segments lib tk [] = Inr []"
| "encode_segments lib tk (segment # segments) =
     and_then (encode_bpe_segment lib tk segment) (\<lambda>ids.
     and_then (encode_segments lib tk segments) (\<lambda>rest. Inr (ids @ rest)))"

text \<open>The loop; it does not return (\<open>None\<close>) when a control token that starts the text has no id.\<close>

partial_function (option) encode_bpe_text ::
  "char_lib \<Rightarrow> Tokenizer \<Rightarrow> bool \<Rightarrow> string \<Rightarrow> nat list \<Rightarrow> nat list engine_result option" where
  "encode_bpe_text lib tk parse_special s out =
     (if s = [] then Some (Inr out)
      else (case Option.bind (longest_control_token_at tk s parse_special) (\<lambda>(t, n). map_option (\<lambda>i. (i, n)) (token_id tk t)) of
          Some (i, n) \<Rightarrow> encode_bpe_text lib tk parse_special (drop n s) (out @ [i])
        | None \<Rightarrow> (let byte_end = (case next_control_token_start tk s parse_special of None \<Rightarrow> length s | Some n \<Rightarrow> n) in
            case encode_segments lib tk (bpe_pretokenize_with lib (tk_pre tk) (take byte_end s)) of
              Inl e \<Rightarrow> Some (Inl e)
            | Inr ids \<Rightarrow> encode_bpe_text lib tk parse_special (drop byte_end s) (out @ ids))))"

end
