(* ===== verification/Float32.thy ===== *)
theory Float32
  imports Prelude
begin

text \<open>
  The arithmetic of \<^verbatim>\<open>f32\<close> on bit patterns, as IEEE 754 and the Rust reference define it: every
  operation is the exact result rounded to nearest, ties to even. A finite value is a sign
  and a magnitude counted in the least positive value of its format, so that magnitudes are
  natural numbers and rounding is division. Rust leaves the bits of a not-a-number result
  open; the one result here is the quiet pattern without payload.

  A format is given by the number \<open>p\<close> of its fraction bits.
\<close>

section \<open>Rounding\<close>

fun bit_length :: "nat \<Rightarrow> nat" where
  "bit_length n = (if n = 0 then 0 else Suc (bit_length (n div 2)))"

declare bit_length.simps [simp del]

lemma bit_length_0 [simp]: "bit_length 0 = 0"
  by (simp add: bit_length.simps)

lemma bit_length_upper: "n < 2 ^ bit_length n"
proof (induction n rule: bit_length.induct)
  case (1 n)
  then show ?case by (cases "n = 0") (simp_all add: bit_length.simps [of n])
qed

lemma bit_length_lower: "0 < n \<Longrightarrow> 2 ^ (bit_length n - 1) \<le> n"
proof (induction n rule: bit_length.induct)
  case (1 n)
  show ?case
  proof (cases "n div 2 = 0")
    case True
    then have "n = 1" using 1 by linarith
    then show ?thesis by (simp add: bit_length.simps)
  next
    case False
    then have "2 ^ (bit_length (n div 2) - 1) \<le> n div 2" using 1 by simp
    moreover have "bit_length (n div 2) = Suc (bit_length (n div 2) - 1)" using False by (simp add: bit_length.simps)
    then have "(2 :: nat) ^ bit_length (n div 2) = 2 * 2 ^ (bit_length (n div 2) - 1)" by (metis power_Suc)
    ultimately show ?thesis using 1 by (simp add: bit_length.simps [of n])
  qed
qed

text \<open>\<open>n / 2 ^ k\<close> rounded to the nearest integer, ties to even.\<close>

definition round_even :: "nat \<Rightarrow> nat \<Rightarrow> nat" where
  "round_even n k =
     (let q = n div 2 ^ k; r = n mod 2 ^ k in
      if 2 * r > 2 ^ k \<or> (2 * r = 2 ^ k \<and> odd q) then q + 1 else q)"

text \<open>The encoding, without its sign, of the value \<open>n / 2 ^ k\<close>; the exponent is not bounded yet.\<close>

definition fp_round :: "nat \<Rightarrow> nat \<Rightarrow> nat \<Rightarrow> nat" where
  "fp_round p n k =
     (let s = bit_length (n div 2 ^ k) - (p + 1) in s * 2 ^ p + round_even n (k + s))"

text \<open>The magnitude that an encoding stands for.\<close>

definition magnitude :: "nat \<Rightarrow> nat \<Rightarrow> nat" where
  "magnitude p b = (if b div 2 ^ p = 0 then b mod 2 ^ p else (2 ^ p + b mod 2 ^ p) * 2 ^ (b div 2 ^ p - 1))"

section \<open>Fields\<close>

type_synonym f32 = "32 word"

definition f32_magnitude :: "f32 \<Rightarrow> nat" where
  "f32_magnitude w = unat w mod 2 ^ 31"

definition f32_is_nan :: "f32 \<Rightarrow> bool" where
  "f32_is_nan w \<longleftrightarrow> f32_magnitude w > 0x7F800000"

definition f32_is_inf :: "f32 \<Rightarrow> bool" where
  "f32_is_inf w \<longleftrightarrow> f32_magnitude w = 0x7F800000"

definition f32_is_finite :: "f32 \<Rightarrow> bool" where
  "f32_is_finite w \<longleftrightarrow> f32_magnitude w < 0x7F800000"

definition f32_negative :: "f32 \<Rightarrow> bool" where
  "f32_negative w \<longleftrightarrow> unat w \<ge> 2 ^ 31"

text \<open>A finite value in units of \<open>2 ^ - 149\<close>.\<close>

definition f32_units :: "f32 \<Rightarrow> nat" where
  "f32_units w = magnitude 23 (f32_magnitude w)"

definition f32_make :: "bool \<Rightarrow> nat \<Rightarrow> f32" where
  "f32_make negative m = word_of_nat ((if negative then 2 ^ 31 else 0) + min m 0x7F800000)"

definition f32_NAN :: f32 where "f32_NAN = 0x7FC00000"
definition f32_INFINITY :: f32 where "f32_INFINITY = 0x7F800000"
definition f32_NEG_INFINITY :: f32 where "f32_NEG_INFINITY = 0xFF800000"

text \<open>The value \<open>n / 2 ^ k\<close> units, rounded; overflow is an infinity.\<close>

definition f32_round :: "bool \<Rightarrow> nat \<Rightarrow> nat \<Rightarrow> f32" where
  "f32_round negative n k = f32_make negative (fp_round 23 n k)"

section \<open>Comparison\<close>

text \<open>A not-a-number compares with nothing, the two zeros are equal.\<close>

definition f32_key :: "f32 \<Rightarrow> int" where
  "f32_key w = (if unat w \<ge> 2 ^ 31 then - int (f32_magnitude w) else int (f32_magnitude w))"

definition f32_lt :: "f32 \<Rightarrow> f32 \<Rightarrow> bool" where
  "f32_lt a b \<longleftrightarrow> \<not> f32_is_nan a \<and> \<not> f32_is_nan b \<and> f32_key a < f32_key b"

definition f32_eq :: "f32 \<Rightarrow> f32 \<Rightarrow> bool" where
  "f32_eq a b \<longleftrightarrow> \<not> f32_is_nan a \<and> \<not> f32_is_nan b \<and> f32_key a = f32_key b"

definition f32_le :: "f32 \<Rightarrow> f32 \<Rightarrow> bool" where
  "f32_le a b \<longleftrightarrow> f32_lt a b \<or> f32_eq a b"

text \<open>\<^verbatim>\<open>f32::max\<close> and \<^verbatim>\<open>f32::min\<close> drop a not-a-number.\<close>

definition f32_max :: "f32 \<Rightarrow> f32 \<Rightarrow> f32" where
  "f32_max a b = (if f32_is_nan a then b else if f32_is_nan b then a else if f32_lt a b then b else a)"

definition f32_min :: "f32 \<Rightarrow> f32 \<Rightarrow> f32" where
  "f32_min a b = (if f32_is_nan a then b else if f32_is_nan b then a else if f32_lt b a then b else a)"

section \<open>Arithmetic\<close>

definition f32_neg :: "f32 \<Rightarrow> f32" where "f32_neg a = a + 2 ^ 31"

definition f32_abs :: "f32 \<Rightarrow> f32" where "f32_abs a = word_of_nat (f32_magnitude a)"

definition f32_signed :: "f32 \<Rightarrow> int" where
  "f32_signed a = (if f32_negative a then - int (f32_units a) else int (f32_units a))"

text \<open>The sum of two values that cancel is the positive zero, unless both were negative zeros.\<close>

definition f32_add :: "f32 \<Rightarrow> f32 \<Rightarrow> f32" where
  "f32_add a b =
     (if f32_is_nan a \<or> f32_is_nan b then f32_NAN
      else if f32_is_inf a then (if f32_is_inf b \<and> f32_negative a \<noteq> f32_negative b then f32_NAN else a)
      else if f32_is_inf b then b
      else let z = f32_signed a + f32_signed b in
        if z = 0 then f32_make (f32_negative a \<and> f32_negative b) 0
        else f32_round (z < 0) (nat \<bar>z\<bar>) 0)"

definition f32_sub :: "f32 \<Rightarrow> f32 \<Rightarrow> f32" where
  "f32_sub a b = f32_add a (if f32_is_nan b then b else f32_neg b)"

definition f32_mul :: "f32 \<Rightarrow> f32 \<Rightarrow> f32" where
  "f32_mul a b =
     (let negative = (f32_negative a \<noteq> f32_negative b) in
      if f32_is_nan a \<or> f32_is_nan b then f32_NAN
      else if f32_is_inf a \<or> f32_is_inf b
      then (if f32_magnitude a = 0 \<or> f32_magnitude b = 0 then f32_NAN else f32_make negative 0x7F800000)
      else f32_round negative (f32_units a * f32_units b) 149)"

text \<open>A quotient to one bit below the unit, with a further bit that tells whether anything is left.\<close>

definition f32_div :: "f32 \<Rightarrow> f32 \<Rightarrow> f32" where
  "f32_div a b =
     (let negative = (f32_negative a \<noteq> f32_negative b); n = f32_units a * 2 ^ 150; d = f32_units b in
      if f32_is_nan a \<or> f32_is_nan b \<or> (f32_is_inf a \<and> f32_is_inf b) \<or> (f32_magnitude a = 0 \<and> f32_magnitude b = 0) then f32_NAN
      else if f32_is_inf a \<or> f32_magnitude b = 0 then f32_make negative 0x7F800000
      else if f32_is_inf b then f32_make negative 0
      else f32_round negative (2 * (n div d) + (if n mod d = 0 then 0 else 1)) 2)"

text \<open>The integer square root, bit by bit: \<open>r\<close> is the root of the bits so far.\<close>

fun isqrt_from :: "nat \<Rightarrow> nat \<Rightarrow> nat \<Rightarrow> nat" where
  "isqrt_from n 0 r = r"
| "isqrt_from n (Suc i) r = (if (r + 2 ^ i) * (r + 2 ^ i) \<le> n then isqrt_from n i (r + 2 ^ i) else isqrt_from n i r)"

definition isqrt :: "nat \<Rightarrow> nat" where
  "isqrt n = isqrt_from n (Suc (bit_length n div 2)) 0"

definition f32_sqrt :: "f32 \<Rightarrow> f32" where
  "f32_sqrt a =
     (let n = f32_units a * 2 ^ 151; q = isqrt n in
      if f32_is_nan a then f32_NAN
      else if f32_magnitude a = 0 then a
      else if f32_negative a then f32_NAN
      else if f32_is_inf a then a
      else f32_round False (2 * q + (if q * q = n then 0 else 1)) 2)"

section \<open>Conversion\<close>

text \<open>\<^verbatim>\<open>as f32\<close> of an integer, and of an \<^verbatim>\<open>f64\<close>, whose unit is \<open>2 ^ - 1074\<close>.\<close>

definition f32_of_int :: "int \<Rightarrow> f32" where
  "f32_of_int i = f32_round (i < 0) (nat \<bar>i\<bar> * 2 ^ 149) 0"

definition f64_as_f32 :: "64 word \<Rightarrow> f32" where
  "f64_as_f32 w =
     (let negative = (unat w \<ge> 2 ^ 63); m = unat w mod 2 ^ 63 in
      if m > 0x7FF0000000000000 then f32_NAN
      else if m = 0x7FF0000000000000 then f32_make negative 0x7F800000
      else f32_round negative (magnitude 52 m) 925)"

text \<open>\<^verbatim>\<open>f32::round\<close>: to the nearest integer, ties away from zero. The unit \<open>2 ^ 149\<close> is one.\<close>

definition f32_round_integer :: "f32 \<Rightarrow> f32" where
  "f32_round_integer a =
     (if \<not> f32_is_finite a then a
      else f32_round (f32_negative a) ((2 * f32_units a + 2 ^ 149) div 2 ^ 150 * 2 ^ 149) 0)"

text \<open>\<^verbatim>\<open>f32::floor\<close> and \<^verbatim>\<open>f32::ceil\<close>; the sign is kept, also of a zero.\<close>

definition f32_truncated :: "bool \<Rightarrow> f32 \<Rightarrow> f32" where
  "f32_truncated away a =
     (if \<not> f32_is_finite a then a
      else let q = f32_units a div 2 ^ 149; exact = (f32_units a mod 2 ^ 149 = 0) in
        f32_round (f32_negative a) ((if away \<and> \<not> exact then q + 1 else q) * 2 ^ 149) 0)"

definition f32_floor :: "f32 \<Rightarrow> f32" where "f32_floor a = f32_truncated (f32_negative a) a"
definition f32_ceil :: "f32 \<Rightarrow> f32" where "f32_ceil a = f32_truncated (\<not> f32_negative a) a"

text \<open>\<^verbatim>\<open>as i8\<close>: truncated, saturated, and zero for a not-a-number.\<close>

definition f32_as_i8 :: "f32 \<Rightarrow> int" where
  "f32_as_i8 a =
     (if f32_is_nan a then 0
      else let m = (if f32_is_inf a then 128 else min 128 (f32_units a div 2 ^ 149)) in
        if f32_negative a then - int m else min 127 (int m))"

text \<open>\<^verbatim>\<open>f32::clamp\<close>: a not-a-number stays one.\<close>

definition f32_clamp :: "f32 \<Rightarrow> f32 \<Rightarrow> f32 \<Rightarrow> f32" where
  "f32_clamp a lo hi = (if f32_lt a lo then lo else if f32_lt hi a then hi else a)"

end
