(* ===== verification/Spm.thy ===== *)
theory Spm
  imports Tokenizer Float32
begin

text \<open>
  SentencePiece encoding (\<^verbatim>\<open>engine-core/src/tokenizer.rs\<close>): the normalization with its dummy
  prefixes, the merge by score, the greedy fallback with its byte tokens, the piece
  loop around control tokens, and \<^verbatim>\<open>Tokenizer::encode\<close> over both families.
\<close>

section \<open>Normalization\<close>

definition should_insert_dummy_after_control :: "Tokenizer \<Rightarrow> string \<Rightarrow> string \<Rightarrow> bool \<Rightarrow> bool" where
  "should_insert_dummy_after_control tk t rest next_is_control =
     (let inst = token_id tk ''[INST]'' \<noteq> None \<and> token_id tk ''[/INST]'' \<noteq> None in
      if rest = [] \<or> next_is_control then False
      else if token_text tk (sp_bos (tk_special tk)) = Some t \<and> starts_with rest ''[INST]'' \<and> inst then False
      else if t = ''[INST]'' \<and> inst then True
      else \<not> starts_with rest SPM_SPACE)"

lemma max_by_length_member: "max_by_length tokens = Some token \<Longrightarrow> token \<in> set tokens"
proof -
  have "fold (\<lambda>x best. if length (tok_text best) \<le> length (tok_text x) then x else best) ts t \<in> insert t (set ts)" for t ts
  proof (induction ts arbitrary: t)
    case (Cons a ts)
    from Cons.IH [of "if length (tok_text t) \<le> length (tok_text a) then a else t"] show ?case by (auto split: if_splits)
  qed simp
  then show "max_by_length tokens = Some token \<Longrightarrow> token \<in> set tokens" by (auto simp: max_by_length_def split: list.splits)
qed

lemma longest_control_token:
  assumes "longest_control_token_at tk s include_control = Some (x, n)"
  shows "\<exists>token \<in> set (tk_tokens tk). is_control_token include_control token \<and> x = tok_text token \<and> n = length x \<and> x \<noteq> [] \<and> starts_with s x"
proof -
  from assms obtain token where token: "max_by_length (filter (\<lambda>token. is_control_token include_control token \<and> tok_text token \<noteq> []
           \<and> starts_with s (tok_text token)) (tk_tokens tk)) = Some token" "x = tok_text token" "n = length x"
    by (auto simp: longest_control_token_at_def split: if_splits)
  from max_by_length_member [OF token(1)] token(2,3) show ?thesis by auto
qed

function dummies_after_control :: "Tokenizer \<Rightarrow> string \<Rightarrow> string" where
  "dummies_after_control tk s =
     (if s = [] then []
      else (case longest_control_token_at tk s True of
          Some (t, n) \<Rightarrow> (let rest = drop n s; next_is_control = longest_control_token_at tk rest True \<noteq> None in
            t @ (if should_insert_dummy_after_control tk t rest next_is_control then SPM_SPACE else [])
              @ dummies_after_control tk rest)
        | None \<Rightarrow> take (char_width s) s @ dummies_after_control tk (drop (char_width s) s)))"
  by pat_completeness auto
termination
  by (relation "measure (length \<circ> snd)") (auto simp: char_width_pos dest!: longest_control_token)

declare dummies_after_control.simps [simp del]

definition add_dummy_prefix_after_control_tokens :: "Tokenizer \<Rightarrow> string \<Rightarrow> string" where
  "add_dummy_prefix_after_control_tokens tk s =
     (if \<not> add_space_prefix (tk_config tk) \<or> s = [] then s else dummies_after_control tk s)"

definition normalize_spm_text :: "Tokenizer \<Rightarrow> string \<Rightarrow> bool \<Rightarrow> string" where
  "normalize_spm_text tk s parse_special =
     (if s = [] then []
      else let normalized =
            (if add_space_prefix (tk_config tk) \<and> \<not> (parse_special \<and> longest_control_token_at tk s True \<noteq> None)
             then SPM_SPACE else [])
            @ concat (map (\<lambda>c. if c = '' '' then SPM_SPACE else c) (chars s)) in
        if parse_special then normalized else add_dummy_prefix_after_control_tokens tk normalized)"

section \<open>The greedy fallback\<close>

definition hex_upper :: "nat \<Rightarrow> string" where
  "hex_upper b = [''0123456789ABCDEF'' ! (b div 16), ''0123456789ABCDEF'' ! (b mod 16)]"

fun encode_unknown_symbol_bytes :: "Tokenizer \<Rightarrow> string \<Rightarrow> nat list engine_result" where
  "encode_unknown_symbol_bytes tk [] = Inr []"
| "encode_unknown_symbol_bytes tk (b # bytes) =
     (case or_else (map_of (tk_byte_token_to_id tk) (char_code b)) (sp_unk (tk_special tk)) of
        None \<Rightarrow> Inl (InvalidTokenizerMetadata (''SPM byte fallback token <0x'' @ hex_upper (char_code b) @ ''> is missing''))
      | Some i \<Rightarrow> and_then (encode_unknown_symbol_bytes tk bytes) (\<lambda>ids. Inr (i # ids)))"

text \<open>Where the characters of a text end.\<close>

fun char_ends :: "nat \<Rightarrow> string list \<Rightarrow> nat list" where
  "char_ends offset [] = []"
| "char_ends offset (c # cs) = (offset + length c) # char_ends (offset + length c) cs"

definition double_space :: string where "double_space = SPM_SPACE @ SPM_SPACE"

text \<open>The longest prefix that is a token; a later one of the same length needs a greater score.\<close>

definition better_piece :: "Tokenizer \<Rightarrow> string \<Rightarrow> nat \<Rightarrow> (nat \<times> nat \<times> 32 word) option \<Rightarrow> (nat \<times> nat \<times> 32 word) option" where
  "better_piece tk piece byte_end best = (let candidate = take byte_end piece in
     if str_contains candidate double_space then best
     else (case token_id tk candidate of
         None \<Rightarrow> best
       | Some i \<Rightarrow> let score = tok_score (tk_tokens tk ! i) in
           (case best of
              Some (best_len, _, best_score) \<Rightarrow>
                if byte_end < best_len \<or> byte_end = best_len \<and> f32_le score best_score then best else Some (byte_end, i, score)
            | None \<Rightarrow> Some (byte_end, i, score))))"

definition best_piece :: "Tokenizer \<Rightarrow> string \<Rightarrow> (nat \<times> nat \<times> 32 word) option" where
  "best_piece tk piece = fold (better_piece tk piece) (char_ends 0 (chars piece)) None"

lemma char_ends_pos: "\<forall>c \<in> set cs. c \<noteq> [] \<Longrightarrow> n \<in> set (char_ends offset cs) \<Longrightarrow> offset < n"
  by (induction offset cs rule: char_ends.induct) fastforce+

lemma better_piece_cases:
  "better_piece tk piece e best = best \<or> (\<exists>i score. token_id tk (take e piece) = Some i \<and> better_piece tk piece e best = Some (e, i, score))"
  by (cases "token_id tk (take e piece)"; cases best) (auto simp: better_piece_def Let_def)

definition piece_ok :: "Tokenizer \<Rightarrow> string \<Rightarrow> (nat \<times> nat \<times> 32 word) option \<Rightarrow> bool" where
  "piece_ok tk piece best = (case best of None \<Rightarrow> True | Some (n, i, score) \<Rightarrow> 0 < n \<and> token_id tk (take n piece) = Some i)"

lemma better_piece_ok:
  assumes "piece_ok tk piece best" "0 < e"
  shows "piece_ok tk piece (better_piece tk piece e best)"
  using better_piece_cases [of tk piece e best]
proof
  assume "better_piece tk piece e best = best"
  with assms(1) show ?thesis by simp
next
  assume "\<exists>i score. token_id tk (take e piece) = Some i \<and> better_piece tk piece e best = Some (e, i, score)"
  then obtain i score where "token_id tk (take e piece) = Some i" "better_piece tk piece e best = Some (e, i, score)" by blast
  then show ?thesis using assms(2) by (simp add: piece_ok_def)
qed

lemma best_piece_spec:
  assumes "best_piece tk piece = Some (n, i, score)"
  shows "0 < n \<and> token_id tk (take n piece) = Some i"
proof -
  have "piece_ok tk piece (fold (better_piece tk piece) es best)" if "\<forall>e \<in> set es. 0 < e" "piece_ok tk piece best" for es best
    using that by (induction es arbitrary: best) (simp_all add: better_piece_ok)
  moreover have "\<forall>e \<in> set (char_ends 0 (chars piece)). 0 < e" using char_ends_pos chars_nonempty by blast
  moreover have "piece_ok tk piece None" by (simp add: piece_ok_def)
  ultimately have "piece_ok tk piece (best_piece tk piece)" unfolding best_piece_def by blast
  with assms show ?thesis by (simp add: piece_ok_def)
qed

function encode_piece_greedy :: "Tokenizer \<Rightarrow> string \<Rightarrow> nat list engine_result" where
  "encode_piece_greedy tk piece =
     (if piece = [] then Inr []
      else (case best_piece tk piece of
          Some (n, i, score) \<Rightarrow> and_then (encode_piece_greedy tk (drop n piece)) (\<lambda>ids. Inr (i # ids))
        | None \<Rightarrow> and_then (encode_unknown_symbol_bytes tk (take (char_width piece) piece)) (\<lambda>bytes.
            and_then (encode_piece_greedy tk (drop (char_width piece) piece)) (\<lambda>ids. Inr (bytes @ ids)))))"
  by pat_completeness auto
termination
  by (relation "measure (length \<circ> snd)") (auto simp: char_width_pos dest: best_piece_spec)

declare encode_piece_greedy.simps [simp del]

section \<open>Merging by score\<close>

text \<open>One turn of the search: the best pair so far and the pair at \<open>idx\<close>.\<close>

definition better_pair :: "Tokenizer \<Rightarrow> string list \<Rightarrow> nat \<Rightarrow> (32 word \<times> nat) option \<Rightarrow> (32 word \<times> nat) option" where
  "better_pair tk symbols idx best = (let candidate = symbols ! idx @ symbols ! (idx + 1) in
     if str_contains candidate double_space then best
     else (case token_id tk candidate of
         None \<Rightarrow> best
       | Some i \<Rightarrow> let score = tok_score (tk_tokens tk ! i) in
           (case best of
              Some (best_score, best_idx) \<Rightarrow>
                if f32_lt score best_score \<or> f32_eq score best_score \<and> best_idx \<le> idx then best else Some (score, idx)
            | None \<Rightarrow> Some (score, idx))))"

definition best_pair :: "Tokenizer \<Rightarrow> string list \<Rightarrow> (32 word \<times> nat) option" where
  "best_pair tk symbols = fold (better_pair tk symbols) [0 ..< length symbols - 1] None"

lemma better_pair_cases:
  "better_pair tk symbols idx best = best \<or> (\<exists>score. better_pair tk symbols idx best = Some (score, idx)
      \<and> token_id tk (symbols ! idx @ symbols ! (idx + 1)) \<noteq> None)"
  by (cases "token_id tk (symbols ! idx @ symbols ! (idx + 1))"; cases best) (auto simp: better_pair_def Let_def)

definition pair_ok :: "Tokenizer \<Rightarrow> string list \<Rightarrow> (32 word \<times> nat) option \<Rightarrow> bool" where
  "pair_ok tk symbols best = (case best of None \<Rightarrow> True
     | Some (score, idx) \<Rightarrow> idx + 1 < length symbols \<and> token_id tk (symbols ! idx @ symbols ! (idx + 1)) \<noteq> None)"

lemma better_pair_ok:
  assumes "pair_ok tk symbols best" "idx < length symbols - 1"
  shows "pair_ok tk symbols (better_pair tk symbols idx best)"
  using better_pair_cases [of tk symbols idx best]
proof
  assume "better_pair tk symbols idx best = best"
  with assms(1) show ?thesis by simp
next
  assume "\<exists>score. better_pair tk symbols idx best = Some (score, idx) \<and> token_id tk (symbols ! idx @ symbols ! (idx + 1)) \<noteq> None"
  then show ?thesis using assms(2) by (auto simp: pair_ok_def)
qed

lemma best_pair_spec:
  assumes "best_pair tk symbols = Some (score, idx)"
  shows "idx + 1 < length symbols \<and> token_id tk (symbols ! idx @ symbols ! (idx + 1)) \<noteq> None"
proof -
  have "pair_ok tk symbols (fold (better_pair tk symbols) idxs best)"
    if "\<forall>idx \<in> set idxs. idx < length symbols - 1" "pair_ok tk symbols best" for idxs best
    using that by (induction idxs arbitrary: best) (simp_all add: better_pair_ok)
  moreover have "\<forall>idx \<in> set [0 ..< length symbols - 1]. idx < length symbols - 1" by simp
  moreover have "pair_ok tk symbols None" by (simp add: pair_ok_def)
  ultimately have "pair_ok tk symbols (best_pair tk symbols)" unfolding best_pair_def by blast
  with assms show ?thesis by (simp add: pair_ok_def)
qed

text \<open>\<^verbatim>\<open>symbols[idx] = left + right; symbols.remove(idx + 1)\<close>\<close>

definition merge_at :: "nat \<Rightarrow> string list \<Rightarrow> string list" where
  "merge_at idx symbols = take idx symbols @ [symbols ! idx @ symbols ! (idx + 1)] @ drop (idx + 2) symbols"

lemma merge_at_length: "idx + 1 < length symbols \<Longrightarrow> length (merge_at idx symbols) < length symbols"
  by (simp add: merge_at_def)

function merge_by_score :: "Tokenizer \<Rightarrow> string list \<Rightarrow> string list" where
  "merge_by_score tk symbols = (case best_pair tk symbols of
       None \<Rightarrow> symbols
     | Some (score, idx) \<Rightarrow> merge_by_score tk (merge_at idx symbols))"
  by pat_completeness auto
termination
proof (relation "measure (length \<circ> snd)")
  fix tk symbols found score idx
  assume "best_pair tk symbols = Some found" "(score, idx) = found"
  then have "idx + 1 < length symbols" using best_pair_spec by blast
  then show "((tk, merge_at idx symbols), tk, symbols) \<in> measure (length \<circ> snd)" by (simp add: merge_at_length)
qed simp

declare merge_by_score.simps [simp del]

definition merge_spm_symbols_by_score :: "Tokenizer \<Rightarrow> string \<Rightarrow> string list" where
  "merge_spm_symbols_by_score tk segment = merge_by_score tk (chars segment)"

section \<open>Segments and pieces\<close>

definition greedy_unresolved :: "Tokenizer \<Rightarrow> string \<Rightarrow> nat list engine_result" where
  "greedy_unresolved tk unresolved = (if unresolved = [] then Inr [] else encode_piece_greedy tk unresolved)"

fun resolve_symbols :: "Tokenizer \<Rightarrow> string list \<Rightarrow> string \<Rightarrow> nat list engine_result" where
  "resolve_symbols tk [] unresolved = greedy_unresolved tk unresolved"
| "resolve_symbols tk (symbol # symbols) unresolved =
     (if tk_bpe_ranks tk = [] \<and> str_contains symbol double_space then resolve_symbols tk symbols (unresolved @ symbol)
      else (case token_id tk symbol of
          None \<Rightarrow> resolve_symbols tk symbols (unresolved @ symbol)
        | Some i \<Rightarrow> and_then (greedy_unresolved tk unresolved) (\<lambda>ids.
            and_then (resolve_symbols tk symbols []) (\<lambda>rest. Inr (ids @ i # rest)))))"

definition encode_spm_segment :: "Tokenizer \<Rightarrow> string \<Rightarrow> nat list engine_result" where
  "encode_spm_segment tk segment =
     (if segment = [] then Inr []
      else resolve_symbols tk
        (if tk_bpe_ranks tk = [] then merge_spm_symbols_by_score tk segment
         else merge_symbols (tk_bpe_registry tk) (chars segment)) [])"

text \<open>The loop of \<^verbatim>\<open>encode_piece\<close>; \<open>None\<close> when it does not return.\<close>

partial_function (option) encode_piece_loop :: "Tokenizer \<Rightarrow> bool \<Rightarrow> string \<Rightarrow> nat list \<Rightarrow> nat list engine_result option" where
  "encode_piece_loop tk parse_special piece out =
     (if piece = [] then Some (Inr out)
      else (case (if parse_special then Option.bind (longest_control_token_at tk piece True)
                    (\<lambda>(t, n). map_option (\<lambda>i. (t, i, n)) (token_id tk t)) else None) of
          Some (t, i, n) \<Rightarrow>
            (let rest = drop n piece; next_is_control = longest_control_token_at tk rest True \<noteq> None;
                 dummy = (if add_space_prefix (tk_config tk) \<and> should_insert_dummy_after_control tk t rest next_is_control
                          then (case token_id tk SPM_SPACE of None \<Rightarrow> [] | Some d \<Rightarrow> [d]) else []) in
             encode_piece_loop tk parse_special rest (out @ i # dummy))
        | None \<Rightarrow>
            (let byte_end = (if parse_special
                   then (case next_control_token_start tk piece True of None \<Rightarrow> length piece | Some n \<Rightarrow> n) else length piece);
                 segment = take byte_end piece in
             case (if tk_bpe_ranks tk = [] \<and> \<not> parse_special then encode_piece_greedy tk segment else encode_spm_segment tk segment) of
               Inl e \<Rightarrow> Some (Inl e)
             | Inr ids \<Rightarrow> encode_piece_loop tk parse_special (drop byte_end piece) (out @ ids))))"

definition encode_piece :: "Tokenizer \<Rightarrow> string \<Rightarrow> bool \<Rightarrow> nat list engine_result option" where
  "encode_piece tk piece parse_special =
     (if tk_bpe_ranks tk = [] \<and> \<not> parse_special then Some (encode_piece_greedy tk piece)
      else encode_piece_loop tk parse_special piece [])"

section \<open>Encoding\<close>

definition encode :: "char_lib \<Rightarrow> Tokenizer \<Rightarrow> string \<Rightarrow> bool \<Rightarrow> bool \<Rightarrow> nat list engine_result option" where
  "encode lib tk s add_special parse_special =
     (let bos = (if add_special \<and> add_bos (tk_config tk) then (case sp_bos (tk_special tk) of None \<Rightarrow> [] | Some i \<Rightarrow> [i]) else []);
          eos = (if add_special \<and> add_eos (tk_config tk) then (case sp_eos (tk_special tk) of None \<Rightarrow> [] | Some i \<Rightarrow> [i]) else []) in
      map_option (\<lambda>r. and_then r (\<lambda>ids. Inr (bos @ ids @ eos)))
        (case tk_model tk of
           LlamaSpm \<Rightarrow> (let normalized = normalize_spm_text tk s parse_special in
             if normalized = [] then Some (Inr []) else encode_piece tk normalized parse_special)
         | Gpt2Bpe \<Rightarrow> if s = [] then Some (Inr []) else encode_bpe_text lib tk parse_special s []))"

definition chat_prompt_parse_special :: bool where
  "chat_prompt_parse_special = True"

end
