(* ===== verification/BpeLaws.thy ===== *)
theory BpeLaws
  imports Bpe
begin

text \<open>
  The laws of the byte-pair encoder's parts: merging keeps the text and stops only
  when no pair is in the table, the byte alphabet is a bijection, the pre-tokenizer
  cuts a text into nonempty pieces at character boundaries, and the table of
  combining marks is searched exactly.
\<close>

section \<open>Merging\<close>

lemma merge_pass_concat: "concat (merge_pass (left) right symbols) = concat symbols"
  by (induction left right symbols rule: merge_pass.induct) auto

lemma heap_pop_None: "heap_pop heap = None \<longleftrightarrow> heap = []"
  by (simp add: heap_pop_def split: list.splits)

definition mergeable :: "ranks \<Rightarrow> string list \<Rightarrow> nat \<Rightarrow> bool" where
  "mergeable table symbols i \<longleftrightarrow> Suc i < length symbols \<and> (\<exists>r. rank table (symbols ! i) (symbols ! Suc i) = Some r)"

lemma no_candidate: "merge_candidates table symbols = [] \<longleftrightarrow> (\<forall>i. \<not> mergeable table symbols i)"
proof -
  have "merge_candidates table symbols = [] \<longleftrightarrow> (\<forall>r i. \<lparr>cand_rank = r, cand_index = i\<rparr> \<notin> set (merge_candidates table symbols))"
    by (metis BpeMergeCandidate.surjective length_greater_0_conv nth_mem old.unit.exhaust empty_iff list.set(1))
  then show ?thesis unfolding merge_candidates_iff mergeable_def by blast
qed

lemma merging_keeps:
  "concat (merge_symbols table symbols) = concat symbols \<and> (\<forall>i. \<not> mergeable table (merge_symbols table symbols) i)"
proof (induction table symbols rule: merge_symbols.induct)
  case (1 table symbols)
  show ?case
  proof (cases "length symbols > 1")
    case False
    then show ?thesis by (simp add: merge_symbols.simps mergeable_def)
  next
    case True
    show ?thesis
    proof (cases "heap_pop (merge_candidates table symbols)")
      case None
      then have "\<forall>i. \<not> mergeable table symbols i" unfolding no_candidate [symmetric] by (simp add: heap_pop_None)
      with None show ?thesis by (simp add: merge_symbols.simps)
    next
      case (Some best)
      with 1 [of best] True show ?thesis by (subst (1 2) merge_symbols.simps) (simp add: merge_pass_concat)
    qed
  qed
qed

lemmas merging_keeps_the_text = merging_keeps [THEN conjunct1]

text \<open>Property C29: for every merge table and every list of symbols the merge loop ends, the symbols it leaves spell the same
  text, and no two neighbours among them are a pair of the table: it stops only when nothing can be merged.\<close>

theorem merging_ends_with_nothing_to_merge:
  "concat (merge_symbols table symbols) = concat symbols \<and> (\<forall>i. \<not> mergeable table (merge_symbols table symbols) i)"
  by (rule merging_keeps)

section \<open>The byte alphabet\<close>

lemma hidden_before:
  "b \<le> 256 \<Longrightarrow> length (filter (\<lambda>candidate. \<not> visible candidate) [0 ..< b]) =
     (if b \<le> 33 then b else if b \<le> 127 then 33 else if b \<le> 161 then b - 94 else if b \<le> 173 then 67 else 68)"
proof (induction b)
  case (Suc b)
  then show ?case by (auto simp: visible_def)
qed simp

lemma alphabet_formula:
  "b < 256 \<Longrightarrow> bpe_byte_to_char b =
     (if b < 33 then 256 + b else if b < 127 then b else if b < 161 then b + 162 else if b < 173 then b else if b = 173 then 323 else b)"
  using hidden_before [of b] by (auto simp: bpe_byte_to_char_def visible_def)

lemma byte_alphabet:
  "b < 256 \<Longrightarrow> bpe_byte_to_char b < 0x144 \<and> bpe_char_to_byte (bpe_byte_to_char b) = Some b"
  "bpe_char_to_byte ch = Some b \<longleftrightarrow> b < 256 \<and> bpe_byte_to_char b = ch"
proof -
  have inj: "b = b'" if "b < 256" "b' < 256" "bpe_byte_to_char b = bpe_byte_to_char b'" for b b'
    using that by (auto simp: alphabet_formula split: if_splits)
  have sound: "b < 256 \<and> bpe_byte_to_char b = ch" if "bpe_char_to_byte ch = Some b" for ch b
    using that by (auto simp: bpe_char_to_byte_def find_Some_iff)
  have complete: "bpe_char_to_byte (bpe_byte_to_char b) = Some b" if "b < 256" for b
  proof (cases "bpe_char_to_byte (bpe_byte_to_char b)")
    case None
    then show ?thesis using that by (auto simp: bpe_char_to_byte_def find_None_iff)
  next
    case (Some b')
    then show ?thesis using sound [OF Some] inj [of b' b] that by simp
  qed
  have "bpe_byte_to_char b < 0x144" if "b < 256" for b
    using that by (simp add: alphabet_formula)
  with sound complete show "b < 256 \<Longrightarrow> bpe_byte_to_char b < 0x144 \<and> bpe_char_to_byte (bpe_byte_to_char b) = Some b"
    "bpe_char_to_byte ch = Some b \<longleftrightarrow> b < 256 \<and> bpe_byte_to_char b = ch" by blast+
qed

text \<open>Also: the byte alphabet is a bijection: every byte has a character of its own, below U+0144, the inverse
  gives the byte back, and a character that is no byte's has no byte.\<close>

theorem byte_alphabet_is_a_bijection:
  "(\<forall>b \<in> {..< 256}. bpe_byte_to_char b < 0x144 \<and> bpe_char_to_byte (bpe_byte_to_char b) = Some b)
   \<and> (\<forall>ch b. bpe_char_to_byte ch = Some b \<longleftrightarrow> b < 256 \<and> bpe_byte_to_char b = ch)"
  using byte_alphabet by auto

theorem byte_alphabet_is_a_bijection_witness: "bpe_char_to_byte (bpe_byte_to_char 32) = Some 32"
  using byte_alphabet_is_a_bijection by auto

section \<open>Cutting at character boundaries\<close>

definition cut :: "nat \<Rightarrow> string \<Rightarrow> bool" where
  "cut n s \<longleftrightarrow> n \<le> length s \<and> is_utf8 (take n s)"

lemma cut_0 [simp]: "cut 0 s"
  by (simp add: cut_def)

lemma cut_rest: "is_utf8 s \<Longrightarrow> cut n s \<Longrightarrow> is_utf8 (drop n s)"
  unfolding cut_def by (metis append_take_drop_id is_utf8_append)

lemma cut_all: "is_utf8 s \<Longrightarrow> cut (length s) s"
  by (simp add: cut_def)

lemma cut_add: "cut a s \<Longrightarrow> cut b (drop a s) \<Longrightarrow> cut (a + b) s"
  by (auto simp: cut_def take_add is_utf8_append)

lemma cut_char: "is_utf8 s \<Longrightarrow> s \<noteq> [] \<Longrightarrow> cut (char_width s) s"
proof -
  assume s: "is_utf8 s" "s \<noteq> []"
  then obtain w where w: "utf8_next s = Scalar w" using is_utf8_step by blast
  have "utf8_next (take w s) = Scalar w" using utf8_next_take [OF w, of "[]"] by simp
  then have "is_utf8 (take w s)" by (simp add: is_utf8_scalar)
  with w show ?thesis using utf8_next_bounds [OF w] by (simp add: cut_def char_width_def)
qed

lemma cut_while: "is_utf8 s \<Longrightarrow> cut (consume_while P s) s"
proof (induction P s rule: consume_while.induct)
  case (1 P s)
  then show ?case
    by (subst consume_while.simps) (auto intro!: cut_add cut_char dest: cut_rest [OF _ cut_char])
qed

lemma cut_digits: "is_utf8 s \<Longrightarrow> cut (consume_digits lib n s) s"
proof (induction lib n s rule: consume_digits.induct)
  case (2 lib n s)
  then show ?case by (auto intro!: cut_add cut_char dest: cut_rest [OF _ cut_char])
qed simp

lemma cut_newline:
  "is_utf8 s \<Longrightarrow> last_newline_end s idx found = Some n \<Longrightarrow> found = Some n \<or> (\<exists>k. n = idx + k \<and> cut k s)"
proof (induction s idx found rule: last_newline_end.induct)
  case (1 s idx found)
  show ?case
  proof (cases "s = [] \<or> \<not> is_white (next_char s)")
    case False
    let ?w = "char_width s"
    have w: "cut ?w s" using 1(2) False by (intro cut_char) auto
    have "last_newline_end (drop ?w s) (idx + ?w) (if next_char s = 10 \<or> next_char s = 13 then Some (idx + ?w) else found) = Some n"
      using 1(3) False by (subst (asm) last_newline_end.simps) (simp add: Let_def)
    from 1(1) [OF False refl cut_rest [OF 1(2) w] this] w show ?thesis
      by (auto split: if_splits intro: cut_add simp: add.assoc)
  qed (use 1(3) in \<open>simp add: last_newline_end.simps\<close>)
qed

lemma to_ascii_lower_ascii: "char_code (to_ascii_lower c) < 128 \<longleftrightarrow> char_code c < 128"
  by (auto simp: to_ascii_lower_def Let_def char_code_def)

lemma ascii_case: "eq_ignore_ascii_case a b \<Longrightarrow> list_all (\<lambda>c. char_code c < 128) b \<Longrightarrow> list_all (\<lambda>c. char_code c < 128) a"
proof -
  assume eq: "eq_ignore_ascii_case a b" and b: "list_all (\<lambda>c. char_code c < 128) b"
  have "list_all (\<lambda>c. char_code c < 128) (map to_ascii_lower x) = list_all (\<lambda>c. char_code c < 128) x" for x
    by (simp add: list_all_iff to_ascii_lower_ascii)
  with eq b show ?thesis by (metis eq_ignore_ascii_case_def)
qed

lemma cut_contraction: "consume_contraction s = Some n \<Longrightarrow> cut n s"
proof -
  assume "consume_contraction s = Some n"
  then obtain suffix where suffix: "suffix \<in> set contractions" "n = length suffix" "n \<le> length s"
      "eq_ignore_ascii_case (take n s) suffix"
    by (auto simp: consume_contraction_def find_Some_iff) (metis nth_mem)
  have "list_all (\<lambda>c. char_code c < 128) suffix" using suffix(1) by (auto simp: contractions_def char_code_def)
  from ascii_is_utf8 [OF ascii_case [OF suffix(4) this]] suffix(3) show ?thesis by (simp add: cut_def)
qed

lemma chars_valid: "is_utf8 s \<Longrightarrow> \<forall>c \<in> set (chars s). is_utf8 c"
proof (induction s rule: chars.induct)
  case (1 s)
  show ?case
  proof (cases "s = []")
    case False
    note c = cut_char [OF 1(2) False]
    show ?thesis using 1(1) [OF False cut_rest [OF 1(2) c]] c False by (subst chars.simps) (auto simp: cut_def)
  qed (simp add: chars.simps)
qed

lemma concat_valid: "\<forall>c \<in> set cs. is_utf8 c \<Longrightarrow> is_utf8 (concat cs)"
  by (induction cs) (auto simp: is_utf8_append)

lemma cut_nonspace: "is_utf8 s \<Longrightarrow> cut (consume_whitespace_before_nonspace s) s"
proof -
  assume s: "is_utf8 s"
  let ?e = "consume_whitespace s" and ?cs = "chars (take (consume_whitespace s) s)"
  have e: "cut ?e s" unfolding consume_whitespace_def by (rule cut_while [OF s])
  then have e': "is_utf8 (take ?e s)" "?e \<le> length s" by (simp_all add: cut_def)
  have "cut (?e - length (last ?cs)) s" if "length ?cs > 1"
  proof -
    have ne: "?cs \<noteq> []" using that by auto
    have "concat (butlast ?cs) @ last ?cs = take ?e s"
      using chars_concat [of "take ?e s"] append_butlast_last_id [OF ne] concat_append [of "butlast ?cs" "[last ?cs]"] by simp
    then have "concat (butlast ?cs) = take (?e - length (last ?cs)) s"
      using e'(2) by (metis append_eq_conv_conj diff_le_self length_append length_take min.absorb2 take_take add_diff_cancel_right')
    moreover have "is_utf8 (concat (butlast ?cs))"
      by (rule concat_valid) (use chars_valid [OF e'(1)] in \<open>auto dest: in_set_butlastD\<close>)
    ultimately show ?thesis using e'(2) by (simp add: cut_def)
  qed
  with e show ?thesis by (auto simp: consume_whitespace_before_nonspace_def Let_def)
qed

lemma segment_cut:
  assumes s: "is_utf8 s" "s \<noteq> []"
  shows "cut (next_llama_bpe_segment_end lib n fold_marks s) s"
proof -
  note w = cut_char [OF s]
  note rest = cut_rest [OF s(1)]
  have letters: "cut k s" if "consume_optional_prefix_letters lib fold_marks s = Some k" for k
    using that w cut_while [OF s(1)] cut_add [OF w cut_while [OF rest [OF w]]]
    by (auto simp: consume_optional_prefix_letters_def consume_letters_def Let_def split: if_splits option.splits)
  have punctuation: "cut k s" if some: "consume_optional_space_punctuation lib fold_marks s = Some k" for k
  proof -
    let ?punct = "is_punctuation_for_bpe lib fold_marks"
    let ?ps = "if next_char s = 32 then (case second_char s of None \<Rightarrow> None
        | Some next \<Rightarrow> if ?punct next then Some (char_width s) else None) else if ?punct (next_char s) then Some 0 else None"
    obtain start where ps: "?ps = Some start" and k: "k = start + consume_while ?punct (drop start s)
            + consume_while (\<lambda>ch. ch = 10 \<or> ch = 13) (drop (start + consume_while ?punct (drop start s)) s)"
      using some unfolding consume_optional_space_punctuation_def Let_def map_option_eq_Some by blast
    from ps w have start: "cut start s" by (auto split: if_splits option.splits)
    have run: "cut (start + consume_while ?punct (drop start s)) s" by (rule cut_add [OF start cut_while [OF rest [OF start]]])
    show ?thesis unfolding k by (rule cut_add [OF run cut_while [OF rest [OF run]]])
  qed
  have newline: "cut k s" if "consume_whitespace_with_newline s = Some k" for k
    using that cut_newline [OF s(1), of 0 None k] by (auto simp: consume_whitespace_with_newline_def split: if_splits)
  show ?thesis
    using cut_contraction letters punctuation newline cut_nonspace [OF s(1)] cut_digits [OF s(1)] w
    by (auto simp: next_llama_bpe_segment_end_def Let_def split: option.splits)
qed

lemma pieces_partition:
  "concat (bpe_pretokenize_with lib pre s) = s \<and> [] \<notin> set (bpe_pretokenize_with lib pre s)
   \<and> (is_utf8 s \<longrightarrow> list_all is_utf8 (bpe_pretokenize_with lib pre s))"
proof (induction lib pre s rule: bpe_pretokenize_with.induct)
  case (1 lib pre s)
  show ?case
  proof (cases "s = []")
    case False
    let ?n = "next_llama_bpe_segment_end lib (digit_group_max pre) (fold_marks_of pre) s"
    have "0 < digit_group_max pre" by (cases pre) simp_all
    then have n: "0 < ?n" using segment_bounds [OF False] by blast
    have c: "cut ?n s" if "is_utf8 s" by (rule segment_cut [OF that False])
    note ih = 1 [OF False refl]
    have "concat (take ?n s # bpe_pretokenize_with lib pre (drop ?n s)) = s" using ih by simp
    moreover have "[] \<notin> set (take ?n s # bpe_pretokenize_with lib pre (drop ?n s))" using ih n False by auto
    moreover have "list_all is_utf8 (take ?n s # bpe_pretokenize_with lib pre (drop ?n s))" if "is_utf8 s"
      using ih c [OF that] cut_rest [OF that c [OF that]] by (simp add: cut_def)
    ultimately show ?thesis using False by (subst (1 2 3) bpe_pretokenize_with.simps) (simp add: Let_def)
  qed (simp add: bpe_pretokenize_with.simps)
qed

lemmas pieces_join = pieces_partition [THEN conjunct1]

text \<open>Also: for every dialect, every reading of the Unicode classes and every text, the pre-tokenizer ends, its
  pieces put together are the text, none is empty, and every cut is at a character boundary, so that no slice of the
  text can fail.\<close>

theorem pieces_partition_the_text:
  "concat (bpe_pretokenize_with lib pre s) = s \<and> [] \<notin> set (bpe_pretokenize_with lib pre s)
   \<and> (is_utf8 s \<longrightarrow> list_all is_utf8 (bpe_pretokenize_with lib pre s))"
  by (rule pieces_partition)

definition demo_chars :: char_lib where
  "demo_chars = \<lparr>alphabetic = (\<lambda>c. 65 \<le> c \<and> c \<le> 90 \<or> 97 \<le> c \<and> c \<le> 122), numeric = (\<lambda>c. 48 \<le> c \<and> c \<le> 57), debug_string = id, debug_char = char_string\<rparr>"

theorem pieces_partition_the_text_witness:
  "concat (bpe_pretokenize_with demo_chars Llama3 ''we saw 1234'') = ''we saw 1234''
   \<and> list_all is_utf8 (bpe_pretokenize_with demo_chars Llama3 ''we saw 1234'')"
proof -
  have "is_utf8 ''we saw 1234''" by (rule ascii_is_utf8) (simp add: char_code_def)
  with pieces_partition_the_text [of demo_chars Llama3 "''we saw 1234''"] show ?thesis by blast
qed

section \<open>Combining marks\<close>

fun ascending :: "nat \<Rightarrow> (nat \<times> nat) list \<Rightarrow> bool" where
  "ascending p [] \<longleftrightarrow> True"
| "ascending p ((lo, hi) # ranges) \<longleftrightarrow> p < lo \<and> lo \<le> hi \<and> ascending hi ranges"

lemma ascending_above: "ascending p xs \<Longrightarrow> i < length xs \<Longrightarrow> p < fst (xs ! i)"
proof (induction p xs arbitrary: i rule: ascending.induct)
  case (2 p lo hi xs)
  then show ?case by (cases i) fastforce+
qed simp

lemma ascending_order: "ascending p xs \<Longrightarrow> i < j \<Longrightarrow> j < length xs \<Longrightarrow> snd (xs ! i) < fst (xs ! j)"
proof (induction p xs arbitrary: i j rule: ascending.induct)
  case (2 p lo hi xs)
  then obtain k where j: "j = Suc k" by (cases j) auto
  show ?case
  proof (cases i)
    case 0
    then show ?thesis using ascending_above [of hi xs k] 2(2,4) by (simp add: j)
  qed (use 2 j in simp)
qed simp

lemma ascending_ranges: "ascending p xs \<Longrightarrow> i < length xs \<Longrightarrow> fst (xs ! i) \<le> snd (xs ! i)"
proof (induction p xs arbitrary: i rule: ascending.induct)
  case (2 p lo hi xs)
  then show ?case by (cases i) auto
qed simp

lemma binary_search_exact:
  assumes "ascending p xs" "hi \<le> length xs"
  shows "binary_search (mark_order cp) xs lo hi \<longleftrightarrow> (\<exists>i. lo \<le> i \<and> i < hi \<and> fst (xs ! i) \<le> cp \<and> cp \<le> snd (xs ! i))"
  using assms(2)
proof (induction "hi - lo" arbitrary: lo hi rule: less_induct)
  case less
  show ?case
  proof (cases "lo < hi")
    case True
    let ?mid = "(lo + hi) div 2"
    have mid: "lo \<le> ?mid" "?mid < hi" "?mid < length xs" using True less.prems by auto
    obtain l h where m: "xs ! ?mid = (l, h)" by (cases "xs ! ?mid")
    have right: "binary_search (mark_order cp) xs (?mid + 1) hi \<longleftrightarrow> (\<exists>i. ?mid + 1 \<le> i \<and> i < hi \<and> fst (xs ! i) \<le> cp \<and> cp \<le> snd (xs ! i))"
      using mid less.prems by (intro less.hyps) auto
    have left': "binary_search (mark_order cp) xs lo ?mid \<longleftrightarrow> (\<exists>i. lo \<le> i \<and> i < ?mid \<and> fst (xs ! i) \<le> cp \<and> cp \<le> snd (xs ! i))"
      using mid less.prems by (intro less.hyps) auto
    have before: "snd (xs ! i) \<le> h" if "i \<le> ?mid" for i
    proof (cases "i = ?mid")
      case False
      then have "snd (xs ! i) < l" using ascending_order [OF assms(1), of i ?mid] mid that m by simp
      also have "l \<le> h" using ascending_ranges [OF assms(1) mid(3)] m by simp
      finally show ?thesis by simp
    qed (simp add: m)
    have after: "l \<le> fst (xs ! i)" if "?mid \<le> i" "i < hi" for i
    proof (cases "i = ?mid")
      case False
      then have "h < fst (xs ! i)" using ascending_order [OF assms(1), of ?mid i] less.prems that m by simp
      moreover have "l \<le> h" using ascending_ranges [OF assms(1) mid(3)] m by simp
      ultimately show ?thesis by simp
    qed (simp add: m)
    consider "h < cp" | "cp < l" "\<not> h < cp" | "l \<le> cp" "cp \<le> h" by linarith
    then show ?thesis
    proof cases
      case 1
      have "binary_search (mark_order cp) xs lo hi \<longleftrightarrow> binary_search (mark_order cp) xs (?mid + 1) hi"
        using True 1 by (subst binary_search.simps) (simp add: m mark_order_def Let_def)
      moreover have "lo \<le> i \<and> i < hi \<and> fst (xs ! i) \<le> cp \<and> cp \<le> snd (xs ! i)
          \<longleftrightarrow> ?mid + 1 \<le> i \<and> i < hi \<and> fst (xs ! i) \<le> cp \<and> cp \<le> snd (xs ! i)" for i
        using before [of i] 1 mid(1) by (cases "i \<le> ?mid") auto
      ultimately show ?thesis unfolding right by simp
    next
      case 2
      have "binary_search (mark_order cp) xs lo hi \<longleftrightarrow> binary_search (mark_order cp) xs lo ?mid"
        using True 2 by (subst binary_search.simps) (simp add: m mark_order_def Let_def)
      moreover have "lo \<le> i \<and> i < hi \<and> fst (xs ! i) \<le> cp \<and> cp \<le> snd (xs ! i)
          \<longleftrightarrow> lo \<le> i \<and> i < ?mid \<and> fst (xs ! i) \<le> cp \<and> cp \<le> snd (xs ! i)" for i
        using after [of i] 2 mid(2) by (cases "?mid \<le> i") auto
      ultimately show ?thesis unfolding left' by simp
    next
      case 3
      have "binary_search (mark_order cp) xs lo hi"
        using True 3 by (subst binary_search.simps) (simp add: m mark_order_def Let_def)
      moreover have "lo \<le> ?mid \<and> ?mid < hi \<and> fst (xs ! ?mid) \<le> cp \<and> cp \<le> snd (xs ! ?mid)" using 3 mid m by simp
      ultimately show ?thesis by blast
    qed
  qed (simp add: binary_search.simps)
qed

lemma mark_ranges_ascending: "ascending 0 MARK_RANGES"
  by (simp add: MARK_RANGES_def)

text \<open>Also: the binary search finds a combining mark exactly when one of the table's ranges holds the character.\<close>

theorem marks_are_the_table: "is_mark cp \<longleftrightarrow> list_ex (\<lambda>(lo, hi). lo \<le> cp \<and> cp \<le> hi) MARK_RANGES"
  unfolding is_mark_def binary_search_exact [OF mark_ranges_ascending order_refl]
  by (auto simp: list_ex_length case_prod_beta)

end
