(* ===== verification/TokenizerLaws.thy ===== *)
theory TokenizerLaws
  imports Spm BpeLaws GgufLaws
begin

text \<open>
  The laws of the tokenizer: what a model file's metadata makes is well formed, text
  encoded by byte-level BPE decodes to itself, and decoding token by token gives the
  same text as decoding at once.
\<close>

section \<open>The byte alphabet as text\<close>

definition byte_string :: "char \<Rightarrow> string" where
  "byte_string b = char_string (bpe_byte_to_char (char_code b))"

definition spelled :: "string \<Rightarrow> string" where
  "spelled s = concat (map byte_string s)"

lemma spelled_simps [simp]: "spelled [] = []" "spelled (b # s) = byte_string b @ spelled s" "spelled (s @ s') = spelled s @ spelled s'"
  by (simp_all add: spelled_def)

lemma two_byte_char:
  assumes "0x80 \<le> cp" "cp < 0x800"
  shows "utf8_next (char_string cp @ s) = Scalar 2" "scalar_value (char_string cp) = cp" "length (char_string cp) = 2"
proof -
  have hi: "2 \<le> cp div 64" "cp div 64 < 32" using assms by auto
  then have "utf8_width (char_of (0xC0 + cp div 64)) = 2" by (simp add: utf8_width_def Let_def)
  moreover have "second_byte_ok (char_of (0xC0 + cp div 64)) (char_of (0x80 + cp mod 64))"
  proof -
    have "cp mod 64 < 64" by simp
    then have "continuation (char_of (0x80 + cp mod 64))" by (simp add: continuation_def between_def)
    then show ?thesis using hi by (simp add: second_byte_ok_def Let_def)
  qed
  ultimately show "utf8_next (char_string cp @ s) = Scalar 2"
    using assms by (simp add: char_string_def numeral_2_eq_2)
  show "scalar_value (char_string cp) = cp" using assms hi by (simp add: char_string_def mult.commute)
  show "length (char_string cp) = 2" using assms by (simp add: char_string_def)
qed

lemma one_byte_char:
  assumes "cp < 0x80"
  shows "utf8_next (char_string cp @ s) = Scalar 1" "scalar_value (char_string cp) = cp" "length (char_string cp) = 1"
  using assms by (simp_all add: char_string_def utf8_width_def Let_def)

lemma small_char:
  assumes "cp < 0x800"
  shows "char_width (char_string cp @ s) = length (char_string cp)" "scalar_value (char_string cp) = cp" "char_string cp \<noteq> []"
  using assms one_byte_char [of cp] two_byte_char [of cp] by (cases "cp < 0x80"; auto simp: char_width_def)+

lemma chars_append_char: "cp < 0x800 \<Longrightarrow> chars (char_string cp @ s) = char_string cp # chars s"
  using small_char(1) [of cp s] small_char(3) [of cp] by (subst chars.simps) simp

lemma alphabet_small: "bpe_byte_to_char (char_code b) < 0x800"
  using byte_alphabet(1) [OF char_code_less, of b] by simp

lemma chars_spelled: "chars (spelled s) = map byte_string s"
proof (induction s)
  case Nil
  then show ?case by (simp add: chars.simps)
next
  case (Cons b s)
  then show ?case by (simp add: byte_string_def chars_append_char [OF alphabet_small])
qed

lemma scalar_byte_string: "bpe_char_to_byte (scalar_value (byte_string b)) = Some (char_code b)"
  using byte_alphabet(1) [OF char_code_less, of b] small_char(2) [OF alphabet_small]
  by (simp add: byte_string_def)

lemma bytes_of_spelled: "bytes_of_chars lib rs token (chars (spelled s)) = Inr s"
  unfolding chars_spelled by (induction s) (simp_all add: scalar_byte_string)

lemma spelled_inj: "spelled s = spelled s' \<Longrightarrow> s = s'"
  by (metis Inr_inject bytes_of_spelled)

text \<open>Printable ASCII spells itself.\<close>

definition printable :: "string \<Rightarrow> bool" where
  "printable s \<longleftrightarrow> list_all (\<lambda>c. 33 \<le> char_code c \<and> char_code c \<le> 126) s"

lemma printable_spelled: "printable s \<Longrightarrow> spelled s = s"
proof (induction s)
  case (Cons c s)
  then have "byte_string c = [c]" by (simp add: printable_def byte_string_def bpe_byte_to_char_def visible_def char_string_def)
  with Cons show ?case by (simp add: printable_def)
qed simp

section \<open>Well-formed tokenizers\<close>

definition vocabulary_ok :: "Tokenizer \<Rightarrow> bool" where
  "vocabulary_ok tk \<longleftrightarrow>
     (\<forall>i < length (tk_tokens tk). tok_id (tk_tokens tk ! i) = i \<and> is_utf8 (tok_text (tk_tokens tk ! i))
        \<and> token_id tk (tok_text (tk_tokens tk ! i)) \<noteq> None)
   \<and> (\<forall>s i. token_id tk s = Some i \<longrightarrow> i < length (tk_tokens tk) \<and> tok_text (tk_tokens tk ! i) = s)
   \<and> (\<forall>b i. map_of (tk_byte_token_to_id tk) b = Some i \<longrightarrow>
        i < length (tk_tokens tk) \<and> parse_byte_token (tok_text (tk_tokens tk ! i)) = Some b)"

definition specials :: "Tokenizer \<Rightarrow> nat option list" where
  "specials tk = (let sp = tk_special tk in [sp_bos sp, sp_eos sp, sp_unk sp, sp_eot sp, sp_eom sp, sp_sep sp, sp_pad sp, sp_mask sp])"

definition well_formed :: "Tokenizer \<Rightarrow> bool" where
  "well_formed tk \<longleftrightarrow> vocabulary_ok tk \<and> tk_tokens tk \<noteq> []
     \<and> (\<forall>i. Some i \<in> set (specials tk) \<longrightarrow> i < length (tk_tokens tk))
     \<and> (\<forall>i \<in> sp_eog (tk_special tk). i < length (tk_tokens tk)) \<and> tk_bpe_ranks tk = tk_bpe_registry tk"

section \<open>Construction\<close>

lemma token_kind_ok: "and_then (token_kind_from_i32 k) f = Inr x \<Longrightarrow> \<exists>kind. f kind = Inr x"
  by (auto simp: and_then_Inr_iff)

text \<open>The vocabulary after the first \<open>idx\<close> entries.\<close>

definition vocabulary_inv :: "nat \<Rightarrow> vocabulary \<Rightarrow> bool" where
  "vocabulary_inv idx v = (case v of (tokens, t2i, b2i) \<Rightarrow> length tokens = idx
     \<and> (\<forall>i < idx. tok_id (tokens ! i) = i \<and> map_of t2i (tok_text (tokens ! i)) \<noteq> None)
     \<and> (\<forall>s i. map_of t2i s = Some i \<longrightarrow> i < idx \<and> tok_text (tokens ! i) = s)
     \<and> (\<forall>b i. map_of b2i b = Some i \<longrightarrow> i < idx \<and> parse_byte_token (tok_text (tokens ! i)) = Some b))"

lemma vocabulary_step:
  assumes "vocabulary_inv idx (tokens, t2i, b2i)" "tok_id token = idx" "tok_text token = s"
  shows "vocabulary_inv (Suc idx) (tokens @ [token], AList.update s idx t2i,
           (case parse_byte_token s of None \<Rightarrow> b2i | Some byte \<Rightarrow> AList.update byte idx b2i))"
proof -
  have len: "length tokens = idx" using assms(1) by (simp add: vocabulary_inv_def)
  have nth: "(tokens @ [token]) ! i = (if i < idx then tokens ! i else token)" if "i < Suc idx" for i
    using that len by (auto simp: nth_append less_Suc_eq)
  have b2i: "i < Suc idx \<and> parse_byte_token (tok_text ((tokens @ [token]) ! i)) = Some b"
    if "map_of (case parse_byte_token s of None \<Rightarrow> b2i | Some byte \<Rightarrow> AList.update byte idx b2i) b = Some i" for b i
    using that assms len
    by (auto simp: vocabulary_inv_def nth_append AList.update_conv' split: option.splits if_splits)
  show ?thesis using assms b2i len
    by (auto simp: vocabulary_inv_def nth_append less_Suc_eq AList.update_conv' split: if_splits)
qed

lemma build_vocabulary_inv:
  assumes "build_vocabulary kinds scores idx texts v = Inr v'" "vocabulary_inv idx v" "idx + length texts \<le> 2 ^ 32"
  shows "vocabulary_inv (idx + length texts) v' \<and> map tok_text (fst v') = map tok_text (fst v) @ texts"
  using assms
proof (induction kinds scores idx texts v rule: build_vocabulary.induct)
  case (2 kinds scores idx s texts tokens t2i b2i)
  have id: "idx mod 2 ^ 32 = idx" using 2(4) by simp
  let ?token = "\<lambda>kind. \<lparr>tok_id = idx, tok_text = s, tok_score = scores ! idx, tok_kind = kind\<rparr>"
  from 2(2) obtain kind where next': "build_vocabulary kinds scores (idx + 1) texts
        (tokens @ [?token kind], AList.update s idx t2i,
         (case parse_byte_token s of None \<Rightarrow> b2i | Some byte \<Rightarrow> AList.update byte idx b2i)) = Inr v'"
    unfolding build_vocabulary.simps Let_def id by (elim and_thenE)
  have "vocabulary_inv (idx + 1) (tokens @ [?token kind], AList.update s idx t2i,
         (case parse_byte_token s of None \<Rightarrow> b2i | Some byte \<Rightarrow> AList.update byte idx b2i))"
    using vocabulary_step [OF 2(3), of "?token kind" s] by simp
  from 2(1) [unfolded id, OF refl next' this] 2(4) show ?case by simp
qed simp

lemma validate_token_id_ok: "validate_token_id name x len = Inr u \<longleftrightarrow> (\<forall>i. Some i = x \<longrightarrow> i < len)"
  by (cases x) (auto simp: validate_token_id_def)

lemma validate_special_ok:
  "validate_special sp len = Inr u \<longleftrightarrow>
     (\<forall>i. Some i \<in> set [sp_bos sp, sp_eos sp, sp_unk sp, sp_eot sp, sp_eom sp, sp_sep sp, sp_pad sp, sp_mask sp] \<longrightarrow> i < len)"
  unfolding validate_special_def and_then_Inr_iff validate_token_id_ok list.set insert_iff by simp blast

lemma eog_members:
  assumes "i \<in> sp_eog (special_tokens file model t2i)"
  shows "Some i \<in> set [sp_eos (special_tokens file model t2i), sp_eot (special_tokens file model t2i), sp_eom (special_tokens file model t2i)]
       \<or> (\<exists>s. map_of t2i s = Some i)"
  using assms by (auto simp: special_tokens_def Let_def List.map_filter_def split: if_splits)

text \<open>Property C28: a tokenizer that is built from an accepted model file is well formed: every token sits at its own
  index, every token's text is valid and is looked up to an index that has that text, every byte token is looked up to a
  token that reads as that byte, and the special and the stopping identifiers are all tokens of the vocabulary.\<close>

theorem loaded_tokenizer_is_well_formed:
  assumes "read_metadata_with_len path f len = Inr g" and "from_gguf debug g = Inr tk"
  shows "well_formed tk"
proof -
  from assms(2) obtain family model texts pre scores kinds registry tokens t2i b2i where
        texts: "metadata_array_strings g ''tokenizer.ggml.tokens'' = Inr texts" "texts \<noteq> []"
    and built: "build_vocabulary kinds scores 0 texts ([], [], []) = Inr (tokens, t2i, b2i)"
    and special: "validate_special (special_tokens g model t2i) (length tokens) = Inr ()"
    and tk: "tk = \<lparr>tk_model = model, tk_pre = pre, tk_tokens = tokens, tk_token_to_id = t2i,
          tk_byte_token_to_id = b2i, tk_bpe_ranks = registry, tk_bpe_registry = registry, tk_special = special_tokens g model t2i,
          tk_config = tokenizer_config g family, tk_chat_template = metadata_string g ''tokenizer.chat_template''\<rparr>"
    by (clarsimp simp: from_gguf_def Let_def and_then_Inr_iff split: if_splits)
  note limit = array_strings_stored [OF assms(1) texts(1)]
  have small: "0 + length texts \<le> 2 ^ 32" using limit by (simp add: MAX_ARRAY_LEN_def)
  have "vocabulary_inv 0 ([], [], [])" by (simp add: vocabulary_inv_def)
  from build_vocabulary_inv [OF built this small]
  have inv: "vocabulary_inv (length texts) (tokens, t2i, b2i)" and same: "map tok_text tokens = texts" by simp_all
  have len: "length tokens = length texts" using inv by (simp add: vocabulary_inv_def)
  have utf8: "is_utf8 (tok_text (tokens ! i))" if "i < length tokens" for i
  proof -
    have "tok_text (tokens ! i) = texts ! i" using that by (simp flip: same)
    then show ?thesis using limit that len by (simp add: list_all_length)
  qed
  have "vocabulary_ok tk" using inv utf8 by (simp add: vocabulary_ok_def vocabulary_inv_def tk token_id_def)
  moreover have "i < length tokens" if "i \<in> sp_eog (special_tokens g model t2i)" for i
    using eog_members [OF that] special inv by (auto simp: validate_special_ok vocabulary_inv_def)
  moreover have "i < length tokens" if "Some i \<in> set (specials tk)" for i
    using special that by (auto simp: validate_special_ok specials_def tk Let_def)
  ultimately show ?thesis using len texts(2) by (auto simp: well_formed_def tk)
qed

section \<open>Encoding and decoding\<close>

lemma vocabulary_lookup:
  assumes "vocabulary_ok tk" "token_id tk s = Some i"
  shows "\<exists>token. token_at tk i = Some token \<and> tok_text token = s"
  using assms by (simp add: vocabulary_ok_def token_at_def)

lemma merge_pass_members: "x \<in> set (merge_pass left right symbols) \<Longrightarrow> x \<in> set symbols \<or> x = left @ right"
  by (induction left right symbols rule: merge_pass.induct) (auto split: if_splits)

text \<open>Whatever holds of the symbols and of what the table merges holds of the result.\<close>

lemma merge_symbols_induct:
  "(\<And>l r n. rank table l r = Some n \<Longrightarrow> P l \<Longrightarrow> P r \<Longrightarrow> P (l @ r)) \<Longrightarrow> \<forall>x \<in> set symbols. P x \<Longrightarrow>
     \<forall>x \<in> set (merge_symbols table symbols). P x"
proof (induction table symbols rule: merge_symbols.induct)
  case (1 table symbols)
  show ?case
  proof (cases "heap_pop (merge_candidates table symbols)")
    case None
    then show ?thesis using 1(3) by (subst merge_symbols.simps) simp
  next
    case (Some best)
    then have "\<lparr>cand_rank = cand_rank best, cand_index = cand_index best\<rparr> \<in> set (merge_candidates table symbols)"
      by (simp add: heap_pop_member)
    then have pair: "Suc (cand_index best) < length symbols"
        "rank table (symbols ! cand_index best) (symbols ! Suc (cand_index best)) = Some (cand_rank best)"
      by (simp_all only: merge_candidates_iff)
    let ?l = "symbols ! cand_index best" and ?r = "symbols ! (cand_index best + 1)"
    have "P ?l" "P ?r" using 1(3) pair(1) by simp_all
    then have "P (?l @ ?r)" using 1(2) pair(2) by simp
    then have "\<forall>x \<in> set (merge_pass ?l ?r symbols). P x" using 1(3) merge_pass_members by blast
    moreover have "\<not> \<not> length symbols > 1" using pair(1) by simp
    ultimately have "\<forall>x \<in> set (merge_symbols table (merge_pass ?l ?r symbols)). P x"
      using 1(1) [OF _ Some] 1(2) by blast
    then show ?thesis using Some 1(3) by (subst merge_symbols.simps) simp
  qed
qed

lemma bpe_bytes_append:
  "bpe_bytes lib tk rs (a @ b) = and_then (bpe_bytes lib tk rs a) (\<lambda>x. and_then (bpe_bytes lib tk rs b) (\<lambda>y. Inr (x @ y)))"
proof (induction a)
  case Nil
  then show ?case by (cases "bpe_bytes lib tk rs b") simp_all
next
  case (Cons i a)
  show ?case
  proof (cases "visible_token tk rs i")
    case (Inr found)
    show ?thesis
    proof (cases "case found of None \<Rightarrow> Inr [] | Some token \<Rightarrow> bytes_of_chars lib rs token (chars (tok_text token))")
      case Inl
      then show ?thesis using Inr by simp
    next
      case (Inr x)
      then show ?thesis using \<open>visible_token tk rs i = Inr found\<close>
        by (cases "bpe_bytes lib tk rs a"; cases "bpe_bytes lib tk rs b") (simp_all add: Cons)
    qed
  qed simp
qed

lemma token_bytes:
  assumes "vocabulary_ok tk" "token_id tk (spelled s) = Some i"
  shows "bpe_bytes lib tk False [i] = Inr s"
  using vocabulary_lookup [OF assms] by (auto simp: visible_token_def bytes_of_spelled)

lemma symbols_roundtrip:
  assumes "vocabulary_ok tk" "\<forall>x \<in> set symbols. \<exists>s. x = spelled s" "symbol_ids lib tk symbols = Inr ids"
  shows "\<exists>s. bpe_bytes lib tk False ids = Inr s \<and> concat symbols = spelled s"
  using assms(2,3)
proof (induction symbols arbitrary: ids)
  case (Cons x symbols)
  then obtain s i ids' where x: "x = spelled s" "token_id tk x = Some i" and ids: "ids = i # ids'" "symbol_ids lib tk symbols = Inr ids'"
    by (auto simp: and_then_Inr_iff ok_or_Inr_iff)
  from Cons.IH [OF _ ids(2)] Cons.prems(1) obtain s' where s': "bpe_bytes lib tk False ids' = Inr s'" "concat symbols = spelled s'"
    by auto
  have "bpe_bytes lib tk False ([i] @ ids') = Inr (s @ s')"
    unfolding bpe_bytes_append using token_bytes [OF assms(1)] x s' by simp
  then show ?case using x s'(2) ids(1) by (intro exI [of _ "s @ s'"]) simp
qed simp

lemma segment_roundtrip:
  assumes "vocabulary_ok tk" "encode_bpe_segment lib tk segment = Inr ids"
  shows "bpe_bytes lib tk False ids = Inr segment"
proof (cases "segment = []")
  case False
  let ?initial = "map (\<lambda>byte. char_string (bpe_byte_to_char (char_code byte))) segment"
  let ?symbols = "merge_symbols (tk_bpe_registry tk) ?initial"
  have initial: "\<forall>x \<in> set ?initial. \<exists>s. x = spelled s"
    by (auto simp: byte_string_def [symmetric] intro!: exI [of _ "[c]" for c])
  have "\<forall>x \<in> set ?symbols. \<exists>s. x = spelled s"
    by (rule merge_symbols_induct [OF _ initial]) (metis spelled_simps(3))
  moreover have "symbol_ids lib tk ?symbols = Inr ids" using assms(2) False by (simp add: encode_bpe_segment_def)
  ultimately obtain s where s: "bpe_bytes lib tk False ids = Inr s" "concat ?symbols = spelled s"
    using symbols_roundtrip [OF assms(1)] by blast
  have "concat ?symbols = spelled segment"
    using merging_keeps_the_text [of "tk_bpe_registry tk" ?initial] by (simp add: spelled_def byte_string_def [abs_def])
  then show ?thesis using s spelled_inj by metis
qed (use assms in \<open>simp add: encode_bpe_segment_def\<close>)

lemma segments_roundtrip:
  "vocabulary_ok tk \<Longrightarrow> encode_segments lib tk segments = Inr ids \<Longrightarrow> bpe_bytes lib tk False ids = Inr (concat segments)"
proof (induction segments arbitrary: ids)
  case (Cons x segments)
  then obtain a b where "encode_bpe_segment lib tk x = Inr a" "encode_segments lib tk segments = Inr b" "ids = a @ b"
    by (auto simp: and_then_Inr_iff)
  with Cons segment_roundtrip show ?case by (simp add: bpe_bytes_append)
qed simp

text \<open>No control token in the vocabulary has a character outside printable ASCII.\<close>

definition printable_controls :: "Tokenizer \<Rightarrow> bool" where
  "printable_controls tk \<longleftrightarrow> (\<forall>token \<in> set (tk_tokens tk). is_control_token True token \<longrightarrow> printable (tok_text token))"

text \<open>Every byte is a token, and everything the table merges is one.\<close>

definition complete_vocabulary :: "Tokenizer \<Rightarrow> bool" where
  "complete_vocabulary tk \<longleftrightarrow> (\<forall>b. token_id tk (byte_string b) \<noteq> None)
     \<and> (\<forall>((l, r), n) \<in> set (tk_bpe_registry tk). token_id tk (l @ r) \<noteq> None)"

lemma symbols_known: "\<forall>x \<in> set symbols. token_id tk x \<noteq> None \<Longrightarrow> \<exists>ids. symbol_ids lib tk symbols = Inr ids"
  by (induction symbols) auto

lemma segment_known:
  assumes "complete_vocabulary tk"
  shows "\<exists>ids. encode_bpe_segment lib tk segment = Inr ids"
proof (cases "segment = []")
  case False
  let ?initial = "map (\<lambda>byte. char_string (bpe_byte_to_char (char_code byte))) segment"
  have initial: "\<forall>x \<in> set ?initial. token_id tk x \<noteq> None"
    using assms by (auto simp: complete_vocabulary_def byte_string_def)
  have "\<forall>x \<in> set (merge_symbols (tk_bpe_registry tk) ?initial). token_id tk x \<noteq> None"
  proof (rule merge_symbols_induct [OF _ initial])
    fix l r n assume "rank (tk_bpe_registry tk) l r = Some n"
    then have "((l, r), n) \<in> set (tk_bpe_registry tk)" by (auto simp: rank_def dest: map_of_SomeD)
    then show "token_id tk (l @ r) \<noteq> None" using assms by (auto simp: complete_vocabulary_def)
  qed
  with symbols_known False show ?thesis by (simp add: encode_bpe_segment_def)
qed (simp add: encode_bpe_segment_def)

lemma segments_known: "complete_vocabulary tk \<Longrightarrow> \<exists>ids. encode_segments lib tk segments = Inr ids"
proof (induction segments)
  case (Cons x segments)
  with segment_known [OF Cons.prems, of lib x] show ?case by fastforce
qed simp

lemma next_start_pos: "longest_control_token_at tk s c = None \<Longrightarrow> next_control_token_start tk s c = Some n \<Longrightarrow> 0 < n"
  by (subst (asm) next_control_token_start.simps) (auto simp: char_width_pos split: if_splits)

lemma control_token_id:
  assumes "vocabulary_ok tk" "token \<in> set (tk_tokens tk)"
  shows "\<exists>i. token_id tk (tok_text token) = Some i"
  using assms by (auto simp: vocabulary_ok_def in_set_conv_nth)

lemma control_token_bytes:
  assumes "vocabulary_ok tk" "printable_controls tk" "token \<in> set (tk_tokens tk)" "is_control_token c token"
    "token_id tk (tok_text token) = Some i"
  shows "bpe_bytes lib tk False [i] = Inr (tok_text token)"
proof -
  have "printable (tok_text token)" using assms(2-4) by (auto simp: printable_controls_def is_control_token_def)
  then show ?thesis using token_bytes [OF assms(1), of "tok_text token"] assms(5) by (simp add: printable_spelled)
qed

text \<open>Identifiers of the vocabulary.\<close>

definition known :: "Tokenizer \<Rightarrow> nat list \<Rightarrow> bool" where
  "known tk ids \<longleftrightarrow> list_all (\<lambda>i. i < length (tk_tokens tk)) ids"

lemma known_simps [simp]: "known tk []" "known tk (i # ids) \<longleftrightarrow> i < length (tk_tokens tk) \<and> known tk ids"
  "known tk (ids @ ids') \<longleftrightarrow> known tk ids \<and> known tk ids'"
  by (simp_all add: known_def)

lemma token_id_known: "vocabulary_ok tk \<Longrightarrow> token_id tk s = Some i \<Longrightarrow> i < length (tk_tokens tk)"
  by (simp add: vocabulary_ok_def)

lemma symbol_ids_known: "vocabulary_ok tk \<Longrightarrow> symbol_ids lib tk symbols = Inr ids \<Longrightarrow> known tk ids"
  by (induction symbols arbitrary: ids) (auto simp: and_then_Inr_iff ok_or_Inr_iff token_id_known)

lemma encode_segments_known: "vocabulary_ok tk \<Longrightarrow> encode_segments lib tk segments = Inr ids \<Longrightarrow> known tk ids"
  by (induction segments arbitrary: ids) (auto simp: and_then_Inr_iff encode_bpe_segment_def symbol_ids_known split: if_splits)

text \<open>What the loop gives for the rest of a text, whatever it has so far.\<close>

definition encodes_rest :: "char_lib \<Rightarrow> Tokenizer \<Rightarrow> string \<Rightarrow> nat list \<Rightarrow> nat list engine_result \<Rightarrow> bool" where
  "encodes_rest lib tk s out r \<longleftrightarrow>
     (\<forall>ids before. r = Inr ids \<and> printable_controls tk \<and> bpe_bytes lib tk False out = Inr before
        \<longrightarrow> bpe_bytes lib tk False ids = Inr (before @ s))
   \<and> (\<forall>ids. r = Inr ids \<and> known tk out \<longrightarrow> known tk ids)
   \<and> (complete_vocabulary tk \<longrightarrow> (\<exists>ids. r = Inr ids))"

lemma encodes_rest_step:
  assumes "encodes_rest lib tk (drop n s) (out @ ids') r" "known tk ids'"
    "printable_controls tk \<Longrightarrow> bpe_bytes lib tk False ids' = Inr (take n s)"
  shows "encodes_rest lib tk s out r"
proof -
  have "bpe_bytes lib tk False (out @ ids') = Inr (before @ take n s)"
    if "bpe_bytes lib tk False out = Inr before" "printable_controls tk" for before
    using that assms(3) by (simp only: bpe_bytes_append and_then_simps)
  then have "bpe_bytes lib tk False ids = Inr (before @ s)"
    if "r = Inr ids" "bpe_bytes lib tk False out = Inr before" "printable_controls tk" for ids before
    using that assms(1) by (fastforce simp: encodes_rest_def)
  then show ?thesis using assms(1,2) unfolding encodes_rest_def known_simps by blast
qed

lemma encode_bpe_loop:
  assumes "vocabulary_ok tk"
  shows "\<exists>r. encode_bpe_text lib tk c s out = Some r \<and> encodes_rest lib tk s out r"
proof (induction "length s" arbitrary: s out rule: less_induct)
  case less
  show ?case
  proof (cases "s = []")
    case True
    then show ?thesis by (subst encode_bpe_text.simps) (simp add: encodes_rest_def)
  next
    case False
    show ?thesis
    proof (cases "longest_control_token_at tk s c")
      case (Some found)
      obtain x n where found: "found = (x, n)" by (cases found)
      from longest_control_token [OF Some [unfolded found]] obtain token where token: "token \<in> set (tk_tokens tk)"
        "is_control_token c token" "x = tok_text token" "n = length x" "x \<noteq> []" "starts_with s x" by blast
      from control_token_id [OF assms token(1)] obtain i where i: "token_id tk x = Some i" using token(3) by blast
      have "encode_bpe_text lib tk c s out = encode_bpe_text lib tk c (drop n s) (out @ [i])"
        using False Some found i by (subst encode_bpe_text.simps) simp
      moreover have "length (drop n s) < length s" using token(4,5) False by simp
      from less [OF this, of "out @ [i]"]
      obtain r where "encode_bpe_text lib tk c (drop n s) (out @ [i]) = Some r" "encodes_rest lib tk (drop n s) (out @ [i]) r" by blast
      moreover have "bpe_bytes lib tk False [i] = Inr (take n s)" if "printable_controls tk"
        using control_token_bytes [OF assms that token(1,2)] token i by (simp add: starts_with_def)
      ultimately show ?thesis using encodes_rest_step [of lib tk n s out "[i]" r] token_id_known [OF assms i] by simp
    next
      case None
      let ?e = "case next_control_token_start tk s c of None \<Rightarrow> length s | Some n \<Rightarrow> n"
      let ?pieces = "bpe_pretokenize_with lib (tk_pre tk) (take ?e s)"
      have pieces: "concat ?pieces = take ?e s" by (rule pieces_join)
      have e: "0 < ?e" using next_start_pos [OF None] False by (auto split: option.splits)
      show ?thesis
      proof (cases "encode_segments lib tk ?pieces")
        case (Inl err)
        then have "encode_bpe_text lib tk c s out = Some (Inl err)"
          using False None by (subst encode_bpe_text.simps) (simp add: Let_def)
        moreover have "\<not> complete_vocabulary tk" using segments_known [of tk lib ?pieces] Inl by auto
        ultimately show ?thesis by (simp add: encodes_rest_def)
      next
        case (Inr ids')
        have "encode_bpe_text lib tk c s out = encode_bpe_text lib tk c (drop ?e s) (out @ ids')"
          using False None Inr by (subst encode_bpe_text.simps) (simp add: Let_def)
        moreover have "length (drop ?e s) < length s" using e False by simp
        from less [OF this, of "out @ ids'"]
        obtain r where "encode_bpe_text lib tk c (drop ?e s) (out @ ids') = Some r" "encodes_rest lib tk (drop ?e s) (out @ ids') r"
          by blast
        moreover have "bpe_bytes lib tk False ids' = Inr (take ?e s)"
          using segments_roundtrip [OF assms Inr] pieces by simp
        ultimately show ?thesis using encodes_rest_step [of lib tk ?e s out ids' r] encode_segments_known [OF assms Inr] by simp
      qed
    qed
  qed
qed

text \<open>Property C9: text that byte-level BPE encodes decodes to itself: for a well-formed tokenizer whose control tokens are
  printable ASCII, encoding any text, with or without the parsing of control tokens, returns, and the identifiers it
  returns decode to exactly the text; and when every byte and everything the merge table makes is a token, it never
  fails.\<close>

theorem bpe_text_round_trip:
  assumes "well_formed tk" "tk_model tk = Gpt2Bpe" "printable_controls tk" "is_utf8 s"
  shows "\<exists>r. encode lib tk s False parse_special = Some r
       \<and> (\<forall>ids. r = Inr ids \<longrightarrow> decode lib tk ids False = Inr s) \<and> (complete_vocabulary tk \<longrightarrow> (\<exists>ids. r = Inr ids))"
proof -
  have "vocabulary_ok tk" using assms(1) by (simp add: well_formed_def)
  from encode_bpe_loop [OF this, of lib parse_special s "[]"]
  obtain r where r: "encode_bpe_text lib tk parse_special s [] = Some r" "encodes_rest lib tk s [] r" by blast
  have code: "encode lib tk s False parse_special = Some (if s = [] then Inr [] else r)"
    using r(1) assms(2) by (cases r) (simp_all add: encode_def Let_def)
  have "decode lib tk ids False = Inr s" if "r = Inr ids" for ids
    using r(2) that assms(2-4) by (simp add: encodes_rest_def decode_def decode_bpe_def valid_prefix_def)
  with code r(2) show ?thesis
    by (cases "s = []") (auto simp: encodes_rest_def assms(2) decode_def decode_bpe_def valid_prefix_def)
qed

section \<open>Encoding returns tokens of the vocabulary\<close>

text \<open>A result is known when it is an error or known identifiers; it is sure when an unknown token stands in for bytes.\<close>

definition fine :: "Tokenizer \<Rightarrow> nat list engine_result \<Rightarrow> bool" where
  "fine tk r \<longleftrightarrow> (\<forall>ids. r = Inr ids \<longrightarrow> known tk ids) \<and> (sp_unk (tk_special tk) \<noteq> None \<longrightarrow> (\<exists>ids. r = Inr ids))"

lemma fine_Inr [simp]: "fine tk (Inr ids) \<longleftrightarrow> known tk ids"
  by (simp add: fine_def)

lemma fine_Inl: "fine tk (Inl e) \<longleftrightarrow> sp_unk (tk_special tk) = None"
  by (simp add: fine_def)

lemma fine_bind:
  assumes "fine tk r" "\<And>ids. r = Inr ids \<Longrightarrow> known tk ids \<Longrightarrow> fine tk (f ids)"
  shows "fine tk (and_then r f)"
  using assms by (cases r) (auto simp: fine_Inl)

lemma special_known: "well_formed tk \<Longrightarrow> Some i \<in> set (specials tk) \<Longrightarrow> i < length (tk_tokens tk)"
  by (simp add: well_formed_def)

lemma specials_members: "sp_bos (tk_special tk) \<in> set (specials tk)" "sp_eos (tk_special tk) \<in> set (specials tk)"
  "sp_unk (tk_special tk) \<in> set (specials tk)"
  by (simp_all add: specials_def Let_def)

lemma unknown_bytes_fine: "well_formed tk \<Longrightarrow> fine tk (encode_unknown_symbol_bytes tk bytes)"
proof (induction bytes)
  case (Cons b bytes)
  let ?found = "or_else (map_of (tk_byte_token_to_id tk) (char_code b)) (sp_unk (tk_special tk))"
  show ?case
  proof (cases ?found)
    case None
    then show ?thesis by (auto simp: or_else_def fine_Inl split: option.splits)
  next
    case (Some i)
    have "i < length (tk_tokens tk)"
      using Some Cons.prems special_known [OF Cons.prems, of i] specials_members(3) [of tk]
      by (auto simp: or_else_def well_formed_def vocabulary_ok_def split: option.splits)
    with Some Cons show ?thesis by (auto intro!: fine_bind)
  qed
qed simp

lemma greedy_fine:
  assumes "well_formed tk"
  shows "fine tk (encode_piece_greedy tk piece)"
proof (induction "length piece" arbitrary: piece rule: less_induct)
  case less
  have v: "vocabulary_ok tk" using assms by (simp add: well_formed_def)
  show ?case
  proof (cases "piece = []")
    case False
    show ?thesis
    proof (cases "best_piece tk piece")
      case None
      have "length (drop (char_width piece) piece) < length piece" using False char_width_pos [of piece] by simp
      then show ?thesis using less None unknown_bytes_fine [OF assms] False
        by (subst encode_piece_greedy.simps) (auto intro!: fine_bind)
    next
      case (Some best)
      obtain n i score where best: "best = (n, i, score)" by (cases best)
      note spec = best_piece_spec [OF Some [unfolded best]]
      have "length (drop n piece) < length piece" using False spec by simp
      moreover have "i < length (tk_tokens tk)" using spec token_id_known [OF v] by blast
      ultimately show ?thesis using less best Some False
        by (subst encode_piece_greedy.simps) (auto intro!: fine_bind)
    qed
  qed (simp add: encode_piece_greedy.simps)
qed

lemma resolve_fine: "well_formed tk \<Longrightarrow> fine tk (resolve_symbols tk symbols unresolved)"
proof (induction tk symbols unresolved rule: resolve_symbols.induct)
  case (1 tk unresolved)
  then show ?case by (simp add: greedy_unresolved_def greedy_fine)
next
  case (2 tk symbol symbols unresolved)
  have g: "fine tk (greedy_unresolved tk unresolved)" using 2(4) by (simp add: greedy_unresolved_def greedy_fine)
  have v: "vocabulary_ok tk" using 2(4) by (simp add: well_formed_def)
  show ?case
  proof (cases "tk_bpe_ranks tk = [] \<and> str_contains symbol double_space")
    case True
    then show ?thesis using 2(1) 2(4) by simp
  next
    case False
    show ?thesis
    proof (cases "token_id tk symbol")
      case None
      then show ?thesis using 2(2) [OF False] 2(4) False by auto
    next
      case (Some i)
      then show ?thesis using 2(3) [OF False Some] 2(4) False g token_id_known [OF v Some] by (auto intro!: fine_bind)
    qed
  qed
qed

lemma spm_segment_fine: "well_formed tk \<Longrightarrow> fine tk (encode_spm_segment tk segment)"
  by (simp add: encode_spm_segment_def resolve_fine)

lemma piece_loop_fine:
  assumes "well_formed tk"
  shows "known tk out \<Longrightarrow> \<exists>r. encode_piece_loop tk p piece out = Some r \<and> fine tk r"
proof (induction "length piece" arbitrary: piece out rule: less_induct)
  case less
  have v: "vocabulary_ok tk" using assms by (simp add: well_formed_def)
  show ?case
  proof (cases "piece = []")
    case True
    then show ?thesis using less.prems by (subst encode_piece_loop.simps) simp
  next
    case False
    let ?found = "if p then Option.bind (longest_control_token_at tk piece True) (\<lambda>(t, n). map_option (\<lambda>i. (t, i, n)) (token_id tk t)) else None"
    show ?thesis
    proof (cases ?found)
      case (Some found)
      then obtain t i n where found: "found = (t, i, n)" "longest_control_token_at tk piece True = Some (t, n)" "token_id tk t = Some i"
        by (auto simp: bind_eq_Some_conv split: if_splits)
      let ?dummy = "if add_space_prefix (tk_config tk) \<and> should_insert_dummy_after_control tk t (drop n piece)
            (longest_control_token_at tk (drop n piece) True \<noteq> None)
          then (case token_id tk SPM_SPACE of None \<Rightarrow> [] | Some d \<Rightarrow> [d]) else []"
      have "0 < n" using longest_control_token [OF found(2)] by auto
      then have "length (drop n piece) < length piece" using False by simp
      moreover have "known tk (out @ i # ?dummy)"
        using less.prems token_id_known [OF v] found(3) by (auto split: option.splits)
      ultimately obtain r where "encode_piece_loop tk p (drop n piece) (out @ i # ?dummy) = Some r" "fine tk r"
        using less.hyps by blast
      moreover have "encode_piece_loop tk p piece out = encode_piece_loop tk p (drop n piece) (out @ i # ?dummy)"
        using False Some found(1) by (subst encode_piece_loop.simps) (simp add: Let_def del: not_None_eq)
      ultimately show ?thesis by simp
    next
      case None
      let ?e = "if p then (case next_control_token_start tk piece True of None \<Rightarrow> length piece | Some n \<Rightarrow> n) else length piece"
      let ?r = "if tk_bpe_ranks tk = [] \<and> \<not> p then encode_piece_greedy tk (take ?e piece) else encode_spm_segment tk (take ?e piece)"
      have no: "longest_control_token_at tk piece True = None" if p
      proof (rule ccontr)
        assume "longest_control_token_at tk piece True \<noteq> None"
        then obtain t n where l: "longest_control_token_at tk piece True = Some (t, n)" by auto
        from longest_control_token [OF l] control_token_id [OF v] obtain i where "token_id tk t = Some i" by blast
        with None that l show False by simp
      qed
      have e: "0 < ?e" using next_start_pos [OF no] False by (auto split: option.splits)
      have r: "fine tk ?r" using greedy_fine [OF assms] spm_segment_fine [OF assms] by simp
      have step: "encode_piece_loop tk p piece out = (case ?r of Inl e \<Rightarrow> Some (Inl e) | Inr ids \<Rightarrow> encode_piece_loop tk p (drop ?e piece) (out @ ids))"
        using False None by (subst encode_piece_loop.simps) (simp add: Let_def)
      show ?thesis
      proof (cases ?r)
        case (Inl err)
        then show ?thesis using r step by (simp add: fine_Inl)
      next
        case (Inr ids)
        have "length (drop ?e piece) < length piece" using e False by simp
        moreover have "known tk (out @ ids)" using r Inr less.prems by simp
        ultimately show ?thesis using less.hyps step Inr by simp
      qed
    qed
  qed
qed

text \<open>Property C12: encoding always returns, and what it returns are tokens of the vocabulary: for every well-formed
  tokenizer of either family, every text and every combination of the two flags the loops end, each identifier is below
  the vocabulary's size (so that the embedding lookup is in range), and a SentencePiece tokenizer that has an unknown
  token never fails.\<close>

theorem encoding_returns_known_tokens:
  assumes "well_formed tk"
  shows "\<exists>r. encode lib tk s add_special parse_special = Some r
       \<and> (\<forall>ids. r = Inr ids \<longrightarrow> list_all (\<lambda>i. i < length (tk_tokens tk)) ids)
       \<and> (tk_model tk = LlamaSpm \<and> sp_unk (tk_special tk) \<noteq> None \<longrightarrow> (\<exists>ids. r = Inr ids))"
proof -
  have v: "vocabulary_ok tk" using assms by (simp add: well_formed_def)
  let ?bos = "if add_special \<and> add_bos (tk_config tk) then (case sp_bos (tk_special tk) of None \<Rightarrow> [] | Some i \<Rightarrow> [i]) else []"
  let ?eos = "if add_special \<and> add_eos (tk_config tk) then (case sp_eos (tk_special tk) of None \<Rightarrow> [] | Some i \<Rightarrow> [i]) else []"
  let ?body = "case tk_model tk of
           LlamaSpm \<Rightarrow> (let normalized = normalize_spm_text tk s parse_special in
             if normalized = [] then Some (Inr []) else encode_piece tk normalized parse_special)
         | Gpt2Bpe \<Rightarrow> if s = [] then Some (Inr []) else encode_bpe_text lib tk parse_special s []"
  have ends: "known tk ?bos" "known tk ?eos"
    using special_known [OF assms] specials_members(1,2) [of tk] by (auto split: option.splits)
  have spm: "\<exists>r. encode_piece tk x parse_special = Some r \<and> fine tk r" for x
    using piece_loop_fine [OF assms, of "[]" parse_special x] greedy_fine [OF assms] by (simp add: encode_piece_def)
  have "\<exists>r. ?body = Some r \<and> (\<forall>ids. r = Inr ids \<longrightarrow> known tk ids)
      \<and> (tk_model tk = LlamaSpm \<and> sp_unk (tk_special tk) \<noteq> None \<longrightarrow> (\<exists>ids. r = Inr ids))"
  proof (cases "tk_model tk")
    case LlamaSpm
    then show ?thesis using spm [of "normalize_spm_text tk s parse_special"] by (auto simp: Let_def fine_def)
  next
    case Gpt2Bpe
    then show ?thesis using encode_bpe_loop [OF v, of lib parse_special s "[]"] by (auto simp: encodes_rest_def)
  qed
  then obtain r where r: "?body = Some r" "\<forall>ids. r = Inr ids \<longrightarrow> known tk ids"
      "tk_model tk = LlamaSpm \<and> sp_unk (tk_special tk) \<noteq> None \<longrightarrow> (\<exists>ids. r = Inr ids)" by blast
  have "encode lib tk s add_special parse_special = Some (and_then r (\<lambda>ids. Inr (?bos @ ids @ ?eos)))"
    using r(1) by (simp only: encode_def Let_def option.map)
  then show ?thesis using r(2,3) ends by (auto simp: and_then_Inr_iff simp flip: known_def)
qed

section \<open>Incremental decoding\<close>

lemma valid_prefix_take: "valid_prefix bytes = take (valid_up_to bytes) bytes"
proof (cases "is_utf8 bytes")
  case True
  then show ?thesis by (simp add: valid_prefix_def is_utf8_def)
next
  case False
  then show ?thesis using is_utf8_take [of bytes] by (simp add: valid_prefix_def Let_def)
qed

text \<open>The text only grows.\<close>

definition extends :: "string \<Rightarrow> string \<Rightarrow> bool" where
  "extends s s' \<longleftrightarrow> (\<exists>x. s' = s @ x)"

lemma extends_refl [simp]: "extends s s" by (simp add: extends_def)

lemma extends_append [simp]: "extends s (s @ x)" by (simp add: extends_def)

lemma extends_trans: "extends a b \<Longrightarrow> extends b c \<Longrightarrow> extends a c" by (auto simp: extends_def)

lemma valid_prefix_extends: "extends (valid_prefix a) (valid_prefix (a @ b))"
  unfolding valid_prefix_take extends_def using valid_prefix_grows [of a b] by blast

lemma flush_extends: "extends (flush_bytes a decoded) (flush_bytes (a @ b) decoded)"
  using valid_prefix_extends [of a b] by (auto simp: flush_bytes_def extends_def)

text \<open>One token's effect on the pending bytes and the text.\<close>

definition spm_token :: "Tokenizer \<Rightarrow> bool \<Rightarrow> nat \<Rightarrow> string \<times> string \<Rightarrow> (string \<times> string) engine_result" where
  "spm_token tk rs tid state = and_then (visible_token tk rs tid) (\<lambda>found. case found of
       None \<Rightarrow> Inr state
     | Some token \<Rightarrow> (case parse_byte_token (tok_text token) of
           Some byte \<Rightarrow> Inr (fst state @ [char_of byte], snd state)
         | None \<Rightarrow> Inr ([], flush_bytes (fst state) (snd state) @ replace_spm_space (tok_text token))))"

fun spm_state :: "Tokenizer \<Rightarrow> bool \<Rightarrow> nat list \<Rightarrow> string \<times> string \<Rightarrow> (string \<times> string) engine_result" where
  "spm_state tk rs [] state = Inr state"
| "spm_state tk rs (tid # ids) state = and_then (spm_token tk rs tid state) (spm_state tk rs ids)"

lemma decode_spm_state:
  "decode_spm tk rs ids bytes decoded = and_then (spm_state tk rs ids (bytes, decoded)) (\<lambda>(b, d). Inr (flush_bytes b d))"
proof (induction tk rs ids bytes decoded rule: decode_spm.induct)
  case (2 tk rs tid ids bytes decoded)
  show ?case
  proof (cases "visible_token tk rs tid")
    case (Inr found)
    then show ?thesis using 2 by (cases found) (auto simp: spm_token_def split: option.splits)
  qed (simp add: spm_token_def)
qed simp

lemma spm_state_append: "spm_state tk rs (a @ b) state = and_then (spm_state tk rs a state) (spm_state tk rs b)"
proof (induction a arbitrary: state)
  case (Cons i a)
  then show ?case by (cases "spm_token tk rs i state") simp_all
qed simp

lemma spm_token_extends:
  assumes "spm_token tk rs tid (b, d) = Inr (b', d')"
  shows "extends (flush_bytes b d) (flush_bytes b' d')"
proof -
  from assms obtain found where f: "visible_token tk rs tid = Inr found" by (cases "visible_token tk rs tid") (auto simp: spm_token_def)
  show ?thesis
  proof (cases found)
    case None
    then show ?thesis using assms f by (simp add: spm_token_def)
  next
    case (Some token)
    show ?thesis
    proof (cases "parse_byte_token (tok_text token)")
      case None
      then have "b' = []" "d' = flush_bytes b d @ replace_spm_space (tok_text token)" using assms f Some by (simp_all add: spm_token_def)
      then show ?thesis by (simp add: flush_bytes_def)
    next
      case (Some byte)
      then have "b' = b @ [char_of byte]" "d' = d" using assms f \<open>found = Some token\<close> by (simp_all add: spm_token_def)
      then show ?thesis using flush_extends by simp
    qed
  qed
qed

lemma decode_extends:
  assumes "decode lib tk (ids @ [i]) rs = Inr s'"
  shows "\<exists>s. decode lib tk ids rs = Inr s \<and> extends s s'"
proof (cases "tk_model tk = Gpt2Bpe")
  case True
  from assms True obtain a b where a: "bpe_bytes lib tk rs ids = Inr a" and "bpe_bytes lib tk rs [i] = Inr b" and s': "s' = valid_prefix (a @ b)"
    by (auto simp: decode_def decode_bpe_def bpe_bytes_append and_then_Inr_iff simp del: bpe_bytes.simps)
  then show ?thesis using True valid_prefix_extends by (simp add: decode_def decode_bpe_def)
next
  case False
  from assms False obtain b d b' d' where "spm_state tk rs ids ([], []) = Inr (b, d)" "spm_token tk rs i (b, d) = Inr (b', d')" "s' = flush_bytes b' d'"
    by (auto simp: decode_def decode_spm_state spm_state_append and_then_Inr_iff)
  then show ?thesis using False spm_token_extends by (auto simp: decode_def decode_spm_state)
qed

lemma push_decodes:
  assumes "decode lib tk ids rs = Inr s"
  shows "push lib tk rs i \<lparr>inc_ids = ids, inc_emitted = s\<rparr> = (case decode lib tk (ids @ [i]) rs of
       Inl e \<Rightarrow> (Inl e, \<lparr>inc_ids = ids, inc_emitted = s\<rparr>)
     | Inr s' \<Rightarrow> (Inr (drop (length s) s'), \<lparr>inc_ids = ids @ [i], inc_emitted = s'\<rparr>))"
proof (cases "decode lib tk (ids @ [i]) rs")
  case (Inr s')
  with decode_extends [OF Inr] assms have "extends s s'" by auto
  then show ?thesis using Inr by (auto simp: push_def Let_def strip_prefix_def extends_def)
qed (simp add: push_def Let_def)

fun push_all :: "char_lib \<Rightarrow> Tokenizer \<Rightarrow> bool \<Rightarrow> nat list \<Rightarrow> IncrementalDecoder \<Rightarrow> string list engine_result \<times> IncrementalDecoder" where
  "push_all lib tk rs [] d = (Inr [], d)"
| "push_all lib tk rs (i # ids) d = (case push lib tk rs i d of
       (Inl e, d') \<Rightarrow> (Inl e, d')
     | (Inr delta, d') \<Rightarrow> (case push_all lib tk rs ids d' of (r, d'') \<Rightarrow> (and_then r (\<lambda>deltas. Inr (delta # deltas)), d'')))"

lemma decode_of_prefix: "decode lib tk (a @ b) rs = Inr s \<Longrightarrow> \<exists>s'. decode lib tk a rs = Inr s'"
proof (induction b arbitrary: s rule: rev_induct)
  case (snoc i b)
  then have "decode lib tk ((a @ b) @ [i]) rs = Inr s" by simp
  from decode_extends [OF this] snoc.IH show ?case by blast
qed simp

lemma push_all_decodes:
  "decode lib tk before rs = Inr s0 \<Longrightarrow> decode lib tk (before @ ids) rs = Inr s \<Longrightarrow>
     \<exists>deltas. push_all lib tk rs ids \<lparr>inc_ids = before, inc_emitted = s0\<rparr> = (Inr deltas, \<lparr>inc_ids = before @ ids, inc_emitted = s\<rparr>)
            \<and> s = s0 @ concat deltas"
proof (induction ids arbitrary: before s0)
  case (Cons i ids)
  have split: "decode lib tk ((before @ [i]) @ ids) rs = Inr s" using Cons.prems(2) by simp
  from decode_of_prefix [OF this] obtain s1 where s1: "decode lib tk (before @ [i]) rs = Inr s1" by blast
  from decode_extends [OF this] Cons.prems(1) have e: "s1 = s0 @ drop (length s0) s1" by (auto simp: extends_def)
  from Cons.IH [OF s1 split] obtain deltas where
    "push_all lib tk rs ids \<lparr>inc_ids = before @ [i], inc_emitted = s1\<rparr> = (Inr deltas, \<lparr>inc_ids = before @ i # ids, inc_emitted = s\<rparr>)"
    "s = s1 @ concat deltas" by auto
  then show ?case using push_decodes [OF Cons.prems(1), of i] s1 e
    by (intro exI [of _ "drop (length s0) s1 # deltas"]) (auto simp flip: append.assoc)
qed simp

lemma decode_nothing: "decode lib tk [] rs = Inr []"
  by (simp add: decode_def decode_bpe_def valid_prefix_def flush_bytes_def)

text \<open>Property C10: decoding token by token gives exactly what decoding at once gives: when the whole sequence decodes, every
  push succeeds, the pieces put together are the decoded text, also when a character is cut across tokens; and a push
  fails only when decoding the longer sequence fails, with the same error, and leaves the decoder as it was.\<close>

theorem incremental_decoding_is_decoding:
  "(\<forall>s. decode lib tk ids rs = Inr s \<longrightarrow>
      (\<exists>deltas. push_all lib tk rs ids incremental_decoder = (Inr deltas, \<lparr>inc_ids = ids, inc_emitted = s\<rparr>) \<and> concat deltas = s))
   \<and> (\<forall>s i e d. decode lib tk ids rs = Inr s \<and> push lib tk rs i \<lparr>inc_ids = ids, inc_emitted = s\<rparr> = (Inl e, d) \<longrightarrow>
        d = \<lparr>inc_ids = ids, inc_emitted = s\<rparr> \<and> decode lib tk (ids @ [i]) rs = Inl e)"
proof (intro conjI allI impI)
  fix s assume "decode lib tk ids rs = Inr s"
  with push_all_decodes [OF decode_nothing, where lib = lib and tk = tk and rs = rs and ids = ids and s = s]
  show "\<exists>deltas. push_all lib tk rs ids incremental_decoder = (Inr deltas, \<lparr>inc_ids = ids, inc_emitted = s\<rparr>) \<and> concat deltas = s"
    by (auto simp: incremental_decoder_def)
next
  fix s i e d
  assume a: "decode lib tk ids rs = Inr s \<and> push lib tk rs i \<lparr>inc_ids = ids, inc_emitted = s\<rparr> = (Inl e, d)"
  then show "d = \<lparr>inc_ids = ids, inc_emitted = s\<rparr>" "decode lib tk (ids @ [i]) rs = Inl e"
    using push_decodes [of lib tk ids rs s i] by (auto split: sum.splits)
qed

section \<open>A small vocabulary\<close>

definition demo_token :: "nat \<Rightarrow> string \<Rightarrow> TokenKind \<Rightarrow> Token" where
  "demo_token i s kind = \<lparr>tok_id = i, tok_text = s, tok_score = 0, tok_kind = kind\<rparr>"

definition demo_tokenizer :: Tokenizer where
  "demo_tokenizer =
     \<lparr>tk_model = Gpt2Bpe, tk_pre = Llama3,
      tk_tokens = [demo_token 0 ''h'' Normal, demo_token 1 ''i'' Normal, demo_token 2 ''hi'' Normal, demo_token 3 ''<|end|>'' Control],
      tk_token_to_id = [(''h'', 0), (''i'', 1), (''hi'', 2), (''<|end|>'', 3)], tk_byte_token_to_id = [],
      tk_bpe_ranks = [((''h'', ''i''), 0)], tk_bpe_registry = [((''h'', ''i''), 0)],
      tk_special = \<lparr>sp_bos = None, sp_eos = Some 3, sp_eot = None, sp_eom = None, sp_unk = None, sp_sep = None, sp_pad = None,
        sp_mask = None, sp_eog = {3}\<rparr>,
      tk_config = \<lparr>add_bos = False, add_eos = True, add_sep = False, add_space_prefix = True, remove_extra_whitespaces = False\<rparr>,
      tk_chat_template = None\<rparr>"

lemma demo_vocabulary_ok: "vocabulary_ok demo_tokenizer"
  by (auto simp: vocabulary_ok_def demo_tokenizer_def demo_token_def token_id_def less_Suc_eq nth_Cons' ascii_is_utf8 char_code_def
      split: if_splits)

lemma demo_well_formed: "well_formed demo_tokenizer"
  using demo_vocabulary_ok by (simp add: well_formed_def) (simp add: demo_tokenizer_def specials_def)

lemma demo_printable: "printable_controls demo_tokenizer"
  by (simp add: printable_controls_def demo_tokenizer_def demo_token_def is_control_token_def printable_def char_code_def)

theorem bpe_text_round_trip_witness:
  "\<exists>r. encode demo_chars demo_tokenizer ''hi<|end|>'' False True = Some r
     \<and> (\<forall>ids. r = Inr ids \<longrightarrow> decode demo_chars demo_tokenizer ids False = Inr ''hi<|end|>'')"
proof -
  have "is_utf8 ''hi<|end|>''" by (rule ascii_is_utf8) (simp add: char_code_def)
  with bpe_text_round_trip [OF demo_well_formed _ demo_printable this, of demo_chars True] show ?thesis
    by (auto simp: demo_tokenizer_def)
qed

theorem encoding_returns_known_tokens_witness:
  "\<exists>r. encode demo_chars demo_tokenizer ''hi'' True True = Some r \<and> (\<forall>ids. r = Inr ids \<longrightarrow> list_all (\<lambda>i. i < 4) ids)"
proof -
  have n: "length (tk_tokens demo_tokenizer) = 4" by (simp add: demo_tokenizer_def)
  have "tk_model demo_tokenizer = Gpt2Bpe" by (simp add: demo_tokenizer_def)
  then show ?thesis using encoding_returns_known_tokens [OF demo_well_formed, of demo_chars "''hi''" True True]
    unfolding n by simp
qed

lemma char_of_demo: "char_of (104 :: nat) = CHR ''h''" "char_of (105 :: nat) = CHR ''i''"
  by code_simp+

lemma demo_decoding:
  "chars ''hi'' = [''h'', ''i'']" "chars ''h'' = [''h'']" "bpe_char_to_byte 104 = Some 104" "bpe_char_to_byte 105 = Some 105"
  "char_of (104 :: nat) = CHR ''h''" "char_of (105 :: nat) = CHR ''i''"
  using byte_alphabet(2) [of 104 104] byte_alphabet(2) [of 105 105] char_of_demo
  by (simp_all add: bpe_byte_to_char_def visible_def chars.simps char_width_def utf8_width_def char_code_def)

lemmas demo_decode_simps = decode_def decode_bpe_def demo_tokenizer_def demo_token_def visible_token_def is_special_def token_at_def
  is_chat_control_marker_def valid_prefix_def char_code_def

lemma demo_decodes: "decode demo_chars demo_tokenizer [2, 0, 3] True = Inr ''hih''" "decode demo_chars demo_tokenizer [0, 0] True = Inr ''hh''"
  using demo_decoding ascii_is_utf8 [of "''hih''"] ascii_is_utf8 [of "''hh''"] by (simp_all add: demo_decode_simps)

theorem incremental_decoding_is_decoding_witness:
  "\<exists>deltas. fst (push_all demo_chars demo_tokenizer True [2, 0, 3] incremental_decoder) = Inr deltas \<and> concat deltas = ''hih''"
  using incremental_decoding_is_decoding [THEN conjunct1, rule_format, OF demo_decodes(1)] by auto

section \<open>A small model file\<close>

definition vocabulary_entries :: "(string \<times> MetadataValue) list" where
  "vocabulary_entries =
     [(''tokenizer.ggml.model'', String ''llama''), (''tokenizer.ggml.tokens'', Array [String ''a'', String ''b'', String ''ab''])]"

definition vocabulary_file :: GgufFile where
  "vocabulary_file = \<lparr>gguf_path = ''v.gguf'', gguf_version = word_of_nat 3, gguf_tensor_count = 0, gguf_metadata_count = 2,
     gguf_alignment = 32, gguf_data_start = 160, gguf_metadata = map_of vocabulary_entries, gguf_tensors = []\<rparr>"

lemma vocabulary_alignment: "alignment_of (map_of vocabulary_entries) = Inr 32"
  by (simp add: alignment_of_def vocabulary_entries_def DEFAULT_ALIGNMENT_def is_pow2_def upt_rec)

lemma vocabulary_entries_ok: "list_all entry_ok vocabulary_entries"
  by (simp add: vocabulary_entries_def entry_ok_def ascii_is_utf8 MAX_STRING_BYTES_def MAX_ARRAY_LEN_def u64_max_def char_code_def)

lemma vocabulary_header: "length (written_header 3 vocabulary_entries []) = 142"
  by (simp add: written_header_def GGUF_MAGIC_def vocabulary_entries_def written_entry_def written_string_def written_value_def)

lemma vocabulary_read: "read_metadata_with_len ''v.gguf'' (Inr (written_header 3 vocabulary_entries [] @ []), None) 160 = Inr vocabulary_file"
proof -
  have h: "written_header 3 vocabulary_entries (laid_out 32 0 []) = written_header 3 vocabulary_entries []" by simp
  have keys: "distinct (map fst vocabulary_entries)" "length vocabulary_entries = 2" by (simp_all add: vocabulary_entries_def)
  have start: "160 = round_up 32 (length (written_header 3 vocabulary_entries []))" by (simp add: vocabulary_header round_up_def)
  show ?thesis
    using read_written [of 3 vocabulary_entries 32 "[]" 160 160 "''v.gguf''" "[]" None, unfolded h]
      vocabulary_entries_ok keys vocabulary_alignment start vocabulary_header
    by (simp add: u64_max_def vocabulary_file_def)
qed

lemma vocabulary_accepted: "\<exists>tk. from_gguf (\<lambda>s. s) vocabulary_file = Inr tk \<and> map tok_text (tk_tokens tk) = [''a'', ''b'', ''ab'']"
proof -
  have kind: "token_kind_from_i32 1 = Inr Normal" by (simp add: token_kind_from_i32_def)
  have no_bytes: "parse_byte_token ''a'' = None" "parse_byte_token ''b'' = None" "parse_byte_token ''ab'' = None"
    by (simp_all add: parse_byte_token_def)
  have meta: "gguf_metadata vocabulary_file = map_of vocabulary_entries" by (simp add: vocabulary_file_def)
  have strings: "metadata_string vocabulary_file ''tokenizer.ggml.model'' = Some ''llama''"
    "metadata_array_strings vocabulary_file ''tokenizer.ggml.tokens'' = Inr [''a'', ''b'', ''ab'']"
    by (simp_all add: meta metadata_string_def metadata_array_strings_def metadata_array_strings_optional_def typed_array_optional_def vocabulary_entries_def)
  have absent: "metadata_array_f32_optional vocabulary_file ''tokenizer.ggml.scores'' = Inr None"
    "metadata_array_i32_optional vocabulary_file ''tokenizer.ggml.token_type'' = Inr None"
    "metadata_array_strings_optional vocabulary_file ''tokenizer.ggml.merges'' = Inr None"
    by (simp_all add: meta metadata_array_f32_optional_def metadata_array_i32_optional_def metadata_array_strings_optional_def
        typed_array_optional_def vocabulary_entries_def)
  have numbers: "metadata_u32 vocabulary_file key = None" if "key \<notin> {''tokenizer.ggml.model'', ''tokenizer.ggml.tokens''}" for key
    using that by (simp add: meta metadata_u32_def vocabulary_entries_def)
  have special: "validate_special (special_tokens vocabulary_file LlamaSpm t2i) 3 = Inr ()"
    if "map_of t2i ''<|eot_id|>'' = None" for t2i
    using that by (simp add: special_tokens_def numbers or_else_def validate_special_def validate_token_id_def)
  define t2i where "t2i = [(''a'', 0 :: nat), (''b'', 1), (''ab'', 2)]"
  have built: "build_vocabulary (replicate (Suc (Suc (Suc 0))) 1) (replicate (Suc (Suc (Suc 0))) 0) 0 [''a'', ''b'', ''ab''] ([], [], []) =
      Inr ([demo_token 0 ''a'' Normal, demo_token 1 ''b'' Normal, demo_token 2 ''ab'' Normal], t2i, [])"
    by (simp add: kind no_bytes t2i_def demo_token_def)
  have "map_of t2i ''<|eot_id|>'' = None" by (simp add: t2i_def)
  from special [OF this] show ?thesis
    by (simp add: from_gguf_def strings absent tokenizer_model_def built Let_def numeral_3_eq_3
        del: build_vocabulary.simps replicate.simps) (simp add: demo_token_def)
qed

theorem loaded_tokenizer_is_well_formed_witness:
  "\<exists>tk. from_gguf (\<lambda>s. s) vocabulary_file = Inr tk \<and> map tok_text (tk_tokens tk) = [''a'', ''b'', ''ab''] \<and> well_formed tk"
proof -
  obtain tk where tk: "from_gguf (\<lambda>s. s) vocabulary_file = Inr tk \<and> map tok_text (tk_tokens tk) = [''a'', ''b'', ''ab'']"
    using vocabulary_accepted ..
  with loaded_tokenizer_is_well_formed [OF vocabulary_read conjunct1 [OF tk]] show ?thesis by (intro exI [of _ tk]) simp
qed

end
