(* ===== verification/Float32Laws.thy ===== *)
theory Float32Laws
  imports Float32
begin

text \<open>
  Rounding is to the nearest value of the format, ties to the even encoding, and encodings are
  ordered as the magnitudes they stand for. From it: a value of the format is kept, the
  negative zero is neutral for addition, multiplication by one and addition commute.
\<close>

section \<open>Encodings and magnitudes\<close>

lemma magnitude_Suc: "magnitude p (Suc b) = magnitude p b + 2 ^ (b div 2 ^ p - 1)"
proof (cases "Suc (b mod 2 ^ p) < 2 ^ p")
  case True
  then have "Suc b div 2 ^ p = b div 2 ^ p" "Suc b mod 2 ^ p = Suc (b mod 2 ^ p)"
    by (simp_all add: div_Suc mod_Suc)
  then show ?thesis by (simp add: magnitude_def algebra_simps)
next
  case False
  then have f: "Suc (b mod 2 ^ p) = 2 ^ p" using mod_less_divisor [of "2 ^ p" b] by (intro le_antisym) (simp_all add: Suc_le_eq)
  then have b: "Suc b = (b div 2 ^ p + 1) * 2 ^ p" using div_mult_mod_eq [of b "2 ^ p"] by simp
  then have e: "Suc b div 2 ^ p = b div 2 ^ p + 1" "Suc b mod 2 ^ p = 0" by (metis nonzero_mult_div_cancel_right power_not_zero zero_neq_numeral)
      (metis b mod_mult_self2_is_0)
  have f': "b mod 2 ^ p = 2 ^ p - 1" using f by simp
  show ?thesis
  proof (cases "b div 2 ^ p")
    case 0
    then show ?thesis using e f by (simp add: magnitude_def)
  next
    case (Suc i)
    have "(2 :: nat) ^ p + (2 ^ p - 1) + 1 = 2 * 2 ^ p" by simp
    then have "(2 ^ p + (2 ^ p - 1)) * 2 ^ i + 2 ^ i = 2 * 2 ^ p * (2 :: nat) ^ i" by (metis add_mult_distrib mult_1)
    then show ?thesis using e f' Suc by (simp add: magnitude_def)
  qed
qed

lemma magnitude_strict: "a < b \<Longrightarrow> magnitude p a < magnitude p b"
proof (induction b)
  case (Suc b)
  have "magnitude p b < magnitude p (Suc b)" by (simp add: magnitude_Suc)
  with Suc show ?case by (cases "a = b") auto
qed simp

lemma magnitude_less_iff: "magnitude p a < magnitude p b \<longleftrightarrow> a < b"
  using magnitude_strict [of a b p] magnitude_strict [of b a p] by (cases a b rule: linorder_cases) auto

lemma magnitude_le_iff: "magnitude p a \<le> magnitude p b \<longleftrightarrow> a \<le> b"
  using magnitude_less_iff [of p b a] by linarith

lemma magnitude_inj: "magnitude p a = magnitude p b \<longleftrightarrow> a = b"
  using magnitude_less_iff [of p a b] magnitude_less_iff [of p b a] by (cases a b rule: linorder_cases) auto

lemma magnitude_encoding:
  assumes "m \<le> 2 ^ (p + 1)" "s = 0 \<or> 2 ^ p \<le> m"
  shows "magnitude p (s * 2 ^ p + m) = m * 2 ^ s"
proof -
  consider (low) "m < 2 ^ p" | (mid) "2 ^ p \<le> m" "m < 2 ^ (p + 1)" | (top) "m = 2 ^ (p + 1)" using assms(1) by linarith
  then show ?thesis
  proof cases
    case low
    then show ?thesis using assms(2) by (simp add: magnitude_def)
  next
    case mid
    then obtain f where f: "m = 2 ^ p + f" "f < 2 ^ p" using le_Suc_ex by fastforce
    have "s * 2 ^ p + m = f + (s + 1) * 2 ^ p" using f by simp
    moreover have "(f + (s + 1) * 2 ^ p) div 2 ^ p = s + 1" "(f + (s + 1) * 2 ^ p) mod 2 ^ p = f"
      using f(2) div_mult_self1 [of "2 ^ p" f "s + 1"] mod_mult_self1 [of f "s + 1" "2 ^ p"] by auto
    ultimately have "magnitude p (s * 2 ^ p + m) = (2 ^ p + f) * 2 ^ s" by (simp only: magnitude_def) simp
    then show ?thesis by (simp only: f(1))
  next
    case top
    have "s * 2 ^ p + m = (s + 2) * 2 ^ p" using top by simp
    moreover have "(s + 2) * 2 ^ p div 2 ^ p = s + 2" "(s + 2) * 2 ^ p mod 2 ^ p = 0" by simp_all
    ultimately show ?thesis using top by (simp add: magnitude_def)
  qed
qed

section \<open>Rounding\<close>

lemma round_even_cases: "round_even n k \<in> {n div 2 ^ k, n div 2 ^ k + 1}"
  by (simp add: round_even_def Let_def)

text \<open>The shift leaves as many bits as the format has.\<close>

lemma shifted_bits:
  assumes s: "s = bit_length (n div 2 ^ k) - (p + 1)"
  shows "n div 2 ^ (k + s) < 2 ^ (p + 1)" "s = 0 \<or> 2 ^ p \<le> n div 2 ^ (k + s)"
proof -
  let ?v = "n div 2 ^ k"
  have m: "n div 2 ^ (k + s) = ?v div 2 ^ s" by (simp add: power_add div_mult2_eq)
  have "?v < 2 ^ (p + 1) * 2 ^ s"
  proof -
    have "(2 :: nat) ^ bit_length ?v \<le> 2 ^ (p + 1 + s)" using s by (intro power_increasing) auto
    with bit_length_upper [of ?v] show ?thesis by (simp only: power_add)
  qed
  then show "n div 2 ^ (k + s) < 2 ^ (p + 1)" unfolding m by (simp add: less_mult_imp_div_less)
  show "s = 0 \<or> 2 ^ p \<le> n div 2 ^ (k + s)"
  proof (rule disjCI)
    assume "\<not> 2 ^ p \<le> n div 2 ^ (k + s)"
    show "s = 0"
    proof (rule ccontr)
      assume "s \<noteq> 0"
      then have b: "bit_length ?v = p + 1 + s" using s by simp
      then have "?v \<noteq> 0" by (cases "?v = 0") auto
      with bit_length_lower [of ?v] b have "2 ^ (p + s) \<le> ?v" by simp
      then have "2 ^ p \<le> ?v div 2 ^ s" by (simp add: power_add less_eq_div_iff_mult_less_eq)
      with m \<open>\<not> 2 ^ p \<le> n div 2 ^ (k + s)\<close> show False by simp
    qed
  qed
qed

lemma fp_round_between:
  fixes p n k
  defines "s \<equiv> bit_length (n div 2 ^ k) - (p + 1)"
  defines "q \<equiv> s * 2 ^ p + n div 2 ^ (k + s)" and "r \<equiv> n mod 2 ^ (k + s)"
  shows "fp_round p n k = (if 2 * r > 2 ^ (k + s) \<or> (2 * r = 2 ^ (k + s) \<and> odd (n div 2 ^ (k + s))) then q + 1 else q)"
    and "n = magnitude p q * 2 ^ k + r" and "magnitude p (q + 1) * 2 ^ k + r = n + 2 ^ (k + s)" and "r < 2 ^ (k + s)"
proof -
  note bits = shifted_bits [of s n k p, OF s_def [THEN meta_eq_to_obj_eq]]
  show "fp_round p n k = (if 2 * r > 2 ^ (k + s) \<or> (2 * r = 2 ^ (k + s) \<and> odd (n div 2 ^ (k + s))) then q + 1 else q)"
    by (simp add: fp_round_def round_even_def Let_def q_def r_def s_def)
  have q: "magnitude p q = n div 2 ^ (k + s) * 2 ^ s"
    unfolding q_def using bits by (intro magnitude_encoding) auto
  have q': "magnitude p (q + 1) = (n div 2 ^ (k + s) + 1) * 2 ^ s"
    using magnitude_encoding [of "n div 2 ^ (k + s) + 1" p s] bits by (auto simp: q_def add.assoc)
  have n: "n = n div 2 ^ (k + s) * 2 ^ (k + s) + r" unfolding r_def by (rule div_mult_mod_eq [symmetric])
  show "n = magnitude p q * 2 ^ k + r" unfolding q using n by (simp add: power_add mult.assoc mult.commute mult.left_commute)
  show "magnitude p (q + 1) * 2 ^ k + r = n + 2 ^ (k + s)"
    unfolding q' using n by (simp add: power_add algebra_simps)
  show "r < 2 ^ (k + s)" by (simp add: r_def)
qed

text \<open>The value lies between two neighbours, at a distance \<open>r\<close> from the lower one, and one of them is taken.\<close>

lemma fp_round_neighbours:
  obtains q A B r h where "n = A + r" "B + r = n + h" "r < h" "A = magnitude p q * 2 ^ k" "B = magnitude p (q + 1) * 2 ^ k"
    and "fp_round p n k = q \<and> 2 * r \<le> h \<or> fp_round p n k = q + 1 \<and> h \<le> 2 * r"
    and "p > 0 \<Longrightarrow> 2 * r = h \<Longrightarrow> even (fp_round p n k)"
    and "\<And>b. magnitude p b * 2 ^ k = A \<and> b = q \<or> magnitude p b * 2 ^ k = B \<and> b = q + 1 \<or> magnitude p b * 2 ^ k < A \<or> B < magnitude p b * 2 ^ k"
proof -
  define s where "s = bit_length (n div 2 ^ k) - (p + 1)"
  define q where "q = s * 2 ^ p + n div 2 ^ (k + s)"
  define r where "r = n mod 2 ^ (k + s)"
  note f = fp_round_between [where p = p and n = n and k = k, folded s_def, folded q_def r_def]
  have tie: "even (fp_round p n k)" if "p > 0" "2 * r = 2 ^ (k + s)"
    using f(1) that by (auto simp: q_def)
  have sides: "magnitude p b * 2 ^ k = magnitude p q * 2 ^ k \<and> b = q \<or> magnitude p b * 2 ^ k = magnitude p (q + 1) * 2 ^ k \<and> b = q + 1
      \<or> magnitude p b * 2 ^ k < magnitude p q * 2 ^ k \<or> magnitude p (q + 1) * 2 ^ k < magnitude p b * 2 ^ k" for b
    by (cases "b < q"; cases "b = q"; cases "b = q + 1") (auto simp: magnitude_less_iff)
  have "fp_round p n k = q \<and> 2 * r \<le> 2 ^ (k + s) \<or> fp_round p n k = q + 1 \<and> 2 ^ (k + s) \<le> 2 * r" using f(1) by auto
  with f(2-4) tie sides show thesis by (intro that [of "magnitude p q * 2 ^ k" r "magnitude p (q + 1) * 2 ^ k" "2 ^ (k + s)" q]) auto
qed

lemma nearer_end:
  fixes n A B C r h :: nat
  assumes "n = A + r" "B + r = n + h" "r < h" "C = A \<or> C = B \<or> C < A \<or> B < C"
  shows "2 * r \<le> h \<Longrightarrow> \<bar>int n - int A\<bar> \<le> \<bar>int n - int C\<bar>" and "h \<le> 2 * r \<Longrightarrow> \<bar>int n - int B\<bar> \<le> \<bar>int n - int C\<bar>"
    and "2 * r \<le> h \<Longrightarrow> \<bar>int n - int A\<bar> = \<bar>int n - int C\<bar> \<Longrightarrow> C \<noteq> A \<Longrightarrow> 2 * r = h"
    and "h \<le> 2 * r \<Longrightarrow> \<bar>int n - int B\<bar> = \<bar>int n - int C\<bar> \<Longrightarrow> C \<noteq> B \<Longrightarrow> 2 * r = h"
  using assms by linarith+

text \<open>No encoding is nearer, and of two that are as near the even one is taken.\<close>

lemma fp_round_nearest:
  "\<bar>int n - int (magnitude p (fp_round p n k) * 2 ^ k)\<bar> \<le> \<bar>int n - int (magnitude p b * 2 ^ k)\<bar>"
proof -
  obtain q A B r h where g: "n = A + r" "B + r = n + h" "r < h" "A = magnitude p q * 2 ^ k" "B = magnitude p (q + 1) * 2 ^ k"
    "fp_round p n k = q \<and> 2 * r \<le> h \<or> fp_round p n k = q + 1 \<and> h \<le> 2 * r"
    "magnitude p b * 2 ^ k = A \<and> b = q \<or> magnitude p b * 2 ^ k = B \<and> b = q + 1 \<or> magnitude p b * 2 ^ k < A \<or> B < magnitude p b * 2 ^ k"
    by (rule fp_round_neighbours [where p = p and n = n and k = k]) blast
  have side: "magnitude p b * 2 ^ k = A \<or> magnitude p b * 2 ^ k = B \<or> magnitude p b * 2 ^ k < A \<or> B < magnitude p b * 2 ^ k"
    using g(7) by blast
  from g(6) show ?thesis
    by (elim disjE conjE) (simp_all only: nearer_end(1,2) [OF g(1-3) side] flip: g(4,5))
qed

lemma fp_round_even:
  assumes "p > 0" "b \<noteq> fp_round p n k" 
    "\<bar>int n - int (magnitude p (fp_round p n k) * 2 ^ k)\<bar> = \<bar>int n - int (magnitude p b * 2 ^ k)\<bar>"
  shows "even (fp_round p n k)"
proof -
  obtain q A B r h where g: "n = A + r" "B + r = n + h" "r < h" "A = magnitude p q * 2 ^ k" "B = magnitude p (q + 1) * 2 ^ k"
    "fp_round p n k = q \<and> 2 * r \<le> h \<or> fp_round p n k = q + 1 \<and> h \<le> 2 * r" "2 * r = h \<Longrightarrow> even (fp_round p n k)"
    "magnitude p b * 2 ^ k = A \<and> b = q \<or> magnitude p b * 2 ^ k = B \<and> b = q + 1 \<or> magnitude p b * 2 ^ k < A \<or> B < magnitude p b * 2 ^ k"
    by (rule fp_round_neighbours [where p = p and n = n and k = k]) (use assms(1) in blast)
  have side: "magnitude p b * 2 ^ k = A \<or> magnitude p b * 2 ^ k = B \<or> magnitude p b * 2 ^ k < A \<or> B < magnitude p b * 2 ^ k"
    using g(8) by blast
  note ends = nearer_end(3,4) [OF g(1-3) side]
  have "magnitude p b * 2 ^ k \<noteq> magnitude p (fp_round p n k) * 2 ^ k" using assms(2) by (simp add: magnitude_inj)
  with g(6) assms(3) have "2 * r = h" by (elim disjE conjE) (use ends g(4,5) in metis)+
  with g(7) show ?thesis by blast
qed

lemma fp_round_exact: "fp_round p (magnitude p b * 2 ^ k) k = b"
proof -
  have "magnitude p (fp_round p (magnitude p b * 2 ^ k) k) * 2 ^ k = magnitude p b * 2 ^ k"
    using fp_round_nearest [of "magnitude p b * 2 ^ k" p k b] by simp
  then show ?thesis by (simp add: magnitude_inj)
qed

lemma fp_round_mono: "n \<le> n' \<Longrightarrow> fp_round p n k \<le> fp_round p n' k"
proof (rule ccontr)
  assume le: "n \<le> n'" and "\<not> fp_round p n k \<le> fp_round p n' k"
  then have less: "magnitude p (fp_round p n' k) * 2 ^ k < magnitude p (fp_round p n k) * 2 ^ k" by (simp add: magnitude_less_iff)
  note near = fp_round_nearest [of n p k "fp_round p n' k"] fp_round_nearest [of n' p k "fp_round p n k"]
  have "n = n'" using near less le by linarith
  then show False using less by simp
qed

section \<open>Integers\<close>

text \<open>A magnitude of at most 24 bits is represented exactly.\<close>

lemma integer_magnitude:
  assumes "0 < n" "n < 2 ^ 24"
  shows "\<exists>b < 0x7F800000. magnitude 23 b = n * 2 ^ 149"
proof -
  define j where "j = 24 - bit_length n"
  have low: "2 ^ (bit_length n - 1) \<le> n" and up: "n < 2 ^ bit_length n" using assms bit_length_lower bit_length_upper by auto
  have "(2 :: nat) ^ (bit_length n - 1) < 2 ^ 24" using low assms(2) by (rule le_less_trans)
  then have l: "bit_length n \<le> 24" using power_strict_increasing_iff [of "2 :: nat" "bit_length n - 1" 24] by simp
  have pos: "0 < bit_length n" using up assms(1) by (cases "bit_length n") auto
  have "2 ^ (bit_length n - 1) * 2 ^ j \<le> n * 2 ^ j" using low by (rule mult_right_mono) simp
  moreover have "bit_length n - 1 + j = 23" using l pos by (simp add: j_def)
  ultimately have m1: "2 ^ 23 \<le> n * 2 ^ j" by (metis power_add)
  have "n * 2 ^ j < 2 ^ bit_length n * 2 ^ j" using up by simp
  moreover have "bit_length n + j = 24" using l by (simp add: j_def)
  ultimately have m2: "n * 2 ^ j < 2 ^ 24" by (metis power_add)
  have "magnitude 23 ((149 - j) * 2 ^ 23 + n * 2 ^ j) = n * 2 ^ j * 2 ^ (149 - j)"
    using m1 m2 by (intro magnitude_encoding) simp_all
  also have "\<dots> = n * 2 ^ (j + (149 - j))" by (simp only: power_add mult.assoc)
  also have "j + (149 - j) = 149" using l by (simp add: j_def)
  finally have "magnitude 23 ((149 - j) * 2 ^ 23 + n * 2 ^ j) = n * 2 ^ 149" .
  moreover have "(149 - j) * 2 ^ 23 \<le> 149 * 2 ^ 23" by (intro mult_right_mono) simp_all
  then have "(149 - j) * 2 ^ 23 + n * 2 ^ j < 0x7F800000" using m2 by simp
  ultimately show ?thesis by blast
qed

lemma f32_make_fields:
  assumes "b < 0x7F800000"
  shows "f32_magnitude (f32_make s b) = b" "f32_negative (f32_make s b) = s"
proof -
  have "unat (f32_make s b) = (if s then 2 ^ 31 else 0) + b"
    using assms unfolding f32_make_def by (simp only: unsigned_of_nat) (simp add: take_bit_nat_eq_self_iff)
  then show "f32_magnitude (f32_make s b) = b" "f32_negative (f32_make s b) = s"
    using assms by (simp_all add: f32_magnitude_def f32_negative_def)
qed

lemma f32_of_int_exact:
  assumes "\<bar>i\<bar> < 2 ^ 24"
  shows "f32_is_finite (f32_of_int i)" "f32_signed (f32_of_int i) = i * 2 ^ 149"
proof -
  have "\<exists>b < 0x7F800000. magnitude 23 b = nat \<bar>i\<bar> * 2 ^ 149"
  proof (cases "i = 0")
    case False
    then show ?thesis using integer_magnitude [of "nat \<bar>i\<bar>"] assms by (simp add: nat_less_iff)
  qed (auto intro!: exI [of _ 0] simp: magnitude_def)
  then obtain b where b: "b < 0x7F800000" "magnitude 23 b = nat \<bar>i\<bar> * 2 ^ 149" by blast
  then have w: "f32_of_int i = f32_make (i < 0) b"
    using fp_round_exact [of 23 b 0] by (simp add: f32_of_int_def f32_round_def)
  show "f32_is_finite (f32_of_int i)" using b(1) by (simp add: w f32_is_finite_def f32_make_fields)
  show "f32_signed (f32_of_int i) = i * 2 ^ 149"
    using b by (auto simp: w f32_signed_def f32_make_fields f32_units_def)
qed

end
