(* ===== verification/HalfFloat.thy ===== *)
theory HalfFloat
  imports Float32
begin

unbundle bit_operations_syntax

text \<open>
  Half-precision storage: the conversions of \<^verbatim>\<open>engine-core/src/forward/kv_cache.rs\<close>, which round
  every cached key and value, and those of \<^verbatim>\<open>engine-core/src/tensor/blocks.rs\<close>, which read and
  write the scales of quantized blocks. Bit patterns are taken apart as in the source, on
  natural numbers below the width of the type; a cast to \<^verbatim>\<open>u16\<close> is \<open>take_bit 16\<close>.
\<close>

section \<open>Storing\<close>

definition f32_to_f16_kv :: "f32 \<Rightarrow> 16 word" where
  "f32_to_f16_kv value =
     (let bits = unat value;
          sign = drop_bit 16 bits AND 0x8000;
          exp = drop_bit 23 bits AND 0xff;
          mant = bits AND 0x7fffff;
          half_exp = int exp - 127 + 15 in
      word_of_nat
       (if exp = 0xff then sign OR (if mant = 0 then 0x7c00 else 0x7e00)
        else if half_exp \<ge> 0x1f then sign OR 0x7c00
        else if half_exp \<le> 0 then
          (if half_exp < - 10 then sign
           else let mantissa = mant OR 0x800000;
                    shift = nat (14 - half_exp);
                    half_mant = take_bit 16 (drop_bit shift mantissa);
                    round_bit = push_bit (shift - 1) 1 in
             if mantissa AND round_bit \<noteq> 0 \<and> (mantissa AND (round_bit - 1) \<noteq> 0 \<or> half_mant AND 1 \<noteq> 0)
             then sign OR take_bit 16 (half_mant + 1) else sign OR half_mant)
        else let half = sign OR push_bit 10 (nat half_exp) OR drop_bit 13 mant in
          if mant AND 0x1000 \<noteq> 0 \<and> (mant AND 0xfff \<noteq> 0 \<or> half AND 1 \<noteq> 0) then take_bit 16 (half + 1) else half))"

definition f32_to_f16_bits :: "f32 \<Rightarrow> 16 word" where
  "f32_to_f16_bits value =
     (let bits = unat value;
          sign = drop_bit 16 bits AND 0x8000;
          exp = drop_bit 23 bits AND 0xff;
          frac = bits AND 0x7fffff;
          half_exp = int exp - 127 + 15 in
      word_of_nat
       (if exp = 0xff then sign OR 0x7c00 OR (if frac \<noteq> 0 then 0x200 OR (drop_bit 13 frac AND 0x3ff) else 0)
        else if half_exp \<ge> 0x1f then sign OR 0x7c00
        else if half_exp \<le> 0 then
          (if half_exp < - 10 then sign
           else let mant = frac OR 0x800000;
                    shift = nat (14 - half_exp);
                    half = take_bit 16 (drop_bit shift mant);
                    rem = mant AND (push_bit shift 1 - 1);
                    halfway = push_bit (shift - 1) 1 in
             sign OR (if rem > halfway \<or> (rem = halfway \<and> half AND 1 = 1) then half + 1 else half))
        else let half = push_bit 10 (nat half_exp) OR drop_bit 13 frac;
                 rem = frac AND 0x1fff in
          sign OR take_bit 16 (if rem > 0x1000 \<or> (rem = 0x1000 \<and> half AND 1 = 1) then half + 1 else half)))"

section \<open>Reading back\<close>

text \<open>The loop that normalizes a subnormal fraction; the fraction is not zero and below \<open>0x400\<close>.\<close>

function renormalize :: "nat \<Rightarrow> int \<Rightarrow> nat \<times> int" where
  "renormalize mant e =
     (if mant AND 0x400 \<noteq> 0 \<or> mant = 0 \<or> 0x400 \<le> mant then (mant, e) else renormalize (push_bit 1 mant) (e - 1))"
  by pat_completeness auto
termination by (relation "measure (\<lambda>(mant, e). 0x400 - mant)") (auto simp: push_bit_eq_mult)

declare renormalize.simps [simp del]

definition f16_to_f32_kv :: "16 word \<Rightarrow> f32" where
  "f16_to_f32_kv h =
     (let bits = unat h;
          sign = push_bit 16 (bits AND 0x8000);
          exp = drop_bit 10 (bits AND 0x7c00);
          frac = bits AND 0x3ff in
      word_of_nat
       (if exp = 0 then
          (if frac = 0 then sign
           else let (mant, e) = renormalize frac (- 14) in
             sign OR push_bit 23 (nat (e + 127)) OR push_bit 13 (mant AND 0x3ff))
        else if exp = 0x1f then
          (if frac = 0 then sign OR 0x7f800000 else sign OR 0x7f800000 OR 0x400000 OR push_bit 13 frac)
        else sign OR push_bit 23 (exp + (127 - 15)) OR push_bit 13 frac))"

definition f16_bits_to_f32 :: "16 word \<Rightarrow> f32" where
  "f16_bits_to_f32 h =
     (let bits = unat h;
          sign = push_bit 16 (bits AND 0x8000);
          exp = drop_bit 10 (bits AND 0x7c00);
          frac = bits AND 0x3ff in
      word_of_nat
       (if exp = 0 then
          (if frac = 0 then sign
           else let (mant, e) = renormalize frac (- 14) in
             sign OR push_bit 23 (nat (e + 127)) OR push_bit 13 (mant AND 0x3ff))
        else if exp = 0x1f then sign OR 0x7f800000 OR push_bit 13 frac
        else sign OR push_bit 23 (exp + (127 - 15)) OR push_bit 13 frac))"

text \<open>The short cut for normal scales.\<close>

definition fast_f16_to_f32 :: "16 word \<Rightarrow> f32" where
  "fast_f16_to_f32 h =
     (let bits = unat h;
          sign = push_bit 16 (bits AND 0x8000);
          exponent = drop_bit 10 (bits AND 0x7c00);
          fraction = bits AND 0x3ff in
      if exponent = 0 then (if fraction = 0 then word_of_nat sign else f16_bits_to_f32 h)
      else if exponent = 0x1f then word_of_nat (sign OR 0x7f800000 OR push_bit 13 fraction)
      else word_of_nat (sign OR push_bit 23 (exponent + 112) OR push_bit 13 fraction))"

text \<open>What every stored key and value goes through.\<close>

definition kv_round :: "f32 \<Rightarrow> f32" where
  "kv_round value = f16_to_f32_kv (f32_to_f16_kv value)"

end
