(* ===== verification/HalfFloatLaws.thy ===== *)
theory HalfFloatLaws
  imports HalfFloat Float32Laws
begin

unbundle bit_operations_syntax

text \<open>
  The half-precision conversions against the rounding of \<open>Float32\<close>: storing rounds to nearest
  even and overflows to infinity, reading is exact, reading back what was stored and storing
  it again changes nothing, and the conversions of the cache and of the block formats differ
  on not-a-numbers only.
\<close>

section \<open>Fields as quotients and remainders\<close>

lemma bit_fields:
  "n AND 1 = n mod (2 :: nat)" "n AND 0x7fffff = n mod (2 ^ 23 :: nat)" "n AND 0xff = n mod (2 ^ 8 :: nat)"
  "n AND 0x3ff = n mod (2 ^ 10 :: nat)" "n AND 0xfff = n mod (2 ^ 12 :: nat)" "n AND 0x1fff = n mod (2 ^ 13 :: nat)"
  using take_bit_eq_mask [of 1 n] take_bit_eq_mask [of 23 n] take_bit_eq_mask [of 8 n] take_bit_eq_mask [of 10 n]
    take_bit_eq_mask [of 12 n] take_bit_eq_mask [of 13 n]
  by (simp_all add: mask_eq_exp_minus_1 take_bit_eq_mod)

lemma and_power: "(n :: nat) AND 2 ^ k = of_bool (odd (n div 2 ^ k)) * 2 ^ k"
  by (cases "bit n k") (auto intro!: bit_eqI simp: bit_simps simp flip: bit_iff_odd)

lemma and_power_0: "(n :: nat) AND 2 ^ k \<noteq> 0 \<longleftrightarrow> odd (n div 2 ^ k)"
  by (simp add: and_power)

lemma or_high:
  assumes "a < 2 ^ k"
  shows "b * 2 ^ k OR a = b * 2 ^ k + (a :: nat)" and "a OR b * 2 ^ k = a + b * 2 ^ k"
proof -
  have "b * 2 ^ k AND a = 0"
  proof (rule bit_eqI)
    fix i
    have "\<not> bit a i" if "k \<le> i"
      using assms that by (metis bit_take_bit_iff not_less take_bit_nat_eq_self)
    then show "bit (b * 2 ^ k AND a) i \<longleftrightarrow> bit 0 i" by (auto simp: bit_simps simp flip: push_bit_eq_mult)
  qed
  then show "b * 2 ^ k OR a = b * 2 ^ k + a" "a OR b * 2 ^ k = a + b * 2 ^ k"
    by (simp_all add: disjunctive_add_eq_or and.commute or.commute add.commute)
qed

text \<open>The sign, exponent and fraction of a single.\<close>

lemma div_mod_power: "(n div 2 ^ a) mod 2 ^ b = (n mod 2 ^ (a + b)) div (2 ^ a :: nat)"
  using drop_bit_take_bit [of a "a + b" n] by (simp add: drop_bit_eq_div take_bit_eq_mod)

lemma single_fields:
  shows "drop_bit 16 (unat w) AND 0x8000 = of_bool (f32_negative w) * 2 ^ 15"
    and "drop_bit 23 (unat w) AND 0xff = f32_magnitude w div 2 ^ 23" and "unat w AND 0x7fffff = f32_magnitude w mod 2 ^ 23"
proof -
  have w: "unat w < 2 ^ 32" using unsigned_less [of w] by simp
  show "drop_bit 16 (unat w) AND 0x8000 = of_bool (f32_negative w) * 2 ^ 15"
    using and_power [of "unat w div 2 ^ 16" 15] w
    by (auto simp: drop_bit_eq_div f32_negative_def div_mult2_eq [symmetric] odd_iff_mod_2_eq_one)
  show "drop_bit 23 (unat w) AND 0xff = f32_magnitude w div 2 ^ 23"
    using div_mod_power [of "unat w" 23 8] by (simp add: f32_magnitude_def bit_fields drop_bit_eq_div)
  show "unat w AND 0x7fffff = f32_magnitude w mod 2 ^ 23"
    by (simp add: f32_magnitude_def bit_fields mod_mod_cancel)
qed

section \<open>Rounding by bits\<close>

lemma round_even_bits:
  "round_even n (Suc j) = n div 2 ^ Suc j + of_bool (odd (n div 2 ^ j) \<and> (n mod 2 ^ j \<noteq> 0 \<or> odd (n div 2 ^ Suc j)))"
proof -
  have r: "n mod 2 ^ Suc j = 2 ^ j * (n div 2 ^ j mod 2) + n mod 2 ^ j"
    using mod_mult2_eq [of n "2 ^ j" 2] by (simp add: mult.commute)
  have lt: "n mod 2 ^ j < 2 ^ j" by simp
  show ?thesis
  proof (cases "even (n div 2 ^ j)")
    case True
    then have "n mod 2 ^ Suc j = n mod 2 ^ j" using r by simp
    moreover have "\<not> 2 ^ j < n mod 2 ^ j" "n mod 2 ^ j \<noteq> 2 ^ j" using lt by linarith+
    ultimately show ?thesis using True unfolding round_even_def Let_def by simp
  next
    case False
    then have "n mod 2 ^ Suc j = 2 ^ j + n mod 2 ^ j" using r by (simp add: odd_iff_mod_2_eq_one)
    then show ?thesis using False unfolding round_even_def Let_def by auto
  qed
qed

lemma round_even_scaled: "round_even (n * 2 ^ j) (k + j) = round_even n k"
proof -
  have "n * 2 ^ j div 2 ^ (k + j) = n div 2 ^ k" "n * 2 ^ j mod 2 ^ (k + j) = n mod 2 ^ k * 2 ^ j"
    by (simp_all add: power_add mult_mod_left)
  moreover have "2 * (r * 2 ^ j) > 2 ^ (k + j) \<longleftrightarrow> 2 * r > 2 ^ k" "2 * (r * 2 ^ j) = 2 ^ (k + j) \<longleftrightarrow> 2 * r = 2 ^ k" for r :: nat
    using mult_less_cancel2 [of "2 ^ k" "2 ^ j" "2 * r"] mult_cancel2 [of "2 * r" "2 ^ j" "2 ^ k"] by (simp_all add: power_add mult.assoc)
  ultimately show ?thesis by (simp only: round_even_def Let_def)
qed

text \<open>The shift of a rounding is the one that leaves the format's bits.\<close>

lemma bit_length_unique: "2 ^ b \<le> n \<Longrightarrow> n < 2 ^ Suc b \<Longrightarrow> bit_length n = Suc b"
proof -
  assume n: "2 ^ b \<le> n" "n < 2 ^ Suc b"
  then have "0 < n" using less_le_trans [of 0 "2 ^ b" n] by simp
  then have "2 ^ (bit_length n - 1) < (2 :: nat) ^ Suc b" "(2 :: nat) ^ b < 2 ^ bit_length n"
    using bit_length_lower [of n] bit_length_upper [of n] n by linarith+
  then have "bit_length n - 1 < Suc b \<and> b < bit_length n"
    using power_strict_increasing_iff [of "2 :: nat" "bit_length n - 1" "Suc b"] power_strict_increasing_iff [of "2 :: nat" b "bit_length n"] by simp
  then show ?thesis by linarith
qed

lemma fp_round_shift:
  assumes "n div 2 ^ (k + s) < 2 ^ Suc p" "s = 0 \<or> 2 ^ p \<le> n div 2 ^ (k + s)"
  shows "fp_round p n k = s * 2 ^ p + round_even n (k + s)"
proof -
  let ?v = "n div 2 ^ k"
  have m: "n div 2 ^ (k + s) = ?v div 2 ^ s" by (simp add: power_add div_mult2_eq)
  have up: "?v < 2 ^ (Suc p + s)" using assms(1) by (simp add: m power_add div_less_iff_less_mult mult_ac)
  have "bit_length ?v - (p + 1) = s"
  proof (cases "s = 0")
    case True
    show ?thesis
    proof (rule ccontr)
      assume "bit_length ?v - (p + 1) \<noteq> s"
      then have "Suc p \<le> bit_length ?v - 1" "0 < ?v" using True by (auto intro: gr0I)
      then have "(2 :: nat) ^ Suc p \<le> 2 ^ (bit_length ?v - 1)" "2 ^ (bit_length ?v - 1) \<le> ?v"
        using power_increasing [of "Suc p" "bit_length ?v - 1" "2 :: nat"] bit_length_lower [of ?v] by simp_all
      then show False using up True by simp
    qed
  next
    case False
    then have "2 ^ (p + s) \<le> ?v" using assms(2) by (simp add: m power_add less_eq_div_iff_mult_less_eq mult_ac)
    then show ?thesis using bit_length_unique [of "p + s" ?v] up by simp
  qed
  then show ?thesis by (simp add: fp_round_def Let_def)
qed

section \<open>Storing is rounding\<close>

definition half_units :: "f32 \<Rightarrow> nat" where
  "half_units x = fp_round 10 (f32_units x) 125"

text \<open>The four ranges of the exponent.\<close>

lemma half_overflow: "2 ^ 165 \<le> f32_units x \<Longrightarrow> 0x7c00 \<le> half_units x"
  using fp_round_mono [of "2 ^ 165" "f32_units x" 10 125] fp_round_exact [of 10 "0x7c00" 125]
  by (simp add: half_units_def magnitude_def)

lemma single_units:
  "f32_units x = (let m = f32_magnitude x; e = m div 2 ^ 23 in if e = 0 then m mod 2 ^ 23 else (2 ^ 23 + m mod 2 ^ 23) * 2 ^ (e - 1))"
  by (simp add: f32_units_def magnitude_def Let_def)

lemma half_large:
  assumes "143 \<le> f32_magnitude x div 2 ^ 23"
  shows "0x7c00 \<le> half_units x"
proof (rule half_overflow)
  have "(2 :: nat) ^ 165 = 2 ^ 23 * 2 ^ 142" by simp
  also have "\<dots> \<le> (2 ^ 23 + f32_magnitude x mod 2 ^ 23) * 2 ^ (f32_magnitude x div 2 ^ 23 - 1)"
    using assms by (intro mult_mono power_increasing) simp_all
  finally show "2 ^ 165 \<le> f32_units x" using assms unfolding single_units Let_def by simp
qed

lemma half_normal:
  fixes x defines "e \<equiv> f32_magnitude x div 2 ^ 23" and "f \<equiv> f32_magnitude x mod 2 ^ 23"
  assumes "113 \<le> e"
  shows "half_units x = (e - 112) * 2 ^ 10 + f div 2 ^ 13 + of_bool (odd (f div 2 ^ 12) \<and> (f mod 2 ^ 12 \<noteq> 0 \<or> odd (f div 2 ^ 13)))"
proof -
  have f: "f < 2 ^ 23" by (simp add: f_def)
  have u: "f32_units x = (2 ^ 23 + f) * 2 ^ (e - 1)" using assms unfolding single_units e_def f_def Let_def by simp
  have k: "125 + (e - 113) = 13 + (e - 1)" using assms by simp
  have q: "f32_units x div 2 ^ (125 + (e - 113)) = (2 ^ 23 + f) div 2 ^ 13" unfolding u k by (simp add: power_add)
  have split: "(2 ^ 23 + f) div 2 ^ 13 = 2 ^ 10 + f div 2 ^ 13" "(2 ^ 23 + f) div 2 ^ 12 = 2 ^ 11 + f div 2 ^ 12"
    "(2 ^ 23 + f) mod 2 ^ 12 = f mod 2 ^ 12"
    using div_mult_self3 [of "2 ^ 13" "2 ^ 10" f] div_mult_self3 [of "2 ^ 12" "2 ^ 11" f] mod_mult_self3 [of "2 ^ 11" "2 ^ 12" f] by simp_all
  have "f div 2 ^ 13 < 2 ^ 10" using f by simp
  then have q': "f32_units x div 2 ^ (125 + (e - 113)) < 2 ^ Suc 10" "2 ^ 10 \<le> f32_units x div 2 ^ (125 + (e - 113))"
    unfolding q split by simp_all
  have "half_units x = (e - 113) * 2 ^ 10 + round_even (f32_units x) (125 + (e - 113))"
    unfolding half_units_def using q' by (intro fp_round_shift) simp_all
  also have "round_even (f32_units x) (125 + (e - 113)) = round_even (2 ^ 23 + f) 13"
    unfolding u k by (rule round_even_scaled)
  also have "\<dots> = 2 ^ 10 + f div 2 ^ 13 + of_bool (odd (f div 2 ^ 12) \<and> (f mod 2 ^ 12 \<noteq> 0 \<or> odd (f div 2 ^ 13)))"
  proof -
    have "round_even (2 ^ 23 + f) 13 = (2 ^ 23 + f) div 2 ^ 13
        + of_bool (odd ((2 ^ 23 + f) div 2 ^ 12) \<and> ((2 ^ 23 + f) mod 2 ^ 12 \<noteq> 0 \<or> odd ((2 ^ 23 + f) div 2 ^ 13)))"
      using round_even_bits [of "2 ^ 23 + f" 12] by (simp only: Suc_numeral semiring_norm)
    moreover have "odd (2 ^ 11 + f div 2 ^ 12) = odd (f div 2 ^ 12)" "odd (2 ^ 10 + f div 2 ^ 13) = odd (f div 2 ^ 13)" by simp_all
    ultimately show ?thesis unfolding split by presburger
  qed
  finally show ?thesis using assms by (simp add: algebra_simps diff_mult_distrib)
qed

lemma half_subnormal:
  fixes x defines "e \<equiv> f32_magnitude x div 2 ^ 23" and "f \<equiv> f32_magnitude x mod 2 ^ 23"
  assumes "0 < e" "e \<le> 112"
  shows "half_units x = round_even (2 ^ 23 + f) (126 - e)"
proof -
  have f: "f < 2 ^ 23" by (simp add: f_def)
  have u: "f32_units x = (2 ^ 23 + f) * 2 ^ (e - 1)" using assms unfolding single_units e_def f_def Let_def by simp
  have k: "125 = (126 - e) + (e - 1)" using assms by simp
  have "f32_units x div 2 ^ 125 = (2 ^ 23 + f) * 2 ^ (e - 1) div (2 ^ (126 - e) * 2 ^ (e - 1))"
    using u k power_add [of "2 :: nat" "126 - e" "e - 1"] by simp
  then have "f32_units x div 2 ^ 125 = (2 ^ 23 + f) div 2 ^ (126 - e)" by simp
  also have "(2 ^ 23 + f) div 2 ^ (126 - e) \<le> (2 ^ 23 + f) div 2 ^ 14" using assms by (intro div_le_mono2 power_increasing) simp_all
  also have "\<dots> < 2 ^ Suc 10" using f by simp
  finally have "half_units x = round_even (f32_units x) 125"
    unfolding half_units_def using fp_round_shift [of "f32_units x" 125 0 10] by simp
  also have "\<dots> = round_even (2 ^ 23 + f) (126 - e)" unfolding u by (subst k) (rule round_even_scaled)
  finally show ?thesis .
qed

lemma half_small:
  assumes "f32_magnitude x div 2 ^ 23 \<le> 101"
  shows "half_units x = 0"
proof (cases "f32_magnitude x div 2 ^ 23 = 0")
  case True
  then have "f32_units x < 2 ^ 23" unfolding single_units Let_def by simp
  then show ?thesis using fp_round_shift [of "f32_units x" 125 0 10] by (simp add: half_units_def round_even_def)
next
  case False
  let ?e = "f32_magnitude x div 2 ^ 23" and ?M = "2 ^ 23 + f32_magnitude x mod 2 ^ 23"
  have "2 ^ 25 \<le> (2 :: nat) ^ (126 - ?e)" using assms by (intro power_increasing) simp_all
  moreover have "2 * ?M < 2 ^ 25" by simp
  ultimately have "2 * ?M < 2 ^ (126 - ?e)" by linarith
  then have "round_even ?M (126 - ?e) = 0" unfolding round_even_def Let_def by simp
  then show ?thesis using half_subnormal [of x] False assms by simp
qed

text \<open>The magnitude of a stored half, an overflow being an infinity.\<close>

lemma half_bound: "f32_magnitude x div 2 ^ 23 \<le> 142 \<Longrightarrow> half_units x \<le> 0x7c00"
proof -
  assume e: "f32_magnitude x div 2 ^ 23 \<le> 142"
  consider (a) "f32_magnitude x div 2 ^ 23 \<le> 101" | (b) "101 < f32_magnitude x div 2 ^ 23" "f32_magnitude x div 2 ^ 23 \<le> 112"
    | (c) "113 \<le> f32_magnitude x div 2 ^ 23" by linarith
  then show ?thesis
  proof cases
    case a then show ?thesis by (simp only: half_small le0)
  next
    case b
    let ?M = "2 ^ 23 + f32_magnitude x mod 2 ^ 23" and ?k = "126 - f32_magnitude x div 2 ^ 23"
    have "?M div 2 ^ ?k \<le> ?M div 2 ^ 14" using b by (intro div_le_mono2 power_increasing) simp_all
    also have "?M div 2 ^ 14 \<le> 1024" using div_le_mono [of ?M "2 ^ 24" "2 ^ 14"] by simp
    finally have "?M div 2 ^ ?k \<le> 1024" .
    moreover have "half_units x = round_even ?M ?k" using b by (intro half_subnormal) simp_all
    moreover have "round_even ?M ?k \<le> ?M div 2 ^ ?k + 1" by (simp add: round_even_def Let_def)
    ultimately show ?thesis by linarith
  next
    case c
    have "f32_magnitude x mod 2 ^ 23 div 2 ^ 13 \<le> 2 ^ 10 - 1" using div_mod_power [of "f32_magnitude x" 13 10] by simp
    moreover have "(f32_magnitude x div 2 ^ 23 - 112) * 2 ^ 10 \<le> 30 * 2 ^ 10" using e by (intro mult_right_mono) simp_all
    moreover have "of_bool b \<le> (1 :: nat)" for b by simp
    ultimately have "half_units x \<le> 30 * 2 ^ 10 + (2 ^ 10 - 1) + 1" unfolding half_normal [OF c] by (intro add_mono)
    then show ?thesis by simp
  qed
qed

definition half_make :: "bool \<Rightarrow> nat \<Rightarrow> 16 word" where
  "half_make negative m = word_of_nat ((if negative then 2 ^ 15 else 0) + min m 0x7c00)"

lemma odd_and: "(n :: nat) AND 1 \<noteq> 0 \<longleftrightarrow> odd n" "n AND 1 = 1 \<longleftrightarrow> odd n"
  by (simp_all add: bit_fields odd_iff_mod_2_eq_one)

lemma and_below: "(n :: nat) AND (2 ^ j - 1) = n mod 2 ^ j"
  by (metis mask_eq_exp_minus_1 take_bit_eq_mask take_bit_eq_mod)

lemma subnormal_bounds:
  assumes "f < 2 ^ 23" "14 \<le> k"
  shows "(2 ^ 23 + f) div 2 ^ k < 1024" "round_even (2 ^ 23 + f) k \<le> 1024"
proof -
  have "(2 ^ 23 + f) div 2 ^ k \<le> (2 ^ 23 + f) div 2 ^ 14" using assms by (intro div_le_mono2 power_increasing) simp_all
  also have "\<dots> < 1024" using assms by simp
  finally show "(2 ^ 23 + f) div 2 ^ k < 1024" .
  then show "round_even (2 ^ 23 + f) k \<le> 1024" by (simp add: round_even_def Let_def)
qed

lemma sign_or: "(m :: nat) < 2 ^ 15 \<Longrightarrow> of_bool s * 2 ^ 15 OR m = of_bool s * 2 ^ 15 + m"
  by (rule or_high)

lemma half_make_or: "m \<le> 0x7c00 \<Longrightarrow> half_make s m = word_of_nat (of_bool s * 2 ^ 15 OR m)"
  by (simp add: half_make_def sign_or [simplified])

lemma store_small:
  assumes "f32_magnitude x div 2 ^ 23 \<le> 101"
  shows "f32_to_f16_kv x = half_make (f32_negative x) (half_units x)" and "f32_to_f16_bits x = half_make (f32_negative x) (half_units x)"
proof -
  have "half_make (f32_negative x) (half_units x) = word_of_nat (of_bool (f32_negative x) * 2 ^ 15)"
    using assms by (simp add: half_make_def half_small)
  then show "f32_to_f16_kv x = half_make (f32_negative x) (half_units x)" "f32_to_f16_bits x = half_make (f32_negative x) (half_units x)"
    using assms unfolding f32_to_f16_kv_def f32_to_f16_bits_def Let_def single_fields [of x] by simp_all
qed

lemma store_large:
  assumes "143 \<le> f32_magnitude x div 2 ^ 23" "f32_magnitude x div 2 ^ 23 < 255"
  shows "f32_to_f16_kv x = half_make (f32_negative x) (half_units x)" and "f32_to_f16_bits x = half_make (f32_negative x) (half_units x)"
proof -
  have "half_make (f32_negative x) (half_units x) = word_of_nat (of_bool (f32_negative x) * 2 ^ 15 OR 0x7c00)"
    using half_large [OF assms(1)] or_high(1) [of "0x7c00" 15 "of_bool (f32_negative x)"] by (simp add: half_make_def)
  then show "f32_to_f16_kv x = half_make (f32_negative x) (half_units x)" "f32_to_f16_bits x = half_make (f32_negative x) (half_units x)"
    using assms unfolding f32_to_f16_kv_def f32_to_f16_bits_def Let_def single_fields [of x] by simp_all
qed

lemma store_subnormal:
  assumes "101 < f32_magnitude x div 2 ^ 23" "f32_magnitude x div 2 ^ 23 \<le> 112"
  shows "f32_to_f16_kv x = half_make (f32_negative x) (half_units x)" and "f32_to_f16_bits x = half_make (f32_negative x) (half_units x)"
proof -
  define f k N where "f = f32_magnitude x mod 2 ^ 23" and "k = 125 - f32_magnitude x div 2 ^ 23" and "N = 2 ^ 23 + f"
  have f: "f < 2 ^ 23" and k: "14 \<le> Suc k" "126 - f32_magnitude x div 2 ^ 23 = Suc k" using assms by (simp_all add: f_def k_def)
  have M: "f OR 0x800000 = N" using or_high(2) [OF f, of 1] by (simp add: N_def)
  have shift: "nat (14 - (int (f32_magnitude x div 2 ^ 23) - 127 + 15)) = Suc k" using assms by (simp add: k_def)
  have N: "N div 2 ^ Suc k < 1024" "round_even N (Suc k) \<le> 1024" "round_even N (Suc k) \<le> 0x7c00"
    using subnormal_bounds [OF f k(1)] unfolding N_def by linarith+
  have take: "take_bit 16 (drop_bit (Suc k) N) = N div 2 ^ Suc k" "take_bit 16 (N div 2 ^ Suc k + 1) = N div 2 ^ Suc k + 1"
    using N(1) by (simp_all add: drop_bit_eq_div take_bit_eq_mod)
  have bit: "push_bit (Suc k - 1) 1 = (2 ^ k :: nat)" "push_bit (Suc k) 1 = (2 ^ Suc k :: nat)" by (simp_all add: push_bit_eq_mult)
  have half: "half_make (f32_negative x) (half_units x) = word_of_nat (of_bool (f32_negative x) * 2 ^ 15 OR round_even N (Suc k))"
    using half_subnormal [of x] assms k half_make_or [OF N(3)] by (simp add: f_def N_def)
  note code = Let_def single_fields [of x] f_def [symmetric] M shift take bit and_power_0 and_below odd_and
  show "f32_to_f16_kv x = half_make (f32_negative x) (half_units x)"
    using assms unfolding f32_to_f16_kv_def code half round_even_bits by (simp del: power_Suc)
  have "N mod 2 ^ Suc k > 2 ^ k \<longleftrightarrow> 2 * (N mod 2 ^ Suc k) > 2 ^ Suc k" "N mod 2 ^ Suc k = 2 ^ k \<longleftrightarrow> 2 * (N mod 2 ^ Suc k) = 2 ^ Suc k"
    by simp_all
  then show "f32_to_f16_bits x = half_make (f32_negative x) (half_units x)"
    using assms unfolding f32_to_f16_bits_def code half round_even_def by (simp del: power_Suc)
qed

lemma store_normal:
  assumes e: "113 \<le> f32_magnitude x div 2 ^ 23" "f32_magnitude x div 2 ^ 23 \<le> 142"
  shows "f32_to_f16_kv x = half_make (f32_negative x) (half_units x)" and "f32_to_f16_bits x = half_make (f32_negative x) (half_units x)"
proof -
  define f h where "f = f32_magnitude x mod 2 ^ 23" and "h = f32_magnitude x div 2 ^ 23 - 112"
  define B q r where "B = (of_bool (f32_negative x) :: nat)" and "q = f div 2 ^ 13"
    and "r \<longleftrightarrow> odd (f div 2 ^ 12) \<and> (f mod 2 ^ 12 \<noteq> 0 \<or> odd q)"
  have h: "0 < h" "h \<le> 30" "nat (int (f32_magnitude x div 2 ^ 23) - 127 + 15) = h" using e by (simp_all add: h_def)
  have q: "q < 2 ^ 10" by (simp add: q_def f_def)
  have low: "h * 2 ^ 10 + q + 1 < 2 ^ 15" "h * 2 ^ 10 + q < 2 ^ 15" using q h by simp_all
  have half: "push_bit 10 h OR drop_bit 13 f = h * 2 ^ 10 + q" "B * 2 ^ 15 OR (h * 2 ^ 10 + q) = B * 2 ^ 15 + (h * 2 ^ 10 + q)"
    "B * 2 ^ 15 OR (h * 2 ^ 10 + q + 1) = B * 2 ^ 15 + (h * 2 ^ 10 + q + 1)"
    using or_high(1) [OF q, of h] or_high(1) [OF low(1), of B] or_high(1) [OF low(2), of B]
    by (simp_all only: push_bit_eq_mult drop_bit_eq_div q_def)
  have odd: "odd (B * 2 ^ 15 + (h * 2 ^ 10 + q)) \<longleftrightarrow> odd q" "odd (h * 2 ^ 10 + q) \<longleftrightarrow> odd q" by simp_all
  have powers: "(0x1000 :: nat) = 2 ^ 12" "(0xfff :: nat) = 2 ^ 12 - 1" "(0x1fff :: nat) = 2 ^ 13 - 1" by simp_all
  have total: "half_units x = h * 2 ^ 10 + q + of_bool r" using half_normal [OF e(1)] by (simp only: f_def h_def q_def r_def)
  have le: "half_units x \<le> 0x7c00" using half_bound e by simp
  have make: "half_make (f32_negative x) (half_units x) = word_of_nat (B * 2 ^ 15 + (h * 2 ^ 10 + q + of_bool r))"
    using le unfolding half_make_def total B_def by simp
  have "B * 2 ^ 15 + (h * 2 ^ 10 + q) + 1 < 2 ^ 16" "h * 2 ^ 10 + q + 1 < 2 ^ 16" "h * 2 ^ 10 + q < 2 ^ 16" using low by (simp_all add: B_def)
  then have take: "take_bit 16 (B * 2 ^ 15 + (h * 2 ^ 10 + q) + 1) = B * 2 ^ 15 + (h * 2 ^ 10 + q) + 1"
    "take_bit 16 (h * 2 ^ 10 + q + 1) = h * 2 ^ 10 + q + 1" "take_bit 16 (h * 2 ^ 10 + q) = h * 2 ^ 10 + q"
    by (simp_all only: take_bit_nat_eq_self)
  note code = Let_def single_fields [of x] f_def [symmetric] B_def [symmetric] h(3) half odd_and odd
  show "f32_to_f16_kv x = half_make (f32_negative x) (half_units x)"
    using e unfolding f32_to_f16_kv_def code take unfolding powers and_power_0 and_below make by (simp add: r_def)
  have "round_even f 13 = q + of_bool r"
    using round_even_bits [of f 12] by (simp only: Suc_numeral semiring_norm q_def r_def)
  then have r: "r \<longleftrightarrow> f mod 2 ^ 13 > 2 ^ 12 \<or> (f mod 2 ^ 13 = 2 ^ 12 \<and> odd q)"
    unfolding round_even_def Let_def q_def [symmetric] by (cases r) (auto split: if_splits)
  have "f32_to_f16_bits x = word_of_nat (B * 2 ^ 15 OR (if r then h * 2 ^ 10 + q + 1 else h * 2 ^ 10 + q))"
    using e take(2,3) unfolding f32_to_f16_bits_def code unfolding powers and_below r by (simp add: numeral_eq_Suc [of num.One])
  then show "f32_to_f16_bits x = half_make (f32_negative x) (half_units x)"
    unfolding make using half by simp
qed

text \<open>Every finite value is rounded, by either conversion.\<close>

lemma store_rounds:
  assumes "f32_is_finite x"
  shows "f32_to_f16_kv x = half_make (f32_negative x) (half_units x)" and "f32_to_f16_bits x = half_make (f32_negative x) (half_units x)"
proof -
  have "f32_magnitude x div 2 ^ 23 < 255" using assms by (simp add: f32_is_finite_def)
  then consider "f32_magnitude x div 2 ^ 23 \<le> 101" | "101 < f32_magnitude x div 2 ^ 23" "f32_magnitude x div 2 ^ 23 \<le> 112"
    | "113 \<le> f32_magnitude x div 2 ^ 23" "f32_magnitude x div 2 ^ 23 \<le> 142"
    | "143 \<le> f32_magnitude x div 2 ^ 23" "f32_magnitude x div 2 ^ 23 < 255" by linarith
  then have "f32_to_f16_kv x = half_make (f32_negative x) (half_units x) \<and> f32_to_f16_bits x = half_make (f32_negative x) (half_units x)"
    by cases (simp_all only: store_small store_subnormal store_normal store_large simp_thms)
  then show "f32_to_f16_kv x = half_make (f32_negative x) (half_units x)" "f32_to_f16_bits x = half_make (f32_negative x) (half_units x)"
    by simp_all
qed

lemma store_infinite:
  assumes "f32_is_inf x"
  shows "f32_to_f16_kv x = half_make (f32_negative x) 0x7c00" and "f32_to_f16_bits x = half_make (f32_negative x) 0x7c00"
  using assms half_make_or [of "0x7c00" "f32_negative x"]
  unfolding f32_to_f16_kv_def f32_to_f16_bits_def Let_def single_fields [of x] f32_is_inf_def by simp_all

section \<open>Reading is exact\<close>

lemma renormalize_shifts:
  assumes "0 < m" "m < 2048"
  shows "\<exists>j. renormalize m e = (m * 2 ^ j, e - int j) \<and> 1024 \<le> m * 2 ^ j \<and> m * 2 ^ j < 2048"
  using assms
proof (induction m e rule: renormalize.induct)
  case (1 m e)
  have stop: "(m AND 0x400 \<noteq> 0 \<or> m = 0 \<or> 0x400 \<le> m) \<longleftrightarrow> 1024 \<le> m"
    using and_power_0 [of m 10] 1(2,3) by (cases "m < 1024") auto
  show ?case
  proof (cases "1024 \<le> m")
    case True
    then have "renormalize m e = (m, e)" using stop by (simp add: renormalize.simps [of m])
    then show ?thesis using True 1 by (intro exI [of _ 0]) simp
  next
    case False
    then have "\<not> (m AND 0x400 \<noteq> 0 \<or> m = 0 \<or> 0x400 \<le> m)" using stop by simp
    then have step: "renormalize m e = renormalize (push_bit 1 m) (e - 1)" by (subst renormalize.simps) (simp only: if_False)
    obtain j where "renormalize (push_bit 1 m) (e - 1) = (push_bit 1 m * 2 ^ j, e - 1 - int j)"
      "1024 \<le> push_bit 1 m * 2 ^ j" "push_bit 1 m * 2 ^ j < 2048"
      using 1(1) [OF \<open>\<not> (m AND 0x400 \<noteq> 0 \<or> m = 0 \<or> 0x400 \<le> m)\<close>] False 1(2) by (auto simp: push_bit_eq_mult)
    then show ?thesis using step by (intro exI [of _ "Suc j"]) (simp add: push_bit_eq_mult mult_ac)
  qed
qed

lemma half_fields:
  fixes h :: "16 word" defines "m \<equiv> unat h mod 2 ^ 15"
  shows "push_bit 16 (unat h AND 0x8000) = of_bool (2 ^ 15 \<le> unat h) * 2 ^ 31"
    and "drop_bit 10 (unat h AND 0x7c00) = m div 2 ^ 10" and "unat h AND 0x3ff = m mod 2 ^ 10"
    and "unat h = of_bool (2 ^ 15 \<le> unat h) * 2 ^ 15 + m"
proof -
  have w: "unat h < 2 ^ 16" using unsigned_less [of h] by simp
  show h: "unat h = of_bool (2 ^ 15 \<le> unat h) * 2 ^ 15 + m" using w by (auto simp: m_def mod_if)
  have "unat h div 2 ^ 15 = of_bool (2 ^ 15 \<le> unat h)" using w by (auto simp: div_if)
  then show "push_bit 16 (unat h AND 0x8000) = of_bool (2 ^ 15 \<le> unat h) * 2 ^ 31"
    using and_power [of "unat h" 15] by (simp add: push_bit_eq_mult)
  have "drop_bit 10 (unat h AND 0x7c00) = drop_bit 10 (unat h) AND 0x1f" by (simp add: drop_bit_and)
  also have "\<dots> = m div 2 ^ 10" using and_below [of "drop_bit 10 (unat h)" 5] div_mod_power [of "unat h" 10 5] by (simp add: m_def drop_bit_eq_div)
  finally show "drop_bit 10 (unat h AND 0x7c00) = m div 2 ^ 10" .
  show "unat h AND 0x3ff = m mod 2 ^ 10" by (simp add: m_def bit_fields mod_mod_cancel)
qed

text \<open>A single from its sign, exponent and fraction.\<close>

lemma single_from_fields:
  assumes "e < 2 ^ 8" "f < 2 ^ 23" "w = (word_of_nat (of_bool s * 2 ^ 31 OR push_bit 23 e OR f) :: f32)"
  shows "f32_negative w = s" "f32_magnitude w = e * 2 ^ 23 + f"
proof -
  have b: "e * 2 ^ 23 + f < 2 ^ 31" using assms(1,2) by simp
  have "of_bool s * 2 ^ 31 OR push_bit 23 e OR f = of_bool s * 2 ^ 31 + (e * 2 ^ 23 + f)"
    using or_high(1) [OF assms(2), of e] or_high(1) [OF b, of "of_bool s"] by (simp only: push_bit_eq_mult)
  then have u: "unat w = of_bool s * 2 ^ 31 + (e * 2 ^ 23 + f)"
    using b unfolding assms(3) by (simp only: unsigned_of_nat) (simp add: take_bit_nat_eq_self_iff)
  show "f32_negative w = s" "f32_magnitude w = e * 2 ^ 23 + f"
    using b u by (auto simp: f32_negative_def f32_magnitude_def)
qed

lemma units_from_fields:
  "f32_magnitude x = e * 2 ^ 23 + f \<Longrightarrow> f < 2 ^ 23 \<Longrightarrow> 0 < e \<Longrightarrow> f32_units x = (2 ^ 23 + f) * 2 ^ (e - 1)"
  by (simp add: f32_units_def magnitude_def)

lemma read_normal:
  fixes h :: "16 word" defines "m \<equiv> unat h mod 2 ^ 15"
  assumes "0 < m div 2 ^ 10" "m div 2 ^ 10 < 31"
  shows "f16_to_f32_kv h = word_of_nat (of_bool (2 ^ 15 \<le> unat h) * 2 ^ 31 OR push_bit 23 (m div 2 ^ 10 + 112) OR m mod 2 ^ 10 * 2 ^ 13)"
  using assms unfolding f16_to_f32_kv_def Let_def half_fields(1-3) [of h] m_def by (simp add: push_bit_eq_mult)

lemma read_subnormal:
  fixes h :: "16 word" defines "m \<equiv> unat h mod 2 ^ 15"
  assumes "m div 2 ^ 10 = 0" "m \<noteq> 0"
  shows "\<exists>j\<le>10. 1024 \<le> m * 2 ^ j \<and> m * 2 ^ j < 2048 \<and>
    f16_to_f32_kv h = word_of_nat (of_bool (2 ^ 15 \<le> unat h) * 2 ^ 31 OR push_bit 23 (113 - j) OR (m * 2 ^ j - 1024) * 2 ^ 13)"
proof -
  have m: "m < 1024" "m mod 2 ^ 10 = m" using assms by (simp_all add: div_eq_0_iff)
  obtain j where j: "renormalize m (- 14) = (m * 2 ^ j, - 14 - int j)" "1024 \<le> m * 2 ^ j" "m * 2 ^ j < 2048"
    using renormalize_shifts [of m "- 14"] assms m by auto
  have "2 ^ j \<le> m * 2 ^ j" using assms(3) by simp
  then have "(2 :: nat) ^ j < 2048" using j(3) by linarith
  then have le: "j \<le> 10" using power_strict_increasing_iff [of "2 :: nat" j 11] by simp
  then have e: "nat (- 14 - int j + 127) = 113 - j" "nat (113 - int j) = 113 - j" by simp_all
  have f: "m * 2 ^ j AND 0x3ff = m * 2 ^ j - 1024" using j by (simp add: bit_fields mod_if)
  show ?thesis
    using assms(3) j(2,3) le unfolding f16_to_f32_kv_def Let_def half_fields(1-3) [of h] m_def [symmetric] assms(2) m(2)
    by (intro exI [of _ j]) (simp add: j(1) e f push_bit_eq_mult)
qed

definition half_magnitude :: "16 word \<Rightarrow> nat" where "half_magnitude h = unat h mod 2 ^ 15"

definition half_is_nan :: "16 word \<Rightarrow> bool" where "half_is_nan h \<longleftrightarrow> half_magnitude h > 0x7c00"

lemma read_exact:
  assumes "half_magnitude h < 0x7c00"
  shows "f32_is_finite (f16_to_f32_kv h)" "f32_negative (f16_to_f32_kv h) \<longleftrightarrow> 2 ^ 15 \<le> unat h"
    "f32_units (f16_to_f32_kv h) = magnitude 10 (half_magnitude h) * 2 ^ 125"
proof -
  define m where "m = unat h mod 2 ^ 15"
  have m: "m < 0x7c00" "half_magnitude h = m" using assms by (simp_all add: half_magnitude_def m_def)
  have "f32_is_finite (f16_to_f32_kv h) \<and> (f32_negative (f16_to_f32_kv h) \<longleftrightarrow> 2 ^ 15 \<le> unat h) \<and>
    f32_units (f16_to_f32_kv h) = magnitude 10 m * 2 ^ 125"
  proof (cases "m div 2 ^ 10 = 0")
    case True
    show ?thesis
    proof (cases "m = 0")
      case True
      then have w: "f16_to_f32_kv h = word_of_nat (of_bool (2 ^ 15 \<le> unat h) * 2 ^ 31 OR push_bit 23 0 OR 0)"
        unfolding f16_to_f32_kv_def Let_def half_fields(1-3) [of h] m_def [symmetric] by simp
      show ?thesis using single_from_fields [OF _ _ w] True by (simp add: f32_is_finite_def f32_units_def magnitude_def)
    next
      case False
      obtain j where j: "j \<le> 10" "1024 \<le> m * 2 ^ j" "m * 2 ^ j < 2048" "f16_to_f32_kv h =
          word_of_nat (of_bool (2 ^ 15 \<le> unat h) * 2 ^ 31 OR push_bit 23 (113 - j) OR (m * 2 ^ j - 1024) * 2 ^ 13)"
        using read_subnormal [of h] False \<open>m div 2 ^ 10 = 0\<close> unfolding m_def by blast
      note w = single_from_fields [OF _ _ j(4)]
      obtain k where k: "m * 2 ^ j = 1024 + k" "k < 1024" using j(3) le_add_diff_inverse [OF j(2)]
        by (intro that [of "m * 2 ^ j - 1024"]) linarith+
      have lt: "113 - j < 2 ^ 8" "(m * 2 ^ j - 1024) * 2 ^ 13 < 2 ^ 23" "0 < 113 - j" using j(1) k by simp_all
      have "f32_units (f16_to_f32_kv h) = (2 ^ 23 + k * 2 ^ 13) * 2 ^ (113 - j - 1)"
        using units_from_fields [OF w(2) [OF lt(1,2)] lt(2,3)] k by simp
      also have "\<dots> = m * 2 ^ j * 2 ^ 13 * 2 ^ (112 - j)" unfolding k by simp
      also have "\<dots> = m * 2 ^ (j + 13 + (112 - j))" by (simp only: power_add mult.assoc)
      also have "\<dots> = magnitude 10 m * 2 ^ 125" using j(1) True m by (simp add: magnitude_def div_eq_0_iff)
      finally have u: "f32_units (f16_to_f32_kv h) = magnitude 10 m * 2 ^ 125" .
      have "(113 - j) * 2 ^ 23 \<le> 113 * 2 ^ 23" by (intro mult_right_mono) simp_all
      then have "f32_is_finite (f16_to_f32_kv h)" using w(2) [OF lt(1,2)] lt(2) by (simp add: f32_is_finite_def)
      then show ?thesis using u w(1) [OF lt(1,2)] by simp
    qed
  next
    case False
    have e: "m div 2 ^ 10 < 31" using m(1) by simp
    have pos: "0 < m div 2 ^ 10" using False by simp
    note w = single_from_fields [OF _ _ read_normal [of h, folded m_def, OF pos e]]
    have lt: "m div 2 ^ 10 + 112 < 2 ^ 8" "m mod 2 ^ 10 * 2 ^ 13 < 2 ^ 23" "0 < m div 2 ^ 10 + 112" using e by simp_all
    note w = w [OF lt(1,2)]
    have "f32_units (f16_to_f32_kv h) = (2 ^ 23 + m mod 2 ^ 10 * 2 ^ 13) * 2 ^ (m div 2 ^ 10 + 112 - 1)"
      using units_from_fields [OF w(2) lt(2,3)] .
    also have "\<dots> = (2 ^ 10 + m mod 2 ^ 10) * 2 ^ (m div 2 ^ 10 - 1 + 125)" using False
      by (cases "m div 2 ^ 10") (simp_all add: power_add algebra_simps)
    also have "\<dots> = magnitude 10 m * 2 ^ 125" using False unfolding magnitude_def power_add by simp
    finally have u: "f32_units (f16_to_f32_kv h) = magnitude 10 m * 2 ^ 125" .
    have "(m div 2 ^ 10 + 112) * 2 ^ 23 \<le> 142 * 2 ^ 23" using e by (intro mult_right_mono) simp_all
    then have "f32_is_finite (f16_to_f32_kv h)" using w(2) lt(2) by (simp add: f32_is_finite_def)
    then show ?thesis using u w(1) by simp
  qed
  then show "f32_is_finite (f16_to_f32_kv h)" "f32_negative (f16_to_f32_kv h) \<longleftrightarrow> 2 ^ 15 \<le> unat h"
    "f32_units (f16_to_f32_kv h) = magnitude 10 (half_magnitude h) * 2 ^ 125" by (simp_all add: m)
qed

lemma half_make_self: "half_magnitude h \<le> 0x7c00 \<Longrightarrow> half_make (2 ^ 15 \<le> unat h) (half_magnitude h) = h"
proof -
  assume "half_magnitude h \<le> 0x7c00"
  moreover have "(if 2 ^ 15 \<le> unat h then 2 ^ 15 else 0) + unat h mod 2 ^ 15 = unat h"
    using half_fields(4) [of h] by (cases "2 ^ 15 \<le> unat h") (simp_all only: of_bool_eq if_True if_False mult_1)
  ultimately show ?thesis by (simp add: half_make_def half_magnitude_def)
qed

lemma half_magnitude_make: "half_magnitude (half_make s m) = min m 0x7c00" "2 ^ 15 \<le> unat (half_make s m) \<longleftrightarrow> s"
proof -
  have "unat (half_make s m) = (if s then 2 ^ 15 else 0) + min m 0x7c00"
    unfolding half_make_def by (simp only: unsigned_of_nat) (simp add: take_bit_nat_eq_self_iff min_def)
  then show "half_magnitude (half_make s m) = min m 0x7c00" "2 ^ 15 \<le> unat (half_make s m) \<longleftrightarrow> s"
    by (auto simp: half_magnitude_def min_def)
qed

lemma half_units_read: "half_magnitude h < 0x7c00 \<Longrightarrow> half_units (f16_to_f32_kv h) = half_magnitude h"
  unfolding half_units_def read_exact(3) by (rule fp_round_exact)

lemma read_infinite:
  assumes "half_magnitude h = 0x7c00"
  shows "f32_is_inf (f16_to_f32_kv h)" "f32_negative (f16_to_f32_kv h) \<longleftrightarrow> 2 ^ 15 \<le> unat h"
proof -
  have m: "unat h mod 2 ^ 15 = 0x7c00" using assms by (simp add: half_magnitude_def)
  have w: "f16_to_f32_kv h = word_of_nat (of_bool (2 ^ 15 \<le> unat h) * 2 ^ 31 OR push_bit 23 255 OR 0)"
    unfolding f16_to_f32_kv_def Let_def half_fields(1-3) [of h] m by (simp add: push_bit_eq_mult)
  show "f32_is_inf (f16_to_f32_kv h)" "f32_negative (f16_to_f32_kv h) \<longleftrightarrow> 2 ^ 15 \<le> unat h"
    using single_from_fields [OF _ _ w] by (simp_all add: f32_is_inf_def)
qed

lemma store_read:
  assumes "\<not> half_is_nan h"
  shows "f32_to_f16_kv (f16_to_f32_kv h) = h" "f32_to_f16_bits (f16_to_f32_kv h) = h"
proof -
  have "f32_to_f16_kv (f16_to_f32_kv h) = half_make (2 ^ 15 \<le> unat h) (half_magnitude h) \<and>
    f32_to_f16_bits (f16_to_f32_kv h) = half_make (2 ^ 15 \<le> unat h) (half_magnitude h)"
  proof (cases "half_magnitude h = 0x7c00")
    case True
    then show ?thesis using read_infinite [OF True] by (simp add: store_infinite)
  next
    case False
    then have "half_magnitude h < 0x7c00" using assms by (simp add: half_is_nan_def)
    then show ?thesis using store_rounds read_exact half_units_read by simp
  qed
  then show "f32_to_f16_kv (f16_to_f32_kv h) = h" "f32_to_f16_bits (f16_to_f32_kv h) = h"
    using assms half_make_self [of h] by (simp_all add: half_is_nan_def)
qed

section \<open>Not-a-numbers\<close>

text \<open>The cache stores one pattern for every not-a-number.\<close>

lemma store_nan:
  assumes "f32_is_nan x"
  shows "f32_to_f16_kv x = word_of_nat (of_bool (f32_negative x) * 2 ^ 15 OR 0x7e00)"
proof -
  have "d = 255 \<and> r \<noteq> 0" if "d * 8388608 + r = m" "r < 8388608" "2139095040 < m" "m < 2147483648" for d r m :: nat
  proof -
    have "d < 256" "254 < d" using that by linarith+
    then have d: "d = 255" by simp
    have "r \<noteq> 0" using that unfolding d by auto
    then show ?thesis using d by simp
  qed
  from this [of "f32_magnitude x div 2 ^ 23" "f32_magnitude x mod 2 ^ 23"]
  have "f32_magnitude x div 2 ^ 23 = 0xff" "f32_magnitude x mod 2 ^ 23 \<noteq> 0"
    using assms by (simp_all add: f32_is_nan_def f32_magnitude_def)
  then show ?thesis unfolding f32_to_f16_kv_def Let_def single_fields [of x] by simp
qed

lemma read_stored_nan:
  "f16_to_f32_kv (word_of_nat (of_bool s * 2 ^ 15 OR 0x7e00)) = word_of_nat (of_bool s * 2 ^ 31 OR 0x7fc00000)"
  by (cases s) (simp_all add: f16_to_f32_kv_def)

lemma stored_nan_is_nan:
  "f32_is_nan (word_of_nat (of_bool s * 2 ^ 31 OR 0x7fc00000))" "f32_negative (word_of_nat (of_bool s * 2 ^ 31 OR 0x7fc00000)) = s"
  by (cases s; simp add: f32_is_nan_def f32_magnitude_def f32_negative_def)+

lemma f32_kinds: "f32_is_nan x \<or> f32_is_inf x \<or> f32_is_finite x"
  by (auto simp: f32_is_nan_def f32_is_inf_def f32_is_finite_def)

lemma store_not_nan: "\<not> f32_is_nan x \<Longrightarrow> \<not> half_is_nan (f32_to_f16_kv x) \<and> f32_to_f16_bits x = f32_to_f16_kv x"
  using f32_kinds [of x] by (auto simp: store_rounds store_infinite half_is_nan_def half_magnitude_make)

section \<open>The conversions as a whole\<close>

text \<open>Also: rounding a key or value for the cache a second time changes nothing, whatever the bits.\<close>

theorem kv_round_idempotent: "kv_round (kv_round x) = kv_round x"
proof (cases "f32_is_nan x")
  case True
  then show ?thesis by (simp only: kv_round_def store_nan read_stored_nan stored_nan_is_nan)
next
  case False
  then show ?thesis using store_not_nan [of x] by (simp add: kv_round_def store_read)
qed

text \<open>Property C26: what the cache keeps of a finite value is the nearest half, with the value's sign,
  unless the value overflows to an infinity.\<close>

theorem kv_round_nearest:
  assumes "f32_is_finite x" "f32_is_finite (kv_round x)" "half_magnitude h < 0x7c00"
  shows "f32_negative (kv_round x) = f32_negative x \<and>
    \<bar>int (f32_units x) - int (f32_units (kv_round x))\<bar> \<le> \<bar>int (f32_units x) - int (f32_units (f16_to_f32_kv h))\<bar>"
proof -
  let ?s = "f32_to_f16_kv x"
  have s: "?s = half_make (f32_negative x) (half_units x)" using assms(1) by (rule store_rounds)
  have le: "half_magnitude ?s \<le> 0x7c00" by (simp add: s half_magnitude_make)
  have "half_magnitude ?s \<noteq> 0x7c00"
    using read_infinite(1) [of ?s] assms(2) by (auto simp: kv_round_def f32_is_inf_def f32_is_finite_def)
  with le have lt: "half_magnitude ?s < 0x7c00" by simp
  then have "half_magnitude ?s = half_units x" by (simp add: s half_magnitude_make min_def split: if_splits)
  then have "f32_units (kv_round x) = magnitude 10 (half_units x) * 2 ^ 125" using read_exact(3) [OF lt] by (simp add: kv_round_def)
  moreover have "f32_negative (kv_round x) = f32_negative x" using read_exact(2) [OF lt] half_magnitude_make(2) [of "f32_negative x" "half_units x"] by (simp only: kv_round_def s)
  ultimately show ?thesis
    using fp_round_nearest [of "f32_units x" 10 125 "half_magnitude h"] unfolding read_exact(3) [OF assms(3)] half_units_def by simp
qed

theorem kv_round_nearest_witness:
  "f32_negative (kv_round 0x3f8ccccd) = f32_negative 0x3f8ccccd \<and>
    \<bar>int (f32_units 0x3f8ccccd) - int (f32_units (kv_round 0x3f8ccccd))\<bar> \<le> \<bar>int (f32_units 0x3f8ccccd) - int (f32_units (f16_to_f32_kv 0x3c66))\<bar>"
  by (rule kv_round_nearest)
    (simp_all add: f32_is_finite_def f32_magnitude_def half_magnitude_def kv_round_def f32_to_f16_kv_def f16_to_f32_kv_def)

text \<open>Also: the conversions written twice agree: the cache and the block formats store every number
  alike and read every number alike, the short cut for scales is the full conversion, and a
  half that is a number survives being read and stored again.\<close>

theorem half_conversions_agree:
  "(\<not> f32_is_nan x \<longrightarrow> f32_to_f16_bits x = f32_to_f16_kv x) \<and>
   (\<not> half_is_nan h \<longrightarrow> f16_bits_to_f32 h = f16_to_f32_kv h \<and> f32_to_f16_kv (f16_to_f32_kv h) = h) \<and>
   fast_f16_to_f32 h = f16_bits_to_f32 h"
proof (intro conjI impI)
  show "f32_to_f16_bits x = f32_to_f16_kv x" if "\<not> f32_is_nan x" using store_not_nan [OF that] by simp
  assume number: "\<not> half_is_nan h"
  then have "unat h mod 2 ^ 15 \<le> 0x7c00" by (simp add: half_is_nan_def half_magnitude_def)
  then have "unat h mod 2 ^ 15 div 2 ^ 10 = 0x1f \<Longrightarrow> unat h mod 2 ^ 15 mod 2 ^ 10 = 0"
    using mult_div_mod_eq [of 1024 "unat h mod 2 ^ 15"] by simp
  then show "f16_bits_to_f32 h = f16_to_f32_kv h"
    unfolding f16_bits_to_f32_def f16_to_f32_kv_def Let_def half_fields(1-3) [of h]
    by (cases "unat h mod 2 ^ 15 div 2 ^ 10 = 0x1f") (simp_all only: if_True if_False simp_thms split: if_splits, simp_all)
  show "f32_to_f16_kv (f16_to_f32_kv h) = h" using number by (rule store_read)
next
  show "fast_f16_to_f32 h = f16_bits_to_f32 h" by (simp add: fast_f16_to_f32_def f16_bits_to_f32_def Let_def)
qed

theorem half_conversions_agree_witness:
  "\<not> f32_is_nan 0x3f8ccccd \<and> \<not> half_is_nan 0x03ff \<and> f32_to_f16_bits 0x3f8ccccd = f32_to_f16_kv 0x3f8ccccd \<and>
   f16_bits_to_f32 0x03ff = f16_to_f32_kv 0x03ff \<and> f32_to_f16_kv (f16_to_f32_kv 0x03ff) = 0x03ff"
  using half_conversions_agree [of "0x3f8ccccd" "0x03ff"]
  by (simp add: f32_is_nan_def f32_magnitude_def half_is_nan_def half_magnitude_def)

end
