(* ===== verification/ModelConfig.thy ===== *)
theory ModelConfig
  imports Gguf Float32
begin

text \<open>
  The configuration of a model (\<^verbatim>\<open>engine-core/src/model/config.rs\<close>): the scalars read from the
  metadata of a container, with the defaults for the absent ones, and the dimensions derived
  from them. A \<^verbatim>\<open>u32\<close> is a natural number, below \<open>2 ^ 32\<close> by \<open>metadata_u32_bound\<close>; the target has 64-bit
  \<^verbatim>\<open>usize\<close>, so the products of two such numbers are exact. An \<^verbatim>\<open>f32\<close> is its bits.
\<close>

section \<open>Reading the metadata\<close>

definition metadata_f32 :: "GgufFile \<Rightarrow> string \<Rightarrow> f32 option" where
  "metadata_f32 file key = (case gguf_metadata file key of
       Some (F32 value) \<Rightarrow> Some value
     | Some (F64 value) \<Rightarrow> Some (f64_as_f32 value)
     | _ \<Rightarrow> None)"

record LlamaModelConfig =
  context_length :: nat
  embedding_length :: nat
  block_count :: nat
  feed_forward_length :: nat
  attention_head_count :: nat
  attention_head_count_kv :: nat
  rope_dimension_count :: "nat option"
  rope_freq_base :: "f32 option"
  rope_scaling_type :: "string option"
  rope_scaling_factor :: "f32 option"
  rope_scaling_original_context_length :: "nat option"
  rope_scaling_low_freq_factor :: "f32 option"
  rope_scaling_high_freq_factor :: "f32 option"
  rms_norm_epsilon :: f32
  vocab_size :: "nat option"
  file_type :: "nat option"
  attention_key_length :: "nat option"
  rope_neox_pairing :: bool

definition is_implemented_architecture :: "string \<Rightarrow> bool" where
  "is_implemented_architecture arch \<longleftrightarrow> arch \<in> {''llama'', ''mistral'', ''qwen2'', ''qwen3''}"

definition arch_uses_neox_rope_pairing :: "string \<Rightarrow> bool" where
  "arch_uses_neox_rope_pairing arch \<longleftrightarrow> arch \<in> {''qwen3'', ''qwen35'', ''phi3''}"

definition architecture_key :: "string \<Rightarrow> string \<Rightarrow> string" where
  "architecture_key arch suffix = arch @ ''.'' @ suffix"

definition required_u32 :: "GgufFile \<Rightarrow> string \<Rightarrow> nat engine_result" where
  "required_u32 file key =
     ok_or (InvalidModelMetadata (''required metadata '' @ key @ '' is missing or not u32'')) (metadata_u32 file key)"

definition llama_attention_head_count_kv :: "GgufFile \<Rightarrow> string \<Rightarrow> nat \<Rightarrow> nat" where
  "llama_attention_head_count_kv file arch head_count =
     (case metadata_u32 file (architecture_key arch ''attention.head_count_kv'') of None \<Rightarrow> head_count | Some kv \<Rightarrow> kv)"

text \<open>The vocabulary is whichever dimension of the embedding is not its width.\<close>

definition infer_vocab_size_from_token_embedding :: "GgufFile \<Rightarrow> string \<Rightarrow> nat \<Rightarrow> nat option" where
  "infer_vocab_size_from_token_embedding file tensor_name width =
     (case find (\<lambda>t. td_name t = tensor_name) (gguf_tensors file) of
        None \<Rightarrow> None
      | Some tensor \<Rightarrow> (case td_dimensions tensor of
          [d0, d1] \<Rightarrow>
            if d0 = width then try_into_u32 (int d1) else if d1 = width then try_into_u32 (int d0) else None
        | _ \<Rightarrow> None))"

definition ok :: "('e, 'a) res \<Rightarrow> 'a option" where
  "ok r = (case r of Inl _ \<Rightarrow> None | Inr a \<Rightarrow> Some a)"

text \<open>The default epsilon, \<^verbatim>\<open>1e-5\<close> as the nearest single.\<close>

definition DEFAULT_RMS_EPSILON :: f32 where "DEFAULT_RMS_EPSILON = 0x3727C5AC"

definition implemented_architecture_of :: "GgufFile \<Rightarrow> string engine_result" where
  "implemented_architecture_of file = (case architecture file of
       Some arch \<Rightarrow>
         if arch \<in> {''llama'', ''mistral'', ''qwen2'', ''qwen3''} then Inr arch
         else if str_contains (map to_ascii_lower arch) ''diffusion''
         then Inl (UnsupportedModelArchitecture (arch @ '': block-diffusion architecture is not an autoregressive decoder''))
         else Inl (UnsupportedModelArchitecture arch)
     | None \<Rightarrow> Inl (InvalidModelMetadata ''required metadata general.architecture is missing''))"

definition config_from_gguf :: "GgufFile \<Rightarrow> LlamaModelConfig engine_result" where
  "config_from_gguf file =
     and_then (implemented_architecture_of file) (\<lambda>arch. let key = architecture_key arch in
     and_then (required_u32 file (key ''attention.head_count'')) (\<lambda>head_count.
     and_then (required_u32 file (key ''context_length'')) (\<lambda>context.
     and_then (required_u32 file (key ''embedding_length'')) (\<lambda>embedding.
     and_then (required_u32 file (key ''block_count'')) (\<lambda>blocks.
     and_then (required_u32 file (key ''feed_forward_length'')) (\<lambda>feed_forward.
     Inr \<lparr>context_length = context,
       embedding_length = embedding,
       block_count = blocks,
       feed_forward_length = feed_forward,
       attention_head_count = head_count,
       attention_head_count_kv = llama_attention_head_count_kv file arch head_count,
       rope_dimension_count = metadata_u32 file (key ''rope.dimension_count''),
       rope_freq_base = metadata_f32 file (key ''rope.freq_base''),
       rope_scaling_type = metadata_string file (key ''rope.scaling.type''),
       rope_scaling_factor = metadata_f32 file (key ''rope.scaling.factor''),
       rope_scaling_original_context_length = metadata_u32 file (key ''rope.scaling.original_context_length''),
       rope_scaling_low_freq_factor = metadata_f32 file (key ''rope.scaling.low_freq_factor''),
       rope_scaling_high_freq_factor = metadata_f32 file (key ''rope.scaling.high_freq_factor''),
       rms_norm_epsilon = (case metadata_f32 file (key ''attention.layer_norm_rms_epsilon'') of
           None \<Rightarrow> DEFAULT_RMS_EPSILON | Some eps \<Rightarrow> eps),
       vocab_size = (case metadata_u32 file (key ''vocab_size'') of
           Some n \<Rightarrow> Some n
         | None \<Rightarrow> (case ok (required_u32 file (key ''embedding_length'')) of
               None \<Rightarrow> None
             | Some width \<Rightarrow> infer_vocab_size_from_token_embedding file ''token_embd.weight'' width)),
       file_type = metadata_u32 file ''general.file_type'',
       attention_key_length = metadata_u32 file (key ''attention.key_length''),
       rope_neox_pairing = arch_uses_neox_rope_pairing arch\<rparr>))))))"

section \<open>Dimensions\<close>

record DenseLlamaDims =
  d_embedding_length :: nat
  d_block_count :: nat
  d_feed_forward_length :: nat
  d_attention_head_count_kv :: nat
  d_head_dim :: nat
  d_q_width :: nat
  d_kv_width :: nat
  d_vocab_size :: nat

definition from_config :: "LlamaModelConfig \<Rightarrow> DenseLlamaDims engine_result" where
  "from_config config =
     (let width = embedding_length config; heads = attention_head_count config; kv_heads = attention_head_count_kv config in
      if heads = 0 \<or> \<not> heads dvd width
      then Inl (InvalidModelMetadata (''embedding length '' @ show_nat width
             @ '' is not divisible by attention head count '' @ show_nat heads))
      else if kv_heads = 0 then Inl (InvalidModelMetadata ''attention kv head count must be greater than zero'')
      else if \<not> kv_heads dvd heads
      then Inl (InvalidModelMetadata (''attention head count '' @ show_nat heads
             @ '' must be a multiple of kv head count '' @ show_nat kv_heads))
      else and_then (ok_or (InvalidModelMetadata ''required vocabulary size is missing for dense tensor validation'')
                       (vocab_size config)) (\<lambda>vocab.
        if vocab = 0 then Inl (InvalidModelMetadata ''vocabulary size must be greater than zero'')
        else let head_dim = (case attention_key_length config of
                 Some key_length \<Rightarrow> if key_length > 0 then key_length else width div heads
               | None \<Rightarrow> width div heads) in
          Inr \<lparr>d_embedding_length = width, d_block_count = block_count config,
            d_feed_forward_length = feed_forward_length config, d_attention_head_count_kv = kv_heads,
            d_head_dim = head_dim, d_q_width = heads * head_dim, d_kv_width = kv_heads * head_dim,
            d_vocab_size = vocab\<rparr>))"

section \<open>What a configuration guarantees\<close>

lemma metadata_u32_bound: "metadata_u32 file key = Some n \<Longrightarrow> n < 2 ^ 32"
  using unsigned_less [of "w :: 32 word" for w] 
  by (auto simp: metadata_u32_def try_into_u32_def nat_less_iff simp flip: nat_uint_eq split: option.splits MetadataValue.splits if_splits)

lemma required_u32_Inr: "required_u32 file key = Inr n \<longleftrightarrow> metadata_u32 file key = Some n"
  by (simp add: required_u32_def ok_or_Inr_iff)

lemma implemented_architecture_Inr:
  "implemented_architecture_of file = Inr arch \<longleftrightarrow> architecture file = Some arch \<and> is_implemented_architecture arch"
  by (auto simp: implemented_architecture_of_def is_implemented_architecture_def split: option.splits)

definition REQUIRED_KEYS :: "string list" where
  "REQUIRED_KEYS = [''attention.head_count'', ''context_length'', ''embedding_length'', ''block_count'', ''feed_forward_length'']"

definition REQUIRED_SIZES :: "(LlamaModelConfig \<Rightarrow> nat) list" where
  "REQUIRED_SIZES = [attention_head_count, context_length, embedding_length, block_count, feed_forward_length]"

lemma from_gguf_reads:
  assumes "config_from_gguf file = Inr config"
  obtains arch where "architecture file = Some arch" "is_implemented_architecture arch"
    "map (\<lambda>size. Some (size config)) REQUIRED_SIZES = map (\<lambda>key. metadata_u32 file (architecture_key arch key)) REQUIRED_KEYS"
    "attention_head_count_kv config = llama_attention_head_count_kv file arch (attention_head_count config)"
    "attention_key_length config = metadata_u32 file (architecture_key arch ''attention.key_length'')"
  using assms by (auto simp: config_from_gguf_def Let_def and_then_Inr_iff required_u32_Inr implemented_architecture_Inr REQUIRED_KEYS_def REQUIRED_SIZES_def)

text \<open>Also: a configuration is read from a container exactly when its architecture is one of the
  implemented ones and gives the head count, the context, embedding and feed-forward lengths and
  the block count as 32-bit numbers; every other key has a default.\<close>

theorem from_gguf_succeeds_iff:
  "(\<exists>config. config_from_gguf file = Inr config) \<longleftrightarrow>
   (\<exists>arch. architecture file = Some arch \<and> is_implemented_architecture arch \<and>
      list_all (\<lambda>key. metadata_u32 file (architecture_key arch key) \<noteq> None) REQUIRED_KEYS)"
  by (auto simp: config_from_gguf_def Let_def and_then_Inr_iff required_u32_Inr implemented_architecture_Inr REQUIRED_KEYS_def)

lemma from_config_cases:
  assumes "from_config config = Inr dims"
  shows "attention_head_count config \<noteq> 0" "attention_head_count config dvd embedding_length config"
    "attention_head_count_kv config \<noteq> 0" "attention_head_count_kv config dvd attention_head_count config"
    "vocab_size config = Some (d_vocab_size dims)" "d_vocab_size dims \<noteq> 0"
    "d_head_dim dims = (case attention_key_length config of Some (Suc n) \<Rightarrow> Suc n | _ \<Rightarrow> embedding_length config div attention_head_count config)"
    "d_q_width dims = attention_head_count config * d_head_dim dims"
    "d_kv_width dims = attention_head_count_kv config * d_head_dim dims"
    "d_embedding_length dims = embedding_length config" "d_block_count dims = block_count config"
    "d_feed_forward_length dims = feed_forward_length config" "d_attention_head_count_kv dims = attention_head_count_kv config"
  using assms by (auto simp: from_config_def Let_def and_then_Inr_iff ok_or_Inr_iff split: if_splits option.splits nat.splits)

text \<open>Also: the dimensions derived from a container fit together: the query heads are shared out
  evenly among the key-value heads, the widths are whole heads and fit the target's integers, and
  without a key length of its own a model's query is as wide as its embedding.\<close>

theorem derived_dimensions_fit:
  assumes "config_from_gguf file = Inr config" "from_config config = Inr dims"
  shows "d_kv_width dims dvd d_q_width dims \<and> d_kv_width dims \<le> d_q_width dims \<and> d_q_width dims \<le> u64_max
    \<and> 0 < d_vocab_size dims \<and> (attention_key_length config = None \<longrightarrow> d_q_width dims = d_embedding_length dims)"
proof -
  obtain arch where sizes: "Some (attention_head_count config) = metadata_u32 file (architecture_key arch ''attention.head_count'')"
    "Some (embedding_length config) = metadata_u32 file (architecture_key arch ''embedding_length'')"
    "attention_key_length config = metadata_u32 file (architecture_key arch ''attention.key_length'')"
    using from_gguf_reads [OF assms(1)] by (auto simp: REQUIRED_KEYS_def REQUIRED_SIZES_def)
  note dims = from_config_cases [OF assms(2)]
  have small: "attention_head_count config < 2 ^ 32" "embedding_length config < 2 ^ 32"
    using sizes(1,2) by (metis metadata_u32_bound)+
  have quotient: "embedding_length config div attention_head_count config < 2 ^ 32"
    using small(2) div_le_dividend [of "embedding_length config" "attention_head_count config"] by linarith
  have "d_head_dim dims < 2 ^ 32"
  proof (cases "attention_key_length config")
    case (Some n)
    then have "n < 2 ^ 32" using sizes(3) by (metis metadata_u32_bound)
    then show ?thesis using Some dims(7) quotient by (auto split: nat.splits)
  next
    case None
    then show ?thesis using dims(7) quotient by simp
  qed
  then have "d_q_width dims \<le> (2 ^ 32 - 1) * (2 ^ 32 - 1)" unfolding dims(8) using small by (intro mult_le_mono) simp_all
  then have "d_q_width dims \<le> u64_max" by (simp add: u64_max_def)
  moreover have "d_kv_width dims dvd d_q_width dims" unfolding dims(8,9) using dims(4) by (rule mult_dvd_mono) simp
  moreover have "d_kv_width dims \<le> d_q_width dims" unfolding dims(8,9) using dims(1,4) by (intro mult_right_mono [OF dvd_imp_le]) simp_all
  moreover have "attention_key_length config = None \<Longrightarrow> d_q_width dims = d_embedding_length dims"
    using dims(1,2,7,8,10) by simp
  ultimately show ?thesis using dims(6) by simp
qed

definition sample_container :: GgufFile where
  "sample_container = \<lparr>gguf_path = ''m.gguf'', gguf_version = 3, gguf_tensor_count = 1, gguf_metadata_count = 6,
     gguf_alignment = 32, gguf_data_start = 0,
     gguf_metadata = [''general.architecture'' \<mapsto> String ''llama'', ''llama.context_length'' \<mapsto> U32 512,
       ''llama.embedding_length'' \<mapsto> U32 64, ''llama.block_count'' \<mapsto> U32 2, ''llama.feed_forward_length'' \<mapsto> U32 128,
       ''llama.attention.head_count'' \<mapsto> U64 8],
     gguf_tensors = [\<lparr>td_name = ''token_embd.weight'', td_dimensions = [64, 100], td_type = Q8_0, td_relative_offset = 0,
       td_absolute_offset = 0, td_n_bytes = 6800\<rparr>]\<rparr>"

definition sample_config :: LlamaModelConfig where
  "sample_config = \<lparr>context_length = 512, embedding_length = 64, block_count = 2, feed_forward_length = 128,
     attention_head_count = 8, attention_head_count_kv = 8, rope_dimension_count = None, rope_freq_base = None,
     rope_scaling_type = None, rope_scaling_factor = None, rope_scaling_original_context_length = None,
     rope_scaling_low_freq_factor = None, rope_scaling_high_freq_factor = None, rms_norm_epsilon = DEFAULT_RMS_EPSILON,
     vocab_size = Some 100, file_type = None, attention_key_length = None, rope_neox_pairing = False\<rparr>"

lemma sample_reads: "config_from_gguf sample_container = Inr sample_config"
  by (simp add: sample_container_def sample_config_def config_from_gguf_def implemented_architecture_of_def architecture_def metadata_string_def
      architecture_key_def required_u32_def metadata_u32_def metadata_f32_def llama_attention_head_count_kv_def try_into_u32_def ok_def
      infer_vocab_size_from_token_embedding_def arch_uses_neox_rope_pairing_def Let_def)

theorem derived_dimensions_fit_witness:
  "\<exists>dims. from_config sample_config = Inr dims \<and> d_q_width dims = 64 \<and> d_q_width dims \<le> u64_max"
proof -
  let ?dims = "\<lparr>d_embedding_length = 64, d_block_count = 2, d_feed_forward_length = 128, d_attention_head_count_kv = 8,
    d_head_dim = 8, d_q_width = 64, d_kv_width = 64, d_vocab_size = 100\<rparr>"
  have "from_config sample_config = Inr ?dims" by (simp add: from_config_def sample_config_def)
  with derived_dimensions_fit [OF sample_reads this] show ?thesis by auto
qed

end
