(* ===== verification/ModelBinding.thy ===== *)
theory ModelBinding
  imports ModelConfig
begin

text \<open>
  Binding a model's tensors (\<^verbatim>\<open>engine-core/src/model/binding.rs\<close>): every tensor is looked up by its
  canonical name and its declared shape is checked against the derived dimensions, in the
  order of the source, so that the first problem is the one reported. Dimensions are \<^verbatim>\<open>u64\<close> values
  on a target whose \<^verbatim>\<open>usize\<close> has 64 bits, so that the conversions between the two do not fail.
\<close>

section \<open>Tensors by name\<close>

record LlamaFfnTensors =
  ffn_gate :: TensorDescriptor
  ffn_up :: TensorDescriptor
  ffn_down :: TensorDescriptor

record LlamaLayerTensors =
  l_attention_norm :: TensorDescriptor
  l_attention_q :: TensorDescriptor
  l_attention_k :: TensorDescriptor
  l_attention_v :: TensorDescriptor
  l_attention_output :: TensorDescriptor
  l_attention_q_norm :: "TensorDescriptor option"
  l_attention_k_norm :: "TensorDescriptor option"
  l_ffn_norm :: TensorDescriptor
  l_ffn :: LlamaFfnTensors

record LlamaTensorBinding =
  b_token_embedding :: TensorDescriptor
  b_output_norm :: TensorDescriptor
  b_output :: TensorDescriptor
  b_output_is_tied_embedding :: bool
  b_rope_freqs :: "TensorDescriptor option"
  b_layers :: "LlamaLayerTensors list"

definition find_tensor :: "GgufFile \<Rightarrow> string \<Rightarrow> TensorDescriptor option" where
  "find_tensor file name = find (\<lambda>t. td_name t = name) (gguf_tensors file)"

definition required_tensor :: "GgufFile \<Rightarrow> string \<Rightarrow> TensorDescriptor engine_result" where
  "required_tensor file name = ok_or (TensorNotFound name) (find_tensor file name)"

definition block_tensor :: "nat \<Rightarrow> string \<Rightarrow> string" where
  "block_tensor layer tensor = ''blk.'' @ show_nat layer @ ''.'' @ tensor @ ''.weight''"

section \<open>Shapes\<close>

definition require_descriptor_shape :: "TensorDescriptor \<Rightarrow> nat list \<Rightarrow> string \<Rightarrow> unit engine_result" where
  "require_descriptor_shape tensor expected role =
     (if td_dimensions tensor \<noteq> expected
      then Inl (InvalidModelMetadata (role @ '' tensor '' @ td_name tensor @ '' expected descriptor shape ''
             @ debug_nats expected @ '', got '' @ debug_nats (td_dimensions tensor)))
      else Inr ())"

definition require_descriptor_matrix_shape :: "TensorDescriptor \<Rightarrow> nat \<Rightarrow> nat \<Rightarrow> string \<Rightarrow> unit engine_result" where
  "require_descriptor_matrix_shape tensor input_width output_width role =
     (let actual = td_dimensions tensor; direct = [input_width, output_width]; transposed = [output_width, input_width] in
      if actual \<noteq> direct \<and> actual \<noteq> transposed
      then Inl (InvalidModelMetadata (role @ '' tensor '' @ td_name tensor @ '' expected descriptor shape ''
             @ debug_nats direct @ '' or '' @ debug_nats transposed @ '', got '' @ debug_nats actual))
      else Inr ())"

definition validate_output_projection_storage_layout :: "TensorDescriptor \<Rightarrow> nat \<Rightarrow> nat \<Rightarrow> unit engine_result" where
  "validate_output_projection_storage_layout tensor hidden_width vocab =
     (let problem = (\<lambda>text. Inl (InvalidModelMetadata (''output projection tensor '' @ td_name tensor @ text))) in
      if td_dimensions tensor \<noteq> [hidden_width, vocab] \<and> td_dimensions tensor \<noteq> [vocab, hidden_width] then Inr ()
      else (case layout (td_type tensor) of
          None \<Rightarrow> problem ('' has unsupported storage type '' @ debug_tensor_type (td_type tensor) @ '' for token-row validation'')
        | Some (block_size, type_size_bytes) \<Rightarrow>
            if \<not> block_size dvd hidden_width
            then problem ('' token-row width '' @ show_nat hidden_width @ '' is not divisible by ''
                   @ debug_tensor_type (td_type tensor) @ '' block size '' @ show_nat block_size)
            else (case checked_mul_u64 (hidden_width div block_size) type_size_bytes of
                None \<Rightarrow> problem '' token-row byte size overflow''
              | Some row_size_bytes \<Rightarrow> (case checked_mul_u64 row_size_bytes vocab of
                  None \<Rightarrow> problem '' token-row byte count overflow''
                | Some expected_bytes \<Rightarrow>
                    if td_n_bytes tensor \<noteq> expected_bytes
                    then problem ('' token-major storage validation failed: row_values='' @ show_nat hidden_width
                           @ '', row_count='' @ show_nat vocab @ '', row_size_bytes='' @ show_nat row_size_bytes
                           @ '', expected_n_bytes='' @ show_nat expected_bytes
                           @ '', actual_n_bytes='' @ show_nat (td_n_bytes tensor))
                    else Inr ()))))"

definition validate_rope_freqs :: "LlamaModelConfig \<Rightarrow> DenseLlamaDims \<Rightarrow> TensorDescriptor option \<Rightarrow> unit engine_result" where
  "validate_rope_freqs config dims rope = (case rope of
       None \<Rightarrow> Inr ()
     | Some rope_freqs \<Rightarrow>
         let rope_dim = (case rope_dimension_count config of Some n \<Rightarrow> n | None \<Rightarrow> d_head_dim dims mod 2 ^ 32) in
         if rope_dim = 0 \<or> rope_dim > d_head_dim dims \<or> odd rope_dim
         then Inl (InvalidModelMetadata (''RoPE dimension count '' @ show_nat rope_dim
                @ '' must be even and within head dimension '' @ show_nat (d_head_dim dims)))
         else require_descriptor_shape rope_freqs [rope_dim div 2] ''rope frequencies'')"

definition validate_qk_norm :: "DenseLlamaDims \<Rightarrow> nat \<Rightarrow> LlamaLayerTensors \<Rightarrow> unit engine_result" where
  "validate_qk_norm dims idx layer = (case (l_attention_q_norm layer, l_attention_k_norm layer) of
       (Some q_norm, Some k_norm) \<Rightarrow>
         and_then (require_descriptor_shape q_norm [d_head_dim dims] (''layer '' @ show_nat idx @ '' attention q_norm'')) (\<lambda>_.
         require_descriptor_shape k_norm [d_head_dim dims] (''layer '' @ show_nat idx @ '' attention k_norm''))
     | (None, None) \<Rightarrow> Inr ()
     | _ \<Rightarrow> Inl (InvalidModelMetadata (''layer '' @ show_nat idx @ '' has exactly one of attn_q_norm/attn_k_norm bound; ''
              @ ''QK-norm weights must be present as a pair'')))"

definition validate_layer :: "DenseLlamaDims \<Rightarrow> nat \<times> LlamaLayerTensors \<Rightarrow> unit engine_result" where
  "validate_layer dims = (\<lambda>(idx, layer).
     let role = (\<lambda>part. ''layer '' @ show_nat idx @ part); width = d_embedding_length dims in
     and_then (require_descriptor_shape (l_attention_norm layer) [width] (role '' attention norm'')) (\<lambda>_.
     and_then (require_descriptor_matrix_shape (l_attention_q layer) width (d_q_width dims) (role '' attention q'')) (\<lambda>_.
     and_then (require_descriptor_matrix_shape (l_attention_k layer) width (d_kv_width dims) (role '' attention k'')) (\<lambda>_.
     and_then (require_descriptor_matrix_shape (l_attention_v layer) width (d_kv_width dims) (role '' attention v'')) (\<lambda>_.
     and_then (require_descriptor_matrix_shape (l_attention_output layer) (d_q_width dims) width (role '' attention output'')) (\<lambda>_.
     and_then (validate_qk_norm dims idx layer) (\<lambda>_.
     and_then (require_descriptor_shape (l_ffn_norm layer) [width] (role '' ffn norm'')) (\<lambda>_.
     and_then (require_descriptor_matrix_shape (ffn_gate (l_ffn layer)) width (d_feed_forward_length dims) (role '' ffn gate'')) (\<lambda>_.
     and_then (require_descriptor_matrix_shape (ffn_up (l_ffn layer)) width (d_feed_forward_length dims) (role '' ffn up'')) (\<lambda>_.
     require_descriptor_matrix_shape (ffn_down (l_ffn layer)) (d_feed_forward_length dims) width (role '' ffn down'')))))))))))"

definition validate_dense_shapes :: "LlamaTensorBinding \<Rightarrow> LlamaModelConfig \<Rightarrow> unit engine_result" where
  "validate_dense_shapes bound config =
     and_then (from_config config) (\<lambda>dims. let width = d_embedding_length dims; vocab = d_vocab_size dims in
     and_then (require_descriptor_matrix_shape (b_token_embedding bound) width vocab ''token embedding'') (\<lambda>_.
     and_then (require_descriptor_shape (b_output_norm bound) [width] ''output norm'') (\<lambda>_.
     and_then (require_descriptor_matrix_shape (b_output bound) width vocab ''output projection'') (\<lambda>_.
     and_then (validate_output_projection_storage_layout (b_output bound) width vocab) (\<lambda>_.
     and_then (validate_rope_freqs config dims (b_rope_freqs bound)) (\<lambda>_.
     if length (b_layers bound) \<noteq> d_block_count dims
     then Inl (InvalidModelMetadata (''config block count '' @ show_nat (d_block_count dims)
            @ '' does not match bound layer count '' @ show_nat (length (b_layers bound))))
     else and_then (collect_results (map (validate_layer dims) (enumerate 0 (b_layers bound)))) (\<lambda>_. Inr ())))))))"

section \<open>Binding\<close>

text \<open>The per-head norms of a layer: required of \<^verbatim>\<open>qwen3\<close>, refused of the plain architectures.\<close>

definition bind_qk_norm :: "GgufFile \<Rightarrow> string \<Rightarrow> nat \<Rightarrow> (TensorDescriptor option \<times> TensorDescriptor option) engine_result" where
  "bind_qk_norm file arch idx =
     (let q = find_tensor file (block_tensor idx ''attn_q_norm''); k = find_tensor file (block_tensor idx ''attn_k_norm'') in
      if arch = ''qwen3''
      then (if q = None \<or> k = None
            then Inl (UnsupportedModelArchitecture (''qwen3 layer '' @ show_nat idx @ '' is missing QK-norm tensors ''
                   @ ''(attn_q_norm present: '' @ show_bool (q \<noteq> None) @ '', attn_k_norm present: '' @ show_bool (k \<noteq> None)
                   @ ''); Qwen3 applies per-head RMSNorm to Q and K and cannot run correctly without them''))
            else Inr (q, k))
      else if arch \<in> {''llama'', ''mistral'', ''qwen2''} \<and> (q \<noteq> None \<or> k \<noteq> None)
      then Inl (UnsupportedModelArchitecture (''architecture '' @ [CHR 0x22] @ arch @ [CHR 0x22]
             @ '' unexpectedly carries QK-norm tensors at layer '' @ show_nat idx
             @ '' (attn_q_norm/attn_k_norm); the Llama-family forward path does not apply them, so binding fails closed ''
             @ ''rather than running a model whose weights it would silently ignore''))
      else Inr (None, None))"

definition bind_layer :: "GgufFile \<Rightarrow> string \<Rightarrow> nat \<Rightarrow> LlamaLayerTensors engine_result" where
  "bind_layer file arch idx =
     and_then (bind_qk_norm file arch idx) (\<lambda>(q_norm, k_norm). let req = (\<lambda>tensor. required_tensor file (block_tensor idx tensor)) in
     and_then (req ''attn_norm'') (\<lambda>attention_norm. and_then (req ''attn_q'') (\<lambda>q. and_then (req ''attn_k'') (\<lambda>k.
     and_then (req ''attn_v'') (\<lambda>v. and_then (req ''attn_output'') (\<lambda>attention_output. and_then (req ''ffn_norm'') (\<lambda>norm.
     and_then (req ''ffn_gate'') (\<lambda>gate. and_then (req ''ffn_up'') (\<lambda>up. and_then (req ''ffn_down'') (\<lambda>down.
     Inr \<lparr>l_attention_norm = attention_norm, l_attention_q = q, l_attention_k = k, l_attention_v = v,
       l_attention_output = attention_output, l_attention_q_norm = q_norm, l_attention_k_norm = k_norm,
       l_ffn_norm = norm, l_ffn = \<lparr>ffn_gate = gate, ffn_up = up, ffn_down = down\<rparr>\<rparr>))))))))))"

definition check_head_lengths :: "GgufFile \<Rightarrow> string \<Rightarrow> unit engine_result" where
  "check_head_lengths file arch =
     (if arch = ''qwen3''
      then (case (metadata_u32 file (architecture_key arch ''attention.key_length''),
                  metadata_u32 file (architecture_key arch ''attention.value_length'')) of
          (Some k, Some v) \<Rightarrow>
            if k \<noteq> v
            then Inl (UnsupportedModelArchitecture (''qwen3 attention.key_length='' @ show_nat k @ '' != value_length='' @ show_nat v
                   @ ''; the engine assumes a single per-head dimension for K and V, so this row fails closed''))
            else Inr ()
        | _ \<Rightarrow> Inr ())
      else Inr ())"

definition bind :: "GgufFile \<Rightarrow> LlamaModelConfig \<Rightarrow> LlamaTensorBinding engine_result" where
  "bind file config =
     and_then (required_tensor file ''token_embd.weight'') (\<lambda>token_embedding.
     and_then (required_tensor file ''output_norm.weight'') (\<lambda>output_norm.
     let (output, tied) = (case find_tensor file ''output.weight'' of
             Some desc \<Rightarrow> (desc, False)
           | None \<Rightarrow> (token_embedding, True));
         rope_freqs = find_tensor file ''rope_freqs.weight'';
         arch = (case architecture file of Some arch \<Rightarrow> arch | None \<Rightarrow> []) in
     and_then (check_head_lengths file arch) (\<lambda>_.
     and_then (collect_results (map (bind_layer file arch) [0 ..< block_count config])) (\<lambda>layers.
     let bound = \<lparr>b_token_embedding = token_embedding, b_output_norm = output_norm, b_output = output,
           b_output_is_tied_embedding = tied, b_rope_freqs = rope_freqs, b_layers = layers\<rparr> in
     and_then (validate_dense_shapes bound config) (\<lambda>_. Inr bound)))))"

section \<open>Fused projections\<close>

text \<open>The row counts are \<^verbatim>\<open>u64\<close> sums, which wrap around in a release build.\<close>

definition is_fused :: "GgufFile \<Rightarrow> nat \<Rightarrow> string \<Rightarrow> string \<Rightarrow> nat \<Rightarrow> bool" where
  "is_fused file layer separate fused rows \<longleftrightarrow>
     find_tensor file (block_tensor layer separate) = None \<and>
     (case find_tensor file (block_tensor layer fused) of
        None \<Rightarrow> False
      | Some tensor \<Rightarrow> length (td_dimensions tensor) = 2 \<and> td_dimensions tensor ! 1 = rows)"

definition expand_fused_layer :: "GgufFile \<Rightarrow> LlamaModelConfig \<Rightarrow> nat \<Rightarrow> unit engine_result" where
  "expand_fused_layer file config layer =
     (let head_count = max (attention_head_count config) 1;
          head_dim = (case attention_key_length config of Some n \<Rightarrow> n | None \<Rightarrow> embedding_length config div head_count);
          q_rows = head_dim * attention_head_count config;
          kv_rows = head_dim * attention_head_count_kv config in
      if is_fused file layer ''attn_q'' ''attn_qkv'' ((q_rows + 2 * kv_rows) mod 2 ^ 64)
      then Inl (UnsupportedGguf (''layer '' @ show_nat layer @ '' carries a fused attn_qkv projection; splitting fused ''
             @ ''attention projections is not implemented on this path''))
      else if is_fused file layer ''ffn_gate'' ''ffn_up'' (2 * feed_forward_length config)
      then Inl (UnsupportedGguf (''layer '' @ show_nat layer @ '' carries a fused gate-up projection; splitting fused ''
             @ ''feed-forward projections is not implemented on this path''))
      else Inr ())"

definition expand_fused_dense_tensors :: "GgufFile \<Rightarrow> LlamaModelConfig \<Rightarrow> unit engine_result" where
  "expand_fused_dense_tensors file config =
     and_then (collect_results (map (expand_fused_layer file config) [0 ..< block_count config])) (\<lambda>_. Inr ())"

section \<open>What a bound tensor is\<close>

text \<open>The specification: the shapes the source documents, stated once for the whole model.\<close>

definition is_matrix :: "nat \<Rightarrow> nat \<Rightarrow> TensorDescriptor \<Rightarrow> bool" where
  "is_matrix a b t \<longleftrightarrow> td_dimensions t \<in> {[a, b], [b, a]}"

definition is_vector :: "nat \<Rightarrow> TensorDescriptor \<Rightarrow> bool" where
  "is_vector n t \<longleftrightarrow> td_dimensions t = [n]"

definition layer_fits :: "DenseLlamaDims \<Rightarrow> LlamaLayerTensors \<Rightarrow> bool" where
  "layer_fits dims l \<longleftrightarrow> (let width = d_embedding_length dims; hidden = d_feed_forward_length dims in
     is_vector width (l_attention_norm l) \<and> is_matrix width (d_q_width dims) (l_attention_q l) \<and>
     is_matrix width (d_kv_width dims) (l_attention_k l) \<and> is_matrix width (d_kv_width dims) (l_attention_v l) \<and>
     is_matrix (d_q_width dims) width (l_attention_output l) \<and>
     rel_option (\<lambda>q k. is_vector (d_head_dim dims) q \<and> is_vector (d_head_dim dims) k) (l_attention_q_norm l) (l_attention_k_norm l) \<and>
     is_vector width (l_ffn_norm l) \<and> is_matrix width hidden (ffn_gate (l_ffn l)) \<and>
     is_matrix width hidden (ffn_up (l_ffn l)) \<and> is_matrix hidden width (ffn_down (l_ffn l)))"

definition output_stored :: "TensorDescriptor \<Rightarrow> nat \<Rightarrow> nat \<Rightarrow> bool" where
  "output_stored t width vocab \<longleftrightarrow> (case layout (td_type t) of
       None \<Rightarrow> False
     | Some (block, bytes) \<Rightarrow> block dvd width \<and> td_n_bytes t = width div block * bytes * vocab \<and> td_n_bytes t \<le> u64_max)"

definition rope_fits :: "LlamaModelConfig \<Rightarrow> DenseLlamaDims \<Rightarrow> TensorDescriptor \<Rightarrow> bool" where
  "rope_fits config dims t \<longleftrightarrow> (\<exists>half. is_vector half t \<and> 0 < half \<and> 2 * half \<le> d_head_dim dims \<and>
     (case rope_dimension_count config of Some n \<Rightarrow> n | None \<Rightarrow> d_head_dim dims mod 2 ^ 32) = 2 * half)"

definition model_fits :: "LlamaModelConfig \<Rightarrow> DenseLlamaDims \<Rightarrow> LlamaTensorBinding \<Rightarrow> bool" where
  "model_fits config dims b \<longleftrightarrow> (let width = d_embedding_length dims; vocab = d_vocab_size dims in
     is_matrix width vocab (b_token_embedding b) \<and> is_vector width (b_output_norm b) \<and> is_matrix width vocab (b_output b) \<and>
     output_stored (b_output b) width vocab \<and> pred_option (rope_fits config dims) (b_rope_freqs b) \<and>
     length (b_layers b) = d_block_count dims \<and> list_all (layer_fits dims) (b_layers b))"

end
