(* ===== verification/ModelLaws.thy ===== *)
theory ModelLaws
  imports ModelBinding
begin

text \<open>
  What binding guarantees: the sequence of checks of the source accepts exactly the models that
  fit the specification \<open>model_fits\<close>, and binds every tensor to the descriptor of its name.
\<close>

section \<open>The single checks\<close>

lemma require_shape_ok: "require_descriptor_shape t [n] role = Inr () \<longleftrightarrow> is_vector n t"
  by (simp add: require_descriptor_shape_def is_vector_def)

lemma require_matrix_ok: "require_descriptor_matrix_shape t a b role = Inr () \<longleftrightarrow> is_matrix a b t"
  by (auto simp: require_descriptor_matrix_shape_def is_matrix_def Let_def)

lemma checked_mul_Some: "checked_mul_u64 a b = Some c \<longleftrightarrow> c = a * b \<and> c \<le> u64_max"
  by (auto simp: checked_mul_u64_def)

lemma checked_mul_None: "checked_mul_u64 a b = None \<longleftrightarrow> u64_max < a * b"
  by (auto simp: checked_mul_u64_def)

lemma output_layout_ok:
  assumes "is_matrix width vocab t" "0 < vocab"
  shows "validate_output_projection_storage_layout t width vocab = Inr () \<longleftrightarrow> output_stored t width vocab"
proof (cases "layout (td_type t)")
  case None
  then show ?thesis using assms by (auto simp: validate_output_projection_storage_layout_def output_stored_def is_matrix_def Let_def)
next
  case (Some bb)
  obtain block bytes where bb: "bb = (block, bytes)" by (cases bb)
  have shape: "\<not> (td_dimensions t \<noteq> [width, vocab] \<and> td_dimensions t \<noteq> [vocab, width])" using assms(1) by (auto simp: is_matrix_def)
  have row: "r * vocab \<le> u64_max \<Longrightarrow> r \<le> u64_max" for r using assms(2) by (cases vocab) simp_all
  have "validate_output_projection_storage_layout t width vocab = Inr () \<longleftrightarrow>
      block dvd width \<and> (\<exists>row. checked_mul_u64 (width div block) bytes = Some row \<and> checked_mul_u64 row vocab = Some (td_n_bytes t))"
    using shape unfolding validate_output_projection_storage_layout_def Some bb Let_def
    by (simp split: option.splits)
  also have "\<dots> \<longleftrightarrow> output_stored t width vocab"
    using row [of "width div block * bytes"] by (auto simp: output_stored_def Some bb checked_mul_Some)
  finally show ?thesis .
qed

lemma rope_ok: "validate_rope_freqs config dims rope = Inr () \<longleftrightarrow> pred_option (rope_fits config dims) rope"
proof (cases rope)
  case (Some t)
  have "(r = 0 \<or> d < r \<or> odd r) \<longleftrightarrow> \<not> (\<exists>h. 0 < h \<and> 2 * h \<le> d \<and> r = 2 * h)" for r d :: nat by presburger
  then show ?thesis using Some
    by (auto simp: validate_rope_freqs_def Let_def rope_fits_def require_shape_ok is_vector_def split: option.splits)
qed (simp add: validate_rope_freqs_def)

lemma qk_norm_ok:
  "validate_qk_norm dims idx l = Inr () \<longleftrightarrow>
     rel_option (\<lambda>q k. is_vector (d_head_dim dims) q \<and> is_vector (d_head_dim dims) k) (l_attention_q_norm l) (l_attention_k_norm l)"
  by (auto simp: validate_qk_norm_def and_then_Inr_iff require_shape_ok split: option.splits)

lemma layer_ok: "validate_layer dims (idx, l) = Inr () \<longleftrightarrow> layer_fits dims l"
  by (simp add: validate_layer_def layer_fits_def Let_def and_then_Inr_iff require_shape_ok require_matrix_ok qk_norm_ok)

lemma collect_units: "(\<exists>us. collect_results (map f xs) = Inr us) \<longleftrightarrow> list_all (\<lambda>x. f x = Inr ()) xs"
  for f :: "'b \<Rightarrow> unit engine_result"
  by (induction xs) (auto simp: and_then_Inr_iff)

lemma validate_ok:
  "validate_dense_shapes b config = Inr () \<longleftrightarrow> (\<exists>dims. from_config config = Inr dims \<and> model_fits config dims b)"
proof -
  have layers: "(\<exists>us. collect_results (map (validate_layer dims) (enumerate 0 ls)) = Inr us) \<longleftrightarrow> list_all (layer_fits dims) ls" for dims ls
    unfolding collect_units by (auto simp: list_all_length layer_ok nth_enumerate_eq)
  have "validate_dense_shapes b config = Inr () \<longleftrightarrow> model_fits config dims b" if dims: "from_config config = Inr dims" for dims
  proof -
    have "0 < d_vocab_size dims" using from_config_cases(6) [OF dims] by simp
    note out = output_layout_ok [OF _ this, of "d_embedding_length dims"]
    show ?thesis using layers [of dims "b_layers b"]
      by (auto simp: validate_dense_shapes_def dims model_fits_def Let_def and_then_Inr_iff require_shape_ok require_matrix_ok rope_ok out)
  qed
  then show ?thesis by (cases "from_config config") (auto simp: validate_dense_shapes_def)
qed

section \<open>Names\<close>

text \<open>The tensors of a layer, by name.\<close>

definition LAYER_TENSORS :: "(string \<times> (LlamaLayerTensors \<Rightarrow> TensorDescriptor)) list" where
  "LAYER_TENSORS = [(''attn_norm'', l_attention_norm), (''attn_q'', l_attention_q), (''attn_k'', l_attention_k),
     (''attn_v'', l_attention_v), (''attn_output'', l_attention_output), (''ffn_norm'', l_ffn_norm),
     (''ffn_gate'', ffn_gate \<circ> l_ffn), (''ffn_up'', ffn_up \<circ> l_ffn), (''ffn_down'', ffn_down \<circ> l_ffn)]"

definition layer_named :: "GgufFile \<Rightarrow> string \<Rightarrow> nat \<Rightarrow> LlamaLayerTensors \<Rightarrow> bool" where
  "layer_named file arch i l \<longleftrightarrow>
     list_all (\<lambda>(name, field). find_tensor file (block_tensor i name) = Some (field l)) LAYER_TENSORS \<and>
     (let q = find_tensor file (block_tensor i ''attn_q_norm''); k = find_tensor file (block_tensor i ''attn_k_norm'') in
      if arch = ''qwen3'' then q \<noteq> None \<and> k \<noteq> None \<and> l_attention_q_norm l = q \<and> l_attention_k_norm l = k
      else l_attention_q_norm l = None \<and> l_attention_k_norm l = None
        \<and> (arch \<in> {''llama'', ''mistral'', ''qwen2''} \<longrightarrow> q = None \<and> k = None))"

definition one_head_length :: "GgufFile \<Rightarrow> string \<Rightarrow> bool" where
  "one_head_length file arch \<longleftrightarrow> (arch = ''qwen3'' \<longrightarrow>
     (\<forall>k \<in> set_option (metadata_u32 file (architecture_key arch ''attention.key_length'')).
       \<forall>v \<in> set_option (metadata_u32 file (architecture_key arch ''attention.value_length'')). k = v))"

definition model_named :: "GgufFile \<Rightarrow> LlamaModelConfig \<Rightarrow> LlamaTensorBinding \<Rightarrow> bool" where
  "model_named file config b \<longleftrightarrow> (let arch = (case architecture file of Some arch \<Rightarrow> arch | None \<Rightarrow> []) in
     find_tensor file ''token_embd.weight'' = Some (b_token_embedding b) \<and>
     find_tensor file ''output_norm.weight'' = Some (b_output_norm b) \<and>
     (b_output_is_tied_embedding b \<longleftrightarrow> find_tensor file ''output.weight'' = None) \<and>
     b_output b = (case find_tensor file ''output.weight'' of Some t \<Rightarrow> t | None \<Rightarrow> b_token_embedding b) \<and>
     b_rope_freqs b = find_tensor file ''rope_freqs.weight'' \<and> one_head_length file arch \<and>
     length (b_layers b) = block_count config \<and>
     list_all (\<lambda>i. layer_named file arch i (b_layers b ! i)) [0 ..< block_count config])"

lemma required_tensor_Inr: "required_tensor file name = Inr t \<longleftrightarrow> find_tensor file name = Some t"
  by (simp add: required_tensor_def ok_or_Inr_iff)

lemma bind_qk_norm_Inr:
  "bind_qk_norm file arch i = Inr (q, k) \<longleftrightarrow>
     (let fq = find_tensor file (block_tensor i ''attn_q_norm''); fk = find_tensor file (block_tensor i ''attn_k_norm'') in
      if arch = ''qwen3'' then fq \<noteq> None \<and> fk \<noteq> None \<and> q = fq \<and> k = fk
      else q = None \<and> k = None \<and> (arch \<in> {''llama'', ''mistral'', ''qwen2''} \<longrightarrow> fq = None \<and> fk = None))"
proof (cases "arch = ''qwen3''")
  case True
  then show ?thesis unfolding bind_qk_norm_def Let_def by (simp only: if_True guard_Inr sum.inject prod.inject) auto
next
  case False
  define plain where "plain \<longleftrightarrow> arch \<in> {''llama'', ''mistral'', ''qwen2''}"
  show ?thesis unfolding bind_qk_norm_def Let_def plain_def [symmetric] using False by (simp only: if_False guard_Inr sum.inject prod.inject) auto
qed

lemma bind_layer_Inr: "bind_layer file arch i = Inr l \<longleftrightarrow> layer_named file arch i l"
proof -
  have "l = \<lparr>l_attention_norm = l_attention_norm l, l_attention_q = l_attention_q l, l_attention_k = l_attention_k l,
    l_attention_v = l_attention_v l, l_attention_output = l_attention_output l, l_attention_q_norm = l_attention_q_norm l,
    l_attention_k_norm = l_attention_k_norm l, l_ffn_norm = l_ffn_norm l,
    l_ffn = \<lparr>ffn_gate = ffn_gate (l_ffn l), ffn_up = ffn_up (l_ffn l), ffn_down = ffn_down (l_ffn l)\<rparr>\<rparr>" by simp
  then show ?thesis
    unfolding bind_layer_def layer_named_def LAYER_TENSORS_def Let_def
    by (auto simp: and_then_Inr_iff required_tensor_Inr bind_qk_norm_Inr Let_def simp del: insert_iff split: prod.splits if_splits)
qed

lemma collect_map: "collect_results (map f xs) = Inr ys \<longleftrightarrow> length ys = length xs \<and> list_all (\<lambda>i. f (xs ! i) = Inr (ys ! i)) [0 ..< length xs]"
  unfolding collect_results_Inr by (auto simp: list_eq_iff_nth_eq [of "map f xs"] list_all_iff)

lemma check_head_lengths_ok: "check_head_lengths file arch = Inr () \<longleftrightarrow> one_head_length file arch"
  by (cases "metadata_u32 file (architecture_key arch ''attention.key_length'')";
      cases "metadata_u32 file (architecture_key arch ''attention.value_length'')")
    (simp_all only: check_head_lengths_def one_head_length_def guard_Inr option.case prod.case option.set simp_thms split: if_splits, auto)

lemma bind_Inr:
  "bind file config = Inr b \<longleftrightarrow> model_named file config b \<and> validate_dense_shapes b config = Inr ()"
proof -
  define arch where "arch = (case architecture file of Some arch \<Rightarrow> arch | None \<Rightarrow> [])"
  have layers: "collect_results (map (bind_layer file arch) [0 ..< n]) = Inr ls \<longleftrightarrow>
      length ls = n \<and> list_all (\<lambda>i. layer_named file arch i (ls ! i)) [0 ..< n]" for n ls
    unfolding collect_map by (auto simp: bind_layer_Inr list_all_iff)
  show ?thesis
    unfolding bind_def model_named_def Let_def arch_def [symmetric]
    by (cases b; cases "find_tensor file ''output.weight''")
      (auto simp: and_then_Inr_iff required_tensor_Inr check_head_lengths_ok layers)
qed

section \<open>The model as a whole\<close>

text \<open>Property C24: binding accepts a container exactly when it holds every tensor of the configured blocks
  under its canonical name, with the per-head norms the architecture asks for and no others, and
  the shapes fit the derived dimensions; what is bound is the tensor of that name.\<close>

theorem bind_accepts_fitting_models:
  "bind file config = Inr b \<longleftrightarrow>
     model_named file config b \<and> (\<exists>dims. from_config config = Inr dims \<and> model_fits config dims b)"
  by (simp add: bind_Inr validate_ok)

lemma bound_layer:
  assumes "bind file config = Inr b" "i < block_count config"
  shows "layer_named file (case architecture file of Some arch \<Rightarrow> arch | None \<Rightarrow> []) i (b_layers b ! i)"
  using assms unfolding bind_Inr model_named_def Let_def list_all_iff by simp

text \<open>Also: a container that binds passes the check for fused projections, whatever its architecture:
  the check that runs before binding refuses nothing that binding would accept.\<close>

theorem bound_model_is_not_fused:
  assumes "bind file config = Inr b"
  shows "expand_fused_dense_tensors file config = Inr ()"
proof -
  have "expand_fused_layer file config i = Inr ()" if "i < block_count config" for i
  proof -
    have "find_tensor file (block_tensor i ''attn_q'') \<noteq> None" "find_tensor file (block_tensor i ''ffn_gate'') \<noteq> None"
      using bound_layer [OF assms that] by (simp_all add: layer_named_def LAYER_TENSORS_def)
    then show ?thesis by (simp add: expand_fused_layer_def is_fused_def Let_def)
  qed
  then show ?thesis using collect_units [of "expand_fused_layer file config" "[0 ..< block_count config]"]
    by (auto simp: expand_fused_dense_tensors_def list_all_iff)
qed

text \<open>A model of one block.\<close>

definition tiny_tensor :: "string \<Rightarrow> nat list \<Rightarrow> TensorDescriptor" where
  "tiny_tensor name dims = \<lparr>td_name = name, td_dimensions = dims, td_type = TF32, td_relative_offset = 0,
     td_absolute_offset = 0, td_n_bytes = 4 * prod_list dims\<rparr>"

definition tiny_container :: GgufFile where
  "tiny_container = sample_container\<lparr>gguf_tensors := map (\<lambda>(name, dims). tiny_tensor name dims)
     ([(''token_embd.weight'', [4, 6]), (''output_norm.weight'', [4])] @ map (\<lambda>(name, dims). (block_tensor 0 name, dims))
      [(''attn_norm'', [4]), (''attn_q'', [4, 4]), (''attn_k'', [4, 2]), (''attn_v'', [2, 4]), (''attn_output'', [4, 4]),
       (''ffn_norm'', [4]), (''ffn_gate'', [4, 8]), (''ffn_up'', [4, 8]), (''ffn_down'', [8, 4])])\<rparr>"

definition tiny_config :: LlamaModelConfig where
  "tiny_config = sample_config\<lparr>embedding_length := 4, block_count := 1, feed_forward_length := 8, attention_head_count := 2,
     attention_head_count_kv := 1, vocab_size := Some 6\<rparr>"

lemma tiny_binds: "\<exists>b. bind tiny_container tiny_config = Inr b"
  by (simp add: tiny_container_def tiny_config_def sample_container_def sample_config_def tiny_tensor_def bind_def required_tensor_def
      find_tensor_def architecture_def metadata_string_def check_head_lengths_def bind_layer_def bind_qk_norm_def block_tensor_def
      show_nat.simps hex_digit_def Let_def validate_dense_shapes_def from_config_def require_descriptor_matrix_shape_def
      require_descriptor_shape_def validate_output_projection_storage_layout_def checked_mul_u64_def u64_max_def validate_rope_freqs_def
      validate_layer_def validate_qk_norm_def enumerate_Suc_eq)

theorem bound_model_is_not_fused_witness: "expand_fused_dense_tensors tiny_container tiny_config = Inr ()"
  using tiny_binds bound_model_is_not_fused [of tiny_container tiny_config] by blast

end
