(* ===== verification/Run.thy ===== *)
theory Run
  imports Gguf
begin

text \<open>
  Computations of the engine that can fail in two ways: with an error of the source, or with a
  panic, which a slice or an index outside its buffer is. A run is \<open>None\<close> for a panic and
  otherwise the result of the source. Buffers are lists; an allocation is taken to succeed.
\<close>

type_synonym 'a run = "'a engine_result option"

definition return :: "'a \<Rightarrow> 'a run" where "return a = Some (Inr a)"
definition fail :: "EngineError \<Rightarrow> 'a run" where "fail e = Some (Inl e)"

definition run_then :: "'a run \<Rightarrow> ('a \<Rightarrow> 'b run) \<Rightarrow> 'b run" where
  "run_then r f = (case r of None \<Rightarrow> None | Some (Inl e) \<Rightarrow> Some (Inl e) | Some (Inr a) \<Rightarrow> f a)"

text \<open>A step that panics on \<open>None\<close> and cannot fail otherwise.\<close>

definition unwrap :: "'a option \<Rightarrow> 'a run" where "unwrap x = map_option Inr x"

definition require :: "bool \<Rightarrow> EngineError \<Rightarrow> unit run" where
  "require c e = (if c then return () else fail e)"

lemma run_simps [simp]:
  "run_then (return a) f = f a" "run_then (fail e) f = fail e" "run_then None f = None"
  "run_then (Some (Inr a)) f = f a" "run_then (Some (Inl e)) f = Some (Inl e)"
  "unwrap None = None" "unwrap (Some a) = return a"
  "require True e = return ()" "require False e = fail e"
  by (simp_all add: run_then_def return_def fail_def unwrap_def require_def)

lemma run_distinct [simp]: "return a \<noteq> fail e" "fail e \<noteq> return a" "return a \<noteq> None" "fail e \<noteq> None" "None \<noteq> return a" "None \<noteq> fail e"
  "return a = return b \<longleftrightarrow> a = b" "Some (Inr a) = return b \<longleftrightarrow> a = b" "return b = Some (Inr a) \<longleftrightarrow> a = b"
  by (auto simp: return_def fail_def)

lemma run_then_assoc: "run_then (run_then r f) g = run_then r (\<lambda>a. run_then (f a) g)"
  by (simp add: run_then_def split: option.splits sum.splits)

lemma run_then_return: "run_then r f = return b \<longleftrightarrow> (\<exists>a. r = return a \<and> f a = return b)"
  by (cases r) (auto simp: run_then_def return_def split: sum.splits)

lemma require_return: "require c e = return u \<longleftrightarrow> c"
  by (cases c) simp_all

text \<open>A run that does not panic, and whose result has a property.\<close>

definition runs_to :: "('a \<Rightarrow> bool) \<Rightarrow> 'a run \<Rightarrow> bool" where
  "runs_to P r \<longleftrightarrow> (case r of None \<Rightarrow> False | Some (Inl _) \<Rightarrow> True | Some (Inr a) \<Rightarrow> P a)"

named_theorems no_panic \<open>runs that do not panic\<close>

lemma runs_to_simps [simp]:
  "runs_to P (return a) \<longleftrightarrow> P a" "runs_to P (fail e)" "\<not> runs_to P None" "runs_to P (Some r) \<longleftrightarrow> (case r of Inl _ \<Rightarrow> True | Inr a \<Rightarrow> P a)"
  by (simp_all add: runs_to_def return_def fail_def)

lemma runs_to_then: "runs_to P r \<Longrightarrow> (\<And>a. P a \<Longrightarrow> r = return a \<Longrightarrow> runs_to Q (f a)) \<Longrightarrow> runs_to Q (run_then r f)"
proof (cases r)
  case (Some x)
  assume "runs_to P r" "\<And>a. P a \<Longrightarrow> r = return a \<Longrightarrow> runs_to Q (f a)"
  then show ?thesis using Some by (cases x) (simp_all add: return_def)
qed simp

lemma runs_to_require: "(c \<Longrightarrow> runs_to Q r) \<Longrightarrow> runs_to Q (run_then (require c e) (\<lambda>_. r))"
  by (cases c) simp_all

lemma runs_to_mono: "runs_to P r \<Longrightarrow> (\<And>a. P a \<Longrightarrow> Q a) \<Longrightarrow> runs_to Q r"
  by (auto simp: runs_to_def split: option.splits sum.splits)

lemma runs_to_not_None: "runs_to P r \<Longrightarrow> r \<noteq> None"
  by (cases r) simp_all

section \<open>Buffers\<close>

definition slice :: "nat \<Rightarrow> nat \<Rightarrow> 'a list \<Rightarrow> 'a list option" where
  "slice src n xs = (if src + n \<le> length xs then Some (take n (drop src xs)) else None)"

definition index :: "nat \<Rightarrow> 'a list \<Rightarrow> 'a option" where
  "index i xs = (if i < length xs then Some (xs ! i) else None)"

lemma slice_length: "slice src n xs = Some ys \<Longrightarrow> length ys = n"
  by (auto simp: slice_def split: if_splits)

lemma slice_ok: "src + n \<le> length xs \<Longrightarrow> slice src n xs = Some (take n (drop src xs))"
  by (simp add: slice_def)

text \<open>A step for every element, in order; the first failure ends it.\<close>

fun run_map :: "('a \<Rightarrow> 'b run) \<Rightarrow> 'a list \<Rightarrow> 'b list run" where
  "run_map f [] = return []"
| "run_map f (x # xs) = run_then (f x) (\<lambda>y. run_then (run_map f xs) (\<lambda>ys. return (y # ys)))"

fun run_fold :: "('a \<Rightarrow> 's \<Rightarrow> 's run) \<Rightarrow> 'a list \<Rightarrow> 's \<Rightarrow> 's run" where
  "run_fold f [] s = return s"
| "run_fold f (x # xs) s = run_then (f x s) (run_fold f xs)"

lemma run_map_pure: "(\<And>x. x \<in> set xs \<Longrightarrow> f x = return (g x)) \<Longrightarrow> run_map f xs = return (map g xs)"
  by (induction xs) simp_all

lemma runs_to_map:
  assumes "\<And>x. x \<in> set xs \<Longrightarrow> runs_to P (f x)"
  shows "runs_to (\<lambda>ys. length ys = length xs \<and> list_all P ys) (run_map f xs)"
  using assms
proof (induction xs)
  case (Cons x xs)
  have "runs_to P (f x)" using Cons.prems by simp
  moreover have "runs_to (\<lambda>ys. length ys = length xs \<and> list_all P ys) (run_map f xs)" using Cons by simp
  ultimately show ?case by (auto intro!: runs_to_then [where P = P] runs_to_then [where r = "run_map f xs"])
qed simp

lemma runs_to_fold:
  assumes "\<And>x s. x \<in> set xs \<Longrightarrow> P s \<Longrightarrow> runs_to P (f x s)" "P s"
  shows "runs_to P (run_fold f xs s)"
  using assms
proof (induction xs arbitrary: s)
  case (Cons x xs)
  have "runs_to P (f x s)" using Cons.prems by simp
  then show ?case using Cons by (auto intro!: runs_to_then [where P = P])
qed simp

end
