(* ===== verification/KvCache.thy ===== *)
theory KvCache
  imports ModelConfig HalfFloatLaws Run
begin

text \<open>
  The key-value cache (\<^verbatim>\<open>engine-core/src/forward/kv_cache.rs\<close>): two flat buffers, a row of \<open>head_dim\<close>
  values for every position, layer and key-value head. Indices are \<^verbatim>\<open>usize\<close> values whose products
  wrap around in a release build; a slice outside its buffer is a panic, the value \<open>None\<close>.
\<close>

section \<open>State and operations\<close>

record LlamaKvCachePlan =
  p_max_sequence_length :: nat
  p_layer_count :: nat
  p_kv_head_count :: nat
  p_head_dim :: nat

record LlamaKvCache =
  kv_plan :: LlamaKvCachePlan
  kv_keys :: "f32 list"
  kv_values :: "f32 list"
  kv_allocated :: nat
  kv_position :: nat

definition plan_from_config :: "LlamaModelConfig \<Rightarrow> LlamaKvCachePlan engine_result" where
  "plan_from_config config = and_then (from_config config) (\<lambda>dims.
     Inr \<lparr>p_max_sequence_length = context_length config, p_layer_count = d_block_count dims,
       p_kv_head_count = d_attention_head_count_kv dims, p_head_dim = d_head_dim dims\<rparr>)"

definition kv_new :: "LlamaKvCachePlan \<Rightarrow> LlamaKvCache engine_result" where
  "kv_new plan =
     (if p_layer_count plan = 0 \<or> p_kv_head_count plan = 0 \<or> p_head_dim plan = 0
      then Inl (InvalidModelMetadata ''KV cache plan requires non-zero layer, kv-head, and head-dim counts'')
      else Inr \<lparr>kv_plan = plan, kv_keys = [], kv_values = [], kv_allocated = 0, kv_position = 0\<rparr>)"

definition can_append :: "LlamaKvCache \<Rightarrow> bool" where
  "can_append c \<longleftrightarrow> kv_position c < p_max_sequence_length (kv_plan c)"

definition position_stride :: "LlamaKvCachePlan \<Rightarrow> nat" where
  "position_stride plan = p_layer_count plan * p_kv_head_count plan * p_head_dim plan mod 2 ^ 64"

definition kv_offset :: "LlamaKvCachePlan \<Rightarrow> nat \<Rightarrow> nat \<Rightarrow> nat \<Rightarrow> nat" where
  "kv_offset plan layer position head =
     ((position * p_layer_count plan + layer) * p_kv_head_count plan + head) * p_head_dim plan mod 2 ^ 64"

definition GROW_CHUNK :: nat where "GROW_CHUNK = 256"

definition resize :: "nat \<Rightarrow> 'a \<Rightarrow> 'a list \<Rightarrow> 'a list" where
  "resize n x xs = take n xs @ replicate (n - length xs) x"

definition grown_length :: "LlamaKvCache \<Rightarrow> nat \<Rightarrow> nat" where
  "grown_length c required =
     min (max (max required (min u64_max (kv_allocated c * 2))) GROW_CHUNK) (p_max_sequence_length (kv_plan c))"

definition ensure_position_capacity :: "nat \<Rightarrow> LlamaKvCache \<Rightarrow> LlamaKvCache engine_result" where
  "ensure_position_capacity required c =
     (let limit = p_max_sequence_length (kv_plan c) in
      if required > limit
      then Inl (ShapeMismatch (''KV cache position '' @ show_nat required @ '' exceeds context length '' @ show_nat limit))
      else if required \<le> kv_allocated c then Inr c
      else let target = grown_length c required in
        and_then (ok_or (ShapeMismatch ''KV cache element count overflow'') (checked_mul_u64 target (position_stride (kv_plan c))))
          (\<lambda>elements. Inr (c\<lparr>kv_keys := resize elements 0 (kv_keys c), kv_values := resize elements 0 (kv_values c),
                             kv_allocated := target\<rparr>)))"

text \<open>Rounding a row into a slice of \<open>n\<close> values; the shorter of the two ends the copy.\<close>

definition write_rounded :: "nat \<Rightarrow> nat \<Rightarrow> f32 list \<Rightarrow> f32 list \<Rightarrow> f32 list option" where
  "write_rounded dst n row buffer =
     (if dst + n \<le> length buffer
      then Some (take dst buffer @ map kv_round (take n row) @ drop (dst + length (take n row)) buffer)
      else None)"

definition store_kv_head_row :: "nat \<Rightarrow> nat \<Rightarrow> nat \<Rightarrow> f32 list \<Rightarrow> f32 list \<Rightarrow> LlamaKvCache \<Rightarrow> LlamaKvCache option" where
  "store_kv_head_row layer position head key_row value_row c =
     (let n = p_head_dim (kv_plan c); dst = kv_offset (kv_plan c) layer position head in
      case write_rounded dst n key_row (kv_keys c) of
        None \<Rightarrow> None
      | Some keys \<Rightarrow> (case write_rounded dst n value_row (kv_values c) of
          None \<Rightarrow> None
        | Some vals \<Rightarrow> Some (c\<lparr>kv_keys := keys, kv_values := vals\<rparr>)))"

definition key_row :: "LlamaKvCache \<Rightarrow> nat \<Rightarrow> nat \<Rightarrow> nat \<Rightarrow> f32 list option" where
  "key_row c layer position head = slice (kv_offset (kv_plan c) layer position head) (p_head_dim (kv_plan c)) (kv_keys c)"

definition value_row :: "LlamaKvCache \<Rightarrow> nat \<Rightarrow> nat \<Rightarrow> nat \<Rightarrow> f32 list option" where
  "value_row c layer position head = slice (kv_offset (kv_plan c) layer position head) (p_head_dim (kv_plan c)) (kv_values c)"

definition advance_position :: "LlamaKvCache \<Rightarrow> LlamaKvCache" where
  "advance_position c = c\<lparr>kv_position := (kv_position c + 1) mod 2 ^ 64\<rparr>"

section \<open>Invariant\<close>

text \<open>The buffers hold whole positions, no more of them than the context; the geometry does not wrap.\<close>

definition row_count :: "LlamaKvCachePlan \<Rightarrow> nat" where
  "row_count plan = p_layer_count plan * p_kv_head_count plan"

definition kv_ok :: "LlamaKvCache \<Rightarrow> bool" where
  "kv_ok c \<longleftrightarrow> 0 < row_count (kv_plan c) * p_head_dim (kv_plan c) \<and> row_count (kv_plan c) * p_head_dim (kv_plan c) < 2 ^ 64 \<and>
     length (kv_keys c) = kv_allocated c * position_stride (kv_plan c) \<and> length (kv_values c) = length (kv_keys c) \<and>
     kv_allocated c \<le> p_max_sequence_length (kv_plan c) \<and> length (kv_keys c) < 2 ^ 64"

inductive kv_reachable :: "LlamaKvCachePlan \<Rightarrow> LlamaKvCache \<Rightarrow> bool" for plan where
  kv_start: "kv_new plan = Inr c \<Longrightarrow> kv_reachable plan c"
| kv_grow: "kv_reachable plan c \<Longrightarrow> ensure_position_capacity required c = Inr c' \<Longrightarrow> kv_reachable plan c'"
| kv_store: "kv_reachable plan c \<Longrightarrow> store_kv_head_row layer position head ks vs c = Some c' \<Longrightarrow> kv_reachable plan c'"
| kv_advance: "kv_reachable plan c \<Longrightarrow> kv_reachable plan (advance_position c)"

text \<open>A row that exists, by layer, position and head.\<close>

definition row_valid :: "LlamaKvCache \<Rightarrow> nat \<times> nat \<times> nat \<Rightarrow> bool" where
  "row_valid c = (\<lambda>(layer, position, head).
     layer < p_layer_count (kv_plan c) \<and> position < kv_allocated c \<and> head < p_kv_head_count (kv_plan c))"

section \<open>Addresses\<close>

lemma position_stride_exact: "kv_ok c \<Longrightarrow> position_stride (kv_plan c) = row_count (kv_plan c) * p_head_dim (kv_plan c)"
  by (simp add: kv_ok_def position_stride_def row_count_def)

text \<open>The number of a row in the buffers.\<close>

definition row_index :: "LlamaKvCachePlan \<Rightarrow> nat \<times> nat \<times> nat \<Rightarrow> nat" where
  "row_index plan = (\<lambda>(layer, position, head). (position * p_layer_count plan + layer) * p_kv_head_count plan + head)"

lemma mixed_radix: "a < n \<Longrightarrow> b < n \<Longrightarrow> x * n + a = y * n + b \<longleftrightarrow> x = y \<and> a = (b :: nat)"
  by (metis add.commute div_mult_self1_is_m div_mult_self3 mod_mult_self3 mod_less div_less add_0 gr_implies_not_zero mult.commute)

lemma row_index_inj:
  assumes "row_valid c a" "row_valid c b"
  shows "row_index (kv_plan c) a = row_index (kv_plan c) b \<longleftrightarrow> a = b"
  using assms by (cases a; cases b) (auto simp: row_valid_def row_index_def mixed_radix)

lemma row_index_less:
  assumes "row_valid c a"
  shows "row_index (kv_plan c) a < kv_allocated c * row_count (kv_plan c)"
proof -
  obtain l p h where a: "a = (l, p, h)" by (cases a)
  have "p * p_layer_count (kv_plan c) + l + 1 \<le> (p + 1) * p_layer_count (kv_plan c)" using assms by (simp add: row_valid_def a)
  also have "\<dots> \<le> kv_allocated c * p_layer_count (kv_plan c)" using assms by (intro mult_right_mono) (simp_all add: row_valid_def a)
  finally have "(p * p_layer_count (kv_plan c) + l + 1) * p_kv_head_count (kv_plan c) \<le> kv_allocated c * p_layer_count (kv_plan c) * p_kv_head_count (kv_plan c)"
    by (rule mult_right_mono) simp
  then show ?thesis using assms by (simp add: row_valid_def row_index_def a row_count_def algebra_simps)
qed

lemma row_bounds:
  assumes "kv_ok c" "row_valid c a"
  shows "row_index (kv_plan c) a * p_head_dim (kv_plan c) + p_head_dim (kv_plan c) \<le> length (kv_keys c)"
proof -
  have "(row_index (kv_plan c) a + 1) * p_head_dim (kv_plan c) \<le> kv_allocated c * row_count (kv_plan c) * p_head_dim (kv_plan c)"
    using row_index_less [OF assms(2)] by (intro mult_right_mono) simp_all
  then show ?thesis using assms(1) position_stride_exact [OF assms(1)] by (simp add: kv_ok_def algebra_simps)
qed

lemma offset_exact:
  assumes "kv_ok c" "row_valid c (layer, position, head)"
  shows "kv_offset (kv_plan c) layer position head = row_index (kv_plan c) (layer, position, head) * p_head_dim (kv_plan c)"
proof -
  have "row_index (kv_plan c) (layer, position, head) * p_head_dim (kv_plan c) < 2 ^ 64"
    using row_bounds [OF assms] assms(1) by (simp add: kv_ok_def)
  then show ?thesis by (simp add: kv_offset_def row_index_def)
qed

lemma rows_disjoint: "i \<noteq> j \<Longrightarrow> i * n + n \<le> j * n \<or> j * n + n \<le> i * (n :: nat)"
  by (metis Suc_leI add.commute linorder_neqE_nat mult_Suc mult_le_mono1)

end
