(* ===== verification/KvCacheLaws.thy ===== *)
theory KvCacheLaws
  imports KvCache
begin

text \<open>
  The cache against its contract: a store of rounded rows. The contract is the locale
  \<open>row_store\<close>, whose client law is about a whole token's worth of writes; the cache is an
  interpretation of it.
\<close>

section \<open>Slices\<close>

lemma write_rounded_None: "write_rounded dst n row buffer = None \<longleftrightarrow> length buffer < dst + n"
  by (auto simp: write_rounded_def)

lemma write_rounded_length: "write_rounded dst n row buffer = Some b \<Longrightarrow> length b = length buffer"
  by (auto simp: write_rounded_def split: if_splits)

lemma write_rounded_same:
  assumes "write_rounded dst n row buffer = Some b" "length row = n"
  shows "slice dst n b = Some (map kv_round row)"
  using assms by (auto simp: write_rounded_def slice_def split: if_splits)

lemma write_rounded_other:
  assumes "write_rounded dst n row buffer = Some b" "src + n \<le> dst \<or> dst + n \<le> src"
  shows "slice src n b = slice src n buffer"
proof -
  have b: "b = take dst buffer @ map kv_round (take n row) @ drop (dst + length (take n row)) buffer" "dst + n \<le> length buffer"
    using assms(1) by (auto simp: write_rounded_def split: if_splits)
  have nth: "b ! i = buffer ! i" if "i < length buffer" "i < dst \<or> dst + n \<le> i" for i
    using that b by (auto simp: nth_append)
  show ?thesis using b(2) write_rounded_length [OF assms(1)] assms(2) nth
    by (auto simp: slice_def intro!: nth_equalityI)
qed

lemma slice_resize: "slice src n xs = Some r \<Longrightarrow> length xs \<le> m \<Longrightarrow> slice src n (resize m x xs) = Some r"
  by (auto simp: slice_def resize_def split: if_splits)

lemma slice_zeros:
  "length xs \<le> src \<Longrightarrow> src + n \<le> m \<Longrightarrow> slice src n (resize m x xs) = Some (replicate n x)"
  by (auto simp: slice_def resize_def min_def)

section \<open>Growth\<close>

lemma grown_length_bounds:
  assumes "required \<le> p_max_sequence_length (kv_plan c)" "kv_allocated c < required" "kv_allocated c \<le> u64_max div 2"
  shows "required \<le> grown_length c required" "kv_allocated c < grown_length c required"
    "grown_length c required \<le> p_max_sequence_length (kv_plan c)"
    "grown_length c required = p_max_sequence_length (kv_plan c) \<or> 2 * kv_allocated c \<le> grown_length c required"
proof -
  show required: "required \<le> grown_length c required" using assms(1) by (simp add: grown_length_def)
  then show "kv_allocated c < grown_length c required" using assms(2) by simp
  show "grown_length c required \<le> p_max_sequence_length (kv_plan c)" by (simp add: grown_length_def)
  have "min u64_max (kv_allocated c * 2) = kv_allocated c * 2" using assms(3) by simp
  then show "grown_length c required = p_max_sequence_length (kv_plan c) \<or> 2 * kv_allocated c \<le> grown_length c required"
    by (auto simp: grown_length_def min_def max_def)
qed

lemma ensure_cases:
  assumes "ensure_position_capacity required c = Inr c'"
  obtains (enough) "c' = c" "required \<le> kv_allocated c"
  | (grown) target elements where "target = grown_length c required" "elements = target * position_stride (kv_plan c)" "elements \<le> u64_max"
      "kv_allocated c < required" "required \<le> p_max_sequence_length (kv_plan c)"
      "c' = c\<lparr>kv_keys := resize elements 0 (kv_keys c), kv_values := resize elements 0 (kv_values c), kv_allocated := target\<rparr>"
  using assms by (auto simp: ensure_position_capacity_def Let_def and_then_Inr_iff ok_or_Inr_iff checked_mul_u64_def split: if_splits)

lemma resize_length [simp]: "length (resize n x xs) = n"
  by (simp add: resize_def)

lemma ensure_ok:
  assumes "kv_ok c" "ensure_position_capacity required c = Inr c'"
  shows "kv_ok c'" "kv_plan c' = kv_plan c" "required \<le> kv_allocated c'" "kv_allocated c \<le> kv_allocated c'"
    "length (kv_keys c) \<le> length (kv_keys c')"
proof -
  from assms(2) have "kv_ok c' \<and> kv_plan c' = kv_plan c \<and> required \<le> kv_allocated c' \<and> kv_allocated c \<le> kv_allocated c'"
  proof (cases rule: ensure_cases)
    case enough
    then show ?thesis using assms(1) by simp
  next
    case (grown target elements)
    have "required \<le> target" "target \<le> p_max_sequence_length (kv_plan c)" using grown(1,5) by (simp_all add: grown_length_def)
    then show ?thesis using grown assms(1) by (simp add: kv_ok_def u64_max_def)
  qed
  then show "kv_ok c'" and p: "kv_plan c' = kv_plan c" and "required \<le> kv_allocated c'" and a: "kv_allocated c \<le> kv_allocated c'" by simp_all
  then show "length (kv_keys c) \<le> length (kv_keys c')" using assms(1) by (simp add: kv_ok_def)
qed

lemma store_ok:
  assumes "kv_ok c" "store_kv_head_row layer position head ks vs c = Some c'"
  shows "kv_ok c'" "kv_plan c' = kv_plan c" "kv_allocated c' = kv_allocated c"
proof -
  have "kv_plan c' = kv_plan c \<and> kv_allocated c' = kv_allocated c \<and> length (kv_keys c') = length (kv_keys c)
      \<and> length (kv_values c') = length (kv_values c)"
    using assms(2) by (auto simp: store_kv_head_row_def Let_def write_rounded_length split: option.splits)
  then show "kv_ok c'" "kv_plan c' = kv_plan c" "kv_allocated c' = kv_allocated c" using assms(1) by (simp_all add: kv_ok_def)
qed

lemma advance_ok: "kv_ok (advance_position c) = kv_ok c" "kv_plan (advance_position c) = kv_plan c"
  by (simp_all add: advance_position_def kv_ok_def)

lemma reachable_ok:
  assumes "row_count plan * p_head_dim plan < 2 ^ 64" "kv_reachable plan c"
  shows "kv_ok c \<and> kv_plan c = plan"
  using assms(2)
proof (induction rule: kv_reachable.induct)
  case (kv_start c)
  then show ?case using assms(1) by (auto simp: kv_new_def kv_ok_def row_count_def split: if_splits)
next
  case (kv_grow c required c')
  then show ?case using ensure_ok(1,2) by metis
next
  case (kv_store c layer position head ks vs c')
  then show ?case using store_ok(1,2) by metis
next
  case (kv_advance c)
  then show ?case using advance_ok [of c] by simp
qed

section \<open>The contract\<close>

locale row_store =
  fixes read :: "'s \<Rightarrow> 'a \<Rightarrow> 'r" and write_row :: "'s \<Rightarrow> 'a \<Rightarrow> 'r \<Rightarrow> 's"
    and valid :: "'s \<Rightarrow> 'a \<Rightarrow> bool" and fits :: "'s \<Rightarrow> 'r \<Rightarrow> bool" and rounded :: "'r \<Rightarrow> 'r" and good :: "'s \<Rightarrow> bool"
  assumes good_write: "good s \<Longrightarrow> valid s a \<Longrightarrow> fits s r \<Longrightarrow> good (write_row s a r)"
    and valid_write: "good s \<Longrightarrow> valid s a \<Longrightarrow> fits s r \<Longrightarrow> valid (write_row s a r) b \<longleftrightarrow> valid s b"
    and fits_write: "good s \<Longrightarrow> valid s a \<Longrightarrow> fits s r \<Longrightarrow> fits (write_row s a r) r' \<longleftrightarrow> fits s r'"
    and read_written: "good s \<Longrightarrow> valid s a \<Longrightarrow> fits s r \<Longrightarrow> read (write_row s a r) a = rounded r"
    and read_other: "good s \<Longrightarrow> valid s a \<Longrightarrow> valid s b \<Longrightarrow> fits s r \<Longrightarrow> a \<noteq> b \<Longrightarrow> read (write_row s a r) b = read s b"
begin

definition write_rows :: "'s \<Rightarrow> ('a \<times> 'r) list \<Rightarrow> 's" where
  "write_rows s rows = foldl (\<lambda>s (a, r). write_row s a r) s rows"

definition writable :: "'s \<Rightarrow> ('a \<times> 'r) list \<Rightarrow> bool" where
  "writable s rows \<longleftrightarrow> good s \<and> list_all (\<lambda>(a, r). valid s a \<and> fits s r) rows"

lemma write_rows_simps [simp]: "write_rows s [] = s" "write_rows s ((a, r) # rows) = write_rows (write_row s a r) rows"
  by (simp_all add: write_rows_def)

lemma writable_step: "writable s ((a, r) # rows) \<Longrightarrow> writable (write_row s a r) rows"
  by (auto simp: writable_def list_all_iff good_write valid_write fits_write)

lemma valid_writes: "writable s rows \<Longrightarrow> valid (write_rows s rows) b \<longleftrightarrow> valid s b"
proof (induction rows arbitrary: s)
  case (Cons row rows)
  obtain a r where "row = (a, r)" by (cases row)
  then show ?case using Cons writable_step [of s a r rows] valid_write [of s a r b] by (simp add: writable_def)
qed simp

text \<open>The last row written to an address is what is read there, rounded; all else is untouched.\<close>

lemma read_writes:
  assumes "writable s rows" "valid s b"
  shows "read (write_rows s rows) b = (case map_of (rev rows) b of Some r \<Rightarrow> rounded r | None \<Rightarrow> read s b)"
  using assms
proof (induction rows arbitrary: s)
  case (Cons row rows)
  obtain a r where row: "row = (a, r)" by (cases row)
  have good: "good s" "valid s a" "fits s r" using Cons.prems(1) by (simp_all add: row writable_def)
  note IH = Cons.IH [OF writable_step [OF Cons.prems(1) [unfolded row]], unfolded valid_write [OF good], OF Cons.prems(2)]
  show ?case
    using IH read_written [OF good] read_other [OF good(1,2) Cons.prems(2) good(3)]
    by (cases "a = b") (auto simp: row map_add_def split: option.splits)
qed simp

end

definition kv_read :: "LlamaKvCache \<Rightarrow> nat \<times> nat \<times> nat \<Rightarrow> f32 list option \<times> f32 list option" where
  "kv_read c = (\<lambda>(layer, position, head). (key_row c layer position head, value_row c layer position head))"

definition kv_write :: "LlamaKvCache \<Rightarrow> nat \<times> nat \<times> nat \<Rightarrow> f32 list option \<times> f32 list option \<Rightarrow> LlamaKvCache" where
  "kv_write c = (\<lambda>(layer, position, head) (ks, vs). the (store_kv_head_row layer position head (the ks) (the vs) c))"

definition kv_fits :: "LlamaKvCache \<Rightarrow> f32 list option \<times> f32 list option \<Rightarrow> bool" where
  "kv_fits c = (\<lambda>(ks, vs). map_option length ks = Some (p_head_dim (kv_plan c)) \<and> map_option length vs = Some (p_head_dim (kv_plan c)))"

definition kv_rounded :: "f32 list option \<times> f32 list option \<Rightarrow> f32 list option \<times> f32 list option" where
  "kv_rounded = map_prod (map_option (map kv_round)) (map_option (map kv_round))"

lemma store_succeeds:
  assumes "kv_ok c" "row_valid c (layer, position, head)"
  shows "\<exists>c'. store_kv_head_row layer position head ks vs c = Some c'"
proof -
  let ?n = "p_head_dim (kv_plan c)" and ?dst = "kv_offset (kv_plan c) layer position head"
  have fit: "?dst + ?n \<le> length (kv_keys c)" "?dst + ?n \<le> length (kv_values c)"
    using row_bounds [OF assms] assms(1) by (simp_all add: offset_exact [OF assms] kv_ok_def)
  then show ?thesis by (auto simp: store_kv_head_row_def Let_def write_rounded_None split: option.splits)
qed

lemma store_reads:
  assumes "kv_ok c" "row_valid c (l, p, h)" "length ks = p_head_dim (kv_plan c)" "length vs = p_head_dim (kv_plan c)"
    "store_kv_head_row l p h ks vs c = Some c'"
  shows "key_row c' l p h = Some (map kv_round ks)" "value_row c' l p h = Some (map kv_round vs)"
    "row_valid c (l', p', h') \<Longrightarrow> (l', p', h') \<noteq> (l, p, h) \<Longrightarrow> key_row c' l' p' h' = key_row c l' p' h' \<and> value_row c' l' p' h' = value_row c l' p' h'"
proof -
  let ?n = "p_head_dim (kv_plan c)" and ?dst = "kv_offset (kv_plan c) l p h"
  obtain keys vals where kv: "write_rounded ?dst ?n ks (kv_keys c) = Some keys" "write_rounded ?dst ?n vs (kv_values c) = Some vals"
    "c' = c\<lparr>kv_keys := keys, kv_values := vals\<rparr>"
    using assms(5) by (auto simp: store_kv_head_row_def Let_def split: option.splits)
  show "key_row c' l p h = Some (map kv_round ks)" "value_row c' l p h = Some (map kv_round vs)"
    using write_rounded_same [OF kv(1) assms(3)] write_rounded_same [OF kv(2) assms(4)] by (simp_all add: kv(3) key_row_def value_row_def)
  assume other: "row_valid c (l', p', h')" "(l', p', h') \<noteq> (l, p, h)"
  then have "row_index (kv_plan c) (l', p', h') \<noteq> row_index (kv_plan c) (l, p, h)"
    using row_index_inj [OF other(1) assms(2)] by simp
  from rows_disjoint [OF this, of ?n]
  have "kv_offset (kv_plan c) l' p' h' + ?n \<le> ?dst \<or> ?dst + ?n \<le> kv_offset (kv_plan c) l' p' h'"
    by (simp only: offset_exact [OF assms(1,2)] offset_exact [OF assms(1) other(1)])
  then show "key_row c' l' p' h' = key_row c l' p' h' \<and> value_row c' l' p' h' = value_row c l' p' h'"
    using write_rounded_other [OF kv(1)] write_rounded_other [OF kv(2)] by (simp add: kv(3) key_row_def value_row_def)
qed

interpretation kv: row_store kv_read kv_write row_valid kv_fits kv_rounded kv_ok
proof
  fix c a b r r'
  assume ok: "kv_ok c" and valid: "row_valid c a" and fits: "kv_fits c r"
  obtain l p h where a: "a = (l, p, h)" by (cases a)
  obtain ks vs where r: "r = (Some ks, Some vs)" "length ks = p_head_dim (kv_plan c)" "length vs = p_head_dim (kv_plan c)"
    using fits by (cases r) (auto simp: kv_fits_def)
  obtain c' where c': "store_kv_head_row l p h ks vs c = Some c'" using store_succeeds [OF ok valid [unfolded a]] by blast
  then have w: "kv_write c a r = c'" by (simp add: kv_write_def a r)
  note same = store_ok [OF ok c'] and reads = store_reads [OF ok valid [unfolded a] r(2,3) c']
  show "kv_ok (kv_write c a r)" using same w by simp
  show "row_valid (kv_write c a r) b \<longleftrightarrow> row_valid c b" using same w by (simp add: row_valid_def)
  show "kv_fits (kv_write c a r) r' \<longleftrightarrow> kv_fits c r'" using same w by (simp add: kv_fits_def)
  show "kv_read (kv_write c a r) a = kv_rounded r" using reads(1,2) w by (simp add: kv_read_def kv_rounded_def a r)
  show "kv_read (kv_write c a r) b = kv_read c b" if "row_valid c b" "a \<noteq> b"
    using reads(3) that w by (cases b) (auto simp: kv_read_def a)
qed

section \<open>The cache as a whole\<close>

fun store_rows :: "((nat \<times> nat \<times> nat) \<times> f32 list \<times> f32 list) list \<Rightarrow> LlamaKvCache \<Rightarrow> LlamaKvCache option" where
  "store_rows [] c = Some c"
| "store_rows (((layer, position, head), ks, vs) # rows) c =
     Option.bind (store_kv_head_row layer position head ks vs c) (store_rows rows)"

definition row_fits :: "LlamaKvCache \<Rightarrow> (nat \<times> nat \<times> nat) \<times> f32 list \<times> f32 list \<Rightarrow> bool" where
  "row_fits c = (\<lambda>(a, ks, vs). row_valid c a \<and> length ks = p_head_dim (kv_plan c) \<and> length vs = p_head_dim (kv_plan c))"

definition boxed :: "(nat \<times> nat \<times> nat) \<times> f32 list \<times> f32 list \<Rightarrow> (nat \<times> nat \<times> nat) \<times> f32 list option \<times> f32 list option" where
  "boxed = (\<lambda>(a, ks, vs). (a, Some ks, Some vs))"

lemma rows_writable: "kv_ok c \<Longrightarrow> list_all (row_fits c) rows \<Longrightarrow> kv.writable c (map boxed rows)"
  by (auto simp: kv.writable_def list_all_iff row_fits_def boxed_def kv_fits_def)

lemma store_rows_writes:
  assumes "kv.writable c (map boxed rows)"
  shows "store_rows rows c = Some (kv.write_rows c (map boxed rows))"
  using assms
proof (induction rows arbitrary: c)
  case (Cons row rows)
  obtain l p h ks vs where row: "row = ((l, p, h), ks, vs)" by (cases row) auto
  have good: "kv_ok c" "row_valid c (l, p, h)" using Cons.prems by (simp_all add: kv.writable_def row boxed_def)
  obtain c' where c': "store_kv_head_row l p h ks vs c = Some c'" using store_succeeds [OF good] by blast
  have "kv_write c (l, p, h) (Some ks, Some vs) = c'" by (simp add: kv_write_def c')
  then show ?case using Cons.IH [of c'] kv.writable_step [of c "(l, p, h)" "(Some ks, Some vs)" "map boxed rows"] Cons.prems
    by (simp add: row c' boxed_def)
qed simp

lemma map_of_boxed: "map_of (rev (map boxed rows)) a = map_option (\<lambda>(ks, vs). (Some ks, Some vs)) (map_of (rev rows) a)"
proof -
  have "map_of (map boxed rs) a = map_option (\<lambda>(ks, vs). (Some ks, Some vs)) (map_of rs a)" for rs
    by (induction rs) (auto simp: boxed_def)
  then show ?thesis by (simp add: rev_map)
qed

text \<open>Property C23: storing any sequence of rows at positions the cache has room for succeeds, and afterwards a
  row reads as the last one stored there, every element rounded to a half, or as before when none was:
  layers, positions and heads never overlap.\<close>

theorem cache_reads_what_was_stored:
  assumes "row_count plan * p_head_dim plan < 2 ^ 64" "kv_reachable plan c" "list_all (row_fits c) rows"
  shows "\<exists>c'. store_rows rows c = Some c' \<and> (\<forall>layer position head. row_valid c (layer, position, head) \<longrightarrow>
    (case map_of (rev rows) (layer, position, head) of
       Some (ks, vs) \<Rightarrow> key_row c' layer position head = Some (map kv_round ks) \<and> value_row c' layer position head = Some (map kv_round vs)
     | None \<Rightarrow> key_row c' layer position head = key_row c layer position head \<and> value_row c' layer position head = value_row c layer position head))"
proof -
  have ok: "kv_ok c" using reachable_ok [OF assms(1,2)] by simp
  note w = rows_writable [OF ok assms(3)]
  note reads = kv.read_writes [OF w, unfolded map_of_boxed]
  show ?thesis
  proof (intro exI conjI allI impI, rule store_rows_writes [OF w])
    fix layer position head assume valid: "row_valid c (layer, position, head)"
    show "case map_of (rev rows) (layer, position, head) of
        Some (ks, vs) \<Rightarrow> key_row (kv.write_rows c (map boxed rows)) layer position head = Some (map kv_round ks)
          \<and> value_row (kv.write_rows c (map boxed rows)) layer position head = Some (map kv_round vs)
      | None \<Rightarrow> key_row (kv.write_rows c (map boxed rows)) layer position head = key_row c layer position head
          \<and> value_row (kv.write_rows c (map boxed rows)) layer position head = value_row c layer position head"
      using reads [OF valid] by (auto simp: kv_read_def kv_rounded_def split: option.splits)
  qed
qed

text \<open>A row of a grown buffer.\<close>

lemma grown_rows:
  assumes "kv_ok c" "kv_ok c'" "kv_plan c' = kv_plan c" "row_valid c' (l, p, h)"
    and "length buffer = length (kv_keys c)" "length (kv_keys c) \<le> length (kv_keys c')"
  shows "slice (kv_offset (kv_plan c) l p h) (p_head_dim (kv_plan c)) (resize (length (kv_keys c')) 0 buffer) =
    (if p < kv_allocated c then slice (kv_offset (kv_plan c) l p h) (p_head_dim (kv_plan c)) buffer
     else Some (replicate (p_head_dim (kv_plan c)) 0))"
proof -
  let ?n = "p_head_dim (kv_plan c)" and ?src = "kv_offset (kv_plan c) l p h"
  have src: "?src = row_index (kv_plan c) (l, p, h) * ?n" using offset_exact [OF assms(2,4)] assms(3) by simp
  have fit: "?src + ?n \<le> length (kv_keys c')" using row_bounds [OF assms(2,4)] src assms(3) by simp
  show ?thesis
  proof (cases "p < kv_allocated c")
    case True
    then have "row_valid c (l, p, h)" using assms(3,4) by (simp add: row_valid_def)
    then have "?src + ?n \<le> length buffer" using row_bounds [OF assms(1)] src assms(5) by simp
    then have "slice ?src ?n buffer = Some (take ?n (drop ?src buffer))" by (simp add: slice_def)
    then show ?thesis using True slice_resize assms(5,6) by metis
  next
    case False
    have "kv_allocated c * row_count (kv_plan c) \<le> p * row_count (kv_plan c)" using False by (intro mult_right_mono) simp_all
    also have "\<dots> \<le> row_index (kv_plan c) (l, p, h)" by (simp add: row_index_def row_count_def algebra_simps)
    finally have "kv_allocated c * row_count (kv_plan c) * ?n \<le> ?src" unfolding src by (rule mult_right_mono) simp
    then have "length buffer \<le> ?src" using assms(1,5) position_stride_exact [OF assms(1)] by (simp add: kv_ok_def mult.assoc)
    then show ?thesis using False slice_zeros fit by metis
  qed
qed

text \<open>Also: reserving room succeeds exactly when the context allows the position and the buffer's size
  is representable; it leaves every row as it was, fills new rows with zeros, and never
  allocates past the context.\<close>

theorem growth_keeps_rows:
  assumes "row_count plan * p_head_dim plan < 2 ^ 64" "kv_reachable plan c" "ensure_position_capacity required c = Inr c'"
  shows "required \<le> kv_allocated c' \<and> kv_allocated c' \<le> p_max_sequence_length plan \<and> kv_position c' = kv_position c \<and>
    (\<forall>layer position head. row_valid c' (layer, position, head) \<longrightarrow>
      (if position < kv_allocated c
       then key_row c' layer position head = key_row c layer position head \<and> value_row c' layer position head = value_row c layer position head
       else key_row c' layer position head = Some (replicate (p_head_dim plan) 0) \<and> value_row c' layer position head = Some (replicate (p_head_dim plan) 0)))"
proof -
  have ok: "kv_ok c" and plan: "kv_plan c = plan" using reachable_ok [OF assms(1,2)] by simp_all
  note grow = ensure_ok [OF ok assms(3)]
  from assms(3) show ?thesis
  proof (cases rule: ensure_cases)
    case enough
    then show ?thesis using ok plan by (auto simp: kv_ok_def row_valid_def)
  next
    case (grown target elements)
    have keys: "kv_keys c' = resize (length (kv_keys c')) 0 (kv_keys c)" "kv_values c' = resize (length (kv_keys c')) 0 (kv_values c)"
      using grown(6) by simp_all
    have "length (kv_values c) = length (kv_keys c)" using ok by (simp add: kv_ok_def)
    note rows = grown_rows [OF ok grow(1,2) _ refl grow(5)] grown_rows [OF ok grow(1,2) _ this grow(5)]
    have "kv_allocated c' \<le> p_max_sequence_length plan" "kv_position c' = kv_position c"
      using grow(1,2) plan grown(6) by (simp_all add: kv_ok_def)
    then show ?thesis using grow(2,3) rows keys plan by (auto simp: key_row_def value_row_def)
  qed
qed

text \<open>A cache of one position of two heads, and what a store leaves in it.\<close>

definition small_plan :: LlamaKvCachePlan where
  "small_plan = \<lparr>p_max_sequence_length = 4, p_layer_count = 1, p_kv_head_count = 2, p_head_dim = 1\<rparr>"

definition small_cache :: LlamaKvCache where
  "small_cache = \<lparr>kv_plan = small_plan, kv_keys = replicate 8 0, kv_values = replicate 8 0, kv_allocated = 4, kv_position = 0\<rparr>"

lemma small_grows:
  "kv_reachable small_plan \<lparr>kv_plan = small_plan, kv_keys = [], kv_values = [], kv_allocated = 0, kv_position = 0\<rparr>"
  "ensure_position_capacity 1 \<lparr>kv_plan = small_plan, kv_keys = [], kv_values = [], kv_allocated = 0, kv_position = 0\<rparr> = Inr small_cache"
  by (auto intro!: kv_start simp: kv_new_def small_plan_def small_cache_def ensure_position_capacity_def grown_length_def GROW_CHUNK_def
      u64_max_def position_stride_def checked_mul_u64_def resize_def)

theorem growth_keeps_rows_witness: "kv_allocated small_cache = 4 \<and> 1 \<le> kv_allocated small_cache \<and> kv_position small_cache = 0"
  using growth_keeps_rows [OF _ small_grows] by (simp add: small_plan_def row_count_def small_cache_def)

theorem cache_reads_what_was_stored_witness:
  "\<exists>c'. store_rows [((0, 3, 1), [0x3f800001], [0x40000000])] small_cache = Some c' \<and> key_row c' 0 3 1 = Some [kv_round 0x3f800001]"
proof -
  have "kv_reachable small_plan small_cache" by (rule kv_grow [OF small_grows])
  from cache_reads_what_was_stored [OF _ this, of "[((0, 3, 1), [0x3f800001], [0x40000000])]"] obtain c' where
    "store_rows [((0, 3, 1), [0x3f800001], [0x40000000])] small_cache = Some c'"
    "\<forall>layer position head. row_valid small_cache (layer, position, head) \<longrightarrow>
      (case map_of (rev [((0, 3, 1), [0x3f800001], [0x40000000])]) (layer, position, head) of
        Some (ks, vs) \<Rightarrow> key_row c' layer position head = Some (map kv_round ks) \<and> value_row c' layer position head = Some (map kv_round vs)
      | None \<Rightarrow> key_row c' layer position head = key_row small_cache layer position head \<and> value_row c' layer position head = value_row small_cache layer position head)"
    by (auto simp: small_plan_def small_cache_def row_count_def row_fits_def row_valid_def)
  moreover have "row_valid small_cache (0, 3, 1)" by (simp add: small_plan_def small_cache_def row_valid_def)
  ultimately show ?thesis by fastforce
qed

end
