(* ===== verification/Blocks.thy ===== *)
theory Blocks
  imports Gguf HalfFloat
begin

unbundle bit_operations_syntax

text \<open>
  The quantized block formats (\<^verbatim>\<open>engine-core/src/tensor/blocks.rs\<close>): how the bytes of a block are
  taken apart, how its values are computed, and how a tensor's bytes become values. A byte is a
  natural number below 256, a signed byte its two's complement value; arrays that the source
  fills by index are the lists of the values in that order. Values are computed with the
  operations of \<open>Float32\<close>, in the order of the source.
\<close>

section \<open>Bytes\<close>

definition i8_of_byte :: "nat \<Rightarrow> int" where
  "i8_of_byte b = (if b < 128 then int b else int b - 256)"

definition u16_from_le :: "nat \<Rightarrow> nat \<Rightarrow> 16 word" where
  "u16_from_le b0 b1 = word_of_nat (b0 + 256 * b1)"

definition u32_from_le :: "nat \<Rightarrow> nat \<Rightarrow> nat \<Rightarrow> nat \<Rightarrow> nat" where
  "u32_from_le b0 b1 b2 b3 = b0 + 256 * b1 + 65536 * b2 + 16777216 * b3"

definition u32_to_le :: "nat \<Rightarrow> nat list" where
  "u32_to_le n = [n mod 256, n div 256 mod 256, n div 65536 mod 256, n div 16777216 mod 256]"

text \<open>\<^verbatim>\<open>chunks_exact\<close>: a shorter rest is dropped.\<close>

function chunks_exact :: "nat \<Rightarrow> 'a list \<Rightarrow> 'a list list" where
  "chunks_exact n xs = (if n = 0 \<or> length xs < n then [] else take n xs # chunks_exact n (drop n xs))"
  by pat_completeness auto
termination by (relation "measure (length \<circ> snd)") auto

declare chunks_exact.simps [simp del]

section \<open>Shapes\<close>

type_synonym TensorShape = "nat list"

text \<open>Dimensions are \<^verbatim>\<open>u64\<close> and fit the 64-bit \<^verbatim>\<open>usize\<close>.\<close>

definition from_gguf_dims :: "nat list \<Rightarrow> TensorShape engine_result" where
  "from_gguf_dims dims = Inr dims"

definition shape_element_count :: "TensorShape \<Rightarrow> nat engine_result" where
  "shape_element_count dims = foldl (\<lambda>acc dim. and_then acc (\<lambda>n.
     ok_or (InvalidTensorData ''tensor element count overflow'') (checked_mul_u64 n dim))) (Inr 1) dims"

section \<open>Constants\<close>

definition Q8_BLOCK_SIZE :: nat where "Q8_BLOCK_SIZE = 32"
definition Q8_0_BLOCK_VALUES :: nat where "Q8_0_BLOCK_VALUES = Q8_BLOCK_SIZE"
definition Q4_0_BLOCK_BYTES :: nat where "Q4_0_BLOCK_BYTES = 2 + Q8_BLOCK_SIZE div 2"
definition Q4_1_BLOCK_BYTES :: nat where "Q4_1_BLOCK_BYTES = 4 + Q8_BLOCK_SIZE div 2"
definition Q5_0_BLOCK_BYTES :: nat where "Q5_0_BLOCK_BYTES = 2 + 4 + Q8_BLOCK_SIZE div 2"
definition Q5_1_BLOCK_BYTES :: nat where "Q5_1_BLOCK_BYTES = 4 + 4 + Q8_BLOCK_SIZE div 2"
definition QK_K_BLOCK_SIZE :: nat where "QK_K_BLOCK_SIZE = 256"
definition Q2_K_BLOCK_BYTES :: nat where "Q2_K_BLOCK_BYTES = 16 + 64 + 4"
definition Q3_K_BLOCK_BYTES :: nat where "Q3_K_BLOCK_BYTES = 32 + 64 + 12 + 2"
definition Q4_K_BLOCK_BYTES :: nat where "Q4_K_BLOCK_BYTES = 4 + 12 + 128"
definition Q5_K_BLOCK_BYTES :: nat where "Q5_K_BLOCK_BYTES = 4 + 12 + 32 + 128"
definition Q6_K_BLOCK_BYTES :: nat where "Q6_K_BLOCK_BYTES = 128 + 64 + 16 + 2"
definition Q8_K_BLOCK_BYTES :: nat where "Q8_K_BLOCK_BYTES = 292"
definition IQ4_NL_BLOCK_BYTES :: nat where "IQ4_NL_BLOCK_BYTES = 18"
definition IQ4_XS_BLOCK_BYTES :: nat where "IQ4_XS_BLOCK_BYTES = 2 + 2 + QK_K_BLOCK_SIZE div 64 + QK_K_BLOCK_SIZE div 2"

lemmas block_sizes = Q8_BLOCK_SIZE_def Q8_0_BLOCK_VALUES_def Q4_0_BLOCK_BYTES_def Q4_1_BLOCK_BYTES_def Q5_0_BLOCK_BYTES_def
  Q5_1_BLOCK_BYTES_def QK_K_BLOCK_SIZE_def Q2_K_BLOCK_BYTES_def Q3_K_BLOCK_BYTES_def Q4_K_BLOCK_BYTES_def Q5_K_BLOCK_BYTES_def
  Q6_K_BLOCK_BYTES_def Q8_K_BLOCK_BYTES_def IQ4_NL_BLOCK_BYTES_def IQ4_XS_BLOCK_BYTES_def

definition KVALUES_IQ4NL_I8 :: "int list" where
  "KVALUES_IQ4NL_I8 = [-127, -104, -83, -65, -49, -35, -22, -10, 1, 13, 25, 38, 53, 69, 89, 113]"

definition KVALUES_IQ4NL :: "f32 list" where "KVALUES_IQ4NL = map f32_of_int KVALUES_IQ4NL_I8"

section \<open>Blocks of 32 values\<close>

record Q8_0Block =
  q8_scale :: f32
  q8_quants :: "int list"

record Q4_0Block =
  q40_scale_bits :: "16 word"
  q40_values :: "nat list"

record Q4_1Block =
  q41_scale_bits :: "16 word"
  q41_min_bits :: "16 word"
  q41_values :: "nat list"

record Q5_0Block =
  q50_scale_bits :: "16 word"
  q50_high_bits :: nat
  q50_values :: "nat list"

record Q5_1Block =
  q51_scale_bits :: "16 word"
  q51_min_bits :: "16 word"
  q51_high_bits :: nat
  q51_values :: "nat list"

record IQ4NLBlock =
  iq4nl_d :: "16 word"
  iq4nl_qs :: "nat list"

definition q4_0_from_bytes :: "nat list \<Rightarrow> Q4_0Block" where
  "q4_0_from_bytes bytes = \<lparr>q40_scale_bits = u16_from_le (bytes ! 0) (bytes ! 1), q40_values = drop 2 bytes\<rparr>"

definition q4_0_scale :: "Q4_0Block \<Rightarrow> f32" where "q4_0_scale b = fast_f16_to_f32 (q40_scale_bits b)"

definition q4_0_unpack :: "Q4_0Block \<Rightarrow> int list" where
  "q4_0_unpack b = map (\<lambda>byte. int (byte AND 0x0f) - 8) (q40_values b) @ map (\<lambda>byte. int (drop_bit 4 byte) - 8) (q40_values b)"

definition q4_1_from_bytes :: "nat list \<Rightarrow> Q4_1Block" where
  "q4_1_from_bytes bytes = \<lparr>q41_scale_bits = u16_from_le (bytes ! 0) (bytes ! 1), q41_min_bits = u16_from_le (bytes ! 2) (bytes ! 3),
     q41_values = drop 4 bytes\<rparr>"

definition q4_1_scale :: "Q4_1Block \<Rightarrow> f32" where "q4_1_scale b = fast_f16_to_f32 (q41_scale_bits b)"
definition q4_1_min :: "Q4_1Block \<Rightarrow> f32" where "q4_1_min b = fast_f16_to_f32 (q41_min_bits b)"

definition q4_1_unpack :: "Q4_1Block \<Rightarrow> int list" where
  "q4_1_unpack b = map (\<lambda>byte. int (byte AND 0x0f)) (q41_values b) @ map (\<lambda>byte. int (drop_bit 4 byte)) (q41_values b)"

definition q5_0_from_bytes :: "nat list \<Rightarrow> Q5_0Block" where
  "q5_0_from_bytes bytes = \<lparr>q50_scale_bits = u16_from_le (bytes ! 0) (bytes ! 1),
     q50_high_bits = u32_from_le (bytes ! 2) (bytes ! 3) (bytes ! 4) (bytes ! 5), q50_values = drop 6 bytes\<rparr>"

definition q5_0_scale :: "Q5_0Block \<Rightarrow> f32" where "q5_0_scale b = fast_f16_to_f32 (q50_scale_bits b)"

text \<open>The fifth bit of a value, in its place.\<close>

definition fifth_bit :: "nat \<Rightarrow> nat \<Rightarrow> nat" where
  "fifth_bit high_bits idx = push_bit 4 (drop_bit idx high_bits AND 1)"

definition q5_0_unpack :: "Q5_0Block \<Rightarrow> int list" where
  "q5_0_unpack b = map (\<lambda>(idx, byte). int (byte AND 0x0f OR fifth_bit (q50_high_bits b) idx) - 16) (enumerate 0 (q50_values b))
     @ map (\<lambda>(idx, byte). int (drop_bit 4 byte OR fifth_bit (q50_high_bits b) (idx + 16)) - 16) (enumerate 0 (q50_values b))"

definition q5_1_from_bytes :: "nat list \<Rightarrow> Q5_1Block" where
  "q5_1_from_bytes bytes = \<lparr>q51_scale_bits = u16_from_le (bytes ! 0) (bytes ! 1), q51_min_bits = u16_from_le (bytes ! 2) (bytes ! 3),
     q51_high_bits = u32_from_le (bytes ! 4) (bytes ! 5) (bytes ! 6) (bytes ! 7), q51_values = drop 8 bytes\<rparr>"

definition q5_1_scale :: "Q5_1Block \<Rightarrow> f32" where "q5_1_scale b = fast_f16_to_f32 (q51_scale_bits b)"
definition q5_1_min :: "Q5_1Block \<Rightarrow> f32" where "q5_1_min b = fast_f16_to_f32 (q51_min_bits b)"

definition q5_1_unpack :: "Q5_1Block \<Rightarrow> int list" where
  "q5_1_unpack b = map (\<lambda>(idx, byte). int (byte AND 0x0f OR fifth_bit (q51_high_bits b) idx)) (enumerate 0 (q51_values b))
     @ map (\<lambda>(idx, byte). int (drop_bit 4 byte OR fifth_bit (q51_high_bits b) (idx + 16))) (enumerate 0 (q51_values b))"

definition iq4_nl_from_bytes :: "nat list \<Rightarrow> IQ4NLBlock" where
  "iq4_nl_from_bytes bytes = \<lparr>iq4nl_d = u16_from_le (bytes ! 0) (bytes ! 1), iq4nl_qs = take 16 (drop 2 bytes)\<rparr>"

definition iq4_nl_scale :: "IQ4NLBlock \<Rightarrow> f32" where "iq4_nl_scale b = fast_f16_to_f32 (iq4nl_d b)"

definition iq4_nl_dequantize :: "IQ4NLBlock \<Rightarrow> f32 list" where
  "iq4_nl_dequantize b = (let d = iq4_nl_scale b in
     map (\<lambda>byte. f32_mul d (KVALUES_IQ4NL ! (byte AND 0x0F))) (iq4nl_qs b)
     @ map (\<lambda>byte. f32_mul d (KVALUES_IQ4NL ! drop_bit 4 byte)) (iq4nl_qs b))"

end
