(* ===== verification/KQuants.thy ===== *)
theory KQuants
  imports Blocks
begin

unbundle bit_operations_syntax

text \<open>
  The blocks of 256 values of \<^verbatim>\<open>engine-core/src/tensor/blocks.rs\<close>. The counters that the source
  increments along its loops (scale index, shift, mask, offsets) are written as functions of
  the loop variables.
\<close>

section \<open>Q2_K and Q3_K\<close>

record Q2KBlock =
  q2k_scales :: "nat list"
  q2k_values :: "nat list"
  q2k_scale_bits :: "16 word"
  q2k_min_bits :: "16 word"

definition q2_k_from_bytes :: "nat list \<Rightarrow> Q2KBlock" where
  "q2_k_from_bytes bytes = \<lparr>q2k_scales = take 16 bytes, q2k_values = take 64 (drop 16 bytes),
     q2k_scale_bits = u16_from_le (bytes ! 80) (bytes ! 81), q2k_min_bits = u16_from_le (bytes ! 82) (bytes ! 83)\<rparr>"

definition q2_k_scale :: "Q2KBlock \<Rightarrow> f32" where "q2_k_scale b = fast_f16_to_f32 (q2k_scale_bits b)"
definition q2_k_min :: "Q2KBlock \<Rightarrow> f32" where "q2_k_min b = fast_f16_to_f32 (q2k_min_bits b)"

text \<open>Sixteen values from one scale byte.\<close>

definition q2_k_group :: "Q2KBlock \<Rightarrow> nat \<Rightarrow> nat \<Rightarrow> nat \<Rightarrow> f32 list" where
  "q2_k_group b scale_idx base shift =
     (let scale = q2k_scales b ! scale_idx;
          d = f32_mul (q2_k_scale b) (f32_of_int (int (scale AND 0x0f)));
          dm = f32_mul (q2_k_min b) (f32_of_int (int (drop_bit 4 scale))) in
      map (\<lambda>l. f32_sub (f32_mul d (f32_of_int (int (drop_bit shift (q2k_values b ! (base + l)) AND 3)))) dm) [0 ..< 16])"

definition q2_k_dequantize :: "Q2KBlock \<Rightarrow> f32 list" where
  "q2_k_dequantize b = concat (map (\<lambda>super_idx. concat (map (\<lambda>group_idx.
       q2_k_group b (super_idx * 8 + group_idx * 2) (super_idx * 32) (group_idx * 2)
       @ q2_k_group b (super_idx * 8 + group_idx * 2 + 1) (super_idx * 32 + 16) (group_idx * 2)) [0 ..< 4])) [0 ..< 2])"

record Q3KBlock =
  q3k_high_bits :: "nat list"
  q3k_values :: "nat list"
  q3k_scales :: "nat list"
  q3k_scale_bits :: "16 word"

definition q3_k_from_bytes :: "nat list \<Rightarrow> Q3KBlock" where
  "q3_k_from_bytes bytes = \<lparr>q3k_high_bits = take 32 bytes, q3k_values = take 64 (drop 32 bytes), q3k_scales = take 12 (drop 96 bytes),
     q3k_scale_bits = u16_from_le (bytes ! 108) (bytes ! 109)\<rparr>"

definition q3_k_scale :: "Q3KBlock \<Rightarrow> f32" where "q3_k_scale b = fast_f16_to_f32 (q3k_scale_bits b)"

definition KMASK1 :: nat where "KMASK1 = 0x03030303"
definition KMASK2 :: nat where "KMASK2 = 0x0f0f0f0f"

text \<open>A \<^verbatim>\<open>u32\<close> shifted to the left keeps 32 bits.\<close>

definition expanded_scales :: "Q3KBlock \<Rightarrow> int list" where
  "expanded_scales b =
     (let s = q3k_scales b;
          aux0 = u32_from_le (s ! 0) (s ! 1) (s ! 2) (s ! 3);
          aux1 = u32_from_le (s ! 4) (s ! 5) (s ! 6) (s ! 7);
          tmp = u32_from_le (s ! 8) (s ! 9) (s ! 10) (s ! 11);
          aux2' = (drop_bit 4 aux0 AND KMASK2) OR take_bit 32 (push_bit 4 (drop_bit 4 tmp AND KMASK1));
          aux3' = (drop_bit 4 aux1 AND KMASK2) OR take_bit 32 (push_bit 4 (drop_bit 6 tmp AND KMASK1));
          aux0' = (aux0 AND KMASK2) OR take_bit 32 (push_bit 4 (tmp AND KMASK1));
          aux1' = (aux1 AND KMASK2) OR take_bit 32 (push_bit 4 (drop_bit 2 tmp AND KMASK1)) in
      map i8_of_byte (concat (map u32_to_le [aux0', aux1', aux2', aux3'])))"

definition q3_k_group :: "Q3KBlock \<Rightarrow> nat \<Rightarrow> nat \<Rightarrow> nat \<Rightarrow> nat \<Rightarrow> nat \<Rightarrow> f32 list" where
  "q3_k_group b scale_idx base idx0 shift high_mask =
     (let d = f32_mul (q3_k_scale b) (f32_of_int (expanded_scales b ! scale_idx - 32)) in
      map (\<lambda>l. let high = (if q3k_high_bits b ! (idx0 + l) AND high_mask \<noteq> 0 then 0 else 4 :: int);
                    value = int (drop_bit shift (q3k_values b ! (base + idx0 + l)) AND 3) - high in
                f32_mul d (f32_of_int value)) [0 ..< 16])"

definition q3_k_dequantize :: "Q3KBlock \<Rightarrow> f32 list" where
  "q3_k_dequantize b = concat (map (\<lambda>super_idx. concat (map (\<lambda>group_idx.
       let scale_idx = super_idx * 8 + group_idx * 2; high_mask = push_bit (super_idx * 4 + group_idx) 1 in
       q3_k_group b scale_idx (super_idx * 32) 0 (group_idx * 2) high_mask
       @ q3_k_group b (scale_idx + 1) (super_idx * 32) 16 (group_idx * 2) high_mask) [0 ..< 4])) [0 ..< 2])"

section \<open>Q4_K and Q5_K\<close>

definition q4_k_scale_min :: "nat \<Rightarrow> nat list \<Rightarrow> nat \<times> nat" where
  "q4_k_scale_min idx scales =
     (if idx < 4 then (scales ! idx AND 63, scales ! (idx + 4) AND 63)
      else ((scales ! (idx + 4) AND 0x0f) OR push_bit 4 (drop_bit 6 (scales ! (idx - 4))),
            drop_bit 4 (scales ! (idx + 4)) OR push_bit 4 (drop_bit 6 (scales ! idx))))"

record Q4KBlock =
  q4k_scale_bits :: "16 word"
  q4k_min_bits :: "16 word"
  q4k_scales :: "nat list"
  q4k_values :: "nat list"

definition q4_k_from_bytes :: "nat list \<Rightarrow> Q4KBlock" where
  "q4_k_from_bytes bytes = \<lparr>q4k_scale_bits = u16_from_le (bytes ! 0) (bytes ! 1), q4k_min_bits = u16_from_le (bytes ! 2) (bytes ! 3),
     q4k_scales = take 12 (drop 4 bytes), q4k_values = drop 16 bytes\<rparr>"

definition q4_k_scale :: "Q4KBlock \<Rightarrow> f32" where "q4_k_scale b = fast_f16_to_f32 (q4k_scale_bits b)"
definition q4_k_min :: "Q4KBlock \<Rightarrow> f32" where "q4_k_min b = fast_f16_to_f32 (q4k_min_bits b)"

text \<open>A scaled value above a minimum.\<close>

definition scaled_above :: "f32 \<Rightarrow> f32 \<Rightarrow> nat \<times> nat \<Rightarrow> nat \<Rightarrow> f32" where
  "scaled_above d d_min = (\<lambda>(scale, m) q.
     f32_sub (f32_mul (f32_mul d (f32_of_int (int scale))) (f32_of_int (int q))) (f32_mul d_min (f32_of_int (int m))))"

definition q4_k_dequantize :: "Q4KBlock \<Rightarrow> f32 list" where
  "q4_k_dequantize b = (let value = scaled_above (q4_k_scale b) (q4_k_min b) in
     concat (map (\<lambda>pair_idx.
       let low = q4_k_scale_min (pair_idx * 2) (q4k_scales b); high = q4_k_scale_min (pair_idx * 2 + 1) (q4k_scales b) in
       map (\<lambda>l. value low (q4k_values b ! (pair_idx * 32 + l) AND 0x0f)) [0 ..< 32]
       @ map (\<lambda>l. value high (drop_bit 4 (q4k_values b ! (pair_idx * 32 + l)))) [0 ..< 32]) [0 ..< 4]))"

record Q5KBlock =
  q5k_scale_bits :: "16 word"
  q5k_min_bits :: "16 word"
  q5k_scales :: "nat list"
  q5k_high_bits :: "nat list"
  q5k_values :: "nat list"

definition q5_k_from_bytes :: "nat list \<Rightarrow> Q5KBlock" where
  "q5_k_from_bytes bytes = \<lparr>q5k_scale_bits = u16_from_le (bytes ! 0) (bytes ! 1), q5k_min_bits = u16_from_le (bytes ! 2) (bytes ! 3),
     q5k_scales = take 12 (drop 4 bytes), q5k_high_bits = take 32 (drop 16 bytes), q5k_values = drop 48 bytes\<rparr>"

definition q5_k_scale :: "Q5KBlock \<Rightarrow> f32" where "q5_k_scale b = fast_f16_to_f32 (q5k_scale_bits b)"
definition q5_k_min :: "Q5KBlock \<Rightarrow> f32" where "q5_k_min b = fast_f16_to_f32 (q5k_min_bits b)"

definition q5_k_dequantize :: "Q5KBlock \<Rightarrow> f32 list" where
  "q5_k_dequantize b = (let value = scaled_above (q5_k_scale b) (q5_k_min b) in
     concat (map (\<lambda>pair_idx.
       let low = q4_k_scale_min (pair_idx * 2) (q5k_scales b); high = q4_k_scale_min (pair_idx * 2 + 1) (q5k_scales b);
           u1 = push_bit (2 * pair_idx) 1; u2 = push_bit (2 * pair_idx) 2 in
       map (\<lambda>l. value low ((q5k_values b ! (pair_idx * 32 + l) AND 0x0f) + (if q5k_high_bits b ! l AND u1 \<noteq> 0 then 16 else 0))) [0 ..< 32]
       @ map (\<lambda>l. value high (drop_bit 4 (q5k_values b ! (pair_idx * 32 + l)) + (if q5k_high_bits b ! l AND u2 \<noteq> 0 then 16 else 0))) [0 ..< 32])
       [0 ..< 4]))"

section \<open>Q6_K and Q8_K\<close>

record Q6KBlock =
  q6k_ql :: "nat list"
  q6k_qh :: "nat list"
  q6k_scales :: "int list"
  q6k_scale_bits :: "16 word"

definition q6_k_from_bytes :: "nat list \<Rightarrow> Q6KBlock" where
  "q6_k_from_bytes bytes = \<lparr>q6k_ql = take 128 bytes, q6k_qh = take 64 (drop 128 bytes),
     q6k_scales = map i8_of_byte (take 16 (drop 192 bytes)), q6k_scale_bits = u16_from_le (bytes ! 208) (bytes ! 209)\<rparr>"

definition q6_k_scale :: "Q6KBlock \<Rightarrow> f32" where "q6_k_scale b = fast_f16_to_f32 (q6k_scale_bits b)"

text \<open>The six bits of a value in quarter \<open>part\<close> of half \<open>n\<close>.\<close>

definition q6_k_bits :: "Q6KBlock \<Rightarrow> nat \<Rightarrow> nat \<Rightarrow> nat \<Rightarrow> nat" where
  "q6_k_bits b n part l =
     (let ql = q6k_ql b ! (n * 64 + l + (if odd part then 32 else 0)); qh = q6k_qh b ! (n * 32 + l) in
      (if part < 2 then ql AND 0x0f else drop_bit 4 ql) OR push_bit 4 (drop_bit (2 * part) qh AND 0x03))"

definition q6_k_dequantize :: "Q6KBlock \<Rightarrow> f32 list" where
  "q6_k_dequantize b = (let d = q6_k_scale b in
     concat (map (\<lambda>n. concat (map (\<lambda>part. map (\<lambda>l.
         f32_mul (f32_mul d (f32_of_int (q6k_scales b ! (n * 8 + l div 16 + 2 * part))))
                 (f32_of_int (int (q6_k_bits b n part l) - 32))) [0 ..< 32]) [0 ..< 4])) [0 ..< 2]))"

record Q8KBlock =
  q8k_d :: f32
  q8k_qs :: "int list"
  q8k_bsums :: "int list"

definition q8_k_from_bytes :: "nat list \<Rightarrow> Q8KBlock" where
  "q8_k_from_bytes bytes = \<lparr>q8k_d = word_of_nat (u32_from_le (bytes ! 0) (bytes ! 1) (bytes ! 2) (bytes ! 3)),
     q8k_qs = map i8_of_byte (take 256 (drop 4 bytes)),
     q8k_bsums = map (\<lambda>i. sint (u16_from_le (bytes ! (260 + i * 2)) (bytes ! (260 + i * 2 + 1)))) [0 ..< 16]\<rparr>"

definition q8_k_dequantize :: "Q8KBlock \<Rightarrow> f32 list" where
  "q8_k_dequantize b = map (\<lambda>q. f32_mul (q8k_d b) (f32_of_int q)) (q8k_qs b)"

section \<open>IQ4_XS\<close>

record IQ4XSBlock =
  iq4xs_d :: "16 word"
  iq4xs_scales_h :: nat
  iq4xs_scales_l :: "nat list"
  iq4xs_qs :: "nat list"

definition iq4_xs_from_bytes :: "nat list \<Rightarrow> IQ4XSBlock" where
  "iq4_xs_from_bytes bytes = \<lparr>iq4xs_d = u16_from_le (bytes ! 0) (bytes ! 1), iq4xs_scales_h = unat (u16_from_le (bytes ! 2) (bytes ! 3)),
     iq4xs_scales_l = take 4 (drop 4 bytes), iq4xs_qs = take 128 (drop 8 bytes)\<rparr>"

definition iq4_xs_scale :: "IQ4XSBlock \<Rightarrow> f32" where "iq4_xs_scale b = fast_f16_to_f32 (iq4xs_d b)"

definition sub_block_scale_int :: "IQ4XSBlock \<Rightarrow> nat \<Rightarrow> int" where
  "sub_block_scale_int b ib =
     (let low = drop_bit (4 * (ib AND 1)) (iq4xs_scales_l b ! (ib div 2)) AND 0x0F;
          high = drop_bit (2 * ib) (iq4xs_scales_h b) AND 0x3 in
      int (low OR push_bit 4 high) - 32)"

definition sub_block_scale :: "IQ4XSBlock \<Rightarrow> nat \<Rightarrow> f32" where
  "sub_block_scale b ib = f32_mul (iq4_xs_scale b) (f32_of_int (sub_block_scale_int b ib))"

definition iq4_xs_dequantize :: "IQ4XSBlock \<Rightarrow> f32 list" where
  "iq4_xs_dequantize b = concat (map (\<lambda>ib.
     let dl = sub_block_scale b ib; qs = take 16 (drop (ib * 16) (iq4xs_qs b)) in
     map (\<lambda>j. f32_mul dl (KVALUES_IQ4NL ! (qs ! j AND 0x0F))) [0 ..< 16]
     @ map (\<lambda>j. f32_mul dl (KVALUES_IQ4NL ! drop_bit 4 (qs ! j))) [0 ..< 16]) [0 ..< 8])"

end
