(* ===== verification/BlockDecode.thy ===== *)
theory BlockDecode
  imports KQuants
begin

unbundle bit_operations_syntax

text \<open>
  A tensor's bytes as values (\<^verbatim>\<open>engine-core/src/tensor/blocks.rs\<close>): the decoders of the float formats,
  of every block format, of the ternary formats and of NVFP4 with its refusal of sentinel scales.
\<close>

section \<open>Blocks of one format\<close>

definition blocks_of :: "string \<Rightarrow> nat \<Rightarrow> (nat list \<Rightarrow> 'b) \<Rightarrow> nat list \<Rightarrow> 'b list engine_result" where
  "blocks_of format width from_bytes bytes =
     (if \<not> width dvd length bytes
      then Inl (InvalidTensorData (format @ '' byte length '' @ show_nat (length bytes) @ '' is not aligned to ''
             @ show_nat width @ ''-byte blocks''))
      else Inr (map from_bytes (chunks_exact width bytes)))"

definition decode_q4_0_blocks :: "nat list \<Rightarrow> Q4_0Block list engine_result" where
  "decode_q4_0_blocks = blocks_of ''Q4_0'' Q4_0_BLOCK_BYTES q4_0_from_bytes"

definition decode_q4_1_blocks :: "nat list \<Rightarrow> Q4_1Block list engine_result" where
  "decode_q4_1_blocks = blocks_of ''Q4_1'' Q4_1_BLOCK_BYTES q4_1_from_bytes"

definition decode_q5_0_blocks :: "nat list \<Rightarrow> Q5_0Block list engine_result" where
  "decode_q5_0_blocks = blocks_of ''Q5_0'' Q5_0_BLOCK_BYTES q5_0_from_bytes"

definition decode_q5_1_blocks :: "nat list \<Rightarrow> Q5_1Block list engine_result" where
  "decode_q5_1_blocks = blocks_of ''Q5_1'' Q5_1_BLOCK_BYTES q5_1_from_bytes"

definition decode_q2_k_blocks :: "nat list \<Rightarrow> Q2KBlock list engine_result" where
  "decode_q2_k_blocks = blocks_of ''Q2_K'' Q2_K_BLOCK_BYTES q2_k_from_bytes"

definition decode_q3_k_blocks :: "nat list \<Rightarrow> Q3KBlock list engine_result" where
  "decode_q3_k_blocks = blocks_of ''Q3_K'' Q3_K_BLOCK_BYTES q3_k_from_bytes"

definition decode_q4_k_blocks :: "nat list \<Rightarrow> Q4KBlock list engine_result" where
  "decode_q4_k_blocks = blocks_of ''Q4_K'' Q4_K_BLOCK_BYTES q4_k_from_bytes"

definition decode_q5_k_blocks :: "nat list \<Rightarrow> Q5KBlock list engine_result" where
  "decode_q5_k_blocks = blocks_of ''Q5_K'' Q5_K_BLOCK_BYTES q5_k_from_bytes"

definition decode_q6_k_blocks :: "nat list \<Rightarrow> Q6KBlock list engine_result" where
  "decode_q6_k_blocks = blocks_of ''Q6_K'' Q6_K_BLOCK_BYTES q6_k_from_bytes"

definition decode_q8_k_blocks :: "nat list \<Rightarrow> Q8KBlock list engine_result" where
  "decode_q8_k_blocks = blocks_of ''Q8_K'' Q8_K_BLOCK_BYTES q8_k_from_bytes"

definition decode_iq4_nl_blocks :: "nat list \<Rightarrow> IQ4NLBlock list engine_result" where
  "decode_iq4_nl_blocks = blocks_of ''IQ4_NL'' IQ4_NL_BLOCK_BYTES iq4_nl_from_bytes"

definition decode_iq4_xs_blocks :: "nat list \<Rightarrow> IQ4XSBlock list engine_result" where
  "decode_iq4_xs_blocks = blocks_of ''IQ4_XS'' IQ4_XS_BLOCK_BYTES iq4_xs_from_bytes"

section \<open>Float formats\<close>

text \<open>The expected byte count is a \<^verbatim>\<open>usize\<close> product, which wraps around.\<close>

definition require_float_bytes :: "string \<Rightarrow> string \<Rightarrow> nat \<Rightarrow> nat list \<Rightarrow> nat \<Rightarrow> unit engine_result" where
  "require_float_bytes name format width bytes expected_elements =
     (let expected = expected_elements * width mod 2 ^ 64 in
      if length bytes \<noteq> expected
      then Inl (InvalidTensorData (''tensor '' @ name @ '' '' @ format @ '' byte length '' @ show_nat (length bytes)
             @ '' does not match expected '' @ show_nat expected))
      else Inr ())"

definition decode_f32_tensor :: "string \<Rightarrow> nat list \<Rightarrow> nat \<Rightarrow> f32 list engine_result" where
  "decode_f32_tensor name bytes expected_elements = and_then (require_float_bytes name ''f32'' 4 bytes expected_elements) (\<lambda>_.
     Inr (map (\<lambda>c. word_of_nat (u32_from_le (c ! 0) (c ! 1) (c ! 2) (c ! 3))) (chunks_exact 4 bytes)))"

definition decode_f16_tensor :: "string \<Rightarrow> nat list \<Rightarrow> nat \<Rightarrow> f32 list engine_result" where
  "decode_f16_tensor name bytes expected_elements = and_then (require_float_bytes name ''f16'' 2 bytes expected_elements) (\<lambda>_.
     Inr (map (\<lambda>c. f16_bits_to_f32 (u16_from_le (c ! 0) (c ! 1))) (chunks_exact 2 bytes)))"

definition decode_bf16_tensor :: "string \<Rightarrow> nat list \<Rightarrow> nat \<Rightarrow> f32 list engine_result" where
  "decode_bf16_tensor name bytes expected_elements = and_then (require_float_bytes name ''bf16'' 2 bytes expected_elements) (\<lambda>_.
     Inr (map (\<lambda>c. word_of_nat (push_bit 16 (unat (u16_from_le (c ! 0) (c ! 1))))) (chunks_exact 2 bytes)))"

section \<open>Q8_0\<close>

definition q8_0_block_of :: "nat list \<Rightarrow> Q8_0Block" where
  "q8_0_block_of block = \<lparr>q8_scale = f16_bits_to_f32 (u16_from_le (block ! 0) (block ! 1)), q8_quants = map i8_of_byte (drop 2 block)\<rparr>"

definition decode_q8_0_blocks :: "string \<Rightarrow> nat list \<Rightarrow> nat \<Rightarrow> Q8_0Block list engine_result" where
  "decode_q8_0_blocks name bytes expected_elements =
     (let expected_bytes = expected_elements div 32 * 34 in
      if \<not> 32 dvd expected_elements
      then Inl (InvalidTensorData (''tensor '' @ name @ '' q8_0 element count '' @ show_nat expected_elements
             @ '' is not divisible by '' @ show_nat 32))
      else if length bytes \<noteq> expected_bytes mod 2 ^ 64
      then Inl (InvalidTensorData (''tensor '' @ name @ '' q8_0 byte length '' @ show_nat (length bytes)
             @ '' does not match expected '' @ show_nat (expected_bytes mod 2 ^ 64)))
      else Inr (map q8_0_block_of (chunks_exact 34 bytes)))"

definition q8_0_values :: "Q8_0Block \<Rightarrow> f32 list" where
  "q8_0_values b = map (\<lambda>q. f32_mul (q8_scale b) (f32_of_int q)) (q8_quants b)"

definition decode_q8_0_tensor :: "string \<Rightarrow> nat list \<Rightarrow> nat \<Rightarrow> f32 list engine_result" where
  "decode_q8_0_tensor name bytes expected_elements =
     and_then (decode_q8_0_blocks name bytes expected_elements) (\<lambda>blocks. Inr (concat (map q8_0_values blocks)))"

section \<open>The other block formats\<close>

definition named_error :: "string \<Rightarrow> EngineError \<Rightarrow> EngineError" where
  "named_error name e = InvalidTensorData (name @ '': '' @ error_text e)"

definition decode_tensor_of :: "(nat list \<Rightarrow> 'b list engine_result) \<Rightarrow> ('b \<Rightarrow> f32 list) \<Rightarrow> string \<Rightarrow> nat list \<Rightarrow> f32 list engine_result" where
  "decode_tensor_of decode_blocks vals name bytes =
     and_then (map_err (named_error name) (decode_blocks bytes)) (\<lambda>blocks. Inr (concat (map vals blocks)))"

text \<open>The expected element count only sizes the buffer.\<close>

definition decode_q4_0_tensor :: "string \<Rightarrow> nat list \<Rightarrow> nat \<Rightarrow> f32 list engine_result" where
  "decode_q4_0_tensor name bytes expected_elements = decode_tensor_of decode_q4_0_blocks
     (\<lambda>b. let scale = q4_0_scale b in map (\<lambda>val. f32_mul (f32_of_int val) scale) (q4_0_unpack b)) name bytes"

definition decode_q4_1_tensor :: "string \<Rightarrow> nat list \<Rightarrow> nat \<Rightarrow> f32 list engine_result" where
  "decode_q4_1_tensor name bytes expected_elements = decode_tensor_of decode_q4_1_blocks
     (\<lambda>b. let scale = q4_1_scale b; m = q4_1_min b in
        map (\<lambda>val. f32_add (f32_mul (f32_of_int val) scale) m) (q4_1_unpack b)) name bytes"

definition decode_q5_0_tensor :: "string \<Rightarrow> nat list \<Rightarrow> nat \<Rightarrow> f32 list engine_result" where
  "decode_q5_0_tensor name bytes expected_elements = decode_tensor_of decode_q5_0_blocks
     (\<lambda>b. let scale = q5_0_scale b in map (\<lambda>val. f32_mul (f32_of_int val) scale) (q5_0_unpack b)) name bytes"

definition decode_q5_1_tensor :: "string \<Rightarrow> nat list \<Rightarrow> nat \<Rightarrow> f32 list engine_result" where
  "decode_q5_1_tensor name bytes expected_elements = decode_tensor_of decode_q5_1_blocks
     (\<lambda>b. let scale = q5_1_scale b; m = q5_1_min b in
        map (\<lambda>val. f32_add (f32_mul (f32_of_int val) scale) m) (q5_1_unpack b)) name bytes"

definition decode_q2_k_tensor :: "string \<Rightarrow> nat list \<Rightarrow> nat \<Rightarrow> f32 list engine_result" where
  "decode_q2_k_tensor name bytes expected_elements = decode_tensor_of decode_q2_k_blocks q2_k_dequantize name bytes"

definition decode_q3_k_tensor :: "string \<Rightarrow> nat list \<Rightarrow> nat \<Rightarrow> f32 list engine_result" where
  "decode_q3_k_tensor name bytes expected_elements = decode_tensor_of decode_q3_k_blocks q3_k_dequantize name bytes"

definition decode_q4_k_tensor :: "string \<Rightarrow> nat list \<Rightarrow> nat \<Rightarrow> f32 list engine_result" where
  "decode_q4_k_tensor name bytes expected_elements = decode_tensor_of decode_q4_k_blocks q4_k_dequantize name bytes"

definition decode_q5_k_tensor :: "string \<Rightarrow> nat list \<Rightarrow> nat \<Rightarrow> f32 list engine_result" where
  "decode_q5_k_tensor name bytes expected_elements = decode_tensor_of decode_q5_k_blocks q5_k_dequantize name bytes"

definition decode_q6_k_tensor :: "string \<Rightarrow> nat list \<Rightarrow> nat \<Rightarrow> f32 list engine_result" where
  "decode_q6_k_tensor name bytes expected_elements = decode_tensor_of decode_q6_k_blocks q6_k_dequantize name bytes"

definition decode_q8_k_tensor :: "string \<Rightarrow> nat list \<Rightarrow> nat \<Rightarrow> f32 list engine_result" where
  "decode_q8_k_tensor name bytes expected_elements = decode_tensor_of decode_q8_k_blocks q8_k_dequantize name bytes"

definition decode_iq4_nl_tensor :: "string \<Rightarrow> nat list \<Rightarrow> nat \<Rightarrow> f32 list engine_result" where
  "decode_iq4_nl_tensor name bytes expected_elements = decode_tensor_of decode_iq4_nl_blocks iq4_nl_dequantize name bytes"

definition decode_iq4_xs_tensor :: "string \<Rightarrow> nat list \<Rightarrow> nat \<Rightarrow> f32 list engine_result" where
  "decode_iq4_xs_tensor name bytes expected_elements = decode_tensor_of decode_iq4_xs_blocks iq4_xs_dequantize name bytes"

section \<open>The ternary formats\<close>

definition TQ1_0_BLOCK_BYTES :: nat where "TQ1_0_BLOCK_BYTES = 54"
definition TQ2_0_BLOCK_BYTES :: nat where "TQ2_0_BLOCK_BYTES = 66"

definition unaligned_ternary :: "string \<Rightarrow> string \<Rightarrow> nat \<Rightarrow> nat list \<Rightarrow> f32 list engine_result" where
  "unaligned_ternary name format width bytes = Inl (InvalidTensorData (name @ '': '' @ format @ '' byte length '' @ show_nat (length bytes)
     @ '' is not aligned to '' @ show_nat width @ ''-byte blocks''))"

definition tq2_0_block_values :: "nat list \<Rightarrow> f32 list" where
  "tq2_0_block_values block =
     (let qs = take 64 block; d = f16_bits_to_f32 (u16_from_le (block ! 64) (block ! 65)) in
      concat (map (\<lambda>j. concat (map (\<lambda>l. map (\<lambda>m.
        f32_mul (f32_of_int (int (drop_bit (l * 2) (qs ! (j + m)) AND 3) - 1)) d) [0 ..< 32]) [0 ..< 4])) [0, 32]))"

definition decode_tq2_0_tensor :: "string \<Rightarrow> nat list \<Rightarrow> nat \<Rightarrow> f32 list engine_result" where
  "decode_tq2_0_tensor name bytes expected_elements =
     (if \<not> TQ2_0_BLOCK_BYTES dvd length bytes then unaligned_ternary name ''TQ2_0'' TQ2_0_BLOCK_BYTES bytes
      else Inr (concat (map tq2_0_block_values (chunks_exact TQ2_0_BLOCK_BYTES bytes))))"

definition POW3 :: "nat list" where "POW3 = [1, 3, 9, 27, 81]"

text \<open>The leading base-3 digit of a byte times a power of three, cut to a byte.\<close>

definition trit :: "nat \<Rightarrow> nat \<Rightarrow> int" where
  "trit byte pw = int (drop_bit 8 (take_bit 8 (byte * pw) * 3)) - 1"

definition tq1_0_block_values :: "nat list \<Rightarrow> f32 list" where
  "tq1_0_block_values block =
     (let qs = take 48 block; qh = take 4 (drop 48 block); d = f16_bits_to_f32 (u16_from_le (block ! 52) (block ! 53));
          emit = (\<lambda>bytes pw. map (\<lambda>byte. f32_mul (f32_of_int (trit byte pw)) d) bytes) in
      concat (map (emit (take 32 qs)) POW3) @ concat (map (emit (drop 32 qs)) POW3) @ concat (map (emit qh) (take 4 POW3)))"

definition decode_tq1_0_tensor :: "string \<Rightarrow> nat list \<Rightarrow> nat \<Rightarrow> f32 list engine_result" where
  "decode_tq1_0_tensor name bytes expected_elements =
     (if \<not> TQ1_0_BLOCK_BYTES dvd length bytes then unaligned_ternary name ''TQ1_0'' TQ1_0_BLOCK_BYTES bytes
      else Inr (concat (map tq1_0_block_values (chunks_exact TQ1_0_BLOCK_BYTES bytes))))"

section \<open>NVFP4\<close>

definition NVFP4_VALUES_PER_BLOCK :: nat where "NVFP4_VALUES_PER_BLOCK = 64"
definition NVFP4_WIRE_BYTES_PER_BLOCK :: nat where "NVFP4_WIRE_BYTES_PER_BLOCK = 36"
definition NVFP4_SUB_BLOCK_VALUES :: nat where "NVFP4_SUB_BLOCK_VALUES = 16"

definition KVALUES_MXFP4_I8 :: "int list" where
  "KVALUES_MXFP4_I8 = [0, 1, 2, 3, 4, 6, 8, 12, 0, -1, -2, -3, -4, -6, -8, -12]"

definition KVALUES_MXFP4 :: "f32 list" where "KVALUES_MXFP4 = map f32_of_int KVALUES_MXFP4_I8"

definition ue4m3_to_f32 :: "nat \<Rightarrow> f32" where
  "ue4m3_to_f32 byte =
     (if byte = 0x00 \<or> byte = 0x7F then 0
      else let e = drop_bit 3 byte AND 0xF; man = f32_of_int (int (byte AND 0x7));
               raw = (if e = 0 then f32_mul man (word_of_nat (push_bit 23 (127 - 9)))
                      else f32_mul (f32_add (f32_of_int 1) (f32_div man (f32_of_int 8)))
                             (word_of_nat (push_bit 23 (nat (int e - 7 + 127))))) in
           f32_mul raw 0x3F000000)"

definition UE4M3_TO_F32 :: "f32 list" where "UE4M3_TO_F32 = map ue4m3_to_f32 [0 ..< 256]"

definition nvfp4_find_nan_scale :: "nat list \<Rightarrow> nat option" where
  "nvfp4_find_nan_scale bytes =
     (let blocks = chunks_exact NVFP4_WIRE_BYTES_PER_BLOCK bytes in
      find (\<lambda>i. list_ex (\<lambda>b. b = 0x7F \<or> b = 0xFF) (take 4 (blocks ! i))) [0 ..< length blocks])"

definition nvfp4_wire_block_dequant :: "nat list \<Rightarrow> f32 list" where
  "nvfp4_wire_block_dequant block = concat (map (\<lambda>s.
     let d = UE4M3_TO_F32 ! (block ! s) in
     map (\<lambda>j. f32_mul (KVALUES_MXFP4 ! (block ! (4 + s * 8 + j) AND 0x0F)) d) [0 ..< 8]
     @ map (\<lambda>j. f32_mul (KVALUES_MXFP4 ! drop_bit 4 (block ! (4 + s * 8 + j))) d) [0 ..< 8]) [0 ..< 4])"

definition decode_nvfp4_tensor :: "string \<Rightarrow> nat list \<Rightarrow> nat \<Rightarrow> f32 list engine_result" where
  "decode_nvfp4_tensor name bytes expected_elements =
     (let blocks = expected_elements div NVFP4_VALUES_PER_BLOCK; expected_bytes = blocks * NVFP4_WIRE_BYTES_PER_BLOCK mod 2 ^ 64 in
      if \<not> NVFP4_VALUES_PER_BLOCK dvd expected_elements
      then Inl (InvalidTensorData (name @ '': NVFP4 element count '' @ show_nat expected_elements @ '' is not a multiple of ''
             @ show_nat NVFP4_VALUES_PER_BLOCK))
      else if length bytes \<noteq> expected_bytes
      then Inl (InvalidTensorData (name @ '': NVFP4 wire length '' @ show_nat (length bytes) @ '' != '' @ show_nat blocks
             @ '' blocks * '' @ show_nat NVFP4_WIRE_BYTES_PER_BLOCK @ '' bytes = '' @ show_nat expected_bytes))
      else (case nvfp4_find_nan_scale bytes of
          Some block_idx \<Rightarrow> Inl (InvalidTensorData (name @ '': NVFP4 block '' @ show_nat block_idx
              @ '' carries a NaN-sentinel UE4M3 scale byte (0x7F/0xFF); refusing at load (per-block dequant stays bit-exact)''))
        | None \<Rightarrow> Inr (concat (map nvfp4_wire_block_dequant (chunks_exact NVFP4_WIRE_BYTES_PER_BLOCK bytes)))))"

end
