(* ===== verification/Tensor.thy ===== *)
theory Tensor
  imports BlockDecode Run ModelBinding
begin

text \<open>
  The tensor of the engine and its kernels (\<^verbatim>\<open>engine-core/src/tensor/mod.rs\<close>). Every reduction has one
  accumulator and goes through its indices in ascending order. The elementary functions of the
  platform's math library, whose last bits Rust leaves open, and the printed forms of a float and of a
  text in the messages are the parameter \<open>libm\<close>.
\<close>

section \<open>The tensor\<close>

record libm =
  m_exp :: "f32 \<Rightarrow> f32"
  m_ln :: "f32 \<Rightarrow> f32"
  m_sin :: "f32 \<Rightarrow> f32"
  m_cos :: "f32 \<Rightarrow> f32"
  m_powf :: "f32 \<Rightarrow> f32 \<Rightarrow> f32"
  m_show :: "f32 \<Rightarrow> string"
  m_debug :: "string \<Rightarrow> string"

datatype RuntimeDType = RF32

record CpuTensor =
  t_name :: string
  t_shape :: TensorShape
  t_dtype :: RuntimeDType
  t_source_type :: "TensorType option"
  t_q8_0_blocks :: "Q8_0Block list option"
  t_q4_k_wire_bytes :: "nat list option"
  t_q5_k_wire_bytes :: "nat list option"
  t_q6_k_wire_bytes :: "nat list option"
  t_tq2_0_wire_bytes :: "nat list option"
  t_iq4_xs_wire_bytes :: "nat list option"
  t_data :: "f32 list"

text \<open>A tensor with nothing but values.\<close>

definition plain_tensor :: "string \<Rightarrow> TensorShape \<Rightarrow> f32 list \<Rightarrow> CpuTensor" where
  "plain_tensor name dims values_list = \<lparr>t_name = name, t_shape = dims, t_dtype = RF32, t_source_type = None, t_q8_0_blocks = None,
     t_q4_k_wire_bytes = None, t_q5_k_wire_bytes = None, t_q6_k_wire_bytes = None, t_tq2_0_wire_bytes = None,
     t_iq4_xs_wire_bytes = None, t_data = values_list\<rparr>"

definition lift :: "'a engine_result \<Rightarrow> 'a run" where "lift r = Some r"

definition from_f32 :: "string \<Rightarrow> TensorShape \<Rightarrow> f32 list \<Rightarrow> CpuTensor engine_result" where
  "from_f32 name dims vals = and_then (shape_element_count dims) (\<lambda>expected.
     if expected \<noteq> length vals
     then Inl (ShapeMismatch (''tensor data length '' @ show_nat (length vals) @ '' does not match shape element count '' @ show_nat expected))
     else Inr (plain_tensor name dims vals))"

definition from_f32_with_source_type :: "string \<Rightarrow> TensorShape \<Rightarrow> f32 list \<Rightarrow> TensorType option \<Rightarrow> CpuTensor engine_result" where
  "from_f32_with_source_type name dims vals source_type =
     and_then (from_f32 name dims vals) (\<lambda>t. Inr (t\<lparr>t_source_type := source_type\<rparr>))"

definition from_f32_with_q8_0_blocks :: "string \<Rightarrow> TensorShape \<Rightarrow> f32 list \<Rightarrow> Q8_0Block list \<Rightarrow> CpuTensor engine_result" where
  "from_f32_with_q8_0_blocks name dims vals blocks =
     and_then (from_f32 name dims vals) (\<lambda>t. Inr (t\<lparr>t_source_type := Some Q8_0, t_q8_0_blocks := Some blocks\<rparr>))"

definition from_q8_0_blocks :: "string \<Rightarrow> TensorShape \<Rightarrow> Q8_0Block list \<Rightarrow> CpuTensor engine_result" where
  "from_q8_0_blocks name dims blocks = and_then (shape_element_count dims) (\<lambda>expected_elements.
     if \<not> 32 dvd expected_elements
     then Inl (InvalidTensorData (''q8_0 block-backed tensor element count '' @ show_nat expected_elements @ '' is not block aligned''))
     else if length blocks \<noteq> expected_elements div 32
     then Inl (InvalidTensorData (''q8_0 block-backed tensor expected '' @ show_nat (expected_elements div 32) @ '' blocks, got ''
            @ show_nat (length blocks)))
     else Inr ((plain_tensor name dims [])\<lparr>t_source_type := Some Q8_0, t_q8_0_blocks := Some blocks\<rparr>))"

definition into_parts :: "CpuTensor \<Rightarrow> string \<times> TensorShape \<times> f32 list" where
  "into_parts t = (t_name t, t_shape t, t_data t)"

definition tensor_rank :: "CpuTensor \<Rightarrow> nat" where "tensor_rank t = length (t_shape t)"

definition dim :: "CpuTensor \<Rightarrow> nat \<Rightarrow> nat engine_result" where
  "dim t idx = (if idx < length (t_shape t) then Inr (t_shape t ! idx)
     else Inl (ShapeMismatch (''tensor '' @ t_name t @ '' rank '' @ show_nat (tensor_rank t) @ '' has no dimension '' @ show_nat idx)))"

definition require_rank :: "CpuTensor \<Rightarrow> nat \<Rightarrow> string \<Rightarrow> unit engine_result" where
  "require_rank t n op = (if tensor_rank t \<noteq> n
     then Inl (ShapeMismatch (op @ '' expected rank '' @ show_nat n @ '', got shape '' @ debug_nats (t_shape t)))
     else Inr ())"

section \<open>Reductions\<close>

text \<open>The dot product as the source unrolls it: four at a time, then one at a time.\<close>

fun dot_four :: "f32 \<Rightarrow> f32 list \<Rightarrow> f32 list \<Rightarrow> f32" where
  "dot_four acc (a # b # c # d # xs) (a' # b' # c' # d' # ys) =
     dot_four (f32_add (f32_add (f32_add (f32_add acc (f32_mul a a')) (f32_mul b b')) (f32_mul c c')) (f32_mul d d')) xs ys"
| "dot_four acc (x # xs) (y # ys) = dot_four (f32_add acc (f32_mul x y)) xs ys"
| "dot_four acc _ _ = acc"

text \<open>It reads the right operand up to the length of the left one.\<close>

definition dot_product :: "f32 list \<Rightarrow> f32 list \<Rightarrow> f32 run" where
  "dot_product lhs rhs = (if length lhs \<le> length rhs then return (dot_four 0 lhs rhs) else None)"

text \<open>\<^verbatim>\<open>Iterator::sum\<close> starts from the negative zero.\<close>

definition f32_NEG_ZERO :: f32 where "f32_NEG_ZERO = 0x80000000"

definition f32_sum :: "f32 list \<Rightarrow> f32" where "f32_sum xs = foldl f32_add f32_NEG_ZERO xs"

section \<open>Products and element-wise kernels\<close>

text \<open>One row of the product: inner values equal to zero are skipped.\<close>

definition matmul_row :: "CpuTensor \<Rightarrow> CpuTensor \<Rightarrow> nat \<Rightarrow> nat \<Rightarrow> nat \<Rightarrow> f32 list run" where
  "matmul_row lhs rhs k n row = run_fold (\<lambda>inner out_row.
     run_then (unwrap (index (row * k + inner) (t_data lhs))) (\<lambda>lhs_value.
     if f32_eq lhs_value 0 then return out_row
     else run_then (unwrap (slice (inner * n) n (t_data rhs))) (\<lambda>rhs_row.
       return (map2 (\<lambda>acc r. f32_add acc (f32_mul lhs_value r)) out_row rhs_row)))) [0 ..< k] (replicate n 0)"

definition matmul :: "CpuTensor \<Rightarrow> CpuTensor \<Rightarrow> string \<Rightarrow> CpuTensor run" where
  "matmul lhs rhs name =
     run_then (lift (require_rank lhs 2 ''matmul lhs'')) (\<lambda>_. run_then (lift (require_rank rhs 2 ''matmul rhs'')) (\<lambda>_.
     run_then (lift (dim lhs 0)) (\<lambda>m. run_then (lift (dim lhs 1)) (\<lambda>k.
     run_then (lift (dim rhs 0)) (\<lambda>rhs_k. run_then (lift (dim rhs 1)) (\<lambda>n.
     if k \<noteq> rhs_k
     then fail (ShapeMismatch (''matmul shape mismatch: lhs '' @ debug_nats (t_shape lhs) @ '', rhs '' @ debug_nats (t_shape rhs)))
     else run_then (run_map (matmul_row lhs rhs k n) [0 ..< m]) (\<lambda>rows. lift (from_f32 name [m, n] (concat rows)))))))))"

definition require_row_major_f32_data :: "CpuTensor \<Rightarrow> string \<Rightarrow> unit engine_result" where
  "require_row_major_f32_data t ctx = and_then (shape_element_count (t_shape t)) (\<lambda>expected_len.
     if length (t_data t) = expected_len then Inr ()
     else let storage = (if t_q8_0_blocks t \<noteq> None then ''retained-q8-blocks'' else if t_data t = [] then ''no-row-major-data''
              else ''invalid-row-major-f32'') in
       Inl (InvalidTensorData (ctx @ '' cannot read tensor '' @ t_name t @ '' as row-major f32: storage='' @ storage @ '', shape=''
         @ debug_nats (t_shape t) @ '', data_len='' @ show_nat (length (t_data t)) @ '', expected_len='' @ show_nat expected_len)))"

definition matmul_rhs_transposed :: "CpuTensor \<Rightarrow> CpuTensor \<Rightarrow> string \<Rightarrow> CpuTensor run" where
  "matmul_rhs_transposed lhs rhs name =
     run_then (lift (require_rank lhs 2 ''matmul rhs-transposed lhs'')) (\<lambda>_.
     run_then (lift (require_rank rhs 2 ''matmul rhs-transposed rhs'')) (\<lambda>_.
     run_then (lift (require_row_major_f32_data rhs ''matmul rhs-transposed rhs'')) (\<lambda>_.
     run_then (lift (dim lhs 0)) (\<lambda>m. run_then (lift (dim lhs 1)) (\<lambda>k.
     run_then (lift (dim rhs 0)) (\<lambda>n. run_then (lift (dim rhs 1)) (\<lambda>rhs_k.
     if k \<noteq> rhs_k
     then fail (ShapeMismatch (''matmul rhs-transposed shape mismatch: lhs '' @ debug_nats (t_shape lhs) @ '', rhs '' @ debug_nats (t_shape rhs)))
     else run_then (run_map (\<lambda>row. run_then (unwrap (slice (row * k) k (t_data lhs))) (\<lambda>lhs_row.
            run_map (\<lambda>col. run_then (unwrap (slice (col * k) k (t_data rhs))) (\<lambda>rhs_row. dot_product lhs_row rhs_row)) [0 ..< n])) [0 ..< m])
       (\<lambda>rows. lift (from_f32 name [m, n] (concat rows))))))))))"

text \<open>A kernel over two tensors of one shape; the right one is indexed by the positions of the left one.\<close>

definition elementwise :: "(f32 \<Rightarrow> f32 \<Rightarrow> f32) \<Rightarrow> CpuTensor \<Rightarrow> CpuTensor \<Rightarrow> string \<Rightarrow> CpuTensor run" where
  "elementwise f lhs rhs name =
     (if t_shape lhs \<noteq> t_shape rhs
      then fail (ShapeMismatch (''shape mismatch: lhs '' @ debug_nats (t_shape lhs) @ '', rhs '' @ debug_nats (t_shape rhs)))
      else if length (t_data rhs) < length (t_data lhs) then None
      else lift (from_f32 name (t_shape lhs) (map2 f (t_data lhs) (t_data rhs))))"

definition tensor_add :: "CpuTensor \<Rightarrow> CpuTensor \<Rightarrow> string \<Rightarrow> CpuTensor run" where
  "tensor_add = elementwise f32_add"

definition tensor_mul :: "CpuTensor \<Rightarrow> CpuTensor \<Rightarrow> string \<Rightarrow> CpuTensor run" where
  "tensor_mul = elementwise f32_mul"

definition silu_value :: "libm \<Rightarrow> f32 \<Rightarrow> f32" where
  "silu_value m a = f32_div a (f32_add (f32_of_int 1) (m_exp m (f32_neg a)))"

definition silu_mul :: "libm \<Rightarrow> CpuTensor \<Rightarrow> CpuTensor \<Rightarrow> string \<Rightarrow> CpuTensor run" where
  "silu_mul m = elementwise (\<lambda>a b. f32_mul (silu_value m a) b)"

definition silu :: "libm \<Rightarrow> CpuTensor \<Rightarrow> string \<Rightarrow> CpuTensor run" where
  "silu m t name = lift (from_f32 name (t_shape t) (map (silu_value m) (t_data t)))"

section \<open>Norms\<close>

definition rms_norm_row :: "nat \<Rightarrow> f32 list \<Rightarrow> f32 \<Rightarrow> f32 list \<Rightarrow> f32 list" where
  "rms_norm_row cols weight eps row =
     (let mean_square = f32_div (f32_sum (map (\<lambda>v. f32_mul v v) row)) (f32_of_int (int cols));
          scale = f32_div (f32_of_int 1) (f32_sqrt (f32_add mean_square eps)) in
      map2 (\<lambda>x w. f32_mul (f32_mul x scale) w) row weight)"

definition rms_norm :: "CpuTensor \<Rightarrow> CpuTensor \<Rightarrow> f32 \<Rightarrow> string \<Rightarrow> CpuTensor run" where
  "rms_norm t weight eps name =
     run_then (lift (require_rank t 2 ''rms_norm input'')) (\<lambda>_. run_then (lift (require_rank weight 1 ''rms_norm weight'')) (\<lambda>_.
     run_then (lift (dim t 0)) (\<lambda>rows. run_then (lift (dim t 1)) (\<lambda>cols. run_then (lift (dim weight 0)) (\<lambda>weight_dim.
     if weight_dim \<noteq> cols
     then fail (ShapeMismatch (''rms_norm weight shape '' @ debug_nats (t_shape weight) @ '' does not match input shape '' @ debug_nats (t_shape t)))
     else run_then (run_map (\<lambda>row. run_then (unwrap (slice (row * cols) cols (t_data t))) (\<lambda>values_row.
            run_then (unwrap (slice 0 cols (t_data weight))) (\<lambda>w. return (rms_norm_row cols w eps values_row)))) [0 ..< rows])
       (\<lambda>out. lift (from_f32 name (t_shape t) (concat out @ replicate (length (t_data t) - rows * cols) 0))))))))"

definition per_head_rms_norm :: "CpuTensor \<Rightarrow> CpuTensor \<Rightarrow> nat \<Rightarrow> f32 \<Rightarrow> string \<Rightarrow> CpuTensor run" where
  "per_head_rms_norm t weight head_count eps name =
     run_then (lift (require_rank t 2 ''per_head_rms_norm input'')) (\<lambda>_.
     run_then (lift (dim t 0)) (\<lambda>rows. run_then (lift (dim t 1)) (\<lambda>cols.
     if head_count = 0 \<or> \<not> head_count dvd cols
     then fail (ShapeMismatch (''per_head_rms_norm width '' @ show_nat cols @ '' is not divisible by head count '' @ show_nat head_count))
     else run_then (lift (from_f32 name [rows * head_count, cols div head_count] (t_data t))) (\<lambda>per_head.
       run_then (rms_norm per_head weight eps name) (\<lambda>normed. lift (from_f32 name [rows, cols] (t_data normed)))))))"

definition softmax_row :: "libm \<Rightarrow> f32 list \<Rightarrow> f32 list run" where
  "softmax_row m row =
     (let peak = foldl f32_max f32_NEG_INFINITY row; exps = map (\<lambda>v. m_exp m (f32_sub v peak)) row; total = foldl f32_add 0 exps in
      if f32_eq total 0 \<or> \<not> f32_is_finite total then fail (ShapeMismatch ''softmax produced invalid normalization sum'')
      else return (map (\<lambda>v. f32_div v total) exps))"

definition softmax_last_dim :: "libm \<Rightarrow> CpuTensor \<Rightarrow> string \<Rightarrow> CpuTensor run" where
  "softmax_last_dim m t name =
     (if t_shape t = [] then fail (ShapeMismatch ''softmax requires at least one dimension'')
      else let cols = last (t_shape t) in
        if cols = 0 \<or> \<not> cols dvd length (t_data t)
        then fail (ShapeMismatch (''softmax invalid shape '' @ debug_nats (t_shape t) @ '' for data length '' @ show_nat (length (t_data t))))
        else run_then (run_map (softmax_row m) (chunks_exact cols (t_data t))) (\<lambda>rows. lift (from_f32 name (t_shape t) (concat rows))))"

definition transpose_2d :: "CpuTensor \<Rightarrow> string \<Rightarrow> CpuTensor run" where
  "transpose_2d t name =
     run_then (lift (require_rank t 2 ''transpose'')) (\<lambda>_. run_then (lift (dim t 0)) (\<lambda>rows. run_then (lift (dim t 1)) (\<lambda>cols.
     if rows * cols > length (t_data t) then None
     else lift (from_f32 name [cols, rows] (concat (map (\<lambda>col. map (\<lambda>row. t_data t ! (row * cols + col)) [0 ..< rows]) [0 ..< cols])
            @ replicate (length (t_data t) - rows * cols) 0)))))"

end
