(* ===== verification/TensorRows.thy ===== *)
theory TensorRows
  imports Tensor
begin

text \<open>
  Reading rows of a weight without its full expansion (\<^verbatim>\<open>engine-core/src/tensor/mod.rs\<close>): the
  embedding lookup with its storage arms, and the tensors held as Q8_0 blocks. A token id is a \<^verbatim>\<open>u32\<close>
  and fits \<^verbatim>\<open>usize\<close>.
\<close>

section \<open>Embedding lookup\<close>

definition token_in_range :: "nat \<Rightarrow> nat \<Rightarrow> unit run" where
  "token_in_range vocab token = require (token < vocab)
     (ShapeMismatch (''token id '' @ show_nat token @ '' out of range for vocab size '' @ show_nat vocab))"

definition checked :: "string \<Rightarrow> nat \<Rightarrow> nat \<Rightarrow> nat run" where
  "checked message a b = lift (ok_or (ShapeMismatch message) (checked_mul_u64 a b))"

definition embedding_lookup_q8_0_block_backed ::
  "CpuTensor \<Rightarrow> nat list \<Rightarrow> string \<Rightarrow> nat \<Rightarrow> nat \<Rightarrow> Q8_0Block list \<Rightarrow> CpuTensor run" where
  "embedding_lookup_q8_0_block_backed t tokens name vocab width blocks =
     run_then (require (t_source_type t = Some Q8_0) (ShapeMismatch (''block-backed embedding '' @ t_name t @ '' must come from Q8_0 storage''))) (\<lambda>_.
     run_then (require (32 dvd width) (ShapeMismatch (''block-backed q8_0 embedding width '' @ show_nat width
         @ '' is not divisible by '' @ show_nat 32))) (\<lambda>_. let blocks_per_row = width div 32 in
     run_then (checked ''block-backed q8_0 embedding block count overflow'' vocab blocks_per_row) (\<lambda>expected_blocks.
     run_then (require (length blocks = expected_blocks) (ShapeMismatch (''block-backed q8_0 embedding block count ''
         @ show_nat (length blocks) @ '' does not match expected '' @ show_nat expected_blocks))) (\<lambda>_.
     run_then (checked ''block-backed q8_0 embedding output element count overflow'' (length tokens) width) (\<lambda>_.
     run_then (run_map (\<lambda>token.
       run_then (token_in_range vocab token) (\<lambda>_.
       run_then (checked ''block-backed q8_0 embedding row start overflow'' token blocks_per_row) (\<lambda>block_start.
       run_then (unwrap (slice block_start blocks_per_row blocks)) (\<lambda>row. return (concat (map q8_0_values row)))))) tokens) (\<lambda>rows.
     lift (from_f32 name [length tokens, width] (concat rows))))))))"

definition embedding_lookup_kquant_wire ::
  "nat list \<Rightarrow> string \<Rightarrow> nat \<Rightarrow> nat \<Rightarrow> nat list \<Rightarrow> nat \<Rightarrow> (nat list \<Rightarrow> f32 list) \<Rightarrow> CpuTensor run" where
  "embedding_lookup_kquant_wire tokens name vocab width wire block_bytes dequant_block =
     run_then (require (QK_K_BLOCK_SIZE dvd width) (ShapeMismatch (''K-quant embedding width '' @ show_nat width
         @ '' is not divisible by '' @ show_nat QK_K_BLOCK_SIZE))) (\<lambda>_.
     let blocks_per_row = width div QK_K_BLOCK_SIZE; row_bytes = blocks_per_row * block_bytes in
     run_then (checked ''K-quant embedding byte count overflow'' vocab row_bytes) (\<lambda>expected.
     run_then (require (length wire = expected) (ShapeMismatch (''K-quant embedding wire bytes '' @ show_nat (length wire)
         @ '' do not match expected '' @ show_nat expected))) (\<lambda>_.
     run_then (run_map (\<lambda>token.
       run_then (token_in_range vocab token) (\<lambda>_.
       run_then (unwrap (slice (token * row_bytes) row_bytes wire)) (\<lambda>row.
       return (concat (map (\<lambda>b. dequant_block (take block_bytes (drop (b * block_bytes) row))) [0 ..< blocks_per_row]))))) tokens) (\<lambda>rows.
     lift (from_f32 name [length tokens, width] (concat rows))))))"

definition embedding_lookup_rows :: "CpuTensor \<Rightarrow> nat list \<Rightarrow> string \<Rightarrow> nat \<Rightarrow> nat \<Rightarrow> CpuTensor run" where
  "embedding_lookup_rows t tokens name vocab width =
     run_then (checked ''embedding lookup output element count overflow'' (length tokens) width) (\<lambda>_.
     run_then (run_map (\<lambda>token.
       run_then (token_in_range vocab token) (\<lambda>_.
       run_then (checked ''embedding lookup row start overflow'' token width) (\<lambda>start.
       run_then (require (start + width \<le> u64_max) (ShapeMismatch ''embedding lookup row end overflow'')) (\<lambda>_.
       unwrap (slice start width (t_data t)))))) tokens) (\<lambda>rows.
     lift (from_f32 name [length tokens, width] (concat rows))))"

definition embedding_lookup :: "CpuTensor \<Rightarrow> nat list \<Rightarrow> string \<Rightarrow> CpuTensor run" where
  "embedding_lookup t tokens name =
     run_then (lift (require_rank t 2 ''embedding weight'')) (\<lambda>_.
     run_then (lift (dim t 0)) (\<lambda>vocab. run_then (lift (dim t 1)) (\<lambda>width.
     case t_q8_0_blocks t of
       Some blocks \<Rightarrow> embedding_lookup_q8_0_block_backed t tokens name vocab width blocks
     | None \<Rightarrow> (case t_q4_k_wire_bytes t of
       Some wire \<Rightarrow> embedding_lookup_kquant_wire tokens name vocab width wire Q4_K_BLOCK_BYTES (\<lambda>b. q4_k_dequantize (q4_k_from_bytes b))
     | None \<Rightarrow> (case t_q5_k_wire_bytes t of
       Some wire \<Rightarrow> embedding_lookup_kquant_wire tokens name vocab width wire Q5_K_BLOCK_BYTES (\<lambda>b. q5_k_dequantize (q5_k_from_bytes b))
     | None \<Rightarrow> (case t_q6_k_wire_bytes t of
       Some wire \<Rightarrow> embedding_lookup_kquant_wire tokens name vocab width wire Q6_K_BLOCK_BYTES (\<lambda>b. q6_k_dequantize (q6_k_from_bytes b))
     | None \<Rightarrow> embedding_lookup_rows t tokens name vocab width))))))"

section \<open>Tensors held as Q8_0 blocks\<close>

record Q8_0TensorBlocks =
  qt_name :: string
  qt_shape :: TensorShape
  qt_blocks :: "Q8_0Block list"

definition qt_element_count :: "Q8_0TensorBlocks \<Rightarrow> nat engine_result" where
  "qt_element_count t = shape_element_count (qt_shape t)"

definition byte_size_if_f32_materialized :: "Q8_0TensorBlocks \<Rightarrow> nat engine_result" where
  "byte_size_if_f32_materialized t = and_then (qt_element_count t) (\<lambda>n.
     ok_or (InvalidTensorData (''tensor '' @ qt_name t @ '' f32 materialization byte size overflow'')) (checked_mul_u64 n 4))"

text \<open>One dequantized value; a block has 32 quants.\<close>

definition block_value :: "Q8_0Block \<Rightarrow> nat \<Rightarrow> f32" where
  "block_value block quant_idx = f32_mul (q8_scale block) (f32_of_int (q8_quants block ! quant_idx))"

definition dequantize_elements :: "Q8_0TensorBlocks \<Rightarrow> nat \<Rightarrow> nat \<Rightarrow> f32 list engine_result" where
  "dequantize_elements t start len =
     and_then (ok_or (InvalidTensorData (''tensor '' @ qt_name t @ '' q8_0 dequant range overflows usize'')) (checked_add_u64 start len)) (\<lambda>last.
     and_then (qt_element_count t) (\<lambda>count.
     if last > count
     then Inl (ShapeMismatch (''tensor '' @ qt_name t @ '' q8_0 dequant range '' @ show_nat start @ ''..'' @ show_nat last
            @ '' exceeds element count '' @ show_nat count))
     else collect_results (map (\<lambda>element_idx. let block_idx = element_idx div 32 in
            and_then (ok_or (InvalidTensorData (''tensor '' @ qt_name t @ '' q8_0 block index '' @ show_nat block_idx
                @ '' missing for element '' @ show_nat element_idx)) (index block_idx (qt_blocks t)))
              (\<lambda>block. Inr (block_value block (element_idx mod 32)))) [start ..< last])))"

definition rank2_shape :: "Q8_0TensorBlocks \<Rightarrow> string \<Rightarrow> (nat \<times> nat) engine_result" where
  "rank2_shape t op = (case qt_shape t of
       [rows, cols] \<Rightarrow> Inr (rows, cols)
     | _ \<Rightarrow> Inl (ShapeMismatch (''tensor '' @ qt_name t @ '' q8_0 '' @ op @ '' requires rank-2 shape, got '' @ debug_nats (qt_shape t))))"

definition rank2_row_shape :: "Q8_0TensorBlocks \<Rightarrow> nat \<Rightarrow> string \<Rightarrow> (nat \<times> nat) engine_result" where
  "rank2_row_shape t row op = and_then (rank2_shape t op) (\<lambda>(rows, cols).
     if row \<ge> rows
     then Inl (ShapeMismatch (''tensor '' @ qt_name t @ '' q8_0 row '' @ show_nat row @ '' out of range for '' @ show_nat rows @ '' rows''))
     else Inr (rows, cols))"

definition dequantize_row :: "Q8_0TensorBlocks \<Rightarrow> nat \<Rightarrow> f32 list engine_result" where
  "dequantize_row t row = and_then (rank2_row_shape t row ''row dequant'') (\<lambda>(rows, cols). dequantize_elements t (row * cols) cols)"

text \<open>The dot product of a row: dequantize, multiply by the input, add.\<close>

fun row_dot :: "Q8_0TensorBlocks \<Rightarrow> nat \<Rightarrow> nat \<Rightarrow> (nat \<times> f32) list \<Rightarrow> f32 \<Rightarrow> f32 engine_result" where
  "row_dot t row row_start [] acc = Inr acc"
| "row_dot t row row_start ((col, input_value) # rest) acc =
     (let element_idx = row_start + col; block_idx = element_idx div 32 in
      case index block_idx (qt_blocks t) of
        None \<Rightarrow> Inl (InvalidTensorData (''tensor '' @ qt_name t @ '' q8_0 block index '' @ show_nat block_idx @ '' missing for row ''
                 @ show_nat row @ '' col '' @ show_nat col))
      | Some block \<Rightarrow> row_dot t row row_start rest (f32_add acc (f32_mul (block_value block (element_idx mod 32)) input_value)))"

definition dot_row_f32 :: "Q8_0TensorBlocks \<Rightarrow> nat \<Rightarrow> f32 list \<Rightarrow> f32 engine_result" where
  "dot_row_f32 t row input = and_then (rank2_row_shape t row ''row dot'') (\<lambda>(rows, cols).
     if length input \<noteq> cols
     then Inl (ShapeMismatch (''tensor '' @ qt_name t @ '' q8_0 row dot expected input width '' @ show_nat cols @ '', got '' @ show_nat (length input)))
     else and_then (ok_or (InvalidTensorData (''tensor '' @ qt_name t @ '' q8_0 row dot offset overflows usize'')) (checked_mul_u64 row cols))
       (\<lambda>row_start. row_dot t row row_start (enumerate 0 input) 0))"

text \<open>The block-aligned path over all rows: whole blocks against 32 inputs each.\<close>

definition aligned_row_dot :: "Q8_0Block list \<Rightarrow> f32 list \<Rightarrow> f32" where
  "aligned_row_dot row_blocks input =
     foldl (\<lambda>acc (block, input_block).
       foldl (\<lambda>acc (quant, input_value). f32_add acc (f32_mul (f32_mul (q8_scale block) (f32_of_int quant)) input_value))
         acc (zip (q8_quants block) input_block)) 0 (zip row_blocks (chunks_exact 32 input))"

definition dot_all_rows_f32 :: "Q8_0TensorBlocks \<Rightarrow> f32 list \<Rightarrow> string \<Rightarrow> CpuTensor run" where
  "dot_all_rows_f32 t input name =
     run_then (lift (rank2_shape t ''all-row dot'')) (\<lambda>(rows, cols).
     if length input \<noteq> cols
     then fail (ShapeMismatch (''tensor '' @ qt_name t @ '' q8_0 all-row dot expected input width '' @ show_nat cols
            @ '', got '' @ show_nat (length input)))
     else run_then (if cols mod 32 = 0
       then let blocks_per_row = cols div 32 in
         run_then (lift (ok_or (InvalidTensorData (''tensor '' @ qt_name t @ '' q8_0 all-row dot block count overflows usize''))
                     (checked_mul_u64 rows blocks_per_row))) (\<lambda>expected_blocks.
         if length (qt_blocks t) \<noteq> expected_blocks
         then fail (ShapeMismatch (''tensor '' @ qt_name t @ '' q8_0 all-row dot expected '' @ show_nat expected_blocks
                @ '' blocks for shape '' @ debug_nats (qt_shape t) @ '', got '' @ show_nat (length (qt_blocks t))))
         else if blocks_per_row = 0 then None
         else return (map (\<lambda>row_blocks. aligned_row_dot row_blocks input) (chunks_exact blocks_per_row (qt_blocks t))))
       else lift (collect_results (map (\<lambda>row. dot_row_f32 t row input) [0 ..< rows])))
     (\<lambda>sums. return (plain_tensor name [rows] sums)))"

definition dot_single_input_row_f32 :: "Q8_0TensorBlocks \<Rightarrow> CpuTensor \<Rightarrow> string \<Rightarrow> CpuTensor run" where
  "dot_single_input_row_f32 t input name =
     (if length (t_shape input) \<noteq> 2 \<or> t_shape input ! 0 \<noteq> 1
      then fail (ShapeMismatch (''tensor '' @ qt_name t @ '' q8_0 lazy linear expected single input row, got '' @ debug_nats (t_shape input)))
      else run_then (dot_all_rows_f32 t (t_data input) name) (\<lambda>out. return (out\<lparr>t_shape := 1 # t_shape out\<rparr>)))"

end
