(* ===== verification/Q8Dot.thy ===== *)
theory Q8Dot
  imports Tensor
begin

text \<open>
  Q8_0 quantization and the Q8_0 row products (\<^verbatim>\<open>engine-core/src/tensor/q8_dot.rs\<close>). The integer sums
  are \<^verbatim>\<open>i32\<close> sums; the laws show that they do not overflow. The rows of a projection are computed
  independently, on one thread or on many, so that a projection is a map over its rows.
\<close>

section \<open>Quantization\<close>

definition quantize_q8_0_block :: "f32 list \<Rightarrow> Q8_0Block" where
  "quantize_q8_0_block block =
     (let max_abs = foldl (\<lambda>acc v. f32_max acc (f32_abs v)) 0 block;
          unrounded_scale = f32_div max_abs (f32_of_int 127);
          scale = f16_bits_to_f32 (f32_to_f16_bits unrounded_scale);
          inv_scale = (if f32_eq unrounded_scale 0 then 0 else f32_div (f32_of_int 1) unrounded_scale) in
      \<lparr>q8_scale = scale,
       q8_quants = map (\<lambda>v. f32_as_i8 (f32_clamp (f32_round_integer (f32_mul v inv_scale)) (f32_of_int (- 128)) (f32_of_int 127))) block\<rparr>)"

definition quantize_q8_0_blocks :: "f32 list \<Rightarrow> Q8_0Block list" where
  "quantize_q8_0_blocks input = map quantize_q8_0_block (chunks_exact Q8_0_BLOCK_VALUES input)"

section \<open>Row products\<close>

definition block_int_dot :: "int list \<Rightarrow> int list \<Rightarrow> int" where
  "block_int_dot weight input =
     (let group4 = (\<lambda>start. weight ! start * input ! start + weight ! (start + 1) * input ! (start + 1)
            + weight ! (start + 2) * input ! (start + 2) + weight ! (start + 3) * input ! (start + 3));
          lane0 = group4 0 + group4 16; lane1 = group4 4 + group4 20; lane2 = group4 8 + group4 24; lane3 = group4 12 + group4 28 in
      (lane0 + lane1) + (lane2 + lane3))"

definition q8_0_dot_rows :: "Q8_0Block list \<Rightarrow> Q8_0Block list \<Rightarrow> f32" where
  "q8_0_dot_rows weight input = f32_sum (map (\<lambda>(w, i).
     f32_mul (f32_mul (f32_of_int (block_int_dot (q8_quants w) (q8_quants i))) (q8_scale w)) (q8_scale i)) (zip weight input))"

type_synonym q8_projection = "Q8_0Block list \<Rightarrow> nat \<Rightarrow> Q8_0Block list \<Rightarrow> nat \<Rightarrow> f32 list option"

definition PARALLEL_LINEAR_MIN_OUTPUTS :: nat where "PARALLEL_LINEAR_MIN_OUTPUTS = 1024"

text \<open>The rows \<open>os\<close> of a projection, in any division of the work.\<close>

definition project_row :: "(Q8_0Block list \<Rightarrow> Q8_0Block list \<Rightarrow> f32) \<Rightarrow> Q8_0Block list \<Rightarrow> nat \<Rightarrow> Q8_0Block list \<Rightarrow> nat \<Rightarrow> f32 option" where
  "project_row dot weight_blocks blocks_per_row input_blocks o' =
     map_option (\<lambda>row. dot row input_blocks) (slice (o' * blocks_per_row) blocks_per_row weight_blocks)"

definition all_some :: "'a option list \<Rightarrow> 'a list option" where
  "all_some xs = (if None \<in> set xs then None else Some (map the xs))"

definition project_rows :: "(Q8_0Block list \<Rightarrow> Q8_0Block list \<Rightarrow> f32) \<Rightarrow> q8_projection" where
  "project_rows dot weight_blocks blocks_per_row input_blocks out_len =
     all_some (map (project_row dot weight_blocks blocks_per_row input_blocks) [0 ..< out_len])"

definition q8_0_project_rows :: q8_projection where
  "q8_0_project_rows = project_rows q8_0_dot_rows"

section \<open>Quants and sums are in range\<close>

definition is_i8 :: "int \<Rightarrow> bool" where "is_i8 q \<longleftrightarrow> - 128 \<le> q \<and> q \<le> 127"

definition block_wf :: "Q8_0Block \<Rightarrow> bool" where
  "block_wf b \<longleftrightarrow> length (q8_quants b) = 32 \<and> list_all is_i8 (q8_quants b)"

lemma i8_of_byte_range: "b < 256 \<Longrightarrow> is_i8 (i8_of_byte b)"
  by (auto simp: i8_of_byte_def is_i8_def)

lemma f32_as_i8_range: "is_i8 (f32_as_i8 a)"
  by (auto simp: f32_as_i8_def is_i8_def Let_def min_def)

lemma chunks_exact_wf: "0 < n \<Longrightarrow> c \<in> set (chunks_exact n xs) \<Longrightarrow> length c = n \<and> set c \<subseteq> set xs"
proof (induction n xs rule: chunks_exact.induct)
  case (1 n xs)
  then show ?case by (subst (asm) chunks_exact.simps) (auto split: if_splits dest: in_set_takeD in_set_dropD)
qed

lemma chunks_exact_length: "0 < n \<Longrightarrow> length (chunks_exact n xs) = length xs div n"
proof (induction n xs rule: chunks_exact.induct)
  case (1 n xs)
  show ?case
  proof (cases "length xs < n")
    case False
    then have "length xs div n = Suc ((length xs - n) div n)" using 1(2) by (simp add: le_div_geq)
    then show ?thesis using 1 False by (simp add: chunks_exact.simps [of n xs])
  qed (simp add: chunks_exact.simps [of n xs])
qed

lemma chunks_exact_nth: "0 < n \<Longrightarrow> i < length xs div n \<Longrightarrow> chunks_exact n xs ! i = take n (drop (i * n) xs)"
proof (induction n xs arbitrary: i rule: chunks_exact.induct)
  case (1 n xs)
  have le: "\<not> length xs < n" using 1(2,3) by (metis div_less not_less_zero)
  then have d: "length xs div n = Suc ((length xs - n) div n)" using 1(2) by (simp add: le_div_geq)
  show ?case
  proof (cases i)
    case (Suc j)
    then have "j < length (drop n xs) div n" using 1(3) d by simp
    then show ?thesis using 1 le Suc by (simp add: chunks_exact.simps [of n xs] add.commute)
  qed (use 1 le in \<open>simp add: chunks_exact.simps [of n xs]\<close>)
qed

lemma concat_chunks: "0 < n \<Longrightarrow> n dvd length xs \<Longrightarrow> concat (chunks_exact n xs) = xs"
proof (induction n xs rule: chunks_exact.induct)
  case (1 n xs)
  show ?case
  proof (cases "length xs < n")
    case True
    then have "xs = []" using 1(2,3) by (auto dest: dvd_imp_le)
    then show ?thesis using 1(2) by (simp add: chunks_exact.simps)
  next
    case False
    then have "n dvd length (drop n xs)" using 1(3) by simp
    then show ?thesis using 1 False by (simp add: chunks_exact.simps [of n xs])
  qed
qed

lemma quantized_wf: "list_all block_wf (quantize_q8_0_blocks input)"
  using chunks_exact_wf [of Q8_0_BLOCK_VALUES _ input]
  by (auto simp: list_all_iff quantize_q8_0_blocks_def quantize_q8_0_block_def block_wf_def Let_def block_sizes f32_as_i8_range)

text \<open>The sum of 32 products in the order of the indices.\<close>

definition plain_dot :: "int list \<Rightarrow> int list \<Rightarrow> int" where
  "plain_dot w i = sum_list (map2 (*) w i)"

lemma product_range: "is_i8 a \<Longrightarrow> is_i8 b \<Longrightarrow> \<bar>a * b\<bar> \<le> 16384"
proof -
  assume "is_i8 a" "is_i8 b"
  then have "\<bar>a\<bar> \<le> 128" "\<bar>b\<bar> \<le> 128" by (auto simp: is_i8_def)
  then have "\<bar>a\<bar> * \<bar>b\<bar> \<le> 128 * 128" by (intro mult_mono) simp_all
  then show ?thesis by (simp add: abs_mult)
qed

lemma list_32: "length xs = 32 \<Longrightarrow> xs = map ((!) xs) [0 ..< 32]"
  by (metis map_nth)

lemma block_int_dot_plain:
  assumes "length w = 32" "length i = 32"
  shows "block_int_dot w i = plain_dot w i"
proof -
  have "plain_dot w i = sum_list (map (\<lambda>k. w ! k * i ! k) [0 ..< 32])"
    unfolding plain_dot_def using assms by (simp add: map2_map_map [symmetric] map_nth flip: list_32)
  then show ?thesis by (simp add: block_int_dot_def Let_def upt_rec [of _ 32] numeral_eq_Suc)
qed

lemma plain_dot_range: "list_all is_i8 w \<Longrightarrow> list_all is_i8 i \<Longrightarrow> length i = length w \<Longrightarrow> \<bar>plain_dot w i\<bar> \<le> 16384 * int (length w)"
proof (induction w arbitrary: i)
  case (Cons a w)
  obtain b i' where i: "i = b # i'" using Cons.prems by (cases i) auto
  have "\<bar>plain_dot w i'\<bar> \<le> 16384 * int (length w)" using Cons i by simp
  moreover have "\<bar>a * b\<bar> \<le> 16384" using product_range Cons.prems i by simp
  ultimately show ?case by (simp add: plain_dot_def i)
qed (simp add: plain_dot_def)

end
