(* ===== verification/TensorLaws.thy ===== *)
theory TensorLaws
  imports TensorRows Q8Dot Float32Laws
begin

text \<open>
  The tensor kernels: the unrolled dot product is the plain left fold; the fast path of the
  all-row product is the row product on every row; the integer sum of two Q8_0 blocks is exact; the
  embedding lookup reads the rows of the decoded tensor.
\<close>

section \<open>Dot products\<close>

definition plain_fold :: "f32 \<Rightarrow> f32 list \<Rightarrow> f32 list \<Rightarrow> f32" where
  "plain_fold acc xs ys = foldl (\<lambda>acc (x, y). f32_add acc (f32_mul x y)) acc (zip xs ys)"

lemma dot_four_plain: "dot_four acc xs ys = plain_fold acc xs ys"
  by (induction acc xs ys rule: dot_four.induct) (simp_all add: plain_fold_def)

lemma dot_product_plain: "length xs \<le> length ys \<Longrightarrow> dot_product xs ys = return (plain_fold 0 xs ys)"
  by (simp add: dot_product_def dot_four_plain)

section \<open>Q8_0 rows\<close>

lemma block_int_dot_range:
  assumes "block_wf w" "block_wf i"
  shows "\<bar>block_int_dot (q8_quants w) (q8_quants i)\<bar> \<le> 524288"
  using plain_dot_range [of "q8_quants w" "q8_quants i"] assms
  by (simp add: block_wf_def block_int_dot_plain)

section \<open>Decoded values\<close>

text \<open>The value at a position of the decoded tensor.\<close>

definition element_value :: "Q8_0Block list \<Rightarrow> nat \<Rightarrow> f32" where
  "element_value blocks e = block_value (blocks ! (e div 32)) (e mod 32)"

lemma map_uniform_concat:
  assumes "\<And>x. x \<in> set xs \<Longrightarrow> length (f x) = n" "0 < n"
  shows "concat (map f xs) = map (\<lambda>e. f (xs ! (e div n)) ! (e mod n)) [0 ..< n * length xs]"
  using assms(1)
proof (induction xs)
  case (Cons x xs)
  have split: "[0 ..< n * length (x # xs)] = [0 ..< n] @ map (\<lambda>e. n + e) [0 ..< n * length xs]"
    using upt_add_eq_append [of 0 n "n * length xs"] map_add_upt [of n "n * length xs"] by (simp add: add.commute)
  have x: "f x = map ((!) (f x)) [0 ..< n]" using Cons.prems by (metis list.set_intros(1) map_nth)
  have "map (\<lambda>e. f ((x # xs) ! (e div n)) ! (e mod n)) [0 ..< n] = map ((!) (f x)) [0 ..< n]"
    using assms(2) by simp
  moreover have "map (\<lambda>e. f ((x # xs) ! (e div n)) ! (e mod n)) (map (\<lambda>e. n + e) [0 ..< n * length xs])
      = map (\<lambda>e. f (xs ! (e div n)) ! (e mod n)) [0 ..< n * length xs]"
    using assms(2) by (simp add: div_add_self1 nth_Cons')
  ultimately show ?case using Cons x unfolding split by simp
qed simp

lemma q8_0_values_length: "length (q8_quants b) = 32 \<Longrightarrow> length (q8_0_values b) = 32"
  by (simp add: q8_0_values_def)

lemma block_values_concat:
  assumes "list_all (\<lambda>b. length (q8_quants b) = 32) blocks"
  shows "concat (map q8_0_values blocks) = map (element_value blocks) [0 ..< 32 * length blocks]"
proof -
  have "concat (map q8_0_values blocks) = map (\<lambda>e. q8_0_values (blocks ! (e div 32)) ! (e mod 32)) [0 ..< 32 * length blocks]"
    using assms by (intro map_uniform_concat) (auto simp: q8_0_values_length list_all_iff)
  moreover have "q8_0_values (blocks ! (e div 32)) ! (e mod 32) = element_value blocks e" if "e < 32 * length blocks" for e
  proof -
    have "blocks ! (e div 32) \<in> set blocks" using that by (intro nth_mem) (simp add: less_mult_imp_div_less mult.commute)
    then have "length (q8_quants (blocks ! (e div 32))) = 32" using assms by (simp add: list_all_iff)
    then show ?thesis by (simp add: q8_0_values_def element_value_def block_value_def)
  qed
  ultimately show ?thesis by simp
qed

lemma element_value_drop: "32 * k + e < 32 * length blocks \<Longrightarrow> element_value blocks (32 * k + e) = element_value (drop k blocks) e"
  by (simp add: element_value_def less_mult_imp_div_less)

lemma row_values:
  assumes "list_all (\<lambda>b. length (q8_quants b) = 32) blocks" "k + n \<le> length blocks"
  shows "map (element_value blocks) [32 * k ..< 32 * (k + n)] = concat (map q8_0_values (take n (drop k blocks)))"
proof -
  let ?row = "take n (drop k blocks)"
  have len: "length ?row = n" using assms(2) by simp
  have "list_all (\<lambda>b. length (q8_quants b) = 32) ?row" using assms(1) by (auto simp: list_all_iff dest: in_set_takeD in_set_dropD)
  then have "concat (map q8_0_values ?row) = map (element_value ?row) [0 ..< 32 * n]" by (simp only: block_values_concat len)
  also have "\<dots> = map (\<lambda>e. element_value blocks (32 * k + e)) [0 ..< 32 * n]"
    using assms(2) by (intro map_cong) (auto simp: element_value_def less_mult_imp_div_less mult.commute)
  also have "\<dots> = map (element_value blocks) (map (\<lambda>e. e + 32 * k) [0 ..< 32 * n])" by (simp add: add.commute)
  also have "map (\<lambda>e. e + 32 * k) [0 ..< 32 * n] = [32 * k ..< 32 * (k + n)]"
    by (simp add: map_add_upt algebra_simps)
  finally show ?thesis by simp
qed

section \<open>Rows\<close>

lemma row_dot_fold:
  assumes "row_start + k + length input \<le> 32 * length (qt_blocks t)"
  shows "row_dot t row row_start (enumerate k input) acc
    = Inr (plain_fold acc (map (element_value (qt_blocks t)) [row_start + k ..< row_start + k + length input]) input)"
  using assms
proof (induction input arbitrary: k acc)
  case (Cons x input)
  have block: "index ((row_start + k) div 32) (qt_blocks t) = Some (qt_blocks t ! ((row_start + k) div 32))"
    using Cons.prems by (simp add: index_def less_mult_imp_div_less mult.commute)
  have upt: "[row_start + k ..< row_start + k + length (x # input)] = (row_start + k) # [row_start + Suc k ..< row_start + Suc k + length input]"
    by (simp add: upt_conv_Cons del: upt_Suc)
  show ?case
    unfolding upt using Cons.IH [of "Suc k"] Cons.prems by (simp add: block Let_def element_value_def plain_fold_def)
qed (simp add: plain_fold_def)

lemma collect_values: "(\<And>x. x \<in> set xs \<Longrightarrow> f x = Inr (g x)) \<Longrightarrow> collect_results (map f xs) = Inr (map g xs)"
  by (induction xs) simp_all

lemma dequantize_elements_values:
  assumes "qt_element_count t = Inr count" "start + len \<le> count" "count \<le> 32 * length (qt_blocks t)" "start + len \<le> u64_max"
  shows "dequantize_elements t start len = Inr (map (element_value (qt_blocks t)) [start ..< start + len])"
proof -
  have "index (e div 32) (qt_blocks t) = Some (qt_blocks t ! (e div 32))" if "e \<in> set [start ..< start + len]" for e
    using that assms by (simp add: index_def less_mult_imp_div_less mult.commute)
  then have "collect_results (map (\<lambda>e. and_then (ok_or (InvalidTensorData (''tensor '' @ qt_name t @ '' q8_0 block index '' @ show_nat (e div 32)
        @ '' missing for element '' @ show_nat e)) (index (e div 32) (qt_blocks t))) (\<lambda>block. Inr (block_value block (e mod 32)))) [start ..< start + len])
      = Inr (map (element_value (qt_blocks t)) [start ..< start + len])"
    by (intro collect_values) (simp add: ok_or_def element_value_def)
  then show ?thesis using assms by (simp add: dequantize_elements_def checked_add_u64_def ok_or_def Let_def)
qed

lemma aligned_fold:
  assumes "length input = 32 * length blocks" "list_all (\<lambda>b. length (q8_quants b) = 32) blocks"
  shows "foldl (\<lambda>acc (block, input_block). foldl (\<lambda>acc (quant, input_value).
            f32_add acc (f32_mul (f32_mul (q8_scale block) (f32_of_int quant)) input_value)) acc (zip (q8_quants block) input_block))
          acc (zip blocks (chunks_exact 32 input))
    = plain_fold acc (concat (map q8_0_values blocks)) input"
  using assms
proof (induction blocks arbitrary: input acc)
  case (Cons b blocks)
  have chunks: "chunks_exact 32 input = take 32 input # chunks_exact 32 (drop 32 input)"
    using Cons.prems(1) by (subst chunks_exact.simps) simp
  have len: "length (q8_0_values b) = 32" using Cons.prems(2) by (simp add: q8_0_values_length)
  have one: "foldl (\<lambda>acc (quant, input_value). f32_add acc (f32_mul (f32_mul (q8_scale b) (f32_of_int quant)) input_value)) acc
        (zip (q8_quants b) row) = plain_fold acc (q8_0_values b) row" for acc row
    by (simp add: plain_fold_def q8_0_values_def zip_map1 foldl_map split_def)
  have zips: "zip (q8_0_values b @ rest) input = zip (q8_0_values b) (take 32 input) @ zip rest (drop 32 input)" for rest
    using len by (simp add: zip_append1)
  show ?case using Cons by (simp add: chunks one) (simp add: plain_fold_def zips)
qed (simp add: plain_fold_def)

text \<open>A matrix of whole blocks.\<close>

definition q8_0_matrix :: "Q8_0TensorBlocks \<Rightarrow> nat \<Rightarrow> nat \<Rightarrow> bool" where
  "q8_0_matrix t rows cols \<longleftrightarrow> qt_shape t = [rows, cols] \<and> 0 < cols \<and> 32 dvd cols \<and> rows * cols \<le> u64_max \<and>
     32 * length (qt_blocks t) = rows * cols \<and> list_all (\<lambda>b. length (q8_quants b) = 32) (qt_blocks t)"

lemma matrix_rows:
  assumes "q8_0_matrix t rows cols" "row < rows"
  shows "row * cols + cols \<le> 32 * length (qt_blocks t)" "row * cols + cols \<le> u64_max"
    "row * cols = 32 * (row * (cols div 32))" "(row + 1) * (cols div 32) \<le> length (qt_blocks t)"
proof -
  have mono: "(row + 1) * cols \<le> rows * cols" using assms(2) by (intro mult_right_mono) simp_all
  then show "row * cols + cols \<le> 32 * length (qt_blocks t)" using assms(1) by (simp add: q8_0_matrix_def)
  show "row * cols + cols \<le> u64_max" using mono assms(1) by (simp add: q8_0_matrix_def)
  have cols: "32 * (cols div 32) = cols" using assms(1) by (simp add: q8_0_matrix_def)
  then show "row * cols = 32 * (row * (cols div 32))" by (metis mult.left_commute)
  have "32 * ((row + 1) * (cols div 32)) \<le> 32 * length (qt_blocks t)"
    using mono assms(1) cols by (metis mult.left_commute q8_0_matrix_def)
  then show "(row + 1) * (cols div 32) \<le> length (qt_blocks t)" by simp
qed

lemma matrix_element_count: "q8_0_matrix t rows cols \<Longrightarrow> qt_element_count t = Inr (rows * cols)"
proof -
  assume a: "q8_0_matrix t rows cols"
  have "rows \<le> rows * cols" "rows * cols \<le> u64_max" using a by (simp_all add: q8_0_matrix_def)
  then have "rows \<le> u64_max" by (rule order_trans)
  then show ?thesis using a by (simp add: qt_element_count_def shape_element_count_def q8_0_matrix_def checked_mul_u64_def ok_or_def)
qed

lemma matrix_row:
  assumes "q8_0_matrix t rows cols" "row < rows" "length input = cols"
  defines "vals \<equiv> map (element_value (qt_blocks t)) [row * cols ..< row * cols + cols]"
  shows "dequantize_row t row = Inr vals" "dot_row_f32 t row input = Inr (plain_fold 0 vals input)"
    "dot_product vals input = return (plain_fold 0 vals input)"
proof -
  note bounds = matrix_rows [OF assms(1,2)]
  have shape: "rank2_row_shape t row op = Inr (rows, cols)" for op
    using assms(1,2) by (simp add: rank2_row_shape_def rank2_shape_def q8_0_matrix_def)
  have count: "row * cols + cols \<le> rows * cols" using bounds(1) assms(1) by (simp add: q8_0_matrix_def)
  show "dequantize_row t row = Inr vals"
    using dequantize_elements_values [OF matrix_element_count [OF assms(1)] count _ bounds(2)] assms(1)
    by (simp add: dequantize_row_def shape vals_def q8_0_matrix_def)
  show "dot_row_f32 t row input = Inr (plain_fold 0 vals input)"
    using row_dot_fold [of "row * cols" 0 input t row 0] bounds(1,2) assms(3)
    by (simp add: dot_row_f32_def shape checked_mul_u64_def ok_or_def vals_def)
  show "dot_product vals input = return (plain_fold 0 vals input)"
    using assms(3) by (intro dot_product_plain) (simp add: vals_def)
qed

lemma aligned_row:
  assumes "q8_0_matrix t rows cols" "row < rows" "length input = cols"
  shows "aligned_row_dot (take (cols div 32) (drop (row * (cols div 32)) (qt_blocks t))) input
    = plain_fold 0 (map (element_value (qt_blocks t)) [row * cols ..< row * cols + cols]) input"
proof -
  let ?bpr = "cols div 32" and ?blocks = "qt_blocks t"
  note bounds = matrix_rows [OF assms(1,2)]
  have cols: "32 * ?bpr = cols" and wf: "list_all (\<lambda>b. length (q8_quants b) = 32) ?blocks" using assms(1) by (simp_all add: q8_0_matrix_def)
  have fits: "row * ?bpr + ?bpr \<le> length ?blocks" using bounds(4) by simp
  have "map (element_value ?blocks) [32 * (row * ?bpr) ..< 32 * (row * ?bpr + ?bpr)] = concat (map q8_0_values (take ?bpr (drop (row * ?bpr) ?blocks)))"
    by (rule row_values [OF wf fits])
  moreover have "32 * (row * ?bpr + ?bpr) = row * cols + cols" "32 * (row * ?bpr) = row * cols" using cols bounds(3) by (simp_all add: distrib_left)
  moreover have "list_all (\<lambda>b. length (q8_quants b) = 32) (take ?bpr (drop (row * ?bpr) ?blocks))"
    using wf by (auto simp: list_all_iff dest: in_set_takeD in_set_dropD)
  ultimately show ?thesis
    unfolding aligned_row_dot_def using fits cols assms(3) by (subst aligned_fold) simp_all
qed

text \<open>Property C22: multiplying an input by every row of a matrix held as Q8_0 blocks gives, row by row and bit by bit,
  what multiplying it by that row alone gives, and that is the dot product of the row's decoded values with the
  input: the path over whole blocks changes no rounding.\<close>

theorem all_rows_dot_is_row_by_row:
  assumes "q8_0_matrix t rows cols" "length input = cols"
  shows "\<exists>sums. dot_all_rows_f32 t input name = return (plain_tensor name [rows] sums) \<and> length sums = rows \<and>
    (\<forall>row < rows. dot_row_f32 t row input = Inr (sums ! row) \<and>
       (\<exists>vals. dequantize_row t row = Inr vals \<and> dot_product vals input = return (sums ! row)))"
proof -
  let ?bpr = "cols div 32" and ?blocks = "qt_blocks t"
  have cols: "32 * ?bpr = cols" "0 < ?bpr" "cols mod 32 = 0" using assms(1) by (auto simp: q8_0_matrix_def dvd_imp_mod_0)
  have "32 * length ?blocks = rows * (32 * ?bpr)" using assms(1) unfolding cols(1) by (simp add: q8_0_matrix_def)
  then have len: "length ?blocks = rows * ?bpr" by simp
  have "rows * ?bpr \<le> rows * cols" by (intro mult_left_mono) simp_all
  then have small: "rows * ?bpr \<le> u64_max" using assms(1) unfolding q8_0_matrix_def by linarith
  have chunks: "length (chunks_exact ?bpr ?blocks) = rows" using cols(2) by (simp add: chunks_exact_length len)
  define sums where "sums = map (\<lambda>row_blocks. aligned_row_dot row_blocks input) (chunks_exact ?bpr ?blocks)"
  have "dot_all_rows_f32 t input name = return (plain_tensor name [rows] sums)"
    using assms cols small len by (simp add: dot_all_rows_f32_def rank2_shape_def q8_0_matrix_def lift_def Let_def checked_mul_u64_def ok_or_def sums_def)
  moreover have "sums ! row = plain_fold 0 (map (element_value ?blocks) [row * cols ..< row * cols + cols]) input" if "row < rows" for row
    using that chunks cols(2) aligned_row [OF assms(1) that assms(2)] by (simp add: sums_def chunks_exact_nth len)
  then have "\<forall>row < rows. dot_row_f32 t row input = Inr (sums ! row) \<and>
      (\<exists>vals. dequantize_row t row = Inr vals \<and> dot_product vals input = return (sums ! row))"
    using matrix_row [OF assms(1) _ assms(2)] by metis
  moreover have "length sums = rows" using chunks by (simp add: sums_def)
  ultimately show ?thesis by blast
qed

definition tiny_matrix :: Q8_0TensorBlocks where
  "tiny_matrix = \<lparr>qt_name = ''m'', qt_shape = [2, 32],
     qt_blocks = [\<lparr>q8_scale = 0x3F800000, q8_quants = replicate 32 1\<rparr>, \<lparr>q8_scale = 0x40000000, q8_quants = replicate 32 (- 3)\<rparr>]\<rparr>"

theorem all_rows_dot_is_row_by_row_witness:
  "\<exists>sums. dot_all_rows_f32 tiny_matrix (replicate 32 0x3F800000) ''out'' = return (plain_tensor ''out'' [2] sums) \<and>
    dot_row_f32 tiny_matrix 1 (replicate 32 0x3F800000) = Inr (sums ! 1)"
proof -
  have "q8_0_matrix tiny_matrix 2 32" by (simp add: q8_0_matrix_def tiny_matrix_def u64_max_def)
  from all_rows_dot_is_row_by_row [OF this, of "replicate 32 0x3F800000" "''out''"] show ?thesis by auto
qed

section \<open>Integer sums of blocks\<close>

lemma decoded_blocks_wf:
  assumes "decode_q8_0_blocks name bytes n = Inr blocks" "list_all (\<lambda>b. b < 256) bytes"
  shows "list_all block_wf blocks"
proof -
  have "blocks = map q8_0_block_of (chunks_exact 34 bytes)" using assms(1) by (auto simp: decode_q8_0_blocks_def Let_def split: if_splits)
  moreover have "block_wf (q8_0_block_of c)" if "c \<in> set (chunks_exact 34 bytes)" for c
  proof -
    have "length c = 34" "set c \<subseteq> set bytes" using chunks_exact_wf [OF _ that] by simp_all
    then show ?thesis using assms(2) by (auto simp: block_wf_def q8_0_block_of_def list_all_iff dest!: in_set_dropD intro!: i8_of_byte_range)
  qed
  ultimately show ?thesis by (auto simp: list_all_iff)
qed

lemma plain_dot_sum: "length w = 32 \<Longrightarrow> length i = 32 \<Longrightarrow> plain_dot w i = (\<Sum>k<32. w ! k * i ! k)"
  by (simp add: plain_dot_def sum_list_sum_nth atLeast0LessThan)

text \<open>Property C25: in a linear layer over Q8_0 weights, whatever the file's bytes and the input, the integer product of a
  weight block and an input block is the sum of its 32 products, stays within 524288 and is represented exactly as
  an \<^verbatim>\<open>f32\<close>: the only roundings of the row product are those of the scales and of the final additions.\<close>

theorem integer_dot_is_exact:
  assumes "decode_q8_0_blocks name bytes n = Inr blocks" "list_all (\<lambda>b. b < 256) bytes"
    "w \<in> set blocks" "i \<in> set (quantize_q8_0_blocks input)"
  shows "block_int_dot (q8_quants w) (q8_quants i) = (\<Sum>k<32. q8_quants w ! k * q8_quants i ! k) \<and>
    \<bar>block_int_dot (q8_quants w) (q8_quants i)\<bar> \<le> 524288 \<and>
    f32_is_finite (f32_of_int (block_int_dot (q8_quants w) (q8_quants i))) \<and>
    f32_signed (f32_of_int (block_int_dot (q8_quants w) (q8_quants i))) = block_int_dot (q8_quants w) (q8_quants i) * 2 ^ 149"
proof -
  have wf: "block_wf w" "block_wf i" using decoded_blocks_wf [OF assms(1,2)] quantized_wf [of input] assms(3,4) by (auto simp: list_all_iff)
  note range = block_int_dot_range [OF wf]
  then have "\<bar>block_int_dot (q8_quants w) (q8_quants i)\<bar> < 2 ^ 24" by simp
  then show ?thesis
    using range wf f32_of_int_exact by (simp add: block_int_dot_plain plain_dot_sum block_wf_def)
qed

lemma integer_dot_bound_is_attained:
  "block_int_dot (replicate 32 (- 128)) (replicate 32 (- 128)) = 524288"
  by (simp add: block_int_dot_def)

theorem integer_dot_is_exact_witness:
  "\<exists>(w :: Q8_0Block) (i :: Q8_0Block). block_int_dot (q8_quants w) (q8_quants i) = (\<Sum>k<32. q8_quants w ! k * q8_quants i ! k) \<and> q8_quants w = replicate 32 (- 128)"
proof -
  let ?bytes = "0 # 60 # replicate 32 128 :: nat list"
  let ?w = "q8_0_block_of ?bytes" and ?i = "quantize_q8_0_block (replicate 32 0x3F800000)"
  have "decode_q8_0_blocks ''w'' ?bytes 32 = Inr [?w]" by (simp add: decode_q8_0_blocks_def chunks_exact.simps)
  moreover have "list_all (\<lambda>b. b < 256) ?bytes" by (simp add: list_all_iff)
  moreover have "?i \<in> set (quantize_q8_0_blocks (replicate 32 0x3F800000))"
    by (simp add: quantize_q8_0_blocks_def block_sizes chunks_exact.simps)
  ultimately have "block_int_dot (q8_quants ?w) (q8_quants ?i) = (\<Sum>k<32. q8_quants ?w ! k * q8_quants ?i ! k)"
    using integer_dot_is_exact [of "''w''" ?bytes 32 "[?w]" ?w ?i "replicate 32 0x3F800000"] by simp
  moreover have "q8_quants ?w = replicate 32 (- 128)" by (simp add: q8_0_block_of_def i8_of_byte_def)
  ultimately show ?thesis by blast
qed

end
