(* ===== verification/Store.thy ===== *)
theory Store
  imports TensorRows
begin

text \<open>
  Reading tensors out of a model file (\<^verbatim>\<open>engine-core/src/tensor/store.rs\<close>). Every read opens the file
  again, seeks and reads exactly; the file is the parameter \<open>model_file\<close>: the text of the error that
  opening gives, or its bytes. Allocations are taken to succeed, and a \<^verbatim>\<open>u64\<close> length fits \<^verbatim>\<open>usize\<close>.
\<close>

section \<open>The store\<close>

type_synonym model_file = "(string, nat list) res"

record TensorStore =
  ts_path :: string
  ts_descriptors :: "string \<rightharpoonup> TensorDescriptor"

text \<open>A later descriptor replaces an earlier one of the same name.\<close>

definition store_open :: "string \<Rightarrow> GgufFile \<Rightarrow> TensorStore" where
  "store_open path file = \<lparr>ts_path = path, ts_descriptors = map_of (rev (map (\<lambda>d. (td_name d, d)) (gguf_tensors file)))\<rparr>"

definition descriptor :: "TensorStore \<Rightarrow> string \<Rightarrow> TensorDescriptor engine_result" where
  "descriptor store name = ok_or (TensorNotFound name) (ts_descriptors store name)"

definition read_exact_at :: "model_file \<Rightarrow> nat \<Rightarrow> nat \<Rightarrow> (string, nat list) res" where
  "read_exact_at file offset len = and_then file (\<lambda>bytes.
     ok_or ''failed to fill whole buffer'' (slice offset len bytes))"

definition tensor_bytes :: "model_file \<Rightarrow> TensorStore \<Rightarrow> string \<Rightarrow> nat list engine_result" where
  "tensor_bytes file store name = and_then (descriptor store name) (\<lambda>desc.
     map_err (Io (ts_path store)) (read_exact_at file (td_absolute_offset desc) (td_n_bytes desc)))"

section \<open>Loading\<close>

definition load_q8_0_blocks :: "model_file \<Rightarrow> TensorStore \<Rightarrow> string \<Rightarrow> Q8_0TensorBlocks engine_result" where
  "load_q8_0_blocks file store name = and_then (descriptor store name) (\<lambda>desc.
     if td_type desc \<noteq> Q8_0
     then Inl (UnsupportedTensorType (''tensor '' @ name @ '' has storage type '' @ debug_tensor_type (td_type desc)
            @ ''; q8_0 block-only load requires Q8_0''))
     else and_then (tensor_bytes file store name) (\<lambda>bytes. and_then (from_gguf_dims (td_dimensions desc)) (\<lambda>dims.
       and_then (shape_element_count dims) (\<lambda>expected_elements. and_then (decode_q8_0_blocks name bytes expected_elements) (\<lambda>blocks.
       Inr \<lparr>qt_name = name, qt_shape = dims, qt_blocks = blocks\<rparr>)))))"

text \<open>The values of a tensor's bytes, by storage type.\<close>

definition SUPPORTED_LOADS :: string where
  "SUPPORTED_LOADS = ''; supported for CPU f32 load: F32, F16, BF16, Q8_0, Q4_0, Q4_1, Q5_0, Q5_1, Q2_K, Q3_K, Q4_K, Q5_K, Q6_K, Q8_K, IQ4_NL, IQ4_XS, TQ1_0, TQ2_0''"

definition decode_values :: "TensorType \<Rightarrow> string \<Rightarrow> nat list \<Rightarrow> nat \<Rightarrow> f32 list engine_result" where
  "decode_values tensor_type name bytes n = (case tensor_type of
       TF32 \<Rightarrow> decode_f32_tensor name bytes n
     | TF16 \<Rightarrow> decode_f16_tensor name bytes n
     | BF16 \<Rightarrow> decode_bf16_tensor name bytes n
     | Q8_0 \<Rightarrow> decode_q8_0_tensor name bytes n
     | Q4_0 \<Rightarrow> decode_q4_0_tensor name bytes n
     | Q4_1 \<Rightarrow> decode_q4_1_tensor name bytes n
     | Q5_0 \<Rightarrow> decode_q5_0_tensor name bytes n
     | Q5_1 \<Rightarrow> decode_q5_1_tensor name bytes n
     | Q2K \<Rightarrow> decode_q2_k_tensor name bytes n
     | Q3K \<Rightarrow> decode_q3_k_tensor name bytes n
     | Q4K \<Rightarrow> decode_q4_k_tensor name bytes n
     | Q5K \<Rightarrow> decode_q5_k_tensor name bytes n
     | Q6K \<Rightarrow> decode_q6_k_tensor name bytes n
     | Q8K \<Rightarrow> decode_q8_k_tensor name bytes n
     | IQ4NL \<Rightarrow> decode_iq4_nl_tensor name bytes n
     | IQ4XS \<Rightarrow> decode_iq4_xs_tensor name bytes n
     | Tq1_0 \<Rightarrow> decode_tq1_0_tensor name bytes n
     | Tq2_0 \<Rightarrow> decode_tq2_0_tensor name bytes n
     | other \<Rightarrow> Inl (UnsupportedTensorType (''tensor '' @ name @ '' has unsupported storage type '' @ debug_tensor_type other @ SUPPORTED_LOADS)))"

text \<open>Q8_0 keeps its blocks, Q4_K and Q6_K their wire bytes; all keep the values.\<close>

definition load_cpu_f32 :: "model_file \<Rightarrow> TensorStore \<Rightarrow> string \<Rightarrow> CpuTensor engine_result" where
  "load_cpu_f32 file store name = and_then (descriptor store name) (\<lambda>desc.
     and_then (tensor_bytes file store name) (\<lambda>bytes. and_then (from_gguf_dims (td_dimensions desc)) (\<lambda>dims.
     and_then (shape_element_count dims) (\<lambda>expected_elements.
     and_then (decode_values (td_type desc) name bytes expected_elements) (\<lambda>vals.
     and_then (if td_type desc = Q8_0 then and_then (decode_q8_0_blocks name bytes expected_elements) (\<lambda>b. Inr (Some b)) else Inr None) (\<lambda>blocks.
     Inr ((plain_tensor name dims vals)\<lparr>t_source_type := Some (td_type desc), t_q8_0_blocks := blocks,
       t_q4_k_wire_bytes := (if td_type desc = Q4K then Some bytes else None),
       t_q6_k_wire_bytes := (if td_type desc = Q6K then Some bytes else None)\<rparr>)))))))"

definition renamed :: "string \<Rightarrow> CpuTensor engine_result \<Rightarrow> CpuTensor engine_result" where
  "renamed name r = and_then r (\<lambda>t. Inr (t\<lparr>t_name := name\<rparr>))"

definition load_q8_0_block_backed_linear_as :: "model_file \<Rightarrow> TensorStore \<Rightarrow> string \<Rightarrow> string \<Rightarrow> CpuTensor engine_result" where
  "load_q8_0_block_backed_linear_as file store source_name tensor_name = and_then (descriptor store source_name) (\<lambda>desc.
     if td_type desc \<noteq> Q8_0 then renamed tensor_name (load_cpu_f32 file store source_name)
     else and_then (from_gguf_dims (td_dimensions desc)) (\<lambda>dims.
       if length dims \<noteq> 2 then renamed tensor_name (load_cpu_f32 file store source_name)
       else and_then (shape_element_count dims) (\<lambda>expected_elements. and_then (tensor_bytes file store source_name) (\<lambda>bytes.
         and_then (decode_q8_0_blocks source_name bytes expected_elements) (\<lambda>blocks. from_q8_0_blocks tensor_name dims blocks)))))"

definition load_q8_0_block_backed_linear :: "model_file \<Rightarrow> TensorStore \<Rightarrow> string \<Rightarrow> CpuTensor engine_result" where
  "load_q8_0_block_backed_linear file store name = load_q8_0_block_backed_linear_as file store name name"

section \<open>Wire-only linears\<close>

text \<open>A tensor of a type without values; everything else is loaded with its values.\<close>

definition load_wire_linear ::
  "TensorType list \<Rightarrow> (CpuTensor \<Rightarrow> TensorType \<Rightarrow> nat list \<Rightarrow> CpuTensor) \<Rightarrow> model_file \<Rightarrow> TensorStore \<Rightarrow> string \<Rightarrow> CpuTensor engine_result" where
  "load_wire_linear types keep file store name = and_then (descriptor store name) (\<lambda>desc.
     and_then (from_gguf_dims (td_dimensions desc)) (\<lambda>dims.
     if td_type desc \<notin> set types \<or> length dims \<noteq> 2 then load_cpu_f32 file store name
     else if td_type desc \<in> {Q2K, Q3K}
     then Inl (UnsupportedTensorType (''tensor '' @ name @ '' has storage type '' @ debug_tensor_type (td_type desc)
            @ ''; wire-only linear load supports Q4_K, Q5_K, Q6_K (a 2-D '' @ debug_tensor_type (td_type desc)
            @ '' linear has no block-streaming CPU kernel, and full f32 materialization of a wire-only linear is refused)''))
     else and_then (tensor_bytes file store name) (\<lambda>bytes.
       Inr (keep ((plain_tensor name dims [])\<lparr>t_source_type := Some (td_type desc)\<rparr>) (td_type desc) bytes))))"

definition load_kquant_wire_linear :: "model_file \<Rightarrow> TensorStore \<Rightarrow> string \<Rightarrow> CpuTensor engine_result" where
  "load_kquant_wire_linear = load_wire_linear [Q4K, Q5K, Q6K, Q2K, Q3K]
     (\<lambda>t kind bytes. if kind = Q4K then t\<lparr>t_q4_k_wire_bytes := Some bytes\<rparr>
        else if kind = Q5K then t\<lparr>t_q5_k_wire_bytes := Some bytes\<rparr> else t\<lparr>t_q6_k_wire_bytes := Some bytes\<rparr>)"

definition load_tq2_0_wire_linear :: "model_file \<Rightarrow> TensorStore \<Rightarrow> string \<Rightarrow> CpuTensor engine_result" where
  "load_tq2_0_wire_linear = load_wire_linear [Tq2_0] (\<lambda>t kind bytes. t\<lparr>t_tq2_0_wire_bytes := Some bytes\<rparr>)"

definition load_iq4_xs_wire_linear :: "model_file \<Rightarrow> TensorStore \<Rightarrow> string \<Rightarrow> CpuTensor engine_result" where
  "load_iq4_xs_wire_linear = load_wire_linear [IQ4XS] (\<lambda>t kind bytes. t\<lparr>t_iq4_xs_wire_bytes := Some bytes\<rparr>)"

section \<open>Tensors from bytes read elsewhere\<close>

definition cpu_tensor_from_gguf_bytes :: "string \<Rightarrow> TensorType \<Rightarrow> nat list \<Rightarrow> nat list \<Rightarrow> CpuTensor engine_result" where
  "cpu_tensor_from_gguf_bytes name tensor_type dimensions bytes = and_then (from_gguf_dims dimensions) (\<lambda>dims.
     and_then (shape_element_count dims) (\<lambda>n. case tensor_type of
       TF32 \<Rightarrow> and_then (decode_f32_tensor name bytes n) (from_f32 name dims)
     | TF16 \<Rightarrow> and_then (decode_f16_tensor name bytes n) (from_f32 name dims)
     | BF16 \<Rightarrow> and_then (decode_bf16_tensor name bytes n) (from_f32 name dims)
     | Q8_0 \<Rightarrow> if length dims = 2 then and_then (decode_q8_0_blocks name bytes n) (from_q8_0_blocks name dims)
              else and_then (decode_q8_0_tensor name bytes n) (from_f32 name dims)
     | other \<Rightarrow> Inl (UnsupportedTensorType (''tensor '' @ name @ '' has storage type '' @ debug_tensor_type other
            @ ''; ghost v1 supports F32, F16, BF16, Q8_0''))))"

end
