(* ===== verification/StoreLaws.thy ===== *)
theory StoreLaws
  imports Store TensorLaws GgufLaws
begin

text \<open>
  Loading the tensors of an accepted model file: every format yields as many values as the shape
  says, reads stay inside the file, and only the types without a decoder are refused.
\<close>

section \<open>Every decoder fills its tensor\<close>

lemma concat_uniform_length: "(\<And>x. x \<in> set xs \<Longrightarrow> length (f x) = n) \<Longrightarrow> length (concat (map f xs)) = length xs * n"
  by (induction xs) simp_all

lemma chunked_length:
  assumes "0 < width" "length bytes = k * width" "\<And>c. length c = width \<Longrightarrow> length (f c) = n"
  shows "length (concat (map f (chunks_exact width bytes))) = k * n"
proof -
  have "length (f c) = n" if "c \<in> set (chunks_exact width bytes)" for c using assms(3) chunks_exact_wf [OF assms(1) that] by simp
  then have "length (concat (map f (chunks_exact width bytes))) = length (chunks_exact width bytes) * n" by (rule concat_uniform_length)
  then show ?thesis using assms(1,2) by (simp add: chunks_exact_length)
qed

lemma decode_blocks_length:
  assumes "0 < width" "length bytes = k * width" "\<And>c. length c = width \<Longrightarrow> length (vals (from_bytes c)) = n"
  shows "\<exists>out. decode_tensor_of (blocks_of format width from_bytes) vals name bytes = Inr out \<and> length out = k * n"
  using chunked_length [OF assms(1,2), of "vals \<circ> from_bytes" n] assms by (simp add: decode_tensor_of_def blocks_of_def)

lemmas block_lengths = q4_0_unpack_def q4_0_from_bytes_def q4_1_unpack_def q4_1_from_bytes_def q5_0_unpack_def q5_0_from_bytes_def
  q5_1_unpack_def q5_1_from_bytes_def iq4_nl_dequantize_def iq4_nl_from_bytes_def q8_k_dequantize_def q8_k_from_bytes_def

lemma sum_list_const: "(\<And>x. x \<in> set xs \<Longrightarrow> g x = (n :: nat)) \<Longrightarrow> sum_list (map g xs) = length xs * n"
  by (induction xs) simp_all

lemma k_quant_lengths:
  "length (q2_k_dequantize b2) = 256" "length (q3_k_dequantize b3) = 256" "length (q4_k_dequantize b4) = 256"
  "length (q5_k_dequantize b5) = 256" "length (q6_k_dequantize b6) = 256" "length (iq4_xs_dequantize b) = 256"
  by (simp_all add: q2_k_dequantize_def q2_k_group_def q3_k_dequantize_def q3_k_group_def q4_k_dequantize_def q5_k_dequantize_def
      q6_k_dequantize_def iq4_xs_dequantize_def Let_def length_concat comp_def sum_list_const)

lemma ternary_lengths: "length (tq2_0_block_values c) = 256" "length c = 54 \<Longrightarrow> length (tq1_0_block_values c) = 256"
  by (simp_all add: tq2_0_block_values_def tq1_0_block_values_def POW3_def Let_def length_concat comp_def sum_list_const)

definition loadable :: "TensorType \<Rightarrow> bool" where
  "loadable ty \<longleftrightarrow> ty \<in> {TF32, TF16, BF16, Q8_0, Q4_0, Q4_1, Q5_0, Q5_1, Q2K, Q3K, Q4K, Q5K, Q6K, Q8K, IQ4NL, IQ4XS, Tq1_0, Tq2_0}"

lemma float_length:
  assumes "length bytes = n * w" "n * w \<le> u64_max" "0 < w"
  shows "require_float_bytes name format w bytes n = Inr ()" "length (map f (chunks_exact w bytes)) = n"
  using assms by (simp_all add: require_float_bytes_def u64_max_def chunks_exact_length Let_def)

lemma q8_0_length:
  assumes "32 dvd n" "length bytes = n div 32 * 34" "n div 32 * 34 \<le> u64_max"
  shows "\<exists>blocks. decode_q8_0_blocks name bytes n = Inr blocks \<and> 32 * length blocks = n \<and> list_all (\<lambda>b. length (q8_quants b) = 32) blocks"
proof -
  let ?blocks = "map q8_0_block_of (chunks_exact 34 bytes)"
  have "decode_q8_0_blocks name bytes n = Inr ?blocks" using assms by (simp add: decode_q8_0_blocks_def u64_max_def)
  moreover have "32 * length ?blocks = n" using assms(1,2) by (simp add: chunks_exact_length)
  moreover have "length (q8_quants (q8_0_block_of c)) = 32" if "c \<in> set (chunks_exact 34 bytes)" for c
    using chunks_exact_wf [OF _ that] by (simp add: q8_0_block_of_def)
  ultimately show ?thesis by (auto simp: list_all_iff)
qed

lemma q8_0_tensor_length:
  assumes "32 dvd n" "length bytes = n div 32 * 34" "n div 32 * 34 \<le> u64_max"
  shows "\<exists>vals. decode_q8_0_tensor name bytes n = Inr vals \<and> length vals = n"
proof -
  obtain blocks where b: "decode_q8_0_blocks name bytes n = Inr blocks" "32 * length blocks = n" "list_all (\<lambda>b. length (q8_quants b) = 32) blocks"
    using q8_0_length [OF assms] by blast
  have "length (concat (map q8_0_values blocks)) = length blocks * 32"
    using b(3) by (intro concat_uniform_length) (auto simp: list_all_iff q8_0_values_length)
  then show ?thesis using b by (simp add: decode_q8_0_tensor_def)
qed

lemma block_format_length:
  assumes "bs dvd n" "length bytes = n div bs * width" "0 < width" "\<And>c. length c = width \<Longrightarrow> length (vals (from_bytes c)) = bs"
  shows "\<exists>out. decode_tensor_of (blocks_of format width from_bytes) vals name bytes = Inr out \<and> length out = n"
  using decode_blocks_length [of width bytes "n div bs" vals from_bytes bs format name] assms by auto

lemmas block_decoders = decode_q4_0_tensor_def decode_q4_0_blocks_def decode_q4_1_tensor_def decode_q4_1_blocks_def
  decode_q5_0_tensor_def decode_q5_0_blocks_def decode_q5_1_tensor_def decode_q5_1_blocks_def
  decode_q2_k_tensor_def decode_q2_k_blocks_def decode_q3_k_tensor_def decode_q3_k_blocks_def decode_q4_k_tensor_def decode_q4_k_blocks_def
  decode_q5_k_tensor_def decode_q5_k_blocks_def decode_q6_k_tensor_def decode_q6_k_blocks_def decode_q8_k_tensor_def decode_q8_k_blocks_def
  decode_iq4_nl_tensor_def decode_iq4_nl_blocks_def decode_iq4_xs_tensor_def decode_iq4_xs_blocks_def

lemma block_tensors_length:
  assumes "ty \<in> {Q4_0, Q4_1, Q5_0, Q2K, Q3K, Q4K, Q5K, Q6K, Q8K, IQ4NL, IQ4XS}"
    and "layout ty = Some (bs, width)" "bs dvd n" "length bytes = n div bs * width"
  shows "\<exists>out. decode_values ty name bytes n = Inr out \<and> length out = n"
  using assms
  by (auto intro!: block_format_length [where bs = bs] simp: decode_values_def block_decoders block_sizes)
    (simp_all add: block_lengths k_quant_lengths Let_def)

lemma ternary_tensors_length:
  assumes "256 dvd n"
  shows "length bytes = n div 256 * 54 \<Longrightarrow> \<exists>out. decode_tq1_0_tensor name bytes n = Inr out \<and> length out = n"
    "length bytes = n div 256 * 66 \<Longrightarrow> \<exists>out. decode_tq2_0_tensor name bytes n = Inr out \<and> length out = n"
  using assms chunked_length [of 54 bytes "n div 256" tq1_0_block_values 256] chunked_length [of 66 bytes "n div 256" tq2_0_block_values 256]
  by (simp_all add: decode_tq1_0_tensor_def decode_tq2_0_tensor_def TQ1_0_BLOCK_BYTES_def TQ2_0_BLOCK_BYTES_def ternary_lengths)

text \<open>The layout table gives Q5_1 the size of Q5_0; every other decoder agrees with it.\<close>

lemma decode_values_length:
  assumes "loadable ty" "ty \<noteq> Q5_1" "layout ty = Some (bs, width)" "bs dvd n" "length bytes = n div bs * width" "n div bs * width \<le> u64_max"
  shows "\<exists>out. decode_values ty name bytes n = Inr out \<and> length out = n"
proof -
  consider "ty \<in> {TF32, TF16, BF16}" | "ty = Q8_0" | "ty \<in> {Tq1_0, Tq2_0}"
    | "ty \<in> {Q4_0, Q4_1, Q5_0, Q2K, Q3K, Q4K, Q5K, Q6K, Q8K, IQ4NL, IQ4XS}"
    using assms(1,2) by (auto simp: loadable_def)
  then show ?thesis
  proof cases
    case 1
    then show ?thesis
      using assms(3-6) by (auto simp: decode_values_def decode_f32_tensor_def decode_f16_tensor_def decode_bf16_tensor_def float_length chunks_exact_length)
  next
    case 2
    then show ?thesis using assms(3-6) q8_0_tensor_length [of n bytes name] by (simp add: decode_values_def)
  next
    case 3
    then show ?thesis using assms(3-6) ternary_tensors_length [of n bytes name] by (auto simp: decode_values_def)
  next
    case 4
    then show ?thesis by (rule block_tensors_length [OF _ assms(3-5)])
  qed
qed

lemma q5_1_values_short:
  assumes "32 dvd n" "length bytes = n div 32 * 22" "decode_q5_1_tensor name bytes n = Inr out" "0 < n"
  shows "length out < n"
proof -
  define blocks where "blocks = chunks_exact 24 bytes"
  have out: "24 dvd length bytes" "length out = length blocks * 32"
    using assms(3) concat_uniform_length [of blocks] chunks_exact_wf [of 24 _ bytes]
    by (auto simp: decode_q5_1_tensor_def decode_tensor_of_def decode_q5_1_blocks_def blocks_of_def block_sizes blocks_def Let_def
        and_then_Inr_iff map_err_def block_lengths length_concat comp_def split: if_splits intro!: sum_list_const)
  obtain k where k: "n = 32 * k" using assms(1) by blast
  have "length blocks = 22 * k div 24" using assms(2) k by (simp add: blocks_def chunks_exact_length mult.commute)
  then show ?thesis using out(2) k assms(4) by simp
qed

section \<open>Reading an accepted file\<close>

text \<open>What the reader guarantees of a descriptor: its size, and bytes that exist.\<close>

definition readable :: "nat list \<Rightarrow> TensorDescriptor \<Rightarrow> bool" where
  "readable content d \<longleftrightarrow> tensor_nbytes (td_name d) (td_dimensions d) (td_type d) = Inr (td_n_bytes d)
     \<and> td_absolute_offset d + td_n_bytes d \<le> length content"

lemma place_tensors_counted:
  assumes "place_tensors data_start len a seen expected raw = Inr ts"
  shows "list_all (\<lambda>d. tensor_nbytes (td_name d) (td_dimensions d) (td_type d) = Inr (td_n_bytes d)) ts"
  using assms
proof (induction raw arbitrary: seen expected ts)
  case (Cons r raw)
  then show ?case by (cases r) (auto simp: and_then_Inr_iff split: if_splits)
qed simp

lemma accepted_tensors:
  assumes "read_metadata_with_len path header (length content) = Inr container"
  shows "distinct (map td_name (gguf_tensors container))" "d \<in> set (gguf_tensors container) \<Longrightarrow> readable content d"
proof -
  obtain a start raw md where a: "alignment_of md = Inr a" and ts: "place_tensors start (length content) a [] 0 raw = Inr (gguf_tensors container)"
    using assms by (auto simp: read_metadata_with_len_def Let_def and_then_Inr_iff split: if_splits)
  have "is_pow2 a" using a by (auto simp: alignment_of_def and_then_Inr_iff split: if_splits)
  note placed = place_tensors_spec [OF ts this]
  show "distinct (map td_name (gguf_tensors container))" using placed by simp
  show "readable content d" if "d \<in> set (gguf_tensors container)"
    using bspec [OF conjunct1 [OF placed [unfolded list_all_iff]] that] place_tensors_counted [OF ts] that
    by (simp add: readable_def list_all_iff in_span_def)
qed

lemma store_open_descriptor:
  assumes "distinct (map td_name (gguf_tensors container))" "d \<in> set (gguf_tensors container)"
  shows "descriptor (store_open path container) (td_name d) = Inr d"
proof -
  have "map_of (rev (map (\<lambda>d. (td_name d, d)) (gguf_tensors container))) (td_name d) = Some d"
    using assms by (intro map_of_is_SomeI) (auto simp: comp_def rev_map [symmetric])
  then show ?thesis by (simp add: descriptor_def store_open_def ok_or_def)
qed

text \<open>Which error a product of dimensions would stop with does not matter once it succeeds.\<close>

lemma product_error_irrelevant:
  "foldl (\<lambda>elements dim. and_then elements (\<lambda>n. ok_or e (checked_mul_u64 n dim))) (Inr k) ds = Inr m \<Longrightarrow>
   foldl (\<lambda>elements dim. and_then elements (\<lambda>n. ok_or e' (checked_mul_u64 n dim))) (Inr k) ds = Inr m"
proof (induction ds arbitrary: k)
  case (Cons a ds)
  have stuck: "foldl (\<lambda>elements dim. and_then elements (\<lambda>n. ok_or e (checked_mul_u64 n dim))) (Inl e) ds = Inl e" by (induction ds) simp_all
  show ?case using Cons stuck by (cases "checked_mul_u64 k a") (simp_all add: ok_or_def)
qed simp

lemma nbytes_cases:
  assumes "tensor_nbytes name dims ty = Inr n"
  obtains bs width where "layout ty = Some (bs, width)" "bs dvd prod_list dims" "n = prod_list dims div bs * width" "n \<le> u64_max"
    "shape_element_count dims = Inr (prod_list dims)"
proof -
  from assms obtain bs width m where l: "layout ty = Some (bs, width)" "bs dvd (case dims of [] \<Rightarrow> 1 | d # _ \<Rightarrow> d)"
    and count: "element_count name dims = Inr m" and n: "checked_mul_u64 (m div bs) width = Some n"
    by (auto simp: tensor_nbytes_def Let_def and_then_Inr_iff ok_or_Inr_iff split: if_splits)
  have m: "m = prod_list dims" using overflow_fold [OF count [unfolded element_count_def]] by auto
  have "shape_element_count dims = Inr (prod_list dims)"
    using product_error_irrelevant [OF count [unfolded element_count_def]] m
    by (simp add: shape_element_count_def)
  then show thesis using that l block_dvd_elements [OF l(2)] n m by (auto simp: checked_mul_u64_def split: if_splits)
qed

lemma readable_bytes:
  assumes "readable content d" "descriptor store (td_name d) = Inr d"
  shows "tensor_bytes (Inr content) store (td_name d) = Inr (take (td_n_bytes d) (drop (td_absolute_offset d) content))"
    "length (take (td_n_bytes d) (drop (td_absolute_offset d) content)) = td_n_bytes d"
  using assms by (simp_all add: readable_def tensor_bytes_def read_exact_at_def slice_ok ok_or_def) arith

section \<open>Loading a tensor of an accepted file\<close>

lemma length_bytes [simp]: "length (map of_char file :: nat list) = length file"
  by simp

lemma load_reads:
  assumes "readable content d" "descriptor store (td_name d) = Inr d" "prod_list (td_dimensions d) = n"
    "shape_element_count (td_dimensions d) = Inr n"
    "bytes = take (td_n_bytes d) (drop (td_absolute_offset d) content)"
  shows "load_cpu_f32 (Inr content) store (td_name d) = and_then (decode_values (td_type d) (td_name d) bytes n) (\<lambda>vals.
     and_then (if td_type d = Q8_0 then and_then (decode_q8_0_blocks (td_name d) bytes n) (\<lambda>b. Inr (Some b)) else Inr None) (\<lambda>blocks.
     Inr ((plain_tensor (td_name d) (td_dimensions d) vals)\<lparr>t_source_type := Some (td_type d), t_q8_0_blocks := blocks,
       t_q4_k_wire_bytes := (if td_type d = Q4K then Some bytes else None),
       t_q6_k_wire_bytes := (if td_type d = Q6K then Some bytes else None)\<rparr>)))"
  using assms(2,4,5) readable_bytes [OF assms(1,2)] by (simp add: load_cpu_f32_def from_gguf_dims_def)

text \<open>A tensor as its descriptor promises it: decoded from the descriptor's bytes, and as large as its shape.\<close>

definition loaded_as :: "nat list \<Rightarrow> TensorDescriptor \<Rightarrow> CpuTensor \<Rightarrow> bool" where
  "loaded_as content d t \<longleftrightarrow> t_name t = td_name d \<and> t_shape t = td_dimensions d \<and> t_source_type t = Some (td_type d)
     \<and> decode_values (td_type d) (td_name d) (take (td_n_bytes d) (drop (td_absolute_offset d) content)) (prod_list (td_dimensions d)) = Inr (t_data t)
     \<and> length (t_data t) = prod_list (td_dimensions d)"

lemma readable_loads:
  assumes "readable content d" "descriptor store (td_name d) = Inr d" "loadable (td_type d)" "td_type d \<noteq> Q5_1"
  shows "\<exists>t. load_cpu_f32 (Inr content) store (td_name d) = Inr t \<and> loaded_as content d t"
proof -
  let ?n = "prod_list (td_dimensions d)" and ?bytes = "take (td_n_bytes d) (drop (td_absolute_offset d) content)"
  from assms(1) have "tensor_nbytes (td_name d) (td_dimensions d) (td_type d) = Inr (td_n_bytes d)" by (simp add: readable_def)
  then obtain bs width where l: "layout (td_type d) = Some (bs, width)" "bs dvd ?n" "td_n_bytes d = ?n div bs * width" "td_n_bytes d \<le> u64_max"
    and count: "shape_element_count (td_dimensions d) = Inr ?n" by (rule nbytes_cases)
  have len: "length ?bytes = ?n div bs * width" using readable_bytes(2) [OF assms(1,2)] l(3) by simp
  obtain vals where vals: "decode_values (td_type d) (td_name d) ?bytes ?n = Inr vals" "length vals = ?n"
    using decode_values_length [OF assms(3,4) l(1,2) len] l(3,4) by auto
  have blocks: "\<exists>b. decode_q8_0_blocks (td_name d) ?bytes ?n = Inr b" if "td_type d = Q8_0"
    using q8_0_length [of ?n ?bytes "td_name d"] that l len by auto
  show ?thesis
    using load_reads [OF assms(1,2) refl count refl] vals blocks by (auto simp: plain_tensor_def loaded_as_def)
qed

lemma readable_refused:
  assumes "readable content d" "descriptor store (td_name d) = Inr d" "\<not> loadable (td_type d)"
  shows "\<exists>m. load_cpu_f32 (Inr content) store (td_name d) = Inl (UnsupportedTensorType m)"
proof -
  from assms(1) have "tensor_nbytes (td_name d) (td_dimensions d) (td_type d) = Inr (td_n_bytes d)" by (simp add: readable_def)
  then obtain "shape_element_count (td_dimensions d) = Inr (prod_list (td_dimensions d))" by (rule nbytes_cases)
  from load_reads [OF assms(1,2) refl this refl] assms(3) show ?thesis
    by (cases "td_type d") (simp_all add: decode_values_def loadable_def)
qed

lemmas accepted_file = accepted_tensors [where content = "map of_char model :: nat list" for model, unfolded length_bytes]

text \<open>Property C14: a tensor of a model file the reader accepts can be loaded: reading its bytes again from the same
  file and decoding them gives a tensor with the descriptor's name, shape and type, the values its bytes decode to, and exactly
  as many of them as the shape has elements, for every storage type with a decoder but Q5_1; a type without a decoder is refused as unsupported.\<close>

theorem accepted_tensors_load:
  assumes "read_metadata_with_len path (Inr file, None) (length file) = Inr container" "d \<in> set (gguf_tensors container)"
  shows "(loadable (td_type d) \<and> td_type d \<noteq> Q5_1 \<longrightarrow>
      (\<exists>t. load_cpu_f32 (Inr (map of_char file)) (store_open path container) (td_name d) = Inr t \<and> loaded_as (map of_char file) d t))
    \<and> (\<not> loadable (td_type d) \<longrightarrow>
      (\<exists>m. load_cpu_f32 (Inr (map of_char file)) (store_open path container) (td_name d) = Inl (UnsupportedTensorType m)))"
  using readable_loads readable_refused accepted_file(2) [OF assms] store_open_descriptor [OF accepted_file(1) [OF assms(1)] assms(2)]
  by blast

text \<open>Property C27: a non-empty Q5_1 tensor of an accepted file never loads whole. The reader sizes its blocks like
  those of Q5_0, 22 bytes, and the decoder takes 24 bytes each: where the lengths happen to agree, the tensor that
  comes back has fewer values than its shape says.\<close>

theorem q5_1_tensors_load_short:
  assumes "read_metadata_with_len path (Inr file, None) (length file) = Inr container" "d \<in> set (gguf_tensors container)"
    and "td_type d = Q5_1" "prod_list (td_dimensions d) \<noteq> 0"
    and "load_cpu_f32 (Inr (map of_char file)) (store_open path container) (td_name d) = Inr t"
  shows "t_shape t = td_dimensions d \<and> length (t_data t) < prod_list (td_dimensions d)"
proof -
  let ?content = "map of_char file :: nat list"
  let ?n = "prod_list (td_dimensions d)" and ?bytes = "take (td_n_bytes d) (drop (td_absolute_offset d) ?content)"
  have r: "readable ?content d" and s: "descriptor (store_open path container) (td_name d) = Inr d"
    using accepted_file(2) [OF assms(1,2)] store_open_descriptor [OF accepted_file(1) [OF assms(1)] assms(2)] by blast+
  from r have "tensor_nbytes (td_name d) (td_dimensions d) (td_type d) = Inr (td_n_bytes d)" by (simp add: readable_def)
  then obtain "layout (td_type d) = Some (32, 22)" "32 dvd ?n" "td_n_bytes d = ?n div 32 * 22"
    and count: "shape_element_count (td_dimensions d) = Inr ?n"
    by (rule nbytes_cases) (simp add: assms(3))
  then show ?thesis
    using q5_1_values_short [of ?n ?bytes "td_name d"] readable_bytes(2) [OF r s] assms(3-5) load_reads [OF r s refl count refl]
    by (auto simp: decode_values_def and_then_Inr_iff plain_tensor_def)
qed

section \<open>Two small model files\<close>

definition small_model :: string where
  "small_model = written_header 3 demo_entries (laid_out 32 0 demo_tensors) @ replicate 173 (CHR 0x00)"

definition small_container :: GgufFile where
  "small_container = \<lparr>gguf_path = ''m.gguf'', gguf_version = word_of_nat 3, gguf_tensor_count = 2,
     gguf_metadata_count = 1, gguf_alignment = 32, gguf_data_start = 128,
     gguf_metadata = map_of demo_entries, gguf_tensors = map (described 128) (laid_out 32 0 demo_tensors)\<rparr>"

lemma small_model_accepted: "read_metadata_with_len ''m.gguf'' (Inr small_model, None) (length small_model) = Inr small_container"
proof -
  have "length small_model = 300" by (simp add: small_model_def demo_laid_out demo_header)
  then show ?thesis
    using read_written [of 3 demo_entries 32 demo_tensors 300 128 "''m.gguf''" "replicate 173 (CHR 0x00)" None] demo_ok
    by (simp add: small_model_def small_container_def demo_alignment demo_laid_out demo_header round_up_def u64_max_def described_def nbytes_def
        elements_def) (simp add: demo_entries_def demo_tensors_def)
qed

theorem accepted_tensors_load_witness:
  "\<exists>t. load_cpu_f32 (Inr (map of_char small_model)) (store_open ''m.gguf'' small_container) ''w'' = Inr t \<and> length (t_data t) = 64"
  using accepted_tensors_load [OF small_model_accepted, of "described 128 (''w'', [32, 2], Q8_0, 0)"]
  by (auto simp: small_container_def demo_laid_out described_def loadable_def loaded_as_def)

definition q5_1_tensors :: "(string \<times> nat list \<times> TensorType) list" where
  "q5_1_tensors = [(''q'', [384], Q5_1)]"

definition q5_1_model :: string where
  "q5_1_model = written_header 3 [] (laid_out 32 0 q5_1_tensors) @ replicate 271 (CHR 0x00)"

definition q5_1_container :: GgufFile where
  "q5_1_container = \<lparr>gguf_path = ''m.gguf'', gguf_version = word_of_nat 3, gguf_tensor_count = 1,
     gguf_metadata_count = 0, gguf_alignment = 32, gguf_data_start = 64,
     gguf_metadata = Map.empty, gguf_tensors = [described 64 (''q'', [384], Q5_1, 0)]\<rparr>"

lemma q5_1_laid_out: "laid_out 32 0 q5_1_tensors = [(''q'', [384], Q5_1, 0)]"
  by (simp add: q5_1_tensors_def)

lemma q5_1_header: "length (written_header 3 [] [(''q'', [384], Q5_1, 0)]) = 57"
  by (simp add: written_header_def GGUF_MAGIC_def written_tensor_def written_string_def)

lemma q5_1_model_accepted: "read_metadata_with_len ''m.gguf'' (Inr q5_1_model, None) (length q5_1_model) = Inr q5_1_container"
proof -
  have align: "alignment_of (map_of []) = Inr 32" by (simp add: alignment_of_def DEFAULT_ALIGNMENT_def is_pow2_def upt_rec)
  have ok: "list_all tensor_ok (laid_out 32 0 q5_1_tensors)"
    by (simp add: q5_1_laid_out ascii_is_utf8 MAX_TENSOR_NAME_def MAX_TENSOR_DIMS_def u64_max_def char_code_def)
  have storable: "list_all storable q5_1_tensors" "distinct (map fst q5_1_tensors)" "length q5_1_tensors < 2 ^ 63"
    by (simp_all add: storable_def elements_def u64_max_def nbytes_def q5_1_tensors_def)
  have fits: "list_all (\<lambda>t. td_absolute_offset t + td_n_bytes t \<le> 328) (map (described 64) (laid_out 32 0 q5_1_tensors))"
    by (simp add: q5_1_laid_out described_def nbytes_def elements_def)
  have start: "64 = round_up 32 (length (written_header 3 [] (laid_out 32 0 q5_1_tensors)))" by (simp add: q5_1_laid_out q5_1_header round_up_def)
  have len: "length q5_1_model = 328" by (simp add: q5_1_model_def q5_1_laid_out q5_1_header)
  show ?thesis
    unfolding len unfolding q5_1_model_def
    by (subst read_written [where a = 32 and start = 64 and entries = "[]", OF _ _ _ _ align ok storable _ _ start _ fits])
      (simp_all add: q5_1_container_def q5_1_tensors_def u64_max_def q5_1_header)
qed

lemma q5_1_model_loads: "\<exists>t. load_cpu_f32 (Inr (map of_char q5_1_model)) (store_open ''m.gguf'' q5_1_container) ''q'' = Inr t"
proof -
  let ?d = "described 64 (''q'', [384], Q5_1, 0)" and ?content = "map of_char q5_1_model :: nat list"
  let ?bytes = "take (td_n_bytes ?d) (drop (td_absolute_offset ?d) ?content)"
  have d: "?d \<in> set (gguf_tensors q5_1_container)" by (simp add: q5_1_container_def)
  have r: "readable ?content ?d" and s: "descriptor (store_open ''m.gguf'' q5_1_container) (td_name ?d) = Inr ?d"
    using accepted_file(2) [OF q5_1_model_accepted d]
      store_open_descriptor [OF accepted_file(1) [OF q5_1_model_accepted] d] by blast+
  have "length ?bytes = 11 * 24" using readable_bytes(2) [OF r s] by (simp add: described_def nbytes_def elements_def)
  then obtain out where "decode_q5_1_tensor (td_name ?d) ?bytes 384 = Inr out"
    by (simp add: decode_q5_1_tensor_def decode_q5_1_blocks_def decode_tensor_of_def blocks_of_def block_sizes)
  moreover have "shape_element_count (td_dimensions ?d) = Inr 384"
    by (simp add: described_def shape_element_count_def checked_mul_u64_def u64_max_def ok_or_def)
  ultimately show ?thesis
    using load_reads [OF r s _ _ refl, of 384] by (simp add: described_def decode_values_def)
qed

theorem q5_1_tensors_load_short_witness:
  "\<exists>t. load_cpu_f32 (Inr (map of_char q5_1_model)) (store_open ''m.gguf'' q5_1_container) ''q'' = Inr t \<and> length (t_data t) < 384"
proof -
  obtain t where "load_cpu_f32 (Inr (map of_char q5_1_model)) (store_open ''m.gguf'' q5_1_container) ''q'' = Inr t"
    using q5_1_model_loads by blast
  with q5_1_tensors_load_short [OF q5_1_model_accepted, of "described 64 (''q'', [384], Q5_1, 0)" t] show ?thesis
    by (simp add: q5_1_container_def described_def)
qed

end
