(* ===== verification/Rope.thy ===== *)
theory Rope
  imports Tensor
begin

text \<open>
  Rotary position embedding (\<^verbatim>\<open>engine-core/src/forward/rope.rs\<close>): the frequency of every pair with its
  four kinds of scaling, the rotation of a row in place, and the checks before it.
\<close>

datatype RopePairing = AdjacentEvenOdd | SplitHalf

datatype RopeScalingKind = ScalingNone | ScalingLinear | ScalingLlama3 | ScalingYarn

record RopeScaling =
  rs_kind :: RopeScalingKind
  rs_factor :: f32
  rs_original_context_length :: "nat option"
  rs_low_freq_factor :: "f32 option"
  rs_high_freq_factor :: "f32 option"

definition rope_pairing_for_config :: "LlamaModelConfig \<Rightarrow> RopePairing" where
  "rope_pairing_for_config config = (if rope_neox_pairing config then SplitHalf else AdjacentEvenOdd)"

section \<open>Frequencies\<close>

definition YARN_BETA_FAST :: f32 where "YARN_BETA_FAST = f32_of_int 32"
definition YARN_BETA_SLOW :: f32 where "YARN_BETA_SLOW = f32_of_int 1"
definition f32_PI :: f32 where "f32_PI = 0x40490fdb"

definition f32_of_nat :: "nat \<Rightarrow> f32" where "f32_of_nat n = f32_of_int (int n)"

definition yarn_corr_dim :: "libm \<Rightarrow> nat \<Rightarrow> f32 \<Rightarrow> f32 \<Rightarrow> f32 \<Rightarrow> f32" where
  "yarn_corr_dim m rope_dim n_ctx_orig n_rot base =
     f32_div (f32_mul (f32_of_nat rope_dim) (m_ln m (f32_div n_ctx_orig (f32_mul (f32_mul n_rot (f32_of_int 2)) f32_PI))))
       (f32_mul (f32_of_int 2) (m_ln m base))"

definition yarn_corr_dims :: "libm \<Rightarrow> nat \<Rightarrow> nat \<Rightarrow> f32 \<Rightarrow> f32 \<times> f32" where
  "yarn_corr_dims m rope_dim n_ctx_orig base =
     (let first = f32_floor (yarn_corr_dim m rope_dim (f32_of_nat n_ctx_orig) YARN_BETA_FAST base);
          last = f32_ceil (yarn_corr_dim m rope_dim (f32_of_nat n_ctx_orig) YARN_BETA_SLOW base) in
      (f32_max first 0, f32_min last (f32_sub (f32_of_nat rope_dim) (f32_of_int 1))))"

definition yarn_ramp :: "f32 \<Rightarrow> f32 \<Rightarrow> nat \<Rightarrow> f32" where
  "yarn_ramp low high pair_idx =
     (let y = f32_div (f32_sub (f32_of_nat pair_idx) low) (f32_max (f32_sub high low) 0x3a83126f) in
      f32_sub (f32_of_int 1) (f32_clamp y 0 (f32_of_int 1)))"

definition rope_magnitude_scale :: "libm \<Rightarrow> RopeScaling \<Rightarrow> f32" where
  "rope_magnitude_scale m scaling =
     (if rs_kind scaling = ScalingYarn then f32_add (f32_of_int 1) (f32_mul 0x3dcccccd (m_ln m (rs_factor scaling))) else f32_of_int 1)"

definition scaling_kind :: "libm \<Rightarrow> string option \<Rightarrow> RopeScalingKind engine_result" where
  "scaling_kind m scaling_type = (case map_option text_trim scaling_type of
       None \<Rightarrow> Inr ScalingNone
     | Some kind \<Rightarrow>
         if kind = '''' \<or> kind = ''none'' then Inr ScalingNone
         else if kind = ''linear'' then Inr ScalingLinear
         else if kind = ''llama3'' then Inr ScalingLlama3
         else if kind = ''yarn'' then Inr ScalingYarn
         else Inl (InvalidModelMetadata (''unsupported rope.scaling.type '' @ m_debug m kind @ ''; expected none, linear, llama3, or yarn'')))"

definition not_positive :: "f32 \<Rightarrow> bool" where
  "not_positive x \<longleftrightarrow> f32_le x 0 \<or> \<not> f32_is_finite x"

definition default :: "'a \<Rightarrow> 'a option \<Rightarrow> 'a" where
  "default d x = (case x of None \<Rightarrow> d | Some a \<Rightarrow> a)"

definition rope_scaling_from_config :: "libm \<Rightarrow> LlamaModelConfig \<Rightarrow> RopeScaling engine_result" where
  "rope_scaling_from_config m config =
     and_then (scaling_kind m (rope_scaling_type config)) (\<lambda>kind.
     let factor = default (f32_of_int 1) (rope_scaling_factor config);
         original = default 8192 (rope_scaling_original_context_length config);
         plain = (\<lambda>f context. \<lparr>rs_kind = kind, rs_factor = f, rs_original_context_length = context, rs_low_freq_factor = None,
                                rs_high_freq_factor = None\<rparr>) in
     if not_positive factor
     then Inl (InvalidModelMetadata (''RoPE scaling factor '' @ m_show m factor @ '' must be finite and positive''))
     else (case kind of
         ScalingNone \<Rightarrow> Inr (plain (f32_of_int 1) None)
       | ScalingLinear \<Rightarrow> Inr (plain factor None)
       | ScalingLlama3 \<Rightarrow>
           if original = 0
           then Inl (InvalidModelMetadata ''llama3 RoPE scaling original context length must be greater than zero'')
           else let low = default (f32_of_int 1) (rope_scaling_low_freq_factor config);
                    high = default (f32_of_int 4) (rope_scaling_high_freq_factor config) in
             if f32_le low 0 \<or> f32_le high 0 \<or> \<not> f32_is_finite low \<or> \<not> f32_is_finite high \<or> f32_le high low
             then Inl (InvalidModelMetadata (''llama3 RoPE scaling frequency factors must be finite, positive, and high > low; got low=''
                    @ m_show m low @ '', high='' @ m_show m high))
             else Inr \<lparr>rs_kind = kind, rs_factor = factor, rs_original_context_length = Some original,
                    rs_low_freq_factor = Some low, rs_high_freq_factor = Some high\<rparr>
       | ScalingYarn \<Rightarrow>
           if original = 0 then Inl (InvalidModelMetadata ''yarn RoPE scaling original context length must be greater than zero'')
           else Inr (plain factor (Some original))))"

text \<open>The options are those that the scaling of this kind was built with.\<close>

definition llama3_scaled_rope_frequency :: "f32 \<Rightarrow> RopeScaling \<Rightarrow> f32 option" where
  "llama3_scaled_rope_frequency frequency scaling =
     (case (rs_original_context_length scaling, rs_low_freq_factor scaling, rs_high_freq_factor scaling) of
        (Some context, Some low, Some high) \<Rightarrow>
          let original = f32_of_nat context;
              wavelength = f32_div (f32_mul (f32_of_int 2) f32_PI) frequency;
              low_freq_wavelength = f32_div original low;
              high_freq_wavelength = f32_div original high in
          Some (if f32_lt wavelength high_freq_wavelength then frequency
            else if f32_lt low_freq_wavelength wavelength then f32_div frequency (rs_factor scaling)
            else let smooth = f32_div (f32_sub (f32_div original wavelength) low) (f32_sub high low) in
              f32_add (f32_div (f32_mul (f32_sub (f32_of_int 1) smooth) frequency) (rs_factor scaling)) (f32_mul smooth frequency))
      | _ \<Rightarrow> None)"

record RopeParams =
  rp_head_count :: nat
  rp_head_dim :: nat
  rp_rope_dim :: nat
  rp_freq_base :: f32
  rp_pairing :: RopePairing
  rp_scaling :: RopeScaling
  rp_rope_freqs :: "f32 list option"

definition rope_pair_frequency :: "libm \<Rightarrow> nat \<Rightarrow> RopeParams \<Rightarrow> f32 option" where
  "rope_pair_frequency m pair_idx params =
     (let base_frequency = m_powf m (rp_freq_base params)
            (f32_div (f32_neg (f32_mul (f32_of_nat pair_idx) (f32_of_int 2))) (f32_of_nat (rp_rope_dim params)));
          effective = (case rp_rope_freqs params of
              None \<Rightarrow> Some base_frequency
            | Some freqs \<Rightarrow> map_option (f32_div base_frequency) (index pair_idx freqs)) in
      Option.bind effective (\<lambda>frequency. let scaling = rp_scaling params in
        case rs_kind scaling of
          ScalingNone \<Rightarrow> Some frequency
        | ScalingLinear \<Rightarrow> Some (f32_div frequency (rs_factor scaling))
        | ScalingLlama3 \<Rightarrow> llama3_scaled_rope_frequency frequency scaling
        | ScalingYarn \<Rightarrow>
            let (low, high) = yarn_corr_dims m (rp_rope_dim params) (default 8192 (rs_original_context_length scaling)) (rp_freq_base params);
                ramp_mix = yarn_ramp low high pair_idx;
                theta_interp = f32_div frequency (rs_factor scaling) in
            Some (f32_add (f32_mul theta_interp (f32_sub (f32_of_int 1) ramp_mix)) (f32_mul frequency ramp_mix))))"

section \<open>Rotation\<close>

definition pair_dims :: "RopeParams \<Rightarrow> nat \<Rightarrow> nat \<Rightarrow> nat \<times> nat" where
  "pair_dims params pair_idx head =
     (let head_start = head * rp_head_dim params in
      case rp_pairing params of
        AdjacentEvenOdd \<Rightarrow> (head_start + pair_idx * 2, head_start + pair_idx * 2 + 1)
      | SplitHalf \<Rightarrow> (head_start + pair_idx, head_start + pair_idx + rp_rope_dim params div 2))"

definition rotate_pair :: "f32 \<Rightarrow> f32 \<Rightarrow> nat \<times> nat \<Rightarrow> f32 list \<Rightarrow> f32 list option" where
  "rotate_pair sn cs = (\<lambda>(dim0, dim1) row.
     if dim0 < length row \<and> dim1 < length row
     then let x0 = row ! dim0; x1 = row ! dim1 in
       Some (row[dim0 := f32_sub (f32_mul x0 cs) (f32_mul x1 sn), dim1 := f32_add (f32_mul x0 sn) (f32_mul x1 cs)])
     else None)"

definition rotate_heads :: "RopeParams \<Rightarrow> nat \<Rightarrow> f32 \<Rightarrow> f32 \<Rightarrow> f32 list \<Rightarrow> f32 list run" where
  "rotate_heads params pair_idx sn cs =
     run_fold (\<lambda>head row. unwrap (rotate_pair sn cs (pair_dims params pair_idx head) row)) [0 ..< rp_head_count params]"

definition apply_rope_to_row :: "libm \<Rightarrow> nat \<Rightarrow> RopeParams \<Rightarrow> f32 list \<Rightarrow> f32 list run" where
  "apply_rope_to_row m position params =
     (let mscale = rope_magnitude_scale m (rp_scaling params) in
      run_fold (\<lambda>pair_idx row.
        run_then (unwrap (rope_pair_frequency m pair_idx params)) (\<lambda>theta.
        let angle = f32_mul (f32_of_nat position) theta in
        rotate_heads params pair_idx (f32_mul (m_sin m angle) mscale) (f32_mul (m_cos m angle) mscale) row))
      [0 ..< rp_rope_dim params div 2])"

definition bad_frequency :: "f32 list \<Rightarrow> nat option" where
  "bad_frequency freqs = find (\<lambda>i. not_positive (freqs ! i)) [0 ..< length freqs]"

definition validate_rope_frequency_tensor :: "libm \<Rightarrow> CpuTensor \<Rightarrow> nat \<Rightarrow> f32 list engine_result" where
  "validate_rope_frequency_tensor m rope_freqs rope_dim =
     (if t_shape rope_freqs \<noteq> [rope_dim div 2]
      then Inl (InvalidModelMetadata (''rope_freqs.weight expected shape ['' @ show_nat (rope_dim div 2) @ ''], got '' @ debug_nats (t_shape rope_freqs)))
      else (case bad_frequency (t_data rope_freqs) of
          Some i \<Rightarrow> Inl (InvalidModelMetadata (''rope_freqs.weight['' @ show_nat i @ ''] frequency factor ''
             @ m_show m (t_data rope_freqs ! i) @ '' must be finite and positive''))
        | None \<Rightarrow> Inr (t_data rope_freqs)))"

definition apply_rope :: "libm \<Rightarrow> f32 list \<Rightarrow> nat \<Rightarrow> nat \<Rightarrow> LlamaModelConfig \<Rightarrow> CpuTensor option \<Rightarrow> f32 list run" where
  "apply_rope m row position head_count config rope_freqs =
     run_then (require (head_count \<noteq> 0) (ShapeMismatch ''RoPE head count must be greater than zero'')) (\<lambda>_.
     run_then (require (head_count dvd length row) (ShapeMismatch (''RoPE input width '' @ show_nat (length row)
         @ '' is not divisible by head count '' @ show_nat head_count))) (\<lambda>_.
     let head_dim = length row div head_count; rope_dim = default (head_dim mod 2 ^ 32) (rope_dimension_count config) in
     run_then (require (\<not> (rope_dim = 0 \<or> rope_dim > head_dim \<or> odd rope_dim)) (InvalidModelMetadata (''RoPE dimension count ''
         @ show_nat rope_dim @ '' must be even and within head dimension '' @ show_nat head_dim))) (\<lambda>_.
     let freq_base = default (f32_of_int 10000) (rope_freq_base config) in
     run_then (require (\<not> not_positive freq_base) (InvalidModelMetadata (''RoPE frequency base '' @ m_show m freq_base
         @ '' must be finite and positive''))) (\<lambda>_.
     run_then (lift (rope_scaling_from_config m config)) (\<lambda>scaling.
     run_then (case rope_freqs of
         None \<Rightarrow> return None
       | Some freqs \<Rightarrow> lift (and_then (validate_rope_frequency_tensor m freqs rope_dim) (\<lambda>fs. Inr (Some fs)))) (\<lambda>freqs.
     apply_rope_to_row m position \<lparr>rp_head_count = head_count, rp_head_dim = head_dim, rp_rope_dim = rope_dim, rp_freq_base = freq_base,
       rp_pairing = rope_pairing_for_config config, rp_scaling = scaling, rp_rope_freqs = freqs\<rparr> row))))))"

end
