(* ===== verification/Weights.thy ===== *)
theory Weights
  imports Store Rope
begin

text \<open>
  The materialized weights of a model (\<^verbatim>\<open>engine-core/src/model/weights.rs\<close>): loading every bound
  descriptor, and the second validation, of the loaded shapes.
\<close>

section \<open>Data\<close>

record LlamaLayerWeights =
  w_attention_norm :: CpuTensor
  w_attention_q :: CpuTensor
  w_attention_k :: CpuTensor
  w_attention_v :: CpuTensor
  w_attention_output :: CpuTensor
  w_attention_q_norm :: "CpuTensor option"
  w_attention_k_norm :: "CpuTensor option"
  w_ffn_norm :: CpuTensor
  w_ffn_gate :: CpuTensor
  w_ffn_up :: CpuTensor
  w_ffn_down :: CpuTensor

record LlamaWeights =
  w_token_embedding :: CpuTensor
  w_output_norm :: CpuTensor
  w_output :: "CpuTensor option"
  w_rope_freqs :: "CpuTensor option"
  w_layers :: "LlamaLayerWeights list"

definition output_projection :: "LlamaWeights \<Rightarrow> CpuTensor" where
  "output_projection w = (case w_output w of Some t \<Rightarrow> t | None \<Rightarrow> w_token_embedding w)"

section \<open>Shapes\<close>

text \<open>Swapping the declared dimensions only; the bytes are token-major already.\<close>

definition normalize_token_embedding_shape :: "CpuTensor \<Rightarrow> string \<Rightarrow> CpuTensor engine_result" where
  "normalize_token_embedding_shape t name =
     (if tensor_rank t \<noteq> 2
      then Inl (ShapeMismatch (''token embedding tensor '' @ name @ '' expected rank 2, got '' @ debug_nats (t_shape t)))
      else if t_shape t ! 0 < t_shape t ! 1 then Inr (t\<lparr>t_shape := [t_shape t ! 1, t_shape t ! 0]\<rparr>)
      else Inr t)"

definition require_tensor_shape :: "CpuTensor \<Rightarrow> nat list \<Rightarrow> string \<Rightarrow> unit engine_result" where
  "require_tensor_shape t expected role =
     (if t_shape t \<noteq> expected
      then Inl (ShapeMismatch (role @ '' tensor '' @ t_name t @ '' expected shape '' @ debug_nats expected @ '', got '' @ debug_nats (t_shape t)))
      else Inr ())"

definition require_matrix_shape :: "CpuTensor \<Rightarrow> nat \<Rightarrow> nat \<Rightarrow> string \<Rightarrow> unit engine_result" where
  "require_matrix_shape t input_width output_width role =
     (let direct = [input_width, output_width]; transposed = [output_width, input_width] in
      if t_shape t \<noteq> direct \<and> t_shape t \<noteq> transposed
      then Inl (ShapeMismatch (role @ '' tensor '' @ t_name t @ '' expected shape '' @ debug_nats direct @ '' or ''
             @ debug_nats transposed @ '', got '' @ debug_nats (t_shape t)))
      else Inr ())"

definition validate_rope_weights :: "libm \<Rightarrow> CpuTensor \<Rightarrow> nat \<Rightarrow> unit engine_result" where
  "validate_rope_weights m rope_freqs rope_dim =
     (if rope_dim = 0 \<or> odd rope_dim
      then Inl (InvalidModelMetadata (''RoPE dimension count '' @ show_nat rope_dim @ '' must be even and greater than zero''))
      else if t_shape rope_freqs \<noteq> [rope_dim div 2]
      then Inl (InvalidModelMetadata (''rope_freqs.weight expected shape '' @ debug_nats [rope_dim div 2] @ '', got '' @ debug_nats (t_shape rope_freqs)))
      else (case bad_frequency (t_data rope_freqs) of
          Some idx \<Rightarrow> Inl (InvalidModelMetadata (''rope_freqs.weight['' @ show_nat idx @ ''] frequency factor ''
              @ m_show m (t_data rope_freqs ! idx) @ '' must be finite and positive''))
        | None \<Rightarrow> Inr ()))"

definition validate_qk_norm_weights :: "DenseLlamaDims \<Rightarrow> nat \<Rightarrow> LlamaLayerWeights \<Rightarrow> unit engine_result" where
  "validate_qk_norm_weights dims idx layer = (case (w_attention_q_norm layer, w_attention_k_norm layer) of
       (Some q_norm, Some k_norm) \<Rightarrow>
         and_then (require_tensor_shape q_norm [d_head_dim dims] (''layer '' @ show_nat idx @ '' attention q_norm'')) (\<lambda>_.
         require_tensor_shape k_norm [d_head_dim dims] (''layer '' @ show_nat idx @ '' attention k_norm''))
     | (None, None) \<Rightarrow> Inr ()
     | _ \<Rightarrow> Inl (ShapeMismatch (''layer '' @ show_nat idx @ '' has exactly one of attn_q_norm/attn_k_norm loaded; QK-norm ''
              @ ''weights must be present as a pair'')))"

definition validate_layer_weights :: "DenseLlamaDims \<Rightarrow> nat \<times> LlamaLayerWeights \<Rightarrow> unit engine_result" where
  "validate_layer_weights dims = (\<lambda>(idx, layer).
     let role = (\<lambda>part. ''layer '' @ show_nat idx @ part); width = d_embedding_length dims in
     and_then (require_tensor_shape (w_attention_norm layer) [width] (role '' attention norm'')) (\<lambda>_.
     and_then (require_matrix_shape (w_attention_q layer) width (d_q_width dims) (role '' attention q'')) (\<lambda>_.
     and_then (require_matrix_shape (w_attention_k layer) width (d_kv_width dims) (role '' attention k'')) (\<lambda>_.
     and_then (require_matrix_shape (w_attention_v layer) width (d_kv_width dims) (role '' attention v'')) (\<lambda>_.
     and_then (require_matrix_shape (w_attention_output layer) (d_q_width dims) width (role '' attention output'')) (\<lambda>_.
     and_then (validate_qk_norm_weights dims idx layer) (\<lambda>_.
     and_then (require_tensor_shape (w_ffn_norm layer) [width] (role '' ffn norm'')) (\<lambda>_.
     and_then (require_matrix_shape (w_ffn_gate layer) width (d_feed_forward_length dims) (role '' ffn gate'')) (\<lambda>_.
     and_then (require_matrix_shape (w_ffn_up layer) width (d_feed_forward_length dims) (role '' ffn up'')) (\<lambda>_.
     require_matrix_shape (w_ffn_down layer) (d_feed_forward_length dims) width (role '' ffn down'')))))))))))"

definition validate_weights :: "libm \<Rightarrow> LlamaWeights \<Rightarrow> LlamaModelConfig \<Rightarrow> unit engine_result" where
  "validate_weights m w config =
     and_then (from_config config) (\<lambda>dims. let width = d_embedding_length dims; vocab = d_vocab_size dims in
     and_then (require_tensor_shape (w_token_embedding w) [vocab, width] ''token embedding'') (\<lambda>_.
     and_then (require_tensor_shape (w_output_norm w) [width] ''output norm'') (\<lambda>_.
     and_then (require_matrix_shape (output_projection w) width vocab ''output projection'') (\<lambda>_.
     and_then (case w_rope_freqs w of None \<Rightarrow> Inr ()
         | Some rope_freqs \<Rightarrow> validate_rope_weights m rope_freqs
             (case rope_dimension_count config of Some n \<Rightarrow> n | None \<Rightarrow> d_head_dim dims mod 2 ^ 32)) (\<lambda>_.
     if length (w_layers w) \<noteq> d_block_count dims
     then Inl (ShapeMismatch (''config block count '' @ show_nat (d_block_count dims)
            @ '' does not match loaded layer count '' @ show_nat (length (w_layers w))))
     else and_then (collect_results (map (validate_layer_weights dims) (enumerate 0 (w_layers w)))) (\<lambda>_. Inr ()))))))"

section \<open>Loading\<close>

definition load_optional :: "('d \<Rightarrow> 'a engine_result) \<Rightarrow> 'd option \<Rightarrow> 'a option engine_result" where
  "load_optional load desc = (case desc of None \<Rightarrow> Inr None | Some d \<Rightarrow> and_then (load d) (\<lambda>t. Inr (Some t)))"

definition load_layer :: "model_file \<Rightarrow> TensorStore \<Rightarrow> LlamaLayerTensors \<Rightarrow> LlamaLayerWeights engine_result" where
  "load_layer file store layer =
     (let values_of = (\<lambda>d. load_cpu_f32 file store (td_name d)); linear = (\<lambda>d. load_q8_0_block_backed_linear file store (td_name d)) in
     and_then (load_optional values_of (l_attention_q_norm layer)) (\<lambda>q_norm. and_then (load_optional values_of (l_attention_k_norm layer)) (\<lambda>k_norm.
     and_then (values_of (l_attention_norm layer)) (\<lambda>attention_norm. and_then (linear (l_attention_q layer)) (\<lambda>q.
     and_then (linear (l_attention_k layer)) (\<lambda>k. and_then (linear (l_attention_v layer)) (\<lambda>v.
     and_then (linear (l_attention_output layer)) (\<lambda>attention_output. and_then (values_of (l_ffn_norm layer)) (\<lambda>norm.
     and_then (linear (ffn_gate (l_ffn layer))) (\<lambda>gate. and_then (linear (ffn_up (l_ffn layer))) (\<lambda>up.
     and_then (linear (ffn_down (l_ffn layer))) (\<lambda>down.
     Inr \<lparr>w_attention_norm = attention_norm, w_attention_q = q, w_attention_k = k, w_attention_v = v,
       w_attention_output = attention_output, w_attention_q_norm = q_norm, w_attention_k_norm = k_norm,
       w_ffn_norm = norm, w_ffn_gate = gate, w_ffn_up = up, w_ffn_down = down\<rparr>))))))))))))"

text \<open>A tied projection is read a second time, in its stored orientation.\<close>

definition weights_load :: "model_file \<Rightarrow> TensorStore \<Rightarrow> LlamaTensorBinding \<Rightarrow> LlamaWeights engine_result" where
  "weights_load file store bound =
     and_then (load_q8_0_block_backed_linear file store (td_name (b_token_embedding bound))) (\<lambda>embedding.
     and_then (normalize_token_embedding_shape embedding (td_name (b_token_embedding bound))) (\<lambda>token_embedding.
     and_then (load_cpu_f32 file store (td_name (b_output_norm bound))) (\<lambda>output_norm.
     and_then (if b_output_is_tied_embedding bound
         then load_q8_0_block_backed_linear_as file store (td_name (b_token_embedding bound)) ''output.weight''
         else load_q8_0_block_backed_linear file store (td_name (b_output bound))) (\<lambda>output.
     and_then (load_optional (\<lambda>d. load_cpu_f32 file store (td_name d)) (b_rope_freqs bound)) (\<lambda>rope_freqs.
     and_then (collect_results (map (load_layer file store) (b_layers bound))) (\<lambda>layers.
     Inr \<lparr>w_token_embedding = token_embedding, w_output_norm = output_norm, w_output = Some output, w_rope_freqs = rope_freqs,
       w_layers = layers\<rparr>))))))"

end
