(* ===== verification/WeightsLaws.thy ===== *)
theory WeightsLaws
  imports Weights StoreLaws ModelLaws
begin

text \<open>
  Loading the weights of a bound model: every bound tensor of an accepted file is found and read,
  and the second validation asks for more than binding did in two respects only.
\<close>

section \<open>Shapes of loaded tensors\<close>

lemma load_cpu_f32_shape:
  assumes "load_cpu_f32 file store name = Inr t" "descriptor store name = Inr d"
  shows "t_shape t = td_dimensions d"
  using assms by (auto simp: load_cpu_f32_def from_gguf_dims_def plain_tensor_def and_then_Inr_iff split: if_splits)

lemma from_q8_0_blocks_shape: "from_q8_0_blocks name dims blocks = Inr t \<Longrightarrow> t_shape t = dims"
  by (auto simp: from_q8_0_blocks_def plain_tensor_def and_then_Inr_iff split: if_splits)

lemma load_linear_shape:
  assumes "load_q8_0_block_backed_linear_as file store source name = Inr t" "descriptor store source = Inr d"
  shows "t_shape t = td_dimensions d"
  using assms load_cpu_f32_shape from_q8_0_blocks_shape
  by (auto simp: load_q8_0_block_backed_linear_as_def renamed_def from_gguf_dims_def and_then_Inr_iff split: if_splits)

lemma readable_loads_linear:
  assumes "readable content d" "descriptor store (td_name d) = Inr d" "loadable (td_type d)" "td_type d \<noteq> Q5_1"
  shows "\<exists>t. load_q8_0_block_backed_linear_as (Inr content) store (td_name d) name = Inr t"
proof (cases "td_type d = Q8_0 \<and> length (td_dimensions d) = 2")
  case False
  then show ?thesis using readable_loads [OF assms] assms(2)
    by (auto simp: load_q8_0_block_backed_linear_as_def renamed_def from_gguf_dims_def)
next
  case True
  let ?n = "prod_list (td_dimensions d)" and ?bytes = "take (td_n_bytes d) (drop (td_absolute_offset d) content)"
  from assms(1) have "tensor_nbytes (td_name d) (td_dimensions d) (td_type d) = Inr (td_n_bytes d)" by (simp add: readable_def)
  then obtain l: "32 dvd ?n" "td_n_bytes d = ?n div 32 * 34" "td_n_bytes d \<le> u64_max"
    and count: "shape_element_count (td_dimensions d) = Inr ?n" by (rule nbytes_cases) (use True in simp)
  obtain blocks where "decode_q8_0_blocks (td_name d) ?bytes ?n = Inr blocks" "32 * length blocks = ?n"
    using q8_0_length [of ?n ?bytes "td_name d"] l readable_bytes(2) [OF assms(1,2)] by auto
  then show ?thesis
    using True assms(2) readable_bytes(1) [OF assms(1,2)] count l(1)
    by (auto simp: load_q8_0_block_backed_linear_as_def from_gguf_dims_def from_q8_0_blocks_def)
qed

section \<open>The tensors of a model that is bound\<close>

definition layer_tensors :: "LlamaLayerTensors \<Rightarrow> TensorDescriptor set" where
  "layer_tensors l = (\<lambda>(name, field). field l) ` set LAYER_TENSORS \<union> set_option (l_attention_q_norm l) \<union> set_option (l_attention_k_norm l)"

definition bound_tensors :: "LlamaTensorBinding \<Rightarrow> TensorDescriptor set" where
  "bound_tensors b = {b_token_embedding b, b_output_norm b, b_output b} \<union> set_option (b_rope_freqs b) \<union> \<Union> (layer_tensors ` set (b_layers b))"

lemma find_tensor_in: "find_tensor file name = Some t \<Longrightarrow> t \<in> set (gguf_tensors file) \<and> td_name t = name"
  by (auto simp: find_tensor_def find_Some_iff)

lemma bound_tensors_in:
  assumes "bind file config = Inr b" "t \<in> bound_tensors b"
  shows "t \<in> set (gguf_tensors file)"
proof -
  have named: "model_named file config b" using assms(1) by (simp add: bind_Inr)
  have layer: "u \<in> set (gguf_tensors file)"
    if "l \<in> set (b_layers b)" "u \<in> layer_tensors l" for l u
  proof -
    have len: "length (b_layers b) = block_count config" using named by (simp add: model_named_def Let_def)
    have "l \<in> set (b_layers b)" by (rule that(1))
    then obtain i where i: "i < block_count config" "l = b_layers b ! i" by (auto simp: in_set_conv_nth len)
    have "layer_named file (case architecture file of Some arch \<Rightarrow> arch | None \<Rightarrow> []) i l"
      using bound_layer [OF assms(1) i(1)] i(2) by simp
    then have fields: "\<forall>(name, field) \<in> set LAYER_TENSORS. find_tensor file (block_tensor i name) = Some (field l)"
      and norms: "\<forall>v. l_attention_q_norm l = Some v \<or> l_attention_k_norm l = Some v \<longrightarrow> v \<in> set (gguf_tensors file)"
      using find_tensor_in by (auto simp: layer_named_def Let_def list_all_iff split: if_splits)
    from fields have "(name, field) \<in> set LAYER_TENSORS \<Longrightarrow> field l \<in> set (gguf_tensors file)" for name field using find_tensor_in by fastforce
    then show ?thesis using that(2) norms by (auto simp: layer_tensors_def)
  qed
  have top: "\<And>name u. find_tensor file name = Some u \<Longrightarrow> u \<in> set (gguf_tensors file)" using find_tensor_in by blast
  show ?thesis
    using assms(2) named layer top unfolding bound_tensors_def model_named_def Let_def
    by (auto split: option.splits)
qed

section \<open>The second validation\<close>

definition weight_matrix :: "nat \<Rightarrow> nat \<Rightarrow> CpuTensor \<Rightarrow> bool" where
  "weight_matrix a b t \<longleftrightarrow> t_shape t \<in> {[a, b], [b, a]}"

definition layer_weights_fit :: "DenseLlamaDims \<Rightarrow> LlamaLayerWeights \<Rightarrow> bool" where
  "layer_weights_fit dims l \<longleftrightarrow> (let width = d_embedding_length dims; hidden = d_feed_forward_length dims in
     t_shape (w_attention_norm l) = [width] \<and> weight_matrix width (d_q_width dims) (w_attention_q l) \<and>
     weight_matrix width (d_kv_width dims) (w_attention_k l) \<and> weight_matrix width (d_kv_width dims) (w_attention_v l) \<and>
     weight_matrix (d_q_width dims) width (w_attention_output l) \<and>
     rel_option (\<lambda>q k. t_shape q = [d_head_dim dims] \<and> t_shape k = [d_head_dim dims]) (w_attention_q_norm l) (w_attention_k_norm l) \<and>
     t_shape (w_ffn_norm l) = [width] \<and> weight_matrix width hidden (w_ffn_gate l) \<and>
     weight_matrix width hidden (w_ffn_up l) \<and> weight_matrix hidden width (w_ffn_down l))"

text \<open>Frequency factors are finite and positive.\<close>

definition rope_weights_fit :: "LlamaModelConfig \<Rightarrow> DenseLlamaDims \<Rightarrow> CpuTensor \<Rightarrow> bool" where
  "rope_weights_fit config dims t \<longleftrightarrow> (\<exists>half. t_shape t = [half] \<and> 0 < half \<and> bad_frequency (t_data t) = None \<and>
     (case rope_dimension_count config of Some n \<Rightarrow> n | None \<Rightarrow> d_head_dim dims mod 2 ^ 32) = 2 * half)"

definition weights_fit :: "LlamaModelConfig \<Rightarrow> DenseLlamaDims \<Rightarrow> LlamaWeights \<Rightarrow> bool" where
  "weights_fit config dims w \<longleftrightarrow> (let width = d_embedding_length dims; vocab = d_vocab_size dims in
     t_shape (w_token_embedding w) = [vocab, width] \<and> t_shape (w_output_norm w) = [width] \<and>
     weight_matrix width vocab (output_projection w) \<and> pred_option (rope_weights_fit config dims) (w_rope_freqs w) \<and>
     length (w_layers w) = d_block_count dims \<and> list_all (layer_weights_fit dims) (w_layers w))"

lemma require_tensor_ok: "require_tensor_shape t dims role = Inr () \<longleftrightarrow> t_shape t = dims"
  by (simp add: require_tensor_shape_def)

lemma require_weight_matrix_ok: "require_matrix_shape t a b role = Inr () \<longleftrightarrow> weight_matrix a b t"
  by (auto simp: require_matrix_shape_def weight_matrix_def Let_def)

lemma rope_weights_ok:
  "validate_rope_weights m t r = Inr () \<longleftrightarrow> (\<exists>half. t_shape t = [half] \<and> 0 < half \<and> bad_frequency (t_data t) = None \<and> r = 2 * half)"
proof -
  have "\<not> (r = 0 \<or> odd r) \<longleftrightarrow> (\<exists>h. 0 < h \<and> r = 2 * h)" by presburger
  then show ?thesis by (auto simp: validate_rope_weights_def split: option.splits)
qed

lemma qk_norm_weights_ok:
  "validate_qk_norm_weights dims idx l = Inr () \<longleftrightarrow>
     rel_option (\<lambda>q k. t_shape q = [d_head_dim dims] \<and> t_shape k = [d_head_dim dims]) (w_attention_q_norm l) (w_attention_k_norm l)"
  by (auto simp: validate_qk_norm_weights_def and_then_Inr_iff require_tensor_ok split: option.splits)

lemma layer_weights_ok: "validate_layer_weights dims (idx, l) = Inr () \<longleftrightarrow> layer_weights_fit dims l"
  by (simp add: validate_layer_weights_def layer_weights_fit_def Let_def and_then_Inr_iff require_tensor_ok require_weight_matrix_ok
      qk_norm_weights_ok)

lemma validate_weights_ok:
  "validate_weights m w config = Inr () \<longleftrightarrow> (\<exists>dims. from_config config = Inr dims \<and> weights_fit config dims w)"
proof -
  have layers: "(\<exists>us. collect_results (map (validate_layer_weights dims) (enumerate 0 ls)) = Inr us) \<longleftrightarrow> list_all (layer_weights_fit dims) ls"
    for dims ls
    unfolding collect_units by (auto simp: list_all_length layer_weights_ok nth_enumerate_eq)
  have "validate_weights m w config = Inr () \<longleftrightarrow> weights_fit config dims w" if dims: "from_config config = Inr dims" for dims
    using layers [of dims "w_layers w"]
    by (auto simp: validate_weights_def dims weights_fit_def Let_def and_then_Inr_iff require_tensor_ok require_weight_matrix_ok
        rope_weights_ok rope_weights_fit_def split: option.splits)
  then show ?thesis by (cases "from_config config") (auto simp: validate_weights_def)
qed

section \<open>What is loaded\<close>

lemma load_optional_Inr:
  "load_optional f d = Inr t \<longleftrightarrow> (case d of None \<Rightarrow> t = None | Some x \<Rightarrow> (\<exists>y. f x = Inr y \<and> t = Some y))"
  by (auto simp: load_optional_def and_then_Inr_iff split: option.splits)

lemma load_own_linear_shape:
  "load_q8_0_block_backed_linear file store (td_name d) = Inr t \<Longrightarrow> descriptor store (td_name d) = Inr d \<Longrightarrow> t_shape t = td_dimensions d"
  by (simp add: load_q8_0_block_backed_linear_def load_linear_shape)

lemmas loaded_shapes = load_cpu_f32_shape load_own_linear_shape

lemma load_optional_shape:
  assumes "load_optional (\<lambda>d. load_cpu_f32 file store (td_name d)) d = Inr t" "\<And>x. d = Some x \<Longrightarrow> descriptor store (td_name x) = Inr x"
  shows "rel_option (\<lambda>d t. t_shape t = td_dimensions d) d t"
proof (cases d)
  case None
  then show ?thesis using assms(1) by (simp add: load_optional_def)
next
  case (Some x)
  then obtain y where "load_cpu_f32 file store (td_name x) = Inr y" "t = Some y"
    using assms(1) by (auto simp: load_optional_def and_then_Inr_iff)
  then show ?thesis using Some load_cpu_f32_shape assms(2) by simp
qed

lemma load_layer_parts:
  assumes "load_layer file store l = Inr w"
  shows "load_optional (\<lambda>d. load_cpu_f32 file store (td_name d)) (l_attention_q_norm l) = Inr (w_attention_q_norm w)"
    "load_optional (\<lambda>d. load_cpu_f32 file store (td_name d)) (l_attention_k_norm l) = Inr (w_attention_k_norm w)"
    "load_cpu_f32 file store (td_name (l_attention_norm l)) = Inr (w_attention_norm w)"
    "load_q8_0_block_backed_linear file store (td_name (l_attention_q l)) = Inr (w_attention_q w)"
    "load_q8_0_block_backed_linear file store (td_name (l_attention_k l)) = Inr (w_attention_k w)"
    "load_q8_0_block_backed_linear file store (td_name (l_attention_v l)) = Inr (w_attention_v w)"
    "load_q8_0_block_backed_linear file store (td_name (l_attention_output l)) = Inr (w_attention_output w)"
    "load_cpu_f32 file store (td_name (l_ffn_norm l)) = Inr (w_ffn_norm w)"
    "load_q8_0_block_backed_linear file store (td_name (ffn_gate (l_ffn l))) = Inr (w_ffn_gate w)"
    "load_q8_0_block_backed_linear file store (td_name (ffn_up (l_ffn l))) = Inr (w_ffn_up w)"
    "load_q8_0_block_backed_linear file store (td_name (ffn_down (l_ffn l))) = Inr (w_ffn_down w)"
  using assms by (auto simp: load_layer_def Let_def and_then_Inr_iff)

lemma layer_tensors_members:
  "l_attention_norm l \<in> layer_tensors l" "l_attention_q l \<in> layer_tensors l" "l_attention_k l \<in> layer_tensors l"
  "l_attention_v l \<in> layer_tensors l" "l_attention_output l \<in> layer_tensors l" "l_ffn_norm l \<in> layer_tensors l"
  "ffn_gate (l_ffn l) \<in> layer_tensors l" "ffn_up (l_ffn l) \<in> layer_tensors l" "ffn_down (l_ffn l) \<in> layer_tensors l"
  by (simp_all add: layer_tensors_def LAYER_TENSORS_def)

lemma loaded_layer_fits:
  assumes "load_layer file store l = Inr w" "\<And>d. d \<in> layer_tensors l \<Longrightarrow> descriptor store (td_name d) = Inr d"
  shows "layer_weights_fit dims w \<longleftrightarrow> layer_fits dims l"
proof -
  note parts = load_layer_parts [OF assms(1)]
  note known = layer_tensors_members [THEN assms(2)]
  note shapes = load_cpu_f32_shape [OF parts(3) known(1)] load_own_linear_shape [OF parts(4) known(2)]
    load_own_linear_shape [OF parts(5) known(3)] load_own_linear_shape [OF parts(6) known(4)] load_own_linear_shape [OF parts(7) known(5)]
    load_cpu_f32_shape [OF parts(8) known(6)] load_own_linear_shape [OF parts(9) known(7)] load_own_linear_shape [OF parts(10) known(8)]
    load_own_linear_shape [OF parts(11) known(9)]
  have norms: "rel_option (\<lambda>d t. t_shape t = td_dimensions d) (l_attention_q_norm l) (w_attention_q_norm w)"
    "rel_option (\<lambda>d t. t_shape t = td_dimensions d) (l_attention_k_norm l) (w_attention_k_norm w)"
    using load_optional_shape [OF parts(1)] load_optional_shape [OF parts(2)] assms(2)
    by (simp_all add: layer_tensors_def)
  then have "rel_option (\<lambda>q k. t_shape q = [n] \<and> t_shape k = [n]) (w_attention_q_norm w) (w_attention_k_norm w) \<longleftrightarrow>
      rel_option (\<lambda>q k. is_vector n q \<and> is_vector n k) (l_attention_q_norm l) (l_attention_k_norm l)" for n
    by (cases "l_attention_q_norm l"; cases "l_attention_k_norm l"; cases "w_attention_q_norm w"; cases "w_attention_k_norm w")
      (auto simp: is_vector_def)
  then show ?thesis
    by (simp add: layer_weights_fit_def layer_fits_def shapes weight_matrix_def is_matrix_def is_vector_def Let_def)
qed

text \<open>What it takes to load a tensor.\<close>

definition ready :: "nat list \<Rightarrow> TensorStore \<Rightarrow> TensorDescriptor \<Rightarrow> bool" where
  "ready content store d \<longleftrightarrow> readable content d \<and> descriptor store (td_name d) = Inr d \<and> loadable (td_type d) \<and> td_type d \<noteq> Q5_1"

lemma ready_loads:
  assumes "ready content store d"
  shows "\<exists>t. load_cpu_f32 (Inr content) store (td_name d) = Inr t" "\<exists>t. load_q8_0_block_backed_linear_as (Inr content) store (td_name d) name = Inr t"
    "\<exists>t. load_q8_0_block_backed_linear (Inr content) store (td_name d) = Inr t"
  using assms readable_loads readable_loads_linear unfolding ready_def load_q8_0_block_backed_linear_def by blast+

lemma and_then_exists: "\<exists>t. x = Inr t \<Longrightarrow> (\<And>t. x = Inr t \<Longrightarrow> \<exists>w. f t = Inr w) \<Longrightarrow> \<exists>w. and_then x f = Inr w"
  by auto

lemma ready_optional:
  assumes "\<And>x. d = Some x \<Longrightarrow> ready content store x"
  shows "\<exists>t. load_optional (\<lambda>d. load_cpu_f32 (Inr content) store (td_name d)) d = Inr t"
  using assms ready_loads(1) by (cases d) (auto simp: load_optional_def intro!: and_then_exists)

lemma ready_layer:
  assumes "\<And>d. d \<in> layer_tensors l \<Longrightarrow> ready content store d"
  shows "\<exists>w. load_layer (Inr content) store l = Inr w"
  unfolding load_layer_def Let_def
  by (intro and_then_exists ready_optional ready_loads layer_tensors_members [THEN assms] exI refl assms; simp add: layer_tensors_def assms)

lemma collect_exists: "(\<And>x. x \<in> set xs \<Longrightarrow> \<exists>y. f x = Inr y) \<Longrightarrow> \<exists>ys. collect_results (map f xs) = Inr ys"
  by (induction xs) (auto intro!: and_then_exists)

lemma normalized_embedding:
  assumes "t_shape t \<in> {[a, b], [b, a]}"
  shows "\<exists>t'. normalize_token_embedding_shape t name = Inr t' \<and> t_shape t' = [max a b, min a b]"
  using assms by (auto simp: normalize_token_embedding_shape_def tensor_rank_def)

lemma weights_load_parts:
  assumes "weights_load file store b = Inr w"
  shows "\<exists>t. load_q8_0_block_backed_linear file store (td_name (b_token_embedding b)) = Inr t \<and>
      normalize_token_embedding_shape t (td_name (b_token_embedding b)) = Inr (w_token_embedding w)"
    "load_cpu_f32 file store (td_name (b_output_norm b)) = Inr (w_output_norm w)"
    "(if b_output_is_tied_embedding b then load_q8_0_block_backed_linear_as file store (td_name (b_token_embedding b)) ''output.weight''
      else load_q8_0_block_backed_linear file store (td_name (b_output b))) = Inr (output_projection w)"
    "load_optional (\<lambda>d. load_cpu_f32 file store (td_name d)) (b_rope_freqs b) = Inr (w_rope_freqs w)"
    "collect_results (map (load_layer file store) (b_layers b)) = Inr (w_layers w)"
  using assms by (auto simp: weights_load_def and_then_Inr_iff output_projection_def)

lemma ready_weights:
  assumes "\<And>d. d \<in> bound_tensors b \<Longrightarrow> ready content store d" "is_matrix width vocab (b_token_embedding b)"
  shows "\<exists>w. weights_load (Inr content) store b = Inr w"
proof -
  have known: "ready content store (b_token_embedding b)" "ready content store (b_output_norm b)" "ready content store (b_output b)"
    "\<And>x. b_rope_freqs b = Some x \<Longrightarrow> ready content store x" "\<And>l d. l \<in> set (b_layers b) \<Longrightarrow> d \<in> layer_tensors l \<Longrightarrow> ready content store d"
    using assms(1) by (auto simp: bound_tensors_def)
  have embedding: "\<exists>t'. normalize_token_embedding_shape t name = Inr t'"
    if "load_q8_0_block_backed_linear (Inr content) store (td_name (b_token_embedding b)) = Inr t" for t name
    using normalized_embedding [of t width vocab name] load_own_linear_shape [OF that] known(1) assms(2) by (auto simp: is_matrix_def ready_def)
  have projection: "\<exists>t. (if b_output_is_tied_embedding b then load_q8_0_block_backed_linear_as (Inr content) store (td_name (b_token_embedding b)) ''output.weight''
      else load_q8_0_block_backed_linear (Inr content) store (td_name (b_output b))) = Inr t"
    using ready_loads(2) [OF known(1)] ready_loads(3) [OF known(3)] by simp
  have rope: "\<exists>t. load_optional (\<lambda>d. load_cpu_f32 (Inr content) store (td_name d)) (b_rope_freqs b) = Inr t"
    using ready_optional known(4) by blast
  have layers: "\<exists>ws. collect_results (map (load_layer (Inr content) store) (b_layers b)) = Inr ws"
    using collect_exists [of "b_layers b"] ready_layer known(5) by blast
  show ?thesis unfolding weights_load_def
    by (intro and_then_exists ready_loads(3) [OF known(1)] embedding ready_loads(1) [OF known(2)] projection rope layers) (assumption | simp)+
qed

lemma loaded_weights_fit:
  assumes "weights_load file store b = Inr w" "\<And>d. d \<in> bound_tensors b \<Longrightarrow> descriptor store (td_name d) = Inr d"
    and "model_fits config dims b" "b_output_is_tied_embedding b \<Longrightarrow> b_output b = b_token_embedding b"
  shows "weights_fit config dims w \<longleftrightarrow> d_embedding_length dims \<le> d_vocab_size dims \<and> pred_option (\<lambda>t. bad_frequency (t_data t) = None) (w_rope_freqs w)"
proof -
  note parts = weights_load_parts [OF assms(1)]
  have known: "descriptor store (td_name (b_token_embedding b)) = Inr (b_token_embedding b)" "descriptor store (td_name (b_output_norm b)) = Inr (b_output_norm b)"
    "descriptor store (td_name (b_output b)) = Inr (b_output b)" "\<And>x. b_rope_freqs b = Some x \<Longrightarrow> descriptor store (td_name x) = Inr x"
    "\<And>l d. l \<in> set (b_layers b) \<Longrightarrow> d \<in> layer_tensors l \<Longrightarrow> descriptor store (td_name d) = Inr d"
    using assms(2) by (auto simp: bound_tensors_def)
  let ?width = "d_embedding_length dims" and ?vocab = "d_vocab_size dims"
  have fits: "is_matrix ?width ?vocab (b_token_embedding b)" "is_vector ?width (b_output_norm b)" "is_matrix ?width ?vocab (b_output b)"
    "pred_option (rope_fits config dims) (b_rope_freqs b)" "length (b_layers b) = d_block_count dims" "list_all (layer_fits dims) (b_layers b)"
    using assms(3) by (simp_all add: model_fits_def Let_def)
  have embedding: "t_shape (w_token_embedding w) = [max ?width ?vocab, min ?width ?vocab]"
  proof -
    obtain t where t: "load_q8_0_block_backed_linear file store (td_name (b_token_embedding b)) = Inr t"
      "normalize_token_embedding_shape t (td_name (b_token_embedding b)) = Inr (w_token_embedding w)" using parts(1) by blast
    have "t_shape t \<in> {[?width, ?vocab], [?vocab, ?width]}"
      using load_own_linear_shape [OF t(1) known(1)] fits(1) by (simp add: is_matrix_def)
    from normalized_embedding [OF this, of "td_name (b_token_embedding b)"] t(2) show ?thesis by simp
  qed
  have norm: "t_shape (w_output_norm w) = [?width]" using load_cpu_f32_shape [OF parts(2) known(2)] fits(2) by (simp add: is_vector_def)
  have projection: "t_shape (output_projection w) = td_dimensions (b_output b)"
    using parts(3) load_linear_shape load_own_linear_shape known(1,3) assms(4) by (auto split: if_splits)
  have rope: "rel_option (\<lambda>d t. t_shape t = td_dimensions d) (b_rope_freqs b) (w_rope_freqs w)"
    using load_optional_shape [OF parts(4)] known(4) by blast
  then have rope: "pred_option (rope_weights_fit config dims) (w_rope_freqs w) \<longleftrightarrow> pred_option (\<lambda>t. bad_frequency (t_data t) = None) (w_rope_freqs w)"
    using fits(4) by (cases "b_rope_freqs b"; cases "w_rope_freqs w") (auto simp: rope_weights_fit_def rope_fits_def is_vector_def)
  have layers: "length (w_layers w) = length (b_layers b)" "\<And>i. i < length (b_layers b) \<Longrightarrow> load_layer file store (b_layers b ! i) = Inr (w_layers w ! i)"
    using parts(5) by (auto simp: collect_map list_all_iff)
  have "layer_weights_fit dims (w_layers w ! i)" if "i < length (w_layers w)" for i
  proof -
    have i: "i < length (b_layers b)" using that layers(1) by simp
    show ?thesis using loaded_layer_fits [OF layers(2) [OF i] known(5) [OF nth_mem [OF i]], of dims] fits(6) i by (simp add: list_all_length)
  qed
  then have layers: "length (w_layers w) = d_block_count dims" "list_all (layer_weights_fit dims) (w_layers w)"
    using layers(1) fits(5) by (simp_all add: list_all_length)
  show ?thesis
    using fits(3) layers rope norm projection embedding by (auto simp: weights_fit_def Let_def weight_matrix_def is_matrix_def)
qed

lemma bound_weights_load:
  assumes "read_metadata_with_len path (Inr file, None) (length file) = Inr container"
    and "bind container config = Inr b" "from_config config = Inr dims"
    and "list_all (\<lambda>d. loadable (td_type d) \<and> td_type d \<noteq> Q5_1) (gguf_tensors container)"
  shows "\<exists>w. weights_load (Inr (map of_char file)) (store_open path container) b = Inr w \<and>
     (validate_weights m w config = Inr () \<longleftrightarrow>
        d_embedding_length dims \<le> d_vocab_size dims \<and> pred_option (\<lambda>t. bad_frequency (t_data t) = None) (w_rope_freqs w))"
proof -
  have fits: "model_fits config dims b" using assms(2,3) by (auto simp: bind_Inr validate_ok)
  have tied: "b_output_is_tied_embedding b \<Longrightarrow> b_output b = b_token_embedding b"
    using assms(2) by (auto simp: bind_Inr model_named_def Let_def)
  have ready: "ready (map of_char file) (store_open path container) d" if "d \<in> bound_tensors b" for d
    using bound_tensors_in [OF assms(2) that] assms(4) accepted_file(2) [OF assms(1)] store_open_descriptor [OF accepted_file(1) [OF assms(1)]]
    by (simp add: ready_def list_all_iff)
  then obtain w where w: "weights_load (Inr (map of_char file)) (store_open path container) b = Inr w"
    using ready_weights fits by (fastforce simp: model_fits_def Let_def)
  have "validate_weights m w config = Inr () \<longleftrightarrow> weights_fit config dims w" using assms(3) by (simp add: validate_weights_ok)
  then show ?thesis using w loaded_weights_fit [OF w _ fits tied] ready by (auto simp: ready_def)
qed

text \<open>Property C15: a model file whose tensors bind can be loaded, when every tensor has a storage type with a decoder
  other than Q5_1: every bound tensor is read and decoded. The second validation then accepts the weights exactly when
  the vocabulary is at least as large as the embedding and the frequency factors, if the file has any, are finite
  and positive: a model that binds with a vocabulary smaller than its embedding is refused only after it was read.\<close>

theorem bound_models_load:
  assumes "read_metadata_with_len path (Inr file, None) (length file) = Inr container"
    and "bind container config = Inr b" "from_config config = Inr dims"
    and "list_all (\<lambda>d. loadable (td_type d) \<and> td_type d \<noteq> Q5_1) (gguf_tensors container)"
  shows "\<exists>w. weights_load (Inr (map of_char file)) (store_open path container) b = Inr w \<and>
     (validate_weights m w config = Inr () \<longleftrightarrow>
        d_embedding_length dims \<le> d_vocab_size dims \<and> pred_option (\<lambda>t. bad_frequency (t_data t) = None) (w_rope_freqs w))"
  by (rule bound_weights_load [OF assms])

section \<open>A model file of one block\<close>

definition one_block_tensors :: "(string \<times> nat list \<times> TensorType) list" where
  "one_block_tensors = [(''token_embd.weight'', [4, 6], TF32), (''output_norm.weight'', [4], TF32), (''blk.0.attn_norm.weight'', [4], TF32),
     (''blk.0.attn_q.weight'', [4, 4], TF32), (''blk.0.attn_k.weight'', [4, 2], TF32), (''blk.0.attn_v.weight'', [2, 4], TF32),
     (''blk.0.attn_output.weight'', [4, 4], TF32), (''blk.0.ffn_norm.weight'', [4], TF32),
     (''blk.0.ffn_gate.weight'', [4, 8], TF32), (''blk.0.ffn_up.weight'', [4, 8], TF32), (''blk.0.ffn_down.weight'', [8, 4], TF32)]"

definition one_block_layout :: "raw_tensor list" where
  "one_block_layout = [(''token_embd.weight'', [4, 6], TF32, 0), (''output_norm.weight'', [4], TF32, 96),
     (''blk.0.attn_norm.weight'', [4], TF32, 128), (''blk.0.attn_q.weight'', [4, 4], TF32, 160),
     (''blk.0.attn_k.weight'', [4, 2], TF32, 224), (''blk.0.attn_v.weight'', [2, 4], TF32, 256),
     (''blk.0.attn_output.weight'', [4, 4], TF32, 288), (''blk.0.ffn_norm.weight'', [4], TF32, 352),
     (''blk.0.ffn_gate.weight'', [4, 8], TF32, 384), (''blk.0.ffn_up.weight'', [4, 8], TF32, 512),
     (''blk.0.ffn_down.weight'', [8, 4], TF32, 640)]"

definition one_block_file :: string where
  "one_block_file = written_header 3 [] (laid_out 32 0 one_block_tensors) @ replicate 780 (CHR 0x00)"

definition one_block_container :: GgufFile where
  "one_block_container = \<lparr>gguf_path = ''m.gguf'', gguf_version = word_of_nat 3, gguf_tensor_count = 11,
     gguf_metadata_count = 0, gguf_alignment = 32, gguf_data_start = 672,
     gguf_metadata = Map.empty, gguf_tensors = map (described 672) one_block_layout\<rparr>"

lemma one_block_laid_out: "laid_out 32 0 one_block_tensors = one_block_layout"
  by (simp add: one_block_tensors_def one_block_layout_def nbytes_def elements_def round_up_def)

lemma one_block_header: "length (written_header 3 [] one_block_layout) = 660"
  by (simp add: written_header_def GGUF_MAGIC_def written_tensor_def written_string_def one_block_layout_def)

lemma one_block_accepted:
  "read_metadata_with_len ''m.gguf'' (Inr one_block_file, None) (length one_block_file) = Inr one_block_container"
proof -
  have align: "alignment_of (map_of []) = Inr 32" by (simp add: alignment_of_def DEFAULT_ALIGNMENT_def is_pow2_def upt_rec)
  have ok: "list_all tensor_ok (laid_out 32 0 one_block_tensors)"
    by (simp add: one_block_laid_out one_block_layout_def ascii_is_utf8 MAX_TENSOR_NAME_def MAX_TENSOR_DIMS_def u64_max_def char_code_def)
  have storable: "list_all storable one_block_tensors" "distinct (map fst one_block_tensors)" "length one_block_tensors < 2 ^ 63"
    by (simp_all add: storable_def elements_def u64_max_def nbytes_def one_block_tensors_def)
  have fits: "list_all (\<lambda>t. td_absolute_offset t + td_n_bytes t \<le> 1440) (map (described 672) (laid_out 32 0 one_block_tensors))"
    by (simp add: one_block_laid_out one_block_layout_def described_def nbytes_def elements_def)
  have start: "672 = round_up 32 (length (written_header 3 [] (laid_out 32 0 one_block_tensors)))"
    by (simp add: one_block_laid_out one_block_header round_up_def)
  have n: "length one_block_tensors = 11" by (simp add: one_block_tensors_def)
  have len: "length one_block_file = 1440" by (simp add: one_block_file_def one_block_laid_out one_block_header)
  show ?thesis
    unfolding len unfolding one_block_file_def
    by (subst read_written [where a = 32 and start = 672 and entries = "[]", OF _ _ _ _ align ok storable _ _ start _ fits])
      (simp_all add: one_block_container_def one_block_laid_out u64_max_def one_block_header n)
qed

lemma one_block_dims: "\<exists>dims. from_config tiny_config = Inr dims"
  by (simp add: tiny_config_def sample_config_def from_config_def checked_mul_u64_def u64_max_def)

lemma one_block_binds: "\<exists>b. bind one_block_container tiny_config = Inr b"
  by (simp add: one_block_container_def one_block_layout_def described_def nbytes_def elements_def tiny_config_def sample_config_def bind_def
      required_tensor_def find_tensor_def architecture_def metadata_string_def check_head_lengths_def bind_layer_def bind_qk_norm_def
      block_tensor_def show_nat.simps hex_digit_def Let_def validate_dense_shapes_def from_config_def
      require_descriptor_matrix_shape_def require_descriptor_shape_def validate_output_projection_storage_layout_def checked_mul_u64_def
      u64_max_def validate_rope_freqs_def validate_layer_def validate_qk_norm_def enumerate_Suc_eq)

theorem bound_models_load_witness:
  "\<exists>b w. bind one_block_container tiny_config = Inr b
     \<and> weights_load (Inr (map of_char one_block_file)) (store_open ''m.gguf'' one_block_container) b = Inr w"
proof -
  obtain b dims where b: "bind one_block_container tiny_config = Inr b" "from_config tiny_config = Inr dims"
    using one_block_binds one_block_dims by blast
  have "list_all (\<lambda>d. loadable (td_type d) \<and> td_type d \<noteq> Q5_1) (gguf_tensors one_block_container)"
    by (simp add: one_block_container_def one_block_layout_def described_def loadable_def)
  from bound_models_load [OF one_block_accepted b this] b(1) show ?thesis by blast
qed

end
