(* ===== verification/Forward.thy ===== *)
theory Forward
  imports Weights Q8Dot KvCacheLaws
begin

text \<open>
  The forward pass and the decode loop (\<^verbatim>\<open>engine-core/src/forward/compute.rs\<close>). The decoder is
  passed along; a call that fails leaves its decoder to be dropped, as every caller does. The
  consumer of the tokens has a state of its own, which survives a failure. A token id and a
  position fit their types; the products of widths are those that \<open>from_config\<close> bounded.
\<close>

section \<open>Linear projections\<close>

definition linear_row :: "q8_projection \<Rightarrow> CpuTensor \<Rightarrow> f32 list \<Rightarrow> f32 list run" where
  "linear_row projection weight input =
     (let in_width = length input in
      run_then (require (in_width \<noteq> 0) (ShapeMismatch ''linear projection input row is empty'')) (\<lambda>_.
      case t_q8_0_blocks weight of
        Some blocks \<Rightarrow>
          run_then (require (32 dvd in_width) (ShapeMismatch (''Q8_0 linear input width '' @ show_nat in_width
              @ '' is not block aligned (multiple of 32)''))) (\<lambda>_. let blocks_per_row = in_width div 32 in
          run_then (require (blocks_per_row \<noteq> 0 \<and> blocks_per_row dvd length blocks) (ShapeMismatch (''Q8_0 linear weight '' @ t_name weight
              @ '' block count '' @ show_nat (length blocks) @ '' is not a multiple of '' @ show_nat blocks_per_row @ '' blocks per row''))) (\<lambda>_.
          unwrap (projection blocks blocks_per_row (quantize_q8_0_blocks input) (length blocks div blocks_per_row))))
      | None \<Rightarrow>
          if t_data weight \<noteq> []
          then run_then (require (in_width dvd length (t_data weight)) (ShapeMismatch (''f32 linear weight '' @ t_name weight @ '' data length ''
                 @ show_nat (length (t_data weight)) @ '' is not a multiple of input width '' @ show_nat in_width))) (\<lambda>_.
               run_map (\<lambda>o'. run_then (unwrap (slice (o' * in_width) in_width (t_data weight))) (\<lambda>row. dot_product row input))
                 [0 ..< length (t_data weight) div in_width])
          else fail (InvalidTensorData (''linear weight '' @ t_name weight @ '' has neither Q8_0 blocks nor row-major f32 data''))))"

section \<open>Attention\<close>

text \<open>The softmax of the scores is folded into the weighted sum of the values, in position order.\<close>

definition axpy :: "f32 \<Rightarrow> f32 list \<Rightarrow> f32 list \<Rightarrow> f32 list" where
  "axpy probability value out = map2 (\<lambda>o' v. f32_add o' (f32_mul probability v)) out value @ drop (length value) out"

definition softmax_weights :: "libm \<Rightarrow> f32 list \<Rightarrow> f32 list run" where
  "softmax_weights m scores =
     (let peak = foldl f32_max f32_NEG_INFINITY scores; exps = map (\<lambda>score. m_exp m (f32_sub score peak)) scores;
          total = foldl f32_add 0 exps in
      if f32_eq total 0 \<or> \<not> f32_is_finite total
      then fail (ShapeMismatch ''attention softmax produced an invalid normalization sum'')
      else let inv_sum = f32_div (f32_of_int 1) total in return (map (\<lambda>score. f32_mul score inv_sum) exps))"

definition head_context :: "libm \<Rightarrow> f32 list \<Rightarrow> LlamaKvCache \<Rightarrow> nat \<Rightarrow> nat \<Rightarrow> nat \<Rightarrow> nat \<Rightarrow> f32 list run" where
  "head_context m q_head kv layer_idx position head_dim kv_head =
     (if position + 1 = 1
      then run_then (unwrap (value_row kv layer_idx 0 kv_head)) (\<lambda>row. if length row = head_dim then return row else None)
      else let scale = f32_div (f32_of_int 1) (f32_sqrt (f32_of_nat head_dim)) in
        run_then (run_map (\<lambda>p. run_then (unwrap (key_row kv layer_idx p kv_head)) (\<lambda>key.
            run_then (dot_product q_head key) (\<lambda>score. return (f32_mul score scale)))) [0 ..< position + 1]) (\<lambda>scores.
        run_then (softmax_weights m scores) (\<lambda>probabilities.
        run_fold (\<lambda>(p, probability) out. run_then (unwrap (value_row kv layer_idx p kv_head)) (\<lambda>value. return (axpy probability value out)))
          (enumerate 0 probabilities) (replicate head_dim 0))))"

definition attention_context :: "libm \<Rightarrow> f32 list \<Rightarrow> LlamaKvCache \<Rightarrow> nat \<Rightarrow> nat \<Rightarrow> nat \<Rightarrow> nat \<Rightarrow> nat \<Rightarrow> f32 list run" where
  "attention_context m q kv layer_idx position head_dim kv_head_count head_count =
     (if kv_head_count = 0 then None
      else let repeats = head_count div kv_head_count in
        run_then (run_map (\<lambda>head. if repeats = 0 then None
            else run_then (unwrap (slice (head * head_dim) head_dim q)) (\<lambda>q_head.
              head_context m q_head kv layer_idx position head_dim (head div repeats))) [0 ..< head_count])
          (\<lambda>heads. return (concat heads)))"

section \<open>The decoder\<close>

record Decoder =
  d_weights :: LlamaWeights
  d_config :: LlamaModelConfig
  d_dims :: DenseLlamaDims
  d_head_count :: nat
  d_kv :: LlamaKvCache
  d_projection :: q8_projection

definition with_q8_projection :: "LlamaModelConfig \<Rightarrow> LlamaWeights \<Rightarrow> q8_projection \<Rightarrow> Decoder engine_result" where
  "with_q8_projection config weights projection =
     and_then (from_config config) (\<lambda>dims. and_then (plan_from_config config) (\<lambda>plan. and_then (kv_new plan) (\<lambda>kv.
     Inr \<lparr>d_weights = weights, d_config = config, d_dims = dims, d_head_count = attention_head_count config, d_kv = kv,
       d_projection = projection\<rparr>)))"

definition decoder_new :: "LlamaModelConfig \<Rightarrow> LlamaWeights \<Rightarrow> Decoder engine_result" where
  "decoder_new config weights = with_q8_projection config weights q8_0_project_rows"

text \<open>The rows of one position and layer.\<close>

definition store_heads :: "nat \<Rightarrow> nat \<Rightarrow> nat \<Rightarrow> nat \<Rightarrow> f32 list \<Rightarrow> f32 list \<Rightarrow> LlamaKvCache \<Rightarrow> LlamaKvCache run" where
  "store_heads layer_idx position head_dim kv_head_count k v = run_fold (\<lambda>kv_head kv.
     run_then (unwrap (slice (kv_head * head_dim) head_dim k)) (\<lambda>key.
     run_then (unwrap (slice (kv_head * head_dim) head_dim v)) (\<lambda>value.
     unwrap (store_kv_head_row layer_idx position kv_head key value kv)))) [0 ..< kv_head_count]"

definition qk_normed :: "Decoder \<Rightarrow> LlamaLayerWeights \<Rightarrow> f32 list \<Rightarrow> f32 list \<Rightarrow> (f32 list \<times> f32 list) run" where
  "qk_normed d layer q k = (case (w_attention_q_norm layer, w_attention_k_norm layer) of
       (Some q_norm, Some k_norm) \<Rightarrow> let eps = rms_norm_epsilon (d_config d) in
         run_then (lift (from_f32 ''q'' [1, length q] q)) (\<lambda>q_tensor.
         run_then (per_head_rms_norm q_tensor q_norm (d_head_count d) eps ''q_norm'') (\<lambda>q'.
         run_then (lift (from_f32 ''k'' [1, length k] k)) (\<lambda>k_tensor.
         run_then (per_head_rms_norm k_tensor k_norm (d_attention_head_count_kv (d_dims d)) eps ''k_norm'') (\<lambda>k'.
         return (t_data q', t_data k')))))
     | _ \<Rightarrow> return (q, k))"

text \<open>Steps 1 to 5 of a layer: the attention context and the cache with this position's rows.\<close>

definition attention_block :: "libm \<Rightarrow> Decoder \<Rightarrow> CpuTensor \<Rightarrow> LlamaLayerWeights \<Rightarrow> nat \<Rightarrow> nat \<Rightarrow> LlamaKvCache \<Rightarrow> (f32 list \<times> LlamaKvCache) run" where
  "attention_block m d hidden layer layer_idx position kv =
     (let dims = d_dims d; head_dim = d_head_dim dims; kv_heads = d_attention_head_count_kv dims; heads = d_head_count d;
          linear = linear_row (d_projection d); freqs = w_rope_freqs (d_weights d) in
      run_then (rms_norm hidden (w_attention_norm layer) (rms_norm_epsilon (d_config d)) ''attn_norm'') (\<lambda>attn_norm.
      run_then (linear (w_attention_q layer) (t_data attn_norm)) (\<lambda>q.
      run_then (linear (w_attention_k layer) (t_data attn_norm)) (\<lambda>k.
      run_then (linear (w_attention_v layer) (t_data attn_norm)) (\<lambda>v.
      run_then (qk_normed d layer q k) (\<lambda>(q, k).
      run_then (apply_rope m q position heads (d_config d) freqs) (\<lambda>q.
      run_then (apply_rope m k position kv_heads (d_config d) freqs) (\<lambda>k.
      run_then (store_heads layer_idx position head_dim kv_heads k v kv) (\<lambda>kv.
      run_then (attention_context m q kv layer_idx position head_dim kv_heads heads) (\<lambda>context.
      return (context, kv)))))))))))"

definition ffn_block :: "libm \<Rightarrow> Decoder \<Rightarrow> CpuTensor \<Rightarrow> LlamaLayerWeights \<Rightarrow> CpuTensor run" where
  "ffn_block m d residual layer =
     (let linear = linear_row (d_projection d) in
      run_then (rms_norm residual (w_ffn_norm layer) (rms_norm_epsilon (d_config d)) ''ffn_norm'') (\<lambda>normed.
      run_then (linear (w_ffn_gate layer) (t_data normed)) (\<lambda>gate.
      run_then (linear (w_ffn_up layer) (t_data normed)) (\<lambda>up.
      run_then (lift (from_f32 ''gate'' [1, length gate] gate)) (\<lambda>gate_tensor.
      run_then (lift (from_f32 ''up'' [1, length up] up)) (\<lambda>up_tensor.
      run_then (silu_mul m gate_tensor up_tensor ''swiglu'') (\<lambda>activated.
      run_then (linear (w_ffn_down layer) (t_data activated)) (\<lambda>ffn_out_data.
      run_then (lift (from_f32 ''ffn_out'' [1, length ffn_out_data] ffn_out_data)) (\<lambda>ffn_out.
      tensor_add residual ffn_out ''layer_out'')))))))))"

definition forward_layer :: "libm \<Rightarrow> Decoder \<Rightarrow> CpuTensor \<Rightarrow> LlamaLayerWeights \<Rightarrow> nat \<Rightarrow> nat \<Rightarrow> LlamaKvCache \<Rightarrow> (CpuTensor \<times> LlamaKvCache) run" where
  "forward_layer m d hidden layer layer_idx position kv =
     run_then (attention_block m d hidden layer layer_idx position kv) (\<lambda>(context, kv).
     run_then (linear_row (d_projection d) (w_attention_output layer) context) (\<lambda>attn_out_data.
     run_then (lift (from_f32 ''attn_out'' [1, length attn_out_data] attn_out_data)) (\<lambda>attn_out.
     run_then (tensor_add hidden attn_out ''residual'') (\<lambda>residual.
     run_then (ffn_block m d residual layer) (\<lambda>out. return (out, kv))))))"

definition forward_layers :: "libm \<Rightarrow> Decoder \<Rightarrow> nat \<Rightarrow> CpuTensor \<Rightarrow> LlamaKvCache \<Rightarrow> (CpuTensor \<times> LlamaKvCache) run" where
  "forward_layers m d position hidden kv =
     run_fold (\<lambda>(layer_idx, layer) (hidden, kv). forward_layer m d hidden layer layer_idx position kv)
       (enumerate 0 (w_layers (d_weights d))) (hidden, kv)"

definition logits_of :: "Decoder \<Rightarrow> CpuTensor \<Rightarrow> CpuTensor run" where
  "logits_of d hidden =
     run_then (if t_shape (w_output_norm (d_weights d)) = [0] then return hidden
         else rms_norm hidden (w_output_norm (d_weights d)) (rms_norm_epsilon (d_config d)) ''output_norm'') (\<lambda>normed.
     run_then (linear_row (d_projection d) (output_projection (d_weights d)) (t_data normed)) (\<lambda>out.
     lift (from_f32 ''logits'' [1, d_vocab_size (d_dims d)] out)))"

definition forward_token :: "libm \<Rightarrow> nat \<Rightarrow> bool \<Rightarrow> Decoder \<Rightarrow> (CpuTensor option \<times> Decoder) run" where
  "forward_token m token_id compute_logits d =
     run_then (require (can_append (d_kv d)) (ShapeMismatch (''KV cache is full at context length ''
         @ show_nat (p_max_sequence_length (kv_plan (d_kv d)))))) (\<lambda>_.
     let position = kv_position (d_kv d) in
     run_then (lift (ensure_position_capacity (position + 1) (d_kv d))) (\<lambda>kv.
     run_then (embedding_lookup (w_token_embedding (d_weights d)) [token_id] ''hidden'') (\<lambda>hidden.
     run_then (forward_layers m d position hidden kv) (\<lambda>(hidden, kv).
     run_then (if compute_logits then run_then (logits_of d hidden) (\<lambda>t. return (Some t)) else return None) (\<lambda>logits.
     return (logits, d\<lparr>d_kv := advance_position kv\<rparr>))))))"

section \<open>Sampling\<close>

definition argmax_step :: "nat \<times> f32 \<Rightarrow> nat \<times> f32 \<Rightarrow> nat \<times> f32" where
  "argmax_step best candidate = (if f32_lt (snd best) (snd candidate) then candidate else best)"

definition argmax :: "CpuTensor \<Rightarrow> nat engine_result" where
  "argmax logits =
     (if tensor_rank logits \<noteq> 2 \<or> t_shape logits ! 0 \<noteq> 1
      then Inl (ShapeMismatch (''greedy sampling expects logits shape [1, vocab], got '' @ debug_nats (t_shape logits)))
      else if t_data logits = [] then Inl (ShapeMismatch ''greedy sampling requires a non-empty logits row'')
      else (case find (\<lambda>i. \<not> f32_is_finite (t_data logits ! i)) [0 ..< length (t_data logits)] of
          Some idx \<Rightarrow> Inl (ShapeMismatch (''greedy sampling rejects non-finite logit at index '' @ show_nat idx))
        | None \<Rightarrow> let best_idx = fst (foldl argmax_step (0, f32_NEG_INFINITY) (enumerate 0 (t_data logits))) in
            if best_idx < 2 ^ 32 then Inr best_idx
            else Inl (ShapeMismatch (''argmax index '' @ show_nat best_idx @ '' does not fit u32''))))"

section \<open>The decode loop\<close>

datatype DecodeControl = DecodeContinue | DecodeStop

datatype DecodeStopReason = StopTokenPredicate | StopLength | StopConsumer

record DecodeOutput =
  o_token_ids :: "nat list"
  o_stop_reason :: DecodeStopReason

type_synonym 's consumer = "'s \<Rightarrow> nat \<Rightarrow> 's \<times> DecodeControl engine_result"
type_synonym 's decode_answer = "('s \<times> (DecodeOutput \<times> Decoder) engine_result) option"

text \<open>The tokens of a prompt, without their logits.\<close>

definition prefill :: "libm \<Rightarrow> nat list \<Rightarrow> Decoder \<Rightarrow> Decoder run" where
  "prefill m = run_fold (\<lambda>token d. run_then (forward_token m token False d) (\<lambda>(_, d). return d))"

text \<open>One turn of the loop, with \<open>left\<close> tokens allowed after this one.\<close>

fun decode_loop :: "libm \<Rightarrow> (nat \<Rightarrow> bool) \<Rightarrow> 's consumer \<Rightarrow> nat \<Rightarrow> nat list \<Rightarrow> CpuTensor \<Rightarrow> Decoder \<Rightarrow> 's \<Rightarrow> 's decode_answer" where
  "decode_loop m should_stop on_token left generated logits d s =
     (case argmax logits of
        Inl e \<Rightarrow> Some (s, Inl e)
      | Inr next \<Rightarrow>
          let generated = generated @ [next]; (s, control) = on_token s next;
              finish = (\<lambda>reason. Some (s, Inr (\<lparr>o_token_ids = generated, o_stop_reason = reason\<rparr>, d))) in
          (case control of
             Inl e \<Rightarrow> Some (s, Inl e)
           | Inr control \<Rightarrow>
               if should_stop next then finish StopTokenPredicate
               else if control = DecodeStop then finish StopConsumer
               else (case left of
                   0 \<Rightarrow> finish StopLength
                 | Suc left' \<Rightarrow> (case forward_token m next True d of
                     None \<Rightarrow> None
                   | Some (Inl e) \<Rightarrow> Some (s, Inl e)
                   | Some (Inr (None, _)) \<Rightarrow> None
                   | Some (Inr (Some logits, d)) \<Rightarrow> decode_loop m should_stop on_token left' generated logits d s))))"

declare decode_loop.simps [simp del]

definition generate_until_with_callback :: "libm \<Rightarrow> nat list \<Rightarrow> nat \<Rightarrow> (nat \<Rightarrow> bool) \<Rightarrow> 's consumer \<Rightarrow> Decoder \<Rightarrow> 's \<Rightarrow> 's decode_answer" where
  "generate_until_with_callback m prompt max_new should_stop on_token d s =
     (if prompt = [] then Some (s, Inl (ShapeMismatch ''generate requires a non-empty prompt''))
      else if max_new = 0 then Some (s, Inr (\<lparr>o_token_ids = [], o_stop_reason = StopLength\<rparr>, d))
      else (case run_then (prefill m (butlast prompt) d) (forward_token m (last prompt) True) of
          None \<Rightarrow> None
        | Some (Inl e) \<Rightarrow> Some (s, Inl e)
        | Some (Inr (None, _)) \<Rightarrow> None
        | Some (Inr (Some logits, d)) \<Rightarrow> decode_loop m should_stop on_token (max_new - 1) [] logits d s))"

definition generate_until :: "libm \<Rightarrow> nat list \<Rightarrow> nat \<Rightarrow> (nat \<Rightarrow> bool) \<Rightarrow> Decoder \<Rightarrow> (nat list \<times> Decoder) run" where
  "generate_until m prompt max_new should_stop d =
     (case generate_until_with_callback m prompt max_new should_stop (\<lambda>_ _. ((), Inr DecodeContinue)) d () of
        None \<Rightarrow> None
      | Some (_, Inl e) \<Rightarrow> fail e
      | Some (_, Inr (out, d)) \<Rightarrow> return (o_token_ids out, d))"

definition generate :: "libm \<Rightarrow> nat list \<Rightarrow> nat \<Rightarrow> Decoder \<Rightarrow> (nat list \<times> Decoder) run" where
  "generate m prompt max_new = generate_until m prompt max_new (\<lambda>_. False)"

end
