(* ===== verification/ForwardLaws.thy ===== *)
theory ForwardLaws
  imports Forward Float32Laws
begin

text \<open>
  Greedy decoding: the sampler takes the first of the largest logits, and every token that the decode
  loop emits is the one that a forward pass over the whole text before it would give.
\<close>

section \<open>The order of finite values\<close>

lemma key_order: "f32_key a < f32_key b \<longleftrightarrow> f32_signed a < f32_signed b"
proof -
  have zero: "magnitude 23 0 = 0" by (simp add: magnitude_def)
  have pos: "0 < magnitude 23 n \<longleftrightarrow> 0 < n" for n using magnitude_less_iff [of 23 0 n] by (simp add: zero)
  show ?thesis
    using magnitude_less_iff [of 23 "f32_magnitude a" "f32_magnitude b"] magnitude_less_iff [of 23 "f32_magnitude b" "f32_magnitude a"]
      pos [of "f32_magnitude a"] pos [of "f32_magnitude b"]
    by (auto simp: f32_key_def f32_signed_def f32_units_def f32_negative_def)
qed

lemma finite_not_nan: "f32_is_finite a \<Longrightarrow> \<not> f32_is_nan a"
  by (simp add: f32_is_finite_def f32_is_nan_def)

lemma finite_lt: "f32_is_finite a \<Longrightarrow> f32_is_finite b \<Longrightarrow> f32_lt a b \<longleftrightarrow> f32_signed a < f32_signed b"
  by (simp add: f32_lt_def finite_not_nan key_order)

lemma infinity_lt: "f32_is_finite a \<Longrightarrow> f32_lt f32_NEG_INFINITY a"
proof -
  assume a: "f32_is_finite a"
  have "f32_key f32_NEG_INFINITY = - 0x7F800000" "\<not> f32_is_nan f32_NEG_INFINITY"
    by (simp_all add: f32_key_def f32_NEG_INFINITY_def f32_magnitude_def f32_is_nan_def)
  moreover have "- 0x7F800000 < f32_key a" using a by (simp add: f32_key_def f32_is_finite_def)
  ultimately show ?thesis using a by (simp add: f32_lt_def finite_not_nan)
qed

section \<open>The sampler\<close>

text \<open>The position of the first of the largest values.\<close>

definition first_largest :: "f32 list \<Rightarrow> nat \<Rightarrow> bool" where
  "first_largest xs i \<longleftrightarrow> i < length xs \<and> (\<forall>j<length xs. f32_signed (xs ! j) \<le> f32_signed (xs ! i)) \<and>
     (\<forall>j<i. f32_signed (xs ! j) < f32_signed (xs ! i))"

lemma first_largest_unique: "first_largest xs i \<Longrightarrow> first_largest xs j \<Longrightarrow> i = j"
  unfolding first_largest_def by (metis linorder_neqE_nat not_less)

lemma argmax_scan:
  assumes "list_all f32_is_finite xs" "xs \<noteq> []"
  shows "\<exists>i. foldl argmax_step (0, f32_NEG_INFINITY) (enumerate 0 xs) = (i, xs ! i) \<and> first_largest xs i"
  using assms
proof (induction xs rule: rev_induct)
  case (snoc x xs)
  have x: "f32_is_finite x" using snoc.prems by simp
  show ?case
  proof (cases "xs = []")
    case True
    then show ?thesis using infinity_lt [OF x] by (simp add: argmax_step_def first_largest_def)
  next
    case False
    then obtain i where i: "foldl argmax_step (0, f32_NEG_INFINITY) (enumerate 0 xs) = (i, xs ! i)" "first_largest xs i"
      using snoc by auto
    have less: "f32_lt (xs ! i) x \<longleftrightarrow> f32_signed (xs ! i) < f32_signed x"
      using i(2) snoc.prems x by (intro finite_lt) (auto simp: first_largest_def list_all_iff)
    have step: "foldl argmax_step (0, f32_NEG_INFINITY) (enumerate 0 (xs @ [x])) = argmax_step (i, xs ! i) (length xs, x)"
      by (simp add: enumerate_append_eq i(1))
    show ?thesis
    proof (cases "f32_lt (xs ! i) x")
      case True
      then have "first_largest (xs @ [x]) (length xs)" using i(2) less by (force simp: first_largest_def nth_append)
      moreover have "argmax_step (i, xs ! i) (length xs, x) = (length xs, (xs @ [x]) ! length xs)" using True by (simp add: argmax_step_def)
      ultimately show ?thesis unfolding step by blast
    next
      case False
      then have "first_largest (xs @ [x]) i" using i(2) less by (auto simp: first_largest_def nth_append less_Suc_eq not_less)
      moreover have "argmax_step (i, xs ! i) (length xs, x) = (i, (xs @ [x]) ! i)"
        using False i(2) by (simp add: argmax_step_def first_largest_def nth_append)
      ultimately show ?thesis unfolding step by blast
    qed
  qed
qed simp

text \<open>Also: greedy sampling answers exactly for a non-empty row of finite logits whose choice fits the token type,
  and its answer is the first of the largest logits: equal logits go to the lowest token id.\<close>

theorem argmax_is_the_first_maximum:
  "argmax logits = Inr i \<longleftrightarrow> length (t_shape logits) = 2 \<and> t_shape logits ! 0 = 1 \<and> list_all f32_is_finite (t_data logits)
     \<and> first_largest (t_data logits) i \<and> i < 2 ^ 32"
proof (cases "list_all f32_is_finite (t_data logits) \<and> t_data logits \<noteq> []")
  case False
  then show ?thesis by (auto simp: argmax_def first_largest_def list_all_length find_None_iff split: option.splits)
next
  case True
  then obtain j where j: "fst (foldl argmax_step (0, f32_NEG_INFINITY) (enumerate 0 (t_data logits))) = j" "first_largest (t_data logits) j"
    using argmax_scan [of "t_data logits"] by auto
  have "find (\<lambda>i. \<not> f32_is_finite (t_data logits ! i)) [0 ..< length (t_data logits)] = None"
    using True by (simp add: find_None_iff list_all_length)
  then show ?thesis using True j first_largest_unique by (auto simp: argmax_def tensor_rank_def)
qed

section \<open>The cache's position\<close>

text \<open>What a token leaves as it is: everything of the decoder but the cache's rows and position.\<close>

definition same_model :: "Decoder \<Rightarrow> Decoder \<Rightarrow> bool" where
  "same_model d d' \<longleftrightarrow> d_weights d' = d_weights d \<and> d_config d' = d_config d \<and> d_dims d' = d_dims d \<and> d_head_count d' = d_head_count d
     \<and> d_projection d' = d_projection d \<and> kv_plan (d_kv d') = kv_plan (d_kv d)"

definition same_place :: "LlamaKvCache \<Rightarrow> LlamaKvCache \<Rightarrow> bool" where
  "same_place c c' \<longleftrightarrow> kv_position c' = kv_position c \<and> kv_plan c' = kv_plan c"

lemma run_fold_return:
  assumes "run_fold f xs s = return s'" "\<And>x s s'. x \<in> set xs \<Longrightarrow> Q s \<Longrightarrow> f x s = return s' \<Longrightarrow> Q s'" "Q s"
  shows "Q s'"
  using assms
proof (induction xs arbitrary: s)
  case (Cons x xs)
  from Cons.prems(1) obtain s1 where s1: "f x s = return s1" "run_fold f xs s1 = return s'" by (auto simp: run_then_return)
  have "Q s1" using Cons.prems(2) [of x s s1] Cons.prems(3) s1(1) by simp
  show ?case by (rule Cons.IH [OF s1(2) _ \<open>Q s1\<close>]) (meson Cons.prems(2) list.set_intros(2))
qed simp

lemma run_then_return_right: "run_then r return = r"
  by (simp add: run_then_def return_def split: option.splits sum.splits)

lemma run_fold_single: "run_fold f [x] = f x"
proof
  have "run_fold f [] = return" by (rule ext) simp
  then show "run_fold f [x] s = f x s" for s by (simp add: run_then_return_right)
qed

lemma run_fold_append: "run_fold f (xs @ ys) s = run_then (run_fold f xs s) (run_fold f ys)"
proof (induction xs arbitrary: s)
  case (Cons x xs)
  then have "run_fold f (xs @ ys) = (\<lambda>s. run_then (run_fold f xs s) (run_fold f ys))" by blast
  then show ?case by (simp add: run_then_assoc)
qed simp

lemma unwrap_return [simp]: "unwrap x = return a \<longleftrightarrow> x = Some a"
  by (cases x) simp_all

lemma lift_return [simp]: "lift r = return a \<longleftrightarrow> r = Inr a"
  by (simp add: lift_def return_def)

lemma store_same_place: "store_kv_head_row l p h ks vs c = Some c' \<Longrightarrow> same_place c0 c \<Longrightarrow> same_place c0 c'"
  by (auto simp: store_kv_head_row_def same_place_def Let_def split: option.splits)

lemma same_place_refl: "same_place c c"
  by (simp add: same_place_def)

lemma store_heads_same_place: "store_heads l p n heads k v c = return c' \<Longrightarrow> same_place c c'"
  unfolding store_heads_def
  by (rule run_fold_return [where Q = "same_place c"]) (auto simp: run_then_return same_place_refl dest: store_same_place)

lemma attention_block_same_place: "attention_block m d hidden layer i p c = return (context, c') \<Longrightarrow> same_place c c'"
  by (auto simp: attention_block_def Let_def run_then_return dest: store_heads_same_place)

lemma forward_layer_same_place: "forward_layer m d hidden layer i p c = return (out, c') \<Longrightarrow> same_place c c'"
  by (auto simp: forward_layer_def run_then_return dest: attention_block_same_place)

lemma forward_layers_same_place: "forward_layers m d p hidden c = return (out, c') \<Longrightarrow> same_place c c'"
  unfolding forward_layers_def
  using run_fold_return [where Q = "\<lambda>(h, c'). same_place c c'" and s' = "(out, c')"]
  by (fastforce simp: same_place_def dest: forward_layer_same_place)

lemma ensure_same_place: "ensure_position_capacity n c = Inr c' \<Longrightarrow> same_place c c'"
  by (auto simp: ensure_position_capacity_def same_place_def Let_def and_then_Inr_iff split: if_splits)

lemma forward_token_return:
  "forward_token m token logits d = return (out, d') \<longleftrightarrow> can_append (d_kv d) \<and>
     (\<exists>c h h' c'. ensure_position_capacity (kv_position (d_kv d) + 1) (d_kv d) = Inr c \<and>
        embedding_lookup (w_token_embedding (d_weights d)) [token] ''hidden'' = return h \<and>
        forward_layers m d (kv_position (d_kv d)) h c = return (h', c') \<and>
        (if logits then \<exists>t. logits_of d h' = return t \<and> out = Some t else out = None) \<and> d' = d\<lparr>d_kv := advance_position c'\<rparr>)"
  by (cases logits) (force simp: forward_token_def Let_def run_then_return require_return)+

lemma forward_token_steps:
  assumes "forward_token m token logits d = return (out, d')" "p_max_sequence_length (kv_plan (d_kv d)) \<le> u64_max"
  shows "same_model d d'" "kv_position (d_kv d') = kv_position (d_kv d) + 1" "kv_position (d_kv d') \<le> p_max_sequence_length (kv_plan (d_kv d))"
    "(out = None) = (\<not> logits)"
proof -
  from assms(1) obtain c h h' c' where append: "can_append (d_kv d)" and c: "ensure_position_capacity (kv_position (d_kv d) + 1) (d_kv d) = Inr c"
    and c': "forward_layers m d (kv_position (d_kv d)) h c = return (h', c')" and d': "d' = d\<lparr>d_kv := advance_position c'\<rparr>"
    and out: "(out = None) = (\<not> logits)"
    unfolding forward_token_return by (auto split: if_splits)
  have "same_place (d_kv d) c'" using ensure_same_place [OF c] forward_layers_same_place [OF c'] by (auto simp: same_place_def)
  then show "same_model d d'" "kv_position (d_kv d') = kv_position (d_kv d) + 1"
    "kv_position (d_kv d') \<le> p_max_sequence_length (kv_plan (d_kv d))" "(out = None) = (\<not> logits)"
    using append assms(2) out by (auto simp: d' same_model_def same_place_def advance_position_def can_append_def u64_max_def)
qed

text \<open>Whether the logits are computed does not change the cache.\<close>

lemma forward_token_without_logits:
  "forward_token m token True d = return (out, d') \<Longrightarrow> forward_token m token False d = return (None, d')"
  unfolding forward_token_return by auto

section \<open>Greedy decoding\<close>

text \<open>The logits after a text, from a decoder that has seen what came before it.\<close>

definition logits_after :: "libm \<Rightarrow> Decoder \<Rightarrow> nat list \<Rightarrow> (CpuTensor option \<times> Decoder) run" where
  "logits_after m d tokens = run_then (prefill m (butlast tokens) d) (forward_token m (last tokens) True)"

lemma prefill_snoc: "prefill m (tokens @ [t]) d = run_then (prefill m tokens d) (\<lambda>d. run_then (forward_token m t False d) (\<lambda>(_, d). return d))"
  by (simp add: prefill_def run_fold_append run_fold_single)

lemma prefill_of_logits:
  assumes "logits_after m d tokens = return (out, d')" "tokens \<noteq> []"
  shows "prefill m tokens d = return d'"
proof -
  obtain d1 where "prefill m (butlast tokens) d = return d1" "forward_token m (last tokens) True d1 = return (out, d')"
    using assms(1) by (auto simp: logits_after_def run_then_return)
  then have "prefill m (butlast tokens @ [last tokens]) d = return d'" unfolding prefill_snoc using forward_token_without_logits by simp
  then show ?thesis using assms(2) by simp
qed

lemma logits_after_snoc:
  assumes "logits_after m d tokens = return (out, d')" "tokens \<noteq> []"
  shows "logits_after m d (tokens @ [t]) = forward_token m t True d'"
  using prefill_of_logits [OF assms] by (simp add: logits_after_def)

text \<open>Every token of \<open>chosen\<close> is the sampler's choice for the text before it.\<close>

definition greedy :: "libm \<Rightarrow> Decoder \<Rightarrow> nat list \<Rightarrow> nat list \<Rightarrow> bool" where
  "greedy m d prompt chosen \<longleftrightarrow> (\<forall>i<length chosen. \<exists>logits d'.
     logits_after m d (prompt @ take i chosen) = return (Some logits, d') \<and> argmax logits = Inr (chosen ! i))"

text \<open>What the consumer's state is after it was shown tokens.\<close>

definition shown :: "'s consumer \<Rightarrow> 's \<Rightarrow> nat list \<Rightarrow> 's" where
  "shown on_token = foldl (\<lambda>s t. fst (on_token s t))"

text \<open>Why a generation of these tokens stopped where it did.\<close>

definition stopped_for :: "(nat \<Rightarrow> bool) \<Rightarrow> 's consumer \<Rightarrow> nat \<Rightarrow> 's \<Rightarrow> nat list \<Rightarrow> DecodeStopReason \<Rightarrow> bool" where
  "stopped_for should_stop on_token limit s chosen reason \<longleftrightarrow>
     (\<forall>i<length chosen - 1. \<not> should_stop (chosen ! i) \<and> snd (on_token (shown on_token s (take i chosen)) (chosen ! i)) = Inr DecodeContinue) \<and>
     (case reason of
        StopTokenPredicate \<Rightarrow> should_stop (last chosen)
      | StopConsumer \<Rightarrow> \<not> should_stop (last chosen) \<and> snd (on_token (shown on_token s (butlast chosen)) (last chosen)) = Inr DecodeStop
      | StopLength \<Rightarrow> \<not> should_stop (last chosen) \<and> length chosen = limit)"

lemma greedy_Cons:
  assumes "logits_after m d prompt = return (Some logits, d')" "argmax logits = Inr t" "greedy m d (prompt @ [t]) ts"
  shows "greedy m d prompt (t # ts)"
  unfolding greedy_def
proof (intro allI impI)
  fix i assume "i < length (t # ts)"
  then show "\<exists>logits d'. logits_after m d (prompt @ take i (t # ts)) = return (Some logits, d') \<and> argmax logits = Inr ((t # ts) ! i)"
    using assms by (cases i) (auto simp: greedy_def)
qed

lemma stopped_for_single:
  "stopped_for should_stop on_token limit s [t] reason \<longleftrightarrow> (case reason of
      StopTokenPredicate \<Rightarrow> should_stop t
    | StopConsumer \<Rightarrow> \<not> should_stop t \<and> snd (on_token s t) = Inr DecodeStop
    | StopLength \<Rightarrow> \<not> should_stop t \<and> limit = 1)"
  by (auto simp: stopped_for_def shown_def split: DecodeStopReason.splits)

lemma stopped_for_Cons:
  assumes "\<not> should_stop t" "on_token s t = (s1, Inr DecodeContinue)" "stopped_for should_stop on_token limit s1 ts reason" "ts \<noteq> []"
  shows "stopped_for should_stop on_token (Suc limit) s (t # ts) reason"
proof -
  have first: "shown on_token s (t # us) = shown on_token s1 us" for us using assms(2) by (simp add: shown_def)
  have "\<not> should_stop ((t # ts) ! i) \<and> snd (on_token (shown on_token s (take i (t # ts))) ((t # ts) ! i)) = Inr DecodeContinue"
    if "i < length (t # ts) - 1" for i
    using that assms first by (cases i) (auto simp: stopped_for_def shown_def)
  then show ?thesis using assms(3,4) first by (simp add: stopped_for_def split: DecodeStopReason.splits)
qed

lemma decode_loop_Some:
  "decode_loop m should_stop on_token left generated logits d s = Some (s', Inr (out, d')) \<longleftrightarrow>
     (\<exists>t s1 control. argmax logits = Inr t \<and> on_token s t = (s1, Inr control) \<and>
       (if should_stop t then s' = s1 \<and> d' = d \<and> out = \<lparr>o_token_ids = generated @ [t], o_stop_reason = StopTokenPredicate\<rparr>
        else if control = DecodeStop then s' = s1 \<and> d' = d \<and> out = \<lparr>o_token_ids = generated @ [t], o_stop_reason = StopConsumer\<rparr>
        else (case left of
            0 \<Rightarrow> s' = s1 \<and> d' = d \<and> out = \<lparr>o_token_ids = generated @ [t], o_stop_reason = StopLength\<rparr>
          | Suc left' \<Rightarrow> \<exists>logits1 d1. forward_token m t True d = return (Some logits1, d1) \<and>
              decode_loop m should_stop on_token left' (generated @ [t]) logits1 d1 s1 = Some (s', Inr (out, d')))))"
proof (cases "argmax logits")
  case (Inr t)
  obtain s1 r where on: "on_token s t = (s1, r)" by (cases "on_token s t")
  show ?thesis
  proof (cases r)
    case Inl
    then show ?thesis using Inr on by (simp add: decode_loop.simps)
  next
    case (Inr control)
    then show ?thesis using \<open>argmax logits = Inr t\<close> on
      by (cases left) (auto simp: decode_loop.simps return_def split: option.splits sum.splits prod.splits if_splits)
  qed
qed (simp add: decode_loop.simps)

lemma decode_loop_extends:
  assumes "decode_loop m should_stop on_token left generated logits d s = Some (s', Inr (out, d'))"
  shows "\<exists>chosen. o_token_ids out = generated @ chosen"
  using assms
proof (induction left arbitrary: generated logits d s)
  case 0
  from iffD1 [OF decode_loop_Some this] show ?case by (auto split: if_splits)
next
  case (Suc left)
  from iffD1 [OF decode_loop_Some Suc.prems] Suc.IH show ?case by (fastforce split: if_splits)
qed

lemma decode_loop_greedy:
  assumes "decode_loop m should_stop on_token left generated logits d s = Some (s', Inr (out, d'))"
    and "logits_after m d0 prompt = return (Some logits, d)" "prompt \<noteq> []"
  shows "\<exists>chosen. o_token_ids out = generated @ chosen \<and> chosen \<noteq> [] \<and> length chosen \<le> Suc left \<and> greedy m d0 prompt chosen
     \<and> stopped_for should_stop on_token (Suc left) s chosen (o_stop_reason out) \<and> s' = shown on_token s chosen
     \<and> prefill m (prompt @ butlast chosen) d0 = return d'"
  using assms
proof (induction left arbitrary: generated logits d s prompt)
  case (0 generated logits d s prompt)
  then obtain t s1 control where t: "argmax logits = Inr t" and on: "on_token s t = (s1, Inr control)"
    by (auto simp: decode_loop.simps Let_def split: sum.splits prod.splits)
  have out: "o_token_ids out = generated @ [t]" "s' = s1" "d' = d"
    "o_stop_reason out = (if should_stop t then StopTokenPredicate else if control = DecodeStop then StopConsumer else StopLength)"
    using "0.prems"(1) t on by (auto simp: decode_loop.simps Let_def split: if_splits)
  have "greedy m d0 prompt [t]" using greedy_Cons [OF "0.prems"(2) t, of "[]"] by (simp add: greedy_def)
  moreover have "stopped_for should_stop on_token (Suc 0) s [t] (o_stop_reason out)"
    using on by (auto simp: stopped_for_single out(4))
  ultimately show ?case using out(1-3) on prefill_of_logits [OF "0.prems"(2,3)] by (auto simp: shown_def)
next
  case (Suc left generated logits d s prompt)
  then obtain t s1 control where t: "argmax logits = Inr t" and on: "on_token s t = (s1, Inr control)"
    by (auto simp: decode_loop.simps Let_def split: sum.splits prod.splits)
  have greedy1: "greedy m d0 prompt [t]" using greedy_Cons [OF Suc.prems(2) t, of "[]"] by (simp add: greedy_def)
  show ?case
  proof (cases "should_stop t \<or> control = DecodeStop")
    case True
    then have out: "o_token_ids out = generated @ [t]" "s' = s1" "d' = d"
      "o_stop_reason out = (if should_stop t then StopTokenPredicate else StopConsumer)"
      using Suc.prems(1) t on by (auto simp: decode_loop.simps Let_def split: if_splits)
    have "stopped_for should_stop on_token (Suc (Suc left)) s [t] (o_stop_reason out)"
      using True on by (auto simp: stopped_for_single out(4))
    then show ?thesis using out(1-3) on greedy1 prefill_of_logits [OF Suc.prems(2,3)] by (auto simp: shown_def)
  next
    case False
    then have continue: "\<not> should_stop t" "on_token s t = (s1, Inr DecodeContinue)" using on by (auto intro: DecodeControl.exhaust)
    then obtain logits1 d1 where step: "forward_token m t True d = return (Some logits1, d1)"
      and loop: "decode_loop m should_stop on_token left (generated @ [t]) logits1 d1 s1 = Some (s', Inr (out, d'))"
      using Suc.prems(1) t on
      by (auto simp: decode_loop.simps [of _ _ _ "Suc left"] Let_def return_def split: option.splits sum.splits prod.splits)
    have next': "logits_after m d0 (prompt @ [t]) = return (Some logits1, d1)" using logits_after_snoc [OF Suc.prems(2,3)] step by simp
    from Suc.IH [OF loop next'] obtain chosen where c: "o_token_ids out = (generated @ [t]) @ chosen" "chosen \<noteq> []" "length chosen \<le> Suc left"
      "greedy m d0 (prompt @ [t]) chosen" "stopped_for should_stop on_token (Suc left) s1 chosen (o_stop_reason out)" "s' = shown on_token s1 chosen"
      "prefill m ((prompt @ [t]) @ butlast chosen) d0 = return d'" by auto
    have "stopped_for should_stop on_token (Suc (Suc left)) s (t # chosen) (o_stop_reason out)"
      by (rule stopped_for_Cons [OF continue c(5,2)])
    moreover have "greedy m d0 prompt (t # chosen)" by (rule greedy_Cons [OF Suc.prems(2) t c(4)])
    ultimately show ?thesis using c continue(2) by (intro exI [of _ "t # chosen"]) (auto simp: shown_def)
  qed
qed

lemma generation_loop:
  assumes "generate_until_with_callback m prompt max_new should_stop on_token d s = Some (s', Inr (out, d'))" "0 < max_new"
  shows "o_token_ids out \<noteq> [] \<and> length (o_token_ids out) \<le> max_new \<and> greedy m d prompt (o_token_ids out)
     \<and> stopped_for should_stop on_token max_new s (o_token_ids out) (o_stop_reason out) \<and> s' = shown on_token s (o_token_ids out)"
proof -
  obtain logits d1 where "prompt \<noteq> []" "logits_after m d prompt = return (Some logits, d1)"
    "decode_loop m should_stop on_token (max_new - 1) [] logits d1 s = Some (s', Inr (out, d'))"
    using assms unfolding generate_until_with_callback_def logits_after_def
    by (auto simp: return_def split: if_splits option.splits sum.splits)
  from decode_loop_greedy [OF this(3,2,1)] assms(2) show ?thesis by auto
qed

text \<open>Property C16: every token that the decode loop emits is the first of the largest logits of a forward pass over the
  prompt and all the tokens before it, although each step feeds one token to the cache only; the loop emits at least
  one and at most the allowed number, shows each of them to the consumer in order, and stops at the first token that
  the predicate accepts, that the consumer stops at, or that uses up the allowance, with the reason that says which.\<close>

theorem generation_is_greedy:
  assumes "generate_until_with_callback m prompt max_new should_stop on_token d s = Some (s', Inr (out, d'))" "0 < max_new"
  shows "o_token_ids out \<noteq> [] \<and> length (o_token_ids out) \<le> max_new \<and> greedy m d prompt (o_token_ids out)
     \<and> stopped_for should_stop on_token max_new s (o_token_ids out) (o_stop_reason out) \<and> s' = shown on_token s (o_token_ids out)"
  by (rule generation_loop [OF assms])

lemma prefill_position:
  assumes "prefill m tokens d = return d'" "p_max_sequence_length (kv_plan (d_kv d)) \<le> u64_max"
  shows "same_model d d' \<and> kv_position (d_kv d') = kv_position (d_kv d) + length tokens
    \<and> (tokens \<noteq> [] \<longrightarrow> kv_position (d_kv d') \<le> p_max_sequence_length (kv_plan (d_kv d)))"
  using assms(1)
proof (induction tokens arbitrary: d' rule: rev_induct)
  case Nil
  then show ?case by (simp add: prefill_def same_model_def)
next
  case (snoc t tokens)
  then obtain d1 out where d1: "prefill m tokens d = return d1" "forward_token m t False d1 = return (out, d')"
    by (auto simp: prefill_snoc run_then_return)
  have IH: "same_model d d1" "kv_position (d_kv d1) = kv_position (d_kv d) + length tokens" using snoc.IH [OF d1(1)] by auto
  have "p_max_sequence_length (kv_plan (d_kv d1)) \<le> u64_max" using IH(1) assms(2) by (simp add: same_model_def)
  from forward_token_steps [OF d1(2) this] IH show ?case by (auto simp: same_model_def)
qed

text \<open>Property C21: a generation that succeeds leaves the model as it is and moves the cache by the prompt and every
  emitted token but the last, and never past the context length.\<close>

theorem generation_stays_in_context:
  assumes "generate_until_with_callback m prompt max_new should_stop on_token d s = Some (s', Inr (out, d'))" "0 < max_new"
    and "p_max_sequence_length (kv_plan (d_kv d)) \<le> u64_max"
  shows "same_model d d' \<and> kv_position (d_kv d') = kv_position (d_kv d) + length prompt + (length (o_token_ids out) - 1)
    \<and> kv_position (d_kv d') \<le> p_max_sequence_length (kv_plan (d_kv d))"
proof -
  obtain logits d1 where start: "prompt \<noteq> []" "logits_after m d prompt = return (Some logits, d1)"
    "decode_loop m should_stop on_token (max_new - 1) [] logits d1 s = Some (s', Inr (out, d'))"
    using assms(1,2) unfolding generate_until_with_callback_def logits_after_def
    by (auto simp: return_def split: if_splits option.splits sum.splits)
  from decode_loop_greedy [OF start(3,2,1)] have "prefill m (prompt @ butlast (o_token_ids out)) d = return d'" by auto
  from prefill_position [OF this assms(3)] start(1) show ?thesis by auto
qed

section \<open>A decoder without layers\<close>

text \<open>Four tokens, one dimension, every weight zero: the first token is chosen forever.\<close>

definition zero_tensor :: "string \<Rightarrow> nat list \<Rightarrow> CpuTensor" where
  "zero_tensor name dims = plain_tensor name dims (replicate (prod_list dims) 0)"

definition zero_config :: LlamaModelConfig where
  "zero_config = sample_config\<lparr>context_length := 4, embedding_length := 1, block_count := 1, feed_forward_length := 1,
     attention_head_count := 1, attention_head_count_kv := 1, vocab_size := Some 4\<rparr>"

definition zero_decoder :: Decoder where
  "zero_decoder = \<lparr>d_weights = \<lparr>w_token_embedding = zero_tensor ''e'' [4, 1], w_output_norm = zero_tensor ''n'' [0],
       w_output = None, w_rope_freqs = None, w_layers = []\<rparr>,
     d_config = zero_config, d_dims = \<lparr>d_embedding_length = 1, d_block_count = 1, d_feed_forward_length = 1,
       d_attention_head_count_kv = 1, d_head_dim = 1, d_q_width = 1, d_kv_width = 1, d_vocab_size = 4\<rparr>, d_head_count = 1,
     d_kv = \<lparr>kv_plan = \<lparr>p_max_sequence_length = 4, p_layer_count = 1, p_kv_head_count = 1, p_head_dim = 1\<rparr>,
       kv_keys = [], kv_values = [], kv_allocated = 0, kv_position = 0\<rparr>,
     d_projection = q8_0_project_rows\<rparr>"

definition zero_libm :: libm where
  "zero_libm = \<lparr>m_exp = \<lambda>x. x, m_ln = \<lambda>x. x, m_sin = \<lambda>x. x, m_cos = \<lambda>x. x, m_powf = \<lambda>x y. x, m_show = \<lambda>x. [], m_debug = \<lambda>x. x\<rparr>"

lemma zero_products: "f32_mul 0 0 = 0" "f32_add 0 0 = 0"
  by (simp_all add: f32_mul_def f32_add_def f32_is_nan_def f32_is_inf_def f32_magnitude_def f32_signed_def f32_units_def f32_negative_def
      magnitude_def f32_round_def f32_make_def fp_round_def round_even_def)

lemma zero_hidden:
  assumes "t < 4"
  shows "embedding_lookup (zero_tensor ''e'' [4, 1]) [t] ''hidden'' = return (plain_tensor ''hidden'' [1, 1] [0])"
proof -
  have "checked ''embedding lookup output element count overflow'' 1 1 = return 1" "checked ''embedding lookup row start overflow'' t 1 = return t"
    using assms by (simp_all add: checked_def lift_def return_def ok_or_def checked_mul_u64_def u64_max_def)
  moreover have "slice t 1 (replicate 4 (0 :: f32)) = Some [0]" using assms by (auto simp: slice_def drop_replicate take_replicate)
  ultimately show ?thesis
    using assms by (simp add: embedding_lookup_def zero_tensor_def plain_tensor_def require_rank_def tensor_rank_def dim_def lift_def return_def
        embedding_lookup_rows_def token_in_range_def from_f32_def shape_element_count_def checked_mul_u64_def u64_max_def ok_or_def)
qed

lemma zero_projection: "linear_row p (zero_tensor ''e'' [4, 1]) [0] = return [0, 0, 0, 0]"
  by (simp add: linear_row_def zero_tensor_def plain_tensor_def upt_rec slice_def dot_product_def zero_products numeral_2_eq_2)

definition zero_cache :: "nat \<Rightarrow> LlamaKvCache" where
  "zero_cache n = \<lparr>kv_plan = \<lparr>p_max_sequence_length = 4, p_layer_count = 1, p_kv_head_count = 1, p_head_dim = 1\<rparr>,
     kv_keys = replicate 4 0, kv_values = replicate 4 0, kv_allocated = 4, kv_position = n\<rparr>"

definition zero_logits :: CpuTensor where
  "zero_logits = plain_tensor ''logits'' [1, 4] [0, 0, 0, 0]"

lemma zero_step:
  assumes "ensure_position_capacity (kv_position c + 1) c = Inr (zero_cache n)" "n < 4" "kv_position c = n" "can_append c" "t < 4"
  shows "forward_token zero_libm t True (zero_decoder\<lparr>d_kv := c\<rparr>) = return (Some zero_logits, zero_decoder\<lparr>d_kv := zero_cache (n + 1)\<rparr>)"
proof -
  have weights: "w_token_embedding (d_weights zero_decoder) = zero_tensor ''e'' [4, 1]" "w_layers (d_weights zero_decoder) = []"
    "t_shape (w_output_norm (d_weights zero_decoder)) = [0]" "output_projection (d_weights zero_decoder) = zero_tensor ''e'' [4, 1]"
    "d_vocab_size (d_dims zero_decoder) = 4"
    by (simp_all add: zero_decoder_def zero_tensor_def plain_tensor_def output_projection_def)
  have "lift (from_f32 ''logits'' [1, 4] [0, 0, 0, 0]) = return zero_logits"
    by (simp add: from_f32_def shape_element_count_def checked_mul_u64_def u64_max_def ok_or_def zero_logits_def)
  moreover have "t_data (plain_tensor ''hidden'' [1, 1] [0]) = [0]" by (simp add: plain_tensor_def)
  ultimately have "logits_of zero_decoder (plain_tensor ''hidden'' [1, 1] [0]) = return zero_logits"
    by (simp add: logits_of_def weights zero_projection [unfolded One_nat_def])
  moreover have "advance_position (zero_cache n) = zero_cache (n + 1)" using assms(2) by (simp add: advance_position_def zero_cache_def)
  ultimately show ?thesis
    using assms zero_hidden [OF assms(5)] unfolding forward_token_return
    by (auto simp: forward_layers_def weights logits_of_def)
qed

lemma zero_start: "zero_decoder = zero_decoder\<lparr>d_kv := d_kv zero_decoder\<rparr>"
  by simp

lemma zero_choice: "argmax zero_logits = Inr 0"
  by (simp add: argmax_is_the_first_maximum first_largest_def zero_logits_def plain_tensor_def f32_is_finite_def f32_magnitude_def less_Suc_eq
      numeral_2_eq_2)

definition recording :: "nat list consumer" where
  "recording seen token = (seen @ [token], Inr DecodeContinue)"

lemma zero_generation:
  assumes "\<not> should_stop 0"
  shows "generate_until_with_callback zero_libm [1] 2 should_stop recording zero_decoder [] =
     Some ([0, 0], Inr (\<lparr>o_token_ids = [0, 0], o_stop_reason = StopLength\<rparr>, zero_decoder\<lparr>d_kv := zero_cache 2\<rparr>))"
proof -
  have first: "forward_token zero_libm 1 True zero_decoder = return (Some zero_logits, zero_decoder\<lparr>d_kv := zero_cache 1\<rparr>)"
    using zero_step [of "d_kv zero_decoder" 0 1]
    by (simp add: zero_decoder_def ensure_position_capacity_def grown_length_def GROW_CHUNK_def position_stride_def checked_mul_u64_def
        u64_max_def ok_or_def resize_def zero_cache_def can_append_def)
  have second: "forward_token zero_libm 0 True (zero_decoder\<lparr>d_kv := zero_cache 1\<rparr>) = return (Some zero_logits, zero_decoder\<lparr>d_kv := zero_cache 2\<rparr>)"
    using zero_step [of "zero_cache 1" 1 0] by (simp add: ensure_position_capacity_def zero_cache_def can_append_def numeral_2_eq_2)
  show ?thesis
    unfolding generate_until_with_callback_def
    by (simp add: prefill_def first [unfolded return_def One_nat_def] second [unfolded return_def One_nat_def] zero_choice recording_def
        decode_loop.simps run_then_def return_def assms)
qed

theorem generation_is_greedy_witness:
  "\<exists>out d'. generate_until_with_callback zero_libm [1] 2 (\<lambda>_. False) recording zero_decoder [] = Some ([0, 0], Inr (out, d'))
     \<and> greedy zero_libm zero_decoder [1] [0, 0] \<and> o_stop_reason out = StopLength"
  using generation_is_greedy [OF zero_generation [of "\<lambda>_. False"]] zero_generation [of "\<lambda>_. False"] by auto

theorem generation_stays_in_context_witness:
  "\<exists>(d' :: Decoder). kv_position (d_kv d') = 2 \<and> kv_position (d_kv d') \<le> p_max_sequence_length (kv_plan (d_kv zero_decoder))
     \<and> p_max_sequence_length (kv_plan (d_kv zero_decoder)) = 4"
  using generation_stays_in_context [OF zero_generation [of "\<lambda>_. False"]]
  by (intro exI [of _ "zero_decoder\<lparr>d_kv := zero_cache 2\<rparr>"]) (simp add: zero_decoder_def u64_max_def)

end
