(* ===== verification/Runtime.thy ===== *)
theory Runtime
  imports Forward Spm
begin

text \<open>
  A loaded model and its generations (\<^verbatim>\<open>engine-core/src/runtime.rs\<close>). Every generation has a fresh
  decoder, and with it a fresh cache. The consumer of an incremental generation has a state of its
  own; the state is returned also when the generation fails.
\<close>

section \<open>Data\<close>

datatype FinishReason = FinishEndOfGeneration | FinishLength

record Completion =
  c_prompt_tokens :: "nat list"
  c_generated_tokens :: "nat list"
  c_text :: string
  c_finish_reason :: FinishReason

record TokenDelta =
  delta_token_id :: nat
  delta_text :: string

datatype GenerationControl = GenerationContinue | GenerationCancel

datatype IncrementalGeneration = GenerationCompleted Completion | GenerationCancelled

record LoadedModel =
  lm_source :: string
  lm_name :: "string option"
  lm_architecture :: string
  lm_config :: LlamaModelConfig
  lm_tokenizer :: Tokenizer
  lm_weights :: LlamaWeights
  lm_q8_projection :: q8_projection

section \<open>Loading\<close>

definition from_components ::
  "libm \<Rightarrow> string \<Rightarrow> string option \<Rightarrow> string \<Rightarrow> LlamaModelConfig \<Rightarrow> Tokenizer \<Rightarrow> LlamaWeights \<Rightarrow> q8_projection \<Rightarrow> LoadedModel engine_result" where
  "from_components m path name arch config tk weights projection =
     and_then (validate_weights m weights config) (\<lambda>_.
     and_then (ok_or (InvalidModelMetadata ''vocabulary size is required by the loaded model runtime'') (vocab_size config)) (\<lambda>vocab.
     if length (tk_tokens tk) \<noteq> vocab
     then Inl (InvalidTokenizerMetadata (''tokenizer vocabulary has '' @ show_nat (length (tk_tokens tk))
            @ '' entries but the model expects '' @ show_nat vocab))
     else Inr \<lparr>lm_source = path, lm_name = name, lm_architecture = arch, lm_config = config, lm_tokenizer = tk, lm_weights = weights,
            lm_q8_projection = projection\<rparr>))"

text \<open>The header is read through \<open>header\<close>, with the length that the file system reports, and the tensors through \<open>file\<close>.\<close>

definition load_with_q8_projection ::
  "libm \<Rightarrow> string \<Rightarrow> string engine_result \<times> string option \<Rightarrow> nat engine_result \<Rightarrow> model_file \<Rightarrow> q8_projection \<Rightarrow> LoadedModel engine_result" where
  "load_with_q8_projection m path header len file projection =
     and_then (read_metadata path header len) (\<lambda>container.
     and_then (ok_or (InvalidModelMetadata ''required metadata general.architecture is missing'') (architecture container)) (\<lambda>arch.
     and_then (config_from_gguf container) (\<lambda>config.
     and_then (from_gguf (m_debug m) container) (\<lambda>tk.
     and_then (expand_fused_dense_tensors container config) (\<lambda>_.
     and_then (ModelBinding.bind container config) (\<lambda>bound.
     and_then (weights_load file (store_open path container) bound) (\<lambda>weights.
     from_components m path (model_name container) arch config tk weights projection)))))))"

definition load :: "libm \<Rightarrow> string \<Rightarrow> string engine_result \<times> string option \<Rightarrow> nat engine_result \<Rightarrow> model_file \<Rightarrow> LoadedModel engine_result" where
  "load m path header len file = load_with_q8_projection m path header len file q8_0_project_rows"

section \<open>Generating\<close>

definition encode_prompt :: "char_lib \<Rightarrow> LoadedModel \<Rightarrow> string \<Rightarrow> bool \<Rightarrow> bool \<Rightarrow> nat list run" where
  "encode_prompt lib model prompt add_special parse_special = encode lib (lm_tokenizer model) prompt add_special parse_special"

definition encode_completion :: "char_lib \<Rightarrow> LoadedModel \<Rightarrow> string \<Rightarrow> nat list run" where
  "encode_completion lib model prompt = encode lib (lm_tokenizer model) prompt True False"

definition validate_generation_request :: "LoadedModel \<Rightarrow> nat list \<Rightarrow> nat \<Rightarrow> unit engine_result" where
  "validate_generation_request model prompt_tokens max_new_tokens =
     (if prompt_tokens = [] then Inl (ShapeMismatch ''generation requires a non-empty prompt'')
      else and_then (ok_or (ShapeMismatch ''prompt and generation token counts overflow usize'')
                       (checked_add_u64 (length prompt_tokens) max_new_tokens)) (\<lambda>requested.
        let context = context_length (lm_config model) in
        if requested > context
        then Inl (ShapeMismatch (''prompt tokens ('' @ show_nat (length prompt_tokens) @ '') plus max new tokens ('' @ show_nat max_new_tokens
               @ '') exceed context length '' @ show_nat context))
        else Inr ()))"

definition is_eog :: "LoadedModel \<Rightarrow> nat \<Rightarrow> bool" where
  "is_eog model token \<longleftrightarrow> token \<in> sp_eog (tk_special (lm_tokenizer model))"

definition completed_generation :: "char_lib \<Rightarrow> LoadedModel \<Rightarrow> nat list \<Rightarrow> nat list \<Rightarrow> Completion engine_result" where
  "completed_generation lib model prompt_tokens generated_tokens =
     (let finish = (if generated_tokens \<noteq> [] \<and> is_eog model (last generated_tokens) then FinishEndOfGeneration else FinishLength) in
      and_then (decode lib (lm_tokenizer model) generated_tokens True) (\<lambda>completed.
      Inr \<lparr>c_prompt_tokens = prompt_tokens, c_generated_tokens = generated_tokens, c_text = completed, c_finish_reason = finish\<rparr>))"

definition model_generate :: "char_lib \<Rightarrow> libm \<Rightarrow> LoadedModel \<Rightarrow> nat list \<Rightarrow> nat \<Rightarrow> Completion run" where
  "model_generate lib m model prompt_tokens max_new_tokens =
     run_then (lift (validate_generation_request model prompt_tokens max_new_tokens)) (\<lambda>_.
     run_then (lift (with_q8_projection (lm_config model) (lm_weights model) (lm_q8_projection model))) (\<lambda>decoder.
     run_then (generate_until m prompt_tokens max_new_tokens (is_eog model) decoder) (\<lambda>(generated_tokens, _).
     lift (completed_generation lib model prompt_tokens generated_tokens))))"

text \<open>A consumer of deltas.\<close>

type_synonym 's delta_consumer = "'s \<Rightarrow> TokenDelta \<Rightarrow> 's \<times> GenerationControl"
type_synonym 's generation = "('s \<times> IncrementalGeneration engine_result) option"

text \<open>The consumer of tokens that decodes them: an undecodable token fails, without a delta.\<close>

definition delta_step :: "char_lib \<Rightarrow> LoadedModel \<Rightarrow> 's delta_consumer \<Rightarrow> ('s \<times> IncrementalDecoder) consumer" where
  "delta_step lib model on_token = (\<lambda>(s, decoder) token.
     case push lib (lm_tokenizer model) True token decoder of
       (Inl e, decoder) \<Rightarrow> ((s, decoder), Inl e)
     | (Inr piece, decoder) \<Rightarrow> (case on_token s \<lparr>delta_token_id = token, delta_text = piece\<rparr> of
         (s, control) \<Rightarrow> ((s, decoder), Inr (case control of GenerationContinue \<Rightarrow> DecodeContinue | GenerationCancel \<Rightarrow> DecodeStop))))"

definition generate_incremental :: "char_lib \<Rightarrow> libm \<Rightarrow> LoadedModel \<Rightarrow> nat list \<Rightarrow> nat \<Rightarrow> 's delta_consumer \<Rightarrow> 's \<Rightarrow> 's generation" where
  "generate_incremental lib m model prompt_tokens max_new_tokens on_token s =
     (case and_then (validate_generation_request model prompt_tokens max_new_tokens) (\<lambda>_.
             with_q8_projection (lm_config model) (lm_weights model) (lm_q8_projection model)) of
        Inl e \<Rightarrow> Some (s, Inl e)
      | Inr decoder \<Rightarrow>
          (case generate_until_with_callback m prompt_tokens max_new_tokens (is_eog model) (delta_step lib model on_token) decoder
                  (s, incremental_decoder) of
             None \<Rightarrow> None
           | Some ((s, _), Inl e) \<Rightarrow> Some (s, Inl e)
           | Some ((s, _), Inr (out, _)) \<Rightarrow>
               if o_stop_reason out = StopConsumer then Some (s, Inr GenerationCancelled)
               else Some (s, and_then (completed_generation lib model prompt_tokens (o_token_ids out)) (\<lambda>c. Inr (GenerationCompleted c)))))"

section \<open>Completing a text\<close>

definition complete_prompt :: "char_lib \<Rightarrow> libm \<Rightarrow> LoadedModel \<Rightarrow> string \<Rightarrow> bool \<Rightarrow> bool \<Rightarrow> nat \<Rightarrow> Completion run" where
  "complete_prompt lib m model prompt add_special parse_special max_new_tokens =
     run_then (encode_prompt lib model prompt add_special parse_special) (\<lambda>prompt_tokens. model_generate lib m model prompt_tokens max_new_tokens)"

definition model_complete :: "char_lib \<Rightarrow> libm \<Rightarrow> LoadedModel \<Rightarrow> string \<Rightarrow> nat \<Rightarrow> Completion run" where
  "model_complete lib m model prompt max_new_tokens =
     run_then (encode_completion lib model prompt) (\<lambda>prompt_tokens. model_generate lib m model prompt_tokens max_new_tokens)"

definition incremental_of :: "char_lib \<Rightarrow> libm \<Rightarrow> LoadedModel \<Rightarrow> nat list run \<Rightarrow> nat \<Rightarrow> 's delta_consumer \<Rightarrow> 's \<Rightarrow> 's generation" where
  "incremental_of lib m model tokens max_new_tokens on_token s = (case tokens of
       None \<Rightarrow> None
     | Some (Inl e) \<Rightarrow> Some (s, Inl e)
     | Some (Inr prompt_tokens) \<Rightarrow> generate_incremental lib m model prompt_tokens max_new_tokens on_token s)"

definition complete_incremental :: "char_lib \<Rightarrow> libm \<Rightarrow> LoadedModel \<Rightarrow> string \<Rightarrow> nat \<Rightarrow> 's delta_consumer \<Rightarrow> 's \<Rightarrow> 's generation" where
  "complete_incremental lib m model prompt max_new_tokens on_token s =
     incremental_of lib m model (encode_completion lib model prompt) max_new_tokens on_token s"

definition complete_prompt_incremental ::
  "char_lib \<Rightarrow> libm \<Rightarrow> LoadedModel \<Rightarrow> string \<Rightarrow> bool \<Rightarrow> bool \<Rightarrow> nat \<Rightarrow> 's delta_consumer \<Rightarrow> 's \<Rightarrow> 's generation" where
  "complete_prompt_incremental lib m model prompt add_special parse_special max_new_tokens on_token s =
     incremental_of lib m model (encode_prompt lib model prompt add_special parse_special) max_new_tokens on_token s"

end
