(* ===== verification/RuntimeLaws.thy ===== *)
theory RuntimeLaws
  imports Runtime ForwardLaws TokenizerLaws
begin

text \<open>
  Generations of a loaded model: what a completion contains, and the agreement of the whole and the
  incremental way to it.
\<close>

section \<open>Consumers that do not stop a generation\<close>

definition keeps_going :: "'s consumer \<Rightarrow> 's \<Rightarrow> nat list \<Rightarrow> bool" where
  "keeps_going on_token s tokens \<longleftrightarrow> (\<forall>i<length tokens. snd (on_token (shown on_token s (take i tokens)) (tokens ! i)) = Inr DecodeContinue)"

lemma keeps_going_Cons:
  "keeps_going on_token s (t # ts) \<longleftrightarrow> snd (on_token s t) = Inr DecodeContinue \<and> keeps_going on_token (fst (on_token s t)) ts"
  unfolding keeps_going_def by (auto simp: All_less_Suc2 shown_def)

lemma decode_loop_other_consumer:
  assumes "decode_loop m should_stop on_a left generated logits d s = Some (s', Inr (out, d'))" "o_stop_reason out \<noteq> StopConsumer"
    and "o_token_ids out = generated @ chosen" "keeps_going on_b t chosen"
  shows "decode_loop m should_stop on_b left generated logits d t = Some (shown on_b t chosen, Inr (out, d'))"
  using assms
proof (induction left arbitrary: generated logits d s t chosen)
  case (0 generated logits d s t chosen)
  then obtain tok sa control where a: "argmax logits = Inr tok" "on_a s tok = (sa, Inr control)"
    by (auto simp: decode_loop.simps Let_def split: sum.splits prod.splits)
  then have chosen: "chosen = [tok]" and out: "out = \<lparr>o_token_ids = generated @ [tok], o_stop_reason = if should_stop tok then StopTokenPredicate else StopLength\<rparr>" "d' = d"
    using "0.prems" by (auto simp: decode_loop.simps Let_def split: if_splits)
  obtain tb where b: "on_b t tok = (tb, Inr DecodeContinue)"
    using "0.prems"(4) unfolding chosen keeps_going_Cons by (cases "on_b t tok") simp
  show ?case using a(1) b by (simp add: decode_loop.simps chosen out shown_def)
next
  case (Suc left generated logits d s t chosen)
  then obtain tok sa control where a: "argmax logits = Inr tok" "on_a s tok = (sa, Inr control)"
    by (auto simp: decode_loop.simps Let_def split: sum.splits prod.splits)
  show ?case
  proof (cases "should_stop tok")
    case True
    then have chosen: "chosen = [tok]" and out: "out = \<lparr>o_token_ids = generated @ [tok], o_stop_reason = StopTokenPredicate\<rparr>" "d' = d"
      using Suc.prems a by (auto simp: decode_loop.simps Let_def split: if_splits)
    obtain tb where b: "on_b t tok = (tb, Inr DecodeContinue)"
      using Suc.prems(4) unfolding chosen keeps_going_Cons by (cases "on_b t tok") simp
    show ?thesis using a(1) b True by (simp add: decode_loop.simps chosen out shown_def)
  next
    case False
    then have "control \<noteq> DecodeStop" using Suc.prems(1,2) a by (auto simp: decode_loop.simps Let_def)
    then obtain logits1 d1 where step: "forward_token m tok True d = return (Some logits1, d1)"
      and loop: "decode_loop m should_stop on_a left (generated @ [tok]) logits1 d1 sa = Some (s', Inr (out, d'))"
      using Suc.prems(1) a False
      by (auto simp: decode_loop.simps [of _ _ _ "Suc left"] Let_def return_def split: option.splits sum.splits prod.splits)
    obtain more_tokens where ids: "o_token_ids out = (generated @ [tok]) @ more_tokens"
      using decode_loop_extends [OF loop] by auto
    then have chosen: "chosen = tok # more_tokens" using Suc.prems(3) by simp
    obtain tb where b: "on_b t tok = (tb, Inr DecodeContinue)" "keeps_going on_b tb more_tokens"
      using Suc.prems(4) unfolding chosen keeps_going_Cons by (cases "on_b t tok") simp
    show ?thesis
      using Suc.IH [OF loop Suc.prems(2) ids b(2)] a(1) b(1) False step
      by (simp add: decode_loop.simps [of _ _ _ "Suc left"] chosen shown_def return_def)
  qed
qed

lemma callback_other_consumer:
  assumes "generate_until_with_callback m prompt n should_stop on_a d s = Some (s', Inr (out, d'))" "o_stop_reason out \<noteq> StopConsumer"
    and "keeps_going on_b t (o_token_ids out)"
  shows "generate_until_with_callback m prompt n should_stop on_b d t = Some (shown on_b t (o_token_ids out), Inr (out, d'))"
proof (cases "n = 0")
  case True
  then show ?thesis using assms(1) by (auto simp: generate_until_with_callback_def shown_def split: if_splits)
next
  case False
  then obtain logits d1 where start: "prompt \<noteq> []" "run_then (prefill m (butlast prompt) d) (forward_token m (last prompt) True) = Some (Inr (Some logits, d1))"
    and loop: "decode_loop m should_stop on_a (n - 1) [] logits d1 s = Some (s', Inr (out, d'))"
    using assms(1) unfolding generate_until_with_callback_def by (auto split: if_splits option.splits sum.splits)
  show ?thesis
    using decode_loop_other_consumer [OF loop assms(2) _ assms(3)] start False by (simp add: generate_until_with_callback_def)
qed

section \<open>Deltas\<close>

text \<open>A consumer of deltas that never cancels, and its state after some deltas.\<close>

definition never_cancels :: "'s delta_consumer \<Rightarrow> bool" where
  "never_cancels on_token \<longleftrightarrow> (\<forall>s delta. snd (on_token s delta) = GenerationContinue)"

definition after_deltas :: "'s delta_consumer \<Rightarrow> 's \<Rightarrow> TokenDelta list \<Rightarrow> 's" where
  "after_deltas on_token = foldl (\<lambda>s delta. fst (on_token s delta))"

lemma deltas_of_tokens:
  assumes "never_cancels on_token"
  shows "decode lib (lm_tokenizer model) before True = Inr s0 \<Longrightarrow> decode lib (lm_tokenizer model) (before @ ids) True = Inr decoded \<Longrightarrow>
    \<exists>deltas. keeps_going (delta_step lib model on_token) (s, \<lparr>inc_ids = before, inc_emitted = s0\<rparr>) ids \<and>
      shown (delta_step lib model on_token) (s, \<lparr>inc_ids = before, inc_emitted = s0\<rparr>) ids
        = (after_deltas on_token s deltas, \<lparr>inc_ids = before @ ids, inc_emitted = decoded\<rparr>) \<and>
      map delta_token_id deltas = ids \<and> decoded = s0 @ concat (map delta_text deltas)"
proof (induction ids arbitrary: before s0 s)
  case Nil
  then show ?case by (simp add: keeps_going_def shown_def after_deltas_def)
next
  case (Cons i ids)
  let ?tk = "lm_tokenizer model"
  have split: "decode lib ?tk ((before @ [i]) @ ids) True = Inr decoded" using Cons.prems(2) by simp
  from decode_of_prefix [OF this] obtain s1 where s1: "decode lib ?tk (before @ [i]) True = Inr s1" by blast
  from decode_extends [OF this] Cons.prems(1) have e: "s1 = s0 @ drop (length s0) s1" by (auto simp: extends_def)
  let ?delta = "\<lparr>delta_token_id = i, delta_text = drop (length s0) s1\<rparr>"
  have step: "delta_step lib model on_token (s, \<lparr>inc_ids = before, inc_emitted = s0\<rparr>) i
      = ((fst (on_token s ?delta), \<lparr>inc_ids = before @ [i], inc_emitted = s1\<rparr>), Inr DecodeContinue)"
    using push_decodes [OF Cons.prems(1), of i] s1 assms
    by (auto simp: delta_step_def never_cancels_def split: prod.splits) (metis GenerationControl.simps(3) snd_conv)+
  from Cons.IH [OF s1 split, of "fst (on_token s ?delta)"] obtain deltas where d:
    "keeps_going (delta_step lib model on_token) (fst (on_token s ?delta), \<lparr>inc_ids = before @ [i], inc_emitted = s1\<rparr>) ids"
    "shown (delta_step lib model on_token) (fst (on_token s ?delta), \<lparr>inc_ids = before @ [i], inc_emitted = s1\<rparr>) ids
      = (after_deltas on_token (fst (on_token s ?delta)) deltas, \<lparr>inc_ids = (before @ [i]) @ ids, inc_emitted = decoded\<rparr>)"
    "map delta_token_id deltas = ids" "decoded = s1 @ concat (map delta_text deltas)" by blast
  show ?case
  proof (intro exI [of _ "?delta # deltas"] conjI)
    show "keeps_going (delta_step lib model on_token) (s, \<lparr>inc_ids = before, inc_emitted = s0\<rparr>) (i # ids)"
      unfolding keeps_going_Cons step using d(1) by simp
    show "shown (delta_step lib model on_token) (s, \<lparr>inc_ids = before, inc_emitted = s0\<rparr>) (i # ids)
        = (after_deltas on_token s (?delta # deltas), \<lparr>inc_ids = before @ i # ids, inc_emitted = decoded\<rparr>)"
      using d(2) step by (simp add: shown_def after_deltas_def)
    show "map delta_token_id (?delta # deltas) = i # ids" using d(3) by simp
    show "decoded = s0 @ concat (map delta_text (?delta # deltas))" using d(4) e by (metis append.assoc concat.simps(2) list.simps(9) TokenDelta.select_convs(2))
  qed
qed

section \<open>Whole and incremental generations\<close>

lemma generate_until_return:
  "generate_until m prompt n should_stop d = return (ids, d') \<longleftrightarrow>
     (\<exists>out. generate_until_with_callback m prompt n should_stop (\<lambda>_ _. ((), Inr DecodeContinue)) d () = Some ((), Inr (out, d')) \<and> ids = o_token_ids out)"
  unfolding generate_until_def by (auto split: option.splits sum.splits)

lemma model_generate_Some:
  "model_generate lib m model prompt n = Some (Inr c) \<longleftrightarrow> validate_generation_request model prompt n = Inr () \<and>
     (\<exists>d d' out. with_q8_projection (lm_config model) (lm_weights model) (lm_q8_projection model) = Inr d \<and>
       generate_until_with_callback m prompt n (is_eog model) (\<lambda>_ _. ((), Inr DecodeContinue)) d () = Some ((), Inr (out, d')) \<and>
       completed_generation lib model prompt (o_token_ids out) = Inr c)"
proof -
  have "model_generate lib m model prompt n = return c \<longleftrightarrow> validate_generation_request model prompt n = Inr () \<and>
     (\<exists>d. with_q8_projection (lm_config model) (lm_weights model) (lm_q8_projection model) = Inr d \<and>
       (\<exists>ids d'. generate_until m prompt n (is_eog model) d = return (ids, d') \<and> completed_generation lib model prompt ids = Inr c))"
    unfolding model_generate_def by (auto simp: run_then_return)
  then show ?thesis unfolding generate_until_return by (simp add: return_def) blast
qed

lemma quiet_keeps_going: "keeps_going (\<lambda>_ _. ((), Inr DecodeContinue)) () ids"
  by (simp add: keeps_going_def)

lemma quiet_reason:
  assumes "generate_until_with_callback m prompt n should_stop (\<lambda>_ _. ((), Inr DecodeContinue)) d () = Some (s', Inr (out, d'))"
  shows "o_stop_reason out \<noteq> StopConsumer"
proof (cases "n = 0")
  case True
  then show ?thesis using assms by (auto simp: generate_until_with_callback_def split: if_splits)
next
  case False
  then have "0 < n" by simp
  from generation_loop [OF assms this] show ?thesis by (auto simp: stopped_for_def split: DecodeStopReason.splits)
qed

lemma completed_text:
  "completed_generation lib model prompt ids = Inr c \<Longrightarrow>
     decode lib (lm_tokenizer model) ids True = Inr (c_text c) \<and> c_generated_tokens c = ids \<and> c_prompt_tokens c = prompt \<and>
     c_finish_reason c = (if ids \<noteq> [] \<and> is_eog model (last ids) then FinishEndOfGeneration else FinishLength)"
  by (auto simp: completed_generation_def Let_def and_then_Inr_iff)

lemma generate_incremental_completed:
  "generate_incremental lib m model prompt n on_token s = Some (s', Inr (GenerationCompleted c)) \<longleftrightarrow>
     validate_generation_request model prompt n = Inr () \<and>
     (\<exists>d d' out dec. with_q8_projection (lm_config model) (lm_weights model) (lm_q8_projection model) = Inr d \<and>
       generate_until_with_callback m prompt n (is_eog model) (delta_step lib model on_token) d (s, incremental_decoder) = Some ((s', dec), Inr (out, d')) \<and>
       o_stop_reason out \<noteq> StopConsumer \<and> completed_generation lib model prompt (o_token_ids out) = Inr c)"
proof -
  have "(\<exists>c'. Inr (GenerationCompleted c) = and_then r (\<lambda>c. Inr (GenerationCompleted c)) ) \<longleftrightarrow> r = Inr c" for r :: "Completion engine_result"
    by (cases r) auto
  then show ?thesis
    by (cases "validate_generation_request model prompt n"; cases "with_q8_projection (lm_config model) (lm_weights model) (lm_q8_projection model)")
      (auto simp: generate_incremental_def and_then_Inr_iff split: option.splits sum.splits prod.splits if_splits)
qed

text \<open>Property C17: generating incrementally, for a consumer that never cancels, succeeds exactly when generating at once
  does, with the same completion; the consumer has then been shown one delta for every generated token, in order, and
  the texts of the deltas put together are the text of the completion.\<close>

theorem incremental_generation_is_generation:
  assumes "never_cancels on_token"
  shows "model_generate lib m model prompt n = Some (Inr c) \<longleftrightarrow>
    (\<exists>deltas. generate_incremental lib m model prompt n on_token s = Some (after_deltas on_token s deltas, Inr (GenerationCompleted c))
       \<and> map delta_token_id deltas = c_generated_tokens c \<and> concat (map delta_text deltas) = c_text c)"
proof
  assume "model_generate lib m model prompt n = Some (Inr c)"
  then obtain d d' out where valid: "validate_generation_request model prompt n = Inr ()"
    and d: "with_q8_projection (lm_config model) (lm_weights model) (lm_q8_projection model) = Inr d"
    and run: "generate_until_with_callback m prompt n (is_eog model) (\<lambda>_ _. ((), Inr DecodeContinue)) d () = Some ((), Inr (out, d'))"
    and finished: "completed_generation lib model prompt (o_token_ids out) = Inr c" unfolding model_generate_Some by blast
  from completed_text [OF finished] have "decode lib (lm_tokenizer model) ([] @ o_token_ids out) True = Inr (c_text c)" by simp
  from deltas_of_tokens [OF assms decode_nothing this, of s] obtain deltas where deltas:
    "keeps_going (delta_step lib model on_token) (s, incremental_decoder) (o_token_ids out)"
    "fst (shown (delta_step lib model on_token) (s, incremental_decoder) (o_token_ids out)) = after_deltas on_token s deltas"
    "map delta_token_id deltas = o_token_ids out" "c_text c = concat (map delta_text deltas)"
    unfolding incremental_decoder_def by auto
  from callback_other_consumer [OF run quiet_reason [OF run] deltas(1)] deltas(2)
  have "generate_incremental lib m model prompt n on_token s = Some (after_deltas on_token s deltas, Inr (GenerationCompleted c))"
    unfolding generate_incremental_completed using valid d quiet_reason [OF run] finished by (metis prod.collapse)
  then show "\<exists>deltas. generate_incremental lib m model prompt n on_token s = Some (after_deltas on_token s deltas, Inr (GenerationCompleted c))
       \<and> map delta_token_id deltas = c_generated_tokens c \<and> concat (map delta_text deltas) = c_text c"
    using deltas(3,4) completed_text [OF finished] by auto
next
  assume "\<exists>deltas. generate_incremental lib m model prompt n on_token s = Some (after_deltas on_token s deltas, Inr (GenerationCompleted c))
       \<and> map delta_token_id deltas = c_generated_tokens c \<and> concat (map delta_text deltas) = c_text c"
  then obtain s' where "generate_incremental lib m model prompt n on_token s = Some (s', Inr (GenerationCompleted c))" by blast
  then obtain d d' out dec where "validate_generation_request model prompt n = Inr ()"
    and "with_q8_projection (lm_config model) (lm_weights model) (lm_q8_projection model) = Inr d"
    and run: "generate_until_with_callback m prompt n (is_eog model) (delta_step lib model on_token) d (s, incremental_decoder) = Some ((s', dec), Inr (out, d'))"
    and reason: "o_stop_reason out \<noteq> StopConsumer" and "completed_generation lib model prompt (o_token_ids out) = Inr c"
    unfolding generate_incremental_completed by blast
  then show "model_generate lib m model prompt n = Some (Inr c)"
    unfolding model_generate_Some using callback_other_consumer [OF run reason quiet_keeps_going] by auto
qed

text \<open>Property C18: a completed generation had a prompt, never asks for more than the context holds, generates no more tokens
  than were allowed, of which only the last can be an end of generation; its finish reason says whether it is one, and
  otherwise the allowance was used up; its text is the decoded tokens.\<close>

theorem completions_fit_the_context:
  assumes "model_generate lib m model prompt n = Some (Inr c)"
  shows "prompt \<noteq> [] \<and> length prompt + n \<le> context_length (lm_config model) \<and> c_prompt_tokens c = prompt \<and>
    length (c_generated_tokens c) \<le> n \<and> list_all (\<lambda>t. \<not> is_eog model t) (butlast (c_generated_tokens c)) \<and>
    (c_finish_reason c = FinishEndOfGeneration \<longleftrightarrow> c_generated_tokens c \<noteq> [] \<and> is_eog model (last (c_generated_tokens c))) \<and>
    (c_finish_reason c = FinishLength \<longrightarrow> length (c_generated_tokens c) = n) \<and>
    decode lib (lm_tokenizer model) (c_generated_tokens c) True = Inr (c_text c)"
proof -
  from assms obtain d d' out where valid: "validate_generation_request model prompt n = Inr ()"
    and run: "generate_until_with_callback m prompt n (is_eog model) (\<lambda>_ _. ((), Inr DecodeContinue)) d () = Some ((), Inr (out, d'))"
    and finished: "completed_generation lib model prompt (o_token_ids out) = Inr c" unfolding model_generate_Some by blast
  have fits: "prompt \<noteq> []" "length prompt + n \<le> context_length (lm_config model)"
    using valid by (auto simp: validate_generation_request_def Let_def and_then_Inr_iff ok_or_Inr_iff checked_add_u64_def split: if_splits)
  have tokens: "length (o_token_ids out) \<le> n \<and> list_all (\<lambda>t. \<not> is_eog model t) (butlast (o_token_ids out)) \<and>
      (o_token_ids out = [] \<or> \<not> is_eog model (last (o_token_ids out)) \<longrightarrow> length (o_token_ids out) = n)"
  proof (cases "n = 0")
    case True
    then show ?thesis using run by (auto simp: generate_until_with_callback_def split: if_splits)
  next
    case False
    then have "0 < n" by simp
    from generation_loop [OF run this] quiet_reason [OF run] show ?thesis
      by (auto simp: stopped_for_def list_all_length nth_butlast split: DecodeStopReason.splits)
  qed
  show ?thesis using fits tokens completed_text [OF finished] by (auto split: if_splits)
qed

section \<open>A small loaded model\<close>

definition zero_model :: LoadedModel where
  "zero_model = \<lparr>lm_source = ''m.gguf'', lm_name = None, lm_architecture = ''llama'', lm_config = zero_config, lm_tokenizer = demo_tokenizer,
     lm_weights = d_weights zero_decoder, lm_q8_projection = q8_0_project_rows\<rparr>"

definition zero_completion :: Completion where
  "zero_completion = \<lparr>c_prompt_tokens = [1], c_generated_tokens = [0, 0], c_text = ''hh'', c_finish_reason = FinishLength\<rparr>"

lemma zero_completes: "model_generate demo_chars zero_libm zero_model [1] 2 = Some (Inr zero_completion)"
proof -
  have valid: "validate_generation_request zero_model [1] 2 = Inr ()"
    by (simp add: validate_generation_request_def zero_model_def zero_config_def checked_add_u64_def u64_max_def ok_or_def)
  have decoder: "with_q8_projection (lm_config zero_model) (lm_weights zero_model) (lm_q8_projection zero_model) = Inr zero_decoder"
    by (simp add: with_q8_projection_def zero_model_def from_config_def zero_config_def sample_config_def plan_from_config_def kv_new_def
        zero_decoder_def ok_or_def)
  have "\<not> is_eog zero_model 0" by (simp add: is_eog_def zero_model_def demo_tokenizer_def)
  from callback_other_consumer [OF zero_generation [of "is_eog zero_model", OF this] _ quiet_keeps_going]
  have run: "generate_until_with_callback zero_libm [1] 2 (is_eog zero_model) (\<lambda>_ _. ((), Inr DecodeContinue)) zero_decoder () =
      Some ((), Inr (\<lparr>o_token_ids = [0, 0], o_stop_reason = StopLength\<rparr>, zero_decoder\<lparr>d_kv := zero_cache 2\<rparr>))" by simp
  note demo_decodes(2)
  then have "completed_generation demo_chars zero_model [1] [0, 0] = Inr zero_completion"
    by (simp add: completed_generation_def zero_model_def zero_completion_def is_eog_def demo_tokenizer_def)
  then show ?thesis unfolding model_generate_Some using valid decoder run by fastforce
qed

definition collecting :: "string delta_consumer" where
  "collecting seen delta = (seen @ delta_text delta, GenerationContinue)"

theorem incremental_generation_is_generation_witness:
  "\<exists>deltas. generate_incremental demo_chars zero_libm zero_model [1] 2 collecting [] = Some (after_deltas collecting [] deltas, Inr (GenerationCompleted zero_completion))
     \<and> map delta_token_id deltas = [0, 0] \<and> concat (map delta_text deltas) = ''hh''"
proof -
  have "never_cancels collecting" by (simp add: never_cancels_def collecting_def)
  from iffD1 [OF incremental_generation_is_generation [OF this] zero_completes] show ?thesis by (auto simp: zero_completion_def)
qed

theorem completions_fit_the_context_witness:
  "length [1 :: nat] + 2 \<le> context_length (lm_config zero_model) \<and> c_finish_reason zero_completion = FinishLength
     \<and> decode demo_chars (lm_tokenizer zero_model) [0, 0] True = Inr ''hh''"
  using completions_fit_the_context [OF zero_completes] by (simp add: zero_completion_def)

end
