(* ===== verification/Lanes.thy ===== *)
theory Lanes
  imports Float32 "HOL-Library.Word"
begin

unbundle bit_operations_syntax

text \<open>
  The vector instructions that the platform kernels use (\<^verbatim>\<open>std::arch\<close>), lane by lane. A register is the
  list of its lanes, each a word of its width; integer lanes are signed and wrap around unless the
  instruction saturates. Float lanes are bit patterns.
\<close>

section \<open>Integer lanes\<close>

fun pairwise :: "('a \<Rightarrow> 'a \<Rightarrow> 'b) \<Rightarrow> 'a list \<Rightarrow> 'b list" where
  "pairwise f (x # y # xs) = f x y # pairwise f xs"
| "pairwise f _ = []"

definition lanes_i8 :: "int list \<Rightarrow> 8 word list" where
  "lanes_i8 = map word_of_int"

definition stored_i8 :: "8 word list \<Rightarrow> int list" where
  "stored_i8 = map sint"

definition saturated :: "nat \<Rightarrow> int \<Rightarrow> int" where
  "saturated bits i = max (- (2 ^ (bits - 1))) (min (2 ^ (bits - 1) - 1) i)"

text \<open>\<^verbatim>\<open>VPMOVSXBW\<close>, \<^verbatim>\<open>VPMADDWD\<close>, \<^verbatim>\<open>VPADDD\<close>, \<^verbatim>\<open>PSHUFD\<close> with its immediate.\<close>

definition cvtepi8_epi16 :: "8 word list \<Rightarrow> 16 word list" where
  "cvtepi8_epi16 = map (\<lambda>b. word_of_int (sint b))"

definition madd_epi16 :: "16 word list \<Rightarrow> 16 word list \<Rightarrow> 32 word list" where
  "madd_epi16 a b = pairwise (\<lambda>x y. word_of_int (x + y)) (map2 (\<lambda>x y. sint x * sint y) a b)"

definition add_i32 :: "32 word list \<Rightarrow> 32 word list \<Rightarrow> 32 word list" where
  "add_i32 = map2 (+)"

definition shuffle4 :: "nat \<Rightarrow> 'a list \<Rightarrow> 'a list" where
  "shuffle4 imm v = [v ! (imm mod 4), v ! (imm div 4 mod 4), v ! (imm div 16 mod 4), v ! (imm div 64 mod 4)]"

text \<open>The saturating packs work on each half of their registers; \<^verbatim>\<open>VPERMD\<close> moves groups of four bytes.\<close>

definition packs :: "nat \<Rightarrow> nat \<Rightarrow> 'a::len word list \<Rightarrow> 'a word list \<Rightarrow> 'b::len word list" where
  "packs half bits a b = map (\<lambda>x. word_of_int (saturated bits (sint x))) (take half a @ take half b @ drop half a @ drop half b)"

definition packs_epi32 :: "32 word list \<Rightarrow> 32 word list \<Rightarrow> 16 word list" where "packs_epi32 = packs 4 16"
definition packs_epi16 :: "16 word list \<Rightarrow> 16 word list \<Rightarrow> 8 word list" where "packs_epi16 = packs 8 8"

definition permutevar8x32 :: "8 word list \<Rightarrow> nat list \<Rightarrow> 8 word list" where
  "permutevar8x32 v indices = concat (map (\<lambda>i. take 4 (drop (4 * i) v)) indices)"

text \<open>\<^verbatim>\<open>SDOT\<close>, \<^verbatim>\<open>SMULL\<close>, \<^verbatim>\<open>SADDLP\<close>, \<^verbatim>\<open>ADDV\<close>, \<^verbatim>\<open>XTN\<close> and \<^verbatim>\<open>SQXTN\<close>.\<close>

definition sdot :: "32 word list \<Rightarrow> 8 word list \<Rightarrow> 8 word list \<Rightarrow> 32 word list" where
  "sdot acc a b = add_i32 acc (map word_of_int (pairwise (+) (pairwise (+) (map2 (\<lambda>x y. sint x * sint y) a b))))"

definition vmull_s8 :: "8 word list \<Rightarrow> 8 word list \<Rightarrow> 16 word list" where
  "vmull_s8 = map2 (\<lambda>x y. word_of_int (sint x * sint y))"

definition vpaddlq_s16 :: "16 word list \<Rightarrow> 32 word list" where
  "vpaddlq_s16 = pairwise (\<lambda>x y. word_of_int (sint x + sint y))"

definition vaddvq_s32 :: "32 word list \<Rightarrow> 32 word" where
  "vaddvq_s32 = sum_list"

definition vmovn_s32 :: "32 word list \<Rightarrow> 16 word list" where
  "vmovn_s32 = map (\<lambda>x. word_of_int (sint x))"

definition vqmovn_s16 :: "16 word list \<Rightarrow> 8 word list" where
  "vqmovn_s16 = map (\<lambda>x. word_of_int (saturated 8 (sint x)))"

section \<open>Float lanes\<close>

definition set1_ps :: "f32 \<Rightarrow> f32 list" where "set1_ps x = replicate 8 x"

text \<open>\<^verbatim>\<open>VCMPPS\<close> for ordered equality gives a mask.\<close>

definition cmp_eq_ps :: "f32 list \<Rightarrow> f32 list \<Rightarrow> f32 list" where
  "cmp_eq_ps = map2 (\<lambda>x y. if f32_eq x y then - 1 else 0)"

definition and_ps :: "f32 list \<Rightarrow> f32 list \<Rightarrow> f32 list" where "and_ps = map2 (AND)"
definition andnot_ps :: "f32 list \<Rightarrow> f32 list \<Rightarrow> f32 list" where "andnot_ps = map2 (\<lambda>x y. NOT x AND y)"
definition or_ps :: "f32 list \<Rightarrow> f32 list \<Rightarrow> f32 list" where "or_ps = map2 (OR)"

text \<open>\<^verbatim>\<open>MAXPS\<close> and \<^verbatim>\<open>MINPS\<close> answer the second operand unless the first compares as greater, or less.\<close>

definition x86_max :: "f32 \<Rightarrow> f32 \<Rightarrow> f32" where "x86_max a b = (if f32_lt b a then a else b)"
definition x86_min :: "f32 \<Rightarrow> f32 \<Rightarrow> f32" where "x86_min a b = (if f32_lt a b then a else b)"

definition max_ps :: "f32 list \<Rightarrow> f32 list \<Rightarrow> f32 list" where "max_ps = map2 x86_max"
definition min_ps :: "f32 list \<Rightarrow> f32 list \<Rightarrow> f32 list" where "min_ps = map2 x86_min"
definition mul_ps :: "f32 list \<Rightarrow> f32 list \<Rightarrow> f32 list" where "mul_ps = map2 f32_mul"
definition add_ps :: "f32 list \<Rightarrow> f32 list \<Rightarrow> f32 list" where "add_ps = map2 f32_add"
definition sub_ps :: "f32 list \<Rightarrow> f32 list \<Rightarrow> f32 list" where "sub_ps = map2 f32_sub"

definition shuffle_ps :: "nat \<Rightarrow> f32 list \<Rightarrow> f32 list \<Rightarrow> f32 list" where
  "shuffle_ps imm a b = [a ! (imm mod 4), a ! (imm div 4 mod 4), b ! (imm div 16 mod 4), b ! (imm div 64 mod 4)]"

text \<open>\<^verbatim>\<open>VROUNDPS\<close> to nearest, ties to even; \<^verbatim>\<open>VCVTTPS2DQ\<close> with its indefinite integer.\<close>

definition f32_round_ties_even :: "f32 \<Rightarrow> f32" where
  "f32_round_ties_even a =
     (if \<not> f32_is_finite a then a else f32_round (f32_negative a) (round_even (f32_units a) 149 * 2 ^ 149) 0)"

definition f32_truncated_int :: "f32 \<Rightarrow> int" where
  "f32_truncated_int a = (let q = int (f32_units a div 2 ^ 149) in if f32_negative a then - q else q)"

definition cvtt_i32 :: "f32 \<Rightarrow> 32 word" where
  "cvtt_i32 a = (let i = f32_truncated_int a in
     if \<not> f32_is_finite a \<or> i < - (2 ^ 31) \<or> 2 ^ 31 \<le> i then 0x80000000 else word_of_int i)"

definition round_ps :: "f32 list \<Rightarrow> f32 list" where "round_ps = map f32_round_ties_even"
definition cvttps_epi32 :: "f32 list \<Rightarrow> 32 word list" where "cvttps_epi32 = map cvtt_i32"

text \<open>\<^verbatim>\<open>FMAX\<close> and \<^verbatim>\<open>FMIN\<close> pass a not-a-number on and order the zeros by their signs.\<close>

definition fmax :: "f32 \<Rightarrow> f32 \<Rightarrow> f32" where
  "fmax a b = (if f32_is_nan a \<or> f32_is_nan b then f32_NAN else if f32_lt a b then b else if f32_lt b a then a else a AND b)"

definition fmin :: "f32 \<Rightarrow> f32 \<Rightarrow> f32" where
  "fmin a b = (if f32_is_nan a \<or> f32_is_nan b then f32_NAN else if f32_lt a b then a else if f32_lt b a then b else a OR b)"

definition vmax_f32 :: "f32 list \<Rightarrow> f32 list \<Rightarrow> f32 list" where "vmax_f32 = map2 fmax"
definition vmin_f32 :: "f32 list \<Rightarrow> f32 list \<Rightarrow> f32 list" where "vmin_f32 = map2 fmin"
definition vabs_f32 :: "f32 list \<Rightarrow> f32 list" where "vabs_f32 = map f32_abs"

text \<open>\<^verbatim>\<open>FCVTAS\<close>: to the nearest integer, ties away from zero, saturated, and zero for a not-a-number.\<close>

definition fcvtas :: "f32 \<Rightarrow> 32 word" where
  "fcvtas a = word_of_int
     (if f32_is_nan a then 0
      else if f32_is_inf a then (if f32_negative a then - (2 ^ 31) else 2 ^ 31 - 1)
      else let q = int ((2 * f32_units a + 2 ^ 149) div 2 ^ 150) in saturated 32 (if f32_negative a then - q else q))"

definition vcvta_s32_f32 :: "f32 list \<Rightarrow> 32 word list" where "vcvta_s32_f32 = map fcvtas"

end
