(* ===== verification/Kernels.thy ===== *)
theory Kernels
  imports Lanes Q8Dot
begin

text \<open>
  The platform kernels of the quantized product (\<^verbatim>\<open>engine-windows/src/q8_dot.rs\<close> with AVX2,
  \<^verbatim>\<open>engine-macos/src/q8_dot.rs\<close> with NEON), instruction by instruction over \<open>Lanes\<close>. What a processor
  offers, which is detected once, is an argument; so is the target a crate was built for.
\<close>

section \<open>AVX2\<close>

definition horizontal_sum_i32x8 :: "32 word list \<Rightarrow> int" where
  "horizontal_sum_i32x8 acc =
     (let s = add_i32 (take 4 acc) (drop 4 acc);
          s = add_i32 s (shuffle4 0x4E s);
          s = add_i32 s (shuffle4 0xB1 s) in
      sint (s ! 0))"

definition q8_0_i8_block_avx2 :: "int list \<Rightarrow> int list \<Rightarrow> int" where
  "q8_0_i8_block_avx2 weight input =
     (let w_lo = cvtepi8_epi16 (lanes_i8 (take 16 weight)); w_hi = cvtepi8_epi16 (lanes_i8 (drop 16 weight));
          i_lo = cvtepi8_epi16 (lanes_i8 (take 16 input)); i_hi = cvtepi8_epi16 (lanes_i8 (drop 16 input)) in
      horizontal_sum_i32x8 (add_i32 (madd_epi16 w_lo i_lo) (madd_epi16 w_hi i_hi)))"

definition q8_0_dot_rows_avx2 :: "Q8_0Block list \<Rightarrow> Q8_0Block list \<Rightarrow> f32" where
  "q8_0_dot_rows_avx2 weight input = foldl (\<lambda>total (w, i).
     let int_sum = q8_0_i8_block_avx2 (q8_quants w) (q8_quants i) in
     f32_add total (f32_mul (f32_mul (f32_of_int int_sum) (q8_scale w)) (q8_scale i))) f32_NEG_ZERO (zip weight input)"

definition abs_with_nan_as_zero :: "f32 list \<Rightarrow> f32 list" where
  "abs_with_nan_as_zero v = and_ps (andnot_ps (set1_ps f32_NEG_ZERO) v) (cmp_eq_ps v v)"

definition round_half_away_clamped_to_i32 :: "f32 list \<Rightarrow> 32 word list" where
  "round_half_away_clamped_to_i32 x =
     (let x = and_ps x (cmp_eq_ps x x);
          x = min_ps (max_ps x (set1_ps (f32_of_int (- 128)))) (set1_ps (f32_of_int 127));
          nearest = round_ps x;
          delta = sub_ps x nearest;
          sign = and_ps x (set1_ps f32_NEG_ZERO);
          signed_half = or_ps sign (set1_ps 0x3F000000);
          is_tie = cmp_eq_ps delta signed_half;
          signed_one = or_ps sign (set1_ps 0x3F800000) in
      cvttps_epi32 (add_ps nearest (and_ps is_tie signed_one)))"

definition horizontal_max_f32x8 :: "f32 list \<Rightarrow> f32" where
  "horizontal_max_f32x8 v =
     (let m = max_ps (take 4 v) (drop 4 v);
          m = max_ps m (shuffle_ps 0x4E m m);
          m = max_ps m (shuffle_ps 0xB1 m m) in
      m ! 0)"

definition quantize_q8_0_block_avx2 :: "f32 list \<Rightarrow> Q8_0Block" where
  "quantize_q8_0_block_avx2 block =
     (let v0 = take 8 block; v1 = take 8 (drop 8 block); v2 = take 8 (drop 16 block); v3 = take 8 (drop 24 block);
          max_vec = foldl (\<lambda>acc v. max_ps acc (abs_with_nan_as_zero v)) (set1_ps 0) [v0, v1, v2, v3];
          max_abs = horizontal_max_f32x8 max_vec;
          unrounded_scale = f32_div max_abs (f32_of_int 127);
          scale = f16_bits_to_f32 (f32_to_f16_bits unrounded_scale);
          inv_scale = (if f32_eq unrounded_scale 0 then 0 else f32_div (f32_of_int 1) unrounded_scale);
          inv = set1_ps inv_scale;
          i0 = round_half_away_clamped_to_i32 (mul_ps v0 inv); i1 = round_half_away_clamped_to_i32 (mul_ps v1 inv);
          i2 = round_half_away_clamped_to_i32 (mul_ps v2 inv); i3 = round_half_away_clamped_to_i32 (mul_ps v3 inv);
          packed = packs_epi16 (packs_epi32 i0 i1) (packs_epi32 i2 i3);
          ordered = permutevar8x32 packed [0, 4, 1, 5, 2, 6, 3, 7] in
      \<lparr>q8_scale = scale, q8_quants = stored_i8 ordered\<rparr>)"

text \<open>The entry points of the Windows crate; \<open>avx2\<close>: an x86-64 host that has it.\<close>

definition windows_q8_0_dot_rows :: "bool \<Rightarrow> Q8_0Block list \<Rightarrow> Q8_0Block list \<Rightarrow> f32" where
  "windows_q8_0_dot_rows avx2 weight input = (if avx2 then q8_0_dot_rows_avx2 weight input else q8_0_dot_rows weight input)"

definition windows_quantize_q8_0_block :: "bool \<Rightarrow> f32 list \<Rightarrow> Q8_0Block" where
  "windows_quantize_q8_0_block avx2 block =
     (if length block = Q8_0_BLOCK_VALUES \<and> avx2 then quantize_q8_0_block_avx2 block else quantize_q8_0_block block)"

definition windows_quantize_q8_0_blocks :: "bool \<Rightarrow> f32 list \<Rightarrow> Q8_0Block list" where
  "windows_quantize_q8_0_blocks avx2 input = map (windows_quantize_q8_0_block avx2) (chunks_exact Q8_0_BLOCK_VALUES input)"

definition windows_q8_0_project_rows :: "bool \<Rightarrow> q8_projection" where
  "windows_q8_0_project_rows avx2 = project_rows (windows_q8_0_dot_rows avx2)"

section \<open>NEON\<close>

definition horizontal_sum_i32x4 :: "32 word list \<Rightarrow> int" where
  "horizontal_sum_i32x4 acc = sint (vaddvq_s32 acc)"

definition q8_0_i8_block_dotprod :: "int list \<Rightarrow> int list \<Rightarrow> int" where
  "q8_0_i8_block_dotprod weight input =
     (let acc = replicate 4 0;
          acc = sdot acc (lanes_i8 (take 16 weight)) (lanes_i8 (take 16 input));
          acc = sdot acc (lanes_i8 (drop 16 weight)) (lanes_i8 (drop 16 input)) in
      horizontal_sum_i32x4 acc)"

definition q8_0_i8_block_neon_mul :: "int list \<Rightarrow> int list \<Rightarrow> int" where
  "q8_0_i8_block_neon_mul weight input =
     (let weight_lo = lanes_i8 (take 16 weight); input_lo = lanes_i8 (take 16 input);
          weight_hi = lanes_i8 (drop 16 weight); input_hi = lanes_i8 (drop 16 input);
          acc = replicate 4 0;
          acc = add_i32 acc (vpaddlq_s16 (vmull_s8 (take 8 weight_lo) (take 8 input_lo)));
          acc = add_i32 acc (vpaddlq_s16 (vmull_s8 (drop 8 weight_lo) (drop 8 input_lo)));
          acc = add_i32 acc (vpaddlq_s16 (vmull_s8 (take 8 weight_hi) (take 8 input_hi)));
          acc = add_i32 acc (vpaddlq_s16 (vmull_s8 (drop 8 weight_hi) (drop 8 input_hi))) in
      horizontal_sum_i32x4 acc)"

definition q8_0_dot_rows_neon_dotprod :: "Q8_0Block list \<Rightarrow> Q8_0Block list \<Rightarrow> f32" where
  "q8_0_dot_rows_neon_dotprod weight input = foldl (\<lambda>total (w, i).
     let int_sum = q8_0_i8_block_dotprod (q8_quants w) (q8_quants i) in
     f32_add total (f32_mul (f32_mul (f32_of_int int_sum) (q8_scale w)) (q8_scale i))) f32_NEG_ZERO (zip weight input)"

definition q8_0_dot_rows_neon_mul :: "Q8_0Block list \<Rightarrow> Q8_0Block list \<Rightarrow> f32" where
  "q8_0_dot_rows_neon_mul weight input = foldl (\<lambda>total (w, i).
     let int_sum = q8_0_i8_block_neon_mul (q8_quants w) (q8_quants i) in
     f32_add total (f32_mul (f32_mul (f32_of_int int_sum) (q8_scale w)) (q8_scale i))) f32_NEG_ZERO (zip weight input)"

text \<open>The largest magnitude is reduced with \<^verbatim>\<open>FMAX\<close>, and the last two lanes with \<^verbatim>\<open>f32::max\<close>.\<close>

definition neon_max_abs :: "f32 list \<Rightarrow> f32" where
  "neon_max_abs block =
     (let abs0 = vabs_f32 (take 4 block); abs1 = vabs_f32 (take 4 (drop 4 block));
          abs2 = vabs_f32 (take 4 (drop 8 block)); abs3 = vabs_f32 (take 4 (drop 12 block));
          abs4 = vabs_f32 (take 4 (drop 16 block)); abs5 = vabs_f32 (take 4 (drop 20 block));
          abs6 = vabs_f32 (take 4 (drop 24 block)); abs7 = vabs_f32 (take 4 (drop 28 block));
          max01 = vmax_f32 abs0 abs1; max23 = vmax_f32 abs2 abs3; max45 = vmax_f32 abs4 abs5; max67 = vmax_f32 abs6 abs7;
          max03 = vmax_f32 max01 max23; max47 = vmax_f32 max45 max67;
          max_vec = vmax_f32 max03 max47;
          max_half = vmax_f32 (take 2 max_vec) (drop 2 max_vec) in
      f32_max (max_half ! 0) (max_half ! 1))"

definition neon_quants :: "f32 \<Rightarrow> f32 list \<Rightarrow> 16 word list" where
  "neon_quants inv_scale v =
     (let scaled = mul_ps v (replicate 4 inv_scale); lo = replicate 4 (f32_of_int (- 128)); hi = replicate 4 (f32_of_int 127) in
      vmovn_s32 (vcvta_s32_f32 (vmin_f32 (vmax_f32 scaled lo) hi)))"

definition neon_quantize_q8_0_block :: "f32 list \<Rightarrow> Q8_0Block" where
  "neon_quantize_q8_0_block block =
     (let unrounded_scale = f32_div (neon_max_abs block) (f32_of_int 127);
          scale = f16_bits_to_f32 (f32_to_f16_bits unrounded_scale);
          inv_scale = (if f32_eq unrounded_scale 0 then 0 else f32_div (f32_of_int 1) unrounded_scale);
          i16 = (\<lambda>k. neon_quants inv_scale (take 4 (drop (4 * k) block)));
          i8_01 = vqmovn_s16 (i16 0 @ i16 1); i8_23 = vqmovn_s16 (i16 2 @ i16 3);
          i8_45 = vqmovn_s16 (i16 4 @ i16 5); i8_67 = vqmovn_s16 (i16 6 @ i16 7) in
      \<lparr>q8_scale = scale, q8_quants = stored_i8 (i8_01 @ i8_23) @ stored_i8 (i8_45 @ i8_67)\<rparr>)"

text \<open>The entry points of the macOS crate; \<open>None\<close>: another target, and otherwise whether the host has \<^verbatim>\<open>SDOT\<close>.\<close>

definition macos_q8_0_dot_rows :: "bool option \<Rightarrow> Q8_0Block list \<Rightarrow> Q8_0Block list \<Rightarrow> f32" where
  "macos_q8_0_dot_rows dotprod weight input = (case dotprod of
       None \<Rightarrow> q8_0_dot_rows weight input
     | Some True \<Rightarrow> q8_0_dot_rows_neon_dotprod weight input
     | Some False \<Rightarrow> q8_0_dot_rows_neon_mul weight input)"

definition macos_quantize_q8_0_block :: "bool \<Rightarrow> f32 list \<Rightarrow> Q8_0Block" where
  "macos_quantize_q8_0_block aarch64 block =
     (if aarch64 \<and> length block = Q8_0_BLOCK_VALUES then neon_quantize_q8_0_block block else quantize_q8_0_block block)"

definition macos_quantize_q8_0_blocks :: "bool \<Rightarrow> f32 list \<Rightarrow> Q8_0Block list" where
  "macos_quantize_q8_0_blocks aarch64 input = map (macos_quantize_q8_0_block aarch64) (chunks_exact Q8_0_BLOCK_VALUES input)"

definition macos_q8_0_project_rows :: "bool option \<Rightarrow> q8_projection" where
  "macos_q8_0_project_rows dotprod = project_rows (macos_q8_0_dot_rows dotprod)"

end
