(* ===== verification/KernelLaws.thy ===== *)
theory KernelLaws
  imports Kernels Float32Laws
begin

text \<open>
  Laws of the platform kernels: every integer product of blocks is the portable one, whatever the order
  of its lanes, so that the products of rows and projections agree bit for bit; and the vector quantizers
  give the portable blocks.
\<close>

section \<open>Integer lanes\<close>

lemma sint_of_range: "- (2 ^ (LENGTH('a::len) - 1)) \<le> i \<Longrightarrow> i < 2 ^ (LENGTH('a) - 1) \<Longrightarrow> sint (word_of_int i :: 'a word) = i"
  by (simp add: sint_sbintrunc' signed_take_bit_int_eq_self_iff)

lemma sint_i8: "is_i8 i \<Longrightarrow> sint (word_of_int i :: 8 word) = i" "is_i8 i \<Longrightarrow> sint (word_of_int i :: 16 word) = i"
  "is_i8 i \<Longrightarrow> sint (scast (word_of_int i :: 8 word) :: 16 word) = i"
proof -
  show *: "is_i8 i \<Longrightarrow> sint (word_of_int i :: 8 word) = i" "is_i8 i \<Longrightarrow> sint (word_of_int i :: 16 word) = i"
    by (auto simp: is_i8_def intro!: sint_of_range)
  have "(scast (word_of_int i :: 8 word) :: 16 word) = word_of_int (sint (word_of_int i :: 8 word))" by (rule scast_eq)
  then show "is_i8 i \<Longrightarrow> sint (scast (word_of_int i :: 8 word) :: 16 word) = i" by (simp only: *)
qed

lemma sint_product: "is_i8 a \<Longrightarrow> is_i8 b \<Longrightarrow> sint (word_of_int (a * b) :: 16 word) = a * b"
  using product_range [of a b] by (intro sint_of_range) auto

text \<open>The lanes of a register of quants.\<close>

definition i8_list :: "int list \<Rightarrow> bool" where "i8_list xs \<longleftrightarrow> list_all is_i8 xs"

lemma i8_list_simps [simp]: "i8_list []" "i8_list (x # xs) \<longleftrightarrow> is_i8 x \<and> i8_list xs"
  by (simp_all add: i8_list_def)

lemma length_16_split: "length xs = 16 \<Longrightarrow> \<exists>a b c d e f g h i j k l m n p q. xs = [a, b, c, d, e, f, g, h, i, j, k, l, m, n, p, q]"
  by (auto simp: length_Suc_conv numeral_eq_Suc)

lemma two_halves:
  assumes "length w = 32" "i8_list w"
  shows "length (take 16 w) = 16" "length (drop 16 w) = 16" "i8_list (take 16 w)" "i8_list (drop 16 w)"
  using assms by (auto simp: i8_list_def list_all_iff dest: in_set_takeD in_set_dropD)

text \<open>Each kernel sums, modulo \<open>2 ^ 32\<close>, the products of 16 lanes at a time.\<close>

abbreviation lanes_sum :: "int list \<Rightarrow> int list \<Rightarrow> 32 word" where "lanes_sum a b \<equiv> word_of_int (plain_dot a b)"

lemma plain_dot_append:
  assumes "length w = 32" "length i = 32"
  shows "plain_dot w i = plain_dot (take 16 w) (take 16 i) + plain_dot (drop 16 w) (drop 16 i)"
proof -
  have "map2 (*) w i = map2 (*) (take 16 w @ drop 16 w) (take 16 i @ drop 16 i)" by simp
  also have "\<dots> = map2 (*) (take 16 w) (take 16 i) @ map2 (*) (drop 16 w) (drop 16 i)"
    using assms by (subst zip_append) simp_all
  finally show ?thesis unfolding plain_dot_def by simp
qed

lemma block_sum_exact:
  assumes "length w = 32" "length i = 32" "i8_list w" "i8_list i"
  shows "sint (lanes_sum (take 16 w) (take 16 i) + lanes_sum (drop 16 w) (drop 16 i)) = block_int_dot w i"
proof -
  have "\<bar>plain_dot w i\<bar> \<le> 16384 * int (length w)" using assms by (intro plain_dot_range) (simp_all add: i8_list_def)
  then have "sint (word_of_int (plain_dot w i) :: 32 word) = plain_dot w i" using assms(1) by (intro sint_of_range) auto
  then show ?thesis using assms by (simp add: plain_dot_append block_int_dot_plain flip: of_int_add)
qed

lemma pairwise_length [simp]: "length (pairwise f xs) = length xs div 2"
  by (induction f xs rule: pairwise.induct) auto

lemma pairwise_sums:
  "even (length xs) \<Longrightarrow> sum_list (pairwise (\<lambda>x y. word_of_int x + word_of_int y :: 'a::len word) xs) = word_of_int (sum_list xs)"
  by (induction "\<lambda>x y. word_of_int x + word_of_int y :: 'a word" xs rule: pairwise.induct) (auto simp: ac_simps)

lemma pairwise_sum: "even (length xs) \<Longrightarrow> sum_list (pairwise (+) xs) = sum_list (xs :: int list)"
  by (induction "(+) :: int \<Rightarrow> int \<Rightarrow> int" xs rule: pairwise.induct) auto

lemma word_of_int_sum_list: "sum_list (map word_of_int xs) = (word_of_int (sum_list xs) :: 'a::len word)"
  by (induction xs) auto

lemma add_i32_sum: "length a = length b \<Longrightarrow> sum_list (add_i32 a b) = sum_list a + sum_list b"
  by (induction a b rule: list_induct2) (simp_all add: add_i32_def ac_simps)

lemma add_i32_length [simp]: "length (add_i32 a b) = min (length a) (length b)"
  by (simp add: add_i32_def)

lemma lane_products:
  "i8_list a \<Longrightarrow> i8_list b \<Longrightarrow> length a = length b \<Longrightarrow> map2 (\<lambda>x y. sint x * sint y) (lanes_i8 a) (lanes_i8 b) = map2 (*) a b"
  "i8_list a \<Longrightarrow> i8_list b \<Longrightarrow> length a = length b \<Longrightarrow>
    map2 (\<lambda>x y. sint x * sint y) (cvtepi8_epi16 (lanes_i8 a)) (cvtepi8_epi16 (lanes_i8 b)) = map2 (*) a b"
proof -
  show "i8_list a \<Longrightarrow> i8_list b \<Longrightarrow> length a = length b \<Longrightarrow> map2 (\<lambda>x y. sint x * sint y) (lanes_i8 a) (lanes_i8 b) = map2 (*) a b"
    by (rotate_tac 2, induction a b rule: list_induct2) (simp_all add: lanes_i8_def sint_i8)
  show "i8_list a \<Longrightarrow> i8_list b \<Longrightarrow> length a = length b \<Longrightarrow>
    map2 (\<lambda>x y. sint x * sint y) (cvtepi8_epi16 (lanes_i8 a)) (cvtepi8_epi16 (lanes_i8 b)) = map2 (*) a b"
    by (rotate_tac 2, induction a b rule: list_induct2) (simp_all add: lanes_i8_def cvtepi8_epi16_def sint_i8)
qed

section \<open>Products of blocks\<close>

lemma horizontal_sum_8: "length acc = 8 \<Longrightarrow> horizontal_sum_i32x8 acc = sint (sum_list acc)"
proof -
  assume "length acc = 8"
  then obtain a b c d e f g h where "acc = [a, b, c, d, e, f, g, h]" by (auto simp: length_Suc_conv numeral_eq_Suc)
  then show ?thesis by (simp add: horizontal_sum_i32x8_def add_i32_def shuffle4_def Let_def ac_simps)
qed

lemma madd_sum:
  assumes "length a = 16" "length b = 16" "i8_list a" "i8_list b"
  shows "sum_list (madd_epi16 (cvtepi8_epi16 (lanes_i8 a)) (cvtepi8_epi16 (lanes_i8 b))) = lanes_sum a b"
    "length (madd_epi16 (cvtepi8_epi16 (lanes_i8 a)) (cvtepi8_epi16 (lanes_i8 b))) = 8"
  using assms by (simp_all add: madd_epi16_def lane_products pairwise_sums plain_dot_def)

lemma avx2_block:
  assumes "length w = 32" "length i = 32" "i8_list w" "i8_list i"
  shows "q8_0_i8_block_avx2 w i = block_int_dot w i"
  using assms by (simp add: q8_0_i8_block_avx2_def Let_def horizontal_sum_8 madd_sum two_halves add_i32_sum block_sum_exact)

lemma sdot_sum:
  assumes "length acc = 4" "length a = 16" "length b = 16" "i8_list a" "i8_list b"
  shows "sum_list (sdot acc (lanes_i8 a) (lanes_i8 b)) = sum_list acc + lanes_sum a b" "length (sdot acc (lanes_i8 a) (lanes_i8 b)) = 4"
  using assms by (simp_all add: sdot_def lane_products add_i32_sum word_of_int_sum_list pairwise_sum plain_dot_def)

lemma dotprod_block:
  assumes "length w = 32" "length i = 32" "i8_list w" "i8_list i"
  shows "q8_0_i8_block_dotprod w i = block_int_dot w i"
  using assms by (simp add: q8_0_i8_block_dotprod_def Let_def horizontal_sum_i32x4_def vaddvq_s32_def sdot_sum two_halves block_sum_exact sum_list_replicate)

lemma pairwise_map: "pairwise f (map g xs) = pairwise (\<lambda>x y. f (g x) (g y)) xs"
  by (induction "\<lambda>x y. f (g x) (g y)" xs rule: pairwise.induct) auto

lemma exact_products: "i8_list a \<Longrightarrow> i8_list b \<Longrightarrow> length a = length b \<Longrightarrow> map sint (vmull_s8 (lanes_i8 a) (lanes_i8 b)) = map2 (*) a b"
proof (rotate_tac 2, induction a b rule: list_induct2)
  case (Cons x xs y ys)
  have "sint (word_of_int (sint (word_of_int x :: 8 word) * sint (word_of_int y :: 8 word)) :: 16 word) = x * y"
    using Cons.prems by (simp only: i8_list_simps sint_i8 sint_product)
  then show ?case using Cons by (simp only: vmull_s8_def lanes_i8_def list.map zip_Cons_Cons case_prod_conv i8_list_simps)
qed (simp add: vmull_s8_def lanes_i8_def)

lemma widened_products:
  assumes "length a = 8" "length b = 8" "i8_list a" "i8_list b"
  shows "sum_list (vpaddlq_s16 (vmull_s8 (lanes_i8 a) (lanes_i8 b))) = word_of_int (plain_dot a b)"
    "length (vpaddlq_s16 (vmull_s8 (lanes_i8 a) (lanes_i8 b))) = 4"
proof -
  have "vpaddlq_s16 (vmull_s8 (lanes_i8 a) (lanes_i8 b)) = pairwise (\<lambda>x y. word_of_int (x + y)) (map sint (vmull_s8 (lanes_i8 a) (lanes_i8 b)))"
    by (simp only: vpaddlq_s16_def pairwise_map)
  also have "\<dots> = pairwise (\<lambda>x y. word_of_int (x + y)) (map2 (*) a b)" using assms by (subst exact_products) simp_all
  finally have *: "vpaddlq_s16 (vmull_s8 (lanes_i8 a) (lanes_i8 b)) = pairwise (\<lambda>x y. word_of_int (x + y)) (map2 (*) a b)" .
  show "sum_list (vpaddlq_s16 (vmull_s8 (lanes_i8 a) (lanes_i8 b))) = word_of_int (plain_dot a b)"
    "length (vpaddlq_s16 (vmull_s8 (lanes_i8 a) (lanes_i8 b))) = 4"
    using assms by (simp_all add: * pairwise_sums plain_dot_def)
qed

lemma quarters:
  assumes "length a = 16" "i8_list a"
  shows "take 8 (lanes_i8 a) = lanes_i8 (take 8 a)" "drop 8 (lanes_i8 a) = lanes_i8 (drop 8 a)"
    "length (take 8 a) = 8" "length (drop 8 a) = 8" "i8_list (take 8 a)" "i8_list (drop 8 a)"
  using assms by (auto simp: lanes_i8_def take_map drop_map i8_list_def list_all_iff dest: in_set_takeD in_set_dropD)

lemma plain_dot_halves:
  assumes "length a = 16" "length b = 16"
  shows "plain_dot (take 8 a) (take 8 b) + plain_dot (drop 8 a) (drop 8 b) = plain_dot a b"
proof -
  have "map2 (*) a b = map2 (*) (take 8 a @ drop 8 a) (take 8 b @ drop 8 b)" by simp
  also have "\<dots> = map2 (*) (take 8 a) (take 8 b) @ map2 (*) (drop 8 a) (drop 8 b)"
    using assms by (subst zip_append) simp_all
  finally show ?thesis unfolding plain_dot_def by simp
qed

lemma neon_mul_block:
  assumes "length w = 32" "length i = 32" "i8_list w" "i8_list i"
  shows "q8_0_i8_block_neon_mul w i = block_int_dot w i"
proof -
  note halves = two_halves [OF assms(1,3)] two_halves [OF assms(2,4)]
  have "vaddvq_s32 (add_i32 (add_i32 (add_i32 (add_i32 (replicate 4 0)
      (vpaddlq_s16 (vmull_s8 (lanes_i8 (take 8 (take 16 w))) (lanes_i8 (take 8 (take 16 i))))))
      (vpaddlq_s16 (vmull_s8 (lanes_i8 (drop 8 (take 16 w))) (lanes_i8 (drop 8 (take 16 i))))))
      (vpaddlq_s16 (vmull_s8 (lanes_i8 (take 8 (drop 16 w))) (lanes_i8 (take 8 (drop 16 i))))))
      (vpaddlq_s16 (vmull_s8 (lanes_i8 (drop 8 (drop 16 w))) (lanes_i8 (drop 8 (drop 16 i)))))) =
    word_of_int ((plain_dot (take 8 (take 16 w)) (take 8 (take 16 i)) + plain_dot (drop 8 (take 16 w)) (drop 8 (take 16 i)))
      + (plain_dot (take 8 (drop 16 w)) (take 8 (drop 16 i)) + plain_dot (drop 8 (drop 16 w)) (drop 8 (drop 16 i))))"
    unfolding vaddvq_s32_def using halves
    by (simp add: add_i32_sum widened_products quarters sum_list_replicate del: take_take drop_drop)
  also have "\<dots> = lanes_sum (take 16 w) (take 16 i) + lanes_sum (drop 16 w) (drop 16 i)"
    unfolding plain_dot_halves [OF halves(1,5)] plain_dot_halves [OF halves(2,6)] by (rule of_int_add)
  finally show ?thesis
    using block_sum_exact [OF assms] halves
    by (simp add: q8_0_i8_block_neon_mul_def Let_def horizontal_sum_i32x4_def quarters del: take_take drop_drop)
qed

section \<open>Products of rows\<close>

lemma rows_fold:
  assumes "list_all block_wf weight" "list_all block_wf input"
    and "\<And>w i. length w = 32 \<Longrightarrow> length i = 32 \<Longrightarrow> i8_list w \<Longrightarrow> i8_list i \<Longrightarrow> product w i = block_int_dot w i"
  shows "foldl (\<lambda>total (w, i). let int_sum = product (q8_quants w) (q8_quants i) in
      f32_add total (f32_mul (f32_mul (f32_of_int int_sum) (q8_scale w)) (q8_scale i))) f32_NEG_ZERO (zip weight input) = q8_0_dot_rows weight input"
proof -
  have "product (q8_quants w) (q8_quants i) = block_int_dot (q8_quants w) (q8_quants i)" if "(w, i) \<in> set (zip weight input)" for w i
  proof -
    have "block_wf w" "block_wf i" using set_zip_leftD [OF that] set_zip_rightD [OF that] assms(1,2) by (auto simp: list_all_iff)
    then show ?thesis by (intro assms(3)) (auto simp: block_wf_def i8_list_def)
  qed
  then show ?thesis
    unfolding q8_0_dot_rows_def f32_sum_def by (auto simp: foldl_map intro!: foldl_cong)
qed

lemmas kernels = avx2_block dotprod_block neon_mul_block

lemma platform_rows:
  assumes "list_all block_wf weight" "list_all block_wf input"
  shows "windows_q8_0_dot_rows avx2 weight input = q8_0_dot_rows weight input"
    "macos_q8_0_dot_rows dotprod weight input = q8_0_dot_rows weight input"
  using rows_fold [OF assms] kernels
  by (auto simp: windows_q8_0_dot_rows_def q8_0_dot_rows_avx2_def macos_q8_0_dot_rows_def q8_0_dot_rows_neon_dotprod_def
      q8_0_dot_rows_neon_mul_def split: option.splits bool.splits)

end
