(* ===== verification/SmallModel.thy ===== *)
theory SmallModel
  imports WeightsLaws TokenizerLaws Runtime
begin

text \<open>
  A whole model file of one block, with its configuration and its vocabulary, at which the laws of loaded
  models are applied: it is written out, read, and loaded.
\<close>

section \<open>The file\<close>

definition small_tokens :: "string list" where
  "small_tokens = [''a'', ''b'', ''ab'', ''c'', ''d'', ''e'']"

definition small_entries :: "(string \<times> MetadataValue) list" where
  "small_entries =
     [(''general.architecture'', String ''llama''), (''llama.context_length'', U32 512), (''llama.embedding_length'', U32 4),
      (''llama.block_count'', U32 1), (''llama.feed_forward_length'', U32 8), (''llama.attention.head_count'', U32 2),
      (''llama.attention.head_count_kv'', U32 1), (''tokenizer.ggml.model'', String ''llama''),
      (''tokenizer.ggml.tokens'', Array (map String small_tokens))]"

definition small_file :: string where
  "small_file = written_header 3 small_entries (laid_out 32 0 one_block_tensors) @ replicate 771 (CHR 0x00)"

lemma small_header: "length (written_header 3 small_entries one_block_layout) = 1085"
  by (simp add: written_header_def GGUF_MAGIC_def written_tensor_def written_string_def one_block_layout_def small_entries_def
      small_tokens_def written_entry_def written_value_def)

definition small_container :: GgufFile where
  "small_container = \<lparr>gguf_path = ''m.gguf'', gguf_version = word_of_nat 3, gguf_tensor_count = 11,
     gguf_metadata_count = 9, gguf_alignment = 32, gguf_data_start = 1088,
     gguf_metadata = map_of small_entries, gguf_tensors = map (described 1088) one_block_layout\<rparr>"

lemma small_length: "length small_file = 1856"
  by (simp add: small_file_def one_block_laid_out small_header)

lemma small_entries_ok: "list_all entry_ok small_entries"
  by (simp add: small_entries_def small_tokens_def entry_ok_def ascii_is_utf8 MAX_STRING_BYTES_def MAX_ARRAY_LEN_def u64_max_def char_code_def)

lemma small_accepted: "read_metadata_with_len ''m.gguf'' (Inr small_file, None) 1856 = Inr small_container"
proof -
  have align: "alignment_of (map_of small_entries) = Inr 32"
    by (simp add: alignment_of_def DEFAULT_ALIGNMENT_def is_pow2_def upt_rec small_entries_def)
  have keys: "distinct (map fst small_entries)" "length small_entries = 9" by (simp_all add: small_entries_def)
  have ok: "list_all tensor_ok (laid_out 32 0 one_block_tensors)"
    by (simp add: one_block_laid_out one_block_layout_def ascii_is_utf8 MAX_TENSOR_NAME_def MAX_TENSOR_DIMS_def u64_max_def char_code_def)
  have storable: "list_all storable one_block_tensors" "distinct (map fst one_block_tensors)" "length one_block_tensors < 2 ^ 63"
    by (simp_all add: storable_def elements_def u64_max_def nbytes_def one_block_tensors_def)
  have fits: "list_all (\<lambda>t. td_absolute_offset t + td_n_bytes t \<le> 1856) (map (described 1088) (laid_out 32 0 one_block_tensors))"
    by (simp add: one_block_laid_out one_block_layout_def described_def nbytes_def elements_def)
  have start: "1088 = round_up 32 (length (written_header 3 small_entries (laid_out 32 0 one_block_tensors)))"
    by (simp add: one_block_laid_out small_header round_up_def)
  have n: "length one_block_tensors = 11" by (simp add: one_block_tensors_def)
  show ?thesis
    unfolding small_file_def
    by (subst read_written [where a = 32 and start = 1088, OF _ small_entries_ok keys(1) _ align ok storable _ _ start _ fits])
      (simp_all add: small_container_def one_block_laid_out u64_max_def small_header n keys(2))
qed

section \<open>What it holds\<close>

lemma small_metadata: "gguf_metadata small_container = map_of small_entries"
  by (simp add: small_container_def)

lemma small_architecture: "architecture small_container = Some ''llama''"
  by (simp add: architecture_def metadata_string_def small_metadata small_entries_def)

lemma small_config: "config_from_gguf small_container = Inr tiny_config"
proof -
  have "infer_vocab_size_from_token_embedding small_container ''token_embd.weight'' 4 = Some 6"
    by (simp add: infer_vocab_size_from_token_embedding_def small_container_def one_block_layout_def described_def try_into_u32_def)
  then show ?thesis
    by (simp add: config_from_gguf_def implemented_architecture_of_def small_architecture architecture_key_def required_u32_def
      metadata_u32_def metadata_f32_def metadata_string_def llama_attention_head_count_kv_def ok_def arch_uses_neox_rope_pairing_def Let_def
      small_metadata small_entries_def tiny_config_def sample_config_def)
qed

lemma small_binds: "\<exists>b. ModelBinding.bind small_container tiny_config = Inr b"
  by (simp add: small_container_def one_block_layout_def described_def nbytes_def elements_def tiny_config_def sample_config_def bind_def
      required_tensor_def find_tensor_def architecture_def metadata_string_def check_head_lengths_def bind_layer_def bind_qk_norm_def
      block_tensor_def show_nat.simps hex_digit_def Let_def validate_dense_shapes_def from_config_def small_entries_def
      require_descriptor_matrix_shape_def require_descriptor_shape_def validate_output_projection_storage_layout_def checked_mul_u64_def
      u64_max_def validate_rope_freqs_def validate_layer_def validate_qk_norm_def enumerate_Suc_eq)

lemma small_tokenizer: "\<exists>tk. from_gguf debug small_container = Inr tk \<and> map tok_text (tk_tokens tk) = small_tokens"
proof -
  have kind: "token_kind_from_i32 1 = Inr Normal" by (simp add: token_kind_from_i32_def)
  have no_bytes: "parse_byte_token ''a'' = None" "parse_byte_token ''b'' = None" "parse_byte_token ''ab'' = None"
    "parse_byte_token ''c'' = None" "parse_byte_token ''d'' = None" "parse_byte_token ''e'' = None"
    by (simp_all add: parse_byte_token_def)
  have strings: "metadata_string small_container ''tokenizer.ggml.model'' = Some ''llama''"
    "metadata_array_strings small_container ''tokenizer.ggml.tokens'' = Inr small_tokens"
    by (simp_all add: small_metadata metadata_string_def metadata_array_strings_def metadata_array_strings_optional_def
        typed_array_optional_def small_entries_def small_tokens_def)
  have absent: "metadata_array_f32_optional small_container ''tokenizer.ggml.scores'' = Inr None"
    "metadata_array_i32_optional small_container ''tokenizer.ggml.token_type'' = Inr None"
    "metadata_array_strings_optional small_container ''tokenizer.ggml.merges'' = Inr None"
    by (simp_all add: small_metadata metadata_array_f32_optional_def metadata_array_i32_optional_def metadata_array_strings_optional_def
        typed_array_optional_def small_entries_def)
  have numbers: "metadata_u32 small_container key = None" if "key \<notin> fst ` set small_entries" for key
  proof -
    have "map_of small_entries key = None" using that by (simp only: map_of_eq_None_iff) simp
    then show ?thesis by (simp add: small_metadata metadata_u32_def)
  qed
  have special: "validate_special (special_tokens small_container LlamaSpm t2i) 6 = Inr ()"
    if "map_of t2i ''<|eot_id|>'' = None" for t2i
    using that by (simp add: special_tokens_def numbers small_entries_def or_else_def validate_special_def validate_token_id_def)
  have six: "replicate 6 x = [x, x, x, x, x, x]" for x :: 'a by (simp add: numeral_eq_Suc)
  define t2i where "t2i = [(''a'', 0 :: nat), (''b'', 1), (''ab'', 2), (''c'', 3), (''d'', 4), (''e'', 5)]"
  define toks where "toks = [demo_token 0 ''a'' Normal, demo_token 1 ''b'' Normal, demo_token 2 ''ab'' Normal,
    demo_token 3 ''c'' Normal, demo_token 4 ''d'' Normal, demo_token 5 ''e'' Normal]"
  have built: "build_vocabulary (replicate 6 1) (replicate 6 0) 0 small_tokens ([], [], []) = Inr (toks, t2i, [])"
    unfolding small_tokens_def six by (simp add: kind no_bytes t2i_def toks_def demo_token_def)
  have len: "length small_tokens = 6" "small_tokens \<noteq> []" by (simp_all add: small_tokens_def)
  have "map_of t2i ''<|eot_id|>'' = None" by (simp add: t2i_def)
  moreover have "length toks = 6" "map tok_text toks = small_tokens" by (simp_all add: toks_def demo_token_def small_tokens_def)
  ultimately show ?thesis
    using special by (simp add: from_gguf_def strings absent tokenizer_model_def built Let_def len)
qed

lemma small_loads: "\<exists>model. load m ''m.gguf'' (Inr small_file, None) (Inr 1856) (Inr (map of_char small_file)) = Inr model"
proof -
  obtain b dims tk where b: "ModelBinding.bind small_container tiny_config = Inr b" and dims: "from_config tiny_config = Inr dims"
    and tk: "from_gguf (m_debug m) small_container = Inr tk" "map tok_text (tk_tokens tk) = small_tokens"
    using small_binds one_block_dims small_tokenizer by metis
  have "list_all (\<lambda>d. loadable (td_type d) \<and> td_type d \<noteq> Q5_1) (gguf_tensors small_container)"
    by (simp add: small_container_def one_block_layout_def described_def loadable_def)
  from bound_weights_load [OF small_accepted [folded small_length] b dims this, of m] obtain w where
    w: "weights_load (Inr (map of_char small_file)) (store_open ''m.gguf'' small_container) b = Inr w"
    and valid: "validate_weights m w tiny_config = Inr () \<longleftrightarrow>
      d_embedding_length dims \<le> d_vocab_size dims \<and> pred_option (\<lambda>t. bad_frequency (t_data t) = None) (w_rope_freqs w)" by blast
  have "b_rope_freqs b = None"
    using b by (auto simp: bind_Inr model_named_def Let_def find_tensor_def small_container_def one_block_layout_def described_def)
  then have "w_rope_freqs w = None" using weights_load_parts(4) [OF w] by (simp add: load_optional_def)
  moreover have "d_embedding_length dims \<le> d_vocab_size dims"
    using dims by (auto simp: tiny_config_def sample_config_def from_config_def checked_mul_u64_def u64_max_def)
  moreover have "length (tk_tokens tk) = 6" using arg_cong [OF tk(2), of length] by (simp add: small_tokens_def)
  ultimately show ?thesis
    using valid
    by (simp add: load_def load_with_q8_projection_def read_metadata_def small_accepted small_architecture small_config tk(1) b w
        bound_model_is_not_fused [OF b] from_components_def tiny_config_def [THEN arg_cong, of vocab_size])
qed

lemma small_bytes: "list_all (\<lambda>b. b < 256) (map of_char text :: nat list)"
  by (simp add: list_all_iff)

end
