(* ===== verification/PlatformLaws.thy ===== *)
theory PlatformLaws
  imports KernelLaws SmallModel RuntimeLaws
begin

text \<open>
  A loaded model answers alike on every platform: the projection that a platform crate passes in reads
  the quantized blocks of the weights and of a quantized row only, and agrees with the portable one on
  every block that a model file can hold.
\<close>

section \<open>Projections that agree\<close>

definition agrees :: "q8_projection \<Rightarrow> q8_projection \<Rightarrow> bool" where
  "agrees p p' \<longleftrightarrow> (\<forall>blocks bpr input n. list_all block_wf blocks \<longrightarrow>
     p blocks bpr (quantize_q8_0_blocks input) n = p' blocks bpr (quantize_q8_0_blocks input) n)"

definition platform_projections :: "q8_projection set" where
  "platform_projections = range windows_q8_0_project_rows \<union> range macos_q8_0_project_rows"

lemma project_rows_agree:
  assumes "\<And>weight. list_all block_wf weight \<Longrightarrow> dot weight input = dot' weight input" "list_all block_wf blocks"
  shows "project_rows dot blocks bpr input n = project_rows dot' blocks bpr input n"
proof -
  have "project_row dot blocks bpr input o' = project_row dot' blocks bpr input o'" for o'
    using assms by (auto simp: project_row_def slice_def list_all_iff dest: in_set_takeD in_set_dropD)
  then have "project_row dot blocks bpr input = project_row dot' blocks bpr input" by (rule ext)
  then show ?thesis by (simp add: project_rows_def)
qed

lemma platforms_agree: "p \<in> platform_projections \<Longrightarrow> agrees p q8_0_project_rows"
  unfolding agrees_def platform_projections_def
  by (auto simp: windows_q8_0_project_rows_def macos_q8_0_project_rows_def q8_0_project_rows_def
      intro!: project_rows_agree platform_rows quantized_wf)

section \<open>The weights of a file\<close>

definition tensor_wf :: "CpuTensor \<Rightarrow> bool" where
  "tensor_wf t \<longleftrightarrow> pred_option (list_all block_wf) (t_q8_0_blocks t)"

definition layer_wf :: "LlamaLayerWeights \<Rightarrow> bool" where
  "layer_wf l \<longleftrightarrow> tensor_wf (w_attention_q l) \<and> tensor_wf (w_attention_k l) \<and> tensor_wf (w_attention_v l)
     \<and> tensor_wf (w_attention_output l) \<and> tensor_wf (w_ffn_gate l) \<and> tensor_wf (w_ffn_up l) \<and> tensor_wf (w_ffn_down l)"

definition weights_wf :: "LlamaWeights \<Rightarrow> bool" where
  "weights_wf w \<longleftrightarrow> tensor_wf (output_projection w) \<and> list_all layer_wf (w_layers w)"

definition bytes_ok :: "model_file \<Rightarrow> bool" where
  "bytes_ok file \<longleftrightarrow> (\<forall>bytes. file = Inr bytes \<longrightarrow> list_all (\<lambda>b. b < 256) bytes)"

lemma tensor_bytes_ok: "tensor_bytes file store name = Inr bytes \<Longrightarrow> bytes_ok file \<Longrightarrow> list_all (\<lambda>b. b < 256) bytes"
proof -
  assume "tensor_bytes file store name = Inr bytes" and ok: "bytes_ok file"
  then obtain d :: TensorDescriptor where "map_err (Io (ts_path store)) (read_exact_at file (td_absolute_offset d) (td_n_bytes d)) = Inr bytes"
    by (auto simp: tensor_bytes_def and_then_Inr_iff)
  then have "read_exact_at file (td_absolute_offset d) (td_n_bytes d) = Inr bytes"
    by (cases "read_exact_at file (td_absolute_offset d) (td_n_bytes d)") auto
  then obtain content where "file = Inr content" "bytes = take (td_n_bytes d) (drop (td_absolute_offset d) content)"
    by (auto simp: read_exact_at_def and_then_Inr_iff slice_def ok_or_def split: if_splits)
  then show ?thesis using ok by (auto simp: bytes_ok_def list_all_iff dest!: in_set_takeD in_set_dropD)
qed

lemma loaded_values_wf: "load_cpu_f32 file store name = Inr t \<Longrightarrow> bytes_ok file \<Longrightarrow> tensor_wf t"
  by (auto simp: load_cpu_f32_def and_then_Inr_iff plain_tensor_def tensor_wf_def split: if_splits dest!: tensor_bytes_ok
      intro: decoded_blocks_wf)

lemma loaded_linear_wf: "load_q8_0_block_backed_linear_as file store source name = Inr t \<Longrightarrow> bytes_ok file \<Longrightarrow> tensor_wf t"
  by (auto simp: load_q8_0_block_backed_linear_as_def and_then_Inr_iff renamed_def from_q8_0_blocks_def plain_tensor_def tensor_wf_def
      split: if_splits dest!: tensor_bytes_ok loaded_values_wf intro: decoded_blocks_wf)

lemmas loaded_own_linear_wf = loaded_linear_wf [folded load_q8_0_block_backed_linear_def]

lemma collected_all: "collect_results (map f xs) = Inr ys \<Longrightarrow> (\<And>x y. x \<in> set xs \<Longrightarrow> f x = Inr y \<Longrightarrow> P y) \<Longrightarrow> list_all P ys"
proof (induction xs arbitrary: ys)
  case (Cons x xs)
  then obtain y ys' where ys: "ys = y # ys'" "f x = Inr y" "collect_results (map f xs) = Inr ys'" by (auto simp: and_then_Inr_iff)
  have "list_all P ys'" using ys(3) by (rule Cons.IH) (use Cons.prems(2) in auto)
  then show ?case using Cons.prems(2) ys by auto
qed simp

lemma loaded_weights_wf:
  assumes "weights_load file store b = Inr w" "bytes_ok file"
  shows "weights_wf w"
proof -
  note parts = weights_load_parts [OF assms(1)]
  have "tensor_wf (output_projection w)"
    using parts(3) assms(2) by (auto simp: load_q8_0_block_backed_linear_def split: if_splits intro: loaded_linear_wf)
  moreover have "layer_wf l'" if "load_layer file store l = Inr l'" for l l'
    using load_layer_parts [OF that] assms(2) by (auto simp: layer_wf_def load_q8_0_block_backed_linear_def intro: loaded_linear_wf)
  ultimately show ?thesis using collected_all [OF parts(5)] by (auto simp: weights_wf_def)
qed

section \<open>The forward pass\<close>

text \<open>A decoder with another projection.\<close>

abbreviation via :: "q8_projection \<Rightarrow> Decoder \<Rightarrow> Decoder" where "via p d \<equiv> d\<lparr>d_projection := p\<rparr>"

lemma linear_row_agree:
  assumes "agrees p p'" "tensor_wf t"
  shows "linear_row p t x = linear_row p' t x"
  using assms by (auto simp: linear_row_def Let_def agrees_def tensor_wf_def split: option.splits)

lemma qk_normed_via: "qk_normed (via p d) = qk_normed d"
  by (intro ext) (simp add: qk_normed_def split: option.splits)

lemma attention_block_via:
  assumes "agrees p (d_projection d)" "layer_wf layer"
  shows "attention_block m (via p d) hidden layer l position kv = attention_block m d hidden layer l position kv"
  using assms by (simp add: attention_block_def Let_def qk_normed_via layer_wf_def linear_row_agree [OF assms(1)])

lemma ffn_block_via:
  assumes "agrees p (d_projection d)" "layer_wf layer"
  shows "ffn_block m (via p d) residual layer = ffn_block m d residual layer"
  using assms by (simp add: ffn_block_def Let_def layer_wf_def linear_row_agree [OF assms(1)])

lemma forward_layer_via:
  assumes "agrees p (d_projection d)" "layer_wf layer"
  shows "forward_layer m (via p d) hidden layer l position kv = forward_layer m d hidden layer l position kv"
  using assms by (simp add: forward_layer_def attention_block_via ffn_block_via linear_row_agree [OF assms(1)] layer_wf_def [THEN iffD1])

lemma run_fold_cong: "(\<And>x s. x \<in> set xs \<Longrightarrow> f x s = g x s) \<Longrightarrow> run_fold f xs s = run_fold g xs s"
proof (induction xs arbitrary: s)
  case (Cons x xs)
  have "run_fold f xs = run_fold g xs" by (rule ext) (use Cons in simp)
  then show ?case using Cons.prems by simp
qed simp

lemma forward_layers_via:
  assumes "agrees p (d_projection d)" "weights_wf (d_weights d)"
  shows "forward_layers m (via p d) position hidden kv = forward_layers m d position hidden kv"
proof -
  have "layer_wf layer" if "(l, layer) \<in> set (enumerate 0 (w_layers (d_weights d)))" for l layer
    using that assms(2) by (auto simp: in_set_enumerate_eq weights_wf_def list_all_length)
  then show ?thesis
    using assms(1) unfolding forward_layers_def by (auto intro!: run_fold_cong forward_layer_via)
qed

lemma logits_via:
  assumes "agrees p (d_projection d)" "weights_wf (d_weights d)"
  shows "logits_of (via p d) hidden = logits_of d hidden"
  using assms by (simp add: logits_of_def weights_wf_def linear_row_agree [OF assms(1)])

definition map_run :: "('a \<Rightarrow> 'b) \<Rightarrow> 'a run \<Rightarrow> 'b run" where "map_run f r = run_then r (\<lambda>a. return (f a))"

lemma map_run_then: "map_run f (run_then r g) = run_then r (\<lambda>a. map_run f (g a))"
  by (simp add: map_run_def run_then_assoc)

lemma map_run_simps [simp]: "map_run f (return a) = return (f a)" "map_run f (fail e) = fail e" "map_run f None = None"
  by (simp_all add: map_run_def)

lemma via_kv: "(via p d)\<lparr>d_kv := kv\<rparr> = via p (d\<lparr>d_kv := kv\<rparr>)"
  by simp

lemma run_then_cong: "(\<And>a. f a = g a) \<Longrightarrow> run_then r f = run_then r g"
  by (metis ext)

lemma forward_token_via:
  assumes "agrees p (d_projection d)" "weights_wf (d_weights d)"
  shows "forward_token m token logits (via p d) = map_run (map_prod id (via p)) (forward_token m token logits d)"
proof -
  have same: "d_kv (via p d) = d_kv d" "d_weights (via p d) = d_weights d" by simp_all
  show ?thesis
    unfolding forward_token_def Let_def same map_run_then forward_layers_via [OF assms]
    by (intro run_then_cong) (auto simp: logits_via [OF assms] map_run_then via_kv intro!: run_then_cong)
qed

lemma forward_token_keeps:
  assumes "forward_token m token logits d = return (out, d')"
  shows "d_projection d' = d_projection d" "d_weights d' = d_weights d"
  using assms unfolding forward_token_return by auto

text \<open>Answers with another projection.\<close>

definition answer_via :: "q8_projection \<Rightarrow> 's decode_answer \<Rightarrow> 's decode_answer" where
  "answer_via p = map_option (map_prod id (map_sum id (map_prod id (via p))))"

lemma prefill_via:
  assumes "agrees p (d_projection d)" "weights_wf (d_weights d)"
  shows "prefill m tokens (via p d) = map_run (via p) (prefill m tokens d)"
  using assms
proof (induction tokens arbitrary: d)
  case (Cons t ts)
  show ?case
  proof (cases "forward_token m t False d")
    case (Some r)
    show ?thesis
    proof (cases r)
      case (Inr x)
      obtain out d' where x: "x = (out, d')" by (cases x)
      then have step: "forward_token m t False d = return (out, d')" using Some Inr by (simp add: return_def)
      note kept = forward_token_keeps [OF step]
      have "prefill m ts (via p d') = map_run (via p) (prefill m ts d')" using Cons kept by simp
      then show ?thesis using Cons.prems step by (simp add: prefill_def forward_token_via)
    qed (use Some Cons.prems in \<open>simp add: prefill_def forward_token_via map_run_def\<close>)
  qed (use Cons.prems in \<open>simp add: prefill_def forward_token_via map_run_def\<close>)
qed (simp add: prefill_def)

lemma prefill_keeps:
  assumes "prefill m tokens d = return d'"
  shows "d_projection d' = d_projection d \<and> d_weights d' = d_weights d"
  using assms
proof (induction tokens arbitrary: d)
  case (Cons t ts)
  then obtain out d1 where "forward_token m t False d = return (out, d1)" "prefill m ts d1 = return d'"
    by (auto simp: prefill_def run_then_return)
  then show ?case using Cons.IH forward_token_keeps by metis
qed (simp add: prefill_def)

lemma decode_loop_via:
  assumes "agrees p (d_projection d)" "weights_wf (d_weights d)"
  shows "decode_loop m ss on_token left generated logits (via p d) s = answer_via p (decode_loop m ss on_token left generated logits d s)"
  using assms
proof (induction left arbitrary: generated logits d s)
  case 0
  then show ?case by (auto simp: decode_loop.simps [of _ _ _ 0] answer_via_def Let_def split: sum.splits prod.splits)
next
  case (Suc left)
  have next_step: "(case forward_token m t True (via p d) of None \<Rightarrow> None | Some (Inl e) \<Rightarrow> Some (s1, Inl e) | Some (Inr (None, _)) \<Rightarrow> None
      | Some (Inr (Some logits, d)) \<Rightarrow> decode_loop m ss on_token left g logits d s1)
    = answer_via p (case forward_token m t True d of None \<Rightarrow> None | Some (Inl e) \<Rightarrow> Some (s1, Inl e) | Some (Inr (None, _)) \<Rightarrow> None
      | Some (Inr (Some logits, d)) \<Rightarrow> decode_loop m ss on_token left g logits d s1)" for t g s1
  proof -
    have "decode_loop m ss on_token left g l (via p d') s1 = answer_via p (decode_loop m ss on_token left g l d' s1)"
      if "forward_token m t True d = Some (Inr (Some l, d'))" for l d'
      using that forward_token_keeps [of m t True d "Some l" d'] Suc by (simp add: return_def)
    then show ?thesis
      unfolding forward_token_via [OF Suc.prems]
      by (cases "forward_token m t True d")
        (auto simp: map_run_def run_then_def return_def answer_via_def split: sum.splits option.splits)
  qed
  show ?case
    unfolding decode_loop.simps [of _ _ _ "Suc left"] nat.case next_step
    by (auto simp: answer_via_def Let_def split: sum.splits prod.splits)
qed

lemma start_via:
  assumes "agrees p (d_projection d)" "weights_wf (d_weights d)"
  shows "run_then (prefill m ts (via p d)) (forward_token m t True) = map_run (map_prod id (via p)) (run_then (prefill m ts d) (forward_token m t True))"
proof (cases "prefill m ts d")
  case (Some r)
  show ?thesis
  proof (cases r)
    case (Inr d')
    then have "prefill m ts d = return d'" using Some by (simp add: return_def)
    then show ?thesis using prefill_keeps forward_token_via assms by (simp add: prefill_via)
  qed (use Some assms in \<open>simp add: prefill_via map_run_def\<close>)
qed (use assms in \<open>simp add: prefill_via map_run_def\<close>)

lemma start_keeps:
  assumes "run_then (prefill m ts d) (forward_token m t True) = Some (Inr (l, d'))"
  shows "d_projection d' = d_projection d" "d_weights d' = d_weights d"
proof -
  have "run_then (prefill m ts d) (forward_token m t True) = return (l, d')" using assms by (simp add: return_def)
  then obtain d1 where "prefill m ts d = return d1" "forward_token m t True d1 = return (l, d')"
    unfolding run_then_return by blast
  then show "d_projection d' = d_projection d" "d_weights d' = d_weights d" using prefill_keeps forward_token_keeps by metis+
qed

lemma generate_via:
  assumes "agrees p (d_projection d)" "weights_wf (d_weights d)"
  shows "generate_until_with_callback m prompt n ss on_token (via p d) s = answer_via p (generate_until_with_callback m prompt n ss on_token d s)"
proof -
  define r where "r = run_then (prefill m (butlast prompt) d) (forward_token m (last prompt) True)"
  have start: "run_then (prefill m (butlast prompt) (via p d)) (forward_token m (last prompt) True) = map_run (map_prod id (via p)) r"
    unfolding r_def by (rule start_via [OF assms])
  have loop: "decode_loop m ss on_token (n - 1) [] l (via p d') s = answer_via p (decode_loop m ss on_token (n - 1) [] l d' s)"
    if "r = Some (Inr (Some l, d'))" for l d'
    using start_keeps [OF that [unfolded r_def]] assms by (intro decode_loop_via) simp_all
  show ?thesis
    unfolding generate_until_with_callback_def start r_def [symmetric]
    using loop by (auto simp: map_run_def answer_via_def run_then_def return_def split: sum.splits option.splits prod.splits)
qed

section \<open>Models\<close>

abbreviation model_via :: "q8_projection \<Rightarrow> LoadedModel \<Rightarrow> LoadedModel" where "model_via p model \<equiv> model\<lparr>lm_q8_projection := p\<rparr>"

lemma decoder_via:
  "with_q8_projection config weights p = and_then (with_q8_projection config weights p') (\<lambda>d. Inr (via p d))"
  by (auto simp: with_q8_projection_def and_then_def split: sum.splits)

lemma decoder_parts: "with_q8_projection config weights p = Inr d \<Longrightarrow> d_projection d = p \<and> d_weights d = weights"
  by (auto simp: with_q8_projection_def and_then_Inr_iff)

lemma eog_via: "is_eog (model_via p model) = is_eog model"
  by (rule ext) (simp add: is_eog_def)

lemma completed_via: "completed_generation lib (model_via p model) = completed_generation lib model"
  by (intro ext) (simp add: completed_generation_def eog_via)

lemma validated_via: "validate_generation_request (model_via p model) = validate_generation_request model"
  by (intro ext) (simp add: validate_generation_request_def)

lemma delta_step_via: "delta_step lib (model_via p model) on_token = delta_step lib model on_token"
  by (intro ext) (simp add: delta_step_def)

lemmas models_via = eog_via completed_via validated_via delta_step_via

lemma generate_until_via:
  assumes "agrees p (d_projection d)" "weights_wf (d_weights d)"
  shows "generate_until m prompt n ss (via p d) = map_run (map_prod id (via p)) (generate_until m prompt n ss d)"
  unfolding generate_until_def generate_via [OF assms]
  by (auto simp: answer_via_def map_run_def split: option.splits sum.splits prod.splits)

lemma model_generate_via:
  assumes "agrees p (lm_q8_projection model)" "weights_wf (lm_weights model)"
  shows "model_generate lib m (model_via p model) prompt n = model_generate lib m model prompt n"
proof (cases "with_q8_projection (lm_config model) (lm_weights model) (lm_q8_projection model)")
  case (Inl e)
  then show ?thesis
    using decoder_via [of "lm_config model" "lm_weights model" p "lm_q8_projection model"]
    by (simp add: model_generate_def models_via lift_def)
next
  case (Inr d)
  have "generate_until m prompt n (is_eog model) (via p d) = map_run (map_prod id (via p)) (generate_until m prompt n (is_eog model) d)"
    using decoder_parts [OF Inr] assms by (intro generate_until_via) simp_all
  then show ?thesis
    using Inr decoder_via [of "lm_config model" "lm_weights model" p "lm_q8_projection model"]
    by (auto simp: model_generate_def models_via lift_def map_run_def run_then_assoc intro!: run_then_cong)
qed

lemma generate_incremental_via:
  assumes "agrees p (lm_q8_projection model)" "weights_wf (lm_weights model)"
  shows "generate_incremental lib m (model_via p model) prompt n on_token s = generate_incremental lib m model prompt n on_token s"
proof (cases "with_q8_projection (lm_config model) (lm_weights model) (lm_q8_projection model)")
  case (Inl e)
  then show ?thesis
    using decoder_via [of "lm_config model" "lm_weights model" p "lm_q8_projection model"]
    by (simp add: generate_incremental_def models_via and_then_def split: sum.splits)
next
  case (Inr d)
  note same = generate_via [of p d m prompt n "is_eog model" "delta_step lib model on_token" "(s, incremental_decoder)"]
  have "agrees p (d_projection d)" "weights_wf (d_weights d)" using decoder_parts [OF Inr] assms by simp_all
  then show ?thesis
    using Inr decoder_via [of "lm_config model" "lm_weights model" p "lm_q8_projection model"] same
    by (auto simp: generate_incremental_def models_via and_then_def answer_via_def split: sum.splits option.splits prod.splits)
qed

lemma load_via:
  assumes "load_with_q8_projection m path header len file p = Inr model"
  shows "load_with_q8_projection m path header len file p' = Inr (model_via p' model)" "lm_q8_projection model = p"
  using assms by (auto simp: load_with_q8_projection_def and_then_Inr_iff from_components_def split: if_splits)

lemma load_wf:
  assumes "load_with_q8_projection m path header len file p = Inr model" "bytes_ok file"
  shows "weights_wf (lm_weights model)"
  using assms by (auto simp: load_with_q8_projection_def and_then_Inr_iff from_components_def split: if_splits intro: loaded_weights_wf)

text \<open>Property C19: a replica answers alike on every platform: a model file that loads with the portable projection loads with
  the projection of every platform crate, on every host, and then every generation, whole or incremental, has
  the same answer, errors and panics included.\<close>

theorem platforms_generate_alike:
  assumes "load m path header len file = Inr model" "bytes_ok file" "p \<in> platform_projections"
  shows "\<exists>model'. load_with_q8_projection m path header len file p = Inr model' \<and>
    (\<forall>prompt n. model_generate lib m model' prompt n = model_generate lib m model prompt n) \<and>
    (\<forall>prompt n (on_token :: 's delta_consumer) s.
       generate_incremental lib m model' prompt n on_token s = generate_incremental lib m model prompt n on_token s)"
proof (intro exI conjI allI)
  note loaded = assms(1) [unfolded load_def]
  show "load_with_q8_projection m path header len file p = Inr (model_via p model)" by (rule load_via(1) [OF loaded])
  have same: "agrees p (lm_q8_projection model)" "weights_wf (lm_weights model)"
    using load_via(2) [OF loaded] platforms_agree [OF assms(3)] load_wf [OF loaded assms(2)] by simp_all
  show "model_generate lib m (model_via p model) prompt n = model_generate lib m model prompt n" for prompt n
    by (rule model_generate_via [OF same])
  show "generate_incremental lib m (model_via p model) prompt n on_token s = generate_incremental lib m model prompt n on_token s"
    for prompt n and on_token :: "'s delta_consumer" and s by (rule generate_incremental_via [OF same])
qed

theorem platforms_generate_alike_witness:
  "\<exists>(model :: LoadedModel) (model' :: LoadedModel).
     load zero_libm ''m.gguf'' (Inr small_file, None) (Inr 1856) (Inr (map of_char small_file)) = Inr model \<and>
     load_with_q8_projection zero_libm ''m.gguf'' (Inr small_file, None) (Inr 1856) (Inr (map of_char small_file))
       (windows_q8_0_project_rows True) = Inr model' \<and>
     model_generate demo_chars zero_libm model' [1, 2] 4 = model_generate demo_chars zero_libm model [1, 2] 4"
proof -
  obtain model where model: "load zero_libm ''m.gguf'' (Inr small_file, None) (Inr 1856) (Inr (map of_char small_file)) = Inr model"
    using small_loads by blast
  have bytes: "bytes_ok (Inr (map of_char small_file))" using small_bytes by (simp add: bytes_ok_def)
  have "windows_q8_0_project_rows True \<in> platform_projections" by (simp add: platform_projections_def)
  from platforms_generate_alike [where lib = demo_chars and 's = unit, OF model bytes this] model show ?thesis by blast
qed

end
