(* ===== verification/QuantizerLaws.thy ===== *)
theory QuantizerLaws
  imports Kernels ForwardLaws
begin

text \<open>
  Laws of the vector quantizers: lane by lane, the AVX2 instructions compute what the portable quantizer
  does for every bit pattern, and the NEON instructions for every block without a not-a-number.
\<close>

section \<open>Exact values\<close>

lemma representable:
  assumes "n < 2 ^ 24"
  shows "\<exists>b. magnitude 23 b = n * 2 ^ k"
proof (cases "n = 0")
  case False
  define j where "j = min k (24 - bit_length n)"
  have low: "2 ^ (bit_length n - 1) \<le> n" and up: "n < 2 ^ bit_length n" using False bit_length_lower bit_length_upper by auto
  have pos: "0 < bit_length n" using up False by (cases "bit_length n") auto
  have "(2 :: nat) ^ (bit_length n - 1) < 2 ^ 24" using low assms by (rule le_less_trans)
  then have l: "bit_length n \<le> 24" using power_strict_increasing_iff [of "2 :: nat" "bit_length n - 1" 24] by simp
  have "n * 2 ^ j \<le> 2 ^ bit_length n * 2 ^ j" using up by simp
  also have "\<dots> \<le> 2 ^ 24" unfolding power_add [symmetric] using l by (intro power_increasing) (simp_all add: j_def)
  finally have m: "n * 2 ^ j \<le> 2 ^ (23 + 1)" by simp
  have "k - j = 0 \<or> 2 ^ 23 \<le> n * 2 ^ j"
  proof (cases "k \<le> 24 - bit_length n")
    case False
    then have j: "bit_length n - 1 + j = 23" using l pos by (simp add: j_def)
    have "2 ^ (bit_length n - 1) * 2 ^ j \<le> n * 2 ^ j" using low by (rule mult_right_mono) simp
    then show ?thesis unfolding power_add [symmetric] j by simp
  qed (simp add: j_def)
  from magnitude_encoding [OF m this] have "magnitude 23 ((k - j) * 2 ^ 23 + n * 2 ^ j) = n * 2 ^ (j + (k - j))"
    by (simp only: power_add mult.assoc)
  also have "j + (k - j) = k" by (simp add: j_def)
  finally show ?thesis by blast
qed (auto intro!: exI [of _ 0] simp: magnitude_def)

text \<open>A value below \<open>2 ^ 157\<close> units, exactly.\<close>

lemma large_magnitude: "(2 :: nat) ^ 157 < magnitude 23 0x7F800000"
  by (simp add: magnitude_def)

lemma round_exact:
  assumes "\<exists>b. magnitude 23 b = z" "z \<le> 2 ^ 157"
  shows "f32_is_finite (f32_round s z 0)" "f32_units (f32_round s z 0) = z" "f32_negative (f32_round s z 0) = s"
proof -
  obtain b where b: "magnitude 23 b = z" using assms(1) by blast
  have "magnitude 23 b < magnitude 23 0x7F800000" using b assms(2) large_magnitude by linarith
  then have less: "b < 0x7F800000" by (simp only: magnitude_less_iff)
  have "fp_round 23 z 0 = b" using fp_round_exact [of 23 b 0] b by simp
  then show "f32_is_finite (f32_round s z 0)" "f32_units (f32_round s z 0) = z" "f32_negative (f32_round s z 0) = s"
    using less b by (simp_all add: f32_round_def f32_is_finite_def f32_units_def f32_make_fields)
qed

lemma round_exact_signed:
  assumes "\<exists>b. magnitude 23 b = z" "z \<le> 2 ^ 157"
  shows "f32_signed (f32_round s z 0) = (if s then - int z else int z)"
  using round_exact [OF assms] by (simp add: f32_signed_def)

text \<open>One is \<open>2 ^ 149\<close> units.\<close>

definition one :: nat where "one = 2 ^ 149"

lemma one_pos [simp]: "0 < one" by (simp add: one_def)

lemma integer_representable: "n < 2 ^ 24 \<Longrightarrow> \<exists>b. magnitude 23 b = n * one"
  unfolding one_def by (rule representable)

text \<open>The distance of a value from an integer next to it is a value: it is a multiple of the last place of
  the value, and not larger.\<close>

lemma unit_in_last_place:
  "\<exists>k. 2 ^ k dvd f32_units y \<and> f32_units y < 2 ^ 24 * 2 ^ k \<and> (k = 0 \<or> 2 ^ (23 + k) \<le> f32_units y)"
proof (cases "f32_magnitude y div 2 ^ 23 = 0")
  case True
  then have "f32_units y < 2 ^ 24" by (simp add: f32_units_def magnitude_def)
  then show ?thesis by (intro exI [of _ 0]) simp
next
  case False
  define k where "k = f32_magnitude y div 2 ^ 23 - 1"
  define f where "f = 2 ^ 23 + f32_magnitude y mod 2 ^ 23"
  have u: "f32_units y = f * 2 ^ k" using False by (simp add: f32_units_def magnitude_def k_def f_def)
  have f: "2 ^ 23 \<le> f" "f < 2 ^ 24" by (simp_all add: f_def)
  have "2 ^ (23 + k) \<le> f * 2 ^ k" unfolding power_add using f(1) by (rule mult_right_mono) simp
  then show ?thesis using f(2) by (intro exI [of _ k]) (simp add: u)
qed

lemma distance_representable:
  assumes "int z = \<bar>int (f32_units y) - int (n * one)\<bar>" "z \<le> f32_units y" "f32_units y < 2 ^ 172"
  shows "\<exists>b. magnitude 23 b = z"
proof -
  obtain k where k: "2 ^ k dvd f32_units y" "f32_units y < 2 ^ 24 * 2 ^ k" "k = 0 \<or> 2 ^ (23 + k) \<le> f32_units y"
    using unit_in_last_place by blast
  have "k \<le> 149"
  proof (cases "k = 0")
    case False
    then have "(2 :: nat) ^ (23 + k) < 2 ^ 172" using k(3) assms(3) by linarith
    then have "23 + k < 172" using power_strict_increasing_iff [of "2 :: nat" "23 + k" 172] by simp
    then show ?thesis by simp
  qed simp
  then have "(2 :: nat) ^ k dvd one" unfolding one_def by (rule le_imp_power_dvd)
  then have "(2 :: nat) ^ k dvd n * one" by (rule dvd_mult)
  then have "int (2 ^ k) dvd int (f32_units y) - int (n * one)" using k(1) by (intro dvd_diff) (simp_all only: int_dvd_int_iff)
  then have "int (2 ^ k) dvd int z" unfolding assms(1) by simp
  then have "2 ^ k dvd z" by (simp only: int_dvd_int_iff)
  then obtain c where c: "z = c * 2 ^ k" by (metis dvd_div_mult_self)
  have "c * 2 ^ k < 2 ^ 24 * 2 ^ k" using assms(2) k(2) c by linarith
  then have "c < 2 ^ 24" by simp
  from representable [OF this] show ?thesis by (simp only: c)
qed

section \<open>Rounding and clamping\<close>

definition half_away :: "nat \<Rightarrow> nat" where "half_away u = (2 * u + one) div (2 * one)"

definition away :: "f32 \<Rightarrow> int" where
  "away y = (if f32_negative y then - int (half_away (f32_units y)) else int (half_away (f32_units y)))"

lemma half_carry: "r < k \<Longrightarrow> (2 * r + k) div (2 * k) = (if k \<le> 2 * r then 1 else 0 :: nat)"
  by (auto intro!: div_nat_eqI)

lemma half_away_cases: "half_away u = (if one \<le> 2 * (u mod one) then u div one + 1 else u div one)"
proof -
  have u: "u = u div one * one + u mod one" and r: "u mod one < one" by (simp_all add: div_mult_mod_eq)
  have "2 * u + one = (u div one) * (2 * one) + (2 * (u mod one) + one)" using u by (metis add.assoc add_mult_distrib2 mult.left_commute)
  then have "half_away u = u div one + (2 * (u mod one) + one) div (2 * one)" unfolding half_away_def by (metis div_mult_self3 mult_eq_0_iff one_pos
    less_irrefl zero_neq_numeral)
  moreover have "(2 * (u mod one) + one) div (2 * one) = (if one \<le> 2 * (u mod one) then 1 else 0)"
    by (rule half_carry) (simp add: r)
  ultimately show ?thesis by simp
qed

lemma half_away_multiple [simp]: "half_away (n * one) = n"
  using one_pos by (simp add: half_away_cases del: one_pos)

lemma half_away_mono: "u \<le> v \<Longrightarrow> half_away u \<le> half_away v"
  unfolding half_away_def by (intro div_le_mono) simp

lemma make_fields:
  "f32_magnitude (f32_make s b) = min b 0x7F800000" "f32_negative (f32_make s b) = s"
proof -
  have "unat (f32_make s b) = (if s then 2 ^ 31 else 0) + min b 0x7F800000"
    unfolding f32_make_def by (simp only: unsigned_of_nat) (simp add: take_bit_nat_eq_self_iff min_less_iff_disj)
  then show "f32_magnitude (f32_make s b) = min b 0x7F800000" "f32_negative (f32_make s b) = s"
    by (simp_all add: f32_magnitude_def f32_negative_def)
qed

abbreviation lo :: f32 where "lo \<equiv> f32_of_int (- 128)"
abbreviation hi :: f32 where "hi \<equiv> f32_of_int 127"

lemma bounds_signed: "f32_signed lo = - 128 * int one" "f32_signed hi = 127 * int one" "\<not> f32_is_nan lo" "\<not> f32_is_nan hi"
  using f32_of_int_exact [of "- 128"] f32_of_int_exact [of 127] by (simp_all add: one_def finite_not_nan)

lemma lt_signed: "\<not> f32_is_nan a \<Longrightarrow> \<not> f32_is_nan b \<Longrightarrow> f32_lt a b \<longleftrightarrow> f32_signed a < f32_signed b"
  by (simp add: f32_lt_def key_order)

lemma clamp_signed:
  assumes "\<not> f32_is_nan a"
  shows "f32_clamp a lo hi = (if f32_signed a < - 128 * int one then lo else if 127 * int one < f32_signed a then hi else a)"
  using assms by (simp add: f32_clamp_def lt_signed bounds_signed)

lemma away_signed: "away y = (if f32_signed y < 0 then - int (half_away (nat (- f32_signed y))) else int (half_away (nat (f32_signed y))))"
proof -
  have "half_away 0 = 0" using half_away_multiple [of 0] by (simp only: mult_0)
  then show ?thesis by (auto simp: away_def f32_signed_def)
qed

text \<open>The integer of a lane: rounded half away from zero and saturated.\<close>

definition lane_value :: "f32 \<Rightarrow> int" where
  "lane_value x = max (- 128) (min 127 (away x))"

lemma clamped_away:
  assumes "\<not> f32_is_nan x"
  shows "away (f32_clamp x lo hi) = lane_value x"
proof -
  have signs: "half_away (nat (128 * int one)) = 128" "half_away (nat (127 * int one)) = 127"
    using half_away_multiple [of 128] half_away_multiple [of 127] by (simp_all add: nat_mult_distrib)
  consider (low) "f32_signed x < - 128 * int one" | (high) "127 * int one < f32_signed x"
    | (mid) "- 128 * int one \<le> f32_signed x" "f32_signed x \<le> 127 * int one" by linarith
  then show ?thesis
  proof cases
    case low
    then have "128 \<le> half_away (nat (- f32_signed x))"
      using half_away_mono [of "nat (128 * int one)" "nat (- f32_signed x)"] signs by simp
    moreover have "f32_signed x < 0" using low by (simp add: one_def)
    ultimately show ?thesis using low signs assms by (simp add: clamp_signed lane_value_def away_signed bounds_signed)
  next
    case high
    then have "127 \<le> half_away (nat (f32_signed x))"
      using half_away_mono [of "nat (127 * int one)" "nat (f32_signed x)"] signs by simp
    moreover have "\<not> f32_signed x < 0" using high by (simp add: one_def)
    ultimately show ?thesis using high signs assms by (simp add: clamp_signed lane_value_def away_signed bounds_signed)
  next
    case mid
    have "half_away (nat (- f32_signed x)) \<le> 128" "half_away (nat (f32_signed x)) \<le> 127"
      using half_away_mono [of "nat (- f32_signed x)" "nat (128 * int one)"] half_away_mono [of "nat (f32_signed x)" "nat (127 * int one)"]
        signs mid by simp_all
    then show ?thesis using mid assms by (simp add: clamp_signed lane_value_def away_signed)
  qed
qed

section \<open>The portable quantizer, lane by lane\<close>

lemma as_i8_integer:
  assumes "f32_is_finite a" "f32_units a = n * one" "n \<le> 128"
  shows "f32_as_i8 a = (if f32_negative a then - int n else min 127 (int n))"
proof -
  have "\<not> f32_is_nan a" "\<not> f32_is_inf a" using assms(1) by (simp_all add: f32_is_finite_def f32_is_nan_def f32_is_inf_def)
  moreover have "f32_units a div 2 ^ 149 = n" using assms(2) by (simp add: one_def)
  ultimately show ?thesis using assms(3) by (simp add: f32_as_i8_def Let_def)
qed

lemma bounds_as_i8: "f32_as_i8 lo = - 128" "f32_as_i8 hi = 127"
proof -
  have lo: "lo = f32_round True (128 * one) 0" and hi: "hi = f32_round False (127 * one) 0" by (simp_all add: f32_of_int_def one_def)
  note exact = round_exact [OF integer_representable [of 128], unfolded one_def, simplified] round_exact [OF integer_representable [of 127], unfolded one_def, simplified]
  show "f32_as_i8 lo = - 128" unfolding lo by (subst as_i8_integer [where n = 128]) (simp_all add: exact one_def)
  show "f32_as_i8 hi = 127" unfolding hi by (subst as_i8_integer [where n = 127]) (simp_all add: exact one_def)
qed

lemma rounded_large:
  assumes "129 \<le> n"
  shows "\<not> f32_is_nan (f32_round s (n * one) 0)" "129 * int one \<le> \<bar>f32_signed (f32_round s (n * one) 0)\<bar>"
    "f32_negative (f32_round s (n * one) 0) = s"
proof -
  obtain b where b: "magnitude 23 b = 129 * one" using integer_representable [of 129] by auto
  have "fp_round 23 (129 * one) 0 = b" using fp_round_exact [of 23 b 0] b by simp
  moreover have "fp_round 23 (129 * one) 0 \<le> fp_round 23 (n * one) 0" using assms by (intro fp_round_mono mult_le_mono1)
  moreover have "magnitude 23 b < magnitude 23 0x7F800000" unfolding b using large_magnitude by (simp add: one_def)
  then have "b < 0x7F800000" by (simp only: magnitude_less_iff)
  ultimately have "b \<le> min (fp_round 23 (n * one) 0) 0x7F800000" by simp
  then have "129 * one \<le> f32_units (f32_round s (n * one) 0)"
    unfolding b [symmetric] by (simp only: f32_units_def f32_round_def make_fields magnitude_le_iff)
  then show "129 * int one \<le> \<bar>f32_signed (f32_round s (n * one) 0)\<bar>" by (auto simp: f32_signed_def)
  show "\<not> f32_is_nan (f32_round s (n * one) 0)" by (simp add: f32_round_def f32_is_nan_def make_fields)
  show "f32_negative (f32_round s (n * one) 0) = s" by (simp add: f32_round_def make_fields)
qed

lemma clamp_outside:
  assumes "\<not> f32_is_nan a" "129 * int one \<le> \<bar>f32_signed a\<bar>"
  shows "f32_clamp a lo hi = (if f32_negative a then lo else hi)"
proof -
  have pos: "0 < int one" by simp
  have "129 * int one \<le> int (f32_units a)" using assms(2) by (simp add: f32_signed_def split: if_splits)
  then have u: "128 * int one < int (f32_units a)" using pos by linarith
  then have "\<not> 127 * int one < - int (f32_units a)" "127 * int one < int (f32_units a)" "\<not> int (f32_units a) < - 128 * int one"
    using pos by linarith+
  then show ?thesis using assms(1) u by (simp add: clamp_signed f32_signed_def)
qed

lemma reference_lane: "f32_as_i8 (f32_clamp (f32_round_integer x) lo hi) = (if f32_is_nan x then 0 else lane_value x)"
proof -
  consider (nan) "f32_is_nan x" | (inf) "f32_is_inf x" | (finite) "f32_is_finite x"
    unfolding f32_is_nan_def f32_is_inf_def f32_is_finite_def by linarith
  then show ?thesis
  proof cases
    case nan
    then have "f32_round_integer x = x" by (simp add: f32_round_integer_def f32_is_nan_def f32_is_finite_def)
    then show ?thesis using nan by (simp add: f32_clamp_def f32_lt_def f32_as_i8_def)
  next
    case inf
    then have r: "f32_round_integer x = x" and not_nan: "\<not> f32_is_nan x"
      by (simp_all add: f32_round_integer_def f32_is_nan_def f32_is_finite_def f32_is_inf_def)
    have u: "129 * one \<le> f32_units x" using inf large_magnitude by (simp add: f32_units_def f32_is_inf_def one_def)
    then have "129 \<le> half_away (f32_units x)" using half_away_mono [OF u] by simp
    then show ?thesis
      using u not_nan bounds_as_i8 by (auto simp: r clamp_outside f32_signed_def lane_value_def away_def)
  next
    case finite
    then have not_nan: "\<not> f32_is_nan x" by (rule finite_not_nan)
    define n where "n = half_away (f32_units x)"
    have r: "f32_round_integer x = f32_round (f32_negative x) (n * one) 0"
      using finite by (simp add: f32_round_integer_def n_def half_away_def one_def)
    show ?thesis
    proof (cases "129 \<le> n")
      case True
      then show ?thesis
        using bounds_as_i8 not_nan rounded_large [OF True] by (auto simp: r clamp_outside lane_value_def away_def n_def [symmetric])
    next
      case False
      then have n: "n < 2 ^ 24" "n \<le> 128" by simp_all
      have "n * one \<le> 2 ^ 157" using n(2) mult_le_mono1 [of n 128 one] by (simp add: one_def)
      note exact = round_exact [OF integer_representable [OF n(1)] this] round_exact_signed [OF integer_representable [OF n(1)] this]
      have inside: "f32_clamp (f32_round_integer x) lo hi = (if f32_negative x = False \<and> n = 128 then hi else f32_round_integer x)"
      proof -
        have pos: "0 < int one" by simp
        have le: "int n * int one \<le> 128 * int one" "0 \<le> int n * int one" using n(2) by (simp_all add: mult_right_mono)
        have top: "127 * int one < int n * int one \<longleftrightarrow> n = 128" using n(2) by auto
        have "\<not> 127 * int one < - (int n * int one)" "\<not> int n * int one < - 128 * int one" "\<not> - (int n * int one) < - 128 * int one"
          using le pos by linarith+
        then show ?thesis using exact top by (auto simp: r clamp_signed finite_not_nan)
      qed
      show ?thesis
      proof (cases "f32_negative x = False \<and> n = 128")
        case True
        then show ?thesis using not_nan by (simp add: inside bounds_as_i8 lane_value_def away_def n_def [symmetric])
      next
        case False
        have "f32_as_i8 (f32_round_integer x) = (if f32_negative x then - int n else min 127 (int n))"
          unfolding r using as_i8_integer [OF exact(1,2) n(2)] exact(3) by simp
        then show ?thesis using False not_nan n(2) by (auto simp: inside lane_value_def away_def n_def [symmetric])
      qed
    qed
  qed
qed

section \<open>The NEON quantizer, lane by lane\<close>

lemma signed_inj:
  assumes "f32_signed a = f32_signed b" "f32_signed a \<noteq> 0"
  shows "a = b"
proof -
  have "f32_negative a = f32_negative b" "f32_units a = f32_units b" using assms by (auto simp: f32_signed_def split: if_splits)
  then have "f32_magnitude a = f32_magnitude b" by (simp add: f32_units_def magnitude_inj)
  moreover have "unat w = f32_magnitude w + (if f32_negative w then 2 ^ 31 else 0)" for w :: f32
    using unsigned_less [where 'a = nat, of w] by (cases "unat w < 2 ^ 31") (simp_all add: f32_magnitude_def f32_negative_def le_mod_geq)
  ultimately have "unat a = unat b" using \<open>f32_negative a = f32_negative b\<close> by simp
  then show ?thesis by (simp add: word_unat_eq_iff)
qed

lemma neon_clamp:
  assumes "\<not> f32_is_nan x"
  shows "fmin (fmax x lo) hi = f32_clamp x lo hi"
proof -
  have pos: "0 < int one" by simp
  consider (low) "f32_signed x < - 128 * int one" | (at) "f32_signed x = - 128 * int one" | (mid) "- 128 * int one < f32_signed x" by linarith
  then show ?thesis
  proof cases
    case low
    then have "\<not> 127 * int one < f32_signed x" "\<not> 127 * int one < - 128 * int one" using pos by linarith+
    then show ?thesis using assms low by (simp add: fmin_def fmax_def clamp_signed lt_signed bounds_signed)
  next
    case at
    then have "x = lo" using pos by (intro signed_inj) (simp_all add: bounds_signed)
    have "\<not> 127 * int one < - 128 * int one" using pos by linarith
    then show ?thesis using assms unfolding \<open>x = lo\<close> by (simp add: fmin_def fmax_def clamp_signed lt_signed bounds_signed)
  next
    case mid
    then have max: "fmax x lo = x" using assms by (simp add: fmax_def lt_signed bounds_signed)
    consider (below) "f32_signed x < 127 * int one" | (at) "f32_signed x = 127 * int one" | (above) "127 * int one < f32_signed x" by linarith
    then show ?thesis
    proof cases
      case at
      then have "x = hi" using pos by (intro signed_inj) (simp_all add: bounds_signed)
      have "\<not> 127 * int one < - 128 * int one" "\<not> 127 * int one < - (128 * int one)" using pos by linarith+
      then show ?thesis unfolding max using assms unfolding \<open>x = hi\<close> by (simp add: fmin_def clamp_signed lt_signed bounds_signed)
    qed (use mid assms in \<open>simp_all add: max fmin_def clamp_signed lt_signed bounds_signed\<close>)
  qed
qed

lemma clamped:
  assumes "\<not> f32_is_nan x"
  shows "f32_is_finite (f32_clamp x lo hi)" "- 128 * int one \<le> f32_signed (f32_clamp x lo hi)" "f32_signed (f32_clamp x lo hi) \<le> 127 * int one"
    "f32_units (f32_clamp x lo hi) \<le> 128 * one"
proof -
  have pos: "0 < int one" by simp
  have range: "- 128 * int one \<le> f32_signed (f32_clamp x lo hi) \<and> f32_signed (f32_clamp x lo hi) \<le> 127 * int one"
    using pos assms by (auto simp: clamp_signed bounds_signed)
  then show "- 128 * int one \<le> f32_signed (f32_clamp x lo hi)" "f32_signed (f32_clamp x lo hi) \<le> 127 * int one" by simp_all
  have "int (f32_units (f32_clamp x lo hi)) \<le> 128 * int one" using range pos by (simp add: f32_signed_def split: if_splits)
  then have "int (f32_units (f32_clamp x lo hi)) \<le> int (128 * one)" by simp
  then show units: "f32_units (f32_clamp x lo hi) \<le> 128 * one" by (rule of_nat_le_iff [THEN iffD1])
  have "128 * one < magnitude 23 0x7F800000" using large_magnitude by (simp add: one_def)
  with units have "f32_units (f32_clamp x lo hi) < magnitude 23 0x7F800000" by (rule le_less_trans)
  then show "f32_is_finite (f32_clamp x lo hi)" by (simp only: f32_units_def magnitude_less_iff f32_is_finite_def)
qed

lemma lane_value_range: "- 128 \<le> lane_value x" "lane_value x \<le> 127"
  by (simp_all add: lane_value_def)

lemma fcvtas_clamped:
  assumes "\<not> f32_is_nan x"
  shows "fcvtas (f32_clamp x lo hi) = word_of_int (lane_value x)"
proof -
  let ?y = "f32_clamp x lo hi"
  have fin: "\<not> f32_is_nan ?y" "\<not> f32_is_inf ?y" using clamped(1) [OF assms] by (simp_all add: f32_is_finite_def f32_is_nan_def f32_is_inf_def)
  have "away ?y = lane_value x" by (rule clamped_away [OF assms])
  then have "(let q = int ((2 * f32_units ?y + 2 ^ 149) div 2 ^ 150) in saturated 32 (if f32_negative ?y then - q else q)) = saturated 32 (lane_value x)"
    by (simp add: away_def half_away_def one_def Let_def split: if_splits)
  also have "\<dots> = lane_value x" using lane_value_range [of x] by (simp add: saturated_def)
  finally show ?thesis using fin by (simp only: fcvtas_def if_False)
qed

section \<open>The largest magnitude\<close>

definition is_mag :: "f32 \<Rightarrow> bool" where "is_mag w \<longleftrightarrow> \<not> f32_is_nan w \<and> \<not> f32_negative w"

lemma mag_lt: "is_mag a \<Longrightarrow> is_mag b \<Longrightarrow> f32_lt a b \<longleftrightarrow> a < b"
proof -
  assume mags: "is_mag a" "is_mag b"
  have key: "f32_key w = int (unat w)" if "is_mag w" for w
    using that by (simp add: is_mag_def f32_key_def f32_negative_def f32_magnitude_def)
  show "f32_lt a b \<longleftrightarrow> a < b"
    using mags key [OF mags(1)] key [OF mags(2)] unfolding is_mag_def f32_lt_def word_less_nat_alt by (simp only: of_nat_less_iff simp_thms)
qed

lemma mag_max:
  assumes "is_mag a" "is_mag b"
  shows "f32_max a b = max a b" "x86_max a b = max a b" "fmax a b = max a b"
proof -
  have "\<not> f32_is_nan a" "\<not> f32_is_nan b" using assms by (simp_all add: is_mag_def)
  then show "f32_max a b = max a b" "x86_max a b = max a b" "fmax a b = max a b"
    using assms by (auto simp: f32_max_def x86_max_def fmax_def mag_lt max_def)
qed

lemma mag_of_max: "is_mag a \<Longrightarrow> is_mag b \<Longrightarrow> is_mag (max a b)"
  by (simp add: max_def)

lemma abs_mag: "\<not> f32_is_nan a \<Longrightarrow> is_mag (f32_abs a)"
proof -
  have "f32_magnitude a < 2 ^ 31" by (simp add: f32_magnitude_def)
  then have "unat (f32_abs a) = f32_magnitude a"
    unfolding f32_abs_def by (simp only: unsigned_of_nat) (simp add: take_bit_nat_eq_self_iff)
  then show "\<not> f32_is_nan a \<Longrightarrow> is_mag (f32_abs a)"
    using \<open>f32_magnitude a < 2 ^ 31\<close> by (simp add: is_mag_def f32_negative_def f32_is_nan_def f32_magnitude_def [of "f32_abs a"])
qed

lemma zero_mag [simp]: "is_mag 0"
  by (simp add: is_mag_def f32_is_nan_def f32_magnitude_def f32_negative_def)

text \<open>The largest word of a list; the words of magnitudes are ordered as their values.\<close>

definition peak :: "f32 list \<Rightarrow> f32" where "peak xs = foldr max xs 0"

lemma peak_simps [simp]: "peak [] = 0" "peak (x # xs) = max x (peak xs)"
  by (simp_all add: peak_def)

lemma peak_append: "peak (xs @ ys) = max (peak xs) (peak ys)"
  by (induction xs) (simp_all add: max.assoc)

lemma peak_map2: "length xs = length ys \<Longrightarrow> peak (map2 max xs ys) = max (peak xs) (peak ys)"
  by (induction xs ys rule: list_induct2) (simp_all add: ac_simps)

lemma foldl_peak: "foldl max a xs = max a (peak xs)"
  by (induction xs arbitrary: a) (simp_all add: max.assoc)

lemma mag_lanes:
  assumes "list_all is_mag xs" "list_all is_mag ys" "length xs = length ys"
  shows "vmax_f32 xs ys = map2 max xs ys" "max_ps xs ys = map2 max xs ys" "list_all is_mag (map2 max xs ys)"
proof -
  show "vmax_f32 xs ys = map2 max xs ys" "max_ps xs ys = map2 max xs ys" "list_all is_mag (map2 max xs ys)"
    using assms(3,1,2) by (induction xs ys rule: list_induct2) (simp_all add: vmax_f32_def max_ps_def mag_max mag_of_max)
qed

lemma reference_peak:
  "foldl (\<lambda>acc v. f32_max acc (f32_abs v)) 0 block = peak (map (\<lambda>v. if f32_is_nan v then 0 else f32_abs v) block)"
proof -
  have nan: "f32_is_nan v \<Longrightarrow> f32_is_nan (f32_abs v)" for v
  proof -
    have "f32_magnitude v < 2 ^ 31" by (simp add: f32_magnitude_def)
    then have "unat (f32_abs v) = f32_magnitude v"
      unfolding f32_abs_def by (simp only: unsigned_of_nat) (simp add: take_bit_nat_eq_self_iff)
    then show "f32_is_nan v \<Longrightarrow> f32_is_nan (f32_abs v)"
      using \<open>f32_magnitude v < 2 ^ 31\<close> by (simp add: f32_is_nan_def f32_magnitude_def [of "f32_abs v"])
  qed
  have step: "f32_max acc (f32_abs v) = max acc (if f32_is_nan v then 0 else f32_abs v)" if "is_mag acc" for acc v
  proof (cases "f32_is_nan v")
    case True
    then show ?thesis using that nan [OF True] by (simp add: f32_max_def is_mag_def max_def)
  qed (use mag_max(1) [OF that abs_mag] in simp)
  have "foldl (\<lambda>acc v. f32_max acc (f32_abs v)) a block = max a (peak (map (\<lambda>v. if f32_is_nan v then 0 else f32_abs v) block))"
    if "is_mag a" for a
    using that
  proof (induction block arbitrary: a)
    case (Cons v block)
    have "is_mag (max a (if f32_is_nan v then 0 else f32_abs v))" using Cons.prems abs_mag by (intro mag_of_max) simp_all
    from Cons.IH [OF this] show ?case using Cons.prems by (simp add: step max.assoc)
  qed simp
  from this [OF zero_mag] show ?thesis by simp
qed

section \<open>The NEON block\<close>

lemma parts_of_32:
  assumes "length xs = 32"
  shows "xs = take 4 xs @ take 4 (drop 4 xs) @ take 4 (drop 8 xs) @ take 4 (drop 12 xs) @ take 4 (drop 16 xs) @ take 4 (drop 20 xs)
    @ take 4 (drop 24 xs) @ take 4 (drop 28 xs)"
    "xs = take 8 xs @ take 8 (drop 8 xs) @ take 8 (drop 16 xs) @ take 8 (drop 24 xs)"
proof -
  have step: "drop n xs = take k (drop n xs) @ drop (n + k) xs" for n k
    using append_take_drop_id [of k "drop n xs"] by (simp only: drop_drop add.commute)
  have "drop 32 xs = []" using assms by simp
  then show "xs = take 4 xs @ take 4 (drop 4 xs) @ take 4 (drop 8 xs) @ take 4 (drop 12 xs) @ take 4 (drop 16 xs) @ take 4 (drop 20 xs)
    @ take 4 (drop 24 xs) @ take 4 (drop 28 xs)"
    "xs = take 8 xs @ take 8 (drop 8 xs) @ take 8 (drop 16 xs) @ take 8 (drop 24 xs)"
    using step [of 0 4] step [of 4 4] step [of 8 4] step [of 12 4] step [of 16 4] step [of 20 4] step [of 24 4] step [of 28 4]
      step [of 0 8] step [of 8 8] step [of 16 8] step [of 24 8] by simp_all
qed

definition magnitudes :: "nat \<Rightarrow> f32 list \<Rightarrow> f32 \<Rightarrow> bool" where
  "magnitudes n xs x \<longleftrightarrow> list_all is_mag xs \<and> length xs = n \<and> peak xs = x"

lemma mag_pair: "magnitudes n xs x \<Longrightarrow> magnitudes n ys y \<Longrightarrow> magnitudes n (vmax_f32 xs ys) (max x y)"
  "magnitudes n xs x \<Longrightarrow> magnitudes n ys y \<Longrightarrow> magnitudes n (max_ps xs ys) (max x y)"
  using mag_lanes [of xs ys] peak_map2 [of xs ys] by (auto simp: magnitudes_def)

lemma neon_peak:
  assumes "length block = 32" "list_all (\<lambda>v. \<not> f32_is_nan v) block"
  shows "neon_max_abs block = peak (map f32_abs block)"
proof -
  define part where "part k = map f32_abs (take 4 (drop k block))" for k
  have part: "length (part k) = 4" "list_all is_mag (part k)" if "k \<le> 28" for k
    using that assms by (auto simp: part_def list_all_iff abs_mag dest!: in_set_takeD in_set_dropD)
  have "map f32_abs block = part 0 @ part 4 @ part 8 @ part 12 @ part 16 @ part 20 @ part 24 @ part 28"
    using arg_cong [OF parts_of_32(1) [OF assms(1)], of "map f32_abs"] unfolding part_def map_append drop_0 .
  then have all: "peak (map f32_abs block) = max (peak (part 0)) (max (peak (part 4)) (max (peak (part 8)) (max (peak (part 12))
      (max (peak (part 16)) (max (peak (part 20)) (max (peak (part 24)) (peak (part 28))))))))"
    by (simp add: peak_append)
  note p = part [of 0] part [of 4] part [of 8] part [of 12] part [of 16] part [of 20] part [of 24] part [of 28]
  define m0 where "m0 = vmax_f32 (part 0) (part 4)"
  define m1 where "m1 = vmax_f32 (part 8) (part 12)"
  define m2 where "m2 = vmax_f32 (part 16) (part 20)"
  define m3 where "m3 = vmax_f32 (part 24) (part 28)"
  have m: "magnitudes 4 m0 (max (peak (part 0)) (peak (part 4)))" "magnitudes 4 m1 (max (peak (part 8)) (peak (part 12)))"
    "magnitudes 4 m2 (max (peak (part 16)) (peak (part 20)))" "magnitudes 4 m3 (max (peak (part 24)) (peak (part 28)))"
    unfolding m0_def m1_def m2_def m3_def by (rule mag_pair(1); simp add: magnitudes_def p)+
  define v where "v = vmax_f32 (vmax_f32 m0 m1) (vmax_f32 m2 m3)"
  have "magnitudes 4 v (peak (map f32_abs block))"
    unfolding v_def all using mag_pair(1) [OF mag_pair(1) [OF m(1,2)] mag_pair(1) [OF m(3,4)]] by (simp add: max.assoc)
  then have v: "list_all is_mag v" "length v = 4" "peak v = peak (map f32_abs block)" by (simp_all add: magnitudes_def)
  define h where "h = vmax_f32 (take 2 v) (drop 2 v)"
  have halves: "list_all is_mag (take 2 v)" "list_all is_mag (drop 2 v)" "length (take 2 v) = length (drop 2 v)"
    using v by (auto simp: list_all_iff dest: in_set_takeD in_set_dropD)
  have h: "list_all is_mag h" "length h = 2" "peak h = peak v"
    using mag_pair(1) [of 2 "take 2 v" _ "drop 2 v"] halves v(2) peak_append [of "take 2 v" "drop 2 v"] by (simp_all add: h_def magnitudes_def)
  obtain a b where ab: "h = [a, b]" using h(2) by (auto simp: length_Suc_conv numeral_2_eq_2)
  have "neon_max_abs block = f32_max (h ! 0) (h ! 1)"
    unfolding h_def v_def m0_def m1_def m2_def m3_def part_def by (simp add: neon_max_abs_def Let_def vabs_f32_def)
  also have "\<dots> = peak h" using h(1) by (simp add: ab mag_max)
  finally show ?thesis using h(3) v(3) by simp
qed

definition neon_lane :: "f32 \<Rightarrow> int" where
  "neon_lane x = sint (word_of_int (saturated 8 (sint (word_of_int (sint (fcvtas (fmin (fmax x lo) hi))) :: 16 word))) :: 8 word)"

lemma neon_lane_value: "neon_lane x = (if f32_is_nan x then 0 else lane_value x)"
proof -
  have "fcvtas (fmin (fmax x lo) hi) = word_of_int (if f32_is_nan x then 0 else lane_value x)"
  proof (cases "f32_is_nan x")
    case True
    moreover have "f32_is_nan f32_NAN" by (simp add: f32_is_nan_def f32_NAN_def f32_magnitude_def)
    ultimately show ?thesis by (simp add: fmax_def fmin_def fcvtas_def)
  qed (simp add: neon_clamp fcvtas_clamped)
  moreover define i where "i = (if f32_is_nan x then 0 else lane_value x)"
  moreover have i: "- 128 \<le> i" "i \<le> 127" using lane_value_range [of x] by (simp_all add: i_def)
  moreover have "sint (word_of_int i :: 32 word) = i" "sint (word_of_int i :: 16 word) = i" "sint (word_of_int i :: 8 word) = i"
    using i by (simp_all add: sint_sbintrunc' signed_take_bit_int_eq_self_iff)
  ultimately show ?thesis unfolding neon_lane_def by (simp only: saturated_def) simp
qed

lemma neon_quants_lanes: "length v = 4 \<Longrightarrow> stored_i8 (vqmovn_s16 (neon_quants factor v)) = map (\<lambda>x. neon_lane (f32_mul x factor)) v"
  by (auto simp: length_Suc_conv numeral_eq_Suc neon_quants_def Let_def mul_ps_def vmax_f32_def vmin_f32_def vcvta_s32_f32_def vmovn_s32_def
      vqmovn_s16_def stored_i8_def neon_lane_def)

lemma neon_quants_append:
  "stored_i8 (vqmovn_s16 (xs @ ys) @ vqmovn_s16 (zs @ ws)) =
     stored_i8 (vqmovn_s16 xs) @ stored_i8 (vqmovn_s16 ys) @ stored_i8 (vqmovn_s16 zs) @ stored_i8 (vqmovn_s16 ws)"
  by (simp add: stored_i8_def vqmovn_s16_def)

text \<open>The portable block from the largest magnitude.\<close>

definition block_of_peak :: "f32 \<Rightarrow> f32 list \<Rightarrow> Q8_0Block" where
  "block_of_peak max_abs block =
     (let unrounded_scale = f32_div max_abs (f32_of_int 127);
          factor = (if f32_eq unrounded_scale 0 then 0 else f32_div (f32_of_int 1) unrounded_scale) in
      \<lparr>q8_scale = f16_bits_to_f32 (f32_to_f16_bits unrounded_scale),
       q8_quants = map (\<lambda>v. if f32_is_nan (f32_mul v factor) then 0 else lane_value (f32_mul v factor)) block\<rparr>)"

lemma portable_block:
  "quantize_q8_0_block block = block_of_peak (peak (map (\<lambda>v. if f32_is_nan v then 0 else f32_abs v) block)) block"
  unfolding quantize_q8_0_block_def block_of_peak_def Let_def reference_peak reference_lane ..

lemma neon_block:
  assumes "length block = 32"
  shows "neon_quantize_q8_0_block block = block_of_peak (neon_max_abs block) block"
proof -
  define max_abs where "max_abs = f32_div (neon_max_abs block) (f32_of_int 127)"
  define factor where "factor = (if f32_eq max_abs 0 then 0 else f32_div (f32_of_int 1) max_abs)"
  let ?g = "\<lambda>v. neon_lane (f32_mul v factor)"
  have "map ?g block = map ?g (take 4 block) @ map ?g (take 4 (drop 4 block)) @ map ?g (take 4 (drop 8 block)) @ map ?g (take 4 (drop 12 block))
      @ map ?g (take 4 (drop 16 block)) @ map ?g (take 4 (drop 20 block)) @ map ?g (take 4 (drop 24 block)) @ map ?g (take 4 (drop 28 block))"
    using arg_cong [OF parts_of_32(1) [OF assms], of "map ?g"] unfolding map_append .
  then have "q8_quants (neon_quantize_q8_0_block block) = map ?g block"
    using assms unfolding neon_quantize_q8_0_block_def Let_def max_abs_def [symmetric] unfolding factor_def [symmetric]
    by (simp add: neon_quants_append neon_quants_lanes del: take_map drop_map)
  moreover have "q8_scale (neon_quantize_q8_0_block block) = f16_bits_to_f32 (f32_to_f16_bits max_abs)"
    by (simp add: neon_quantize_q8_0_block_def Let_def max_abs_def)
  moreover have "q8_quants (block_of_peak (neon_max_abs block) block) = map ?g block"
    unfolding block_of_peak_def Let_def max_abs_def [symmetric] unfolding factor_def [symmetric] by (simp add: neon_lane_value)
  moreover have "q8_scale (block_of_peak (neon_max_abs block) block) = f16_bits_to_f32 (f32_to_f16_bits max_abs)"
    by (simp add: block_of_peak_def Let_def max_abs_def)
  ultimately show ?thesis by (cases "neon_quantize_q8_0_block block"; cases "block_of_peak (neon_max_abs block) block") simp
qed

lemma no_nan_peaks: "list_all (\<lambda>v. \<not> f32_is_nan v) block \<Longrightarrow> map (\<lambda>v. if f32_is_nan v then 0 else f32_abs v) block = map f32_abs block"
  by (simp add: list_all_iff)

text \<open>Property C20: the NEON quantizer gives the portable blocks, bit for bit, for every input without a not-a-number,
  infinities, ties and scales that vanish in half precision included.\<close>

theorem neon_quantizer_is_portable:
  assumes "list_all (\<lambda>v. \<not> f32_is_nan v) input"
  shows "macos_quantize_q8_0_blocks aarch64 input = quantize_q8_0_blocks input"
proof -
  have "macos_quantize_q8_0_block aarch64 block = quantize_q8_0_block block" if "block \<in> set (chunks_exact Q8_0_BLOCK_VALUES input)" for block
  proof -
    have block: "length block = 32" "set block \<subseteq> set input" using chunks_exact_wf [OF _ that] by (simp_all add: block_sizes)
    then have "list_all (\<lambda>v. \<not> f32_is_nan v) block" using assms by (auto simp: list_all_iff)
    then show ?thesis
      using block(1) by (simp add: macos_quantize_q8_0_block_def neon_block neon_peak portable_block no_nan_peaks)
  qed
  then show ?thesis by (simp add: macos_quantize_q8_0_blocks_def quantize_q8_0_blocks_def)
qed

theorem neon_quantizer_is_portable_witness:
  "macos_quantize_q8_0_blocks True (replicate 32 0x7F800000) = quantize_q8_0_blocks (replicate 32 0x7F800000)"
  by (rule neon_quantizer_is_portable) (simp add: list_all_iff f32_is_nan_def f32_magnitude_def)

text \<open>With one not-a-number the NEON reduction forgets every magnitude in the lanes of the same parity: here the
  largest value is 127, and the NEON block has the scale of 1.\<close>

definition poisoned_block :: "f32 list" where
  "poisoned_block = f32_NAN # 0x3F800000 # 0x42FE0000 # replicate 29 0x3F800000"

lemma poisoned_values:
  "f32_abs f32_NAN = f32_NAN" "f32_abs 0x3F800000 = 0x3F800000" "f32_abs 0x42FE0000 = 0x42FE0000"
  "f32_is_nan f32_NAN" "\<not> f32_is_nan 0x3F800000" "\<not> f32_is_nan 0x42FE0000"
  "f32_lt 0x3F800000 0x42FE0000" "\<not> f32_lt 0x42FE0000 0x3F800000" "\<not> f32_lt x x"
  by (simp_all add: f32_abs_def f32_magnitude_def f32_NAN_def f32_is_nan_def f32_lt_def f32_key_def)

lemma poisoned_maxima:
  "fmax f32_NAN x = f32_NAN" "fmax x f32_NAN = f32_NAN" "fmax 0x3F800000 0x3F800000 = 0x3F800000"
  "fmax 0x3F800000 0x42FE0000 = 0x42FE0000" "fmax 0x42FE0000 0x3F800000 = 0x42FE0000"
  "f32_max f32_NAN 0x3F800000 = 0x3F800000"
  "max 0x3F800000 (0x3F800000 :: f32) = 0x3F800000" "max 0x3F800000 (0x42FE0000 :: f32) = 0x42FE0000"
  "max 0x3F800000 (0 :: f32) = 0x3F800000" "max 0x42FE0000 (0x3F800000 :: f32) = 0x42FE0000"
  by (simp_all add: fmax_def f32_max_def poisoned_values max_def)

lemma replicate_29: "replicate 29 x = [x, x, x, x, x, x, x, x, x, x, x, x, x, x, x, x, x, x, x, x, x, x, x, x, x, x, x, x, x]"
  by (simp add: numeral_eq_Suc)

lemma neon_forgets_magnitudes:
  "neon_max_abs poisoned_block = 0x3F800000" "peak (map (\<lambda>v. if f32_is_nan v then 0 else f32_abs v) poisoned_block) = 0x42FE0000"
  unfolding poisoned_block_def replicate_29
  by (simp_all add: neon_max_abs_def Let_def vabs_f32_def vmax_f32_def poisoned_values poisoned_maxima)

section \<open>The AVX2 quantizer, lane by lane\<close>

definition sign_of :: "f32 \<Rightarrow> f32" where "sign_of y = (if f32_negative y then 0x80000000 else 0)"

lemma sign_bit: "f32_negative y \<longleftrightarrow> bit y 31"
proof -
  have "unat y < 2 ^ 32" using unsigned_less [where 'a = nat, of y] by simp
  then have "unat y div 2 ^ 31 < 2" by simp
  then have "odd (unat y div 2 ^ 31) \<longleftrightarrow> 2 ^ 31 \<le> unat y" by (cases "unat y < 2 ^ 31") (auto simp: div_greater_zero_iff less_2_cases_iff)
  moreover have "bit (unat y) 31 \<longleftrightarrow> bit y 31" by (simp add: bit_unsigned_iff)
  ultimately show ?thesis by (simp add: f32_negative_def bit_iff_odd [of "unat y"])
qed

lemma bit_sign: "bit (0x80000000 :: f32) n \<longleftrightarrow> n = 31"
proof -
  have "(0x80000000 :: f32) = push_bit 31 1" by simp
  then have "bit (0x80000000 :: f32) n \<longleftrightarrow> bit (push_bit 31 (1 :: f32)) n" by (simp only:)
  then show ?thesis by (auto simp only: bit_push_bit_iff bit_1_iff) auto
qed

lemma and_sign: "y AND 0x80000000 = sign_of y"
proof (rule bit_word_eqI)
  fix n assume n: "n < LENGTH(32)"
  have "bit (y AND 0x80000000) n \<longleftrightarrow> bit y n \<and> n = 31" by (simp only: bit_and_iff bit_sign)
  also have "\<dots> \<longleftrightarrow> bit (sign_of y) n"
  proof (cases "bit y 31")
    case True
    then have "bit (sign_of y) n \<longleftrightarrow> n = 31" by (simp only: sign_of_def sign_bit if_True bit_sign)
    then show ?thesis using True by auto
  qed (auto simp: sign_of_def sign_bit)
  finally show "bit (y AND 0x80000000) n \<longleftrightarrow> bit (sign_of y) n" .
qed

lemma signed_constants:
  "sign_of y OR 0x3F000000 = (if f32_negative y then 0xBF000000 else 0x3F000000)"
  "sign_of y OR 0x3F800000 = (if f32_negative y then 0xBF800000 else 0x3F800000)"
  by (simp_all add: sign_of_def)

lemma constants_signed:
  "f32_signed (if s then 0xBF000000 else 0x3F000000) = (if s then - (2 ^ 148) else 2 ^ 148)"
  "f32_signed (if s then 0xBF800000 else 0x3F800000) = (if s then - int one else int one)"
  "f32_is_finite (if s then 0xBF000000 else 0x3F000000)" "f32_is_finite (if s then 0xBF800000 else 0x3F800000)"
  by (simp_all add: f32_signed_def f32_units_def f32_magnitude_def f32_negative_def magnitude_def one_def f32_is_finite_def)

lemma not_and_sign: "NOT 0x80000000 AND y = f32_abs y"
proof -
  have "NOT 0x80000000 AND y = take_bit 31 y"
  proof (rule bit_word_eqI)
    fix n assume n: "n < LENGTH(32)"
    have "bit (NOT 0x80000000 AND y) n \<longleftrightarrow> n \<noteq> 31 \<and> bit y n" using n by (simp only: bit_and_iff bit_not_iff bit_sign) simp
    also have "\<dots> \<longleftrightarrow> bit (take_bit 31 y) n" using n by (auto simp: bit_take_bit_iff)
    finally show "bit (NOT 0x80000000 AND y) n \<longleftrightarrow> bit (take_bit 31 y) n" .
  qed
  also have "\<dots> = f32_abs y"
    unfolding f32_abs_def f32_magnitude_def take_bit_eq_mod [symmetric]
    by (simp add: word_unat_eq_iff unsigned_take_bit_eq unsigned_of_nat min_def)
  finally show ?thesis .
qed

definition avx2_lane :: "f32 \<Rightarrow> 32 word" where
  "avx2_lane x =
     (let x = x AND (if f32_eq x x then - 1 else 0);
          y = x86_min (x86_max x lo) hi;
          nearest = f32_round_ties_even y;
          delta = f32_sub y nearest;
          sign = y AND 0x80000000;
          tie = (if f32_eq delta (sign OR 0x3F000000) then - 1 else 0) in
      cvtt_i32 (f32_add nearest (tie AND (sign OR 0x3F800000))))"

lemma avx2_clamp:
  assumes "\<not> f32_is_nan x"
  shows "x86_min (x86_max x lo) hi = f32_clamp x lo hi"
proof -
  have pos: "0 < int one" by simp
  consider (low) "f32_signed x < - 128 * int one" | (at) "f32_signed x = - 128 * int one" | (mid) "- 128 * int one < f32_signed x" by linarith
  then show ?thesis
  proof cases
    case at
    then have "x = lo" using pos by (intro signed_inj) (simp_all add: bounds_signed)
    have "\<not> 127 * int one < - 128 * int one" "- 128 * int one < 127 * int one" using pos by linarith+
    then show ?thesis unfolding \<open>x = lo\<close> by (simp add: x86_min_def x86_max_def clamp_signed lt_signed bounds_signed)
  next
    case mid
    then have max: "x86_max x lo = x" using assms by (simp add: x86_max_def lt_signed bounds_signed)
    consider (below) "f32_signed x < 127 * int one" | (at) "f32_signed x = 127 * int one" | (above) "127 * int one < f32_signed x" by linarith
    then show ?thesis
    proof cases
      case at
      then have "x = hi" using pos by (intro signed_inj) (simp_all add: bounds_signed)
      have "\<not> 127 * int one < - 128 * int one" "\<not> 127 * int one < - (128 * int one)" using pos by linarith+
      then show ?thesis unfolding max unfolding \<open>x = hi\<close> by (simp add: x86_min_def clamp_signed lt_signed bounds_signed)
    qed (use mid assms in \<open>simp_all add: max x86_min_def clamp_signed lt_signed bounds_signed\<close>)
  next
    case low
    then have "\<not> - 128 * int one < f32_signed x" "- 128 * int one < 127 * int one" using pos by linarith+
    then show ?thesis using assms low by (simp add: x86_min_def x86_max_def clamp_signed lt_signed bounds_signed)
  qed
qed

lemma neg_fields: "f32_magnitude (f32_neg a) = f32_magnitude a" "f32_negative (f32_neg a) = (\<not> f32_negative a)"
proof -
  have "unat a < 2 ^ 32" using unsigned_less [where 'a = nat, of a] by simp
  moreover have "unat (f32_neg a) = (unat a + 2 ^ 31) mod 2 ^ 32"
    unfolding f32_neg_def by (simp add: unat_word_ariths)
  ultimately have "unat (f32_neg a) = (if unat a < 2 ^ 31 then unat a + 2 ^ 31 else unat a - 2 ^ 31)"
    by (simp add: le_mod_geq)
  then show "f32_magnitude (f32_neg a) = f32_magnitude a" "f32_negative (f32_neg a) = (\<not> f32_negative a)"
    using \<open>unat a < 2 ^ 32\<close> by (auto simp: f32_magnitude_def f32_negative_def le_mod_geq)
qed

lemma neg_signed: "f32_signed (f32_neg a) = - f32_signed a" "f32_is_finite (f32_neg a) = f32_is_finite a"
  by (simp_all add: f32_signed_def f32_units_def f32_is_finite_def neg_fields)

lemma eq_signed: "f32_is_finite a \<Longrightarrow> f32_is_finite b \<Longrightarrow> f32_eq a b \<longleftrightarrow> f32_signed a = f32_signed b"
  using key_order [of a b] key_order [of b a] by (auto simp: f32_eq_def finite_not_nan)

lemma finite_not_inf: "f32_is_finite a \<Longrightarrow> \<not> f32_is_inf a"
  by (simp add: f32_is_finite_def f32_is_inf_def)

lemma zero_signed: "f32_is_finite 0" "f32_signed 0 = 0"
  by (simp_all add: f32_is_finite_def f32_signed_def f32_units_def f32_magnitude_def f32_negative_def magnitude_def)

lemma add_exact:
  assumes "f32_is_finite a" "f32_is_finite b" "\<exists>m. magnitude 23 m = nat \<bar>f32_signed a + f32_signed b\<bar>"
    and "nat \<bar>f32_signed a + f32_signed b\<bar> \<le> 2 ^ 157"
  shows "f32_is_finite (f32_add a b)" "f32_signed (f32_add a b) = f32_signed a + f32_signed b"
proof -
  have "\<not> f32_is_nan a" "\<not> f32_is_nan b" "\<not> f32_is_inf a" "\<not> f32_is_inf b" using assms(1,2) by (simp_all add: finite_not_nan finite_not_inf)
  then have add: "f32_add a b = (if f32_signed a + f32_signed b = 0 then f32_make (f32_negative a \<and> f32_negative b) 0
      else f32_round (f32_signed a + f32_signed b < 0) (nat \<bar>f32_signed a + f32_signed b\<bar>) 0)" by (simp add: f32_add_def Let_def)
  have zero: "f32_is_finite (f32_make s 0)" "f32_signed (f32_make s 0) = 0" for s
    by (simp_all add: f32_is_finite_def make_fields f32_signed_def f32_units_def magnitude_def)
  show "f32_is_finite (f32_add a b)" "f32_signed (f32_add a b) = f32_signed a + f32_signed b"
    using round_exact [OF assms(3,4)] round_exact_signed [OF assms(3,4)] zero by (auto simp: add)
qed

lemma sub_exact:
  assumes "f32_is_finite a" "f32_is_finite b" "\<exists>m. magnitude 23 m = nat \<bar>f32_signed a - f32_signed b\<bar>"
    and "nat \<bar>f32_signed a - f32_signed b\<bar> \<le> 2 ^ 157"
  shows "f32_is_finite (f32_sub a b)" "f32_signed (f32_sub a b) = f32_signed a - f32_signed b"
proof -
  have "f32_sub a b = f32_add a (f32_neg b)" using assms(2) by (simp add: f32_sub_def finite_not_nan)
  then show "f32_is_finite (f32_sub a b)" "f32_signed (f32_sub a b) = f32_signed a - f32_signed b"
    using add_exact [of a "f32_neg b"] assms by (simp_all add: neg_signed)
qed

lemma cvtt_integer:
  assumes "f32_is_finite a" "f32_signed a = i * int one" "\<bar>i\<bar> \<le> 129"
  shows "cvtt_i32 a = word_of_int i"
proof -
  have "int (f32_units a) = \<bar>i\<bar> * int one" using arg_cong [OF assms(2), of abs] by (simp add: f32_signed_def abs_mult split: if_splits)
  then have "int (f32_units a) = int (nat \<bar>i\<bar> * one)" by simp
  then have u: "f32_units a = nat \<bar>i\<bar> * one" by (simp only: of_nat_eq_iff)
  then have "f32_units a div 2 ^ 149 = nat \<bar>i\<bar>" by (simp add: one_def)
  moreover have "f32_negative a \<Longrightarrow> i \<le> 0" "\<not> f32_negative a \<Longrightarrow> 0 \<le> i"
  proof -
    have pos: "0 < int one" by simp
    have "0 < i \<Longrightarrow> 0 < i * int one" "i < 0 \<Longrightarrow> i * int one < 0" using pos by (simp_all add: mult_pos_pos mult_neg_pos)
    then show "f32_negative a \<Longrightarrow> i \<le> 0" "\<not> f32_negative a \<Longrightarrow> 0 \<le> i"
      using assms(2) by (auto simp only: f32_signed_def if_True if_False) linarith+
  qed
  ultimately have "f32_truncated_int a = i" by (auto simp: f32_truncated_int_def Let_def)
  moreover have "\<not> i < - (2 ^ 31)" "\<not> 2 ^ 31 \<le> i" using assms(3) by simp_all
  ultimately show ?thesis using assms(1) by (simp add: cvtt_i32_def)
qed

lemma round_even_one:
  "round_even u 149 = (if one < 2 * (u mod one) \<or> 2 * (u mod one) = one \<and> odd (u div one) then u div one + 1 else u div one)"
  by (simp add: round_even_def one_def Let_def)

text \<open>Rounding to even, and a carry where an exact half was rounded down, is rounding half away from zero.\<close>

lemma tie_carry:
  defines "n u \<equiv> round_even u 149"
  shows "half_away u = (if 2 * u = (2 * n u + 1) * one then n u + 1 else n u)"
proof -
  define q r where "q = u div one" and "r = u mod one"
  have u: "u = q * one + r" "r < one" by (simp_all add: q_def r_def)
  have n: "n u = (if one < 2 * r \<or> 2 * r = one \<and> odd q then q + 1 else q)" by (simp add: n_def round_even_one q_def r_def)
  have "2 * u = (2 * q + 1) * one \<longleftrightarrow> 2 * r = one" by (auto simp: u(1) algebra_simps)
  moreover have "2 * u \<noteq> (2 * (q + 1) + 1) * one" using u(2) by (simp add: u(1) algebra_simps)
  ultimately show ?thesis by (auto simp: n half_away_cases q_def [symmetric] r_def [symmetric])
qed

lemma avx2_rounds:
  assumes "f32_is_finite y" "f32_units y \<le> 128 * one"
  shows "cvtt_i32 (f32_add (f32_round_ties_even y)
      ((if f32_eq (f32_sub y (f32_round_ties_even y)) ((y AND 0x80000000) OR 0x3F000000) then - 1 else 0) AND ((y AND 0x80000000) OR 0x3F800000)))
    = word_of_int (away y)"
proof -
  define u s n where "u = f32_units y" and "s = f32_negative y" and "n = round_even u 149"
  define c :: int where "c = (if s then - 1 else 1)"
  have c: "\<bar>c * i\<bar> = \<bar>i\<bar>" "c * i = c * j \<longleftrightarrow> i = j" for i j :: int by (simp_all add: c_def)
  have u: "u \<le> 128 * one" "f32_signed y = c * int u" using assms(2) by (simp_all add: u_def c_def s_def f32_signed_def)
  define q r where "q = u div one" and "r = u mod one"
  have split: "u = q * one + r" "r < one" by (simp_all add: q_def r_def)
  have n: "n = (if one < 2 * r \<or> 2 * r = one \<and> odd q then q + 1 else q)" by (simp add: n_def round_even_one q_def r_def)
  have "q \<le> 128" using u(1) by (simp add: q_def div_le_mono [of u "128 * one" one, simplified])
  moreover have "q = 128 \<Longrightarrow> r = 0" using u(1) split(1) by simp
  ultimately have n128: "n \<le> 128" using one_pos by (cases "q = 128") (simp_all add: n)
  have small: "m \<le> 129 \<Longrightarrow> m * one \<le> 2 ^ 157" for m using mult_le_mono1 [of m 129 one] by (simp add: one_def)
  have nearest: "f32_is_finite (f32_round_ties_even y)" "f32_signed (f32_round_ties_even y) = c * int (n * one)"
    using round_exact [OF integer_representable [of n] small [of n], of s] round_exact_signed [OF integer_representable [of n] small [of n], of s] n128 assms(1)
    by (simp_all add: f32_round_ties_even_def u_def s_def n_def c_def one_def)
  have apart: "f32_signed y - f32_signed (f32_round_ties_even y) = c * (int u - int (n * one))" by (simp add: u(2) nearest(2) algebra_simps)
  define z where "z = nat \<bar>int u - int (n * one)\<bar>"
  have z: "int z = \<bar>int (f32_units y) - int (n * one)\<bar>" by (simp add: z_def u_def)
  have "z \<le> u"
  proof (cases "n = q")
    case False
    then have "n = q + 1" "one \<le> 2 * r" using n by (auto split: if_splits)
    then have "int (n * one) = int q * int one + int one" "int one \<le> 2 * int r" by (simp_all add: algebra_simps)
    moreover have "int u = int q * int one + int r" "int r < int one" "0 \<le> int q * int one" using split by simp_all
    ultimately have "\<bar>int u - int (n * one)\<bar> \<le> int u" by linarith
    then show ?thesis by (simp only: z_def nat_le_iff)
  qed (use split in \<open>simp add: z_def nat_le_iff\<close>)
  moreover have "f32_units y < 2 ^ 172" using assms(2) by (rule le_less_trans) (simp add: one_def)
  ultimately have "\<exists>m. magnitude 23 m = z" using z by (intro distance_representable) (simp_all add: u_def)
  moreover have "z \<le> 2 ^ 157" using \<open>z \<le> u\<close> u(1) by (rule order_trans [OF order_trans]) (simp add: one_def)
  ultimately have delta: "f32_is_finite (f32_sub y (f32_round_ties_even y))"
    "f32_signed (f32_sub y (f32_round_ties_even y)) = c * (int u - int (n * one))"
    using sub_exact [OF assms(1) nearest(1)] by (simp_all add: apart c(1) z_def)
  have half: "f32_signed (sign_of y OR 0x3F000000) = c * 2 ^ 148" "f32_is_finite (sign_of y OR 0x3F000000)"
    using constants_signed(1,3) [of s] by (simp_all add: signed_constants s_def c_def)
  have whole: "f32_signed (sign_of y OR 0x3F800000) = c * int one" "f32_is_finite (sign_of y OR 0x3F800000)"
    using constants_signed(2,4) [of s] by (simp_all add: signed_constants s_def c_def)
  have "f32_eq (f32_sub y (f32_round_ties_even y)) (sign_of y OR 0x3F000000) \<longleftrightarrow> int u - int (n * one) = 2 ^ 148"
    by (simp only: eq_signed [OF delta(1) half(2)] delta(2) half(1) c(2))
  also have "\<dots> \<longleftrightarrow> int (2 * u) = int ((2 * n + 1) * one)" by (auto simp: one_def)
  also have "\<dots> \<longleftrightarrow> 2 * u = (2 * n + 1) * one" by (rule of_nat_eq_iff)
  finally have tie: "f32_eq (f32_sub y (f32_round_ties_even y)) (sign_of y OR 0x3F000000) \<longleftrightarrow> 2 * u = (2 * n + 1) * one" .
  define k where "k = half_away u"
  have k: "k = (if 2 * u = (2 * n + 1) * one then n + 1 else n)" using tie_carry [of u] by (simp add: k_def n_def)
  have "away y = c * int k" by (simp add: away_def k_def u_def s_def c_def)
  define addend where "addend = (if 2 * u = (2 * n + 1) * one then sign_of y OR 0x3F800000 else 0)"
  have addend: "f32_is_finite addend \<and> f32_signed (f32_round_ties_even y) + f32_signed addend = c * int (k * one)"
  proof (cases "2 * u = (2 * n + 1) * one")
    case True
    have "addend = sign_of y OR 0x3F800000" unfolding addend_def by (rule if_P [OF True])
    moreover have "k = n + 1" unfolding k by (rule if_P [OF True])
    ultimately show ?thesis
      using whole nearest(2) by (simp_all add: algebra_simps)
  next
    case False
    have "addend = 0" unfolding addend_def by (rule if_not_P [OF False])
    moreover have "k = n" unfolding k by (rule if_not_P [OF False])
    ultimately show ?thesis
      using nearest(2) zero_signed by simp_all
  qed
  have "k \<le> 129" using n128 k by simp
  then have "\<exists>m. magnitude 23 m = k * one" "k * one \<le> 2 ^ 157" using integer_representable [of k] small [of k] by simp_all
  then have "f32_is_finite (f32_add (f32_round_ties_even y) addend)" "f32_signed (f32_add (f32_round_ties_even y) addend) = (c * int k) * int one"
    using add_exact [OF nearest(1) conjunct1 [OF addend]] by (simp_all add: conjunct2 [OF addend] c(1) nat_mult_distrib mult.assoc)
  then have "cvtt_i32 (f32_add (f32_round_ties_even y) addend) = word_of_int (c * int k)"
    using \<open>k \<le> 129\<close> by (intro cvtt_integer) (simp_all add: c(1))
  moreover have "(if 2 * u = (2 * n + 1) * one then - 1 else 0) AND (sign_of y OR 0x3F800000) = addend" by (simp only: addend_def) simp
  ultimately show ?thesis unfolding and_sign tie by (simp only: \<open>away y = c * int k\<close>)
qed

lemma avx2_lane_value: "avx2_lane x = word_of_int (if f32_is_nan x then 0 else lane_value x)"
proof -
  define x' where "x' = (if f32_is_nan x then 0 else x)"
  have scrub: "x AND (if f32_eq x x then - 1 else 0) = x'" by (simp add: x'_def f32_eq_def)
  have ok: "\<not> f32_is_nan x'" using zero_signed(1) by (auto simp: x'_def finite_not_nan)
  have "avx2_lane x = word_of_int (away (f32_clamp x' lo hi))"
    unfolding avx2_lane_def Let_def scrub avx2_clamp [OF ok] by (rule avx2_rounds [OF clamped(1,4) [OF ok]])
  also have "away (f32_clamp x' lo hi) = lane_value x'" by (rule clamped_away [OF ok])
  also have "lane_value x' = (if f32_is_nan x then 0 else lane_value x)"
    using half_away_multiple [of 0] by (auto simp: x'_def lane_value_def away_signed zero_signed)
  finally show ?thesis .
qed

section \<open>The AVX2 block\<close>

lemma length_8: "length v = 8 \<Longrightarrow> \<exists>a b c d e f g h. v = [a, b, c, d, e, f, g, h]"
  by (auto simp: length_Suc_conv numeral_eq_Suc)

lemma replicate_8: "replicate 8 x = [x, x, x, x, x, x, x, x]"
  by (simp add: numeral_eq_Suc)

lemma rounded_lanes:
  assumes "length v = 8"
  shows "round_half_away_clamped_to_i32 (mul_ps v (set1_ps factor)) = map (\<lambda>x. avx2_lane (f32_mul x factor)) v"
proof -
  obtain a b c d e f g h where v: "v = [a, b, c, d, e, f, g, h]" using length_8 [OF assms] by blast
  show ?thesis
    unfolding v round_half_away_clamped_to_i32_def mul_ps_def set1_ps_def replicate_8 Let_def avx2_lane_def cmp_eq_ps_def and_ps_def or_ps_def
      max_ps_def min_ps_def round_ps_def sub_ps_def add_ps_def cvttps_epi32_def f32_NEG_ZERO_def
    by (simp only: list.map zip_Cons_Cons zip_Nil prod.case)
qed

lemma abs_lanes:
  assumes "length v = 8"
  shows "abs_with_nan_as_zero v = map (\<lambda>x. if f32_is_nan x then 0 else f32_abs x) v"
proof -
  obtain a b c d e f g h where v: "v = [a, b, c, d, e, f, g, h]" using length_8 [OF assms] by blast
  have mask: "w AND (if f32_eq x x then - 1 else 0) = (if f32_is_nan x then 0 else w)" for w x :: f32 by (simp add: f32_eq_def)
  show ?thesis
    unfolding v abs_with_nan_as_zero_def set1_ps_def replicate_8 cmp_eq_ps_def and_ps_def andnot_ps_def f32_NEG_ZERO_def
    by (simp only: list.map zip_Cons_Cons zip_Nil prod.case not_and_sign mask)
qed

lemma max_zero: "max (w::f32) 0 = w" "max 0 (w::f32) = w"
  by (simp_all add: max_def)

lemma max_ps_four:
  assumes "is_mag a" "is_mag b" "is_mag c" "is_mag d" "is_mag e" "is_mag f" "is_mag g" "is_mag h"
  shows "max_ps [a, b, c, d] [e, f, g, h] = [max a e, max b f, max c g, max d h]"
  unfolding max_ps_def list.map zip_Cons_Cons zip_Nil prod.case using assms by (simp only: mag_max(2))

lemma horizontal_max_peak:
  assumes "magnitudes 8 v x"
  shows "horizontal_max_f32x8 v = x"
proof -
  obtain a b c d e f g h where v: "v = [a, b, c, d, e, f, g, h]" using length_8 [of v] assms unfolding magnitudes_def by blast
  have mags: "is_mag a" "is_mag b" "is_mag c" "is_mag d" "is_mag e" "is_mag f" "is_mag g" "is_mag h" and x: "peak v = x"
    using assms unfolding magnitudes_def v list.pred_inject by blast+
  define p where "p = max a e"
  define q where "q = max b f"
  define r where "r = max c g"
  define s where "s = max d h"
  have pqrs: "is_mag p" "is_mag q" "is_mag r" "is_mag s"
    unfolding p_def q_def r_def s_def using mags by (blast intro: mag_of_max)+
  define t where "t = max p r"
  define u where "u = max q s"
  have tu: "is_mag t" "is_mag u" unfolding t_def u_def using pqrs by (blast intro: mag_of_max)+
  have halves: "max_ps (take 4 v) (drop 4 v) = [p, q, r, s]"
    using max_ps_four [OF mags] by (simp add: v p_def q_def r_def s_def)
  have second: "max_ps [p, q, r, s] (shuffle_ps 0x4E [p, q, r, s] [p, q, r, s]) = [t, u, t, u]"
    using max_ps_four [OF pqrs pqrs(3,4,1,2)] by (simp add: shuffle_ps_def t_def u_def max.commute)
  have third: "max_ps [t, u, t, u] (shuffle_ps 0xB1 [t, u, t, u] [t, u, t, u]) = [max t u, max u t, max t u, max u t]"
    using max_ps_four [OF tu tu tu(2,1) tu(2,1)] by (simp add: shuffle_ps_def)
  have "horizontal_max_f32x8 v = max t u"
    unfolding horizontal_max_f32x8_def Let_def halves second third by simp
  also have "\<dots> = peak v"
    by (simp only: v peak_simps t_def u_def p_def q_def r_def s_def max_zero ac_simps)
  finally show ?thesis unfolding x .
qed

lemma clean_magnitudes:
  "magnitudes (length v) (map (\<lambda>x. if f32_is_nan x then 0 else f32_abs x) v) (peak (map (\<lambda>x. if f32_is_nan x then 0 else f32_abs x) v))"
  by (auto simp: magnitudes_def list_all_iff abs_mag)

lemma avx2_peak:
  assumes "length block = 32"
  shows "horizontal_max_f32x8 (foldl (\<lambda>acc v. max_ps acc (abs_with_nan_as_zero v)) (set1_ps 0)
      [take 8 block, take 8 (drop 8 block), take 8 (drop 16 block), take 8 (drop 24 block)])
    = peak (map (\<lambda>v. if f32_is_nan v then 0 else f32_abs v) block)"
proof -
  define clean where "clean = map (\<lambda>v. if f32_is_nan v then 0 else f32_abs v)"
  define part where "part k = take 8 (drop k block)" for k
  have part: "length (part k) = 8" if "k \<le> 24" for k using that assms by (simp add: part_def)
  have m: "magnitudes 8 (abs_with_nan_as_zero (part k)) (peak (clean (part k)))" if "k \<le> 24" for k
    using clean_magnitudes [of "part k"] part [OF that] abs_lanes [OF part [OF that]] by (simp add: clean_def)
  have zero: "magnitudes 8 (set1_ps 0) 0" by (simp add: magnitudes_def set1_ps_def replicate_8)
  have "magnitudes 8 (foldl (\<lambda>acc v. max_ps acc (abs_with_nan_as_zero v)) (set1_ps 0) [part 0, part 8, part 16, part 24])
      (max (max (max (max 0 (peak (clean (part 0)))) (peak (clean (part 8)))) (peak (clean (part 16)))) (peak (clean (part 24))))"
    unfolding foldl.simps by (intro mag_pair(2) zero m) simp_all
  from horizontal_max_peak [OF this]
  have "horizontal_max_f32x8 (foldl (\<lambda>acc v. max_ps acc (abs_with_nan_as_zero v)) (set1_ps 0) [part 0, part 8, part 16, part 24])
      = max (peak (clean (part 0))) (max (peak (clean (part 8))) (max (peak (clean (part 16))) (peak (clean (part 24)))))"
    by (simp add: max.assoc)
  also have "\<dots> = peak (clean block)"
    using arg_cong [OF parts_of_32(2) [OF assms], of clean] by (simp add: clean_def part_def peak_append del: take_map drop_map)
  finally show ?thesis by (simp add: part_def clean_def)
qed

text \<open>Narrowing: the packs interleave the halves of their registers, and the permutation puts them back.\<close>

definition interleaved :: "nat \<Rightarrow> 'a list \<Rightarrow> 'a list \<Rightarrow> 'a list" where
  "interleaved half a b = take half a @ take half b @ drop half a @ drop half b"

lemma packs_small:
  assumes "list_all is_i8 a" "list_all is_i8 b"
  shows "packs_epi32 (map word_of_int a) (map word_of_int b) = map word_of_int (interleaved 4 a b)"
    "packs_epi16 (map word_of_int a) (map word_of_int b) = map word_of_int (interleaved 8 a b)"
proof -
  have "saturated 16 (sint (word_of_int i :: 32 word)) = i" "saturated 8 (sint (word_of_int i :: 16 word)) = i" if "is_i8 i" for i
  proof -
    have i: "- 128 \<le> i" "i \<le> 127" using that by (simp_all add: is_i8_def)
    then have "sint (word_of_int i :: 32 word) = i" "sint (word_of_int i :: 16 word) = i"
      by (simp_all add: sint_sbintrunc' signed_take_bit_int_eq_self_iff)
    then show "saturated 16 (sint (word_of_int i :: 32 word)) = i" "saturated 8 (sint (word_of_int i :: 16 word)) = i"
      using i by (simp_all only: saturated_def) simp_all
  qed
  then show "packs_epi32 (map word_of_int a) (map word_of_int b) = map word_of_int (interleaved 4 a b)"
    "packs_epi16 (map word_of_int a) (map word_of_int b) = map word_of_int (interleaved 8 a b)"
    using assms by (auto simp: packs_epi32_def packs_epi16_def packs_def interleaved_def take_map drop_map list_all_iff comp_def
        dest!: in_set_takeD in_set_dropD)
qed

lemma interleaved_range: "list_all is_i8 a \<Longrightarrow> list_all is_i8 b \<Longrightarrow> list_all is_i8 (interleaved half a b)"
  by (auto simp: interleaved_def list_all_iff dest: in_set_takeD in_set_dropD)

lemma permuted:
  assumes "length a = 8" "length b = 8" "length c = 8" "length d = 8"
  shows "permutevar8x32 (map word_of_int (interleaved 8 (interleaved 4 a b) (interleaved 4 c d))) [0, 4, 1, 5, 2, 6, 3, 7]
    = map word_of_int (a @ b @ c @ d)"
proof -
  obtain a0 a1 a2 a3 a4 a5 a6 a7 where a: "a = [a0, a1, a2, a3, a4, a5, a6, a7]" using length_8 [OF assms(1)] by blast
  obtain b0 b1 b2 b3 b4 b5 b6 b7 where b: "b = [b0, b1, b2, b3, b4, b5, b6, b7]" using length_8 [OF assms(2)] by blast
  obtain c0 c1 c2 c3 c4 c5 c6 c7 where c: "c = [c0, c1, c2, c3, c4, c5, c6, c7]" using length_8 [OF assms(3)] by blast
  obtain d0 d1 d2 d3 d4 d5 d6 d7 where d: "d = [d0, d1, d2, d3, d4, d5, d6, d7]" using length_8 [OF assms(4)] by blast
  show ?thesis by (simp add: a b c d interleaved_def permutevar8x32_def)
qed

lemma stored_of_lanes: "list_all is_i8 xs \<Longrightarrow> stored_i8 (map word_of_int xs) = xs"
  by (induction xs) (simp_all add: stored_i8_def is_i8_def sint_sbintrunc' signed_take_bit_int_eq_self_iff)

lemma avx2_block_value:
  assumes "length block = 32"
  shows "quantize_q8_0_block_avx2 block = quantize_q8_0_block block"
proof -
  define max_abs where "max_abs = f32_div (peak (map (\<lambda>v. if f32_is_nan v then 0 else f32_abs v) block)) (f32_of_int 127)"
  define factor where "factor = (if f32_eq max_abs 0 then 0 else f32_div (f32_of_int 1) max_abs)"
  define g where "g x = (if f32_is_nan (f32_mul x factor) then 0 else lane_value (f32_mul x factor))" for x
  define part where "part k = take 8 (drop k block)" for k
  have part: "length (part k) = 8" if "k \<le> 24" for k using that assms by (simp add: part_def)
  have lanes: "round_half_away_clamped_to_i32 (mul_ps (part k) (set1_ps factor)) = map word_of_int (map g (part k))" if "k \<le> 24" for k
    using rounded_lanes [OF part [OF that]] by (simp add: avx2_lane_value g_def)
  have range: "list_all is_i8 (map g xs)" for xs
    using lane_value_range by (auto simp: list_all_iff g_def is_i8_def)
  have all: "map g (part 0) @ map g (part 8) @ map g (part 16) @ map g (part 24) = map g block"
    using arg_cong [OF parts_of_32(2) [OF assms], of "map g"] unfolding part_def map_append drop_0 by (rule sym)
  have "quantize_q8_0_block_avx2 block = \<lparr>q8_scale = f16_bits_to_f32 (f32_to_f16_bits max_abs), q8_quants = stored_i8 (permutevar8x32
      (packs_epi16 (packs_epi32 (map word_of_int (map g (part 0))) (map word_of_int (map g (part 8))))
        (packs_epi32 (map word_of_int (map g (part 16))) (map word_of_int (map g (part 24))))) [0, 4, 1, 5, 2, 6, 3, 7])\<rparr>"
    using lanes [of 0] lanes [of 8] lanes [of 16] lanes [of 24]
    unfolding quantize_q8_0_block_avx2_def Let_def avx2_peak [OF assms] max_abs_def [symmetric] unfolding factor_def [symmetric]
    by (simp only: part_def drop_0)
  also have "\<dots> = \<lparr>q8_scale = f16_bits_to_f32 (f32_to_f16_bits max_abs), q8_quants = map g block\<rparr>"
    by (simp only: packs_small range interleaved_range permuted length_map part le_refl all stored_of_lanes)
  also have "\<dots> = quantize_q8_0_block block"
    unfolding portable_block block_of_peak_def Let_def max_abs_def [symmetric] unfolding factor_def [symmetric] g_def ..
  finally show ?thesis .
qed

text \<open>Property C1: the AVX2 quantizer gives the portable blocks, bit for bit, for every input: not-a-numbers, infinities,
  ties, values just below a half and scales that vanish in half precision included.\<close>

theorem avx2_quantizer_is_portable: "windows_quantize_q8_0_blocks avx2 input = quantize_q8_0_blocks input"
  by (auto simp: windows_quantize_q8_0_blocks_def quantize_q8_0_blocks_def windows_quantize_q8_0_block_def avx2_block_value block_sizes)

end
