(* ===== verification/InTree.thy ===== *)
theory InTree
  imports Runtime GenerationPool Surface
begin

text \<open>
  The replica's own HTTP interface (\<^verbatim>\<open>server/src/in_tree.rs\<close>): the model facts it publishes, the
  checks of a completion request in their order, the rendering of a chat, and the answers. The
  parameters are what serde and axum read from a request, Rust's Unicode lower-casing, the template
  engine, the clock, and the answer that the generation pool gives when a job is posted. The
  counters of the identifiers are state. An answer is a JSON response; \<^verbatim>\<open>Json\<close> sets its content type.
\<close>

section \<open>The backend\<close>

definition DEFAULT_MAX_TOKENS :: nat where "DEFAULT_MAX_TOKENS = 16"

record ModelDescriptor =
  md_id :: string
  md_architecture :: string
  md_context_length :: nat
  md_embedding_length :: nat
  md_vocab_size :: nat
  md_file_type :: "nat option"
  md_size_bytes :: "nat option"

record ChatTemplate =
  ct_source :: string
  ct_bos_token :: string
  ct_eos_token :: string
  ct_eot_token :: string
  ct_eom_token :: string
  ct_unk_token :: string

record 's CompletionBackend =
  cb_descriptor :: ModelDescriptor
  cb_complete :: "string \<Rightarrow> nat \<Rightarrow> Completion run"
  cb_complete_incremental :: "string \<Rightarrow> nat \<Rightarrow> 's delta_consumer \<Rightarrow> 's \<Rightarrow> 's generation"
  cb_chat_template :: "ChatTemplate option"
  cb_complete_prompt :: "string \<Rightarrow> bool \<Rightarrow> bool \<Rightarrow> nat \<Rightarrow> Completion run"
  cb_complete_prompt_incremental :: "string \<Rightarrow> bool \<Rightarrow> bool \<Rightarrow> nat \<Rightarrow> 's delta_consumer \<Rightarrow> 's \<Rightarrow> 's generation"

text \<open>The descriptor of a loaded model; the vocabulary size is expected to be there.\<close>

definition descriptor_of :: "string \<Rightarrow> nat option \<Rightarrow> LoadedModel \<Rightarrow> ModelDescriptor option" where
  "descriptor_of model_id size_bytes model = (let config = lm_config model in
     map_option (\<lambda>vocab. \<lparr>md_id = model_id, md_architecture = lm_architecture model, md_context_length = context_length config,
       md_embedding_length = embedding_length config, md_vocab_size = vocab, md_file_type = file_type config,
       md_size_bytes = size_bytes\<rparr>) (vocab_size config))"

definition chat_template_of :: "Tokenizer \<Rightarrow> ChatTemplate option" where
  "chat_template_of tk = (let token = (\<lambda>i. default [] (token_text tk i)); special = tk_special tk in
     map_option (\<lambda>source. \<lparr>ct_source = source, ct_bos_token = token (sp_bos special), ct_eos_token = token (sp_eos special),
       ct_eot_token = token (sp_eot special), ct_eom_token = token (sp_eom special), ct_unk_token = token (sp_unk special)\<rparr>)
     (tk_chat_template tk))"

definition loaded_model_backend :: "char_lib \<Rightarrow> libm \<Rightarrow> string \<Rightarrow> nat option \<Rightarrow> LoadedModel \<Rightarrow> (string, 's CompletionBackend) res option" where
  "loaded_model_backend lib m model_id size_bytes model =
     (if text_trim model_id = [] then Some (Inl ''model id must not be empty'')
      else map_option (\<lambda>desc. Inr \<lparr>cb_descriptor = desc,
        cb_complete = model_complete lib m model, cb_complete_incremental = complete_incremental lib m model,
        cb_chat_template = chat_template_of (lm_tokenizer model), cb_complete_prompt = complete_prompt lib m model,
        cb_complete_prompt_incremental = complete_prompt_incremental lib m model\<rparr>) (descriptor_of model_id size_bytes model))"

section \<open>Errors\<close>

definition api_error :: "nat \<Rightarrow> string \<Rightarrow> string \<Rightarrow> string option \<Rightarrow> json response" where
  "api_error status code message param =
     (let error_type = (if status = 500 then ''server_error'' else if status = 501 then ''not_implemented''
            else if status = 503 then ''runtime_unavailable'' else ''invalid_request'') in
      json_response status (JObject [(''error'', JObject [(''message'', JString message), (''type'', JString error_type),
        (''code'', JString code), (''param'', json_opt param)])]))"

fun engine_error_parts :: "EngineError \<Rightarrow> string \<times> string" where
  "engine_error_parts (ShapeMismatch message) = (''context_length_exceeded'', message)"
| "engine_error_parts other = (''generation_failed'', error_text other)"

fun engine_error :: "EngineError \<Rightarrow> json response" where
  "engine_error (ShapeMismatch message) = api_error 400 ''context_length_exceeded'' message (Some ''max_tokens'')"
| "engine_error other = api_error 500 ''generation_failed'' (error_text other) None"

definition engine_post_error :: "PostError \<Rightarrow> json response" where
  "engine_post_error e = with_header ''retry-after'' ''1'' (case e of
       Full \<Rightarrow> api_error 503 ''engine_queue_full'' ''the deterministic generation queue is full'' None
     | Unavailable \<Rightarrow> api_error 503 ''generation_worker_unavailable'' ''the deterministic generation worker is unavailable'' None)"

section \<open>Discovery\<close>

text \<open>What the handlers share; \<open>as_posted\<close> is the pool's answer to the job of this request.\<close>

record 's ApiState =
  as_backend :: "'s CompletionBackend"
  as_posted :: "(PostError, unit) res"
  as_depth :: nat
  as_slots :: nat

definition health :: "'s ApiState \<Rightarrow> json response" where
  "health state = json_response 200 (JObject [(''ok'', JBool True), (''engine'', JString ''camelid''), (''loaded_now'', JBool True),
     (''generation_ready'', JBool True), (''active_model_id'', JString (md_id (cb_descriptor (as_backend state)))),
     (''backend'', JString ''engine-core''), (''engine_queue_depth'', json_nat (as_depth state)),
     (''engine_generation_slots'', json_nat (as_slots state))])"

definition model_item :: "ModelDescriptor \<Rightarrow> json" where
  "model_item d = JObject [(''id'', JString (md_id d)), (''object'', JString ''model''), (''created'', json_nat 0),
     (''owned_by'', JString ''camelid''), (''meta'', JObject ([(''n_vocab'', json_nat (md_vocab_size d)),
       (''n_ctx_train'', json_nat (md_context_length d)), (''n_embd'', json_nat (md_embedding_length d))]
       @ (case md_size_bytes d of None \<Rightarrow> [] | Some n \<Rightarrow> [(''size'', json_nat n)])
       @ (case md_file_type d of None \<Rightarrow> [] | Some n \<Rightarrow> [(''file_type'', json_nat n)])
       @ [(''architecture'', JString (md_architecture d))]))]"

definition models :: "'s ApiState \<Rightarrow> json response" where
  "models state = json_response 200 (JObject [(''object'', JString ''list''),
     (''data'', JArray [model_item (cb_descriptor (as_backend state))])])"

definition model_not_found :: "string \<Rightarrow> json response" where
  "model_not_found requested = api_error 404 ''model_not_found'' (''model '' @ [CHR 0x27] @ requested @ [CHR 0x27] @ '' is not loaded'') (Some ''model'')"

definition model_handler :: "string \<Rightarrow> 's ApiState \<Rightarrow> json response" where
  "model_handler model_id state = (let d = cb_descriptor (as_backend state) in
     if model_id = md_id d then json_response 200 (model_item d) else model_not_found model_id)"

section \<open>Routes that are refused\<close>

definition unsupported_route :: "string \<Rightarrow> string \<Rightarrow> json response" where
  "unsupported_route code message = api_error 501 code message (Some ''input'')"

definition unsupported_embeddings :: "json response" where
  "unsupported_embeddings = unsupported_route ''unsupported_embeddings''
     ''embeddings are not supported yet; Camelid has no embeddings runtime or compatibility contract for this route''"

definition unsupported_reranking :: "json response" where
  "unsupported_reranking = unsupported_route ''unsupported_reranking''
     ''reranking is not supported yet; Camelid has no reranking runtime or compatibility contract for this route''"

definition unsupported_responses :: "json response" where
  "unsupported_responses = unsupported_route ''unsupported_responses''
     (''OpenAI Responses compatibility is not supported yet; Camelid keeps generation on /v1/completions and ''
      @ ''/v1/chat/completions until request conversion, streaming, tool, and cancellation semantics are implemented and tested'')"

definition unsupported_messages :: "json response" where
  "unsupported_messages = unsupported_route ''unsupported_messages''
     (''Anthropic Messages compatibility is not supported yet; Camelid keeps generation on /v1/completions and ''
      @ ''/v1/chat/completions until request conversion, streaming, tool, and cancellation semantics are implemented and tested'')"

section \<open>Chat prompts\<close>

record ChatMessage =
  cm_role :: string
  cm_content :: string

record RenderedChatPrompt =
  rc_text :: string
  rc_add_special :: bool
  rc_parse_special :: bool

definition is_llama3_instruct_template :: "string \<Rightarrow> bool" where
  "is_llama3_instruct_template template \<longleftrightarrow> str_contains template ''<|start_header_id|>''
     \<and> str_contains template ''<|end_header_id|>'' \<and> str_contains template ''<|eot_id|>''"

definition LLAMA32_ROWS :: "string list" where
  "LLAMA32_ROWS = [''llama32_1b_instruct_q8_0'', ''llama_3_2_1b_instruct_q8_0'', ''llama32_3b_instruct_q8_0'', ''llama_3_2_3b_instruct_q8_0'']"

definition is_llama32_row_id :: "(string \<Rightarrow> string) \<Rightarrow> string \<Rightarrow> bool" where
  "is_llama32_row_id lowercase model_id =
     (let normalized = map (\<lambda>c. if c \<in> {CHR ''-'', CHR ''.'', CHR '' ''} then CHR ''_'' else c) (lowercase model_id) in
      list_ex (str_contains normalized) LLAMA32_ROWS)"

definition two_newlines :: string where "two_newlines = [CHR 0x0A, CHR 0x0A]"

definition llama3_message :: "ChatMessage \<Rightarrow> string" where
  "llama3_message message = ''<|start_header_id|>'' @ text_trim (cm_role message) @ ''<|end_header_id|>'' @ two_newlines
     @ cm_content message @ ''<|eot_id|>''"

definition render_llama3_instruct_prompt :: "ChatMessage list \<Rightarrow> string" where
  "render_llama3_instruct_prompt messages = concat (map llama3_message messages)
     @ (if messages = [] \<or> text_trim (cm_role (last messages)) \<noteq> ''assistant''
        then ''<|start_header_id|>assistant<|end_header_id|>'' @ two_newlines else [])"

text \<open>The template engine, given the messages with their trimmed roles.\<close>

type_synonym template_engine = "(string \<times> string) list \<Rightarrow> ChatTemplate \<Rightarrow> (string, string) res"

definition render_metadata_chat_template :: "template_engine \<Rightarrow> ChatMessage list \<Rightarrow> ChatTemplate \<Rightarrow> (string, string) res" where
  "render_metadata_chat_template jinja messages template = jinja (map (\<lambda>m. (text_trim (cm_role m), cm_content m)) messages) template"

definition render_chat_prompt ::
  "(string \<Rightarrow> string) \<Rightarrow> template_engine \<Rightarrow> ChatMessage list \<Rightarrow> ChatTemplate \<Rightarrow> string \<Rightarrow> (string, RenderedChatPrompt) res" where
  "render_chat_prompt lowercase jinja messages template model_id =
     (if is_llama3_instruct_template (ct_source template) \<and> \<not> is_llama32_row_id lowercase model_id
      then Inr \<lparr>rc_text = render_llama3_instruct_prompt messages, rc_add_special = True, rc_parse_special = True\<rparr>
      else and_then (render_metadata_chat_template jinja messages template) (\<lambda>rendered.
        Inr \<lparr>rc_text = rendered,
             rc_add_special = (ct_bos_token template = [] \<or> \<not> starts_with rendered (ct_bos_token template)),
             rc_parse_special = True\<rparr>))"

section \<open>Generations\<close>

datatype GenerationInput = RawCompletion string | RenderedChat string bool bool

text \<open>A job that panics answers nobody, and the pool reports that it is unavailable.\<close>

definition run_generation :: "'s ApiState \<Rightarrow> GenerationInput \<Rightarrow> nat \<Rightarrow> (json response, Completion) res" where
  "run_generation state input max_new_tokens =
     (let backend = as_backend state;
          outcome = (case input of
              RawCompletion prompt \<Rightarrow> cb_complete backend prompt max_new_tokens
            | RenderedChat prompt add_special parse_special \<Rightarrow> cb_complete_prompt backend prompt add_special parse_special max_new_tokens) in
      case pool_run (as_posted state) outcome of
        Inr (Inr completion) \<Rightarrow> Inr completion
      | Inr (Inl e) \<Rightarrow> Inl (engine_error e)
      | Inl e \<Rightarrow> Inl (engine_post_error e))"

fun finish_reason_text :: "FinishReason \<Rightarrow> string" where
  "finish_reason_text FinishEndOfGeneration = ''stop''"
| "finish_reason_text FinishLength = ''length''"

text \<open>Identifiers: two process-wide counters that wrap around.\<close>

record id_counters =
  id_completion :: nat
  id_chat :: nat

definition first_ids :: id_counters where "first_ids = \<lparr>id_completion = 1, id_chat = 1\<rparr>"

definition next_completion_id :: "id_counters \<Rightarrow> string \<times> id_counters" where
  "next_completion_id ids = (''cmpl-in-tree-'' @ show_nat (id_completion ids), ids\<lparr>id_completion := (id_completion ids + 1) mod 2 ^ 64\<rparr>)"

definition next_chat_completion_id :: "id_counters \<Rightarrow> string \<times> id_counters" where
  "next_chat_completion_id ids = (''chatcmpl-in-tree-'' @ show_nat (id_chat ids), ids\<lparr>id_chat := (id_chat ids + 1) mod 2 ^ 64\<rparr>)"

definition usage_of :: "Completion \<Rightarrow> json" where
  "usage_of c = (let p = length (c_prompt_tokens c); n = length (c_generated_tokens c) in
     JObject [(''prompt_tokens'', json_nat p), (''completion_tokens'', json_nat n), (''total_tokens'', json_nat (p + n))])"

definition diagnostics_of :: "Completion \<Rightarrow> json" where
  "diagnostics_of c = JObject [(''prompt_token_ids'', JArray (map json_nat (c_prompt_tokens c))),
     (''generated_token_ids'', JArray (map json_nat (c_generated_tokens c)))]"

definition completion_body :: "string \<Rightarrow> nat \<Rightarrow> string \<Rightarrow> Completion \<Rightarrow> json" where
  "completion_body i created model_id c = JObject [(''id'', JString i), (''object'', JString ''text_completion''),
     (''created'', json_nat created), (''model'', JString model_id),
     (''choices'', JArray [JObject [(''index'', json_nat 0), (''text'', JString (c_text c)),
        (''finish_reason'', JString (finish_reason_text (c_finish_reason c)))]]),
     (''usage'', usage_of c), (''camelid'', diagnostics_of c)]"

definition chat_completion_body :: "string \<Rightarrow> nat \<Rightarrow> string \<Rightarrow> Completion \<Rightarrow> json" where
  "chat_completion_body i created model_id c = JObject [(''id'', JString i), (''object'', JString ''chat.completion''),
     (''created'', json_nat created), (''model'', JString model_id),
     (''choices'', JArray [JObject [(''index'', json_nat 0),
        (''message'', JObject [(''role'', JString ''assistant''), (''content'', JString (c_text c))]),
        (''finish_reason'', JString (finish_reason_text (c_finish_reason c)))]]),
     (''usage'', usage_of c), (''camelid'', diagnostics_of c)]"

section \<open>Requests\<close>

record CompletionRequest =
  cr_model :: "string option"
  cr_prompt :: "string option"
  cr_stream :: "bool option"
  cr_max_tokens :: "nat option"
  cr_temperature :: "f32 option"
  cr_unsupported_fields :: "string list"

record ChatCompletionRequest =
  cc_model :: "string option"
  cc_messages :: "ChatMessage list option"
  cc_stream :: "bool option"
  cc_max_tokens :: "nat option"
  cc_temperature :: "f32 option"
  cc_unsupported_fields :: "string list"

fun join_comma :: "string list \<Rightarrow> string" where
  "join_comma [] = []"
| "join_comma [x] = x"
| "join_comma (x # xs) = x @ '', '' @ join_comma xs"

definition ACCEPTED_ROLES :: "string list" where "ACCEPTED_ROLES = [''system'', ''user'', ''assistant'']"

definition unsupported_parameter :: "string \<Rightarrow> string list \<Rightarrow> json response" where
  "unsupported_parameter kind names = api_error 400 ''unsupported_parameter'' (''unsupported '' @ kind @ '' field(s): '' @ join_comma names) (Some ''body'')"

definition unsupported_sampling :: "json response" where
  "unsupported_sampling = api_error 400 ''unsupported_sampling'' ''the deterministic lane accepts only temperature:0'' (Some ''temperature'')"

definition missing_parameter :: "string \<Rightarrow> json response" where
  "missing_parameter name = api_error 400 ''missing_required_parameter'' (name @ '' is required'') (Some name)"

definition samples :: "f32 option \<Rightarrow> bool" where
  "samples temperature = (case temperature of None \<Rightarrow> False | Some t \<Rightarrow> \<not> f32_eq t 0)"

definition other_model :: "string option \<Rightarrow> ModelDescriptor \<Rightarrow> string option" where
  "other_model requested d = (case requested of None \<Rightarrow> None | Some name \<Rightarrow> if name \<noteq> md_id d then Some name else None)"

text \<open>The checks of a raw completion, up to the prompt.\<close>

definition admit_completion :: "ModelDescriptor \<Rightarrow> (string, CompletionRequest) res \<Rightarrow> (json response, CompletionRequest \<times> string) res" where
  "admit_completion d payload = (case payload of
       Inl e \<Rightarrow> Inl (api_error 400 ''malformed_json'' e None)
     | Inr request \<Rightarrow>
         if cr_unsupported_fields request \<noteq> [] then Inl (unsupported_parameter ''completion'' (cr_unsupported_fields request))
         else (case other_model (cr_model request) d of
             Some requested \<Rightarrow> Inl (model_not_found requested)
           | None \<Rightarrow> (case cr_prompt request of
               None \<Rightarrow> Inl (missing_parameter ''prompt'')
             | Some prompt \<Rightarrow> if samples (cr_temperature request) then Inl unsupported_sampling else Inr (request, prompt))))"

definition bad_role :: "ChatMessage list \<Rightarrow> nat option" where
  "bad_role messages = find (\<lambda>i. text_trim (cm_role (messages ! i)) \<notin> set ACCEPTED_ROLES) [0 ..< length messages]"

definition admit_chat :: "ModelDescriptor \<Rightarrow> (string, ChatCompletionRequest) res \<Rightarrow> (json response, ChatCompletionRequest \<times> ChatMessage list) res" where
  "admit_chat d payload = (case payload of
       Inl e \<Rightarrow> Inl (api_error 400 ''malformed_json'' e None)
     | Inr request \<Rightarrow>
         if cc_unsupported_fields request \<noteq> [] then Inl (unsupported_parameter ''chat completion'' (cc_unsupported_fields request))
         else (case other_model (cc_model request) d of
             Some requested \<Rightarrow> Inl (model_not_found requested)
           | None \<Rightarrow> (case cc_messages request of
               None \<Rightarrow> Inl (missing_parameter ''messages'')
             | Some messages \<Rightarrow>
                 if messages = [] then Inl (api_error 400 ''invalid_messages'' ''messages must contain at least one chat message'' (Some ''messages''))
                 else (case bad_role messages of
                     Some i \<Rightarrow> Inl (api_error 400 ''unsupported_message_role'' (''messages['' @ show_nat i @ ''] has unsupported role ''
                         @ [CHR 0x27] @ text_trim (cm_role (messages ! i)) @ [CHR 0x27]) (Some ''messages''))
                   | None \<Rightarrow> if samples (cc_temperature request) then Inl unsupported_sampling else Inr (request, messages)))))"

definition chat_prompt_of ::
  "(string \<Rightarrow> string) \<Rightarrow> template_engine \<Rightarrow> 's CompletionBackend \<Rightarrow> ChatMessage list \<Rightarrow> (json response, RenderedChatPrompt) res" where
  "chat_prompt_of lowercase jinja backend messages = (case cb_chat_template backend of
       None \<Rightarrow> Inl (api_error 422 ''unsupported_chat_template'' ''the loaded tokenizer has no embedded chat template; chat fails closed'' (Some ''messages''))
     | Some template \<Rightarrow> map_err (\<lambda>e. api_error 422 ''unsupported_chat_template''
           (''the embedded chat template could not render this request: '' @ e) (Some ''messages''))
         (render_chat_prompt lowercase jinja messages template (md_id (cb_descriptor backend))))"

definition max_tokens_of :: "nat option \<Rightarrow> nat" where "max_tokens_of n = default DEFAULT_MAX_TOKENS n"

end
