(* ===== verification/EventStream.thy ===== *)
theory EventStream
  imports InTree
begin

text \<open>
  The event stream of a generation (\<^verbatim>\<open>server/src/in_tree/stream.rs\<close>) and the two generation handlers
  (\<^verbatim>\<open>server/src/in_tree.rs\<close>). The channel between the worker and the response is the list of the
  events sent; whether its receiver is gone at the \<open>n\<close>-th look is the parameter \<open>gone\<close>. A send waits
  for room in the channel's buffer of 32 events and fails when the receiver goes away.
\<close>

section \<open>The worker's side\<close>

datatype StreamGenerationEvent = EventDelta string | EventFinished string | EventFailed string string

record event_sink =
  sk_looks :: nat
  sk_sent :: "StreamGenerationEvent list"

definition new_sink :: event_sink where "new_sink = \<lparr>sk_looks = 0, sk_sent = []\<rparr>"

definition is_closed :: "(nat \<Rightarrow> bool) \<Rightarrow> event_sink \<Rightarrow> bool \<times> event_sink" where
  "is_closed gone s = (gone (sk_looks s), s\<lparr>sk_looks := sk_looks s + 1\<rparr>)"

definition blocking_send :: "(nat \<Rightarrow> bool) \<Rightarrow> StreamGenerationEvent \<Rightarrow> event_sink \<Rightarrow> bool \<times> event_sink" where
  "blocking_send gone event s =
     (if gone (sk_looks s) then (False, s\<lparr>sk_looks := sk_looks s + 1\<rparr>)
      else (True, s\<lparr>sk_looks := sk_looks s + 1, sk_sent := sk_sent s @ [event]\<rparr>))"

definition stream_consumer :: "(nat \<Rightarrow> bool) \<Rightarrow> event_sink delta_consumer" where
  "stream_consumer gone = (\<lambda>s delta. case is_closed gone s of
       (True, s) \<Rightarrow> (s, GenerationCancel)
     | (False, s) \<Rightarrow>
         if delta_text delta = [] then (s, GenerationContinue)
         else (case blocking_send gone (EventDelta (delta_text delta)) s of
             (sent, s) \<Rightarrow> (s, if sent then GenerationContinue else GenerationCancel)))"

text \<open>\<open>None\<close>: the job panics, and the channel closes after what it had sent.\<close>

definition run_stream_generation :: "(nat \<Rightarrow> bool) \<Rightarrow> event_sink CompletionBackend \<Rightarrow> GenerationInput \<Rightarrow> nat \<Rightarrow> event_sink option" where
  "run_stream_generation gone backend input max_new_tokens = (case is_closed gone new_sink of
       (True, s) \<Rightarrow> Some s
     | (False, s) \<Rightarrow>
         (case (case input of
                RawCompletion prompt \<Rightarrow> cb_complete_incremental backend prompt max_new_tokens (stream_consumer gone) s
              | RenderedChat prompt add_special parse_special \<Rightarrow>
                  cb_complete_prompt_incremental backend prompt add_special parse_special max_new_tokens (stream_consumer gone) s) of
            None \<Rightarrow> None
          | Some (s, Inr (GenerationCompleted c)) \<Rightarrow> Some (snd (blocking_send gone (EventFinished (finish_reason_text (c_finish_reason c))) s))
          | Some (s, Inr GenerationCancelled) \<Rightarrow> Some s
          | Some (s, Inl e) \<Rightarrow> (case engine_error_parts e of
              (code, message) \<Rightarrow> Some (snd (blocking_send gone (EventFailed code message) s)))))"

section \<open>The response's side\<close>

datatype sse_event = SseJson json | SseError json | SseDone

definition chat_chunk :: "string \<Rightarrow> string \<Rightarrow> (string \<times> json) list \<Rightarrow> string option \<Rightarrow> sse_event" where
  "chat_chunk i model_id delta finish_reason = SseJson (JObject [(''id'', JString i), (''object'', JString ''chat.completion.chunk''),
     (''created'', json_nat 0), (''model'', JString model_id),
     (''choices'', JArray [JObject [(''index'', json_nat 0), (''delta'', JObject delta), (''finish_reason'', json_opt finish_reason)]])])"

definition completion_chunk :: "string \<Rightarrow> string \<Rightarrow> string \<Rightarrow> string option \<Rightarrow> sse_event" where
  "completion_chunk i model_id piece finish_reason = SseJson (JObject [(''id'', JString i), (''object'', JString ''text_completion''),
     (''created'', json_nat 0), (''model'', JString model_id),
     (''choices'', JArray [JObject [(''index'', json_nat 0), (''text'', JString piece), (''finish_reason'', json_opt finish_reason)]])])"

definition stream_error_event :: "string \<Rightarrow> string \<Rightarrow> sse_event" where
  "stream_error_event code message = SseError (JObject [(''error'', JObject [(''type'', JString ''server_error''), (''code'', JString code),
     (''message'', JString message), (''param'', JNull)])])"

text \<open>What is yielded for the events received, up to the end of the stream.\<close>

fun stream_events :: "bool \<Rightarrow> string \<Rightarrow> string \<Rightarrow> StreamGenerationEvent list \<Rightarrow> sse_event list" where
  "stream_events chat i model_id (EventDelta delta # events) =
     (if chat then chat_chunk i model_id [(''content'', JString delta)] None else completion_chunk i model_id delta None)
     # stream_events chat i model_id events"
| "stream_events chat i model_id (EventFinished reason # events) =
     [if chat then chat_chunk i model_id [] (Some reason) else completion_chunk i model_id [] (Some reason), SseDone]"
| "stream_events chat i model_id (EventFailed code message # events) = [stream_error_event code message, SseDone]"
| "stream_events chat i model_id [] =
     [stream_error_event ''generation_worker_failed'' ''generation worker ended before completing the stream'', SseDone]"

definition stream_body :: "bool \<Rightarrow> string \<Rightarrow> string \<Rightarrow> StreamGenerationEvent list \<Rightarrow> sse_event list" where
  "stream_body chat i model_id events =
     (if chat then [chat_chunk i model_id [(''role'', JString ''assistant'')] None] else []) @ stream_events chat i model_id events"

datatype api_answer = Answered "json response" | Streaming "sse_event list"

type_synonym api_result = "(api_answer \<times> id_counters) option"

text \<open>The identifier is taken before the job is posted. \<open>None\<close>: the job panics.\<close>

definition stream_generation ::
  "(nat \<Rightarrow> bool) \<Rightarrow> event_sink ApiState \<Rightarrow> GenerationInput \<Rightarrow> nat \<Rightarrow> string \<Rightarrow> bool \<Rightarrow> id_counters \<Rightarrow> api_result" where
  "stream_generation gone state input max_new_tokens model_id chat ids =
     (case (if chat then next_chat_completion_id ids else next_completion_id ids) of (stream_id, ids) \<Rightarrow>
     (case as_posted state of
        Inl e \<Rightarrow> Some (Answered (engine_post_error e), ids)
      | Inr _ \<Rightarrow> map_option (\<lambda>sink. (Streaming (stream_body chat stream_id model_id (sk_sent sink)), ids))
          (run_stream_generation gone (as_backend state) input max_new_tokens)))"

section \<open>The handlers\<close>

definition whole_completion ::
  "nat \<Rightarrow> event_sink ApiState \<Rightarrow> GenerationInput \<Rightarrow> nat \<Rightarrow> bool \<Rightarrow> id_counters \<Rightarrow> api_answer \<times> id_counters" where
  "whole_completion now state input max_new_tokens chat ids = (let model_id = md_id (cb_descriptor (as_backend state)) in
     case run_generation state input max_new_tokens of
       Inl response \<Rightarrow> (Answered response, ids)
     | Inr c \<Rightarrow> (case (if chat then next_chat_completion_id ids else next_completion_id ids) of (i, ids) \<Rightarrow>
         (Answered (json_response 200 (if chat then chat_completion_body i now model_id c else completion_body i now model_id c)), ids)))"

definition generation_answer ::
  "(nat \<Rightarrow> bool) \<Rightarrow> nat \<Rightarrow> event_sink ApiState \<Rightarrow> GenerationInput \<Rightarrow> nat option \<Rightarrow> bool option \<Rightarrow> bool \<Rightarrow> id_counters \<Rightarrow> api_result" where
  "generation_answer gone now state input max_tokens stream chat ids =
     (if default False stream
      then stream_generation gone state input (max_tokens_of max_tokens) (md_id (cb_descriptor (as_backend state))) chat ids
      else Some (whole_completion now state input (max_tokens_of max_tokens) chat ids))"

definition completions ::
  "(nat \<Rightarrow> bool) \<Rightarrow> nat \<Rightarrow> event_sink ApiState \<Rightarrow> (string, CompletionRequest) res \<Rightarrow> id_counters \<Rightarrow> api_result" where
  "completions gone now state payload ids = (case admit_completion (cb_descriptor (as_backend state)) payload of
       Inl response \<Rightarrow> Some (Answered response, ids)
     | Inr (request, prompt) \<Rightarrow> generation_answer gone now state (RawCompletion prompt) (cr_max_tokens request) (cr_stream request) False ids)"

definition chat_completions ::
  "(string \<Rightarrow> string) \<Rightarrow> template_engine \<Rightarrow> (nat \<Rightarrow> bool) \<Rightarrow> nat \<Rightarrow> event_sink ApiState \<Rightarrow> (string, ChatCompletionRequest) res \<Rightarrow> id_counters
     \<Rightarrow> api_result" where
  "chat_completions lowercase jinja gone now state payload ids =
     (case and_then (admit_chat (cb_descriptor (as_backend state)) payload) (\<lambda>(request, messages).
           and_then (chat_prompt_of lowercase jinja (as_backend state) messages) (\<lambda>rendered. Inr (request, rendered))) of
       Inl response \<Rightarrow> Some (Answered response, ids)
     | Inr (request, rendered) \<Rightarrow>
         generation_answer gone now state (RenderedChat (rc_text rendered) (rc_add_special rendered) (rc_parse_special rendered))
           (cc_max_tokens request) (cc_stream request) True ids)"

end
