(* ===== verification/Replica.thy ===== *)
theory Replica
  imports EventStream Attribution
begin

text \<open>
  The router of the in-tree engine (\<^verbatim>\<open>server/src/in_tree.rs\<close>) and the composition of a replica around
  one loaded model (\<^verbatim>\<open>server/src/lib.rs\<close>): the model's public name, the re-check of the file, and the
  filters in front of the router. axum's path matching, its extractors and its own answers are the
  parameter \<open>axum_lib\<close>. Attribution, the outermost layer, is the function of \<open>Attribution\<close> on every answer.
\<close>

section \<open>The router\<close>

datatype endpoint =
    HealthRoute | ModelsRoute | ModelRoute | CompletionsRoute | ChatRoute
  | EmbeddingsRoute | ResponsesRoute | MessagesRoute | RerankingRoute

definition IMPLEMENTED_ROUTE_PATHS :: "string list" where
  "IMPLEMENTED_ROUTE_PATHS = [''/v1/health'', ''/v1/models'', ''/v1/models/:model'', ''/v1/completions'', ''/v1/chat/completions'',
     ''/v1/embeddings'', ''/v1/responses'', ''/v1/messages'', ''/v1/rerank'', ''/v1/reranking'']"

definition API_ROUTES :: "(string \<times> string \<times> endpoint) list" where
  "API_ROUTES = [(''/v1/health'', ''GET'', HealthRoute), (''/v1/models'', ''GET'', ModelsRoute), (''/v1/models/:model'', ''GET'', ModelRoute),
     (''/v1/completions'', ''POST'', CompletionsRoute), (''/v1/chat/completions'', ''POST'', ChatRoute),
     (''/v1/embeddings'', ''POST'', EmbeddingsRoute), (''/v1/responses'', ''POST'', ResponsesRoute),
     (''/v1/messages'', ''POST'', MessagesRoute), (''/v1/rerank'', ''POST'', RerankingRoute), (''/v1/reranking'', ''POST'', RerankingRoute)]"

text \<open>A route for \<^verbatim>\<open>GET\<close> answers \<^verbatim>\<open>HEAD\<close>, and the CORS layer of the routes answers every \<^verbatim>\<open>OPTIONS\<close>.\<close>

datatype dispatch = ToHandler endpoint | Preflight | MethodNotAllowed | NoRoute

record axum_lib =
  ax_matches :: "string \<Rightarrow> string \<Rightarrow> bool"
  ax_model_id :: "string \<Rightarrow> (json response, string) res"
  ax_completion :: "request \<Rightarrow> (string, CompletionRequest) res"
  ax_chat :: "request \<Rightarrow> (string, ChatCompletionRequest) res"
  ax_own_answer :: "dispatch \<Rightarrow> json response"

definition dispatch_of :: "axum_lib \<Rightarrow> string \<Rightarrow> string \<Rightarrow> dispatch" where
  "dispatch_of ax method path = (case find (\<lambda>(pattern, _). ax_matches ax pattern path) API_ROUTES of
       None \<Rightarrow> NoRoute
     | Some (_, admitted, endpoint) \<Rightarrow>
         if method = ''OPTIONS'' then Preflight
         else if method = admitted \<or> admitted = ''GET'' \<and> method = ''HEAD'' then ToHandler endpoint
         else MethodNotAllowed)"

record replica_env =
  re_lowercase :: "string \<Rightarrow> string"
  re_jinja :: template_engine
  re_gone :: "nat \<Rightarrow> bool"
  re_now :: nat
  re_axum :: axum_lib
  re_values :: value_lib

definition router_answer :: "replica_env \<Rightarrow> event_sink ApiState \<Rightarrow> request \<Rightarrow> id_counters \<Rightarrow> api_result" where
  "router_answer env state request ids =
     (let ax = re_axum env; path = uri_path (q_uri request); answer = (\<lambda>r. Some (Answered r, ids)) in
      case dispatch_of ax (q_method request) path of
        ToHandler HealthRoute \<Rightarrow> answer (health state)
      | ToHandler ModelsRoute \<Rightarrow> answer (models state)
      | ToHandler ModelRoute \<Rightarrow> answer (case ax_model_id ax path of Inl rejection \<Rightarrow> rejection | Inr model_id \<Rightarrow> model_handler model_id state)
      | ToHandler CompletionsRoute \<Rightarrow> completions (re_gone env) (re_now env) state (ax_completion ax request) ids
      | ToHandler ChatRoute \<Rightarrow> chat_completions (re_lowercase env) (re_jinja env) (re_gone env) (re_now env) state (ax_chat ax request) ids
      | ToHandler EmbeddingsRoute \<Rightarrow> answer unsupported_embeddings
      | ToHandler ResponsesRoute \<Rightarrow> answer unsupported_responses
      | ToHandler MessagesRoute \<Rightarrow> answer unsupported_messages
      | ToHandler RerankingRoute \<Rightarrow> answer unsupported_reranking
      | other \<Rightarrow> answer (ax_own_answer ax other))"

section \<open>The replica\<close>

text \<open>The name: the model's own, unless it is blank, and otherwise the stem of its file.\<close>

definition own_name :: "LoadedModel \<Rightarrow> string option" where
  "own_name model = (case lm_name model of Some name \<Rightarrow> if text_trim name \<noteq> [] then Some name else None | None \<Rightarrow> None)"

definition stem_name :: "LoadedModel \<Rightarrow> string option" where
  "stem_name model = (case file_stem (lm_source model) of Some stem \<Rightarrow> if is_utf8 stem \<and> stem \<noteq> [] then Some stem else None | None \<Rightarrow> None)"

definition served_model_id :: "LoadedModel \<Rightarrow> (string, string) res" where
  "served_model_id model = ok_or (''the loaded model at '' @ utf8_lossy (lm_source model)
       @ '' has neither general.name metadata nor a UTF-8 file stem'') (or_else (own_name model) (stem_name model))"

text \<open>\<open>metadata\<close> is what the file system answers at the re-check; the outer \<open>None\<close> is a panic.\<close>

definition replica_router ::
  "char_lib \<Rightarrow> libm \<Rightarrow> LoadedModel \<Rightarrow> string \<Rightarrow> Attribution \<Rightarrow> (string, FileFingerprint) res \<Rightarrow> nat option
     \<Rightarrow> (string, ServedModel \<times> event_sink CompletionBackend \<times> string) res option" where
  "replica_router lib m model requested identity metadata size_bytes =
     (case and_then (verify_unchanged (at_model identity) (lm_source model) metadata) (\<lambda>_. served_model_id model) of
        Inl e \<Rightarrow> Some (Inl e)
      | Inr model_id \<Rightarrow> map_option (\<lambda>r. and_then r (\<lambda>backend.
          Inr (served_model_new model_id (lm_source model) requested, backend, model_id)))
          (loaded_model_backend lib m model_id size_bytes model))"

text \<open>The filters in front of the router. \<open>None\<close>: the body is still arriving, or the job panics.\<close>

definition replica_answer :: "replica_env \<Rightarrow> ServedModel \<Rightarrow> event_sink ApiState \<Rightarrow> request \<Rightarrow> id_counters \<Rightarrow> api_result" where
  "replica_answer env served state request ids = (case serve_only_the_lane request of
       Waits \<Rightarrow> None
     | Answers r \<Rightarrow> Some (Answered r, ids)
     | Passes request \<Rightarrow> (case pin_generation_to_the_served_model (re_values env) served request of
         Waits \<Rightarrow> None
       | Answers r \<Rightarrow> Some (Answered r, ids)
       | Passes request \<Rightarrow> router_answer env state request ids))"

end
